(* ===== verification/Prelude.thy ===== *)
theory Prelude
  imports Complex_Main "HOL-Library.Sublist"
begin

text \<open>
  Shared vocabulary of the development: Python strings and the string methods the program
  uses, Python exceptions as values of a sum type, slices, and the lemma collections that the
  component theories extend.

  A Python \<open>str\<close> is a HOL \<open>string\<close>, i.e.\ a list of 8-bit characters. For ASCII text a
  character is a code point. The few non-ASCII literals of the program (Chinese routing
  keywords, dashes in prompts) are written as their UTF-8 bytes; substring tests agree on the
  two representations, whereas lengths and slice bounds count bytes.
\<close>

named_theorems py_simps \<open>evaluation rules of the Python library functions\<close>
named_theorems node_simps \<open>unfolding rules of the pipeline nodes\<close>
named_theorems store_simps \<open>read-over-write rules of the task store\<close>

subsection \<open>Exceptions as values\<close>

text \<open>An exception is its class name and its message: what \<open>type(e).__name__\<close> and
  \<open>str(e)\<close> read (without the quotes \<open>str\<close> puts around the key of a \<open>KeyError\<close>).\<close>

datatype py_exc = PyExc (exc_type: string) (exc_msg: string)

type_synonym 'a py = "py_exc + 'a"

definition py_bind :: "'a py \<Rightarrow> ('a \<Rightarrow> 'b py) \<Rightarrow> 'b py" where
  "py_bind m f = (case m of Inl e \<Rightarrow> Inl e | Inr x \<Rightarrow> f x)"

lemma py_bind_simps [simp]:
  "py_bind (Inl e) f = Inl e"
  "py_bind (Inr x) f = f x"
  by (simp_all add: py_bind_def)

lemma py_bind_Inr_iff: "py_bind m f = Inr y \<longleftrightarrow> (\<exists>x. m = Inr x \<and> f x = Inr y)"
  by (cases m) simp_all

definition py_ok :: "('a \<Rightarrow> bool) \<Rightarrow> 'a py \<Rightarrow> bool" where
  "py_ok P m = (case m of Inl e \<Rightarrow> False | Inr x \<Rightarrow> P x)"

lemma py_ok_iff: "py_ok P m \<longleftrightarrow> (\<exists>x. m = Inr x \<and> P x)"
  by (cases m) (auto simp: py_ok_def)

fun py_map :: "('a \<Rightarrow> 'b py) \<Rightarrow> 'a list \<Rightarrow> 'b list py" where
  "py_map f [] = Inr []"
| "py_map f (x # xs) = py_bind (f x) (\<lambda>y. py_bind (py_map f xs) (\<lambda>ys. Inr (y # ys)))"

subsection \<open>Characters\<close>

definition ord_of :: "char \<Rightarrow> nat" where
  "ord_of c = of_char c"

definition chr_of :: "nat \<Rightarrow> char" where
  "chr_of n = char_of n"

definition is_upper_char :: "char \<Rightarrow> bool" where
  "is_upper_char c \<longleftrightarrow> 65 \<le> ord_of c \<and> ord_of c \<le> 90"

definition is_lower_char :: "char \<Rightarrow> bool" where
  "is_lower_char c \<longleftrightarrow> 97 \<le> ord_of c \<and> ord_of c \<le> 122"

definition is_digit_char :: "char \<Rightarrow> bool" where
  "is_digit_char c \<longleftrightarrow> 48 \<le> ord_of c \<and> ord_of c \<le> 57"

definition is_space_char :: "char \<Rightarrow> bool" where
  "is_space_char c \<longleftrightarrow>
     ord_of c = 32 \<or> (9 \<le> ord_of c \<and> ord_of c \<le> 13) \<or> (28 \<le> ord_of c \<and> ord_of c \<le> 31)"

text \<open>The class \<open>\w\<close>: letters, digits and underscore; a byte of a non-ASCII letter counts
  as a letter.\<close>

definition is_word_char :: "char \<Rightarrow> bool" where
  "is_word_char c \<longleftrightarrow>
     is_upper_char c \<or> is_lower_char c \<or> is_digit_char c \<or> ord_of c = 95 \<or> 128 \<le> ord_of c"

definition lower_char :: "char \<Rightarrow> char" where
  "lower_char c = (if is_upper_char c then chr_of (ord_of c + 32) else c)"

definition upper_char :: "char \<Rightarrow> char" where
  "upper_char c = (if is_lower_char c then chr_of (ord_of c - 32) else c)"

lemma ord_chr [simp]: "n < 256 \<Longrightarrow> ord_of (chr_of n) = n"
  by (simp add: ord_of_def chr_of_def)

lemma lower_char_not_upper [simp]: "\<not> is_upper_char (lower_char c)"
  by (auto simp: lower_char_def is_upper_char_def)

lemma upper_char_not_lower [simp]: "\<not> is_lower_char (upper_char c)"
  by (auto simp: upper_char_def is_lower_char_def)

lemma lower_char_idem [simp]: "lower_char (lower_char c) = lower_char c"
  by (simp add: lower_char_def [of "lower_char c"])

lemma upper_char_idem [simp]: "upper_char (upper_char c) = upper_char c"
  by (simp add: upper_char_def [of "upper_char c"])

lemma lower_upper_char [simp]: "lower_char (upper_char c) = lower_char c"
  by (auto simp: lower_char_def upper_char_def is_upper_char_def is_lower_char_def ord_of_def chr_of_def)

subsection \<open>String methods\<close>

definition lower :: "string \<Rightarrow> string" where
  "lower s = map lower_char s"

definition upper :: "string \<Rightarrow> string" where
  "upper s = map upper_char s"

lemma length_lower [simp]: "length (lower s) = length s"
  by (simp add: lower_def)

lemma length_upper [simp]: "length (upper s) = length s"
  by (simp add: upper_def)

lemma lower_idem [simp]: "lower (lower s) = lower s"
  by (simp add: lower_def)

lemma upper_idem [simp]: "upper (upper s) = upper s"
  by (simp add: upper_def)

lemma lower_upper [simp]: "lower (upper s) = lower s"
  by (simp add: lower_def upper_def)

lemma lower_Nil_iff [simp]: "lower s = [] \<longleftrightarrow> s = []"
  by (simp add: lower_def)

lemma upper_Nil_iff [simp]: "upper s = [] \<longleftrightarrow> s = []"
  by (simp add: upper_def)

lemma lower_append [simp]: "lower (s @ t) = lower s @ lower t"
  by (simp add: lower_def)

lemma upper_append [simp]: "upper (s @ t) = upper s @ upper t"
  by (simp add: upper_def)

text \<open>\<open>s.lstrip(cs)\<close>, \<open>s.rstrip(cs)\<close>, \<open>s.strip(cs)\<close> for a set of characters given as a
  predicate; without argument the predicate is white space.\<close>

definition lstrip_by :: "(char \<Rightarrow> bool) \<Rightarrow> string \<Rightarrow> string" where
  "lstrip_by p s = dropWhile p s"

definition rstrip_by :: "(char \<Rightarrow> bool) \<Rightarrow> string \<Rightarrow> string" where
  "rstrip_by p s = rev (dropWhile p (rev s))"

definition strip_by :: "(char \<Rightarrow> bool) \<Rightarrow> string \<Rightarrow> string" where
  "strip_by p s = rstrip_by p (lstrip_by p s)"

definition strip :: "string \<Rightarrow> string" where
  "strip s = strip_by is_space_char s"

lemma rstrip_by_Nil_iff: "rstrip_by p s = [] \<longleftrightarrow> (\<forall>c\<in>set s. p c)"
  by (simp add: rstrip_by_def)

lemma strip_Nil_iff: "strip s = [] \<longleftrightarrow> (\<forall>c\<in>set s. is_space_char c)"
proof -
  have "(\<forall>c\<in>set (dropWhile is_space_char s). is_space_char c) \<longleftrightarrow> (\<forall>c\<in>set s. is_space_char c)"
    by (induction s) auto
  then show ?thesis by (simp add: strip_def strip_by_def rstrip_by_Nil_iff lstrip_by_def)
qed

lemma strip_empty [simp]: "strip [] = []"
  by (simp add: strip_Nil_iff)

lemma rstrip_by_last: "rstrip_by p s \<noteq> [] \<Longrightarrow> \<not> p (last (rstrip_by p s))"
proof -
  assume "rstrip_by p s \<noteq> []"
  then have "dropWhile p (rev s) \<noteq> []" by (simp add: rstrip_by_def)
  then show ?thesis using hd_dropWhile [of p "rev s"] by (simp add: rstrip_by_def last_rev)
qed

lemma rstrip_by_id: "s = [] \<or> \<not> p (last s) \<Longrightarrow> rstrip_by p s = s"
  by (cases s rule: rev_cases) (auto simp: rstrip_by_def)

lemma rstrip_by_split: "\<exists>t. s = rstrip_by p s @ t \<and> (\<forall>c\<in>set t. p c)"
proof -
  have "rev s = takeWhile p (rev s) @ dropWhile p (rev s)" by simp
  then have "s = rev (dropWhile p (rev s)) @ rev (takeWhile p (rev s))"
    by (metis rev_append rev_rev_ident)
  then show ?thesis
    by (metis rstrip_by_def set_rev set_takeWhileD)
qed

lemma hd_rstrip_by: "rstrip_by p s \<noteq> [] \<Longrightarrow> hd (rstrip_by p s) = hd s"
  by (metis hd_append2 rstrip_by_split)

lemma strip_idem [simp]: "strip (strip s) = strip s"
proof (cases "strip s = []")
  case False
  define t where "t = lstrip_by is_space_char s"
  have ss: "strip s = rstrip_by is_space_char t"
    by (simp add: strip_def strip_by_def t_def)
  have "t \<noteq> []" using False ss by (auto simp: rstrip_by_def)
  then have "\<not> is_space_char (hd t)"
    by (metis dropWhile_eq_Nil_conv hd_dropWhile lstrip_by_def t_def)
  then have "\<not> is_space_char (hd (strip s))"
    using False ss by (simp add: hd_rstrip_by)
  then have "lstrip_by is_space_char (strip s) = strip s"
    using False by (cases "strip s") (auto simp: lstrip_by_def)
  moreover have "rstrip_by is_space_char (strip s) = strip s"
    using False ss rstrip_by_last [of is_space_char t] by (simp add: rstrip_by_id)
  ultimately show ?thesis by (simp add: strip_def strip_by_def)
qed simp

lemma strip_dropWhile [simp]: "strip (dropWhile is_space_char s) = strip s"
  by (simp add: strip_def strip_by_def lstrip_by_def)

lemma strip_snoc_space: "is_space_char c \<Longrightarrow> strip (s @ [c]) = strip s"
proof (cases "\<forall>x\<in>set s. is_space_char x")
  case True
  moreover assume "is_space_char c"
  ultimately have "strip (s @ [c]) = []" and "strip s = []" by (simp_all add: strip_Nil_iff)
  then show ?thesis by simp
next
  case False
  moreover assume "is_space_char c"
  ultimately show ?thesis
    by (auto simp: strip_def strip_by_def lstrip_by_def rstrip_by_def dropWhile_append)
qed

text \<open>\<open>sub in s\<close>\<close>

fun str_in :: "string \<Rightarrow> string \<Rightarrow> bool" where
  "str_in p [] \<longleftrightarrow> p = []"
| "str_in p (c # s) \<longleftrightarrow> prefix p (c # s) \<or> str_in p s"

lemma str_in_sublist: "str_in p s \<longleftrightarrow> sublist p s"
  by (induction s) (auto simp: sublist_Cons_right)

lemma str_in_iff: "str_in p s \<longleftrightarrow> (\<exists>u v. s = u @ p @ v)"
  by (simp add: str_in_sublist sublist_def)

lemma str_in_append [simp]: "str_in p (u @ p @ v)"
  by (auto simp: str_in_iff)

lemma str_in_trans: "str_in p q \<Longrightarrow> str_in q s \<Longrightarrow> str_in p s"
  unfolding str_in_sublist by (rule sublist_order.order.trans)

lemma str_in_upper: "str_in p s \<Longrightarrow> str_in (upper p) (upper s)"
  unfolding str_in_iff by (metis upper_append)

text \<open>\<open>s.find(sub)\<close>, with \<open>None\<close> for \<open>-1\<close>\<close>

fun find_sub :: "string \<Rightarrow> string \<Rightarrow> nat option" where
  "find_sub p [] = (if p = [] then Some 0 else None)"
| "find_sub p (c # s) =
     (if prefix p (c # s) then Some 0 else map_option Suc (find_sub p s))"

lemma find_sub_Some: "find_sub p s = Some i \<Longrightarrow> prefix p (drop i s) \<and> i \<le> length s"
  by (induction s arbitrary: i) (auto split: if_splits)

lemma find_sub_None: "find_sub p s = None \<longleftrightarrow> \<not> str_in p s"
  by (induction s) auto

lemma find_sub_least: "find_sub p s = Some n \<Longrightarrow> i < n \<Longrightarrow> \<not> prefix p (drop i s)"
proof (induction s arbitrary: n i)
  case (Cons c s)
  then show ?case by (cases i) (auto split: if_splits)
qed (auto split: if_splits)

lemma find_sub_after:
  assumes "p \<noteq> []" and "hd p \<notin> set x"
  shows "find_sub p (x @ p @ v) = Some (length x)"
  using assms(2)
proof (induction x)
  case Nil
  then show ?case using assms(1) by (cases p) auto
next
  case (Cons c x)
  then show ?case using assms(1) by (cases p) auto
qed

text \<open>\<open>s.rfind(sub)\<close>\<close>

fun rfind_sub :: "string \<Rightarrow> string \<Rightarrow> nat option" where
  "rfind_sub p [] = (if p = [] then Some 0 else None)"
| "rfind_sub p (c # s) =
     (case rfind_sub p s of
        Some i \<Rightarrow> Some (Suc i)
      | None \<Rightarrow> if prefix p (c # s) then Some 0 else None)"

lemma rfind_sub_Some: "rfind_sub p s = Some i \<Longrightarrow> prefix p (drop i s) \<and> i \<le> length s"
  by (induction s arbitrary: i) (auto split: if_splits option.splits)

text \<open>\<open>s.split(sep)\<close> for a non-empty separator; \<open>s.split()\<close> is \<open>split_ws\<close>.\<close>

function split_on :: "string \<Rightarrow> string \<Rightarrow> string \<Rightarrow> string list" where
  "split_on sep acc [] = [rev acc]"
| "split_on sep acc (c # s) =
     (if sep \<noteq> [] \<and> prefix sep (c # s)
      then rev acc # split_on sep [] (drop (length sep) (c # s))
      else split_on sep (c # acc) s)"
  by pat_completeness auto
termination
  by (relation "measure (\<lambda>(sep, acc, s). length s)") (auto simp: Suc_le_eq)

definition split :: "string \<Rightarrow> string \<Rightarrow> string list" where
  "split sep s = split_on sep [] s"

lemma split_on_not_Nil [simp]: "split_on sep acc s \<noteq> []"
  by (induction sep acc s rule: split_on.induct) auto

lemma split_not_Nil [simp]: "split sep s \<noteq> []"
  by (simp add: split_def)

lemma split_on_no_sep: "\<not> str_in sep s \<Longrightarrow> split_on sep acc s = [rev acc @ s]"
  by (induction sep acc s rule: split_on.induct) auto

lemma split_no_sep: "\<not> str_in sep s \<Longrightarrow> split sep s = [s]"
  by (simp add: split_def split_on_no_sep)

lemma split_on_single: "split_on sep acc s = [x] \<Longrightarrow> sep \<noteq> [] \<Longrightarrow> \<not> str_in sep s"
  by (induction sep acc s rule: split_on.induct) (auto split: if_splits)

lemma split_single_iff: "sep \<noteq> [] \<Longrightarrow> (\<exists>x. split sep s = [x]) \<longleftrightarrow> \<not> str_in sep s"
  unfolding split_def using split_on_single split_on_no_sep by blast

fun split_ws_on :: "string \<Rightarrow> string \<Rightarrow> string list" where
  "split_ws_on acc [] = (if acc = [] then [] else [rev acc])"
| "split_ws_on acc (c # s) =
     (if is_space_char c
      then (if acc = [] then split_ws_on [] s else rev acc # split_ws_on [] s)
      else split_ws_on (c # acc) s)"

definition split_ws :: "string \<Rightarrow> string list" where
  "split_ws s = split_ws_on [] s"

text \<open>\<open>sep.join(xs)\<close>\<close>

fun join :: "string \<Rightarrow> string list \<Rightarrow> string" where
  "join sep [] = []"
| "join sep [x] = x"
| "join sep (x # y # xs) = x @ sep @ join sep (y # xs)"

lemma join_Cons: "xs \<noteq> [] \<Longrightarrow> join sep (x # xs) = x @ sep @ join sep xs"
  by (cases xs) simp_all

lemma join_append: "xs \<noteq> [] \<Longrightarrow> ys \<noteq> [] \<Longrightarrow> join sep (xs @ ys) = join sep xs @ sep @ join sep ys"
proof (induction xs)
  case (Cons x xs)
  then show ?case by (cases "xs = []") (simp_all add: join_Cons)
qed simp

lemma str_in_join: "x \<in> set xs \<Longrightarrow> str_in x (join sep xs)"
proof (induction sep xs rule: join.induct)
  case (3 sep a b xs)
  show ?case
  proof (cases "x = a")
    case True
    then show ?thesis by (auto simp: str_in_iff intro: exI [of _ "[]"])
  next
    case False
    with 3 have "str_in x (join sep (b # xs))" by simp
    then obtain u v where "join sep (b # xs) = u @ x @ v" by (auto simp: str_in_iff)
    then have "join sep (a # b # xs) = (a @ sep @ u) @ x @ v" by simp
    then show ?thesis unfolding str_in_iff by blast
  qed
qed (auto simp: str_in_iff intro: exI [of _ "[]"])

text \<open>\<open>s.replace(old, new)\<close>\<close>

definition replace_all :: "string \<Rightarrow> string \<Rightarrow> string \<Rightarrow> string" where
  "replace_all old new s = join new (split old s)"

text \<open>\<open>s.isdigit()\<close>\<close>

definition isdigit :: "string \<Rightarrow> bool" where
  "isdigit s \<longleftrightarrow> s \<noteq> [] \<and> list_all is_digit_char s"

subsection \<open>Numbers as text\<close>

function show_nat :: "nat \<Rightarrow> string" where
  "show_nat n = (if n < 10 then [chr_of (48 + n)] else show_nat (n div 10) @ [chr_of (48 + n mod 10)])"
  by pat_completeness auto
termination
  by (relation "measure id") auto

declare show_nat.simps [simp del]

definition show_int :: "int \<Rightarrow> string" where
  "show_int i = (if i < 0 then ''-'' @ show_nat (nat (- i)) else show_nat (nat i))"

lemma show_nat_not_Nil [simp]: "show_nat n \<noteq> []"
  by (subst show_nat.simps) simp

text \<open>\<open>int(s)\<close> for a string of decimal digits, as matched by \<open>\d+\<close>\<close>

definition digit_val :: "char \<Rightarrow> nat" where
  "digit_val c = ord_of c - 48"

definition parse_nat :: "string \<Rightarrow> nat" where
  "parse_nat s = fold (\<lambda>c n. 10 * n + digit_val c) s 0"

lemma show_nat_digits: "list_all is_digit_char (show_nat n)"
proof (induction n rule: show_nat.induct)
  case (1 n)
  have d: "is_digit_char (chr_of (48 + k))" if "k < 10" for k using that by (simp add: is_digit_char_def)
  show ?case using 1 d [of n] d [of "n mod 10"] by (subst show_nat.simps) simp
qed

lemma parse_show_nat: "parse_nat (show_nat n) = n"
proof (induction n rule: show_nat.induct)
  case (1 n)
  show ?case
  proof (cases "n < 10")
    case True
    then show ?thesis by (simp add: show_nat.simps [of n] parse_nat_def digit_val_def)
  next
    case False
    then have "show_nat n = show_nat (n div 10) @ [chr_of (48 + n mod 10)]"
      by (simp add: show_nat.simps [of n])
    with 1 [OF False] show ?thesis by (simp add: parse_nat_def digit_val_def)
  qed
qed

subsection \<open>Lists\<close>

text \<open>Removal of later duplicates, keeping first occurrences in order: what a Python \<open>seen\<close>
  set does in a loop.\<close>

fun dedup_by :: "('a \<Rightarrow> 'k) \<Rightarrow> 'k list \<Rightarrow> 'a list \<Rightarrow> 'a list" where
  "dedup_by f seen [] = []"
| "dedup_by f seen (x # xs) =
     (if f x \<in> set seen then dedup_by f seen xs else x # dedup_by f (f x # seen) xs)"

lemma dedup_by_fresh: "x \<in> set (dedup_by f seen xs) \<Longrightarrow> f x \<notin> set seen"
  by (induction f seen xs rule: dedup_by.induct) (auto split: if_splits)

lemma distinct_dedup_by: "distinct (map f (dedup_by f seen xs))"
  by (induction f seen xs rule: dedup_by.induct) (auto dest: dedup_by_fresh)

lemma set_dedup_by: "f ` set (dedup_by f seen xs) = f ` set xs - set seen"
  by (induction f seen xs rule: dedup_by.induct) auto

lemma dedup_by_subset: "set (dedup_by f seen xs) \<subseteq> set xs"
  by (induction f seen xs rule: dedup_by.induct) auto

lemma find_in: "find P xs = Some x \<Longrightarrow> x \<in> set xs \<and> P x"
  by (auto simp: find_Some_iff)

text \<open>Python's \<open>sorted(xs, key=..., reverse=True)\<close> keeps the order of equal elements, as does
  an insertion sort that inserts before the first strictly smaller key.\<close>

fun insort_desc :: "('a \<Rightarrow> 'k::linorder) \<Rightarrow> 'a \<Rightarrow> 'a list \<Rightarrow> 'a list" where
  "insort_desc f x [] = [x]"
| "insort_desc f x (y # ys) = (if f y \<le> f x then x # y # ys else y # insort_desc f x ys)"

definition sort_desc :: "('a \<Rightarrow> 'k::linorder) \<Rightarrow> 'a list \<Rightarrow> 'a list" where
  "sort_desc f xs = foldr (insort_desc f) xs []"

lemma set_insort_desc [simp]: "set (insort_desc f x xs) = insert x (set xs)"
  by (induction xs) auto

lemma length_insort_desc [simp]: "length (insort_desc f x xs) = Suc (length xs)"
  by (induction xs) auto

lemma set_sort_desc [simp]: "set (sort_desc f xs) = set xs"
  by (induction xs) (auto simp: sort_desc_def)

lemma length_sort_desc [simp]: "length (sort_desc f xs) = length xs"
  by (induction xs) (auto simp: sort_desc_def)

lemma sorted_insort_desc:
  "sorted_wrt (\<lambda>a b. f b \<le> f a) xs \<Longrightarrow> sorted_wrt (\<lambda>a b. f b \<le> f a) (insort_desc f x xs)"
  by (induction xs) auto

lemma sorted_sort_desc: "sorted_wrt (\<lambda>a b. f b \<le> f a) (sort_desc f xs)"
  by (induction xs) (auto simp: sort_desc_def sorted_insort_desc)

lemma distinct_insort_desc:
  "distinct (map g xs) \<Longrightarrow> g x \<notin> g ` set xs \<Longrightarrow> distinct (map g (insort_desc f x xs))"
  by (induction xs) auto

lemma distinct_sort_desc: "distinct (map g xs) \<Longrightarrow> distinct (map g (sort_desc f xs))"
proof (induction xs)
  case (Cons x xs)
  then show ?case
    using set_sort_desc [of f xs]
    by (auto simp: sort_desc_def intro!: distinct_insort_desc)
qed (simp add: sort_desc_def)

subsection \<open>Evaluating the library functions\<close>

text \<open>The evaluation rules a concrete instance unfolds.\<close>

lemmas char_class_defs = is_upper_char_def is_lower_char_def is_digit_char_def is_space_char_def
  is_word_char_def lower_char_def upper_char_def ord_of_def chr_of_def char_of_def

lemmas string_method_defs = lower_def upper_def lstrip_by_def rstrip_by_def strip_by_def strip_def
  split_def split_ws_def replace_all_def isdigit_def

lemmas [py_simps] = char_class_defs string_method_defs

end
