(* ===== verification/PyRegex.thy ===== *)
theory PyRegex
  imports Prelude
begin

text \<open>
  The part of Python's \<open>re\<close> module the program uses: a backtracking matcher that returns all
  matches in the order the Python engine tries them, so that its first element is the match
  Python reports. A state is the consumed text (reversed), the remaining text and the captured
  groups. \<open>rmatch\<close> states the same matches as a relation, and \<open>rx_ms_iff\<close> shows that the matcher
  finds exactly them. Every pattern of the program that is searched repeatedly consumes text in
  each match, so the treatment of empty matches in \<open>finditer\<close> plays no role.
\<close>

datatype rx_state = RxSt (st_pre: string) (st_rest: string) (st_caps: "(nat \<times> string) list")

datatype rx =
    REps
  | RCls "char \<Rightarrow> bool"                 \<comment> \<open>one character of a class\<close>
  | RAt "string \<Rightarrow> string \<Rightarrow> bool"       \<comment> \<open>an assertion on the text before and after\<close>
  | RSeq rx rx
  | RAlt rx rx
  | RStar bool rx                       \<comment> \<open>\<open>r*\<close> (\<open>True\<close>) or \<open>r*?\<close> (\<open>False\<close>)\<close>
  | RGrp nat rx                         \<comment> \<open>a capturing group\<close>

fun star_from :: "bool \<Rightarrow> (rx_state \<Rightarrow> rx_state list) \<Rightarrow> nat \<Rightarrow> rx_state \<Rightarrow> rx_state list" where
  "star_from g step 0 a = [a]"
| "star_from g step (Suc n) a =
     (let more = concat (map (star_from g step n)
                   (filter (\<lambda>b. length (st_rest b) < length (st_rest a)) (step a)))
      in if g then more @ [a] else a # more)"

primrec rx_ms :: "rx \<Rightarrow> rx_state \<Rightarrow> rx_state list" where
  "rx_ms REps a = [a]"
| "rx_ms (RCls p) a = (case st_rest a of [] \<Rightarrow> []
      | c # cs \<Rightarrow> if p c then [RxSt (c # st_pre a) cs (st_caps a)] else [])"
| "rx_ms (RAt p) a = (if p (st_pre a) (st_rest a) then [a] else [])"
| "rx_ms (RSeq r1 r2) a = concat (map (rx_ms r2) (rx_ms r1 a))"
| "rx_ms (RAlt r1 r2) a = rx_ms r1 a @ rx_ms r2 a"
| "rx_ms (RStar g r) a = star_from g (rx_ms r) (length (st_rest a)) a"
| "rx_ms (RGrp k r) a = map (\<lambda>b. RxSt (st_pre b) (st_rest b)
      ((k, rev (take (length (st_pre b) - length (st_pre a)) (st_pre b))) # st_caps b)) (rx_ms r a)"

inductive rmatch :: "rx \<Rightarrow> rx_state \<Rightarrow> rx_state \<Rightarrow> bool" where
  eps: "rmatch REps a a"
| cls: "p c \<Longrightarrow> rmatch (RCls p) (RxSt pre (c # cs) caps) (RxSt (c # pre) cs caps)"
| at: "p pre rst \<Longrightarrow> rmatch (RAt p) (RxSt pre rst caps) (RxSt pre rst caps)"
| seq: "rmatch r1 a b \<Longrightarrow> rmatch r2 b c \<Longrightarrow> rmatch (RSeq r1 r2) a c"
| alt1: "rmatch r1 a b \<Longrightarrow> rmatch (RAlt r1 r2) a b"
| alt2: "rmatch r2 a b \<Longrightarrow> rmatch (RAlt r1 r2) a b"
| star_stop: "rmatch (RStar g r) a a"
| star_more: "rmatch r a b \<Longrightarrow> length (st_rest b) < length (st_rest a) \<Longrightarrow>
    rmatch (RStar g r) b c \<Longrightarrow> rmatch (RStar g r) a c"
| grp: "rmatch r a b \<Longrightarrow> rmatch (RGrp k r) a (RxSt (st_pre b) (st_rest b)
    ((k, rev (take (length (st_pre b) - length (st_pre a)) (st_pre b))) # st_caps b))"

inductive_cases rmatch_epsE: "rmatch REps a b"
inductive_cases rmatch_clsE: "rmatch (RCls p) a b"
inductive_cases rmatch_atE: "rmatch (RAt p) a b"
inductive_cases rmatch_seqE: "rmatch (RSeq r1 r2) a b"
inductive_cases rmatch_altE: "rmatch (RAlt r1 r2) a b"
inductive_cases rmatch_grpE: "rmatch (RGrp k r) a b"

lemma star_from_sound:
  assumes step: "\<And>a b. b \<in> set (step a) \<Longrightarrow> rmatch r a b"
  shows "b \<in> set (star_from g step n a) \<Longrightarrow> rmatch (RStar g r) a b"
proof (induction n arbitrary: a)
  case 0
  then show ?case by (simp add: star_stop)
next
  case (Suc n)
  then consider "b = a"
    | c where "c \<in> set (step a)" "length (st_rest c) < length (st_rest a)"
        "b \<in> set (star_from g step n c)"
    by (auto simp: Let_def split: if_splits)
  then show ?case
    by cases (auto intro: star_stop star_more step Suc.IH)
qed

lemma star_from_complete_aux:
  assumes "rmatch r' a b" and "r' = RStar g r"
    and step: "\<And>a b. rmatch r a b \<Longrightarrow> b \<in> set (step a)"
  shows "length (st_rest a) \<le> n \<Longrightarrow> b \<in> set (star_from g step n a)"
  using assms(1,2)
proof (induction r' a b arbitrary: n rule: rmatch.induct)
  case (star_stop g' r' a)
  then show ?case by (cases n) (auto simp: Let_def)
next
  case (star_more r' a b g' c)
  then obtain m where n: "n = Suc m" by (cases n) auto
  have "c \<in> set (star_from g step m b)"
    using star_more by (intro star_more.IH(2)) (auto simp: n)
  moreover have "b \<in> set (step a)" using star_more step by auto
  ultimately have "\<exists>x\<in>set (filter (\<lambda>x. length (st_rest x) < length (st_rest a)) (step a)).
      c \<in> set (star_from g step m x)"
    using star_more.hyps(2) by (intro bexI [of _ b]) simp_all
  then show ?case by (auto simp: n Let_def)
qed auto

text \<open>The matcher finds exactly the matches of the relation.\<close>

lemma rx_ms_iff: "b \<in> set (rx_ms r a) \<longleftrightarrow> rmatch r a b"
proof (induction r arbitrary: a b)
  case REps
  then show ?case by (auto intro: rmatch.eps elim: rmatch_epsE)
next
  case (RCls p)
  show ?case
    by (cases a) (auto intro: rmatch.cls elim!: rmatch_clsE split: list.splits)
next
  case (RAt p)
  show ?case by (cases a) (auto intro: rmatch.at elim!: rmatch_atE)
next
  case (RSeq r1 r2)
  have "b \<in> set (rx_ms (RSeq r1 r2) a) \<longleftrightarrow> (\<exists>c. rmatch r1 a c \<and> rmatch r2 c b)"
    by (auto simp: RSeq.IH)
  then show ?case by (auto intro: rmatch.seq elim!: rmatch_seqE)
next
  case (RAlt r1 r2)
  then show ?case by (auto intro: rmatch.alt1 rmatch.alt2 elim!: rmatch_altE)
next
  case (RStar g r)
  then show ?case
    using star_from_sound [of "rx_ms r" r b g "length (st_rest a)" a]
      star_from_complete_aux [of "RStar g r" a b g r "rx_ms r" "length (st_rest a)"]
    by (auto simp: RStar.IH)
next
  case (RGrp k r)
  then show ?case by (auto intro: rmatch.grp elim!: rmatch_grpE)
qed

text \<open>A match consumes a prefix of the remaining text and nothing else.\<close>

lemma rmatch_consumes:
  "rmatch r a b \<Longrightarrow> \<exists>w. st_rest a = w @ st_rest b \<and> st_pre b = rev w @ st_pre a"
proof (induction rule: rmatch.induct)
  case (seq r1 a b r2 c)
  then obtain w v where "st_rest a = w @ st_rest b" "st_pre b = rev w @ st_pre a"
    "st_rest b = v @ st_rest c" "st_pre c = rev v @ st_pre b" by blast
  then show ?case by (intro exI [of _ "w @ v"]) simp
next
  case (star_more r a b g c)
  then obtain w v where "st_rest a = w @ st_rest b" "st_pre b = rev w @ st_pre a"
    "st_rest b = v @ st_rest c" "st_pre c = rev v @ st_pre b" by blast
  then show ?case by (intro exI [of _ "w @ v"]) simp
qed auto

lemma rx_ms_consumes:
  "b \<in> set (rx_ms r a) \<Longrightarrow> \<exists>w. st_rest a = w @ st_rest b \<and> st_pre b = rev w @ st_pre a"
  by (simp add: rx_ms_iff rmatch_consumes)

subsection \<open>Searching\<close>

record re_match =
  m_pre :: string        \<comment> \<open>the text before the match, reversed\<close>
  m_text :: string       \<comment> \<open>\<open>group(0)\<close>\<close>
  m_post :: string
  m_caps :: "(nat \<times> string) list"

definition mk_match :: "rx_state \<Rightarrow> rx_state \<Rightarrow> re_match" where
  "mk_match a b = \<lparr>m_pre = st_pre a,
     m_text = rev (take (length (st_pre b) - length (st_pre a)) (st_pre b)),
     m_post = st_rest b, m_caps = st_caps b\<rparr>"

definition match_at :: "rx \<Rightarrow> string \<Rightarrow> string \<Rightarrow> re_match option" where
  "match_at r pre rst =
     (case rx_ms r (RxSt pre rst []) of [] \<Rightarrow> None | b # _ \<Rightarrow> Some (mk_match (RxSt pre rst []) b))"

fun search_from :: "rx \<Rightarrow> string \<Rightarrow> string \<Rightarrow> re_match option" where
  "search_from r pre [] = match_at r pre []"
| "search_from r pre (c # cs) =
     (case match_at r pre (c # cs) of
        Some m \<Rightarrow> Some m
      | None \<Rightarrow> search_from r (c # pre) cs)"

definition re_search :: "rx \<Rightarrow> string \<Rightarrow> re_match option" where
  "re_search r s = search_from r [] s"

definition re_match_start :: "rx \<Rightarrow> string \<Rightarrow> re_match option" where
  "re_match_start r s = match_at r [] s"

definition m_group :: "nat \<Rightarrow> re_match \<Rightarrow> string" where
  "m_group k m = (case map_of (m_caps m) k of None \<Rightarrow> [] | Some s \<Rightarrow> s)"

definition m_start :: "re_match \<Rightarrow> nat" where
  "m_start m = length (m_pre m)"

definition m_end :: "re_match \<Rightarrow> nat" where
  "m_end m = length (m_pre m) + length (m_text m)"

lemma match_at_Some:
  assumes "match_at r pre rst = Some m"
  shows "m_pre m = pre" and "rst = m_text m @ m_post m"
proof -
  obtain b where b: "b \<in> set (rx_ms r (RxSt pre rst []))" and m: "m = mk_match (RxSt pre rst []) b"
    using assms by (auto simp: match_at_def split: list.splits)
  from rx_ms_consumes [OF b] obtain w where "rst = w @ st_rest b" "st_pre b = rev w @ pre"
    by auto
  then show "m_pre m = pre" and "rst = m_text m @ m_post m"
    by (simp_all add: m mk_match_def)
qed

lemma search_from_Some:
  "search_from r pre rst = Some m \<Longrightarrow>
     rev (m_pre m) @ m_text m @ m_post m = rev pre @ rst \<and> length pre \<le> length (m_pre m)"
proof (induction r pre rst rule: search_from.induct)
  case (1 r pre)
  then have "match_at r pre [] = Some m" by simp
  from match_at_Some [OF this] show ?case by simp
next
  case (2 r pre c cs)
  show ?case
  proof (cases "match_at r pre (c # cs)")
    case None
    then show ?thesis using 2 by auto
  next
    case (Some m')
    then have "m' = m" using "2.prems" by simp
    with match_at_Some [OF Some] show ?thesis by simp
  qed
qed

lemma re_search_span:
  "re_search r s = Some m \<Longrightarrow> s = rev (m_pre m) @ m_text m @ m_post m"
  by (auto simp: re_search_def dest: search_from_Some)

lemma m_post_shorter:
  "search_from r pre rst = Some m \<Longrightarrow> length (m_text m) + length (m_post m) \<le> length rst"
proof -
  assume "search_from r pre rst = Some m"
  from search_from_Some [OF this]
  have "length (rev (m_pre m) @ m_text m @ m_post m) = length (rev pre @ rst)"
    and "length pre \<le> length (m_pre m)" by auto
  then show ?thesis by simp
qed

text \<open>\<open>re.finditer\<close>\<close>

function iter_from :: "rx \<Rightarrow> string \<Rightarrow> string \<Rightarrow> re_match list" where
  "iter_from r pre rst =
     (case search_from r pre rst of
        None \<Rightarrow> []
      | Some m \<Rightarrow> m #
          (if m_text m \<noteq> [] then iter_from r (rev (m_text m) @ m_pre m) (m_post m)
           else (case m_post m of [] \<Rightarrow> [] | c # cs \<Rightarrow> iter_from r (c # m_pre m) cs)))"
  by pat_completeness auto
termination
proof (relation "measure (\<lambda>(r, pre, rst). length rst)", goal_cases)
  case (2 r pre rst m)
  then show ?case using m_post_shorter [of r pre rst m] by (cases "m_text m") auto
next
  case (3 r pre rst m c cs)
  then show ?case using m_post_shorter [of r pre rst m] by auto
qed simp

declare iter_from.simps [simp del]

definition re_finditer :: "rx \<Rightarrow> string \<Rightarrow> re_match list" where
  "re_finditer r s = iter_from r [] s"

text \<open>\<open>re.sub\<close> with a replacement computed from the match\<close>

fun sub_from :: "nat \<Rightarrow> (re_match \<Rightarrow> string) \<Rightarrow> re_match list \<Rightarrow> string \<Rightarrow> string" where
  "sub_from i f [] s = drop i s"
| "sub_from i f (m # mm) s =
     take (m_start m - i) (drop i s) @ f m @ sub_from (m_end m) f mm s"

definition re_sub :: "rx \<Rightarrow> (re_match \<Rightarrow> string) \<Rightarrow> string \<Rightarrow> string" where
  "re_sub r f s = sub_from 0 f (re_finditer r s) s"

text \<open>\<open>re.split\<close> for a pattern without groups\<close>

fun resplit_from :: "nat \<Rightarrow> re_match list \<Rightarrow> string \<Rightarrow> string list" where
  "resplit_from i [] s = [drop i s]"
| "resplit_from i (m # mm) s =
     take (m_start m - i) (drop i s) # resplit_from (m_end m) mm s"

definition re_split :: "rx \<Rightarrow> string \<Rightarrow> string list" where
  "re_split r s = resplit_from 0 (re_finditer r s) s"

lemma re_split_not_Nil [simp]: "re_split r s \<noteq> []"
  by (cases "re_finditer r s") (auto simp: re_split_def)

lemma re_finditer_search_None: "re_search r s = None \<longleftrightarrow> re_finditer r s = []"
  by (simp add: re_finditer_def re_search_def iter_from.simps [of r "[]" s] split: option.splits)

lemma re_split_None: "re_search r s = None \<Longrightarrow> re_split r s = [s]"
  by (simp add: re_split_def re_finditer_search_None)

lemma re_sub_None: "re_search r s = None \<Longrightarrow> re_sub r f s = s"
  by (simp add: re_sub_def re_finditer_search_None)

subsection \<open>Building patterns\<close>

definition rseq :: "rx list \<Rightarrow> rx" where
  "rseq rs = foldr RSeq rs REps"

fun ralt :: "rx list \<Rightarrow> rx" where
  "ralt [] = RCls (\<lambda>_. False)"
| "ralt [r] = r"
| "ralt (r # s # rs) = RAlt r (ralt (s # rs))"

definition rlit :: "string \<Rightarrow> rx" where
  "rlit s = rseq (map (\<lambda>c. RCls ((=) c)) s)"

text \<open>a literal under \<open>re.IGNORECASE\<close>\<close>

definition rlit_ci :: "string \<Rightarrow> rx" where
  "rlit_ci s = rseq (map (\<lambda>c. RCls (\<lambda>d. lower_char d = lower_char c)) s)"

definition rstar :: "rx \<Rightarrow> rx" where "rstar r = RStar True r"
definition rlazy :: "rx \<Rightarrow> rx" where "rlazy r = RStar False r"
definition rplus :: "rx \<Rightarrow> rx" where "rplus r = RSeq r (RStar True r)"
definition rlazy_plus :: "rx \<Rightarrow> rx" where "rlazy_plus r = RSeq r (RStar False r)"
definition ropt :: "rx \<Rightarrow> rx" where "ropt r = RAlt r REps"

definition rws :: rx where "rws = RCls is_space_char"            \<comment> \<open>\<open>\s\<close>\<close>
definition rnonws :: rx where "rnonws = RCls (\<lambda>c. \<not> is_space_char c)"  \<comment> \<open>\<open>\S\<close>\<close>
definition rw :: rx where "rw = RCls is_word_char"       \<comment> \<open>\<open>\w\<close>\<close>
definition rd :: rx where "rd = RCls is_digit_char"      \<comment> \<open>\<open>\d\<close>\<close>
definition rany :: rx where "rany = RCls (\<lambda>_. True)"       \<comment> \<open>\<open>.\<close> under \<open>DOTALL\<close>\<close>
definition rdot :: rx where "rdot = RCls (\<lambda>c. c \<noteq> CHR 0x0A)"
definition rnone_of :: "string \<Rightarrow> rx" where "rnone_of cs = RCls (\<lambda>c. c \<notin> set cs)"

definition word_before :: "string \<Rightarrow> bool" where
  "word_before pre = (case pre of [] \<Rightarrow> False | c # _ \<Rightarrow> is_word_char c)"

definition rwordb :: rx where                                   \<comment> \<open>\<open>\b\<close>\<close>
  "rwordb = RAt (\<lambda>pre rst. word_before pre \<noteq> word_before rst)"

definition rbol :: rx where                                     \<comment> \<open>\<open>^\<close> under \<open>MULTILINE\<close>\<close>
  "rbol = RAt (\<lambda>pre rst. case pre of [] \<Rightarrow> True | c # _ \<Rightarrow> c = CHR 0x0A)"

definition reos :: rx where                                     \<comment> \<open>\<open>$\<close> without \<open>MULTILINE\<close>\<close>
  "reos = RAt (\<lambda>pre rst. rst = [] \<or> rst = [CHR 0x0A])"

definition reot :: rx where                                     \<comment> \<open>\<open>\Z\<close>\<close>
  "reot = RAt (\<lambda>pre rst. rst = [])"

definition rlook :: "rx \<Rightarrow> rx" where                            \<comment> \<open>\<open>(?=r)\<close>\<close>
  "rlook r = RAt (\<lambda>pre rst. rx_ms r (RxSt pre rst []) \<noteq> [])"

lemma rseq_simps [simp]:
  "rseq [] = REps"
  "rseq (r # rs) = RSeq r (rseq rs)"
  by (simp_all add: rseq_def)

lemma rx_ms_lit:
  "rx_ms (rlit s) (RxSt pre rst caps) =
     (if prefix s rst then [RxSt (rev s @ pre) (drop (length s) rst) caps] else [])"
proof (induction s arbitrary: pre rst)
  case Nil
  then show ?case by (simp add: rlit_def)
next
  case (Cons c s)
  then show ?case by (cases rst) (auto simp: rlit_def)
qed

lemmas rx_defs = rseq_def rlit_def rlit_ci_def rstar_def rlazy_def rplus_def rlazy_plus_def ropt_def
  rws_def rnonws_def rw_def rd_def rany_def rdot_def rnone_of_def rwordb_def rbol_def reos_def
  reot_def rlook_def word_before_def

subsection \<open>The first match of some shapes\<close>

lemma concat_map_first:
  assumes "\<forall>u\<in>set us. f u = []" and "f x = y # ys"
  shows "concat (map f (us @ x # vs)) = y # ys @ concat (map f vs)"
  using assms by (induction us) auto

text \<open>A lazy \<open>.*?\<close> offers every prefix, the shortest first.\<close>

lemma star_lazy_any:
  "length s \<le> n \<Longrightarrow> star_from False (rx_ms rany) n (RxSt pre s caps) =
     map (\<lambda>i. RxSt (rev (take i s) @ pre) (drop i s) caps) [0..<Suc (length s)]"
proof (induction s arbitrary: n pre)
  case Nil
  then show ?case by (cases n) (simp_all add: rany_def)
next
  case (Cons c s)
  then obtain m where n: "n = Suc m" and "length s \<le> m" by (cases n) auto
  with Cons.IH have "star_from False (rx_ms rany) m (RxSt (c # pre) s caps) =
     map (\<lambda>i. RxSt (rev (take i s) @ c # pre) (drop i s) caps) [0..<Suc (length s)]" by simp
  moreover have "[0..<Suc (length (c # s))] = 0 # map Suc [0..<Suc (length s)]"
    by (subst upt_conv_Cons) (simp_all add: map_Suc_upt del: upt_Suc)
  moreover have "rx_ms rany (RxSt pre (c # s) caps) = [RxSt (c # pre) s caps]"
    by (simp add: rany_def)
  ultimately show ?case
    by (simp add: n comp_def del: upt_Suc)
qed

text \<open>A lazy group up to a literal captures the text before its first occurrence.\<close>

lemma lazy_until_first:
  assumes "find_sub p s = Some n"
  shows "\<exists>more. rx_ms (rseq [RGrp k (rlazy rany), rlit p]) (RxSt pre s caps) =
    RxSt (rev p @ rev (take n s) @ pre) (drop (n + length p) s) ((k, take n s) # caps) # more"
proof -
  let ?st = "\<lambda>i. RxSt (rev (take i s) @ pre) (drop i s) ((k, take i s) # caps)"
  let ?f = "rx_ms (rlit p)"
  have n: "prefix p (drop n s)" "n \<le> length s" using find_sub_Some [OF assms] by auto
  have "rx_ms (RGrp k (rlazy rany)) (RxSt pre s caps) = map ?st [0..<Suc (length s)]"
    by (simp add: rlazy_def star_lazy_any del: upt_Suc)
  also have "[0..<Suc (length s)] = [0..<n] @ n # [Suc n..<Suc (length s)]"
    using n(2) by (metis le_imp_less_Suc upt_add_eq_append upt_conv_Cons le0 le_add_diff_inverse less_imp_le_nat)
  finally have g: "rx_ms (RGrp k (rlazy rany)) (RxSt pre s caps) =
      map ?st [0..<n] @ ?st n # map ?st [Suc n..<Suc (length s)]" by (simp del: upt_Suc)
  have "\<forall>u\<in>set (map ?st [0..<n]). ?f u = []"
    using find_sub_least [OF assms] by (auto simp: rx_ms_lit)
  moreover have "?f (?st n) = [RxSt (rev p @ rev (take n s) @ pre) (drop (n + length p) s) ((k, take n s) # caps)]"
    using n by (simp add: rx_ms_lit add.commute)
  ultimately have "\<exists>more. concat (map ?f (rx_ms (RGrp k (rlazy rany)) (RxSt pre s caps))) =
      RxSt (rev p @ rev (take n s) @ pre) (drop (n + length p) s) ((k, take n s) # caps) # more"
    unfolding g by (subst concat_map_first) auto
  moreover have "concat (map (rx_ms REps) xs) = xs" for xs by (induction xs) auto
  ultimately show ?thesis by (simp add: map_concat comp_def)
qed

text \<open>A greedy \<open>\s*\<close> takes all the white space first.\<close>

lemma star_greedy_cls:
  "length s \<le> n \<Longrightarrow> \<exists>more. star_from True (rx_ms (RCls P)) n (RxSt pre s caps) =
     RxSt (rev (takeWhile P s) @ pre) (dropWhile P s) caps # more"
proof (induction s arbitrary: n pre)
  case Nil
  then show ?case by (cases n) simp_all
next
  case (Cons c s)
  then obtain m where n: "n = Suc m" and "length s \<le> m" by (cases n) auto
  with Cons.IH [of m "c # pre"] show ?case by (auto simp: n)
qed

lemma seq_first:
  "rx_ms r1 a = b # bs \<Longrightarrow> rx_ms r2 b = c # cs \<Longrightarrow> \<exists>ds. rx_ms (RSeq r1 r2) a = c # ds"
  by simp

lemma rlit_ci_first:
  "rx_ms (rlit_ci w) (RxSt pre (w @ s) caps) = [RxSt (rev w @ pre) s caps]"
proof (induction w arbitrary: pre)
  case (Cons c w)
  then show ?case by (simp add: rlit_ci_def)
qed (simp add: rlit_ci_def)

lemma rlit_ci_fail:
  "s = [] \<or> lower_char (hd s) \<noteq> lower_char c \<Longrightarrow> rx_ms (rlit_ci (c # w)) (RxSt pre s caps) = []"
  by (cases s) (auto simp: rlit_ci_def)

lemma search_skip:
  assumes "\<forall>x y pre. x \<in> set u \<longrightarrow> match_at r pre (x # y) = None"
  shows "search_from r pre (u @ s) = search_from r (rev u @ pre) s"
  using assms by (induction u arbitrary: pre) auto

lemma search_hit:
  "match_at r pre s = Some m \<Longrightarrow> search_from r pre s = Some m"
  by (cases s) auto

end
