(* ===== verification/Values.thy ===== *)
theory Values
  imports PyRegex Complex_Main "HOL-Library.AList" "HOL-Library.List_Lexorder" "HOL-Library.Char_ord"
begin

text \<open>
  Python values that flow through dictionaries, SQL result rows and log records. A \<open>dict\<close> is
  an association list in insertion order (\<open>AList.update\<close> overwrites in place, as Python
  does). A \<open>float\<close> is a rational number whose text is its decimal expansion (17 fractional
  digits at most, no exponent notation, no NaN or infinities); a \<open>Decimal\<close> carries its value
  and its text; \<open>POther\<close> is any other scalar (a date, bytes), of which the code only takes
  \<open>str\<close>.
\<close>

datatype pyv =
    PNone
  | PBool bool
  | PInt int
  | PFloat rat
  | PDec rat string
  | PStr string
  | POther string
  | PList "pyv list"
  | PDict "(string \<times> pyv) list"

type_synonym pydict = "(string \<times> pyv) list"

definition d_get :: "pydict \<Rightarrow> string \<Rightarrow> pyv option" where
  "d_get d k = map_of d k"

definition d_get_or :: "pydict \<Rightarrow> string \<Rightarrow> pyv \<Rightarrow> pyv" where
  "d_get_or d k v = (case map_of d k of None \<Rightarrow> v | Some w \<Rightarrow> w)"

definition d_set :: "string \<Rightarrow> pyv \<Rightarrow> pydict \<Rightarrow> pydict" where
  "d_set k v d = AList.update k v d"

text \<open>\<open>d.update(e)\<close>\<close>

definition d_update :: "pydict \<Rightarrow> pydict \<Rightarrow> pydict" where
  "d_update d e = fold (\<lambda>(k, v). d_set k v) e d"

lemma d_get_set [simp]: "d_get (d_set k v d) k' = (if k = k' then Some v else d_get d k')"
  by (auto simp: d_get_def d_set_def update_conv)

lemma d_get_or_set [simp]: "d_get_or (d_set k v d) k' w = (if k = k' then v else d_get_or d k' w)"
  by (auto simp: d_get_or_def d_set_def update_conv)

lemma d_get_update:
  "d_get (d_update d e) k = (case map_of (rev e) k of None \<Rightarrow> d_get d k | Some v \<Rightarrow> Some v)"
proof (induction e arbitrary: d)
  case Nil
  then show ?case by (simp add: d_update_def)
next
  case (Cons x e)
  obtain a b where x: "x = (a, b)" by (cases x)
  have "d_update d (x # e) = d_update (d_set a b d) e" by (simp add: d_update_def x)
  then show ?case using Cons by (auto simp: x map_add_def split: option.splits)
qed

lemma distinct_d_set: "distinct (map fst d) \<Longrightarrow> distinct (map fst (d_set k v d))"
  by (simp add: d_set_def distinct_update)

lemma distinct_d_update: "distinct (map fst d) \<Longrightarrow> distinct (map fst (d_update d e))"
proof (induction e arbitrary: d)
  case (Cons x e)
  obtain a b where x: "x = (a, b)" by (cases x)
  have "d_update d (x # e) = d_update (d_set a b d) e" by (simp add: d_update_def x)
  then show ?case using Cons distinct_d_set by simp
qed (simp add: d_update_def)

lemma map_of_rev_distinct: "distinct (map fst e) \<Longrightarrow> map_of (rev e) = map_of e"
  by (subst map_of_inject_set) (simp_all add: rev_map [symmetric])

text \<open>For a dictionary with distinct keys, the order of its items does not matter.\<close>

lemma d_get_update_distinct:
  assumes "distinct (map fst e)"
  shows "d_get (d_update d e) k = (case d_get e k of None \<Rightarrow> d_get d k | Some v \<Rightarrow> Some v)"
proof -
  have "map_of (rev e) k = map_of e k"
    using assms by (simp add: map_of_rev_distinct)
  then show ?thesis unfolding d_get_update by (simp add: d_get_def)
qed

text \<open>Truth value testing\<close>

fun truthy :: "pyv \<Rightarrow> bool" where
  "truthy PNone = False"
| "truthy (PBool b) = b"
| "truthy (PInt i) = (i \<noteq> 0)"
| "truthy (PFloat q) = (q \<noteq> 0)"
| "truthy (PDec q s) = (q \<noteq> 0)"
| "truthy (PStr s) = (s \<noteq> [])"
| "truthy (POther s) = True"
| "truthy (PList xs) = (xs \<noteq> [])"
| "truthy (PDict d) = (d \<noteq> [])"

text \<open>\<open>type(v).__name__\<close>, and the error of an attribute a value does not have\<close>

fun py_type_name :: "pyv \<Rightarrow> string" where
  "py_type_name PNone = ''NoneType''"
| "py_type_name (PBool b) = ''bool''"
| "py_type_name (PInt i) = ''int''"
| "py_type_name (PFloat q) = ''float''"
| "py_type_name (PDec q s) = ''Decimal''"
| "py_type_name (PStr s) = ''str''"
| "py_type_name (POther s) = ''float''"
| "py_type_name (PList xs) = ''list''"
| "py_type_name (PDict d) = ''dict''"

definition no_attribute :: "pyv \<Rightarrow> string \<Rightarrow> py_exc" where
  "no_attribute v a = PyExc ''AttributeError''
     ([CHR 0x27] @ py_type_name v @ [CHR 0x27] @ '' object has no attribute '' @ [CHR 0x27] @ a @ [CHR 0x27])"

text \<open>\<open>len(v)\<close> and what iterating over \<open>v\<close> yields\<close>

fun py_iter :: "pyv \<Rightarrow> pyv list py" where
  "py_iter (PList xs) = Inr xs"
| "py_iter (PStr s) = Inr (map (\<lambda>c. PStr [c]) s)"
| "py_iter (PDict d) = Inr (map (PStr \<circ> fst) d)"
| "py_iter v = Inl (PyExc ''TypeError'' (''object of type '' @ [CHR 0x27] @ py_type_name v @ [CHR 0x27] @ '' has no len()''))"

subsection \<open>Text of a value\<close>

fun frac_digits :: "nat \<Rightarrow> rat \<Rightarrow> string" where
  "frac_digits 0 q = []"
| "frac_digits (Suc n) q =
     (if q = 0 then []
      else chr_of (48 + nat \<lfloor>10 * q\<rfloor>) # frac_digits n (10 * q - of_int \<lfloor>10 * q\<rfloor>))"

definition show_float :: "rat \<Rightarrow> string" where
  "show_float q =
     (let a = \<bar>q\<bar>; f = frac_digits 17 (a - of_int \<lfloor>a\<rfloor>)
      in (if q < 0 then ''-'' else []) @ show_int \<lfloor>a\<rfloor> @ ''.'' @ (if f = [] then ''0'' else f))"

text \<open>\<open>str(v)\<close>. Inside a list or a dictionary Python writes \<open>repr\<close>: a string is quoted there
  (the model does not write the escapes \<open>repr\<close> adds for quotes and control characters).\<close>

fun py_repr :: "pyv \<Rightarrow> string" where
  "py_repr PNone = ''None''"
| "py_repr (PBool b) = (if b then ''True'' else ''False'')"
| "py_repr (PInt i) = show_int i"
| "py_repr (PFloat q) = show_float q"
| "py_repr (PDec q s) = ''Decimal('' @ [CHR 0x27] @ s @ [CHR 0x27] @ '')''"
| "py_repr (PStr s) = [CHR 0x27] @ s @ [CHR 0x27]"
| "py_repr (POther s) = s"
| "py_repr (PList xs) = ''['' @ join '', '' (map py_repr xs) @ '']''"
| "py_repr (PDict d) =
     ''{'' @ join '', '' (map (\<lambda>(k, v). [CHR 0x27] @ k @ [CHR 0x27] @ '': '' @ py_repr v) d) @ ''}''"

fun py_str :: "pyv \<Rightarrow> string" where
  "py_str (PStr s) = s"
| "py_str (PDec q s) = s"
| "py_str v = py_repr v"

subsection \<open>Rounding to six decimals\<close>

text \<open>\<open>round(float(v), 6)\<close>: to the nearest multiple of \<open>10\<^sup>-\<^sup>6\<close>, halves to even.\<close>

definition round_half_even :: "rat \<Rightarrow> int" where
  "round_half_even y =
     (let f = \<lfloor>y\<rfloor>; d = y - of_int f
      in if d < 1 / 2 then f else if 1 / 2 < d then f + 1 else if even f then f else f + 1)"

definition round_dec :: "nat \<Rightarrow> rat \<Rightarrow> rat" where
  "round_dec n q = of_int (round_half_even (q * 10 ^ n)) / 10 ^ n"

lemma round_half_even_of_int [simp]: "round_half_even (of_int i) = i"
  by (simp add: round_half_even_def)

lemma round_dec_idem [simp]: "round_dec n (round_dec n q) = round_dec n q"
  by (simp add: round_dec_def)

lemma round_half_even_mono: "x \<le> y \<Longrightarrow> round_half_even x \<le> round_half_even y"
proof -
  assume le: "x \<le> y"
  have fl: "\<lfloor>x\<rfloor> \<le> \<lfloor>y\<rfloor>" using le by (rule floor_mono)
  show ?thesis
  proof (cases "\<lfloor>x\<rfloor> = \<lfloor>y\<rfloor>")
    case True
    with le show ?thesis by (auto simp: round_half_even_def Let_def)
  next
    case False
    with fl have "\<lfloor>x\<rfloor> + 1 \<le> \<lfloor>y\<rfloor>" by simp
    then show ?thesis by (auto simp: round_half_even_def Let_def)
  qed
qed

lemma round_dec_mono: "x \<le> y \<Longrightarrow> round_dec n x \<le> round_dec n y"
  by (simp add: round_dec_def divide_right_mono round_half_even_mono mult_right_mono)

lemma round_dec_of_int [simp]: "round_dec n (of_int i) = of_int i"
proof -
  have "(of_int i :: rat) * 10 ^ n = of_int (i * 10 ^ n)" by simp
  then show ?thesis unfolding round_dec_def by (simp only: round_half_even_of_int) simp
qed

lemma round_dec_0 [simp]: "round_dec n 0 = 0"
  using round_dec_of_int [of n 0] by simp

lemma round_dec_1 [simp]: "round_dec n 1 = 1"
  using round_dec_of_int [of n 1] by simp

subsection \<open>Rows of a query result\<close>

type_synonym row = "pyv list"

text \<open>A normalised cell: numbers are floats rounded to six decimals, \<open>None\<close> is a sentinel
  string, everything else its text.\<close>

datatype ncell = NNum rat | NStr string

definition null_sentinel :: string where
  "null_sentinel = [CHR 0x00] @ ''NULL'' @ [CHR 0x00]"

fun norm_cell :: "pyv \<Rightarrow> ncell" where
  "norm_cell (PBool b) = NNum (if b then 1 else 0)"
| "norm_cell (PInt i) = NNum (round_dec 6 (of_int i))"
| "norm_cell (PFloat q) = NNum (round_dec 6 q)"
| "norm_cell PNone = NStr null_sentinel"
| "norm_cell v = NStr (py_str v)"

fun ncell_str :: "ncell \<Rightarrow> string" where
  "ncell_str (NNum q) = show_float q"
| "ncell_str (NStr s) = s"

text \<open>Cells are ordered within their kind; the order between the kinds is never used by the program,
  because Python raises there.\<close>

instantiation ncell :: linorder
begin

fun less_eq_ncell :: "ncell \<Rightarrow> ncell \<Rightarrow> bool" where
  "less_eq_ncell (NNum p) (NNum q) = (p \<le> q)"
| "less_eq_ncell (NNum p) (NStr t) = True"
| "less_eq_ncell (NStr s) (NNum q) = False"
| "less_eq_ncell (NStr s) (NStr t) = (s \<le> t)"

definition less_ncell :: "ncell \<Rightarrow> ncell \<Rightarrow> bool" where
  "less_ncell a b \<longleftrightarrow> a \<le> b \<and> \<not> b \<le> a"

instance
proof
  fix x y z :: ncell
  show "x < y \<longleftrightarrow> x \<le> y \<and> \<not> y \<le> x" by (rule less_ncell_def)
  show "x \<le> x" by (cases x) simp_all
  show "x \<le> z" if "x \<le> y" "y \<le> z" using that by (cases x; cases y; cases z) auto
  show "x = y" if "x \<le> y" "y \<le> x" using that by (cases x; cases y) auto
  show "x \<le> y \<or> y \<le> x" by (cases x; cases y) auto
qed

end

text \<open>Comparing two rows looks at the first position where they differ; a number against a string
  there is a \<open>TypeError\<close>.\<close>

fun incomparable :: "ncell list \<Rightarrow> ncell list \<Rightarrow> bool" where
  "incomparable (NNum p # xs) (NStr t # ys) = True"
| "incomparable (NStr s # xs) (NNum q # ys) = True"
| "incomparable (x # xs) (y # ys) = (x = y \<and> incomparable xs ys)"
| "incomparable xs ys = False"

fun has_incomparable :: "ncell list list \<Rightarrow> bool" where
  "has_incomparable [] = False"
| "has_incomparable (x # xs) = (list_ex (incomparable x) xs \<or> has_incomparable xs)"

text \<open>\<open>sorted(rows)\<close>: a comparison sort without an error has compared every two rows that end up
  next to each other, and rows between two incomparable ones share their common prefix; so it
  raises exactly when two of the rows are incomparable. The message names the types of the two cells.
  Python asks whether a later row is less than an earlier one, and inserts the rows one by one as
  long as there are fewer than 64, so it names the types of the first row that is incomparable with an earlier
  one. Longer lists are sorted in runs and merged, where another pair, with the types in the
  other order, may come first.\<close>

fun cell_clash :: "ncell list \<Rightarrow> ncell list \<Rightarrow> string \<times> string" where
  "cell_clash (NNum p # xs) (NStr t # ys) = (''float'', ''str'')"
| "cell_clash (NStr s # xs) (NNum q # ys) = (''str'', ''float'')"
| "cell_clash (x # xs) (y # ys) = cell_clash xs ys"
| "cell_clash xs ys = ([], [])"

fun row_clash :: "ncell list list \<Rightarrow> ncell list list \<Rightarrow> string \<times> string" where
  "row_clash earlier [] = ([], [])"
| "row_clash earlier (r # rows) =
     (case find (incomparable r) earlier of
        Some e \<Rightarrow> cell_clash r e
      | None \<Rightarrow> row_clash (earlier @ [r]) rows)"

definition clash_error :: "string \<times> string \<Rightarrow> py_exc" where
  "clash_error types =
     (let q = [CHR 0x27]
      in PyExc ''TypeError'' (q @ ''<'' @ q @ '' not supported between instances of '' @ q @ fst types @ q
           @ '' and '' @ q @ snd types @ q))"

definition sorted_rows :: "ncell list list \<Rightarrow> ncell list list py" where
  "sorted_rows xs =
     (if has_incomparable xs then Inl (clash_error (row_clash [] xs)) else Inr (sort xs))"

text \<open>The two messages it can have.\<close>

definition mixed_type_errors :: "py_exc list" where
  "mixed_type_errors = [clash_error (''float'', ''str''), clash_error (''str'', ''float'')]"

lemma incomparable_sym: "incomparable xs ys \<Longrightarrow> incomparable ys xs"
  by (induction xs ys rule: incomparable.induct) auto

lemma cell_clash_types: "incomparable xs ys \<Longrightarrow> clash_error (cell_clash xs ys) \<in> set mixed_type_errors"
  by (induction xs ys rule: incomparable.induct) (auto simp: mixed_type_errors_def)

lemma row_clash_types:
  "has_incomparable rows \<or> (\<exists>r\<in>set rows. \<exists>e\<in>set earlier. incomparable r e) \<Longrightarrow>
     clash_error (row_clash earlier rows) \<in> set mixed_type_errors"
proof (induction rows arbitrary: earlier)
  case (Cons r rows)
  show ?case
  proof (cases "find (incomparable r) earlier")
    case None
    then have "\<not> (\<exists>e\<in>set earlier. incomparable r e)" by (auto simp: find_None_iff)
    then have "has_incomparable rows \<or> (\<exists>r'\<in>set rows. \<exists>e\<in>set (earlier @ [r]). incomparable r' e)"
      using Cons.prems incomparable_sym by (auto simp: list_ex_iff)
    then show ?thesis using Cons.IH [of "earlier @ [r]"] None by simp
  next
    case (Some e)
    then have "incomparable r e" by (auto simp: find_Some_iff)
    then show ?thesis using Some cell_clash_types by simp
  qed
qed simp

lemma sorted_rows_raises: "sorted_rows xs = Inl e \<Longrightarrow> e \<in> set mixed_type_errors"
  using row_clash_types [of xs "[]"] by (auto simp: sorted_rows_def split: if_splits)

end
