(* ===== verification/Trace.thy ===== *)
theory Trace
  imports Values
begin

text \<open>
  \<open>observability/logger.py\<close>: the class \<open>TraceLogger\<close> (its \<open>_start_times\<close> and in-memory
  \<open>events\<close>), \<open>get_node_timings\<close>, and the choice \<open>cleanup_trace_dirs\<close> makes of the directories
  it removes. Clock readings are parameters, in milliseconds, so \<open>round(t, 3)\<close> of a difference
  of readings is exact. The JSON-line file and the \<open>logging\<close> handler are not modelled: nothing
  reads them back, and \<open>_emit\<close> swallows their errors.
\<close>

type_synonym event = pydict

record tracer =
  trace_id :: string
  start_times :: "(string \<times> int) list"
  events :: "event list"

definition tracer_init :: "string option \<Rightarrow> string \<Rightarrow> tracer" where
  "tracer_init tid fresh =
     \<lparr>trace_id = (case tid of Some t \<Rightarrow> if t \<noteq> [] then t else fresh | None \<Rightarrow> fresh),
      start_times = [], events = []\<rparr>"

definition secs :: "int \<Rightarrow> pyv" where
  "secs ms = PFloat (of_int ms / 1000)"

definition emit :: "string \<Rightarrow> string \<Rightarrow> pydict \<Rightarrow> tracer \<Rightarrow> tracer" where
  "emit ts ev data tr =
     (let ev_record = d_update [(''ts'', PStr ts), (''trace_id'', PStr (trace_id tr)),
                          (''event'', PStr ev)] data
      in tr\<lparr>events := events tr @ [ev_record]\<rparr>)"

text \<open>A clock reading: milliseconds and the formatted local time of the record.\<close>

record reading =
  r_ms :: int
  r_ts :: string

definition add_versions :: "string \<Rightarrow> string \<Rightarrow> pydict \<Rightarrow> pydict" where
  "add_versions model pv d =
     (let d1 = (if model \<noteq> [] then d_set ''model'' (PStr model) d else d)
      in if pv \<noteq> [] then d_set ''prompt_version'' (PStr pv) d1 else d1)"

definition node_enter_v :: "reading \<Rightarrow> string \<Rightarrow> pydict \<Rightarrow> string \<Rightarrow> string \<Rightarrow> tracer \<Rightarrow> tracer" where
  "node_enter_v now node meta model pv tr =
     (let key = node @ '':enter'';
          tr1 = tr\<lparr>start_times := AList.update key (r_ms now) (start_times tr)\<rparr>;
          data = add_versions model pv (d_update [(''node'', PStr node)] meta)
      in emit (r_ts now) ''node_enter'' data tr1)"

definition pop_start :: "reading \<Rightarrow> string \<Rightarrow> tracer \<Rightarrow> int \<times> tracer" where
  "pop_start now node tr =
     (let key = node @ '':enter''
      in case map_of (start_times tr) key of
           None \<Rightarrow> (0, tr)
         | Some t \<Rightarrow> (r_ms now - t, tr\<lparr>start_times := AList.delete key (start_times tr)\<rparr>))"

definition node_exit_v ::
  "reading \<Rightarrow> string \<Rightarrow> pydict \<Rightarrow> string \<Rightarrow> string \<Rightarrow> string \<Rightarrow> tracer \<Rightarrow> tracer" where
  "node_exit_v now node meta status model pv tr =
     (let (dur, tr1) = pop_start now node tr;
          data = add_versions model pv
                   (d_update [(''node'', PStr node), (''duration_s'', secs dur),
                              (''status'', PStr status)] meta)
      in emit (r_ts now) ''node_exit'' data tr1)"

definition node_enter :: "reading \<Rightarrow> string \<Rightarrow> pydict \<Rightarrow> tracer \<Rightarrow> tracer" where
  "node_enter now node meta = node_enter_v now node meta [] []"

definition node_exit :: "reading \<Rightarrow> string \<Rightarrow> pydict \<Rightarrow> string \<Rightarrow> tracer \<Rightarrow> tracer" where
  "node_exit now node meta status = node_exit_v now node meta status [] []"

definition node_error :: "reading \<Rightarrow> string \<Rightarrow> string \<Rightarrow> string \<Rightarrow> tracer \<Rightarrow> tracer" where
  "node_error now node etype emsg tr =
     (let (dur, tr1) = pop_start now node tr
      in emit (r_ts now) ''node_error''
           [(''node'', PStr node), (''duration_s'', secs dur), (''error_type'', PStr etype),
            (''error'', PStr (take 300 emsg))] tr1)"

definition with_node :: "string \<Rightarrow> pydict \<Rightarrow> pydict" where
  "with_node node d = (if node \<noteq> [] then d_set ''node'' (PStr node) d else d)"

definition llm_call :: "reading \<Rightarrow> string \<Rightarrow> pydict \<Rightarrow> int \<Rightarrow> string \<Rightarrow> tracer \<Rightarrow> tracer" where
  "llm_call now model usage dur node tr =
     emit (r_ts now) ''llm_call''
       (with_node node
         [(''model'', PStr model),
          (''prompt_tokens'', d_get_or usage ''prompt_tokens'' (PInt 0)),
          (''completion_tokens'', d_get_or usage ''completion_tokens'' (PInt 0)),
          (''total_tokens'', d_get_or usage ''total_tokens'' (PInt 0)),
          (''duration_s'', secs dur)]) tr"

definition llm_error :: "reading \<Rightarrow> string \<Rightarrow> string \<Rightarrow> string \<Rightarrow> int \<Rightarrow> string \<Rightarrow> tracer \<Rightarrow> tracer" where
  "llm_error now model etype emsg dur node tr =
     emit (r_ts now) ''llm_error''
       (with_node node
         [(''model'', PStr model), (''error_type'', PStr etype),
          (''error'', PStr (take 300 emsg)), (''duration_s'', secs dur)]) tr"

definition sql_exec :: "reading \<Rightarrow> bool \<Rightarrow> int \<Rightarrow> int \<Rightarrow> string \<Rightarrow> tracer \<Rightarrow> tracer" where
  "sql_exec now success row_count dur err tr =
     emit (r_ts now) ''sql_exec''
       [(''success'', PBool success), (''row_count'', PInt row_count), (''duration_s'', secs dur),
        (''error'', PStr (if err \<noteq> [] then take 120 err else []))] tr"

definition guard_result :: "reading \<Rightarrow> bool \<Rightarrow> string list \<Rightarrow> tracer \<Rightarrow> tracer" where
  "guard_result now passed types tr =
     emit (r_ts now) ''guard''
       [(''passed'', PBool passed), (''issue_count'', PInt (int (length types))),
        (''issue_types'', PList (map PStr types))] tr"

definition router_decision :: "reading \<Rightarrow> string \<Rightarrow> int \<Rightarrow> string \<Rightarrow> tracer \<Rightarrow> tracer" where
  "router_decision now complexity score method tr =
     emit (r_ts now) ''router''
       [(''complexity'', PStr complexity), (''score'', PInt score), (''method'', PStr method)] tr"

definition semantic_verdict :: "reading \<Rightarrow> bool \<Rightarrow> string \<Rightarrow> tracer \<Rightarrow> tracer" where
  "semantic_verdict now passed reason tr =
     emit (r_ts now) ''semantic_check''
       [(''passed'', PBool passed), (''reason'', PStr (if reason \<noteq> [] then take 200 reason else []))] tr"

text \<open>Events of the API and its cache\<close>

definition api_request :: "reading \<Rightarrow> string \<Rightarrow> string \<Rightarrow> string \<Rightarrow> int \<Rightarrow> rat \<Rightarrow> string \<Rightarrow> tracer \<Rightarrow> tracer" where
  "api_request now phase http_method path status elapsed_ms client_ip tr =
     emit (r_ts now) (''api_request_'' @ phase)
       [(''method'', PStr http_method), (''path'', PStr path), (''status'', PInt status),
        (''elapsed_ms'', PFloat (round_dec 1 elapsed_ms)), (''client_ip'', PStr client_ip)] tr"

definition log_cache_hit :: "reading \<Rightarrow> rat \<Rightarrow> string \<Rightarrow> tracer \<Rightarrow> tracer" where
  "log_cache_hit now similarity cached_question tr =
     emit (r_ts now) ''cache_hit''
       [(''similarity'', PFloat (round_dec 4 similarity)), (''cached_question'', PStr (take 100 cached_question))] tr"

definition log_cache_miss :: "reading \<Rightarrow> string \<Rightarrow> tracer \<Rightarrow> tracer" where
  "log_cache_miss now reason tr = emit (r_ts now) ''cache_miss'' [(''reason'', PStr reason)] tr"

definition log_cache_store :: "reading \<Rightarrow> string \<Rightarrow> tracer \<Rightarrow> tracer" where
  "log_cache_store now question tr = emit (r_ts now) ''cache_store'' [(''question'', PStr (take 100 question))] tr"

subsection \<open>Aggregated timings\<close>

definition event_name :: "event \<Rightarrow> pyv" where
  "event_name e = d_get_or e ''event'' PNone"

definition event_node :: "event \<Rightarrow> string" where
  "event_node e = (case d_get_or e ''node'' (PStr ''?'') of PStr n \<Rightarrow> n | v \<Rightarrow> py_str v)"

definition event_dur :: "event \<Rightarrow> rat" where
  "event_dur e = (case d_get_or e ''duration_s'' (PInt 0) of PFloat q \<Rightarrow> q | PInt i \<Rightarrow> of_int i | _ \<Rightarrow> 0)"

definition add_timing :: "event \<Rightarrow> (string \<times> rat) list \<Rightarrow> (string \<times> rat) list" where
  "add_timing e timings =
     (if event_name e = PStr ''node_exit''
      then let node = event_node e;
               old = (case map_of timings node of None \<Rightarrow> 0 | Some q \<Rightarrow> q)
           in AList.update node (round_dec 3 (old + event_dur e)) timings
      else timings)"

definition get_node_timings :: "tracer \<Rightarrow> (string \<times> rat) list" where
  "get_node_timings tr = fold add_timing (events tr) []"

definition is_ms :: "rat \<Rightarrow> bool" where
  "is_ms q \<longleftrightarrow> (\<exists>i. q = of_int i / 1000)"

lemma round_ms [simp]: "is_ms q \<Longrightarrow> round_dec 3 q = q"
  by (auto simp: is_ms_def round_dec_def)

lemma is_ms_add [intro]: "is_ms p \<Longrightarrow> is_ms q \<Longrightarrow> is_ms (p + q)"
  unfolding is_ms_def by (metis add_divide_distrib of_int_add)

lemma is_ms_0 [simp]: "is_ms 0"
  unfolding is_ms_def by (rule exI [of _ 0]) simp

definition exits_of :: "string \<Rightarrow> event list \<Rightarrow> event list" where
  "exits_of n es = filter (\<lambda>e. event_name e = PStr ''node_exit'' \<and> event_node e = n) es"

lemma fold_add_timing:
  assumes "\<forall>e\<in>set es. event_name e = PStr ''node_exit'' \<longrightarrow> is_ms (event_dur e)"
    and "\<forall>q\<in>ran (map_of acc). is_ms q"
  shows "(case map_of (fold add_timing es acc) n of None \<Rightarrow> 0 | Some q \<Rightarrow> q)
     = (case map_of acc n of None \<Rightarrow> 0 | Some q \<Rightarrow> q) + sum_list (map event_dur (exits_of n es))"
  using assms
proof (induction es arbitrary: acc)
  case Nil
  then show ?case by (simp add: exits_of_def)
next
  case (Cons e es)
  let ?old = "\<lambda>k. case map_of acc k of None \<Rightarrow> 0 | Some q \<Rightarrow> q"
  have old_ms: "is_ms (?old k)" for k
    using Cons.prems(2) by (auto simp: ran_def split: option.splits)
  have "\<forall>q\<in>ran (map_of (add_timing e acc)). is_ms q"
    using Cons.prems old_ms [of "event_node e"]
    by (auto simp: add_timing_def Let_def update_conv ran_def is_ms_add split: if_splits)
  note IH = Cons.IH [OF _ this]
  have "(case map_of (add_timing e acc) n of None \<Rightarrow> 0 | Some q \<Rightarrow> q)
      = ?old n + sum_list (map event_dur (exits_of n [e]))"
    using Cons.prems(1) old_ms [of n]
    by (auto simp: add_timing_def Let_def update_conv exits_of_def is_ms_add)
  with IH Cons.prems(1) show ?case by (auto simp: exits_of_def)
qed

subsection \<open>Which events are in the log\<close>

lemma events_emit [simp]:
  "events (emit ts ev data tr) = events tr @
     [d_update [(''ts'', PStr ts), (''trace_id'', PStr (trace_id tr)), (''event'', PStr ev)] data]"
  by (simp add: emit_def Let_def)

lemma trace_id_emit [simp]: "trace_id (emit ts ev data tr) = trace_id tr"
  by (simp add: emit_def Let_def)

lemma start_times_emit [simp]: "start_times (emit ts ev data tr) = start_times tr"
  by (simp add: emit_def Let_def)

lemma event_dur_exit:
  assumes "''duration_s'' \<notin> fst ` set meta"
  shows "event_dur (last (events (node_exit now n meta st tr)))
     = of_int (fst (pop_start now n tr)) / 1000"
proof -
  obtain dur tr1 where p: "pop_start now n tr = (dur, tr1)" by (cases "pop_start now n tr")
  let ?data = "d_update [(''node'', PStr n), (''duration_s'', secs dur), (''status'', PStr st)] meta"
  have "map_of (rev meta) ''duration_s'' = None"
    using assms by (simp add: map_of_eq_None_iff)
  then have "d_get ?data ''duration_s'' = Some (secs dur)"
    unfolding d_get_update by (simp add: d_get_def)
  moreover have "distinct (map fst ?data)" by (rule distinct_d_update) simp
  ultimately have "d_get (d_update d ?data) ''duration_s'' = Some (secs dur)" for d
    by (simp add: d_get_update_distinct)
  then show ?thesis
    by (simp add: node_exit_def node_exit_v_def p add_versions_def event_dur_def d_get_or_def
        d_get_def secs_def)
qed

lemma enter_exit_duration:
  assumes "''duration_s'' \<notin> fst ` set m2"
  shows "event_dur (last (events (node_exit t2 n m2 st (node_enter t1 n m1 tr))))
     = of_int (r_ms t2 - r_ms t1) / 1000"
  using event_dur_exit [OF assms, of t2 n st "node_enter t1 n m1 tr"]
  by (simp add: pop_start_def node_enter_def node_enter_v_def Let_def update_conv)

subsection \<open>Removing old trace directories\<close>

text \<open>\<open>cleanup_trace_dirs\<close>: the candidate directories are those whose name is digits up to
  underscores and dashes; they are sorted by modification time, and the oldest are removed
  until \<open>keep\<close> remain. The result is the number removed; the model also returns the removed
  and the kept names.\<close>

definition trace_dir_name :: "string \<Rightarrow> bool" where
  "trace_dir_name name = isdigit (replace_all ''-'' [] (replace_all ''_'' [] name))"

definition cleanup_trace_dirs ::
  "(string \<times> rat \<times> bool) list \<Rightarrow> nat \<Rightarrow> (string \<times> rat) list \<times> (string \<times> rat) list" where
  "cleanup_trace_dirs listing keep =
     (let entries = map (\<lambda>(name, mtime, _). (name, mtime))
                      (filter (\<lambda>(name, mtime, isdir). isdir \<and> trace_dir_name name) listing);
          entries = sort_key snd entries;
          n = length entries - keep
      in (take n entries, drop n entries))"

end
