(* ===== verification/Schema.thy ===== *)
theory Schema
  imports Values
begin

text \<open>
  Database dialects and schema metadata: \<open>get_dialect_from_url\<close> and its siblings, the cached
  reflection of \<open>retrieval/schema.py\<close>, and the DDL text built from it. SQLAlchemy's inspector
  and the rows of a sample query are parameters; the cache is the explicit state that
  \<open>_schema_info_cache\<close> is.
\<close>

subsection \<open>Dialects\<close>

fun first_prefix :: "(string \<times> string) list \<Rightarrow> string \<Rightarrow> string \<Rightarrow> string" where
  "first_prefix [] dflt url = dflt"
| "first_prefix ((p, d) # ps) dflt url = (if prefix p url then d else first_prefix ps dflt url)"

text \<open>\<open>agent/generator_llm.py\<close>\<close>

definition get_dialect_from_url :: "string \<Rightarrow> string" where
  "get_dialect_from_url database_url =
     first_prefix [(''postgresql'', ''postgresql''), (''mysql'', ''mysql''), (''sqlite'', ''sqlite'')]
       ''sqlite'' database_url"

text \<open>\<open>storage/db_registry.py\<close>\<close>

definition registry_get_dialect :: "string \<Rightarrow> string" where
  "registry_get_dialect database_url =
     first_prefix [(''postgresql'', ''postgresql''), (''mysql'', ''mysql''), (''sqlite'', ''sqlite'')]
       ''unknown'' database_url"

text \<open>\<open>retrieval/fk_expand.py\<close> and \<open>retrieval/column_prune.py\<close>\<close>

definition ddl_get_dialect :: "string option \<Rightarrow> string" where
  "ddl_get_dialect database_url =
     (case database_url of
        None \<Rightarrow> ''sqlite''
      | Some url \<Rightarrow>
          first_prefix [(''postgresql'', ''postgresql''), (''mysql'', ''mysql'')] ''sqlite'' url)"

text \<open>\<open>agent/nodes/guard.py\<close>: the dialect name \<open>sqlglot\<close> knows\<close>

definition get_sqlglot_dialect :: "string option \<Rightarrow> string" where
  "get_sqlglot_dialect database_url =
     (case database_url of
        None \<Rightarrow> ''sqlite''
      | Some url \<Rightarrow>
          if url = [] then ''sqlite''
          else (let d = get_dialect_from_url url in if d = ''postgresql'' then ''postgres'' else d))"

text \<open>\<open>tools/sql_executor.py\<close>: the same choice, made from \<open>dialect_map\<close>\<close>

definition executor_dialect :: "string option \<Rightarrow> string" where
  "executor_dialect database_url =
     (case database_url of
        None \<Rightarrow> ''sqlite''
      | Some url \<Rightarrow>
          if url = [] then ''sqlite''
          else first_prefix [(''postgresql'', ''postgres''), (''mysql'', ''mysql'')] ''sqlite'' url)"

lemma executor_dialect_eq_guard: "executor_dialect u = get_sqlglot_dialect u"
  by (simp add: executor_dialect_def get_sqlglot_dialect_def get_dialect_from_url_def Let_def
      split: option.split)

lemma get_dialect_range: "get_dialect_from_url u \<in> {''sqlite'', ''mysql'', ''postgresql''}"
  by (simp add: get_dialect_from_url_def)

subsection \<open>Schema metadata\<close>

record column_info =
  c_name :: string
  c_type :: string               \<comment> \<open>\<open>str(c["type"])\<close>\<close>
  c_nullable :: bool             \<comment> \<open>\<open>c.get("nullable", True)\<close>\<close>

record fk_info =
  constrained_columns :: "string list"
  referred_table :: string
  referred_columns :: "string list"

record table_info =
  columns :: "column_info list"
  pk_cols :: "string list"       \<comment> \<open>a set, listed without repetition\<close>
  fk_cols :: "string list"       \<comment> \<open>a set, listed without repetition\<close>
  fks :: "fk_info list"
  actual_name :: string

type_synonym schema_info = "(string \<times> table_info) list"

text \<open>What \<open>sqlalchemy.inspect(engine)\<close> answers for one database.\<close>

record inspector =
  get_table_names :: "string list"
  get_columns :: "string \<Rightarrow> column_info list"
  get_pk_constraint :: "string \<Rightarrow> string list"
  get_foreign_keys :: "string \<Rightarrow> fk_info list"

definition reflect_table :: "inspector \<Rightarrow> string \<Rightarrow> table_info" where
  "reflect_table insp t =
     (let fs = get_foreign_keys insp t
      in \<lparr>columns = get_columns insp t,
          pk_cols = remdups (get_pk_constraint insp t),
          fk_cols = remdups (concat (map constrained_columns fs)),
          fks = fs,
          actual_name = t\<rparr>)"

definition reflect_schema :: "inspector \<Rightarrow> schema_info" where
  "reflect_schema insp =
     fold (\<lambda>t info. AList.update (lower t) (reflect_table insp t) info) (get_table_names insp) []"

type_synonym schema_cache = "(string \<times> schema_info) list"

text \<open>\<open>_get_cached_schema_info\<close>: the second test under the lock sees the same cache in a
  sequential run; the model reflects a database exactly when its URL is not yet a key.\<close>

definition get_cached_schema_info ::
  "(string \<Rightarrow> inspector) \<Rightarrow> string \<Rightarrow> schema_cache \<Rightarrow> schema_info \<times> schema_cache" where
  "get_cached_schema_info dbs url cache =
     (case map_of cache url of
        Some info \<Rightarrow> (info, cache)
      | None \<Rightarrow>
          let info = reflect_schema (dbs url) in (info, AList.update url info cache))"

lemma cache_hit: "map_of cache url = Some info \<Longrightarrow>
    get_cached_schema_info dbs url cache = (info, cache)"
  by (simp add: get_cached_schema_info_def)

lemma cached_after: "get_cached_schema_info dbs url cache = (info, cache') \<Longrightarrow>
    map_of cache' url = Some info"
  by (auto simp: get_cached_schema_info_def update_conv Let_def split: option.splits)

lemma cached_other: "get_cached_schema_info dbs url cache = (info, cache') \<Longrightarrow> u \<noteq> url \<Longrightarrow>
    map_of cache' u = map_of cache u"
  by (auto simp: get_cached_schema_info_def update_conv Let_def split: option.splits)

lemma reflect_fold_domain:
  "fst ` set (fold (\<lambda>t info. AList.update (lower t) (f t) info) ts acc)
     = lower ` set ts \<union> fst ` set acc"
proof (induction ts arbitrary: acc)
  case (Cons t ts)
  then show ?case by (simp add: dom_update)
qed simp

lemma reflect_domain: "fst ` set (reflect_schema insp) = lower ` set (get_table_names insp)"
  by (simp add: reflect_schema_def reflect_fold_domain)

subsection \<open>DDL text\<close>

definition column_member :: "string list \<Rightarrow> column_info \<Rightarrow> string" where
  "column_member pks c =
     (let parts = [c_name c, c_type c];
          parts = (if \<not> c_nullable c then parts @ [''NOT NULL''] else parts);
          parts = (if c_name c \<in> set pks then parts @ [''PRIMARY KEY''] else parts)
      in ''  '' @ join '' '' parts)"

definition fk_member :: "fk_info \<Rightarrow> string" where
  "fk_member fk =
     ''  FOREIGN KEY ('' @ join '', '' (constrained_columns fk) @ '') REFERENCES ''
       @ referred_table fk @ ''('' @ join '', '' (referred_columns fk) @ '')''"

definition nl :: string where "nl = [CHR 0x0A]"

definition comma_nl :: string where "comma_nl = '','' @ nl"

definition schema_summary_text :: "string \<Rightarrow> schema_info \<Rightarrow> string" where
  "schema_summary_text url info =
     (let head = ''-- SQL Dialect: '' @ get_dialect_from_url url @ nl;
          table_lines = (\<lambda>(t_lower, t_info).
                  [''CREATE TABLE '' @ actual_name t_info @ '' ('',
                   join comma_nl (map (column_member (pk_cols t_info)) (columns t_info)
                                  @ map fk_member (fks t_info)),
                   '');'' @ nl])
      in join nl (head # concat (map table_lines info)))"

definition get_schema_summary :: "(string \<Rightarrow> inspector) \<Rightarrow> string option \<Rightarrow> schema_cache
    \<Rightarrow> string \<times> schema_cache" where
  "get_schema_summary dbs database_url cache =
     (case database_url of
        None \<Rightarrow> ([], cache)
      | Some url \<Rightarrow>
          if url = [] then ([], cache)
          else
            let (info, cache') = get_cached_schema_info dbs url cache
            in (schema_summary_text url info, cache'))"

text \<open>\<open>get_sample_rows\<close>: \<open>keys\<close> and \<open>rows\<close> are what the query returned.\<close>

definition get_sample_rows :: "string \<Rightarrow> string list \<Rightarrow> row list \<Rightarrow> string" where
  "get_sample_rows table_name keys rows =
     (if rows = [] then ''-- '' @ table_name @ '': no rows''
      else
        let header = join '' | '' keys;
            sep = replicate (length header) CHR ''-'';
            data = join nl (map (\<lambda>r. join '' | '' (map py_str r)) rows)
        in ''-- Sample rows from '' @ table_name @ '':'' @ nl @ header @ nl @ sep @ nl @ data)"

definition catalog_text :: "schema_info \<Rightarrow> string" where
  "catalog_text info =
     ''Tables:'' @ nl @ join nl (map (\<lambda>(t_lower, t_info).
        ''  '' @ actual_name t_info @ ''('' @ join '', '' (map c_name (columns t_info)) @ '')'') info)"

text \<open>\<open>_build_table_catalog\<close> (of \<open>error_classifier.py\<close> and \<open>schema_retriever.py\<close>; the
  \<open>_build_expanded_catalog\<close> of \<open>refiner.py\<close> has the same body)\<close>

definition build_table_catalog :: "(string \<Rightarrow> inspector) \<Rightarrow> string option \<Rightarrow> schema_cache
    \<Rightarrow> string \<times> schema_cache" where
  "build_table_catalog dbs database_url cache =
     (case database_url of
        None \<Rightarrow> ([], cache)
      | Some url \<Rightarrow>
          if url = [] then ([], cache)
          else let (info, cache') = get_cached_schema_info dbs url cache
               in (catalog_text info, cache'))"

definition catalog_line :: "table_info \<Rightarrow> string" where
  "catalog_line t_info =
     ''  '' @ actual_name t_info @ ''('' @ join '', '' (map c_name (columns t_info)) @ '')''"

lemma catalog_text_lines:
  "catalog_text info = ''Tables:'' @ nl @ join nl (map (catalog_line \<circ> snd) info)"
  by (simp add: catalog_text_def catalog_line_def case_prod_unfold comp_def)

lemma catalog_lists_every_table:
  assumes "(k, t_info) \<in> set info" and "c \<in> set (columns t_info)"
  shows "str_in (actual_name t_info) (catalog_text info) \<and> str_in (c_name c) (catalog_text info)"
proof -
  have "catalog_line t_info \<in> set (map (catalog_line \<circ> snd) info)"
    using assms(1) by force
  then have "str_in (catalog_line t_info) (join nl (map (catalog_line \<circ> snd) info))"
    by (rule str_in_join)
  then have l: "str_in (catalog_line t_info) (catalog_text info)"
    unfolding catalog_text_lines
    by (rule str_in_trans) (use str_in_append [of _ "''Tables:'' @ nl" "[]"] in simp)
  have name: "str_in (actual_name t_info) (catalog_line t_info)"
    unfolding catalog_line_def by (rule str_in_append)
  have "str_in (c_name c) (join '', '' (map c_name (columns t_info)))"
    using assms(2) by (intro str_in_join) simp
  moreover have "str_in (join '', '' (map c_name (columns t_info))) (catalog_line t_info)"
    using str_in_append [of "join '', '' (map c_name (columns t_info))"
        "''  '' @ actual_name t_info @ ''(''" "'')''"]
    by (simp add: catalog_line_def)
  ultimately show ?thesis using name l by (blast intro: str_in_trans)
qed

end
