(* ===== verification/Safety.thy ===== *)
theory Safety
  imports Schema
begin

text \<open>
  \<open>guard/error_types.py\<close>, \<open>guard/safety_rules.py\<close> and \<open>guard/ast_validator.py\<close>: the checks
  that stand between a generated query and the database. The parser \<open>sqlglot\<close> is a
  parameter; a parsed statement is what the code reads of it: its \<open>key\<close>, and the aliases,
  names and prefixes that \<open>find_all\<close> enumerates. A Python set is listed in insertion order
  where it is iterated; no property depends on that order.
\<close>

subsection \<open>Error codes\<close>

datatype error_type =
    EMPTY_SQL | SQL_VALIDATION | INVALID_INPUT | PERMISSION_DENIED
  | MISSING_COLUMN | MISSING_TABLE | AMBIGUOUS_COLUMN
  | SYNTAX_ERROR | BAD_FUNCTION | GROUP_BY_ERROR | TIMEOUT | EXECUTION_ERROR | SEMANTIC_MISMATCH

fun error_type_value :: "error_type \<Rightarrow> string" where
  "error_type_value EMPTY_SQL = ''empty_sql''"
| "error_type_value SQL_VALIDATION = ''sql_validation''"
| "error_type_value INVALID_INPUT = ''invalid_input''"
| "error_type_value PERMISSION_DENIED = ''permission_denied''"
| "error_type_value MISSING_COLUMN = ''missing_column''"
| "error_type_value MISSING_TABLE = ''missing_table''"
| "error_type_value AMBIGUOUS_COLUMN = ''ambiguous_column''"
| "error_type_value SYNTAX_ERROR = ''syntax_error''"
| "error_type_value BAD_FUNCTION = ''bad_function''"
| "error_type_value GROUP_BY_ERROR = ''group_by_error''"
| "error_type_value TIMEOUT = ''timeout''"
| "error_type_value EXECUTION_ERROR = ''execution_error''"
| "error_type_value SEMANTIC_MISMATCH = ''semantic_mismatch''"

lemma error_type_value_inj: "error_type_value a = error_type_value b \<Longrightarrow> a = b"
  by (cases a; cases b) simp_all

subsection \<open>The parser as a parameter\<close>

record sql_ast =
  ast_key :: "string option"               \<comment> \<open>\<open>stmt.key\<close>, if the attribute exists\<close>
  ast_type_name :: string                  \<comment> \<open>\<open>type(stmt).__name__\<close>\<close>
  ast_ctes :: "string list"                \<comment> \<open>alias of each \<open>exp.CTE\<close>\<close>
  ast_tables :: "(string \<times> string) list"   \<comment> \<open>name and alias of each \<open>exp.Table\<close>\<close>
  ast_columns :: "(string \<times> string) list"  \<comment> \<open>table prefix and name of each \<open>exp.Column\<close>\<close>
  ast_aliases :: "string list"             \<comment> \<open>alias of each \<open>exp.Alias\<close>\<close>

record sqlglot =
  sg_parse :: "string \<Rightarrow> string \<Rightarrow> sql_ast option list py"
  sg_parse_one :: "string \<Rightarrow> string option \<Rightarrow> sql_ast py"

record issue =
  i_type :: string
  i_detail :: string

abbreviation mk_issue :: "string \<Rightarrow> string \<Rightarrow> issue" where
  "mk_issue t d \<equiv> \<lparr>i_type = t, i_detail = d\<rparr>"

definition statement_kind :: "sql_ast \<Rightarrow> string" where
  "statement_kind stmt = (case ast_key stmt of Some k \<Rightarrow> k | None \<Rightarrow> ast_type_name stmt)"

definition sorted_set :: "string list \<Rightarrow> string list" where
  "sorted_set xs = sort (remdups xs)"

lemma set_sorted_set [simp]: "set (sorted_set xs) = set xs"
  by (simp add: sorted_set_def)

lemma distinct_sorted_set [simp]: "distinct (sorted_set xs)"
  by (simp add: sorted_set_def)

definition cte_aliases :: "sql_ast \<Rightarrow> string list" where
  "cte_aliases tree = map lower (filter (\<lambda>a. a \<noteq> []) (ast_ctes tree))"

definition real_tables :: "sql_ast \<Rightarrow> string list" where
  "real_tables tree =
     remdups (filter (\<lambda>n. n \<noteq> [] \<and> n \<notin> set (cte_aliases tree)) (map (lower \<circ> fst) (ast_tables tree)))"

subsection \<open>check_safety\<close>

definition FORBIDDEN_KEYWORDS :: "string list" where
  "FORBIDDEN_KEYWORDS =
     [''INSERT'', ''UPDATE'', ''DELETE'', ''DROP'', ''ALTER'', ''CREATE'', ''TRUNCATE'', ''PRAGMA'']"

definition AST_FORBIDDEN :: "string list" where
  "AST_FORBIDDEN =
     [''insert'', ''delete'', ''drop'', ''alter'', ''create'', ''truncate'', ''update'', ''pragma'']"

record safety_result =
  sr_valid :: bool
  sr_issues :: "issue list"
  sr_statement_type :: string
  sr_table_references :: "string list"

definition multi_detail :: "nat \<Rightarrow> string" where
  "multi_detail n = ''Multiple statements detected ('' @ show_nat n
     @ ''). Only single SELECT/WITH allowed.''"

text \<open>\<open>_ast_check\<close>. When every parsed statement is \<open>None\<close>, \<open>stmts[0]\<close> raises.\<close>

definition ast_check :: "sqlglot \<Rightarrow> string \<Rightarrow> string \<Rightarrow> (issue list \<times> string \<times> string list) py" where
  "ast_check sg sql dialect =
     (case sg_parse sg sql dialect of
        Inl e \<Rightarrow>
          Inr ([mk_issue ''ast_syntax'' (''SQL parse error: '' @ take 200 (exc_msg e))], [], [])
      | Inr parsed \<Rightarrow>
          if parsed = [] then
            Inr ([mk_issue ''ast_syntax'' ''SQL parsed to empty AST.''], [], [])
          else
            let stmts = List.map_filter id parsed
            in if 1 < length stmts then
                 Inr ([mk_issue ''ast_structure'' (multi_detail (length stmts))], [], [])
               else
                 (case stmts of
                    [] \<Rightarrow> Inl (PyExc ''IndexError'' ''list index out of range'')
                  | stmt # _ \<Rightarrow>
                      let statement_type = upper (statement_kind stmt);
                          issues = (if lower statement_type \<in> set AST_FORBIDDEN
                            then [mk_issue ''ast_forbidden'' (''Forbidden statement type: ''
                                    @ statement_type @ ''. Only SELECT/WITH allowed.'')]
                            else []);
                          tables = (case sg_parse_one sg sql (Some dialect) of
                              Inl e \<Rightarrow> []
                            | Inr tree \<Rightarrow> sorted_set (real_tables tree))
                      in Inr (issues, statement_type, tables)))"

definition keyword_issues :: "string \<Rightarrow> issue list" where
  "keyword_issues sql_upper =
     map (\<lambda>kw. mk_issue ''forbidden_keyword''
                 (''Forbidden keyword: '' @ kw @ ''. Only SELECT/WITH allowed.''))
       (filter (\<lambda>kw. str_in kw sql_upper) (sort FORBIDDEN_KEYWORDS))"

definition sql_statements :: "string \<Rightarrow> string list" where
  "sql_statements sql = map strip (filter (\<lambda>s. strip s \<noteq> []) (split '';'' sql))"

definition l1_issues :: "string \<Rightarrow> issue list" where
  "l1_issues sql =
     (let sql_upper = upper sql;
          statements = sql_statements sql
      in (if \<not> str_in ''SELECT'' sql_upper \<and> \<not> prefix ''WITH'' sql_upper
          then [mk_issue ''missing_select'' ''SQL does not contain SELECT or WITH.''] else [])
         @ keyword_issues sql_upper
         @ (if 1 < length statements
            then [mk_issue ''multi_statement'' (multi_detail (length statements))] else []))"

definition check_safety :: "sqlglot \<Rightarrow> string \<Rightarrow> string \<Rightarrow> safety_result py" where
  "check_safety sg sql dialect =
     (if sql = [] \<or> strip sql = [] then
        Inr \<lparr>sr_valid = False,
             sr_issues = [mk_issue ''empty_sql'' ''SQL is empty or whitespace only.''],
             sr_statement_type = [], sr_table_references = []\<rparr>
      else
        let issues = l1_issues sql
        in py_bind (ast_check sg sql dialect) (\<lambda>(ast_issues, stmt_type, tables).
             let issues = issues @ ast_issues
             in Inr \<lparr>sr_valid = (length issues = 0), sr_issues = issues,
                     sr_statement_type = stmt_type, sr_table_references = tables\<rparr>))"

subsection \<open>What the check promises\<close>

text \<open>The contract of \<open>check_safety\<close>: one statement, read-only by its text and by its parse.\<close>

definition safe_sql :: "sqlglot \<Rightarrow> string \<Rightarrow> string \<Rightarrow> bool" where
  "safe_sql sg sql dialect \<longleftrightarrow>
     strip sql \<noteq> [] \<and>
     (str_in ''SELECT'' (upper sql) \<or> prefix ''WITH'' (upper sql)) \<and>
     list_all (\<lambda>kw. \<not> str_in kw (upper sql)) FORBIDDEN_KEYWORDS \<and>
     length (sql_statements sql) \<le> 1 \<and>
     (case sg_parse sg sql dialect of
        Inl e \<Rightarrow> False
      | Inr parsed \<Rightarrow>
          (case List.map_filter id parsed of
             [stmt] \<Rightarrow> lower (upper (statement_kind stmt)) \<notin> set AST_FORBIDDEN
           | _ \<Rightarrow> False))"

lemma keyword_issues_Nil:
  "keyword_issues u = [] \<longleftrightarrow> list_all (\<lambda>kw. \<not> str_in kw u) FORBIDDEN_KEYWORDS"
  by (auto simp: keyword_issues_def filter_empty_conv list_all_iff)

lemma l1_issues_Nil:
  "l1_issues sql = [] \<longleftrightarrow>
     (str_in ''SELECT'' (upper sql) \<or> prefix ''WITH'' (upper sql)) \<and>
     list_all (\<lambda>kw. \<not> str_in kw (upper sql)) FORBIDDEN_KEYWORDS \<and>
     length (sql_statements sql) \<le> 1"
  by (auto simp: l1_issues_def keyword_issues_Nil Let_def)

lemma ast_check_clean:
  "(\<exists>st tabs. ast_check sg sql dialect = Inr ([], st, tabs)) \<longleftrightarrow>
     (case sg_parse sg sql dialect of
        Inl e \<Rightarrow> False
      | Inr parsed \<Rightarrow>
          (case List.map_filter id parsed of
             [stmt] \<Rightarrow> lower (upper (statement_kind stmt)) \<notin> set AST_FORBIDDEN
           | _ \<Rightarrow> False))"
  by (auto simp: ast_check_def Let_def split: sum.split list.split)

lemma check_safety_valid_iff:
  "(\<exists>r. check_safety sg sql dialect = Inr r \<and> sr_valid r) \<longleftrightarrow> safe_sql sg sql dialect"
proof (cases "strip sql = []")
  case True
  then show ?thesis by (simp add: check_safety_def safe_sql_def)
next
  case False
  then have "sql \<noteq> []" by auto
  with False have "(\<exists>r. check_safety sg sql dialect = Inr r \<and> sr_valid r) \<longleftrightarrow>
      l1_issues sql = [] \<and> (\<exists>st tabs. ast_check sg sql dialect = Inr ([], st, tabs))"
    by (cases "ast_check sg sql dialect") (auto simp: check_safety_def Let_def)
  also have "\<dots> \<longleftrightarrow> safe_sql sg sql dialect"
    unfolding ast_check_clean l1_issues_Nil safe_sql_def using False by blast
  finally show ?thesis .
qed

text \<open>The issue types \<open>check_safety\<close> reports.\<close>

definition safety_issue_types :: "string list" where
  "safety_issue_types = [''empty_sql'', ''missing_select'', ''forbidden_keyword'', ''multi_statement'',
     ''ast_syntax'', ''ast_structure'', ''ast_forbidden'']"

lemma ast_check_types:
  "ast_check sg sql d = Inr (is, st, tabs) \<Longrightarrow> i \<in> set is \<Longrightarrow>
     i_type i \<in> {''ast_syntax'', ''ast_structure'', ''ast_forbidden''}"
  by (auto simp: ast_check_def Let_def split: sum.splits list.splits if_splits)

lemma l1_issue_types:
  "i \<in> set (l1_issues sql) \<Longrightarrow>
     i_type i \<in> {''missing_select'', ''forbidden_keyword'', ''multi_statement''}"
  by (auto simp: l1_issues_def keyword_issues_def Let_def split: if_splits)

lemma check_safety_issue_types:
  assumes "check_safety sg sql d = Inr r" and "i \<in> set (sr_issues r)"
  shows "i_type i \<in> set safety_issue_types"
  using assms ast_check_types l1_issue_types
  by (fastforce simp: check_safety_def py_bind_Inr_iff Let_def safety_issue_types_def
      split: if_splits)

lemma check_safety_raises:
  "check_safety sg sql d = Inl e \<longleftrightarrow>
     strip sql \<noteq> [] \<and> ast_check sg sql d = Inl e"
  by (cases "ast_check sg sql d") (auto simp: check_safety_def Let_def)

lemma somes_Nil: "List.map_filter id xs = [] \<longleftrightarrow> (\<forall>x\<in>set xs. x = None)"
  by (induction xs) (auto simp: List.map_filter_simps split: option.splits)

lemma ast_check_raises:
  "(\<exists>e. ast_check sg sql d = Inl e) \<longleftrightarrow>
     (\<exists>parsed. sg_parse sg sql d = Inr parsed \<and> parsed \<noteq> [] \<and> (\<forall>x\<in>set parsed. x = None))"
  by (auto simp: ast_check_def Let_def somes_Nil [symmetric] split: sum.splits list.splits)

text \<open>Whatever the parser answers, a text with a forbidden keyword is not valid.\<close>

lemma forbidden_rejected:
  assumes "kw \<in> set FORBIDDEN_KEYWORDS" and "str_in kw (upper sql)"
    and "check_safety sg sql d = Inr r"
  shows "\<not> sr_valid r"
  using assms check_safety_valid_iff [of sg sql d]
  by (auto simp: safe_sql_def list_all_iff)

subsection \<open>check_hallucinations\<close>

definition SQL_KW :: "string list" where
  "SQL_KW = [
    ''select'', ''from'', ''where'', ''and'', ''or'', ''not'', ''in'', ''on'', ''as'', ''by'',
    ''group'', ''order'', ''having'', ''limit'', ''join'', ''left'', ''right'', ''inner'',
    ''outer'', ''cross'', ''full'', ''union'', ''all'', ''distinct'', ''case'', ''when'',
    ''then'', ''else'', ''end'', ''between'', ''like'', ''is'', ''null'', ''true'', ''false'',
    ''count'', ''sum'', ''avg'', ''min'', ''max'', ''date'', ''strftime'', ''cast'', ''coalesce'',
    ''exists'', ''asc'', ''desc'', ''set'', ''into'', ''values'', ''create'', ''drop'',
    ''alter'', ''table'', ''index'', ''view'', ''database'', ''with'', ''over'', ''partition'',
    ''window'', ''row'', ''number'', ''rank'', ''dense'', ''first'', ''last'',
    ''round'', ''abs'', ''random'', ''length'', ''substr'', ''substring'', ''replace'',
    ''trim'', ''ltrim'', ''rtrim'', ''upper'', ''lower'', ''typeof'', ''ifnull'',
    ''printf'', ''hex'', ''unicode'', ''char'', ''instr'', ''total'', ''group_concat'',
    ''zeroblob'', ''changes'', ''last_insert_rowid'', ''sqlite_version'',
    ''primary'', ''key'', ''foreign'', ''references'', ''default'', ''check'', ''unique'',
    ''constraint'', ''cascade'', ''integer'', ''text'', ''real'', ''blob'', ''numeric'',
    ''varchar'', ''datetime'', ''timestamp'']"

definition hallu_tables :: "schema_info \<Rightarrow> string list" where
  "hallu_tables info = map (\<lambda>(t_name, t_info). lower t_name) info"

definition hallu_cols :: "schema_info \<Rightarrow> string list" where
  "hallu_cols info = concat (map (\<lambda>(t_name, t_info). map (lower \<circ> c_name) (columns t_info)) info)"

definition hallu_qualified :: "schema_info \<Rightarrow> string list" where
  "hallu_qualified info =
     concat (map (\<lambda>(t_name, t_info).
       map (\<lambda>c. lower t_name @ ''.'' @ lower (c_name c)) (columns t_info)) info)"

definition table_aliases_of :: "sql_ast \<Rightarrow> string list" where
  "table_aliases_of tree = map lower (filter (\<lambda>a. a \<noteq> []) (map snd (ast_tables tree)))"

definition is_select_alias :: "sql_ast \<Rightarrow> string \<Rightarrow> bool" where
  "is_select_alias tree name \<longleftrightarrow> list_ex (\<lambda>a. a \<noteq> [] \<and> lower a = name) (ast_aliases tree)"

definition table_issues :: "schema_info \<Rightarrow> sql_ast \<Rightarrow> issue list" where
  "table_issues info tree =
     map (\<lambda>t. mk_issue ''hallucination'' (''Table '' @ [CHR 0x27] @ t @ [CHR 0x27] @ '' not found in schema.''))
       (filter (\<lambda>t. t \<notin> set (hallu_tables info)) (real_tables tree))"

definition column_ref :: "string \<times> string \<Rightarrow> string" where
  "column_ref col = lower (fst col) @ ''.'' @ lower (snd col)"

definition qualified_suspect :: "schema_info \<Rightarrow> sql_ast \<Rightarrow> string \<times> string \<Rightarrow> bool" where
  "qualified_suspect info tree col =
     (fst col \<noteq> [] \<and>
      \<not> (lower (fst col) \<in> set (cte_aliases tree) \<or> lower (fst col) \<in> set (table_aliases_of tree)) \<and>
      column_ref col \<notin> set (hallu_qualified info))"

definition qualified_issues :: "schema_info \<Rightarrow> sql_ast \<Rightarrow> issue list" where
  "qualified_issues info tree =
     map (\<lambda>col. mk_issue ''hallucination''
            (''Column '' @ [CHR 0x27] @ column_ref col @ [CHR 0x27] @ '' not found in schema.''))
       (filter (qualified_suspect info tree) (ast_columns tree))"

definition bare_suspect :: "schema_info \<Rightarrow> sql_ast \<Rightarrow> string \<times> string \<Rightarrow> bool" where
  "bare_suspect info tree col =
     (let (tab, name) = col; col_name = lower name
      in tab = [] \<and>
         \<not> (col_name \<in> set SQL_KW \<or> isdigit col_name \<or> length col_name \<le> 1) \<and>
         \<not> (col_name \<in> set (hallu_cols info) \<or> col_name \<in> set (cte_aliases tree)
            \<or> col_name \<in> set (table_aliases_of tree)) \<and>
         col_name \<noteq> ''*'' \<and>
         \<not> is_select_alias tree col_name)"

definition bare_issues :: "schema_info \<Rightarrow> sql_ast \<Rightarrow> issue list" where
  "bare_issues info tree =
     (case find (bare_suspect info tree) (ast_columns tree) of
        None \<Rightarrow> []
      | Some (tab, name) \<Rightarrow> [mk_issue ''hallucination''
          (''Identifier '' @ [CHR 0x27] @ lower name @ [CHR 0x27] @ '' not in schema.'')])"

definition check_hallucinations :: "sqlglot \<Rightarrow> string \<Rightarrow> schema_info \<Rightarrow> bool \<times> issue list" where
  "check_hallucinations sg sql info =
     (case sg_parse_one sg sql None of
        Inl e \<Rightarrow> (False, [mk_issue ''hallucination'' ''SQL parse error, cannot check schema references.''])
      | Inr tree \<Rightarrow>
          let issues = table_issues info tree @ qualified_issues info tree @ bare_issues info tree
          in (length issues = 0, issues))"

text \<open>The contract of the schema check, on the parse and the schema as they are. A table is
  declared when it has no name of its own, when the schema has a table of that name (up to
  case), or when a common table expression of the query has it. A column reference with a
  prefix is declared when the prefix is a schema table that has the column, or when the prefix
  is the name of a common table expression or the alias of a table: what stands behind those is
  not looked at. A reference without prefix is declared when any schema table has such a column,
  when it is the name of a common table expression, of a table alias or of a select alias, and
  when the checker does not judge it: a star, a word of its keyword list, a number, a name
  of fewer than two characters.\<close>

inductive table_declared :: "schema_info \<Rightarrow> sql_ast \<Rightarrow> string \<Rightarrow> bool"
  for info :: schema_info and tree :: sql_ast where
  unnamed_table: "table_declared info tree []"
| schema_table: "(n, ti) \<in> set info \<Longrightarrow> lower n = lower t \<Longrightarrow> table_declared info tree t"
| cte_table: "a \<in> set (ast_ctes tree) \<Longrightarrow> a \<noteq> [] \<Longrightarrow> lower a = lower t \<Longrightarrow> table_declared info tree t"

inductive column_declared :: "schema_info \<Rightarrow> sql_ast \<Rightarrow> string \<Rightarrow> string \<Rightarrow> bool"
  for info :: schema_info and tree :: sql_ast where
  table_column: "p \<noteq> [] \<Longrightarrow> (n, ti) \<in> set info \<Longrightarrow> c \<in> set (columns ti) \<Longrightarrow>
     lower n = lower p \<Longrightarrow> lower (c_name c) = lower x \<Longrightarrow> column_declared info tree p x"
| cte_prefix: "p \<noteq> [] \<Longrightarrow> a \<in> set (ast_ctes tree) \<Longrightarrow> lower a = lower p \<Longrightarrow>
     column_declared info tree p x"
| alias_prefix: "p \<noteq> [] \<Longrightarrow> (t, a) \<in> set (ast_tables tree) \<Longrightarrow> lower a = lower p \<Longrightarrow>
     column_declared info tree p x"
| some_column: "(n, ti) \<in> set info \<Longrightarrow> c \<in> set (columns ti) \<Longrightarrow> lower (c_name c) = lower x \<Longrightarrow>
     column_declared info tree [] x"
| cte_name: "a \<in> set (ast_ctes tree) \<Longrightarrow> a \<noteq> [] \<Longrightarrow> lower a = lower x \<Longrightarrow> column_declared info tree [] x"
| table_alias: "(t, a) \<in> set (ast_tables tree) \<Longrightarrow> a \<noteq> [] \<Longrightarrow> lower a = lower x \<Longrightarrow>
     column_declared info tree [] x"
| select_alias: "a \<in> set (ast_aliases tree) \<Longrightarrow> a \<noteq> [] \<Longrightarrow> lower a = lower x \<Longrightarrow>
     column_declared info tree [] x"
| star: "column_declared info tree [] ''*''"
| sql_word: "lower x \<in> set SQL_KW \<Longrightarrow> column_declared info tree [] x"
| number: "isdigit (lower x) \<Longrightarrow> column_declared info tree [] x"
| short_name: "length x < 2 \<Longrightarrow> column_declared info tree [] x"

definition names_declared :: "schema_info \<Rightarrow> sql_ast \<Rightarrow> bool" where
  "names_declared info tree \<longleftrightarrow>
     (\<forall>(t, a) \<in> set (ast_tables tree). table_declared info tree t) \<and>
     (\<forall>(p, x) \<in> set (ast_columns tree). column_declared info tree p x)"

text \<open>The code compares a prefixed reference with the schema as one text \<open>table.column\<close>. The
  two parts can be told apart when neither a schema table nor a prefix contains a dot.\<close>

definition undotted :: "schema_info \<Rightarrow> sql_ast \<Rightarrow> bool" where
  "undotted info tree \<longleftrightarrow>
     (\<forall>(n, ti) \<in> set info. CHR ''.'' \<notin> set n) \<and> (\<forall>(p, x) \<in> set (ast_columns tree). CHR ''.'' \<notin> set p)"

lemma dot_lower: "CHR ''.'' \<in> set (lower s) \<longleftrightarrow> CHR ''.'' \<in> set s"
proof -
  have "CHR ''.'' = lower_char c \<longleftrightarrow> c = CHR ''.''" for c
  proof
    assume d: "CHR ''.'' = lower_char c"
    then have "\<not> is_upper_char c"
      using lower_char_not_upper by (cases "is_upper_char c")
        (auto simp: lower_char_def is_upper_char_def ord_of_def chr_of_def
          dest: arg_cong [where f = "of_char :: char \<Rightarrow> nat"])
    then show "c = CHR ''.''" using d by (simp add: lower_char_def)
  qed (simp add: char_class_defs)
  then show ?thesis by (auto simp: lower_def image_iff)
qed

lemma split_at_char:
  assumes "c \<notin> set a" and "c \<notin> set b" and "a @ c # x = b @ c # y"
  shows "a = b \<and> x = y"
  using assms by (induction a arbitrary: b) (auto simp: Cons_eq_append_conv append_eq_Cons_conv)

lemma not_real_table:
  "t \<in> set (hallu_tables info) \<longleftrightarrow> (\<exists>n ti. (n, ti) \<in> set info \<and> t = lower n)"
  by (force simp: hallu_tables_def)

lemma table_declared_iff:
  "table_declared info tree t \<longleftrightarrow>
     lower t \<notin> set (real_tables tree) \<or> lower t \<in> set (hallu_tables info)"
  if "t \<in> fst ` set (ast_tables tree)"
  using that unfolding table_declared.simps not_real_table
  by (force simp: real_tables_def cte_aliases_def image_iff)

lemma mem_of_map: "y \<in> set (map f xs) \<longleftrightarrow> (\<exists>a. a \<in> set xs \<and> f a = y)"
  by auto

lemma lower_eq_Nil: "lower a = lower p \<Longrightarrow> p \<noteq> [] \<Longrightarrow> a \<noteq> []"
  by (metis lower_Nil_iff)

lemma lower_mem_ctes: "p \<noteq> [] \<Longrightarrow>
   lower p \<in> set (cte_aliases tree) \<longleftrightarrow> (\<exists>a. a \<in> set (ast_ctes tree) \<and> lower a = lower p)"
  unfolding cte_aliases_def mem_of_map by (auto dest: lower_eq_Nil)

lemma lower_mem_aliases: "p \<noteq> [] \<Longrightarrow>
   lower p \<in> set (table_aliases_of tree) \<longleftrightarrow> (\<exists>t a. (t, a) \<in> set (ast_tables tree) \<and> lower a = lower p)"
proof -
  assume p: "p \<noteq> []"
  have "lower p \<in> set (table_aliases_of tree) \<longleftrightarrow>
      (\<exists>c. c \<in> set (ast_tables tree) \<and> snd c \<noteq> [] \<and> lower (snd c) = lower p)"
    unfolding table_aliases_of_def mem_of_map set_filter mem_Collect_eq by blast
  also have "\<dots> \<longleftrightarrow> (\<exists>c. c \<in> set (ast_tables tree) \<and> lower (snd c) = lower p)"
    using lower_eq_Nil [OF _ p] by blast
  finally show ?thesis by auto
qed

lemma bare_issues_Nil:
  "bare_issues info tree = [] \<longleftrightarrow> (\<forall>col\<in>set (ast_columns tree). \<not> bare_suspect info tree col)"
proof -
  have "bare_issues info tree = [] \<longleftrightarrow> find (bare_suspect info tree) (ast_columns tree) = None"
    by (simp add: bare_issues_def split: option.split)
  then show ?thesis by (auto simp: find_None_iff)
qed

lemma prefixed_declared:
  assumes "p \<noteq> []"
  shows "column_declared info tree p x \<Longrightarrow> \<not> qualified_suspect info tree (p, x)"
    and "undotted info tree \<Longrightarrow> (p, x) \<in> set (ast_columns tree) \<Longrightarrow>
      \<not> qualified_suspect info tree (p, x) \<Longrightarrow> column_declared info tree p x"
proof -
  assume "column_declared info tree p x"
  then show "\<not> qualified_suspect info tree (p, x)"
    using assms lower_mem_ctes [OF assms] lower_mem_aliases [OF assms]
    by (cases rule: column_declared.cases)
      (auto simp: qualified_suspect_def column_ref_def hallu_qualified_def image_iff, force+)
next
  assume u: "undotted info tree" "(p, x) \<in> set (ast_columns tree)"
    and "\<not> qualified_suspect info tree (p, x)"
  then consider "lower p \<in> set (cte_aliases tree)" | "lower p \<in> set (table_aliases_of tree)"
    | "column_ref (p, x) \<in> set (hallu_qualified info)"
    using assms by (auto simp: qualified_suspect_def)
  then show "column_declared info tree p x"
  proof cases
    case 3
    then obtain n ti c where n: "(n, ti) \<in> set info" and c: "c \<in> set (columns ti)"
      and "lower p @ CHR ''.'' # lower x = lower n @ CHR ''.'' # lower (c_name c)"
      by (auto simp: column_ref_def hallu_qualified_def)
    moreover have "CHR ''.'' \<notin> set (lower p)" "CHR ''.'' \<notin> set (lower n)"
      using u n by (auto simp: undotted_def dot_lower)
    ultimately have "lower n = lower p \<and> lower (c_name c) = lower x"
      using split_at_char by metis
    then show ?thesis using table_column [OF assms n c] by simp
  qed (use assms lower_mem_ctes lower_mem_aliases cte_prefix alias_prefix in metis)+
qed

lemma bare_declared: "column_declared info tree [] x \<longleftrightarrow> \<not> bare_suspect info tree ([], x)"
proof -
  have "lower x = ''*'' \<Longrightarrow> length x < 2"
    using length_lower [of x] by simp
  moreover have "lower x \<in> set (hallu_cols info) \<longleftrightarrow>
      (\<exists>n ti c. (n, ti) \<in> set info \<and> c \<in> set (columns ti) \<and> lower (c_name c) = lower x)"
    by (force simp: hallu_cols_def)
  moreover have "lower x \<in> set (cte_aliases tree) \<longleftrightarrow>
      (\<exists>a. a \<in> set (ast_ctes tree) \<and> a \<noteq> [] \<and> lower a = lower x)"
    unfolding cte_aliases_def mem_of_map by auto
  moreover have "lower x \<in> set (table_aliases_of tree) \<longleftrightarrow>
      (\<exists>t a. (t, a) \<in> set (ast_tables tree) \<and> a \<noteq> [] \<and> lower a = lower x)"
    unfolding table_aliases_of_def mem_of_map by force
  moreover have "is_select_alias tree (lower x) \<longleftrightarrow>
      (\<exists>a. a \<in> set (ast_aliases tree) \<and> a \<noteq> [] \<and> lower a = lower x)"
    by (auto simp: is_select_alias_def list_ex_iff)
  ultimately show ?thesis
    unfolding column_declared.simps [of info tree "[]"] bare_suspect_def prod.case Let_def
      length_lower by force
qed

lemma unprefixed_not_qualified: "\<not> qualified_suspect info tree ([], x)"
  by (simp add: qualified_suspect_def)

lemma prefixed_not_bare: "p \<noteq> [] \<Longrightarrow> \<not> bare_suspect info tree (p, x)"
  by (simp add: bare_suspect_def)

text \<open>The three groups of issues, against the contract.\<close>

lemma table_issue_iff:
  assumes "(t, a) \<in> set (ast_tables tree)"
  shows "table_declared info tree t \<longleftrightarrow>
    mk_issue ''hallucination'' (''Table '' @ [CHR 0x27] @ lower t @ [CHR 0x27] @ '' not found in schema.'')
      \<notin> set (table_issues info tree)"
  using assms by (subst table_declared_iff) (force simp: table_issues_def)+

lemma table_issues_Nil:
  "table_issues info tree = [] \<longleftrightarrow> (\<forall>(t, a) \<in> set (ast_tables tree). table_declared info tree t)"
proof
  assume "table_issues info tree = []"
  then show "\<forall>(t, a) \<in> set (ast_tables tree). table_declared info tree t"
    using table_issue_iff by fastforce
next
  assume all: "\<forall>(t, a) \<in> set (ast_tables tree). table_declared info tree t"
  have "t \<in> set (hallu_tables info)" if r: "t \<in> set (real_tables tree)" for t
  proof -
    from r obtain n a where "(n, a) \<in> set (ast_tables tree)" "t = lower n"
      by (auto simp: real_tables_def)
    then show ?thesis using all r table_declared_iff [of n tree info] by force
  qed
  then show "table_issues info tree = []" by (simp add: table_issues_def filter_empty_conv)
qed

lemma names_declared_no_issue:
  "names_declared info tree \<Longrightarrow>
     table_issues info tree @ qualified_issues info tree @ bare_issues info tree = []"
proof -
  assume n: "names_declared info tree"
  have "\<not> qualified_suspect info tree (p, x) \<and> \<not> bare_suspect info tree (p, x)"
    if i: "(p, x) \<in> set (ast_columns tree)" for p x
  proof -
    have d: "column_declared info tree p x" using n i by (auto simp: names_declared_def)
    show ?thesis
    proof (cases "p = []")
      case True
      then show ?thesis using d bare_declared unprefixed_not_qualified by metis
    next
      case False
      then show ?thesis using d prefixed_declared(1) prefixed_not_bare by metis
    qed
  qed
  then show ?thesis
    using n table_issues_Nil [of info tree] bare_issues_Nil [of info tree]
    by (auto simp: names_declared_def qualified_issues_def filter_empty_conv)
qed

lemma no_issue_names_declared:
  assumes "undotted info tree"
    and "table_issues info tree @ qualified_issues info tree @ bare_issues info tree = []"
  shows "names_declared info tree"
proof -
  have "column_declared info tree p x" if i: "(p, x) \<in> set (ast_columns tree)" for p x
  proof (cases "p = []")
    case True
    then show ?thesis using assms(2) i bare_declared bare_issues_Nil by fastforce
  next
    case False
    have "\<not> qualified_suspect info tree (p, x)"
      using assms(2) i by (auto simp: qualified_issues_def filter_empty_conv)
    then show ?thesis using prefixed_declared(2) [OF False assms(1) i] by blast
  qed
  then show ?thesis
    using assms(2) table_issues_Nil [of info tree] by (auto simp: names_declared_def)
qed

lemma prefixed_issue_iff:
  assumes "undotted info tree" and "(p, x) \<in> set (ast_columns tree)" and "p \<noteq> []"
    and "\<not> column_declared info tree p x"
  shows "mk_issue ''hallucination''
      (''Column '' @ [CHR 0x27] @ lower p @ ''.'' @ lower x @ [CHR 0x27] @ '' not found in schema.'')
      \<in> set (qualified_issues info tree)"
proof -
  have "qualified_suspect info tree (p, x)" using assms prefixed_declared(2) by blast
  then show ?thesis using assms(2) by (force simp: qualified_issues_def column_ref_def)
qed

lemma find_append_first: "find P (xs @ ys) = (case find P xs of None \<Rightarrow> find P ys | Some x \<Rightarrow> Some x)"
  by (induction xs) auto

lemma bare_issue_first:
  assumes "ast_columns tree = xs @ ([], x) # ys" and "\<not> column_declared info tree [] x"
    and "\<forall>(p, y) \<in> set xs. p = [] \<longrightarrow> column_declared info tree [] y"
  shows "bare_issues info tree =
    [mk_issue ''hallucination'' (''Identifier '' @ [CHR 0x27] @ lower x @ [CHR 0x27] @ '' not in schema.'')]"
proof -
  have "bare_suspect info tree ([], x)" using assms(2) bare_declared by blast
  moreover have "\<not> bare_suspect info tree (p, y)" if "(p, y) \<in> set xs" for p y
    using that assms(3) bare_declared [of info tree y] prefixed_not_bare [of p info tree y] by (cases "p = []") auto
  then have "find (bare_suspect info tree) xs = None" by (auto simp: find_None_iff)
  ultimately have "find (bare_suspect info tree) (ast_columns tree) = Some ([], x)"
    using assms(1) by (simp add: find_append_first)
  then show ?thesis by (simp add: bare_issues_def)
qed

text \<open>No issue of another group has the text of a missing table.\<close>

lemma table_issue_only:
  "mk_issue ''hallucination'' (''Table '' @ u) \<in>
       set (table_issues info tree @ qualified_issues info tree @ bare_issues info tree) \<longleftrightarrow>
   mk_issue ''hallucination'' (''Table '' @ u) \<in> set (table_issues info tree)"
  by (auto simp: qualified_issues_def bare_issues_def split: option.splits)

lemma check_hallucinations_snd:
  "sg_parse_one sg sql None = Inr tree \<Longrightarrow> snd (check_hallucinations sg sql info) =
     table_issues info tree @ qualified_issues info tree @ bare_issues info tree"
  by (simp add: check_hallucinations_def Let_def)

lemma check_hallucinations_fst:
  "fst (check_hallucinations sg sql info) \<longleftrightarrow> snd (check_hallucinations sg sql info) = []"
  by (auto simp: check_hallucinations_def Let_def split: sum.splits)

lemma hallucination_types:
  "i \<in> set (snd (check_hallucinations sg sql info)) \<Longrightarrow> i_type i = ''hallucination''"
  by (auto simp: check_hallucinations_def table_issues_def qualified_issues_def bare_issues_def
      Let_def split: sum.splits option.splits prod.splits if_splits)

subsection \<open>ast_validator\<close>

definition VALIDATOR_FORBIDDEN :: "string list" where
  "VALIDATOR_FORBIDDEN =
     [''insert'', ''delete'', ''drop'', ''alter'', ''create'', ''truncate'', ''update'', ''pragama'']"

definition validate_sql_ast :: "sqlglot \<Rightarrow> string \<Rightarrow> string \<Rightarrow> bool \<times> issue list" where
  "validate_sql_ast sg sql dialect =
     (if sql = [] \<or> strip sql = [] then (False, [mk_issue ''ast_syntax'' ''Empty SQL''])
      else
        (case sg_parse sg sql dialect of
           Inl e \<Rightarrow> (False, [mk_issue ''ast_syntax'' (''SQL parse error: '' @ take 200 (exc_msg e))])
         | Inr parsed \<Rightarrow>
             if parsed = [] then (False, [mk_issue ''ast_syntax'' ''SQL parsed to empty AST''])
             else
               let statements = List.map_filter id parsed
               in if 1 < length statements
                  then (False, [mk_issue ''ast_structure'' (multi_detail (length statements))])
                  else
                    (case find (\<lambda>st. lower (statement_kind st) \<in> set VALIDATOR_FORBIDDEN) statements of
                       Some st \<Rightarrow> (False, [mk_issue ''ast_forbidden'' (''Forbidden statement type: ''
                           @ upper (lower (statement_kind st)) @ ''. Only SELECT/WITH allowed.'')])
                     | None \<Rightarrow> (True, []))))"

definition extract_table_names :: "sqlglot \<Rightarrow> string \<Rightarrow> string \<Rightarrow> string list" where
  "extract_table_names sg sql dialect =
     (if sql = [] \<or> strip sql = [] then []
      else (case sg_parse_one sg sql (Some dialect) of Inl e \<Rightarrow> [] | Inr tree \<Rightarrow> real_tables tree))"

lemma distinct_extract_table_names [simp]: "distinct (extract_table_names sg sql d)"
  by (simp add: extract_table_names_def real_tables_def split: sum.splits)

text \<open>The table references \<open>check_safety\<close> reports are the tables \<open>extract_table_names\<close>
  finds, sorted.\<close>

lemma safety_tables_eq:
  assumes "check_safety sg sql d = Inr r" and "sr_valid r"
  shows "set (sr_table_references r) = set (extract_table_names sg sql d)"
  using assms
  by (auto simp: check_safety_def ast_check_def extract_table_names_def py_bind_Inr_iff Let_def
      split: if_splits sum.splits list.splits)

subsection \<open>Properties of the checks\<close>

text \<open>A concrete parser answer, for the instances of the properties.\<close>

definition demo_ast :: sql_ast where
  "demo_ast = \<lparr>ast_key = Some ''select'', ast_type_name = ''Select'', ast_ctes = [],
     ast_tables = [(''users'', [])], ast_columns = [([], ''name'')], ast_aliases = []\<rparr>"

definition pragma_ast :: sql_ast where
  "pragma_ast = \<lparr>ast_key = Some ''pragma'', ast_type_name = ''Pragma'', ast_ctes = [],
     ast_tables = [], ast_columns = [], ast_aliases = []\<rparr>"

definition demo_sg :: "sql_ast \<Rightarrow> sqlglot" where
  "demo_sg a = \<lparr>sg_parse = (\<lambda>s d. Inr [Some a]), sg_parse_one = (\<lambda>s d. Inr a)\<rparr>"

definition demo_sql :: string where
  "demo_sql = ''SELECT name FROM users''"

text \<open>C2: When \<open>check_safety\<close> answers, it accepts exactly the texts of the contract \<open>safe_sql\<close>
  (one read-only statement, by its text and by its parse), it accepts exactly when it reports
  no issue, and every issue it reports has one of seven types.\<close>

theorem check_safety_correct:
  assumes "check_safety sg sql d = Inr r"
  shows "(sr_valid r \<longleftrightarrow> safe_sql sg sql d) \<and> (sr_valid r \<longleftrightarrow> sr_issues r = []) \<and>
    list_all (\<lambda>i. i_type i \<in> set safety_issue_types) (sr_issues r)"
proof -
  have "sr_valid r \<longleftrightarrow> sr_issues r = []"
    using assms by (auto simp: check_safety_def py_bind_Inr_iff Let_def split: if_splits)
  then show ?thesis
    using assms check_safety_valid_iff [of sg sql d] check_safety_issue_types [OF assms]
    by (auto simp: list_all_iff)
qed

theorem check_safety_correct_witness:
  "(\<exists>r. check_safety (demo_sg demo_ast) demo_sql ''sqlite'' = Inr r \<and> sr_valid r)
   \<and> safe_sql (demo_sg demo_ast) demo_sql ''sqlite''"
proof -
  have "py_ok sr_valid (check_safety (demo_sg demo_ast) demo_sql ''sqlite'')"
    by code_simp
  then have "\<exists>r. check_safety (demo_sg demo_ast) demo_sql ''sqlite'' = Inr r \<and> sr_valid r"
    by (simp add: py_ok_iff)
  then show ?thesis using check_safety_correct by blast
qed

text \<open>\<open>check_safety\<close> itself raises in exactly one situation: the text is not blank and the
  parser returns a non-empty list that holds no statement (\<open>stmts[0]\<close> of an empty list).\<close>

theorem check_safety_raises_iff:
  "(\<exists>e. check_safety sg sql d = Inl e) \<longleftrightarrow>
     strip sql \<noteq> [] \<and>
     (\<exists>parsed. sg_parse sg sql d = Inr parsed \<and> parsed \<noteq> [] \<and> list_all (\<lambda>x. x = None) parsed)"
  unfolding check_safety_raises using ast_check_raises [of sg sql d] by (auto simp: list_all_iff)

text \<open>The two statement checks agree: on a text with an AST, \<open>validate_sql_ast\<close> accepts what
  the AST stage of \<open>check_safety\<close> accepts, with two exceptions that come from the misspelt
  entry of its list: it accepts a \<open>PRAGMA\<close> statement, and would refuse a \<open>PRAGAMA\<close> one.\<close>

theorem validators_agree_except_pragma:
  assumes "strip sql \<noteq> []" and "ast_check sg sql d = Inr (issues, st, tabs)"
  shows "fst (validate_sql_ast sg sql d) \<longleftrightarrow>
    (issues = [] \<and> lower st \<noteq> ''pragama'') \<or> lower st = ''pragma''"
proof (cases "sg_parse sg sql d")
  case (Inl e)
  then show ?thesis using assms by (auto simp: validate_sql_ast_def ast_check_def lower_def)
next
  case (Inr parsed)
  have ne: "sql \<noteq> []" using assms(1) by auto
  consider "parsed = []" | "1 < length (List.map_filter id parsed)"
    | x where "parsed \<noteq> []" "List.map_filter id parsed = [x]"
    | "parsed \<noteq> []" "List.map_filter id parsed = []"
    by (cases "List.map_filter id parsed" rule: list.exhaust [case_product list.exhaust]) fastforce+
  then show ?thesis
  proof cases
    case 2
    then have "parsed \<noteq> []" by auto
    with 2 have "st = []" and "issues \<noteq> []"
      using assms(2) Inr by (auto simp: ast_check_def Let_def)
    moreover have "\<not> fst (validate_sql_ast sg sql d)"
      using assms(1) ne 2 \<open>parsed \<noteq> []\<close> Inr by (simp add: validate_sql_ast_def Let_def)
    ultimately show ?thesis by (simp add: lower_def)
  next
    case (3 x)
    have kw: "lower (statement_kind x) \<in> set VALIDATOR_FORBIDDEN \<longleftrightarrow>
        lower (statement_kind x) \<noteq> ''pragma'' \<and>
        (lower (statement_kind x) \<in> set AST_FORBIDDEN \<or> lower (statement_kind x) = ''pragama'')"
      by (auto simp: AST_FORBIDDEN_def VALIDATOR_FORBIDDEN_def)
    have p: "''pragma'' \<in> set AST_FORBIDDEN" by (simp add: AST_FORBIDDEN_def)
    have "st = upper (statement_kind x)"
      and "issues = [] \<longleftrightarrow> lower (statement_kind x) \<notin> set AST_FORBIDDEN"
      using assms(2) 3 Inr by (auto simp: ast_check_def Let_def split: if_splits)
    moreover have "fst (validate_sql_ast sg sql d) \<longleftrightarrow>
        lower (statement_kind x) \<notin> set VALIDATOR_FORBIDDEN"
      using assms(1) ne 3 Inr by (simp add: validate_sql_ast_def Let_def)
    ultimately show ?thesis using kw p by auto
  qed (use assms ne Inr in \<open>auto simp: validate_sql_ast_def ast_check_def Let_def lower_def\<close>)
qed

theorem validators_agree_except_pragma_witness:
  "fst (validate_sql_ast (demo_sg pragma_ast) ''PRAGMA user_version'' ''sqlite'')"
proof -
  have "py_ok (\<lambda>(issues, st, tabs). lower st = ''pragma'')
      (ast_check (demo_sg pragma_ast) ''PRAGMA user_version'' ''sqlite'')"
    by code_simp
  then have "\<exists>issues st tabs. ast_check (demo_sg pragma_ast) ''PRAGMA user_version'' ''sqlite''
      = Inr (issues, st, tabs) \<and> lower st = ''pragma''"
    by (auto simp: py_ok_iff)
  moreover have "strip ''PRAGMA user_version'' \<noteq> []" by code_simp
  ultimately show ?thesis using validators_agree_except_pragma by blast
qed

text \<open>C3: The schema check against its contract, on a query that parses. A query all of whose
  tables and columns are declared (by the schema, or by the query itself through its common
  table expressions and aliases) is accepted. When no schema table and no prefix contains a
  dot, it is the only kind accepted, and each undeclared table and each undeclared prefixed
  column is reported with its name; an undeclared bare name is reported when it is the first
  (the code stops there, as one is enough to refuse). A query is accepted exactly when nothing
  is reported, and everything reported is a \<open>hallucination\<close>.\<close>

theorem check_hallucinations_correct:
  assumes "sg_parse_one sg sql None = Inr tree"
  shows "(names_declared info tree \<longrightarrow> fst (check_hallucinations sg sql info)) \<and>
    (undotted info tree \<longrightarrow>
      (fst (check_hallucinations sg sql info) \<longrightarrow> names_declared info tree) \<and>
      (\<forall>(p, x) \<in> set (ast_columns tree). p \<noteq> [] \<and> \<not> column_declared info tree p x \<longrightarrow>
        mk_issue ''hallucination''
          (''Column '' @ [CHR 0x27] @ lower p @ ''.'' @ lower x @ [CHR 0x27] @ '' not found in schema.'')
          \<in> set (snd (check_hallucinations sg sql info)))) \<and>
    (\<forall>xs x ys. ast_columns tree = xs @ ([], x) # ys \<and> \<not> column_declared info tree [] x \<and>
        (\<forall>(p, y) \<in> set xs. p = [] \<longrightarrow> column_declared info tree [] y) \<longrightarrow>
      mk_issue ''hallucination'' (''Identifier '' @ [CHR 0x27] @ lower x @ [CHR 0x27] @ '' not in schema.'')
        \<in> set (snd (check_hallucinations sg sql info))) \<and>
    (\<forall>(t, a) \<in> set (ast_tables tree).
      table_declared info tree t \<longleftrightarrow>
        mk_issue ''hallucination''
          (''Table '' @ [CHR 0x27] @ lower t @ [CHR 0x27] @ '' not found in schema.'')
          \<notin> set (snd (check_hallucinations sg sql info))) \<and>
    (fst (check_hallucinations sg sql info) \<longleftrightarrow> snd (check_hallucinations sg sql info) = []) \<and>
    list_all (\<lambda>i. i_type i = ''hallucination'') (snd (check_hallucinations sg sql info))"
  unfolding check_hallucinations_fst check_hallucinations_snd [OF assms]
proof (intro conjI)
  show "names_declared info tree \<longrightarrow>
      table_issues info tree @ qualified_issues info tree @ bare_issues info tree = []"
    using names_declared_no_issue by blast
next
  show "undotted info tree \<longrightarrow>
      (table_issues info tree @ qualified_issues info tree @ bare_issues info tree = [] \<longrightarrow>
        names_declared info tree) \<and>
      (\<forall>(p, x) \<in> set (ast_columns tree). p \<noteq> [] \<and> \<not> column_declared info tree p x \<longrightarrow>
        mk_issue ''hallucination''
          (''Column '' @ [CHR 0x27] @ lower p @ ''.'' @ lower x @ [CHR 0x27] @ '' not found in schema.'')
          \<in> set (table_issues info tree @ qualified_issues info tree @ bare_issues info tree))"
    using no_issue_names_declared prefixed_issue_iff by (auto simp del: append_Cons)
next
  show "\<forall>xs x ys. ast_columns tree = xs @ ([], x) # ys \<and> \<not> column_declared info tree [] x \<and>
        (\<forall>(p, y) \<in> set xs. p = [] \<longrightarrow> column_declared info tree [] y) \<longrightarrow>
      mk_issue ''hallucination'' (''Identifier '' @ [CHR 0x27] @ lower x @ [CHR 0x27] @ '' not in schema.'')
        \<in> set (table_issues info tree @ qualified_issues info tree @ bare_issues info tree)"
    using bare_issue_first by simp
next
  show "\<forall>(t, a) \<in> set (ast_tables tree). table_declared info tree t \<longleftrightarrow>
        mk_issue ''hallucination''
          (''Table '' @ [CHR 0x27] @ lower t @ [CHR 0x27] @ '' not found in schema.'')
          \<notin> set (table_issues info tree @ qualified_issues info tree @ bare_issues info tree)"
    unfolding table_issue_only using table_issue_iff by blast
next
  show "list_all (\<lambda>i. i_type i = ''hallucination'')
      (table_issues info tree @ qualified_issues info tree @ bare_issues info tree)"
    using hallucination_types [of _ sg sql info] by (simp add: check_hallucinations_snd [OF assms] list_all_iff)
qed simp

definition demo_schema :: schema_info where
  "demo_schema = [(''users'', \<lparr>columns = [\<lparr>c_name = ''name'', c_type = ''TEXT'', c_nullable = True\<rparr>],
     pk_cols = [], fk_cols = [], fks = [], actual_name = ''users''\<rparr>)]"

theorem check_hallucinations_correct_witness:
  "undotted demo_schema demo_ast \<and> fst (check_hallucinations (demo_sg demo_ast) demo_sql demo_schema) \<and>
   names_declared demo_schema demo_ast"
proof -
  have "fst (check_hallucinations (demo_sg demo_ast) demo_sql demo_schema)" by code_simp
  moreover have "sg_parse_one (demo_sg demo_ast) demo_sql None = Inr demo_ast"
    by (simp add: demo_sg_def)
  moreover have "undotted demo_schema demo_ast"
    by (simp add: undotted_def demo_schema_def demo_ast_def)
  ultimately show ?thesis
    using check_hallucinations_correct [of "demo_sg demo_ast" demo_sql demo_ast demo_schema] by simp
qed

end
