(* ===== verification/Classifier.thy ===== *)
theory Classifier
  imports Safety
begin

text \<open>
  \<open>guard/error_classifier.py\<close>: \<open>classify_exec_error\<close> maps the text of a database error to an
  error type and a hint for the generator; the two formatters build the feedback texts of the
  legacy pipeline. Indexing past the end of a \<open>split\<close> raises, as in the source.
\<close>

definition em_dash :: string where "em_dash = [CHR 0xE2, CHR 0x80, CHR 0x94]"

definition sq :: string where "sq = [CHR 0x27]"   \<comment> \<open>single quote\<close>
definition dq :: string where "dq = [CHR 0x22]"   \<comment> \<open>double quote\<close>

text \<open>\<open>s.split(sep)[-1]\<close>\<close>

definition after_last :: "string \<Rightarrow> string \<Rightarrow> string" where
  "after_last sep s = last (split sep s)"

text \<open>\<open>kw\s+"?([^\s"]+)"?\s+does not exist\<close>\<close>

definition rx_does_not_exist :: "string \<Rightarrow> rx" where
  "rx_does_not_exist kw =
     rseq [rlit kw, rplus rws, ropt (rlit dq),
           RGrp 1 (rplus (RCls (\<lambda>c. \<not> is_space_char c \<and> c \<noteq> CHR 0x22))),
           ropt (rlit dq), rplus rws, rlit ''does not exist'']"

text \<open>\<open>function\s+(\S+)\(\<close>\<close>

definition rx_function_name :: rx where
  "rx_function_name = rseq [rlit ''function'', rplus rws, RGrp 1 (rplus rnonws), rlit ''('']"

definition group1_or :: "string \<Rightarrow> re_match option \<Rightarrow> string" where
  "group1_or dflt m = (case m of None \<Rightarrow> dflt | Some m \<Rightarrow> m_group 1 m)"

definition hint_column_schema :: "string \<Rightarrow> string" where
  "hint_column_schema col = ''Column '' @ sq @ col @ sq @ '' does not exist. Check the SCHEMA section ''
     @ em_dash @ '' only use column names listed there.''"

definition hint_syntax :: string where
  "hint_syntax = ''SQL syntax error. Check for: missing commas, unmatched parentheses, ''
     @ ''incomplete JOIN ... ON clauses, or missing keywords.''"

definition unknown_column_name :: "string \<Rightarrow> string" where
  "unknown_column_name error_msg =
     (let col = strip_by (\<lambda>c. c \<in> set ('' :;'' @ sq @ dq)) (after_last ''Unknown column'' error_msg)
      in if str_in sq col then split sq col ! 1 else take 40 col)"

definition missing_table_name :: "string \<Rightarrow> string py" where
  "missing_table_name error_msg =
     (if str_in sq error_msg then
        (case split sq (after_last ''Table'' error_msg) of
           _ # tbl # _ \<Rightarrow> Inr tbl
         | _ \<Rightarrow> Inl (PyExc ''IndexError'' ''list index out of range''))
      else Inr ''?'')"

definition classify_exec_error :: "string \<Rightarrow> (error_type \<times> string) py" where
  "classify_exec_error error_msg =
     (let low = lower error_msg in
      if str_in ''no such column:'' low then
        Inr (MISSING_COLUMN, hint_column_schema (strip (after_last ''no such column:'' error_msg)))
      else if str_in ''unknown column'' low then
        Inr (MISSING_COLUMN, ''Column '' @ sq @ unknown_column_name error_msg @ sq
               @ '' does not exist in the database. Check the SCHEMA section for the correct column name.'')
      else if str_in ''column'' low \<and> str_in ''does not exist'' low then
        Inr (MISSING_COLUMN,
             hint_column_schema (group1_or ''?'' (re_search (rx_does_not_exist ''column'') low)))
      else if str_in ''no such table:'' low then
        Inr (MISSING_TABLE, ''Table '' @ sq @ strip (after_last ''no such table:'' error_msg) @ sq
               @ '' does not exist. Check the SCHEMA section for the correct table name.'')
      else if str_in (''doesn'' @ sq @ ''t exist'') low \<and> str_in ''table'' low then
        py_bind (missing_table_name error_msg) (\<lambda>tbl.
          Inr (MISSING_TABLE, ''Table '' @ sq @ tbl @ sq
               @ '' does not exist. Check the SCHEMA section for the correct table name.''))
      else if str_in ''relation'' low \<and> str_in ''does not exist'' low then
        Inr (MISSING_TABLE, ''Table/relation '' @ sq
               @ group1_or ''?'' (re_search (rx_does_not_exist ''relation'') low) @ sq
               @ '' does not exist. Check the SCHEMA section.'')
      else if str_in ''ambiguous column name:'' low then
        (let col = strip (after_last ''ambiguous column name:'' error_msg)
         in Inr (AMBIGUOUS_COLUMN, ''Column '' @ sq @ col @ sq @ '' exists in multiple tables. ''
               @ ''Qualify it with the table name or alias (e.g., orders.'' @ col @ '').''))
      else if str_in ''column'' low \<and> str_in ''is ambiguous'' low then
        Inr (AMBIGUOUS_COLUMN, ''A column reference is ambiguous '' @ em_dash
               @ '' qualify it with the table name or alias.'')
      else if str_in ''no such function:'' low then
        Inr (BAD_FUNCTION, ''Function '' @ sq @ strip (after_last ''no such function:'' error_msg) @ sq
               @ '' is not available. Use an equivalent built-in function for your dialect.'')
      else if str_in ''function'' low \<and> str_in ''does not exist'' low then
        Inr (BAD_FUNCTION, ''Function '' @ sq @ group1_or ''?'' (re_search rx_function_name low)
               @ ''()'' @ sq @ '' does not exist. Use an equivalent built-in function for your dialect.'')
      else if str_in ''syntax error'' low \<or> str_in ''near'' low then
        Inr (SYNTAX_ERROR, hint_syntax)
      else if str_in ''you have an error in your sql syntax'' low then
        Inr (SYNTAX_ERROR, hint_syntax)
      else if str_in ''group by'' low \<or> str_in ''aggregate'' low then
        Inr (GROUP_BY_ERROR,
             ''GROUP BY error: every non-aggregate column in SELECT must appear in GROUP BY.'')
      else
        Inr (EXECUTION_ERROR, ''SQL execution failed: '' @ error_msg @ nl
               @ ''Check column names, table names, JOIN conditions, and syntax.''))"

definition exec_error_types :: "error_type list" where
  "exec_error_types = [MISSING_COLUMN, MISSING_TABLE, AMBIGUOUS_COLUMN, BAD_FUNCTION,
     SYNTAX_ERROR, GROUP_BY_ERROR, EXECUTION_ERROR]"

lemma classify_types:
  "classify_exec_error msg = Inr (t, hint) \<Longrightarrow> t \<in> set exec_error_types"
  by (auto simp: classify_exec_error_def exec_error_types_def Let_def py_bind_Inr_iff
      split: if_splits)

text \<open>The only failure: a message about a missing table whose last \<open>Table\<close> is followed by no
  quote.\<close>

lemma classify_raises:
  assumes "classify_exec_error msg = Inl e"
  shows "str_in (''doesn'' @ sq @ ''t exist'') (lower msg) \<and> \<not> str_in sq (after_last ''Table'' msg)
    \<and> exc_type e = ''IndexError''"
proof -
  have tbl: "missing_table_name msg = Inl e" and "str_in (''doesn'' @ sq @ ''t exist'') (lower msg)"
    using assms by (auto simp: classify_exec_error_def Let_def py_bind_def split: if_splits sum.splits)
  moreover have "\<not> str_in sq (after_last ''Table'' msg) \<and> exc_type e = ''IndexError''"
    using tbl split_single_iff [of sq "after_last ''Table'' msg"]
    by (auto simp: missing_table_name_def sq_def split: if_splits list.splits)
  ultimately show ?thesis by blast
qed

text \<open>Recognised SQLite messages, whatever else the text contains.\<close>

lemma classify_no_such_column:
  "str_in ''no such column:'' (lower msg) \<Longrightarrow>
     \<exists>hint. classify_exec_error msg = Inr (MISSING_COLUMN, hint)"
  by (simp add: classify_exec_error_def)

definition format_exec_error :: "string option \<Rightarrow> string py" where
  "format_exec_error err =
     (let error_msg = (case err of Some e \<Rightarrow> e | None \<Rightarrow> ''Unknown execution error'')
      in py_bind (classify_exec_error error_msg) (\<lambda>(hint_type, hint).
           Inr (''The SQL execution failed with the following error:'' @ nl @ ''  '' @ error_msg @ nl
                @ nl @ hint)))"

text \<open>An issue of a review as the reviewer model returns it: both keys may be missing.\<close>

record llm_issue =
  li_type :: "string option"
  li_detail :: "string option"

definition or_default :: "'a \<Rightarrow> 'a option \<Rightarrow> 'a" where
  "or_default d x = (case x of None \<Rightarrow> d | Some y \<Rightarrow> y)"

lemma or_default_simps [simp]: "or_default d None = d" "or_default d (Some x) = x"
  by (simp_all add: or_default_def)

definition format_review_feedback :: "llm_issue list \<Rightarrow> string \<Rightarrow> string" where
  "format_review_feedback issues suggested_fix =
     join nl (''Reviewer found issues with your SQL:''
       # map (\<lambda>i. ''- ['' @ or_default ''?'' (li_type i) @ ''] '' @ or_default [] (li_detail i)) issues
       @ (if suggested_fix \<noteq> [] then [nl @ ''Suggested fix: '' @ suggested_fix] else []))"

subsection \<open>Properties\<close>


end
