(* ===== verification/AgentState.thy ===== *)
theory AgentState
  imports Trace Classifier
begin

text \<open>
  \<open>agent/state.py\<close>: the dictionary the pipeline nodes share. Every key that may be missing is
  an option, so that \<open>state.get(key, default)\<close> tells a missing key from a present empty value.
  \<open>exec_result\<close> may in addition be present with the value \<open>None\<close>. A node returns the keys it
  sets; the graph writes them into the state, which the model does by a record update.
\<close>

subsection \<open>Values stored in the state\<close>

record exec_result =
  er_success :: bool
  er_data :: "row list option"
  er_columns :: "string list option"
  er_error :: "string option"
  er_error_type :: "string option"
  er_row_count :: int
  er_elapsed_ms :: "int option"
  er_sql :: "string option"              \<comment> \<open>\<open>_sql\<close>\<close>
  er_voted_by :: "string option"         \<comment> \<open>\<open>_voted_by\<close>\<close>

record chunk =
  ch_content :: string
  ch_source :: string
  ch_meta :: "pydict option"             \<comment> \<open>\<open>None\<close> when \<open>metadata\<close> is not a dictionary\<close>

type_synonym usage = "(string \<times> int) list"

definition usage_get :: "usage \<Rightarrow> string \<Rightarrow> int" where
  "usage_get u k = (case map_of u k of None \<Rightarrow> 0 | Some n \<Rightarrow> n)"

definition zero_usage :: usage where
  "zero_usage = [(''prompt'', 0), (''completion'', 0), (''total'', 0)]"

text \<open>\<open>{k: token_usage[k] + tu.get(k, 0) for k in token_usage}\<close>\<close>

definition add_usage :: "usage \<Rightarrow> usage \<Rightarrow> usage" where
  "add_usage tot tu = map (\<lambda>(k, n). (k, n + usage_get tu k)) tot"

text \<open>\<open>_extract_token_usage\<close>: from the provider's keys to the pipeline's\<close>

definition extract_token_usage :: "usage \<Rightarrow> usage" where
  "extract_token_usage raw =
     [(''prompt'', usage_get raw ''prompt_tokens''),
      (''completion'', usage_get raw ''completion_tokens''),
      (''total'', usage_get raw ''total_tokens'')]"

definition usage_dict :: "usage \<Rightarrow> pydict" where
  "usage_dict u = map (\<lambda>(k, n). (k, PInt n)) u"

lemma usage_get_add:
  "distinct (map fst tot) \<Longrightarrow> usage_get (add_usage tot tu) k =
     (if k \<in> fst ` set tot then usage_get tot k + usage_get tu k else 0)"
  by (induction tot) (auto simp: add_usage_def usage_get_def)

lemma keys_add_usage [simp]: "map fst (add_usage tot tu) = map fst tot"
  by (simp add: add_usage_def case_prod_unfold comp_def)

record attempt =
  at_attempt :: int
  at_sql :: string
  at_success :: bool
  at_error :: "string option"
  at_row_count :: int

record repair =
  rp_attempt :: int
  rp_source :: string
  rp_type :: string
  rp_failed_sql :: string
  rp_strategy :: string

record conv_turn =
  ct_turn :: int
  ct_feedback :: string
  ct_sql :: string
  ct_exec :: "exec_result option"

subsection \<open>AgentState\<close>

record agent_state =
  s_question :: string
  s_rag_schema :: "bool option"
  s_rag_domain :: "bool option"
  s_skip_schema :: "bool option"
  s_rag_hybrid :: "bool option"
  s_rag_fk_expand :: "bool option"
  s_rag_column_prune :: "bool option"
  s_rag_k :: "int option"
  s_rag_chunks :: "chunk list option"
  s_schema_text :: "string option"
  s_notes_text :: "string option"
  s_sample_rows :: "bool option"
  s_sample_rows_text :: "string option"
  s_domain_override :: "string option"
  s_sql :: "string option"
  s_raw_response :: "string option"
  s_candidate_sqls :: "string list option"
  s_guard_pass :: "bool option"
  s_guard_issues :: "issue list option"
  s_exec_result :: "exec_result option option"
  s_exec_attempts :: "attempt list option"
  s_retry_count :: "int option"
  s_max_retries :: "int option"
  s_last_error :: "string option"
  s_last_sql :: "string option"
  s_rag_k_expanded :: "int option"
  s_token_usage :: "usage option"
  s_db_id :: "string option"
  s_database_url :: "string option"
  s_trace_id :: "string option"
  s_complexity :: "string option"
  s_decomposer_enabled :: "bool option"
  s_sub_questions :: "pyv list option"   \<comment> \<open>what iterating over the value yields\<close>
  s_semantic_pass :: "bool option"
  s_semantic_feedback :: "string option"
  s_sem_reject_count :: "int option"
  s_sem_last_rejected :: "string option"
  s_ast_pass :: "bool option"
  s_ast_issues :: "issue list option"
  s_router_score :: "int option"
  s_router_score_detail :: "string option"
  s_router_method :: "string option"
  s_router_llm_raw :: "string option"
  s_fewshot_text :: "string option"
  s_fewshot_enabled :: "bool option"
  s_fewshot_hits :: "string list option"
  s_user_feedback :: "string option"
  s_conversation_turns :: "conv_turn list option"
  s_tlog :: "tracer option"
  s_node_latency :: "(string \<times> int) list option"
  s_repair_history :: "repair list option"

definition init_state :: "string \<Rightarrow> agent_state" where
  "init_state q = \<lparr>s_question = q,
     s_rag_schema = None, s_rag_domain = None, s_skip_schema = None, s_rag_hybrid = None,
     s_rag_fk_expand = None, s_rag_column_prune = None, s_rag_k = None, s_rag_chunks = None,
     s_schema_text = None, s_notes_text = None, s_sample_rows = None, s_sample_rows_text = None,
     s_domain_override = None, s_sql = None, s_raw_response = None, s_candidate_sqls = None,
     s_guard_pass = None, s_guard_issues = None, s_exec_result = None, s_exec_attempts = None,
     s_retry_count = None, s_max_retries = None, s_last_error = None, s_last_sql = None,
     s_rag_k_expanded = None, s_token_usage = None, s_db_id = None, s_database_url = None,
     s_trace_id = None, s_complexity = None, s_decomposer_enabled = None, s_sub_questions = None,
     s_semantic_pass = None, s_semantic_feedback = None, s_sem_reject_count = None,
     s_sem_last_rejected = None, s_ast_pass = None, s_ast_issues = None, s_router_score = None,
     s_router_score_detail = None, s_router_method = None, s_router_llm_raw = None,
     s_fewshot_text = None, s_fewshot_enabled = None, s_fewshot_hits = None,
     s_user_feedback = None, s_conversation_turns = None, s_tlog = None, s_node_latency = None,
     s_repair_history = None\<rparr>"

subsection \<open>Reading and logging\<close>

text \<open>A database URL counts only when it is present and not empty.\<close>

definition db_url :: "agent_state \<Rightarrow> string option" where
  "db_url s = (case s_database_url s of Some u \<Rightarrow> if u = [] then None else Some u | None \<Rightarrow> None)"

definition tlog_do :: "(tracer \<Rightarrow> tracer) \<Rightarrow> agent_state \<Rightarrow> agent_state" where
  "tlog_do f s = s\<lparr>s_tlog := map_option f (s_tlog s)\<rparr>"

text \<open>\<open>node_latency = dict(state.get("node_latency", {})); node_latency[n] = \<dots>\<close>, in milliseconds\<close>

definition set_latency :: "string \<Rightarrow> int \<Rightarrow> agent_state \<Rightarrow> agent_state" where
  "set_latency n ms s =
     s\<lparr>s_node_latency := Some (AList.update n ms (or_default [] (s_node_latency s)))\<rparr>"

text \<open>The readings of \<open>time.time()\<close> a node makes, in order.\<close>

type_synonym clock = "nat \<Rightarrow> reading"

definition since :: "clock \<Rightarrow> nat \<Rightarrow> nat \<Rightarrow> int" where
  "since t i j = r_ms (t j) - r_ms (t i)"

subsection \<open>Results of a node\<close>

text \<open>A node returns the updated state or raises; the tracer is shared, so what was logged before
  the exception stays logged.\<close>

type_synonym node_out = "(py_exc \<times> tracer option) + agent_state"

definition try_in :: "agent_state \<Rightarrow> 'a py \<Rightarrow> ('a \<Rightarrow> node_out) \<Rightarrow> node_out" where
  "try_in s m f = (case m of Inl e \<Rightarrow> Inl (e, s_tlog s) | Inr x \<Rightarrow> f x)"

lemma try_in_simps [simp]:
  "try_in s (Inl e) f = Inl (e, s_tlog s)"
  "try_in s (Inr x) f = f x"
  by (simp_all add: try_in_def)

lemma try_in_Inr_iff: "try_in s m f = Inr s' \<longleftrightarrow> (\<exists>x. m = Inr x \<and> f x = Inr s')"
  by (cases m) simp_all

definition node_ok :: "(agent_state \<Rightarrow> bool) \<Rightarrow> node_out \<Rightarrow> bool" where
  "node_ok P r = (case r of Inl e \<Rightarrow> False | Inr s \<Rightarrow> P s)"

lemma node_ok_iff: "node_ok P r \<longleftrightarrow> (\<exists>s. r = Inr s \<and> P s)"
  by (cases r) (auto simp: node_ok_def)

end
