(* ===== verification/Executor.thy ===== *)
theory Executor
  imports AgentState "HOL-Library.Multiset"
begin

text \<open>
  \<open>tools/sql_executor.py\<close> and \<open>agent/nodes/executor.py\<close>: the only path from a query text to a
  database. The database is a parameter: given the URL and the text, it returns the column
  names and the rows, or raises. Whether a query outlives its timeout is an input of \<open>run_sql\<close>.
\<close>

type_synonym database = "string option \<Rightarrow> string \<Rightarrow> (string list \<times> row list) py"

definition fail_result :: "string \<Rightarrow> string option \<Rightarrow> exec_result" where
  "fail_result err etype = \<lparr>er_success = False, er_data = None, er_columns = None,
     er_error = Some err, er_error_type = etype, er_row_count = 0, er_elapsed_ms = None,
     er_sql = None, er_voted_by = None\<rparr>"

definition ok_result :: "string list \<Rightarrow> row list \<Rightarrow> exec_result" where
  "ok_result cols rows = \<lparr>er_success = True, er_data = Some rows, er_columns = Some cols,
     er_error = None, er_error_type = None, er_row_count = int (length rows),
     er_elapsed_ms = None, er_sql = None, er_voted_by = None\<rparr>"

text \<open>The text sent to the database: wrapped in a \<open>LIMIT\<close> unless it contains the word.\<close>

definition sql_to_run :: "nat \<Rightarrow> string \<Rightarrow> string" where
  "sql_to_run max_rows sql =
     (let q = rstrip_by (\<lambda>c. c = CHR '';'') (strip sql)
      in if str_in ''LIMIT'' (upper q) then q
         else ''SELECT * FROM ('' @ q @ '') AS _sub LIMIT '' @ show_nat max_rows)"

definition classify_failure :: "string \<Rightarrow> string py" where
  "classify_failure error_msg =
     (if str_in ''timeout'' (lower error_msg) \<or> str_in ''timed out'' (lower error_msg)
      then Inr (error_type_value TIMEOUT)
      else py_bind (classify_exec_error error_msg) (\<lambda>(t, hint). Inr (error_type_value t)))"

definition execute_sql ::
  "sqlglot \<Rightarrow> database \<Rightarrow> string \<Rightarrow> nat \<Rightarrow> string option \<Rightarrow> exec_result py" where
  "execute_sql sg db sql max_rows database_url =
     py_bind (check_safety sg sql (executor_dialect database_url)) (\<lambda>safety.
       if \<not> sr_valid safety then
         Inr (fail_result
           (case sr_issues safety of i # _ \<Rightarrow> i_detail i | [] \<Rightarrow> ''Unknown validation error'')
           (Some (error_type_value SQL_VALIDATION)))
       else
         (case db database_url (sql_to_run max_rows sql) of
            Inr (cols, rows) \<Rightarrow> Inr (ok_result cols rows)
          | Inl e \<Rightarrow> py_bind (classify_failure (exc_msg e)) (\<lambda>t.
              Inr (fail_result (exc_msg e) (Some t)))))"

definition EXEC_TIMEOUT_S :: nat where "EXEC_TIMEOUT_S = 60"

definition DEFAULT_MAX_ROWS :: nat where "DEFAULT_MAX_ROWS = 1000"

text \<open>\<open>run_sql\<close>: \<open>timed_out\<close> says whether \<open>future.result(timeout=...)\<close> gave up, \<open>ms\<close> is the
  elapsed time.\<close>

definition run_sql ::
  "sqlglot \<Rightarrow> database \<Rightarrow> bool \<Rightarrow> int \<Rightarrow> nat \<Rightarrow> string option \<Rightarrow> string \<Rightarrow> exec_result" where
  "run_sql sg db timed_out ms timeout_s database_url sql =
     (if timed_out then
        (fail_result (''Query timed out after '' @ show_nat timeout_s @ ''s'') (Some ''timeout''))
          \<lparr>er_elapsed_ms := Some ms\<rparr>
      else
        (case execute_sql sg db sql DEFAULT_MAX_ROWS database_url of
           Inr r \<Rightarrow> r\<lparr>er_elapsed_ms := Some ms\<rparr>
         | Inl e \<Rightarrow> fail_result (''Execution error: '' @ take 300 (exc_msg e)) None))"

lemma run_sql_sql [simp]: "er_sql (run_sql sg db to ms n url q) = None"
  by (auto simp: run_sql_def execute_sql_def fail_result_def ok_result_def py_bind_def
      split: sum.split prod.split)

subsection \<open>What reaches the database\<close>

text \<open>A text that \<open>safe_sql\<close> rejects never reaches the database: the result does not depend on
  what the database would answer.\<close>

lemma execute_sql_unsafe:
  assumes "\<not> safe_sql sg sql (executor_dialect url)"
  shows "execute_sql sg db sql n url = execute_sql sg db' sql n url"
    and "execute_sql sg db sql n url = Inr r \<Longrightarrow> \<not> er_success r"
proof -
  have "\<And>r. check_safety sg sql (executor_dialect url) = Inr r \<Longrightarrow> \<not> sr_valid r"
    using assms check_safety_valid_iff [of sg sql] by auto
  then show "execute_sql sg db sql n url = execute_sql sg db' sql n url"
    and "execute_sql sg db sql n url = Inr r \<Longrightarrow> \<not> er_success r"
    by (auto simp: execute_sql_def py_bind_def fail_result_def split: sum.splits)
qed

lemma run_sql_unsafe:
  assumes "\<not> safe_sql sg sql (executor_dialect url)"
  shows "run_sql sg db to ms n url sql = run_sql sg db' to ms n url sql"
    and "\<not> er_success (run_sql sg db to ms n url sql)"
  using execute_sql_unsafe(1) [OF assms, of db DEFAULT_MAX_ROWS db']
    execute_sql_unsafe(2) [OF assms, of db DEFAULT_MAX_ROWS]
  by (auto simp: run_sql_def fail_result_def split: sum.splits)

lemma execute_sql_success:
  "execute_sql sg db sql n url = Inr r \<Longrightarrow> er_success r \<longleftrightarrow>
     safe_sql sg sql (executor_dialect url) \<and> (\<exists>out. db url (sql_to_run n sql) = Inr out)"
  using check_safety_valid_iff [of sg sql "executor_dialect url"]
  by (auto simp: execute_sql_def py_bind_Inr_iff fail_result_def ok_result_def
      split: sum.splits if_splits)

lemma execute_sql_rows:
  "execute_sql sg db sql n url = Inr r \<Longrightarrow> er_success r \<Longrightarrow>
     \<exists>cols rows. db url (sql_to_run n sql) = Inr (cols, rows) \<and> er_data r = Some rows
       \<and> er_columns r = Some cols \<and> er_row_count r = int (length rows) \<and> er_error r = None"
  by (auto simp: execute_sql_def py_bind_Inr_iff fail_result_def ok_result_def
      split: sum.splits if_splits)

text \<open>What \<open>execute_sql\<close> relies on, as SQL defines it: \<open>SELECT * FROM (q) AS _sub\<close> denotes the rows
  of \<open>q\<close>, and \<open>LIMIT n\<close> on it keeps \<open>n\<close> of them, or all when there are fewer; which ones, and in
  which order, is left open. An engine need not have answered \<open>q\<close> itself (a row that is never
  fetched may raise), so the rows that \<open>q\<close> denotes are only tied to its answer when there is one.
  The law is asked of texts the check has let through, and only of those: on other texts it is false, as
  \<open>SELECT a FROM t) AS x --\<close> closes the parenthesis and comments out the \<open>LIMIT\<close>. It is not asked of
  texts with a block comment either, as MySQL runs the inside of \<open>/*! */\<close>, a comment to the parser.\<close>

definition query_text :: "string \<Rightarrow> string" where
  "query_text sql = rstrip_by (\<lambda>c. c = CHR '';'') (strip sql)"

definition capped :: "string \<Rightarrow> bool" where
  "capped sql \<longleftrightarrow> \<not> str_in ''LIMIT'' (upper sql) \<and> \<not> str_in ''/*'' sql"

definition honours_limit :: "sqlglot \<Rightarrow> database \<Rightarrow> bool" where
  "honours_limit sg db \<longleftrightarrow>
     (\<forall>url sql n cols rows.
        safe_sql sg sql (executor_dialect url) \<and> capped sql \<and>
        db url (''SELECT * FROM ('' @ query_text sql @ '') AS _sub LIMIT '' @ show_nat n) = Inr (cols, rows)
          \<longrightarrow> (\<exists>denoted. length rows = min n (length denoted) \<and> mset rows \<subseteq># mset denoted \<and>
                (\<forall>cols' answer. db url (query_text sql) = Inr (cols', answer) \<longrightarrow> mset answer = mset denoted)))"

lemma str_in_query_text: "str_in (query_text sql) sql"
proof -
  have "str_in (query_text sql) (strip sql)"
    unfolding str_in_iff query_text_def using rstrip_by_split [of "strip sql" "\<lambda>c. c = CHR '';''"]
    by (metis append_Nil)
  moreover have "str_in (strip sql) sql"
  proof -
    obtain t where t: "lstrip_by is_space_char sql = strip sql @ t"
      unfolding strip_def strip_by_def using rstrip_by_split by blast
    have "sql = takeWhile is_space_char sql @ lstrip_by is_space_char sql"
      by (simp add: lstrip_by_def)
    with t show ?thesis unfolding str_in_iff by metis
  qed
  ultimately show ?thesis by (rule str_in_trans)
qed

text \<open>A text without the word is wrapped.\<close>

lemma sql_to_run_wrapped:
  assumes "\<not> str_in ''LIMIT'' (upper sql)"
  shows "sql_to_run n sql = ''SELECT * FROM ('' @ query_text sql @ '') AS _sub LIMIT '' @ show_nat n"
proof -
  have "\<not> str_in ''LIMIT'' (upper (query_text sql))"
    using assms str_in_trans str_in_upper str_in_query_text by blast
  then show ?thesis by (simp add: sql_to_run_def query_text_def)
qed

text \<open>The rows of a successful run are kept from what the query denotes.\<close>

lemma capped_rows:
  assumes "honours_limit sg db" and "capped sql"
    and "execute_sql sg db sql n url = Inr r" and "er_success r"
  obtains rows denoted where "er_data r = Some rows" and "er_row_count r = int (length rows)"
    and "length rows = min n (length denoted)" and "mset rows \<subseteq># mset denoted"
    and "\<forall>cols' answer. db url (query_text sql) = Inr (cols', answer) \<longrightarrow> mset answer = mset denoted"
proof -
  obtain cols rows where rows: "db url (sql_to_run n sql) = Inr (cols, rows)" "er_data r = Some rows"
      "er_row_count r = int (length rows)"
    using execute_sql_rows [OF assms(3,4)] by blast
  have "safe_sql sg sql (executor_dialect url)"
    using execute_sql_success [OF assms(3)] assms(4) by blast
  moreover have "db url (''SELECT * FROM ('' @ query_text sql @ '') AS _sub LIMIT '' @ show_nat n) = Inr (cols, rows)"
    using rows(1) sql_to_run_wrapped assms(2) by (simp add: capped_def)
  ultimately show ?thesis
    using assms(1,2) rows(2,3) that unfolding honours_limit_def by meson
qed

subsection \<open>executor_node\<close>

definition already_run :: "string \<Rightarrow> agent_state \<Rightarrow> bool" where
  "already_run sql s =
     (case s_exec_result s of Some (Some r) \<Rightarrow> er_sql r = Some sql | _ \<Rightarrow> False)"

definition executor_node ::
  "sqlglot \<Rightarrow> database \<Rightarrow> bool \<Rightarrow> clock \<Rightarrow> agent_state \<Rightarrow> agent_state" where
  "executor_node sg db timed_out t s =
     (let sql = or_default [] (s_sql s);
          exec_attempts = or_default [] (s_exec_attempts s);
          retry_count = or_default 0 (s_retry_count s);
          database_url = s_database_url s
      in if sql = [] then
           set_latency ''executor'' (since t 0 1)
             (s\<lparr>s_exec_result := Some (Some (fail_result ''No SQL to execute'' None)),
                s_exec_attempts := Some exec_attempts\<rparr>)
         else if already_run sql s then s
         else
           let s1 = tlog_do (node_enter (t 1) ''executor''
                      [(''retry_count'', PInt retry_count)]) s;
               result = run_sql sg db timed_out (since t 2 3) EXEC_TIMEOUT_S database_url sql;
               attempt_num = retry_count + 1;
               exec_attempts = exec_attempts @
                 [\<lparr>at_attempt = attempt_num, at_sql = sql, at_success = er_success result,
                   at_error = er_error result, at_row_count = er_row_count result\<rparr>];
               s2 = tlog_do (\<lambda>tr.
                      node_exit (t 5) ''executor''
                        [(''success'', PBool (er_success result)),
                         (''row_count'', PInt (er_row_count result))] ''success''
                        (sql_exec (t 4) (er_success result) (er_row_count result)
                          (or_default 0 (er_elapsed_ms result)) (or_default [] (er_error result)) tr)) s1
           in set_latency ''executor'' (since t 0 6)
                (s2\<lparr>s_exec_result := Some (Some result),
                    s_exec_attempts := Some exec_attempts,
                    s_retry_count := Some attempt_num\<rparr>))"

lemma executor_node_attempts:
  assumes "or_default [] (s_sql s) \<noteq> []" and "\<not> already_run (or_default [] (s_sql s)) s"
  shows "s_retry_count (executor_node sg db b t s) = Some (or_default 0 (s_retry_count s) + 1)"
    and "length (or_default [] (s_exec_attempts (executor_node sg db b t s)))
       = Suc (length (or_default [] (s_exec_attempts s)))"
  using assms by (simp_all add: executor_node_def Let_def tlog_do_def set_latency_def)

subsection \<open>Properties\<close>

text \<open>C1: The execution gate. A text outside the contract \<open>safe_sql\<close> never reaches the database:
  the result of \<open>run_sql\<close> is the same for every database, and it is a failure. A text inside
  the contract that does not time out succeeds exactly when the database answers the text
  that is sent to it, and then the result holds the database's rows.\<close>

theorem execution_gate:
  "(if safe_sql sg sql (executor_dialect url) then
      er_success (run_sql sg db False ms n url sql) =
        (\<exists>out. db url (sql_to_run DEFAULT_MAX_ROWS sql) = Inr out) \<and>
      (case db url (sql_to_run DEFAULT_MAX_ROWS sql) of
         Inr (cols, rows) \<Rightarrow> er_data (run_sql sg db False ms n url sql) = Some rows
           \<and> er_columns (run_sql sg db False ms n url sql) = Some cols
       | Inl e \<Rightarrow> er_data (run_sql sg db False ms n url sql) = None)
    else run_sql sg db timed_out ms n url sql = run_sql sg db' timed_out ms n url sql
      \<and> \<not> er_success (run_sql sg db timed_out ms n url sql))"
proof (cases "safe_sql sg sql (executor_dialect url)")
  case False
  then show ?thesis using run_sql_unsafe [OF False] by simp
next
  case True
  then obtain r where "check_safety sg sql (executor_dialect url) = Inr r" and "sr_valid r"
    using check_safety_valid_iff by blast
  with True show ?thesis
    by (auto simp: run_sql_def execute_sql_def fail_result_def ok_result_def py_bind_def
        split: sum.splits prod.splits)
qed

text \<open>A database with one row in its only table, which honours \<open>LIMIT 0\<close>.\<close>

definition demo_db :: database where
  "demo_db url q = Inr ([''name''], if suffix ''LIMIT 0'' q then [] else [[PStr ''Ada'']])"

text \<open>What that database answers to a wrapped query. The number after \<open>LIMIT\<close> is read off the end
  of the text.\<close>

lemma last_number:
  assumes "list_all is_digit_char ds"
  shows "takeWhile is_digit_char (rev (x @ '' '' @ ds)) = rev ds"
proof -
  have "\<not> is_digit_char CHR '' ''" by code_simp
  then show ?thesis using assms by (simp add: list_all_iff takeWhile_append)
qed

lemma suffix_limit_0:
  "suffix ''LIMIT 0'' (x @ ''LIMIT '' @ show_nat n) \<longleftrightarrow> n = 0"
proof
  assume "suffix ''LIMIT 0'' (x @ ''LIMIT '' @ show_nat n)"
  then obtain y where y: "x @ ''LIMIT '' @ show_nat n = y @ ''LIMIT 0''" by (auto simp: suffix_def)
  have "(x @ ''LIMIT'') @ '' '' @ show_nat n = (y @ ''LIMIT'') @ '' '' @ ''0''" using y by simp
  moreover have "list_all is_digit_char ''0''" by code_simp
  ultimately have "rev (show_nat n) = rev ''0''"
    using last_number [OF show_nat_digits [of n]] last_number by metis
  moreover have "show_nat 0 = ''0''" by code_simp
  ultimately have "show_nat n = show_nat 0" by simp
  then show "n = 0" by (metis parse_show_nat)
next
  assume "n = 0"
  moreover have "show_nat 0 = ''0''" by code_simp
  ultimately show "suffix ''LIMIT 0'' (x @ ''LIMIT '' @ show_nat n)" by (simp add: suffix_def)
qed

lemma demo_db_wrapped:
  "demo_db url (''SELECT * FROM ('' @ q @ '') AS _sub LIMIT '' @ show_nat n) =
     Inr ([''name''], take n [[PStr ''Ada'']])"
  using suffix_limit_0 [of "''SELECT * FROM ('' @ q @ '') AS _sub ''" n]
  by (cases n) (simp_all add: demo_db_def)

lemma not_limited_suffix: "\<not> str_in ''LIMIT'' (upper sql) \<Longrightarrow> \<not> suffix ''LIMIT 0'' (query_text sql)"
proof (intro notI)
  assume "\<not> str_in ''LIMIT'' (upper sql)" and "suffix ''LIMIT 0'' (query_text sql)"
  then obtain x where n: "\<not> str_in ''LIMIT'' (upper sql)" and x: "query_text sql = x @ ''LIMIT 0''"
    by (auto simp: suffix_def)
  have "upper ''LIMIT 0'' = ''LIMIT'' @ '' 0''" by code_simp
  then have "upper (query_text sql) = upper x @ ''LIMIT'' @ '' 0''"
    unfolding x by (simp add: upper_def)
  then have "str_in ''LIMIT'' (upper (query_text sql))" unfolding str_in_iff by blast
  then show False using n str_in_trans str_in_upper [OF str_in_query_text] by blast
qed

lemma demo_db_honours_limit: "honours_limit sg demo_db"
  unfolding honours_limit_def demo_db_wrapped capped_def
proof (intro allI impI, elim conjE, intro exI [of _ "[[PStr ''Ada'']]"] conjI)
  fix url sql n cols and rows :: "row list"
  assume l: "\<not> str_in ''LIMIT'' (upper sql)" and r: "Inr ([''name''], take n [[PStr ''Ada'']]) = Inr (cols, rows)"
  show "length rows = min n (length [[PStr ''Ada'']])" and "mset rows \<subseteq># mset [[PStr ''Ada'']]"
    using r by (cases n; auto)+
  show "\<forall>cols' answer. demo_db url (query_text sql) = Inr (cols', answer) \<longrightarrow> mset answer = mset [[PStr ''Ada'']]"
    using not_limited_suffix [OF l] by (simp add: demo_db_def)
qed



end
