(* ===== verification/Prompts.thy ===== *)
theory Prompts
  imports Schema
begin

text \<open>
  \<open>agent/prompts.py\<close> and the prompt of \<open>guard/review.py\<close>: the prompt texts, line by line, and
  Python's \<open>str.format\<close> for named fields, with its two escapes and its errors. A field with a
  conversion or a format specification is looked up by the name before the colon, as Python
  does; no template that formats successfully has one.
\<close>

subsection \<open>str.format\<close>

fun fmt_run :: "(string \<times> string) list \<Rightarrow> string option \<Rightarrow> string \<Rightarrow> string py" where
  "fmt_run env None [] = Inr []"
| "fmt_run env None [c] =
     (if c = CHR ''{'' then Inl (PyExc ''ValueError'' ''Single open brace encountered in format string'')
      else if c = CHR ''}'' then Inl (PyExc ''ValueError'' ''Single close brace encountered in format string'')
      else Inr [c])"
| "fmt_run env None (c # d # s) =
     (if c = CHR ''{'' then
        (if d = CHR ''{'' then py_bind (fmt_run env None s) (\<lambda>r. Inr (c # r))
         else fmt_run env (Some []) (d # s))
      else if c = CHR ''}'' then
        (if d = CHR ''}'' then py_bind (fmt_run env None s) (\<lambda>r. Inr (c # r))
         else Inl (PyExc ''ValueError'' ''Single close brace encountered in format string''))
      else py_bind (fmt_run env None (d # s)) (\<lambda>r. Inr (c # r)))"
| "fmt_run env (Some acc) [] = Inl (PyExc ''ValueError'' ''expected close brace before end of string'')"
| "fmt_run env (Some acc) (c # s) =
     (if c = CHR ''}'' then
        (case map_of env (rev acc) of
           Some v \<Rightarrow> py_bind (fmt_run env None s) (\<lambda>r. Inr (v @ r))
         | None \<Rightarrow> Inl (PyExc ''KeyError'' (rev acc)))
      else if c = CHR '':'' \<or> c = CHR ''!'' then
        (case map_of env (rev acc) of
           Some v \<Rightarrow> Inl (PyExc ''ValueError'' ''Invalid format specifier'')
         | None \<Rightarrow> Inl (PyExc ''KeyError'' (rev acc)))
      else fmt_run env (Some (c # acc)) s)"

definition py_format :: "(string \<times> string) list \<Rightarrow> string \<Rightarrow> string py" where
  "py_format env s = fmt_run env None s"

text \<open>A scan of a template without values: the fields in order, and how the template ends.\<close>

datatype fmt_end = FmtOk | FmtErr py_exc | FmtSpec string

definition add_field :: "string \<Rightarrow> string list \<times> fmt_end \<Rightarrow> string list \<times> fmt_end" where
  "add_field n r = (n # fst r, snd r)"

fun fmt_scan :: "string option \<Rightarrow> string \<Rightarrow> string list \<times> fmt_end" where
  "fmt_scan None [] = ([], FmtOk)"
| "fmt_scan None [c] =
     (if c = CHR ''{'' then ([], FmtErr (PyExc ''ValueError'' ''Single open brace encountered in format string''))
      else if c = CHR ''}'' then ([], FmtErr (PyExc ''ValueError'' ''Single close brace encountered in format string''))
      else ([], FmtOk))"
| "fmt_scan None (c # d # s) =
     (if c = CHR ''{'' then (if d = CHR ''{'' then fmt_scan None s else fmt_scan (Some []) (d # s))
      else if c = CHR ''}'' then
        (if d = CHR ''}'' then fmt_scan None s
         else ([], FmtErr (PyExc ''ValueError'' ''Single close brace encountered in format string'')))
      else fmt_scan None (d # s))"
| "fmt_scan (Some acc) [] =
     ([], FmtErr (PyExc ''ValueError'' ''expected close brace before end of string''))"
| "fmt_scan (Some acc) (c # s) =
     (if c = CHR ''}'' then add_field (rev acc) (fmt_scan None s)
      else if c = CHR '':'' \<or> c = CHR ''!'' then ([], FmtSpec (rev acc))
      else fmt_scan (Some (c # acc)) s)"

fun fmt_error :: "(string \<times> string) list \<Rightarrow> string list \<Rightarrow> fmt_end \<Rightarrow> py_exc option" where
  "fmt_error env [] FmtOk = None"
| "fmt_error env [] (FmtErr e) = Some e"
| "fmt_error env [] (FmtSpec n) =
     (case map_of env n of None \<Rightarrow> Some (PyExc ''KeyError'' n)
      | Some v \<Rightarrow> Some (PyExc ''ValueError'' ''Invalid format specifier''))"
| "fmt_error env (n # ns) e =
     (case map_of env n of None \<Rightarrow> Some (PyExc ''KeyError'' n) | Some v \<Rightarrow> fmt_error env ns e)"

definition error_of :: "'a py \<Rightarrow> py_exc option" where
  "error_of r = (case r of Inl e \<Rightarrow> Some e | Inr _ \<Rightarrow> None)"

lemma error_of_simps [simp]:
  "error_of (Inl e) = Some e"
  "error_of (Inr x) = None"
  "error_of (py_bind r (\<lambda>x. Inr (f x))) = error_of r"
  by (auto simp: error_of_def py_bind_def split: sum.split)

text \<open>The scan decides how formatting ends, for every choice of values.\<close>

lemma fmt_run_scan:
  "error_of (fmt_run env m s) = fmt_error env (fst (fmt_scan m s)) (snd (fmt_scan m s))"
  by (induction env m s rule: fmt_run.induct) (auto simp: add_field_def split: option.split)

lemma py_format_ok:
  assumes "fmt_scan None s = (ns, FmtOk)" and "list_all (\<lambda>n. map_of env n \<noteq> None) ns"
  shows "\<exists>r. py_format env s = Inr r"
proof -
  have "fmt_error env ns FmtOk = None" using assms(2) by (induction ns) auto
  then have "error_of (fmt_run env None s) = None" using fmt_run_scan [of env None s] assms(1) by simp
  then show ?thesis by (cases "fmt_run env None s") (auto simp: py_format_def)
qed

text \<open>Each field value occurs in the formatted text.\<close>

lemma str_in_Cons: "str_in p s \<Longrightarrow> str_in p (c # s)"
  by simp

lemma str_in_appendI: "str_in p s \<Longrightarrow> str_in p (u @ s)"
  by (induction u) auto

lemma fmt_values_in:
  "fmt_run env m s = Inr r \<Longrightarrow> n \<in> set (fst (fmt_scan m s)) \<Longrightarrow> map_of env n = Some v \<Longrightarrow> str_in v r"
proof (induction env m s arbitrary: r rule: fmt_run.induct)
  case (3 env c d s)
  then show ?case by (auto simp: py_bind_Inr_iff split: if_splits)
next
  case (5 env acc c s)
  show ?case
  proof (cases "c = CHR ''}''")
    case True
    with "5.prems" obtain w r' where w: "map_of env (rev acc) = Some w"
      and r': "fmt_run env None s = Inr r'" and r: "r = w @ r'"
      by (auto simp: py_bind_Inr_iff split: option.splits)
    show ?thesis
    proof (cases "n = rev acc")
      case True
      then show ?thesis using w r "5.prems"(3) str_in_append [of v "[]" r'] by simp
    next
      case False
      then have "str_in v r'"
        using "5.IH"(1) [OF \<open>c = CHR ''}''\<close> w r'] "5.prems"(2,3) True by (simp add: add_field_def)
      then show ?thesis by (simp add: r str_in_appendI)
    qed
  next
    case False
    then show ?thesis using 5 by (auto split: if_splits option.splits)
  qed
qed (auto split: if_splits)

subsection \<open>The prompts\<close>

definition GENERATOR_SYSTEM_LINES :: "string list" where
  "GENERATOR_SYSTEM_LINES = [
     ''You are a SQL generation assistant. Your task is to translate natural language questions into executable SQL queries.'',
     [],
     ''## Rules (must follow strictly)'',
     ''1. SQL dialect: {dialect}. Only use functions and syntax of this dialect.'',
     ''2. ONLY SELECT statements (including WITH ... SELECT) are allowed. No INSERT, UPDATE, DELETE, DROP, ALTER, CREATE.'',
     ''3. ONLY use identifiers (table names, column names) that appear in the SCHEMA section. Never invent columns.'',
     ''4. Output ONLY one SQL code block ('' @ [CHR 0x60, CHR 0x60, CHR 0x60] @ ''sql ... ''
       @ [CHR 0x60, CHR 0x60, CHR 0x60] @ ''). No explanations, no extra text.'',
     ''5. If the user does not explicitly request all results, add LIMIT 200 at the end.'',
     ''6. Use clear column aliases (AS) when the result column is an expression.'',
     ''7. Never execute multiple statements separated by semicolons.'',
     ''8. ## LAST_ERROR and ## LAST_SQL: When these sections appear in the prompt, you are CORRECTING a previously failed SQL. Analyze the error feedback carefully, fix the identified issues, and output the corrected SQL. Only change what is necessary ''
       @ [CHR 0xE2, CHR 0x80, CHR 0x94]
       @ '' do NOT regenerate from scratch or repeat the exact same SQL that failed.'',
     [],
     ''## Dialect-Specific Rules'',
     ''{dialect_rules}'',
     [],
     ''## CTE Usage'',
     ''When SUB_QUESTIONS are provided, use WITH clauses (CTE) to structure the SQL:'',
     ''- Each step that other steps depend on becomes a CTE.'',
     ''- Independent steps can be separate CTEs or combined.'',
     ''- The final SELECT references the last step'' @ [CHR 0x27]
       @ ''s CTE or joins intermediate CTEs.'',
     ''- Name CTEs clearly: WITH step1 AS (...), step2 AS (...) SELECT ... FROM step1 JOIN step2 ...'',
     [],
     ''## Reasoning for complex questions'',
     ''When the question is COMPLEX (multi-table joins, nested logic, sub-questions, ambiguous phrasing), first write a brief reasoning plan as SQL comments, then the SQL:'',
     [],
     ''-- Step 1: identify the core entities and tables needed'',
     ''-- Step 2: determine JOIN conditions between these tables'',
     ''-- Step 3: apply filters from the question (WHERE)'',
     ''-- Step 4: choose aggregation / ordering as needed'',
     [],
     ''This improves accuracy by forcing you to think before writing. For simple questions (single table, straightforward filter), skip the comments and output SQL directly.'',
     [],
     ''## Example'',
     ''Question: How many customers are in Beijing?'',
     [CHR 0x60, CHR 0x60, CHR 0x60] @ ''sql'',
     ''SELECT COUNT(*) AS customer_count'',
     ''FROM customers'',
     ''WHERE city = '' @ [CHR 0x27] @ ''Beijing'' @ [CHR 0x27],
     ''LIMIT 200;'',
     [CHR 0x60, CHR 0x60, CHR 0x60],
     [],
     ''## Output format'',
     [CHR 0x60, CHR 0x60, CHR 0x60] @ ''sql'',
     ''SELECT ...'',
     [CHR 0x60, CHR 0x60, CHR 0x60]]"

definition GENERATOR_SYSTEM_PROMPT :: string where
  "GENERATOR_SYSTEM_PROMPT = join nl GENERATOR_SYSTEM_LINES"

definition DECOMPOSER_SYSTEM_PROMPT :: string where
  "DECOMPOSER_SYSTEM_PROMPT = join nl [
     ''You are a SQL decomposition expert. Decide whether a question needs to be broken into sub-steps, or can be answered directly.'',
     [],
     ''## Decision rule '' @ [CHR 0xE2, CHR 0x80, CHR 0x94] @ '' ALWAYS apply first'',
     ''If the question can be answered with a single SQL query (a JOIN with filters, a GROUP BY with aggregation, a subquery, or a CTE), **do NOT decompose**. Return a single step with the full original question.'',
     [],
     ''Only decompose when the question genuinely requires computing intermediate results that feed into later steps, and cannot be expressed as a single SQL statement.'',
     [],
     ''## When decomposing'',
     ''1. Each sub-question should ask for ONE thing (a single aggregation, filter, or join set).'',
     ''2. If step B needs the result of step A, list A'' @ [CHR 0x27] @ ''s id in B''
       @ [CHR 0x27] @ ''s '' @ [CHR 0x60] @ ''depends_on'' @ [CHR 0x60] @ ''.'',
     ''3. Steps that don'' @ [CHR 0x27] @ ''t depend on each other are independent.'',
     ''4. Output ONLY valid JSON. No explanations, no markdown.'',
     [],
     ''## JSON format'',
     [CHR 0x60, CHR 0x60, CHR 0x60] @ ''json'',
     ''{'',
     ''  '' @ [CHR 0x22] @ ''steps'' @ [CHR 0x22] @ '': ['',
     ''    {'' @ [CHR 0x22] @ ''id'' @ [CHR 0x22] @ '': 1, '' @ [CHR 0x22] @ ''sub_q''
       @ [CHR 0x22] @ '': '' @ [CHR 0x22] @ ''...'' @ [CHR 0x22] @ '', '' @ [CHR 0x22]
       @ ''depends_on'' @ [CHR 0x22] @ '': []},'',
     ''    {'' @ [CHR 0x22] @ ''id'' @ [CHR 0x22] @ '': 2, '' @ [CHR 0x22] @ ''sub_q''
       @ [CHR 0x22] @ '': '' @ [CHR 0x22] @ ''...'' @ [CHR 0x22] @ '', '' @ [CHR 0x22]
       @ ''depends_on'' @ [CHR 0x22] @ '': [1]}'',
     ''  ]'',
     ''}'',
     [CHR 0x60, CHR 0x60, CHR 0x60],
     [],
     ''## Examples'',
     [],
     ''Question: '' @ [CHR 0x22] @ ''What is the average score of schools in Fresno county?''
       @ [CHR 0x22],
     ''Output:'',
     [CHR 0x60, CHR 0x60, CHR 0x60] @ ''json'',
     ''{'',
     ''  '' @ [CHR 0x22] @ ''steps'' @ [CHR 0x22] @ '': ['',
     ''    {'' @ [CHR 0x22] @ ''id'' @ [CHR 0x22] @ '': 1, '' @ [CHR 0x22] @ ''sub_q''
       @ [CHR 0x22] @ '': '' @ [CHR 0x22]
       @ ''What is the average score of schools in Fresno county?'' @ [CHR 0x22] @ '', ''
       @ [CHR 0x22] @ ''depends_on'' @ [CHR 0x22] @ '': []}'',
     ''  ]'',
     ''}'',
     [CHR 0x60, CHR 0x60, CHR 0x60],
     [],
     ''Question: '' @ [CHR 0x22]
       @ ''Find customers who bought both phones and laptops, and show their total spending''
       @ [CHR 0x22],
     ''Output:'',
     [CHR 0x60, CHR 0x60, CHR 0x60] @ ''json'',
     ''{'',
     ''  '' @ [CHR 0x22] @ ''steps'' @ [CHR 0x22] @ '': ['',
     ''    {'' @ [CHR 0x22] @ ''id'' @ [CHR 0x22] @ '': 1, '' @ [CHR 0x22] @ ''sub_q''
       @ [CHR 0x22] @ '': '' @ [CHR 0x22] @ ''Find customer IDs who bought phones''
       @ [CHR 0x22] @ '', '' @ [CHR 0x22] @ ''depends_on'' @ [CHR 0x22] @ '': []},'',
     ''    {'' @ [CHR 0x22] @ ''id'' @ [CHR 0x22] @ '': 2, '' @ [CHR 0x22] @ ''sub_q''
       @ [CHR 0x22] @ '': '' @ [CHR 0x22] @ ''Find customer IDs who bought laptops''
       @ [CHR 0x22] @ '', '' @ [CHR 0x22] @ ''depends_on'' @ [CHR 0x22] @ '': []},'',
     ''    {'' @ [CHR 0x22] @ ''id'' @ [CHR 0x22] @ '': 3, '' @ [CHR 0x22] @ ''sub_q''
       @ [CHR 0x22] @ '': '' @ [CHR 0x22]
       @ ''Find names and total spending of customers who appear in both step 1 and step 2''
       @ [CHR 0x22] @ '', '' @ [CHR 0x22] @ ''depends_on'' @ [CHR 0x22] @ '': [1, 2]}'',
     ''  ]'',
     ''}'',
     [CHR 0x60, CHR 0x60, CHR 0x60],
     [],
     ''## Important'',
     ''- 1 to 5 steps. Return 1 step for questions solvable with a single SQL.'',
     ''- The last step must produce the final answer.'',
     ''- Never include actual SQL, just sub-questions in natural language.'',
     ''- Use table/column names from the schema context.'']"

definition ROUTER_CLASSIFIER_PROMPT :: string where
  "ROUTER_CLASSIFIER_PROMPT = join nl [
     ''Classify the user question as '' @ [CHR 0x27] @ ''simple'' @ [CHR 0x27] @ '' or ''
       @ [CHR 0x27] @ ''complex'' @ [CHR 0x27]
       @ ''. Reply with exactly one word: simple or complex.'',
     [],
     ''Simple: single intent, straightforward SQL (filter/aggregate/sort on 1-2 tables). A question with percentage, ratio, ranking, or comparison keywords can still be simple if it only needs a single SELECT with expressions or ORDER BY.'',
     [],
     ''Complex: multi-step reasoning requiring intermediate results. Examples: finding intersections of two groups, comparing across categories with subqueries, ranking within groups, or multi-table JOINs with nested aggregation.'',
     [],
     ''Examples:'',
     ''Q: What is the ratio of customers who pay in EUR against customers who pay in CZK?'',
     ''A: simple'',
     ''Q: In which race did Lewis Hamilton finish with the highest position?'',
     ''A: simple'',
     ''Q: Find customers who bought both phones and laptops, and show their total spending.'',
     ''A: complex'',
     ''Q: What is the average score of schools in Fresno county?'',
     ''A: simple'',
     ''Q: For each district, find the client with the highest loan amount, and show the loan status.'',
     ''A: complex'']"

definition SEMANTIC_CHECK_LINES :: "string list" where
  "SEMANTIC_CHECK_LINES = [
     ''You are a SQL reviewer. Check whether the SQL correctly answers the user'' @ [CHR 0x27]
       @ ''s question, given the schema and execution result.'',
     [],
     ''## SCHEMA (only tables referenced by the SQL)'',
     ''{schema_text}'',
     [],
     ''## USER QUESTION'',
     ''{question}'',
     [],
     ''## SQL TO REVIEW'',
     ''{sql}'',
     [],
     ''## EXECUTION RESULT'',
     ''The query returned {row_count} rows. Column headers: {columns}'',
     ''First {preview_rows} rows:'',
     ''{preview}'',
     [],
     ''## EVALUATION'',
     [],
     ''### Step 1 '' @ [CHR 0xE2, CHR 0x80, CHR 0x94] @ '' Structural match (quick check)'',
     ''- Does the SELECT clause produce columns that directly answer what the question asks?'',
     ''- Does the FROM/JOIN reference the right tables for the question'' @ [CHR 0x27]
       @ ''s domain?'',
     ''- If the question asks for an aggregation (count, sum, avg, max, min), does the SQL have the appropriate aggregate function?'',
     ''- If the question asks for individual records/details, does the SQL return rows rather than a single aggregate?'',
     [],
     ''### Step 2 '' @ [CHR 0xE2, CHR 0x80, CHR 0x94] @ '' Logic check (deeper)'',
     ''- Do the WHERE conditions match the filters described in the question? Check for opposite logic (e.g., question says ''
       @ [CHR 0x22] @ ''greater than'' @ [CHR 0x22] @ '' but SQL has '' @ [CHR 0x22] @ ''<''
       @ [CHR 0x22] @ '').'',
     ''- If the question asks for '' @ [CHR 0x22] @ ''top/bottom/highest/lowest N''
       @ [CHR 0x22] @ '', does the SQL have ORDER BY ... DESC/ASC + LIMIT?'',
     ''- If the question asks for '' @ [CHR 0x22]
       @ ''which/list/names/different/unique/ratio/percentage'' @ [CHR 0x22]
       @ '', check DISTINCT and aggregation level carefully.'',
     ''- If row_count=0 but the question expects data to exist, flag it ''
       @ [CHR 0xE2, CHR 0x80, CHR 0x94] @ '' but only if you'' @ [CHR 0x27]
       @ ''re confident the data should exist given the schema context.'',
     [],
     ''### Step 3 '' @ [CHR 0xE2, CHR 0x80, CHR 0x94] @ '' Verdict'',
     ''- YES: The SQL and execution result are consistent with what the question asks. Minor issues (extra LIMIT, slightly verbose column names, suboptimal but correct logic) do NOT warrant a NO.'',
     ''- NO: There is clear, specific evidence of an error in the SQL logic, column selection, filters, or output format. You must be able to point to a concrete mismatch.'',
     [],
     ''Reply with exactly:'',
     ''YES'',
     ''NO: <one-line concrete reason>'']"

definition SEMANTIC_CHECK_PROMPT :: string where
  "SEMANTIC_CHECK_PROMPT = join nl SEMANTIC_CHECK_LINES"

definition SEMANTIC_CHECK_SYSTEM_PROMPT :: string where
  "SEMANTIC_CHECK_SYSTEM_PROMPT = join nl [
     ''You are a precise SQL reviewer. Your task is to verify whether a generated SQL query actually answers the user''
       @ [CHR 0x27] @ ''s question. Focus on concrete, provable errors ''
       @ [CHR 0xE2, CHR 0x80, CHR 0x94]
       @ '' not style or minor inefficiencies. Answer only YES or NO with a brief reason.'']"

definition REVIEWER_HEAD_LINES :: "string list" where
  "REVIEWER_HEAD_LINES = [
     ''You are a SQL reviewer. Your job is to find errors in a generated SQL query. You NEVER generate SQL yourself ''
       @ [CHR 0xE2, CHR 0x80, CHR 0x94] @ '' you only review.'',
     [],
     ''## Review checklist'',
     ''For each of the following categories, check the SQL and report any issues:'',
     [],
     ''1. **Schema alignment**: Does every table name and column name exist in the SCHEMA below? Flag any identifier that is not in the schema (hallucination).'',
     ''2. **Syntax completeness**: Does every JOIN have an ON condition? Does every GROUP BY include non-aggregated columns? Do subqueries have aliases?'',
     ''3. **Business rules**: Does the SQL logic match the RETRIEVED NOTES (if provided)? For example, if notes say ''
       @ [CHR 0x22] @ ''valid orders exclude cancelled/refunded'' @ [CHR 0x22]
       @ '', does the SQL filter accordingly?'',
     ''4. **Dialect compliance**: Are the functions and syntax valid for {dialect}?'',
     ''5. **Safety**: Does the SQL contain INSERT, UPDATE, DELETE, DROP, ALTER, CREATE, PRAGMA? If so, flag immediately.'',
     [],
     ''## Output format (strict JSON only, no markdown, no extra text)'']"

definition REVIEWER_TAIL_LINES :: "string list" where
  "REVIEWER_TAIL_LINES = [
     ''  '' @ [CHR 0x22] @ ''issues'' @ [CHR 0x22] @ '': [],'',
     ''  '' @ [CHR 0x22] @ ''critical_count'' @ [CHR 0x22] @ '': 0,'',
     ''  '' @ [CHR 0x22] @ ''suggested_fix'' @ [CHR 0x22] @ '': '' @ [CHR 0x22, CHR 0x22],
     ''}'',
     [],
     ''or if issues found:'',
     [],
     ''{'',
     ''  '' @ [CHR 0x22] @ ''valid'' @ [CHR 0x22] @ '': false,'',
     ''  '' @ [CHR 0x22] @ ''issues'' @ [CHR 0x22] @ '': ['',
     ''    {'' @ [CHR 0x22] @ ''type'' @ [CHR 0x22] @ '': '' @ [CHR 0x22]
       @ ''hallucination|syntax|business_rule|dialect|safety'' @ [CHR 0x22] @ '', ''
       @ [CHR 0x22] @ ''detail'' @ [CHR 0x22] @ '': '' @ [CHR 0x22]
       @ ''specific description of the issue'' @ [CHR 0x22] @ ''}'',
     ''  ],'',
     ''  '' @ [CHR 0x22] @ ''critical_count'' @ [CHR 0x22] @ '': 2,'',
     ''  '' @ [CHR 0x22] @ ''suggested_fix'' @ [CHR 0x22] @ '': '' @ [CHR 0x22]
       @ ''Brief suggestion for how to fix the SQL. Be specific ''
       @ [CHR 0xE2, CHR 0x80, CHR 0x94] @ '' mention exact column names.'' @ [CHR 0x22],
     ''}'',
     [],
     ''## Rules'',
     ''- If any hallucination is found (column/table not in schema), valid MUST be false.'',
     ''- Be concise in suggested_fix '' @ [CHR 0xE2, CHR 0x80, CHR 0x94]
       @ '' one or two sentences.'',
     ''- Output ONLY the JSON. No markdown code fences, no explanations.'']"

definition REVIEWER_LINES :: "string list" where
  "REVIEWER_LINES = REVIEWER_HEAD_LINES
     @ [''{'', ''  '' @ [CHR 0x22] @ ''valid'' @ [CHR 0x22] @ '': true,''] @ REVIEWER_TAIL_LINES"

definition REVIEWER_PROMPT :: string where
  "REVIEWER_PROMPT = join nl REVIEWER_LINES"

subsection \<open>Which templates format\<close>

text \<open>A template that is a list of lines, none of which leaves a field open, can be scanned line
  by line.\<close>

definition add_fields :: "string list \<Rightarrow> string list \<times> fmt_end \<Rightarrow> string list \<times> fmt_end" where
  "add_fields ns r = (ns @ fst r, snd r)"

lemma add_fields_simps [simp]:
  "add_fields [] r = r"
  "add_fields ns (ms, e) = (ns @ ms, e)"
  "add_field n (add_fields ns r) = add_fields (n # ns) r"
  by (simp_all add: add_fields_def add_field_def)

lemma scan_append:
  "fmt_scan m l = (ns, FmtOk) \<Longrightarrow> fmt_scan m (l @ s) = add_fields ns (fmt_scan None s)"
proof (induction m l arbitrary: ns rule: fmt_scan.induct)
  case (2 c)
  then show ?case by (cases s) (auto split: if_splits)
next
  case (5 acc c l)
  then show ?case
    by (cases "fmt_scan None l") (auto simp: add_field_def add_fields_def split: if_splits)
qed (auto split: if_splits)

definition brace_free :: "string \<Rightarrow> bool" where
  "brace_free s \<longleftrightarrow> list_all (\<lambda>c. c \<noteq> CHR ''{'' \<and> c \<noteq> CHR ''}'') s"

lemma brace_free_simps [simp]:
  "brace_free []"
  "brace_free (c # s) \<longleftrightarrow> c \<noteq> CHR ''{'' \<and> c \<noteq> CHR ''}'' \<and> brace_free s"
  by (simp_all add: brace_free_def)

fun lines_scan :: "string list \<Rightarrow> (string list \<times> fmt_end) option" where
  "lines_scan [] = Some ([], FmtOk)"
| "lines_scan (l # ls) =
     (if brace_free l then lines_scan ls
      else (case fmt_scan None l of
              (ns, FmtOk) \<Rightarrow> map_option (add_fields ns) (lines_scan ls)
            | _ \<Rightarrow> None))"

text \<open>The congruences keep the simplifier out of the text still to be scanned, and \<open>brace_free\<close> reads
  the bits of a character directly, so that scanning a prompt is linear.\<close>

lemma brace_free_Char:
  "brace_free (Char b0 b1 b2 b3 b4 b5 b6 b7 # s) \<longleftrightarrow>
     (b7 \<or> \<not> b6 \<or> \<not> b5 \<or> \<not> b4 \<or> \<not> b3 \<or> \<not> b0 \<or> b1 = b2) \<and> brace_free s"
  by auto

lemma brace_free_append: "brace_free (s @ t) \<longleftrightarrow> brace_free s \<and> brace_free t"
  by (simp add: brace_free_def)

lemma lines_scan_Cons:
  "lines_scan (l # ls) =
     (if brace_free l then lines_scan ls
      else (case fmt_scan None l of
              (ns, FmtOk) \<Rightarrow> map_option (add_fields ns) (lines_scan ls)
            | _ \<Rightarrow> None))"
  by simp

lemma brace_free_cong: "brace_free s = brace_free s" by (rule refl)

lemma lines_scan_cong: "lines_scan ls = lines_scan ls" by (rule refl)

lemmas scan_congs = brace_free_cong lines_scan_cong if_weak_cong

lemmas scan_simps = brace_free_Char brace_free_append add_field_def add_fields_def

lemma scan_brace_free: "brace_free l \<Longrightarrow> fmt_scan None l = ([], FmtOk)"
proof (induction l)
  case (Cons c l)
  then show ?case by (cases l) auto
qed simp

lemma scan_lines:
  "lines_scan ls = Some r \<Longrightarrow> ls \<noteq> [] \<Longrightarrow> fmt_scan None (join nl ls @ t) = add_fields (fst r) (fmt_scan None t)"
proof (induction ls arbitrary: r)
  case (Cons l ls)
  from Cons.prems(1) obtain ns r' where l: "fmt_scan None l = (ns, FmtOk)"
    and r': "lines_scan ls = Some r'" and r: "r = add_fields ns r'"
    by (auto simp: scan_brace_free split: if_splits prod.splits fmt_end.splits)
  show ?case
  proof (cases "ls = []")
    case True
    then show ?thesis using r' r scan_append [OF l] by (auto simp: add_fields_def)
  next
    case False
    have nl1: "fmt_scan None (nl @ u) = fmt_scan None u" for u
      using scan_append [of None nl "[]" u] by (simp add: nl_def)
    show ?thesis
      using False Cons.IH [OF r' False] scan_append [OF l] r
      by (simp add: join_Cons nl1 add_fields_def)
  qed
qed simp

lemma generator_prompt_fields:
  "fmt_scan None GENERATOR_SYSTEM_PROMPT = ([''dialect'', ''dialect_rules''], FmtOk)"
proof -
  have "lines_scan GENERATOR_SYSTEM_LINES = Some ([''dialect'', ''dialect_rules''], FmtOk)"
    unfolding GENERATOR_SYSTEM_LINES_def by (simp add: scan_simps cong: scan_congs)
  moreover have "GENERATOR_SYSTEM_LINES \<noteq> []"
    by (simp only: GENERATOR_SYSTEM_LINES_def list.distinct not_False_eq_True)
  ultimately show ?thesis using scan_lines [of GENERATOR_SYSTEM_LINES _ "[]"]
    by (simp add: GENERATOR_SYSTEM_PROMPT_def add_fields_def)
qed

lemma semantic_prompt_fields:
  "fmt_scan None SEMANTIC_CHECK_PROMPT =
     ([''schema_text'', ''question'', ''sql'', ''row_count'', ''columns'', ''preview_rows'', ''preview''],
      FmtOk)"
proof -
  have "lines_scan SEMANTIC_CHECK_LINES =
     Some ([''schema_text'', ''question'', ''sql'', ''row_count'', ''columns'', ''preview_rows'', ''preview''],
      FmtOk)"
    unfolding SEMANTIC_CHECK_LINES_def by (simp add: scan_simps cong: scan_congs)
  moreover have "SEMANTIC_CHECK_LINES \<noteq> []"
    by (simp only: SEMANTIC_CHECK_LINES_def list.distinct not_False_eq_True)
  ultimately show ?thesis using scan_lines [of SEMANTIC_CHECK_LINES _ "[]"]
    by (simp add: SEMANTIC_CHECK_PROMPT_def add_fields_def)
qed

text \<open>The reviewer's template shows literal JSON with unescaped braces: after the dialect field the
  scan stops at a field whose name is a line break, two blanks and a quoted word.\<close>

definition bad_field :: string where
  "bad_field = nl @ ''  '' @ [CHR 0x22] @ ''valid'' @ [CHR 0x22]"

lemma reviewer_prompt_fields:
  "fmt_scan None REVIEWER_PROMPT = ([''dialect''], FmtSpec bad_field)"
proof -
  let ?hd = "REVIEWER_HEAD_LINES" and ?tl = "REVIEWER_TAIL_LINES"
  let ?l = "''  '' @ [CHR 0x22] @ ''valid'' @ [CHR 0x22] @ '': true,''"
  have head: "lines_scan ?hd = Some ([''dialect''], FmtOk)"
    unfolding REVIEWER_HEAD_LINES_def by (simp add: scan_simps cong: scan_congs)
  have ne: "?hd \<noteq> []" "?tl \<noteq> []"
    by (simp_all only: REVIEWER_HEAD_LINES_def REVIEWER_TAIL_LINES_def list.distinct not_False_eq_True)
  have p: "REVIEWER_PROMPT = join nl ?hd @ nl @ ''{'' @ nl @ ?l @ nl @ join nl ?tl"
    using ne by (simp add: REVIEWER_PROMPT_def REVIEWER_LINES_def join_append join_Cons)
  have q: "fmt_scan None (nl @ ''{'' @ nl @ ?l @ nl @ join nl ?tl) = ([], FmtSpec bad_field)"
    by (simp add: nl_def bad_field_def)
  show ?thesis
    by (simp only: p scan_lines [OF head ne(1)] q fst_conv add_fields_simps(2) append_Nil2)
qed

lemma reviewer_format_raises:
  "py_format [(''dialect'', d)] REVIEWER_PROMPT = Inl (PyExc ''KeyError'' bad_field)"
proof -
  have "error_of (fmt_run [(''dialect'', d)] None REVIEWER_PROMPT) = Some (PyExc ''KeyError'' bad_field)"
    using fmt_run_scan [of "[(''dialect'', d)]" None REVIEWER_PROMPT]
    by (simp add: reviewer_prompt_fields bad_field_def nl_def)
  then show ?thesis
    by (cases "fmt_run [(''dialect'', d)] None REVIEWER_PROMPT") (auto simp: py_format_def)
qed

end
