(* ===== verification/Guard.thy ===== *)
theory Guard
  imports AgentState
begin

text \<open>
  \<open>agent/nodes/guard.py\<close>: the node that validates a generated query before it is executed. The
  schema lookup (a cached reflection, which may raise) is a parameter.
\<close>

type_synonym schema_lookup = "string \<Rightarrow> schema_info py"

definition get_cached_schema_for_check :: "schema_lookup \<Rightarrow> string option \<Rightarrow> schema_info" where
  "get_cached_schema_for_check lookup database_url =
     (case database_url of
        None \<Rightarrow> []
      | Some url \<Rightarrow>
          if url = [] then [] else (case lookup url of Inl e \<Rightarrow> [] | Inr info \<Rightarrow> info))"

definition guard_node ::
  "sqlglot \<Rightarrow> schema_lookup \<Rightarrow> clock \<Rightarrow> agent_state \<Rightarrow> node_out" where
  "guard_node sg lookup t s =
     (let sql = or_default [] (s_sql s);
          s1 = tlog_do (node_enter (t 1) ''guard'' [(''sql_len'', PInt (int (length sql)))]) s;
          dialect = get_sqlglot_dialect (s_database_url s)
      in try_in s1 (check_safety sg sql dialect) (\<lambda>safety.
           let issues = sr_issues safety;
               ast_pass = (if issues \<noteq> [] then list_all (\<lambda>i. prefix ''ast_'' (i_type i)) issues
                           else True);
               schema_info = get_cached_schema_for_check lookup (s_database_url s);
               issues = (if schema_info \<noteq> []
                         then issues @ snd (check_hallucinations sg sql schema_info) else issues);
               passed = (length issues = 0);
               s2 = tlog_do (\<lambda>tr.
                      node_exit (t 3) ''guard''
                        [(''passed'', PBool passed), (''issue_count'', PInt (int (length issues)))]
                        ''success''
                        (guard_result (t 2) passed (map i_type issues) tr)) s1
           in Inr (set_latency ''guard'' (since t 0 4)
                (s2\<lparr>s_guard_pass := Some passed,
                    s_guard_issues := Some issues,
                    s_ast_pass := Some ast_pass,
                    s_ast_issues := Some issues\<rparr>))))"

text \<open>The contract of the node: the query satisfies \<open>safe_sql\<close>, and the schema check, when a
  schema is available, finds every name.\<close>

definition guard_spec :: "sqlglot \<Rightarrow> schema_lookup \<Rightarrow> string option \<Rightarrow> string \<Rightarrow> bool" where
  "guard_spec sg lookup url sql \<longleftrightarrow>
     safe_sql sg sql (get_sqlglot_dialect url) \<and>
     (get_cached_schema_for_check lookup url = [] \<or>
      fst (check_hallucinations sg sql (get_cached_schema_for_check lookup url)))"

lemma guard_node_result:
  assumes "guard_node sg lookup t s = Inr s'"
  obtains r where "check_safety sg (or_default [] (s_sql s)) (get_sqlglot_dialect (s_database_url s)) = Inr r"
    and "s_guard_pass s' = Some (sr_issues r = [] \<and>
          (get_cached_schema_for_check lookup (s_database_url s) = [] \<or>
           snd (check_hallucinations sg (or_default [] (s_sql s))
             (get_cached_schema_for_check lookup (s_database_url s))) = []))"
    and "s_ast_pass s' = Some (list_all (\<lambda>i. prefix ''ast_'' (i_type i)) (sr_issues r))"
    and "s_guard_pass s' = Some (or_default [] (s_guard_issues s') = [])"
  using assms
  by (auto simp: guard_node_def Let_def try_in_Inr_iff tlog_do_def set_latency_def list_all_iff)

lemma guard_node_frame:
  assumes "guard_node sg lookup t s = Inr s'"
  shows "s_sql s' = s_sql s" and "s_retry_count s' = s_retry_count s"
    and "s_max_retries s' = s_max_retries s" and "s_last_error s' = s_last_error s"
    and "s_last_sql s' = s_last_sql s" and "s_semantic_feedback s' = s_semantic_feedback s"
    and "s_exec_result s' = s_exec_result s" and "s_candidate_sqls s' = s_candidate_sqls s"
    and "s_semantic_pass s' = s_semantic_pass s"
  using assms by (auto simp: guard_node_def Let_def try_in_Inr_iff tlog_do_def set_latency_def)

lemma l1_not_ast: "i \<in> set (l1_issues sql) \<Longrightarrow> \<not> prefix ''ast_'' (i_type i)"
  using l1_issue_types [of i sql] by auto

lemma ast_is_ast: "ast_check sg sql d = Inr (is, st, tabs) \<Longrightarrow> i \<in> set is \<Longrightarrow> prefix ''ast_'' (i_type i)"
  using ast_check_types [of sg sql d "is" st tabs i] by auto

lemma ast_prefix_iff:
  assumes "check_safety sg sql d = Inr r"
  shows "list_all (\<lambda>i. prefix ''ast_'' (i_type i)) (sr_issues r) \<longleftrightarrow>
    strip sql \<noteq> [] \<and> l1_issues sql = []"
proof (cases "strip sql = []")
  case True
  then show ?thesis using assms by (auto simp: check_safety_def)
next
  case False
  then obtain "is" st tabs where a: "ast_check sg sql d = Inr (is, st, tabs)"
    and r: "sr_issues r = l1_issues sql @ is"
    using assms by (auto simp: check_safety_def py_bind_Inr_iff Let_def split: if_splits)
  have "list_all (\<lambda>i. prefix ''ast_'' (i_type i)) is"
    using ast_is_ast [OF a] by (simp add: list_all_iff)
  moreover have "list_all (\<lambda>i. prefix ''ast_'' (i_type i)) (l1_issues sql) \<longleftrightarrow> l1_issues sql = []"
    using l1_not_ast [of _ sql] by (cases "l1_issues sql") (auto simp: list_all_iff)
  ultimately show ?thesis using False r by simp
qed

subsection \<open>Properties\<close>


definition demo_lookup :: schema_lookup where
  "demo_lookup url = Inr demo_schema"

definition demo_clock :: clock where
  "demo_clock i = \<lparr>r_ms = int i, r_ts = ''12:00:00''\<rparr>"

definition demo_state :: agent_state where
  "demo_state = (init_state ''How many users are there?'')
     \<lparr>s_sql := Some demo_sql, s_database_url := Some ''sqlite:///shop.db''\<rparr>"


text \<open>The flag \<open>ast_pass\<close> that the node stores says nothing about the AST: it is true exactly
  when the text is not blank and its keyword stage found nothing, even if the AST stage
  rejected the query; and it is false for every keyword or statement-count issue.\<close>

theorem ast_pass_ignores_ast:
  assumes "guard_node sg lookup t s = Inr s'"
  shows "s_ast_pass s' = Some (strip (or_default [] (s_sql s)) \<noteq> []
    \<and> l1_issues (or_default [] (s_sql s)) = [])"
proof -
  obtain r where "check_safety sg (or_default [] (s_sql s)) (get_sqlglot_dialect (s_database_url s)) = Inr r"
    and "s_ast_pass s' = Some (list_all (\<lambda>i. prefix ''ast_'' (i_type i)) (sr_issues r))"
    by (rule guard_node_result [OF assms])
  then show ?thesis by (simp add: ast_prefix_iff)
qed

text \<open>A parser that rejects everything.\<close>

definition failing_sg :: sqlglot where
  "failing_sg = \<lparr>sg_parse = (\<lambda>s d. Inl (PyExc ''ParseError'' ''Expected table name'')),
     sg_parse_one = (\<lambda>s d. Inl (PyExc ''ParseError'' ''Expected table name''))\<rparr>"

theorem ast_pass_ignores_ast_witness:
  "\<exists>s'. guard_node failing_sg demo_lookup demo_clock demo_state = Inr s'
     \<and> s_guard_pass s' = Some False \<and> s_ast_pass s' = Some True"
proof -
  have "node_ok (\<lambda>s'. s_guard_pass s' = Some False)
      (guard_node failing_sg demo_lookup demo_clock demo_state)"
    by code_simp
  then obtain s' where g: "guard_node failing_sg demo_lookup demo_clock demo_state = Inr s'"
    and "s_guard_pass s' = Some False"
    by (auto simp: node_ok_iff)
  moreover have "strip demo_sql \<noteq> [] \<and> l1_issues demo_sql = []" by code_simp
  ultimately show ?thesis
    using ast_pass_ignores_ast [OF g] by (simp add: demo_state_def init_state_def)
qed

end
