(* ===== verification/Generator.thy ===== *)
theory Generator
  imports AgentState Prompts
begin

text \<open>
  \<open>agent/generator_llm.py\<close> and \<open>agent/nodes/generator.py\<close>: extraction of the query from a reply,
  the prompt, and the node that asks the model once, or on a retry up to three times with
  removal of duplicates. The model is a parameter: for a system text, a user text and a
  temperature it answers or raises, in one reply or as a stream of chunks.
\<close>

subsection \<open>The language model\<close>

record llm_reply =
  lr_content :: string
  lr_usage :: usage                       \<comment> \<open>\<open>response_metadata["token_usage"]\<close>, empty when missing\<close>

record stream_chunk =
  sc_content :: string
  sc_resp :: "usage option"               \<comment> \<open>\<open>response_metadata["token_usage"]\<close>\<close>
  sc_meta :: "usage option"               \<comment> \<open>\<open>usage_metadata\<close>\<close>

record llm =
  llm_invoke :: "string \<Rightarrow> string \<Rightarrow> rat \<Rightarrow> llm_reply py"
  llm_stream :: "string \<Rightarrow> string \<Rightarrow> rat \<Rightarrow> stream_chunk list py"

record config =
  cfg_sql_dialect :: string
  cfg_llm_model :: string

subsection \<open>generator_llm.py\<close>

definition ticks :: string where "ticks = [CHR 0x60, CHR 0x60, CHR 0x60]"

text \<open>\<open>```sql\s*(.*?)```\<close> and \<open>(?:WITH\s+.*?SELECT|SELECT)\s+.*?;\<close>, dot matching everything,
  without regard to case\<close>

definition rx_sql_block :: rx where
  "rx_sql_block = rseq [rlit_ci (ticks @ ''sql''), rstar rws, RGrp 1 (rlazy rany), rlit ticks]"

definition rx_select :: rx where
  "rx_select = rseq [ralt [rseq [rlit_ci ''WITH'', rplus rws, rlazy rany, rlit_ci ''SELECT''],
                           rlit_ci ''SELECT''],
                     rplus rws, rlazy rany, rlit '';'']"

definition extract_sql :: "string \<Rightarrow> string" where
  "extract_sql response =
     (case re_search rx_sql_block response of
        Some m \<Rightarrow> strip (m_group 1 m)
      | None \<Rightarrow>
          (case re_search rx_select response of
             Some m \<Rightarrow> strip (m_text m)
           | None \<Rightarrow> strip response))"

text \<open>A step that is no dictionary has no \<open>get\<close>.\<close>

definition format_step :: "pydict \<Rightarrow> string py" where
  "format_step s =
     (let deps = d_get_or s ''depends_on'' (PList []);
          dep_str = (if truthy deps then '' (depends on steps: '' @ py_str deps @ '')'' else [])
      in case (d_get s ''id'', d_get s ''sub_q'') of
           (None, _) \<Rightarrow> Inl (PyExc ''KeyError'' ''id'')
         | (_, None) \<Rightarrow> Inl (PyExc ''KeyError'' ''sub_q'')
         | (Some i, Some q) \<Rightarrow> Inr (''Step '' @ py_str i @ '': '' @ py_str q @ dep_str))"

definition format_sub_question :: "pyv \<Rightarrow> string py" where
  "format_sub_question v =
     (case v of
        PDict s \<Rightarrow> format_step s
      | _ \<Rightarrow> Inl (no_attribute v ''get''))"

definition format_sub_questions :: "pyv list \<Rightarrow> string py" where
  "format_sub_questions subs =
     py_bind (py_map format_sub_question subs) (\<lambda>ls. Inr (join nl ls))"

text \<open>\<open>_load_dialect_rules\<close>: the first rule file that exists, otherwise the inline rules.\<close>

definition DEFAULT_DIALECT_RULES :: "(string \<times> string list) list" where
  "DEFAULT_DIALECT_RULES = [
     (''sqlite'', [
       ''Use GROUP_CONCAT(expr, separator) for string aggregation.'',
       ''Use double-quoted identifiers for reserved words (e.g., '' @ [CHR 0x22]
         @ ''column_name'' @ [CHR 0x22] @ '').'',
       ''Use strftime() for date formatting (e.g., strftime('' @ [CHR 0x27] @ ''%Y-%m''
         @ [CHR 0x27] @ '', date_col)).'',
       ''Use || for string concatenation (e.g., first_name || '' @ [CHR 0x27] @ '' ''
         @ [CHR 0x27] @ '' || last_name).'',
       ''Boolean values: use 0 and 1 (no TRUE/FALSE keywords).'',
       ''INTEGER PRIMARY KEY is auto-incrementing by default.'',
       ''Use CAST(expr AS type) for type conversion (e.g., CAST(price AS INTEGER)).'',
       ''No window function support before version 3.25. Avoid ROW_NUMBER(), RANK(), etc. unless certain.'',
       ''Use ROUND(value, decimals) for rounding numbers.'',
       ''No RIGHT JOIN or FULL OUTER JOIN. Use LEFT JOIN instead and reorder tables if needed.'']),
     (''postgresql'', [
       ''Use STRING_AGG(expr, delimiter ORDER BY ...) for string aggregation.'',
       ''Use ::type for type casting (e.g., value::integer, value::text, value::numeric).'',
       ''Use ILIKE for case-insensitive pattern matching (e.g., name ILIKE '' @ [CHR 0x27]
         @ ''%abc%'' @ [CHR 0x27] @ '').'',
       ''Use DISTINCT ON (column) to keep the first row per group.'',
       ''Use double-quoted identifiers for reserved words or mixed case (e.g., '' @ [CHR 0x22]
         @ ''UserName'' @ [CHR 0x22] @ '').'',
       ''Use || for string concatenation (e.g., first_name || '' @ [CHR 0x27] @ '' ''
         @ [CHR 0x27] @ '' || last_name).'',
       ''Use DATE_TRUNC('' @ [CHR 0x27] @ ''unit'' @ [CHR 0x27]
         @ '', timestamp) for date truncation (e.g., DATE_TRUNC('' @ [CHR 0x27] @ ''month''
         @ [CHR 0x27] @ '', created_at)).'',
       ''Use LIMIT n OFFSET m for pagination (not LIMIT m, n).'',
       ''Use BOOL_AND(expr) / BOOL_OR(expr) for boolean aggregation.'',
       ''Use FILTER (WHERE ...) clause on aggregates for conditional aggregation (e.g., COUNT(*) FILTER (WHERE status = ''
         @ [CHR 0x27] @ ''active'' @ [CHR 0x27] @ '')).'']),
     (''mysql'', [
       ''Use GROUP_CONCAT(expr ORDER BY ... SEPARATOR '' @ [CHR 0x27] @ ''...'' @ [CHR 0x27]
         @ '') for string aggregation.'',
       ''Use backtick-quoted identifiers for reserved words (e.g., '' @ [CHR 0x60] @ ''order''
         @ [CHR 0x60] @ '', '' @ [CHR 0x60] @ ''status'' @ [CHR 0x60] @ '').'',
       ''Use DATE_FORMAT(date_col, '' @ [CHR 0x27] @ ''%Y-%m'' @ [CHR 0x27]
         @ '') for date formatting.'',
       ''Use LIMIT offset, count for pagination (e.g., LIMIT 10, 20 means skip 10, return 20).'',
       ''Use AUTO_INCREMENT for auto-incrementing primary keys.'',
       ''Use CONCAT(str1, str2, ...) for string concatenation (|| is not supported).'',
       ''Use IFNULL(expr, default) or COALESCE(expr, default) for NULL handling.'',
       ''Use YEAR(date_col), MONTH(date_col), DAY(date_col) to extract date parts.'',
       ''Use REGEXP for regular expression matching (e.g., name REGEXP '' @ [CHR 0x27]
         @ ''^[A-Z]'' @ [CHR 0x27] @ '').'',
       ''No FULL OUTER JOIN. Emulate with LEFT JOIN UNION RIGHT JOIN if needed.''])]"

definition load_dialect_rules :: "(string \<times> string list) list option list \<Rightarrow> (string \<times> string list) list" where
  "load_dialect_rules files =
     (case List.map_filter id files of r # _ \<Rightarrow> r | [] \<Rightarrow> DEFAULT_DIALECT_RULES)"

definition get_dialect_rules :: "(string \<times> string list) list \<Rightarrow> string \<Rightarrow> string" where
  "get_dialect_rules all_rules dialect =
     (let d = lower dialect;
          rules = (case map_of all_rules d of Some r \<Rightarrow> r
                   | None \<Rightarrow> (case map_of all_rules ''sqlite'' of Some r \<Rightarrow> r | None \<Rightarrow> []))
      in join nl (map (\<lambda>r. ''- '' @ r) rules))"

definition effective_dialect :: "config \<Rightarrow> string option \<Rightarrow> string" where
  "effective_dialect cfg dialect =
     upper (case dialect of Some d \<Rightarrow> if d = [] then cfg_sql_dialect cfg else d
                          | None \<Rightarrow> cfg_sql_dialect cfg)"

definition generator_system :: "(string \<times> string list) list \<Rightarrow> string \<Rightarrow> string py" where
  "generator_system rules d =
     py_format [(''dialect'', d), (''dialect_rules'', get_dialect_rules rules d)] GENERATOR_SYSTEM_PROMPT"

lemma generator_system_ok: "\<exists>sys. generator_system rules d = Inr sys"
  unfolding generator_system_def
  by (rule py_format_ok [OF generator_prompt_fields]) simp

subsection \<open>generate_sql\<close>

definition section_of :: "string \<Rightarrow> string \<Rightarrow> string" where
  "section_of title body = ''## '' @ title @ nl @ body"

definition opt_section :: "string \<Rightarrow> string \<Rightarrow> string list" where
  "opt_section title body = (if body \<noteq> [] then [section_of title body] else [])"

definition cte_title :: string where
  "cte_title = ''SUB_QUESTIONS (use CTE/WITH to implement each step)''"

definition sub_section :: "pyv list \<Rightarrow> string list py" where
  "sub_section subs =
     (if subs \<noteq> [] then py_bind (format_sub_questions subs) (\<lambda>t. Inr [section_of cte_title t])
      else Inr [])"

text \<open>The entry point of the legacy pipeline: a failed safety check blanks the query.\<close>

definition generate_sql ::
  "config \<Rightarrow> (string \<times> string list) list \<Rightarrow> sqlglot \<Rightarrow> llm \<Rightarrow> string \<Rightarrow> string \<Rightarrow> string \<Rightarrow> string
    \<Rightarrow> string \<Rightarrow> string \<Rightarrow> pyv list \<Rightarrow> string option \<Rightarrow> (string \<times> string \<times> usage) py" where
  "generate_sql cfg rules sg chat schema_text user_question rag_context sample_rows_text
       last_error last_sql sub_questions dialect =
     (let d = effective_dialect cfg dialect
      in py_bind (generator_system rules d) (\<lambda>system.
         py_bind (sub_section sub_questions) (\<lambda>subs.
         let parts = [section_of ''SCHEMA'' schema_text]
               @ opt_section ''SAMPLE ROWS'' sample_rows_text
               @ opt_section ''RETRIEVED NOTES'' rag_context
               @ subs
               @ [section_of ''USER QUESTION'' user_question]
               @ (if last_error \<noteq> [] \<and> last_sql \<noteq> []
                  then [section_of ''LAST_ERROR'' last_error, section_of ''LAST_SQL'' last_sql] else []);
             user_message = join (nl @ nl) parts
         in py_bind (llm_invoke chat system user_message 0) (\<lambda>response.
              let raw = lr_content response;
                  token_usage = extract_token_usage (lr_usage response);
                  sql = extract_sql raw
              in py_bind (check_safety sg sql ''sqlite'') (\<lambda>safety.
                   if \<not> sr_valid safety then
                     let reason = (case sr_issues safety of i # _ \<Rightarrow> i_detail i | [] \<Rightarrow> ''Unknown'')
                     in Inr ([], ''Validation failed: '' @ reason @ nl @ nl @ ''Original response:'' @ nl @ raw,
                             token_usage)
                   else Inr (sql, raw, token_usage))))))"

lemma generate_sql_safe:
  assumes "generate_sql cfg rules sg chat sch q rag smp err lsql subs d = Inr (sql, raw, tu)"
  shows "sql = [] \<or> safe_sql sg sql ''sqlite''"
  using assms check_safety_valid_iff [of sg _ "''sqlite''"]
  by (fastforce simp: generate_sql_def Let_def py_bind_Inr_iff split: if_splits)

subsection \<open>One candidate\<close>

definition normalize_sql :: "string \<Rightarrow> string" where
  "normalize_sql sql = upper (strip (join '' '' (split_ws sql)))"

record gen_request =
  gq_question :: string
  gq_schema :: string
  gq_notes :: string
  gq_samples :: string
  gq_last_error :: string
  gq_last_sql :: string
  gq_subs :: "pyv list"
  gq_fewshot :: string
  gq_dialect :: "string option"

record gen_out =
  go_sql :: string
  go_raw :: string
  go_usage :: usage
  go_tokens :: "string list"              \<comment> \<open>what was passed to the token callback\<close>

definition notes_preamble :: string where
  "notes_preamble = ''Notes are hints only. SCHEMA is the ground truth '' @ em_dash
     @ '' if notes conflict with schema columns, types, or values, trust the schema.'' @ nl"

definition user_parts :: "gen_request \<Rightarrow> string list py" where
  "user_parts rq =
     py_bind (sub_section (gq_subs rq)) (\<lambda>subs. Inr (
       (if gq_last_error rq \<noteq> [] \<and> gq_last_sql rq \<noteq> []
        then [section_of ''LAST_ERROR'' (gq_last_error rq), section_of ''LAST_SQL'' (gq_last_sql rq)]
        else [])
       @ [section_of ''SCHEMA'' (gq_schema rq)]
       @ opt_section ''FEW-SHOT EXAMPLES'' (gq_fewshot rq)
       @ opt_section ''SAMPLE ROWS'' (gq_samples rq)
       @ (if gq_notes rq \<noteq> [] then [section_of ''RETRIEVED NOTES'' (notes_preamble @ gq_notes rq)] else [])
       @ subs
       @ [section_of ''USER QUESTION'' (gq_question rq)]))"

text \<open>Streaming: the contents are concatenated and passed on; the usage is the last one reported,
  read from the response metadata or else from the usage metadata.\<close>

definition chunk_usage :: "stream_chunk \<Rightarrow> usage" where
  "chunk_usage c =
     (let tu = or_default [] (sc_resp c)
      in if tu \<noteq> [] then tu
         else (case sc_meta c of
                 None \<Rightarrow> []
               | Some um \<Rightarrow> if um = [] then []
                   else [(''prompt_tokens'', usage_get um ''input_tokens''),
                         (''completion_tokens'', usage_get um ''output_tokens''),
                         (''total_tokens'', usage_get um ''total_tokens'')]))"

fun stream_run :: "stream_chunk list \<Rightarrow> string \<Rightarrow> usage \<Rightarrow> string list \<Rightarrow> string \<times> usage \<times> string list" where
  "stream_run [] raw tu sent = (raw, tu, sent)"
| "stream_run (c # cs) raw tu sent =
     (let raw' = (if sc_content c \<noteq> [] then raw @ sc_content c else raw);
          sent' = (if sc_content c \<noteq> [] then sent @ [sc_content c] else sent);
          u = chunk_usage c;
          tu' = (if u \<noteq> [] then extract_token_usage u else tu)
      in stream_run cs raw' tu' sent')"

definition generate_one ::
  "config \<Rightarrow> (string \<times> string list) list \<Rightarrow> llm \<Rightarrow> gen_request \<Rightarrow> rat \<Rightarrow> bool \<Rightarrow> gen_out py" where
  "generate_one cfg rules chat rq temp token_callback =
     (let d = effective_dialect cfg (gq_dialect rq)
      in py_bind (generator_system rules d) (\<lambda>system.
         py_bind (user_parts rq) (\<lambda>parts.
         let user = join (nl @ nl) parts
         in if token_callback then
              py_bind (llm_stream chat system user temp) (\<lambda>chunks.
                let (raw, tu, sent) = stream_run chunks [] [] [];
                    token_usage = (if tu = [] then zero_usage else tu)
                in Inr \<lparr>go_sql = extract_sql raw, go_raw = raw, go_usage = token_usage, go_tokens = sent\<rparr>)
            else
              py_bind (llm_invoke chat system user temp) (\<lambda>response.
                let raw = lr_content response
                in Inr \<lparr>go_sql = extract_sql raw, go_raw = raw,
                        go_usage = extract_token_usage (lr_usage response), go_tokens = []\<rparr>))))"

subsection \<open>generator_node\<close>

definition gen_request_of :: "agent_state \<Rightarrow> gen_request" where
  "gen_request_of s =
     \<lparr>gq_question = s_question s,
      gq_schema = or_default [] (s_schema_text s),
      gq_notes = or_default [] (s_notes_text s),
      gq_samples = or_default [] (s_sample_rows_text s),
      gq_last_error = or_default [] (s_last_error s),
      gq_last_sql = or_default [] (s_last_sql s),
      gq_subs = or_default [] (s_sub_questions s),
      gq_fewshot = or_default [] (s_fewshot_text s),
      gq_dialect = map_option get_dialect_from_url (db_url s)\<rparr>"

definition temperatures :: "(nat \<times> rat) list" where
  "temperatures = [(0, 0), (1, 3 / 10), (2, 6 / 10)]"

record gen_acc =
  ga_cands :: "string list"
  ga_raws :: "string list"
  ga_usage :: usage
  ga_tlog :: "tracer option"

text \<open>The loop over the temperatures. \<open>ask temp first\<close> is \<open>_generate_one\<close>; the first call may
  stream. A failure of the first call raises, a later one is skipped.\<close>

fun gen_loop ::
  "config \<Rightarrow> (rat \<Rightarrow> bool \<Rightarrow> gen_out py) \<Rightarrow> clock \<Rightarrow> (nat \<times> rat) list \<Rightarrow> gen_acc
    \<Rightarrow> (py_exc \<times> tracer option) + gen_acc" where
  "gen_loop cfg ask t [] acc = Inr acc"
| "gen_loop cfg ask t ((i, temp) # rest) acc =
     (case ask temp (i = 0) of
        Inl e \<Rightarrow>
          (let tlog = map_option (llm_error (t (4 * i + 4)) (cfg_llm_model cfg) (exc_type e)
                        (take 300 (exc_msg e)) 0 ''generator'') (ga_tlog acc)
           in if i = 0
              then Inl (e, map_option (node_exit (t 5) ''generator''
                         [(''error'', PStr (take 120 (exc_msg e)))] ''error'') tlog)
              else gen_loop cfg ask t rest (acc\<lparr>ga_tlog := tlog\<rparr>))
      | Inr g \<Rightarrow>
          (let acc = acc\<lparr>ga_usage := add_usage (ga_usage acc) (go_usage g),
                         ga_raws := ga_raws acc @ [go_raw g],
                         ga_tlog := map_option (llm_call (t (4 * i + 4)) (cfg_llm_model cfg)
                            (usage_dict (go_usage g)) (since t (4 * i + 2) (4 * i + 3)) ''generator'')
                            (ga_tlog acc)\<rparr>
           in if go_sql g = [] then gen_loop cfg ask t rest acc
              else
                (let norm = normalize_sql (go_sql g);
                     is_dup = list_ex (\<lambda>c. normalize_sql c = norm) (ga_cands acc);
                     acc = (if is_dup then acc else acc\<lparr>ga_cands := ga_cands acc @ [go_sql g]\<rparr>)
                 in if ga_cands acc \<noteq> [] \<and> temp = 3 / 10 \<and> is_dup then Inr acc
                    else gen_loop cfg ask t rest acc)))"

definition raw_sep :: string where "raw_sep = nl @ ''---'' @ nl"

definition generator_single ::
  "config \<Rightarrow> (rat \<Rightarrow> bool \<Rightarrow> gen_out py) \<Rightarrow> clock \<Rightarrow> agent_state \<Rightarrow> node_out" where
  "generator_single cfg ask t s =
     (case ask 0 True of
        Inl e \<Rightarrow>
          Inl (e, map_option (\<lambda>tr.
            node_exit (t 5) ''generator'' [(''error'', PStr (take 120 (exc_msg e)))] ''error''
              (llm_error (t 4) (cfg_llm_model cfg) (exc_type e) (take 300 (exc_msg e)) 0 ''generator'' tr))
            (s_tlog s))
      | Inr g \<Rightarrow>
          (let token_usage = add_usage (or_default zero_usage (s_token_usage s)) (go_usage g);
               s1 = tlog_do (\<lambda>tr.
                      node_exit (t 5) ''generator''
                        [(''sql_len'', PInt (int (length (go_sql g)))), (''candidate_count'', PInt 1)]
                        ''success''
                        (llm_call (t 4) (cfg_llm_model cfg) (usage_dict (go_usage g)) (since t 2 3)
                          ''generator'' tr)) s
           in Inr (set_latency ''generator'' (since t 0 6)
                (s1\<lparr>s_sql := Some (go_sql g), s_raw_response := Some (go_raw g),
                    s_token_usage := Some token_usage, s_candidate_sqls := Some [],
                    s_last_error := Some [], s_last_sql := Some []\<rparr>))))"

definition generator_multi ::
  "config \<Rightarrow> (rat \<Rightarrow> bool \<Rightarrow> gen_out py) \<Rightarrow> clock \<Rightarrow> agent_state \<Rightarrow> node_out" where
  "generator_multi cfg ask t s =
     (case gen_loop cfg ask t temperatures
             \<lparr>ga_cands = [], ga_raws = [], ga_usage = or_default zero_usage (s_token_usage s),
              ga_tlog = s_tlog s\<rparr> of
        Inl e \<Rightarrow> Inl e
      | Inr acc \<Rightarrow>
          (let s1 = s\<lparr>s_tlog := ga_tlog acc\<rparr>;
               raw = join raw_sep (ga_raws acc)
           in case ga_cands acc of
                [] \<Rightarrow>
                  Inr (set_latency ''generator'' (since t 0 20)
                    ((tlog_do (node_exit (t 21) ''generator''
                        [(''sql_len'', PInt 0), (''candidate_count'', PInt 0),
                         (''error'', PStr ''all failed'')] ''success'') s1)
                     \<lparr>s_sql := Some [], s_raw_response := Some raw,
                      s_token_usage := Some (ga_usage acc), s_candidate_sqls := Some [],
                      s_last_error := Some ''All generation attempts returned empty SQL.'',
                      s_last_sql := Some []\<rparr>))
              | c # cs \<Rightarrow>
                  Inr (set_latency ''generator'' (since t 0 20)
                    ((tlog_do (node_exit (t 21) ''generator''
                        [(''sql_len'', PInt (int (length c))),
                         (''candidate_count'', PInt (int (length (c # cs))))] ''success'') s1)
                     \<lparr>s_sql := Some c, s_raw_response := Some raw,
                      s_token_usage := Some (ga_usage acc), s_candidate_sqls := Some (c # cs),
                      s_last_error := Some [], s_last_sql := Some []\<rparr>))))"

definition generator_node ::
  "config \<Rightarrow> (string \<times> string list) list \<Rightarrow> llm \<Rightarrow> bool \<Rightarrow> clock \<Rightarrow> agent_state \<Rightarrow> node_out" where
  "generator_node cfg rules chat token_callback t s =
     (let s1 = tlog_do (node_enter (t 1) ''generator''
                 [(''question_len'', PInt (int (length (s_question s))))]) s;
          multi = (0 < or_default 0 (s_retry_count s));
          rq = gen_request_of s;
          ask = (\<lambda>temp first. generate_one cfg rules chat rq temp (token_callback \<and> first))
      in if \<not> multi then generator_single cfg ask t s1 else generator_multi cfg ask t s1)"

subsection \<open>The candidates\<close>

text \<open>What the loop maintains: non-empty candidates, different after normalisation, each the
  query of some reply.\<close>

definition cands_ok :: "(rat \<Rightarrow> bool \<Rightarrow> gen_out py) \<Rightarrow> string list \<Rightarrow> bool" where
  "cands_ok ask cs \<longleftrightarrow>
     distinct (map normalize_sql cs) \<and>
     (\<forall>c\<in>set cs. c \<noteq> [] \<and> (\<exists>temp first g. ask temp first = Inr g \<and> go_sql g = c))"

lemma cands_ok_snoc:
  assumes "cands_ok ask cs" and "ask temp first = Inr g" and "go_sql g \<noteq> []"
    and "\<not> list_ex (\<lambda>c. normalize_sql c = normalize_sql (go_sql g)) cs"
  shows "cands_ok ask (cs @ [go_sql g])"
  using assms by (auto simp: cands_ok_def list_ex_iff)

lemma gen_loop_cands:
  "gen_loop cfg ask t ts acc = Inr acc' \<Longrightarrow> cands_ok ask (ga_cands acc) \<Longrightarrow>
     cands_ok ask (ga_cands acc') \<and> length (ga_cands acc') \<le> length (ga_cands acc) + length ts"
proof (induction ts arbitrary: acc)
  case (Cons x ts)
  obtain i temp where x: "x = (i, temp)" by (cases x)
  have step: "cands_ok ask (ga_cands acc') \<and> length (ga_cands acc') \<le> length (ga_cands acc) + Suc (length ts)"
    if "gen_loop cfg ask t ts acc2 = Inr acc'" "cands_ok ask (ga_cands acc2)"
      "length (ga_cands acc2) \<le> Suc (length (ga_cands acc))" for acc2
    using Cons.IH [OF that(1,2)] that(3) by simp
  show ?case
  proof (cases "ask temp (i = 0)")
    case (Inl e)
    then show ?thesis using Cons.prems step by (auto simp: x Let_def split: if_splits)
  next
    case (Inr g)
    let ?dup = "list_ex (\<lambda>c. normalize_sql c = normalize_sql (go_sql g)) (ga_cands acc)"
    consider "go_sql g = []" | "go_sql g \<noteq> []" ?dup | "go_sql g \<noteq> []" "\<not> ?dup" by blast
    then show ?thesis
    proof cases
      case 3
      then show ?thesis
        using Cons.prems step cands_ok_snoc [OF Cons.prems(2) Inr]
        by (simp add: x Inr Let_def)
    qed (use Cons.prems step in \<open>auto simp: x Inr Let_def split: if_splits\<close>)
  qed
qed simp

lemma gen_loop_raises:
  "i > 0 \<Longrightarrow> \<forall>(j, x)\<in>set ts. j > 0 \<Longrightarrow> \<exists>acc'. gen_loop cfg ask t ts acc = Inr acc'"
  by (induction cfg ask t ts acc rule: gen_loop.induct) (auto simp: Let_def split: sum.split)

lemma gen_loop_usage:
  "gen_loop cfg ask t ts acc = Inr acc' \<Longrightarrow> map fst (ga_usage acc') = map fst (ga_usage acc)"
  by (induction cfg ask t ts acc rule: gen_loop.induct)
     (auto simp: Let_def split: sum.splits if_splits)

lemma gen_request_tlog [simp]: "gen_request_of (tlog_do f s) = gen_request_of s"
  by (simp add: gen_request_of_def tlog_do_def db_url_def)

lemma gen_loop_first:
  "(\<exists>r. gen_loop cfg ask t ((0, temp) # rest) acc = Inl r) \<longleftrightarrow> (\<exists>e. ask temp True = Inl e)"
  if "\<forall>(j, x)\<in>set rest. j > 0"
proof -
  have r: "\<exists>acc'. gen_loop cfg ask t rest acc2 = Inr acc'" for acc2
    by (rule gen_loop_raises [of 1]) (use that in auto)
  have nr: "gen_loop cfg ask t rest acc2 \<noteq> Inl x" for acc2 x
    using r [of acc2] by auto
  show ?thesis by (cases "ask temp True") (auto simp: Let_def nr)
qed

lemma generator_multi_raises:
  "(\<exists>r. generator_multi cfg ask t s = Inl r) \<longleftrightarrow> (\<exists>e. ask 0 True = Inl e)"
proof -
  have "(\<exists>r. generator_multi cfg ask t s = Inl r) \<longleftrightarrow>
      (\<exists>r. gen_loop cfg ask t temperatures
        \<lparr>ga_cands = [], ga_raws = [], ga_usage = or_default zero_usage (s_token_usage s),
         ga_tlog = s_tlog s\<rparr> = Inl r)"
    by (auto simp: generator_multi_def Let_def split: sum.splits list.splits)
  then show ?thesis
    unfolding temperatures_def by (subst (asm) gen_loop_first) simp_all
qed

lemma generator_single_raises:
  "(\<exists>r. generator_single cfg ask t s = Inl r) \<longleftrightarrow> (\<exists>e. ask 0 True = Inl e)"
  by (auto simp: generator_single_def Let_def split: sum.split)

lemma generator_multi_result:
  assumes "generator_multi cfg ask t s = Inr s'"
  obtains cs where "s_candidate_sqls s' = Some cs" and "length cs \<le> 3" and "cands_ok ask cs"
    and "s_sql s' = Some (case cs of [] \<Rightarrow> [] | c # _ \<Rightarrow> c)" and "s_last_sql s' = Some []"
    and "s_last_error s' = Some (if cs = [] then ''All generation attempts returned empty SQL.'' else [])"
proof -
  let ?acc = "\<lparr>ga_cands = [], ga_raws = [], ga_usage = or_default zero_usage (s_token_usage s),
              ga_tlog = s_tlog s\<rparr> :: gen_acc"
  obtain acc where acc: "gen_loop cfg ask t temperatures ?acc = Inr acc"
    using assms by (auto simp: generator_multi_def split: sum.splits)
  have ok: "cands_ok ask (ga_cands acc) \<and> length (ga_cands acc) \<le> 3"
    using gen_loop_cands [OF acc] by (simp add: cands_ok_def temperatures_def)
  show thesis
    using assms acc ok
    by (intro that [of "ga_cands acc"])
       (auto simp: generator_multi_def Let_def set_latency_def tlog_do_def split: list.splits)
qed

lemma generator_node_keeps:
  assumes "generator_node cfg rules chat cb t s = Inr s'"
  shows "s_retry_count s' = s_retry_count s" and "s_max_retries s' = s_max_retries s"
    and "s_exec_result s' = s_exec_result s" and "s_semantic_feedback s' = s_semantic_feedback s"
    and "s_guard_issues s' = s_guard_issues s" and "s_last_sql s' = Some []"
    and "s_database_url s' = s_database_url s" and "\<exists>q. s_sql s' = Some q"
    and "s_question s' = s_question s"
  using assms
  by (auto simp: generator_node_def generator_single_def generator_multi_def Let_def
      set_latency_def tlog_do_def split: sum.splits if_splits list.splits)

subsection \<open>Properties\<close>

text \<open>C10: On a retry, a generator node that returns leaves at most three candidates; they are not
  empty, pairwise different after normalisation of blanks and case, each is the query of a
  reply of the model, the current query is the first of them (empty if there is none), and the
  correction feedback of the previous round is cleared.\<close>

theorem generator_candidates:
  assumes "generator_node cfg rules chat cb t s = Inr s'" and "0 < or_default 0 (s_retry_count s)"
  shows "length (or_default [] (s_candidate_sqls s')) \<le> 3 \<and>
    distinct (map normalize_sql (or_default [] (s_candidate_sqls s'))) \<and>
    list_all (\<lambda>c. c \<noteq> [] \<and> (\<exists>temp stream g.
        generate_one cfg rules chat (gen_request_of s) temp stream = Inr g \<and> go_sql g = c))
      (or_default [] (s_candidate_sqls s')) \<and>
    s_sql s' = Some (case or_default [] (s_candidate_sqls s') of [] \<Rightarrow> [] | c # _ \<Rightarrow> c) \<and>
    s_last_sql s' = Some []"
proof -
  let ?s1 = "tlog_do (node_enter (t 1) ''generator'' [(''question_len'', PInt (int (length (s_question s))))]) s"
  have "generator_multi cfg (\<lambda>temp first. generate_one cfg rules chat (gen_request_of s) temp (cb \<and> first))
      t ?s1 = Inr s'"
    using assms by (simp add: generator_node_def Let_def)
  then show ?thesis
    by (rule generator_multi_result) (fastforce simp: cands_ok_def list_all_iff)
qed

definition demo_reply :: "string \<Rightarrow> llm_reply" where
  "demo_reply q = \<lparr>lr_content = ticks @ ''sql'' @ nl @ q @ nl @ ticks,
     lr_usage = [(''prompt_tokens'', 900), (''completion_tokens'', 20), (''total_tokens'', 920)]\<rparr>"

text \<open>A model that answers the same query at the first two temperatures.\<close>

definition demo_llm :: llm where
  "demo_llm = \<lparr>llm_invoke = (\<lambda>sys user temp. Inr (demo_reply
       (if temp = 6 / 10 then ''SELECT 2'' else ''SELECT 1''))), llm_stream = (\<lambda>sys user temp. Inr [])\<rparr>"

definition demo_cfg :: config where
  "demo_cfg = \<lparr>cfg_sql_dialect = ''sqlite'', cfg_llm_model = ''deepseek-chat''\<rparr>"

text \<open>From a reply that holds one fenced SQL block, \<open>extract_sql\<close> returns exactly the text of
  the block without surrounding white space, whatever prose comes before and after it.\<close>

theorem extract_sql_fenced:
  assumes "CHR 0x60 \<notin> set u" and "CHR 0x60 \<notin> set q"
  shows "extract_sql (u @ ticks @ ''sql'' @ nl @ q @ nl @ ticks @ v) = strip q"
proof -
  let ?w = "ticks @ ''sql''"
  let ?s = "nl @ q @ nl @ ticks @ v"
  let ?x = "takeWhile is_space_char ?s" and ?y = "dropWhile is_space_char ?s"
  have sp: "is_space_char CHR 0x0A" "\<not> is_space_char CHR 0x60"
    by (simp_all add: is_space_char_def ord_of_def)
  define g where "g = dropWhile is_space_char (q @ nl)"
  have y: "?y = g @ ticks @ v"
    using sp by (auto simp: g_def nl_def ticks_def dropWhile_append)
  have sg: "strip g = strip q"
    by (simp add: g_def nl_def strip_snoc_space [OF sp(1)])
  have "set g \<subseteq> set q \<union> {CHR 0x0A}"
    unfolding g_def nl_def by (auto dest: set_dropWhileD)
  then have f: "find_sub ticks ?y = Some (length g)"
    using assms(2) by (subst y, intro find_sub_after) (auto simp: ticks_def)
  have m: "\<exists>more. rx_ms rx_sql_block (RxSt pre (?w @ ?s) []) =
      RxSt (rev ticks @ rev g @ rev ?x @ rev ?w @ pre) v [(1, g)] # more" for pre
  proof -
    obtain m1 where m1: "rx_ms (rstar rws) (RxSt (rev ?w @ pre) ?s []) =
        RxSt (rev ?x @ rev ?w @ pre) ?y [] # m1"
      using star_greedy_cls [of ?s "length ?s" is_space_char "rev ?w @ pre" "[]"]
      by (auto simp: rstar_def rws_def)
    obtain m2 where m2: "rx_ms (rseq [RGrp 1 (rlazy rany), rlit ticks]) (RxSt (rev ?x @ rev ?w @ pre) ?y [])
        = RxSt (rev ticks @ rev g @ rev ?x @ rev ?w @ pre) v [(1, g)] # m2"
      using lazy_until_first [OF f, of 1 "rev ?x @ rev ?w @ pre" "[]"] by (auto simp: y)
    obtain m3 where m3: "rx_ms (RSeq (rstar rws) (rseq [RGrp 1 (rlazy rany), rlit ticks]))
        (RxSt (rev ?w @ pre) ?s []) = RxSt (rev ticks @ rev g @ rev ?x @ rev ?w @ pre) v [(1, g)] # m3"
      using seq_first [OF m1 m2] by blast
    show ?thesis
      using rlit_ci_first [of ?w pre ?s "[]"] m3 unfolding rx_sql_block_def rseq_simps by simp
  qed
  have hit: "\<exists>mt. match_at rx_sql_block pre (?w @ ?s) = Some mt \<and> m_group 1 mt = g" for pre
    using m [of pre] by (auto simp: match_at_def m_group_def mk_match_def)
  have "lower_char c \<noteq> lower_char CHR 0x60" if "c \<in> set u" for c
  proof
    assume e: "lower_char c = lower_char CHR 0x60"
    have bq: "lower_char CHR 0x60 = CHR 0x60" by code_simp
    show False
    proof (cases "is_upper_char c")
      case True
      then have "ord_of (lower_char c) = ord_of c + 32" and "65 \<le> ord_of c"
        by (simp_all add: lower_char_def is_upper_char_def)
      moreover have "ord_of CHR 0x60 = 96" by (simp add: ord_of_def)
      ultimately show False using e bq by simp
    next
      case False
      then show False using e bq that assms(1) by (simp add: lower_char_def)
    qed
  qed
  then have "match_at rx_sql_block pre (c # s) = None" if "c \<in> set u" for c s pre
    using that rlit_ci_fail [of "c # s" "CHR 0x60" "[CHR 0x60, CHR 0x60] @ ''sql''" pre "[]"]
    by (simp add: match_at_def rx_sql_block_def ticks_def)
  then have "re_search rx_sql_block (u @ ?w @ ?s) = search_from rx_sql_block (rev u) (?w @ ?s)"
    unfolding re_search_def by (subst search_skip) auto
  then obtain mt where "re_search rx_sql_block (u @ ?w @ ?s) = Some mt" and "m_group 1 mt = g"
    using hit [of "rev u"] search_hit by fastforce
  then show ?thesis using sg by (simp add: extract_sql_def)
qed

theorem extract_sql_fenced_witness:
  "extract_sql (''Here it is: '' @ ticks @ ''sql'' @ nl @ ''SELECT 1'' @ nl @ ticks @ ''. Done.'') = ''SELECT 1''"
proof -
  have "strip ''SELECT 1'' = ''SELECT 1''" by code_simp
  then show ?thesis using extract_sql_fenced [of "''Here it is: ''" "''SELECT 1''" "''. Done.''"] by simp
qed

lemma demo_generate_one:
  assumes "gq_subs rq = []"
  shows "generate_one demo_cfg [] demo_llm rq temp False =
    Inr (let q = (if temp = 6 / 10 then ''SELECT 2'' else ''SELECT 1'')
         in \<lparr>go_sql = q, go_raw = lr_content (demo_reply q),
             go_usage = extract_token_usage (lr_usage (demo_reply q)), go_tokens = []\<rparr>)"
proof -
  obtain sys where sys: "generator_system [] (effective_dialect demo_cfg (gq_dialect rq)) = Inr sys"
    using generator_system_ok by blast
  have "extract_sql (lr_content (demo_reply ''SELECT 1'')) = ''SELECT 1''"
    and "extract_sql (lr_content (demo_reply ''SELECT 2'')) = ''SELECT 2''" by code_simp+
  with sys assms show ?thesis
    by (simp add: generate_one_def Let_def user_parts_def sub_section_def demo_llm_def)
qed

theorem generator_candidates_witness:
  "\<exists>s'. generator_node demo_cfg [] demo_llm False (\<lambda>i. \<lparr>r_ms = int i, r_ts = ''12:00:00''\<rparr>)
       ((init_state ''How many users are there?'')\<lparr>s_retry_count := Some 1\<rparr>) = Inr s'
     \<and> s_candidate_sqls s' = Some [''SELECT 1''] \<and> length (or_default [] (s_candidate_sqls s')) \<le> 3"
proof -
  have "\<exists>s'. generator_node demo_cfg [] demo_llm False (\<lambda>i. \<lparr>r_ms = int i, r_ts = ''12:00:00''\<rparr>)
       ((init_state ''How many users are there?'')\<lparr>s_retry_count := Some 1\<rparr>) = Inr s'
     \<and> s_candidate_sqls s' = Some [''SELECT 1'']"
    by (simp add: generator_node_def Let_def gen_request_of_def init_state_def demo_generate_one
        generator_multi_def temperatures_def tlog_do_def set_latency_def)
  then show ?thesis using generator_candidates by (fastforce simp: init_state_def)
qed

text \<open>The generator node raises exactly when its first request raises (the prompt itself never
  fails to format); a failure at a higher temperature only loses that candidate.\<close>

theorem generator_raises_iff:
  "(\<exists>r. generator_node cfg rules chat cb t s = Inl r) \<longleftrightarrow>
   (\<exists>e. generate_one cfg rules chat (gen_request_of s) 0 cb = Inl e)"
  by (cases "0 < or_default 0 (s_retry_count s)")
     (simp_all add: generator_node_def Let_def generator_multi_raises generator_single_raises
        del: split_paired_Ex)

end
