(* ===== verification/Voter.thy ===== *)
theory Voter
  imports Generator Executor "HOL-Library.Multiset"
begin

text \<open>
  \<open>agent/nodes/voter.py\<close>: the candidates are executed, grouped by their normalised rows, and the
  first candidate of the largest group wins; the model votes when there is no database, when
  every candidate failed, and on a tie. The order in which parallel executions finish is a
  parameter, as are the executions themselves.

  The text \<open>str(sorted(norm))\<close> that the source uses as a hash identifies the sorted normalised
  rows, and is never the word \<open>EMPTY\<close>; the model uses the rows themselves.
\<close>

datatype result_hash = HEmpty | HRows "ncell list list"

definition normalize :: "row list \<Rightarrow> result_hash py" where
  "normalize rows =
     (if rows = [] then Inr HEmpty
      else py_bind (sorted_rows (map (map norm_cell) rows)) (\<lambda>srt. Inr (HRows srt)))"

record vres =
  v_sql :: string
  v_success :: bool
  v_result :: exec_result
  v_hash :: "result_hash option"

subsection \<open>The vote of the model\<close>

definition candidate_part :: "exec_result list \<Rightarrow> nat \<Rightarrow> string \<Rightarrow> string list" where
  "candidate_part execs i sql =
     [''### Candidate '' @ show_nat i @ nl @ ticks @ ''sql'' @ nl @ sql @ nl @ ticks]
     @ (if i < length execs
        then [''Result: row_count='' @ show_int (er_row_count (execs ! i)) @ '', columns=''
              @ py_repr (PList (map PStr (take 10 (or_default [] (er_columns (execs ! i))))))]
        else [])"

definition vote_prompt :: "string \<Rightarrow> string \<Rightarrow> string list \<Rightarrow> exec_result list \<Rightarrow> string" where
  "vote_prompt question schema_text candidates execs =
     join (nl @ nl)
       ([section_of ''QUESTION'' question]
        @ (if schema_text \<noteq> [] then [section_of ''SCHEMA'' (take 3000 schema_text)] else [])
        @ [''## CANDIDATES'']
        @ concat (map (\<lambda>(i, sql). candidate_part execs i sql) (enumerate 0 candidates))
        @ [nl @ ''Compare the candidates. Return ONLY the integer index of the best SQL. ''
             @ ''Best = logically correct, answers the question precisely, handles edge cases. ''
             @ ''Reply with a single digit.''])"

definition vote_system :: string where
  "vote_system = ''You are a SQL reviewer. Compare candidates and pick the best one. Reply with a single integer.''"

text \<open>The index in a reply: the first digits, if they are an index of a candidate.\<close>

definition vote_index :: "string \<Rightarrow> nat \<Rightarrow> nat option" where
  "vote_index content n =
     (case re_search (rplus rd) content of
        None \<Rightarrow> None
      | Some m \<Rightarrow> let idx = parse_nat (m_text m) in if idx < n then Some idx else None)"

definition llm_vote ::
  "config \<Rightarrow> llm \<Rightarrow> clock \<Rightarrow> nat \<Rightarrow> string \<Rightarrow> string \<Rightarrow> string list \<Rightarrow> exec_result list
    \<Rightarrow> tracer option \<Rightarrow> string option \<times> tracer option" where
  "llm_vote cfg chat t k question schema_text candidates execs tlog =
     (case candidates of
        [] \<Rightarrow> (None, tlog)
      | [c] \<Rightarrow> (Some c, tlog)
      | c # _ \<Rightarrow>
          let tlog = map_option (node_enter (t k) ''voter_llm''
                       [(''candidate_count'', PInt (int (length candidates)))]) tlog
          in case llm_invoke chat vote_system
                    (vote_prompt question schema_text candidates execs) 0 of
               Inl e \<Rightarrow>
                 (Some c, map_option (\<lambda>tr.
                    node_exit (t (k + 2)) ''voter_llm'' [(''error'', PStr (take 120 (exc_msg e)))] ''success''
                      (llm_error (t (k + 1)) (cfg_llm_model cfg) (exc_type e) (take 300 (exc_msg e)) 0
                        ''voter'' tr)) tlog)
             | Inr response \<Rightarrow>
                 (case vote_index (lr_content response) (length candidates) of
                    Some idx \<Rightarrow> Some (candidates ! idx) | None \<Rightarrow> Some c,
                  map_option (\<lambda>tr.
                    node_exit (t (k + 4)) ''voter_llm''
                      [(''raw'', PStr (take 60 (strip (lr_content response))))] ''success''
                      (llm_call (t (k + 3)) (cfg_llm_model cfg) (usage_dict (lr_usage response))
                        (since t (k + 1) (k + 2)) ''voter'' tr)) tlog))"

lemma llm_vote_member:
  assumes "candidates \<noteq> []"
  shows "\<exists>c\<in>set candidates. fst (llm_vote cfg chat t k q sch candidates execs tlog) = Some c"
proof -
  obtain a as where c: "candidates = a # as" using assms by (cases candidates) auto
  have "idx < length candidates \<Longrightarrow> candidates ! idx \<in> set candidates" for idx by simp
  then show ?thesis
    by (cases as)
       (auto simp: llm_vote_def c Let_def vote_index_def split: sum.split option.split)
qed

subsection \<open>Executing the candidates\<close>

definition future_error :: exec_result where
  "future_error = \<lparr>er_success = False, er_data = None, er_columns = None,
     er_error = Some ''voter future error'', er_error_type = None, er_row_count = 0,
     er_elapsed_ms = None, er_sql = None, er_voted_by = None\<rparr>"

definition vres_of :: "string \<Rightarrow> exec_result \<Rightarrow> vres py" where
  "vres_of s r =
     (if er_success r
      then py_bind (normalize (or_default [] (er_data r))) (\<lambda>h.
             Inr \<lparr>v_sql = s, v_success = True, v_result = r, v_hash = Some h\<rparr>)
      else Inr \<lparr>v_sql = s, v_success = False, v_result = r, v_hash = None\<rparr>)"

definition log_exec :: "reading \<Rightarrow> exec_result \<Rightarrow> tracer \<Rightarrow> tracer" where
  "log_exec now r = sql_exec now (er_success r) (er_row_count r) (or_default 0 (er_elapsed_ms r))
     (or_default [] (er_error r))"

text \<open>The results in the order the executions finish; an incomparable result raises.\<close>

fun collect ::
  "(string \<Rightarrow> exec_result py) \<Rightarrow> clock \<Rightarrow> nat \<Rightarrow> string list \<Rightarrow> tracer option
    \<Rightarrow> (py_exc \<times> tracer option) + (vres list \<times> tracer option)" where
  "collect run t k [] tlog = Inr ([], tlog)"
| "collect run t k (s # ss) tlog =
     (case run s of
        Inl e \<Rightarrow> Inl (e, tlog)
      | Inr r \<Rightarrow>
          (case vres_of s r of
             Inl e \<Rightarrow> Inl (e, tlog)
           | Inr v \<Rightarrow>
               (case collect run t (Suc k) ss (map_option (log_exec (t k) r) tlog) of
                  Inl e \<Rightarrow> Inl e
                | Inr (vs, tlog') \<Rightarrow> Inr (v # vs, tlog'))))"

definition caught :: "(string \<Rightarrow> exec_result py) \<Rightarrow> string \<Rightarrow> exec_result py" where
  "caught run s = (case run s of Inl e \<Rightarrow> Inr future_error | Inr r \<Rightarrow> Inr r)"

fun index_of :: "string list \<Rightarrow> string \<Rightarrow> nat" where
  "index_of [] x = 0"
| "index_of (y # ys) x = (if y = x then 0 else Suc (index_of ys x))"

definition exec_candidates ::
  "(string \<Rightarrow> exec_result py) \<Rightarrow> clock \<Rightarrow> string list \<Rightarrow> string list \<Rightarrow> tracer option
    \<Rightarrow> (py_exc \<times> tracer option) + (vres list \<times> tracer option)" where
  "exec_candidates run t sqls fin tlog =
     (if length sqls \<le> 1 then collect run t 10 sqls tlog
      else (case collect (caught run) t 10 fin tlog of
              Inl e \<Rightarrow> Inl e
            | Inr (vs, tlog') \<Rightarrow> Inr (sort_key (\<lambda>v. index_of sqls (v_sql v)) vs, tlog')))"

subsection \<open>The decision\<close>

definition counter :: "'a list \<Rightarrow> ('a \<times> nat) list" where
  "counter xs = map (\<lambda>h. (h, length (filter ((=) h) xs))) (dedup_by id [] xs)"

definition most_common :: "'a list \<Rightarrow> ('a \<times> nat) list" where
  "most_common xs = sort_desc snd (counter xs)"

definition vote_result :: "string \<Rightarrow> exec_result" where
  "vote_result by = \<lparr>er_success = True, er_data = Some [], er_columns = Some [], er_error = Some [],
     er_error_type = None, er_row_count = 0, er_elapsed_ms = None, er_sql = None,
     er_voted_by = Some by\<rparr>"

datatype decision =
    Single vres
  | Majority vres nat
  | TieBreak
  | AllFailed string

definition fail_reason :: "vres list \<Rightarrow> string" where
  "fail_reason results =
     (if list_ex (\<lambda>r. str_in ''timed out'' (or_default [] (er_error (v_result r)))) results
      then ''timeout'' else ''exec_fail'')"

text \<open>Which branch of the node applies to the collected results.\<close>

definition decide :: "vres list \<Rightarrow> decision" where
  "decide results =
     (case filter v_success results of
        [] \<Rightarrow> AllFailed (fail_reason results)
      | [r] \<Rightarrow> Single r
      | successful \<Rightarrow>
          (case most_common (map v_hash successful) of
             (winner_hash, n) # _ \<Rightarrow>
               if 2 \<le> n
               then (case find (\<lambda>r. v_hash r = winner_hash) successful of
                       Some r \<Rightarrow> Majority r n | None \<Rightarrow> TieBreak)
               else TieBreak
           | [] \<Rightarrow> TieBreak))"

definition finish :: "clock \<Rightarrow> string \<Rightarrow> exec_result \<Rightarrow> agent_state \<Rightarrow> agent_state" where
  "finish t sql r s =
     set_latency ''voter'' (since t 0 90)
       (s\<lparr>s_sql := Some sql, s_exec_result := Some (Some r)\<rparr>)"

definition finish_with :: "clock \<Rightarrow> vres \<Rightarrow> agent_state \<Rightarrow> agent_state" where
  "finish_with t r s = finish t (v_sql r) ((v_result r)\<lparr>er_sql := Some (v_sql r)\<rparr>) s"

definition voter_exit :: "clock \<Rightarrow> pydict \<Rightarrow> tracer option \<Rightarrow> tracer option" where
  "voter_exit t meta tlog = map_option (node_exit (t 80) ''voter'' meta ''success'') tlog"

definition voter_decide ::
  "config \<Rightarrow> llm \<Rightarrow> clock \<Rightarrow> string list \<Rightarrow> vres list \<Rightarrow> tracer option \<Rightarrow> agent_state \<Rightarrow> agent_state" where
  "voter_decide cfg chat t sqls results tlog s =
     (let sql = or_default [] (s_sql s);
          schema_text = or_default [] (s_schema_text s);
          question = s_question s;
          successful = filter v_success results;
          n = PInt (int (length successful))
      in case decide results of
           AllFailed reason \<Rightarrow>
             let tlog = voter_exit t [(''winner'', PStr ''llm_fallback''), (''reason'', PStr reason)] tlog;
                 (winner, tlog) = llm_vote cfg chat t 81 question schema_text sqls [] tlog
             in finish t (case winner of Some w \<Rightarrow> if w \<noteq> [] then w else sql | None \<Rightarrow> sql)
                  (vote_result (''llm_'' @ reason)) (s\<lparr>s_tlog := tlog\<rparr>)
         | Single r \<Rightarrow>
             finish_with t r (s\<lparr>s_tlog := voter_exit t
               [(''winner'', PStr ''single''), (''successful_count'', PInt 1)] tlog\<rparr>)
         | Majority r votes_n \<Rightarrow>
             finish_with t r (s\<lparr>s_tlog := voter_exit t
               [(''winner'', PStr ''majority''), (''successful_count'', n),
                (''hash_count'', PInt (int votes_n))] tlog\<rparr>)
         | TieBreak \<Rightarrow>
             let (winner, tlog) = llm_vote cfg chat t 70 question schema_text
                   (map v_sql successful) (map v_result successful) tlog
             in (case find (\<lambda>r. Some (v_sql r) = winner) successful of
                   Some r \<Rightarrow> finish_with t r (s\<lparr>s_tlog := voter_exit t
                     [(''winner'', PStr ''tiebreak_llm''), (''successful_count'', n)] tlog\<rparr>)
                 | None \<Rightarrow> finish_with t (hd successful) (s\<lparr>s_tlog := voter_exit t
                     [(''winner'', PStr ''tiebreak_fallback''), (''successful_count'', n)] tlog\<rparr>)))"

definition voter_sqls :: "agent_state \<Rightarrow> string list" where
  "voter_sqls s =
     (let candidate_sqls = or_default [] (s_candidate_sqls s)
      in if candidate_sqls \<noteq> [] then candidate_sqls else [or_default [] (s_sql s)])"

definition voter_node ::
  "config \<Rightarrow> llm \<Rightarrow> (string \<Rightarrow> exec_result py) \<Rightarrow> string list \<Rightarrow> clock \<Rightarrow> agent_state \<Rightarrow> node_out" where
  "voter_node cfg chat run fin t s =
     (let sql = or_default [] (s_sql s);
          sqls = voter_sqls s;
          s1 = tlog_do (node_enter (t 1) ''voter''
                 [(''candidate_count'', PInt (int (length sqls))), (''has_db'', PBool (db_url s \<noteq> None))]) s
      in if db_url s = None then
           let (winner, tlog) = llm_vote cfg chat t 2 (s_question s) (or_default [] (s_schema_text s))
                 sqls [] (s_tlog s1)
           in Inr (finish t (case winner of Some w \<Rightarrow> if w \<noteq> [] then w else sql | None \<Rightarrow> sql)
                (vote_result ''llm_nodb'') (s1\<lparr>s_tlog := tlog\<rparr>))
         else
           (case exec_candidates run t sqls fin (s_tlog s1) of
              Inl e \<Rightarrow> Inl e
            | Inr (results, tlog) \<Rightarrow> Inr (voter_decide cfg chat t sqls results tlog s1)))"

subsection \<open>Facts about the decision\<close>

lemma counter_counts: "(h, n) \<in> set (counter xs) \<longleftrightarrow> h \<in> set xs \<and> n = length (filter ((=) h) xs)"
  using set_dedup_by [of id "[]" xs] by (auto simp: counter_def)

lemma most_common_set [simp]: "set (most_common xs) = set (counter xs)"
  by (simp add: most_common_def)

text \<open>The first entry of \<open>most_common\<close> has the largest count.\<close>

lemma most_common_max:
  assumes "most_common xs = (h, n) # rest" and "h' \<in> set xs"
  shows "length (filter ((=) h') xs) \<le> n"
proof -
  let ?n' = "length (filter ((=) h') xs)"
  have "sorted_wrt (\<lambda>a b. snd b \<le> snd a) ((h, n) # rest)"
    using sorted_sort_desc [of snd "counter xs"] assms(1) by (simp add: most_common_def)
  moreover have "(h', ?n') \<in> set ((h, n) # rest)"
    using assms counter_counts [of h' ?n' xs] most_common_set [of xs] by metis
  ultimately show ?thesis by auto
qed

lemma most_common_Nil [simp]: "most_common xs = [] \<longleftrightarrow> xs = []"
proof -
  have "most_common xs = [] \<longleftrightarrow> counter xs = []"
    using length_sort_desc [of snd "counter xs"] unfolding most_common_def by (metis length_0_conv)
  then show ?thesis by (cases xs) (auto simp: counter_def)
qed

text \<open>The votes a result has among the successful results.\<close>

definition votes :: "vres list \<Rightarrow> vres \<Rightarrow> nat" where
  "votes results r = length (filter (\<lambda>r'. v_success r' \<and> v_hash r' = v_hash r) results)"

lemma votes_filter:
  "votes results r = length (filter ((=) (v_hash r)) (map v_hash (filter v_success results)))"
  by (induction results) (auto simp: votes_def)

text \<open>The result \<open>r\<close> is the first successful one of its group.\<close>

definition first_of_group :: "vres list \<Rightarrow> vres \<Rightarrow> bool" where
  "first_of_group results r \<longleftrightarrow> find (\<lambda>r'. v_hash r' = v_hash r) (filter v_success results) = Some r"

lemma decide_single: "decide results = Single r \<Longrightarrow> filter v_success results = [r]"
  by (auto simp: decide_def Let_def split: list.splits prod.splits if_splits option.splits)

lemma decide_failed: "decide results = AllFailed reason \<longleftrightarrow>
    filter v_success results = [] \<and> reason = fail_reason results"
  by (auto simp: decide_def Let_def split: list.splits prod.splits if_splits option.splits)

lemma decide_majority:
  assumes "decide results = Majority r n"
  shows "n = votes results r" and "2 \<le> n" and "first_of_group results r"
    and "\<forall>r'\<in>set (filter v_success results). votes results r' \<le> n"
proof -
  let ?sc = "filter v_success results"
  obtain h rest where mc: "most_common (map v_hash ?sc) = (h, n) # rest" and n: "2 \<le> n"
    and f: "find (\<lambda>r. v_hash r = h) ?sc = Some r"
    using assms by (auto simp: decide_def Let_def split: list.splits prod.splits if_splits option.splits)
  have h: "v_hash r = h" using f by (auto simp: find_Some_iff)
  have "(h, n) \<in> set (counter (map v_hash ?sc))" using mc most_common_set by (metis list.set_intros(1))
  then have "n = length (filter ((=) h) (map v_hash ?sc))" by (simp add: counter_counts)
  then show "n = votes results r" by (simp add: votes_filter h)
  show "2 \<le> n" by (rule n)
  show "first_of_group results r" using f by (simp add: first_of_group_def h)
  show "\<forall>r'\<in>set ?sc. votes results r' \<le> n"
    unfolding votes_filter using most_common_max [OF mc] by auto
qed

lemma decide_tie:
  assumes "decide results = TieBreak"
  shows "filter v_success results \<noteq> []" and "\<forall>r\<in>set (filter v_success results). votes results r \<le> 1"
proof -
  let ?sc = "filter v_success results"
  show ne: "?sc \<noteq> []" using assms by (auto simp: decide_def)
  then obtain h n rest where mc: "most_common (map v_hash ?sc) = (h, n) # rest"
    by (metis list.exhaust list.map_disc_iff most_common_Nil surj_pair)
  have "(h, n) \<in> set (counter (map v_hash ?sc))" using mc most_common_set by (metis list.set_intros(1))
  then have "h \<in> set (map v_hash ?sc)" by (simp add: counter_counts)
  then have "find (\<lambda>r. v_hash r = h) ?sc \<noteq> None" by (auto simp: find_None_iff)
  then have "n \<le> 1"
    using assms mc by (auto simp: decide_def Let_def split: list.splits if_splits option.splits)
  then show "\<forall>r\<in>set ?sc. votes results r \<le> 1"
    unfolding votes_filter using most_common_max [OF mc] by (auto intro: le_trans)
qed

subsection \<open>Facts about the collected results\<close>

definition vres_py :: "(string \<Rightarrow> exec_result py) \<Rightarrow> string \<Rightarrow> vres py" where
  "vres_py run s = py_bind (run s) (vres_of s)"

lemma vres_of_ok: "vres_of s r = Inr v \<Longrightarrow> v_sql v = s \<and> v_result v = r \<and> v_success v = er_success r"
  by (auto simp: vres_of_def py_bind_Inr_iff split: if_splits)

lemma vres_py_ok: "vres_py run s = Inr v \<Longrightarrow> v_sql v = s \<and> v_success v = er_success (v_result v)
    \<and> run s = Inr (v_result v)"
  using vres_of_ok by (fastforce simp: vres_py_def py_bind_Inr_iff)

text \<open>Apart from the log, \<open>collect\<close> maps the execution over the candidates.\<close>

definition without_log :: "(py_exc \<times> tracer option) + ('a \<times> tracer option) \<Rightarrow> 'a py" where
  "without_log r = (case r of Inl (e, _) \<Rightarrow> Inl e | Inr (x, _) \<Rightarrow> Inr x)"

lemma without_log_simps [simp]:
  "without_log (Inl (e, tr)) = Inl e"
  "without_log (Inr (x, tr)) = Inr x"
  by (simp_all add: without_log_def)

lemma collect_py_map: "py_map (vres_py run) ss = without_log (collect run t k ss tlog)"
proof (induction ss arbitrary: k tlog)
  case (Cons s ss)
  show ?case
  proof (cases "run s")
    case (Inl e)
    then show ?thesis by (simp add: vres_py_def)
  next
    case (Inr r)
    show ?thesis
    proof (cases "vres_of s r")
      case (Inl e)
      then show ?thesis using Inr by (simp add: vres_py_def)
    next
      case vr: (Inr v)
      show ?thesis
        using Cons.IH [of "Suc k" "map_option (log_exec (t k) r) tlog"] Inr vr
        by (cases "collect run t (Suc k) ss (map_option (log_exec (t k) r) tlog)")
           (auto simp: vres_py_def split: prod.splits)
    qed
  qed
qed simp

lemma py_map_ok: "py_map f xs = Inr ys \<longleftrightarrow> list_all2 (\<lambda>x y. f x = Inr y) xs ys"
proof (induction xs arbitrary: ys)
  case (Cons x xs)
  then show ?case by (cases ys) (auto simp: py_bind_Inr_iff list_all2_Cons1)
qed (auto simp: list_all2_Nil)

lemma py_map_raises: "(\<exists>e. py_map f xs = Inl e) \<longleftrightarrow> (\<exists>x\<in>set xs. \<exists>e. f x = Inl e)"
proof (induction xs)
  case (Cons x xs)
  then show ?case by (cases "f x"; cases "py_map f xs") auto
qed simp

lemma py_map_raised: "py_map f xs = Inl e \<Longrightarrow> \<exists>x\<in>set xs. f x = Inl e"
proof (induction xs)
  case (Cons x xs)
  then show ?case by (cases "f x"; cases "py_map f xs") auto
qed simp

lemma collected:
  assumes "collect run t k ss tlog = Inr (vs, tr)"
  shows "map v_sql vs = ss" and "\<And>v. v \<in> set vs \<Longrightarrow> v_success v = er_success (v_result v)"
    and "\<And>v. v \<in> set vs \<Longrightarrow> run (v_sql v) = Inr (v_result v)"
proof -
  have l: "list_all2 (\<lambda>s v. vres_py run s = Inr v) ss vs"
    using collect_py_map [of run ss t k tlog] assms by (simp add: py_map_ok)
  then show "map v_sql vs = ss"
    by (induction rule: list_all2_induct) (auto dest: vres_py_ok)
  have v: "vres_py run (v_sql v) = Inr v" if "v \<in> set vs" for v
    using l that by (induction rule: list_all2_induct) (auto dest: vres_py_ok)
  show "v_success v = er_success (v_result v)" if "v \<in> set vs" for v
    using vres_py_ok [OF v [OF that]] by blast
  show "run (v_sql v) = Inr (v_result v)" if "v \<in> set vs" for v
    using vres_py_ok [OF v [OF that]] by blast
qed

lemma exec_candidates_ok:
  assumes "exec_candidates run t sqls fin tlog = Inr (vs, tr)" and "v \<in> set vs"
  shows "v_success v = er_success (v_result v)"
    and "v_sql v \<in> set sqls \<union> set fin"
proof -
  obtain ss run' k us where c: "collect run' t k ss tlog = Inr (us, tr)" and u: "set us = set vs"
    and ss: "ss = sqls \<or> ss = fin"
    using assms(1) by (auto simp: exec_candidates_def split: if_splits sum.splits)
  show "v_success v = er_success (v_result v)" using collected(2) [OF c] assms(2) u by simp
  have "v_sql v \<in> set ss" using collected(1) [OF c] assms(2) u by (metis image_eqI list.set_map)
  then show "v_sql v \<in> set sqls \<union> set fin" using ss by auto
qed

lemma finish_simps [simp]:
  "s_sql (finish t q r s) = Some q"
  "s_exec_result (finish t q r s) = Some (Some r)"
  "s_sql (finish_with t v s) = Some (v_sql v)"
  "s_exec_result (finish_with t v s) = Some (Some ((v_result v)\<lparr>er_sql := Some (v_sql v)\<rparr>))"
  by (simp_all add: finish_def finish_with_def set_latency_def)

lemma voter_decide_success:
  assumes "\<And>v. v \<in> set results \<Longrightarrow> v_success v = er_success (v_result v)"
  shows "\<exists>r. s_exec_result (voter_decide cfg chat t sqls results tlog s) = Some (Some r) \<and> er_success r"
proof (cases "decide results")
  case (Single r)
  then have "r \<in> set results \<and> v_success r" using decide_single by (metis filter_eq_Cons_iff in_set_conv_decomp)
  then show ?thesis using assms Single by (auto simp: voter_decide_def Let_def)
next
  case (Majority r n)
  have "r \<in> set results \<and> v_success r"
    using decide_majority(3) [OF Majority] by (auto simp: first_of_group_def dest: find_in)
  then show ?thesis using assms Majority by (auto simp: voter_decide_def Let_def)
next
  case TieBreak
  let ?sc = "filter v_success results"
  obtain w tl where l: "llm_vote cfg chat t 70 (s_question s) (or_default [] (s_schema_text s))
      (map v_sql ?sc) (map v_result ?sc) tlog = (w, tl)" by fastforce
  have ok: "er_success (v_result r)" if "r \<in> set ?sc" for r
    using that assms by auto
  have "hd ?sc \<in> set ?sc" using decide_tie(1) [OF TieBreak] by (rule hd_in_set)
  with ok have hd_ok: "er_success (v_result (hd ?sc))" .
  show ?thesis
  proof (cases "find (\<lambda>r. Some (v_sql r) = w) ?sc")
    case None
    then show ?thesis using hd_ok by (simp add: voter_decide_def Let_def TieBreak l)
  next
    case (Some r)
    then have "er_success (v_result r)" using find_in ok by fastforce
    then show ?thesis using Some by (simp add: voter_decide_def Let_def TieBreak l)
  qed
next
  case (AllFailed reason)
  then show ?thesis
    by (auto simp: voter_decide_def Let_def vote_result_def split: prod.split)
qed

lemma voter_node_success:
  assumes "voter_node cfg chat run fin t s = Inr s'"
  shows "\<exists>r. s_exec_result s' = Some (Some r) \<and> er_success r"
proof (cases "db_url s = None")
  case True
  then show ?thesis
    using assms by (auto simp: voter_node_def Let_def vote_result_def split: prod.splits)
next
  case False
  then obtain vs tr where e: "exec_candidates run t (voter_sqls s) fin
      (s_tlog (tlog_do (node_enter (t 1) ''voter''
                 [(''candidate_count'', PInt (int (length (voter_sqls s)))), (''has_db'', PBool True)]) s))
      = Inr (vs, tr)"
    and s': "s' = voter_decide cfg chat t (voter_sqls s) vs tr (tlog_do (node_enter (t 1) ''voter''
                 [(''candidate_count'', PInt (int (length (voter_sqls s)))), (''has_db'', PBool True)]) s)"
    using assms by (auto simp: voter_node_def Let_def split: sum.splits prod.splits)
  show ?thesis unfolding s'
    by (rule voter_decide_success) (rule exec_candidates_ok(1) [OF e])
qed

text \<open>Where the result of the node comes from: a model's vote without execution, or the successful
  execution of the query the node stores.\<close>

lemma exec_candidates_source:
  assumes "exec_candidates run t sqls fin tlog = Inr (vs, tr)" and "v \<in> set vs" and "v_success v"
  shows "run (v_sql v) = Inr (v_result v)" and "er_success (v_result v)"
proof -
  show ok: "er_success (v_result v)" using exec_candidates_ok(1) [OF assms(1,2)] assms(3) by simp
  have "run (v_sql v) = Inr (v_result v) \<or> caught run (v_sql v) = Inr (v_result v)"
    using assms(1,2) collected(3) by (fastforce simp: exec_candidates_def split: if_splits sum.splits)
  then show "run (v_sql v) = Inr (v_result v)"
    using ok by (cases "run (v_sql v)") (auto simp: caught_def future_error_def dest: sym [of _ "v_result v"])
qed

definition voted_or_run :: "(string \<Rightarrow> exec_result py) \<Rightarrow> agent_state \<Rightarrow> bool" where
  "voted_or_run run s \<longleftrightarrow>
     (\<exists>by. s_exec_result s = Some (Some (vote_result by))) \<or>
     (\<exists>q r. run q = Inr r \<and> er_success r \<and> s_sql s = Some q
        \<and> s_exec_result s = Some (Some (r\<lparr>er_sql := Some q\<rparr>)))"

lemma voted_or_run_vote [simp]: "voted_or_run run (finish t q (vote_result by) s)"
  unfolding voted_or_run_def by auto

lemma voted_or_run_finish_with:
  "run (v_sql v) = Inr (v_result v) \<Longrightarrow> er_success (v_result v) \<Longrightarrow> voted_or_run run (finish_with t v s)"
  unfolding voted_or_run_def by simp

lemma voter_decide_source:
  assumes ok: "\<And>v. v \<in> set results \<Longrightarrow> v_success v \<Longrightarrow> run (v_sql v) = Inr (v_result v) \<and> er_success (v_result v)"
  shows "voted_or_run run (voter_decide cfg chat t sqls results tlog s)"
proof -
  have fw: "voted_or_run run (finish_with t v s')" if "v \<in> set (filter v_success results)" for v s'
    using ok [of v] that by (intro voted_or_run_finish_with) auto
  show ?thesis
  proof (cases "decide results")
    case (Single r)
    then have "r \<in> set (filter v_success results)" using decide_single by fastforce
    then show ?thesis using fw Single by (simp add: voter_decide_def Let_def)
  next
    case (Majority r n)
    have "r \<in> set (filter v_success results)"
      using decide_majority(3) [OF Majority] by (auto simp: first_of_group_def dest: find_in)
    then show ?thesis using fw Majority by (simp add: voter_decide_def Let_def)
  next
    case TieBreak
    have "hd (filter v_success results) \<in> set (filter v_success results)"
      using decide_tie(1) [OF TieBreak] by (rule hd_in_set)
    then show ?thesis using TieBreak fw
      by (auto simp: voter_decide_def Let_def simp del: set_filter filter_set split: prod.split option.split dest!: find_in)
  next
    case (AllFailed reason)
    then show ?thesis by (simp add: voter_decide_def Let_def split: prod.split)
  qed
qed

lemma voter_node_source:
  assumes "voter_node cfg chat run fin t s = Inr s'"
  shows "voted_or_run run s'"
proof (cases "db_url s = None")
  case True
  then show ?thesis using assms by (auto simp: voter_node_def Let_def split: prod.splits)
next
  case False
  then obtain vs tr where e: "exec_candidates run t (voter_sqls s) fin
      (s_tlog (tlog_do (node_enter (t 1) ''voter''
                 [(''candidate_count'', PInt (int (length (voter_sqls s)))), (''has_db'', PBool True)]) s))
      = Inr (vs, tr)"
    and s': "s' = voter_decide cfg chat t (voter_sqls s) vs tr (tlog_do (node_enter (t 1) ''voter''
                 [(''candidate_count'', PInt (int (length (voter_sqls s)))), (''has_db'', PBool True)]) s)"
    using assms by (auto simp: voter_node_def Let_def split: sum.splits prod.splits)
  show ?thesis unfolding s'
    by (rule voter_decide_source) (use exec_candidates_source [OF e] in blast)
qed

text \<open>The fields the node leaves alone.\<close>

lemma voter_decide_frame:
  "s_retry_count (voter_decide cfg chat t sqls rs tr s) = s_retry_count s"
  "s_max_retries (voter_decide cfg chat t sqls rs tr s) = s_max_retries s"
  "s_last_sql (voter_decide cfg chat t sqls rs tr s) = s_last_sql s"
  "s_last_error (voter_decide cfg chat t sqls rs tr s) = s_last_error s"
  "s_semantic_feedback (voter_decide cfg chat t sqls rs tr s) = s_semantic_feedback s"
  "s_semantic_pass (voter_decide cfg chat t sqls rs tr s) = s_semantic_pass s"
  "s_token_usage (voter_decide cfg chat t sqls rs tr s) = s_token_usage s"
  by (simp_all add: voter_decide_def finish_with_def finish_def set_latency_def Let_def
      split: decision.split prod.split option.split)

lemma voter_node_frame:
  assumes "voter_node cfg chat run fin t s = Inr s'"
  shows "s_retry_count s' = s_retry_count s" and "s_max_retries s' = s_max_retries s"
    and "s_last_sql s' = s_last_sql s" and "s_last_error s' = s_last_error s"
    and "s_semantic_feedback s' = s_semantic_feedback s" and "s_semantic_pass s' = s_semantic_pass s"
    and "s_token_usage s' = s_token_usage s"
  using assms
  by (auto simp: voter_node_def Let_def finish_def set_latency_def tlog_do_def voter_decide_frame
      split: prod.splits sum.splits if_splits)

subsection \<open>Independence of the completion order\<close>

definition outcome :: "node_out \<Rightarrow> agent_state py" where
  "outcome r = (case r of Inl (e, _) \<Rightarrow> Inl e | Inr s \<Rightarrow> Inr (s\<lparr>s_tlog := None\<rparr>))"

lemma fst_llm_vote: "fst (llm_vote cfg chat t k q sch cs execs tlog) = fst (llm_vote cfg chat t k q sch cs execs None)"
  by (auto simp: llm_vote_def Let_def split: list.split sum.split)

lemma llm_vote_logs:
  obtains w tl tl' where "llm_vote cfg chat t k q sch cs execs tlog = (w, tl)"
    and "llm_vote cfg chat t k q sch cs execs tlog' = (w, tl')"
  using fst_llm_vote [of cfg chat t k q sch cs execs tlog]
    fst_llm_vote [of cfg chat t k q sch cs execs tlog'] by (metis surj_pair fst_conv)

lemma finish_log [simp]:
  "(finish t q r (s\<lparr>s_tlog := lg\<rparr>))\<lparr>s_tlog := None\<rparr> = (finish t q r s)\<lparr>s_tlog := None\<rparr>"
  "(finish_with t v (s\<lparr>s_tlog := lg\<rparr>))\<lparr>s_tlog := None\<rparr> = (finish_with t v s)\<lparr>s_tlog := None\<rparr>"
  by (simp_all add: finish_def finish_with_def set_latency_def)

lemma voter_decide_log:
  "(voter_decide cfg chat t sqls rs tlog s)\<lparr>s_tlog := None\<rparr> =
   (voter_decide cfg chat t sqls rs tlog' s)\<lparr>s_tlog := None\<rparr>"
proof (cases "decide rs")
  case TieBreak
  obtain w tl tl' where
    "llm_vote cfg chat t 70 (s_question s) (or_default [] (s_schema_text s))
      (map v_sql (filter v_success rs)) (map v_result (filter v_success rs)) tlog = (w, tl)"
    "llm_vote cfg chat t 70 (s_question s) (or_default [] (s_schema_text s))
      (map v_sql (filter v_success rs)) (map v_result (filter v_success rs)) tlog' = (w, tl')"
    by (rule llm_vote_logs)
  then show ?thesis
    by (cases "find (\<lambda>r. Some (v_sql r) = w) (filter v_success rs)")
       (simp_all add: voter_decide_def Let_def TieBreak)
next
  case (AllFailed reason)
  let ?l = "\<lambda>tl. voter_exit t [(''winner'', PStr ''llm_fallback''), (''reason'', PStr reason)] tl"
  obtain w tl tl' where
    "llm_vote cfg chat t 81 (s_question s) (or_default [] (s_schema_text s)) sqls [] (?l tlog) = (w, tl)"
    "llm_vote cfg chat t 81 (s_question s) (or_default [] (s_schema_text s)) sqls [] (?l tlog') = (w, tl')"
    by (rule llm_vote_logs)
  then show ?thesis by (simp add: voter_decide_def Let_def AllFailed)
qed (simp_all add: voter_decide_def Let_def)

lemma index_of_inj: "inj_on (index_of sqls) (set sqls)"
proof (rule inj_onI)
  have nth: "x \<in> set sqls \<Longrightarrow> sqls ! index_of sqls x = x" for x
    by (induction sqls) auto
  fix x y assume "x \<in> set sqls" "y \<in> set sqls" "index_of sqls x = index_of sqls y"
  then show "x = y" using nth by metis
qed

lemma py_map_perm:
  assumes "mset xs = mset ys" and "py_map f xs = Inr us" and "py_map f ys = Inr vs"
  shows "mset us = mset vs"
proof -
  have m: "py_map f zs = Inr ws \<Longrightarrow> ws = map (projr \<circ> f) zs" for zs ws
    by (induction zs arbitrary: ws) (auto simp: py_bind_Inr_iff)
  show ?thesis using m [OF assms(2)] m [OF assms(3)] assms(1) by (metis mset_map)
qed

lemma caught_error: "vres_py (caught run) s = Inl e \<Longrightarrow> e \<in> set mixed_type_errors"
  by (auto simp: vres_py_def caught_def vres_of_def normalize_def future_error_def
      py_bind_def dest: sorted_rows_raises split: sum.splits if_splits)

lemma exec_candidates_py:
  "without_log (exec_candidates run t sqls fin tlog) =
     (if length sqls \<le> 1 then py_map (vres_py run) sqls
      else py_bind (py_map (vres_py (caught run)) fin)
             (\<lambda>vs. Inr (sort_key (\<lambda>v. index_of sqls (v_sql v)) vs)))"
  using collect_py_map [of run sqls t 10 tlog] collect_py_map [of "caught run" fin t 10 tlog]
  by (auto simp: exec_candidates_def split: sum.splits prod.splits)

lemma exec_candidates_order:
  assumes "mset fin = mset sqls" and "mset fin' = mset sqls" and "distinct sqls"
  shows "without_log (exec_candidates run t sqls fin tlog) = without_log (exec_candidates run t sqls fin' tlog)
    \<or> (\<exists>e\<in>set mixed_type_errors. \<exists>e'\<in>set mixed_type_errors.
         without_log (exec_candidates run t sqls fin tlog) = Inl e
         \<and> without_log (exec_candidates run t sqls fin' tlog) = Inl e')"
proof (cases "length sqls \<le> 1")
  case True
  then show ?thesis by (simp add: exec_candidates_def)
next
  case False
  let ?f = "vres_py (caught run)"
  let ?sort = "sort_key (\<lambda>v. index_of sqls (v_sql v))"
  have w: "without_log (exec_candidates run t sqls d tlog) = py_bind (py_map ?f d) (\<lambda>vs. Inr (?sort vs))" for d
    using False by (simp add: exec_candidates_py)
  have s: "set fin = set fin'" using assms(1,2) by (metis set_mset_mset)
  show ?thesis
  proof (cases "py_map ?f fin")
    case (Inl e)
    then obtain x where "x \<in> set fin'" "?f x = Inl e" using py_map_raised s by metis
    then obtain e' where e': "py_map ?f fin' = Inl e'" using py_map_raises by metis
    have "e \<in> set mixed_type_errors" "e' \<in> set mixed_type_errors"
      using Inl e' py_map_raised caught_error by metis+
    then show ?thesis unfolding w using Inl e' by simp
  next
    case (Inr us)
    then have "\<not> (\<exists>e. py_map ?f fin' = Inl e)"
      using py_map_raises [of ?f fin'] py_map_raises [of ?f fin] s by auto
    then obtain vs where vs: "py_map ?f fin' = Inr vs" by (cases "py_map ?f fin'") auto
    have m: "mset us = mset vs" using py_map_perm [OF _ Inr vs] assms(1,2) by simp
    have l: "map v_sql us = fin"
      using collect_py_map [of "caught run" fin t 10 tlog] Inr collected(1) [of "caught run" t 10 fin tlog]
      by (cases "collect (caught run) t 10 fin tlog") auto
    have "inj_on (index_of sqls) (v_sql ` set us)"
      using l assms(1) index_of_inj [of sqls] by (metis list.set_map set_mset_mset)
    moreover have "inj_on v_sql (set us)"
      using l assms(1,3) by (metis distinct_map mset_eq_imp_distinct_iff)
    ultimately have "inj_on (\<lambda>v. index_of sqls (v_sql v)) (set us)"
      using comp_inj_on [of v_sql "set us" "index_of sqls"] by (simp add: comp_def)
    then have "?sort us = ?sort vs"
      using m by (intro sort_key_inj_key_eq) auto
    then show ?thesis unfolding w using Inr vs by simp
  qed
qed

subsection \<open>Properties\<close>

text \<open>C7: Every result the voter node stores claims success: also when there is no database and
  when every candidate failed or timed out, the stored result has \<open>success = True\<close> (with no
  rows), so the routing after the voter never sees a failure.\<close>

theorem voter_always_succeeds:
  assumes "voter_node cfg chat run fin t s = Inr s'"
  shows "case s_exec_result s' of Some (Some r) \<Rightarrow> er_success r | _ \<Rightarrow> False"
  using voter_node_success [OF assms] by auto

definition failing_run :: "string \<Rightarrow> exec_result py" where
  "failing_run q = Inr (fail_result ''no such table: orders'' (Some ''missing_table''))"

definition silent_llm :: llm where
  "silent_llm = \<lparr>llm_invoke = (\<lambda>sys user temp. Inl (PyExc ''APITimeoutError'' ''Request timed out.'')),
     llm_stream = (\<lambda>sys user temp. Inl (PyExc ''APITimeoutError'' ''Request timed out.''))\<rparr>"

definition voter_demo_state :: agent_state where
  "voter_demo_state = (init_state ''Which orders are late?'')
     \<lparr>s_sql := Some ''SELECT * FROM orders'', s_database_url := Some ''sqlite:///shop.db''\<rparr>"

definition demo_tick :: clock where
  "demo_tick i = \<lparr>r_ms = int i, r_ts = ''12:00:00''\<rparr>"

theorem voter_always_succeeds_witness:
  "\<exists>s'. voter_node demo_cfg silent_llm failing_run [] demo_tick voter_demo_state = Inr s' \<and>
     (case s_exec_result s' of Some (Some r) \<Rightarrow> er_success r \<and> er_voted_by r = Some ''llm_exec_fail''
      | _ \<Rightarrow> False)"
proof -
  have "node_ok (\<lambda>s'. case s_exec_result s' of
        Some (Some r) \<Rightarrow> er_voted_by r = Some ''llm_exec_fail'' | _ \<Rightarrow> False)
      (voter_node demo_cfg silent_llm failing_run [] demo_tick voter_demo_state)"
    by code_simp
  then obtain s' where v: "voter_node demo_cfg silent_llm failing_run [] demo_tick voter_demo_state = Inr s'"
    and "case s_exec_result s' of Some (Some r) \<Rightarrow> er_voted_by r = Some ''llm_exec_fail'' | _ \<Rightarrow> False"
    by (auto simp: node_ok_iff)
  then show ?thesis using voter_always_succeeds [OF v] by (auto split: option.splits)
qed

lemma exec_candidates_log:
  "without_log (exec_candidates run t sqls fin tlog) = without_log (exec_candidates run t sqls fin tlog')"
  by (simp add: exec_candidates_py)

text \<open>C8: Majority vote. If some successful candidate shares its normalised rows with another one,
  the node returns the query and the result of the first candidate of a largest group of equal
  results.\<close>

theorem voter_majority:
  assumes "voter_node cfg chat run fin t s = Inr s'" and "db_url s \<noteq> None"
    and "without_log (exec_candidates run t (voter_sqls s) fin None) = Inr results"
    and "r \<in> set results" and "v_success r" and "2 \<le> votes results r"
  shows "\<exists>w. first_of_group results w \<and>
    list_all (\<lambda>r'. votes results r' \<le> votes results w) (filter v_success results) \<and>
    s_sql s' = Some (v_sql w) \<and>
    s_exec_result s' = Some (Some ((v_result w)\<lparr>er_sql := Some (v_sql w)\<rparr>))"
proof -
  let ?s1 = "tlog_do (node_enter (t 1) ''voter''
                 [(''candidate_count'', PInt (int (length (voter_sqls s)))), (''has_db'', PBool True)]) s"
  obtain tr where e: "exec_candidates run t (voter_sqls s) fin (s_tlog ?s1) = Inr (results, tr)"
    using assms(3) exec_candidates_log [of run t "voter_sqls s" fin None "s_tlog ?s1"]
    by (cases "exec_candidates run t (voter_sqls s) fin (s_tlog ?s1)") auto
  have s': "s' = voter_decide cfg chat t (voter_sqls s) results tr ?s1"
    using assms(1,2) e by (simp add: voter_node_def Let_def)
  have rs: "r \<in> set (filter v_success results)" using assms(4,5) by simp
  show ?thesis
  proof (cases "decide results")
    case (Majority w n)
    then show ?thesis
      using decide_majority [OF Majority]
      by (intro exI [of _ w]) (simp add: s' voter_decide_def Let_def list_all_iff)
  next
    case (Single w)
    then have "votes results r \<le> 1" using decide_single [OF Single] by (simp add: votes_filter)
    then show ?thesis using assms(6) by simp
  next
    case TieBreak
    then show ?thesis using decide_tie(2) [OF TieBreak] rs assms(6) by fastforce
  next
    case (AllFailed reason)
    then show ?thesis using rs by (simp add: decide_failed)
  qed
qed

text \<open>C9: The order in which parallel executions finish does not matter: up to the log, the node's
  outcome is the same for every completion order of different candidates, with one reservation. When
  it raises because the rows of several candidates cannot be sorted, the order decides which of them
  is met first: under every order it raises a \<open>TypeError\<close> then, whose text names \<open>float\<close> and
  \<open>str\<close>, but in one order or the other.\<close>

theorem voter_order_independent:
  assumes "mset fin = mset (voter_sqls s)" and "mset fin' = mset (voter_sqls s)"
    and "distinct (voter_sqls s)"
  shows "outcome (voter_node cfg chat run fin t s) = outcome (voter_node cfg chat run fin' t s) \<or>
    (\<exists>e\<in>set mixed_type_errors. \<exists>e'\<in>set mixed_type_errors.
       outcome (voter_node cfg chat run fin t s) = Inl e \<and> outcome (voter_node cfg chat run fin' t s) = Inl e')"
proof (cases "db_url s = None")
  case True
  then show ?thesis by (simp add: voter_node_def Let_def)
next
  case False
  let ?s1 = "tlog_do (node_enter (t 1) ''voter''
                 [(''candidate_count'', PInt (int (length (voter_sqls s)))), (''has_db'', PBool True)]) s"
  let ?e = "\<lambda>d. exec_candidates run t (voter_sqls s) d (s_tlog ?s1)"
  have o: "outcome (voter_node cfg chat run d t s) =
      py_bind (without_log (?e d)) (\<lambda>vs. Inr ((voter_decide cfg chat t (voter_sqls s) vs None ?s1)\<lparr>s_tlog := None\<rparr>))" for d
    using False voter_decide_log [of cfg chat t "voter_sqls s" _ _ ?s1 None]
    by (auto simp: voter_node_def Let_def outcome_def split: sum.split prod.split)
  show ?thesis
    unfolding o using exec_candidates_order [OF assms, of run t "s_tlog ?s1"] by auto
qed

text \<open>With a database and several candidates, the node raises exactly when some successful
  candidate returned two rows that cannot be compared (a number against a string or a missing
  value in the first column where they differ): sorting them is a \<open>TypeError\<close>.\<close>

theorem voter_raises_iff:
  assumes "db_url s \<noteq> None" and "1 < length (voter_sqls s)" and "mset fin = mset (voter_sqls s)"
  shows "(\<exists>x. voter_node cfg chat run fin t s = Inl x) \<longleftrightarrow>
    list_ex (\<lambda>q. py_ok (\<lambda>r. er_success r \<and>
        has_incomparable (map (map norm_cell) (or_default [] (er_data r)))) (run q)) (voter_sqls s)"
proof -
  let ?s1 = "tlog_do (node_enter (t 1) ''voter''
                 [(''candidate_count'', PInt (int (length (voter_sqls s)))), (''has_db'', PBool True)]) s"
  let ?f = "vres_py (caught run)"
  have raise: "(\<exists>e. ?f q = Inl e) \<longleftrightarrow> py_ok (\<lambda>r. er_success r \<and>
        has_incomparable (map (map norm_cell) (or_default [] (er_data r)))) (run q)" for q
    by (auto simp: vres_py_def caught_def vres_of_def normalize_def sorted_rows_def future_error_def
        py_bind_def py_ok_def split: sum.splits if_splits)
  have "(\<exists>x. voter_node cfg chat run fin t s = Inl x) \<longleftrightarrow>
      (\<exists>x. collect (caught run) t 10 fin (s_tlog ?s1) = Inl x)"
    using assms(1,2)
    by (auto simp: voter_node_def Let_def exec_candidates_def split: sum.splits prod.splits)
  also have "\<dots> \<longleftrightarrow> (\<exists>e. py_map ?f fin = Inl e)"
    using collect_py_map [of "caught run" fin t 10 "s_tlog ?s1"]
    by (cases "collect (caught run) t 10 fin (s_tlog ?s1)") auto
  also have "\<dots> \<longleftrightarrow> (\<exists>q\<in>set (voter_sqls s). \<exists>e. ?f q = Inl e)"
    unfolding py_map_raises using assms(3) by (metis set_mset_mset)
  finally show ?thesis unfolding raise by (simp add: list_ex_iff)
qed

text \<open>Two candidates: the first counts the orders, the second returns a missing value and a
  number.\<close>

definition two_run :: "string \<Rightarrow> exec_result py" where
  "two_run q =
     (if q = ''SELECT 1'' then Inr (ok_result [''n''] [[PInt 1]])
      else Inr (ok_result [''n''] [[PNone], [PInt 1]]))"

definition same_run :: "string \<Rightarrow> exec_result py" where
  "same_run q = Inr (ok_result [''n''] [[PInt 1]])"

definition two_state :: agent_state where
  "two_state = (init_state ''How many?'')\<lparr>s_sql := Some ''SELECT 1'',
     s_candidate_sqls := Some [''SELECT 1'', ''SELECT 2''], s_database_url := Some ''sqlite:///shop.db''\<rparr>"

lemma two_state_sqls: "voter_sqls two_state = [''SELECT 1'', ''SELECT 2'']"
  by (simp add: voter_sqls_def two_state_def)

lemma two_state_db: "db_url two_state \<noteq> None"
  by (simp add: db_url_def two_state_def)

theorem voter_raises_iff_witness:
  "\<exists>x. voter_node demo_cfg silent_llm two_run [''SELECT 2'', ''SELECT 1''] demo_tick two_state = Inl x"
proof -
  have "list_ex (\<lambda>q. py_ok (\<lambda>r. er_success r \<and>
        has_incomparable (map (map norm_cell) (or_default [] (er_data r)))) (two_run q))
      [''SELECT 1'', ''SELECT 2'']"
    by code_simp
  then show ?thesis
    using voter_raises_iff [of two_state "[''SELECT 2'', ''SELECT 1'']" demo_cfg silent_llm two_run demo_tick]
    by (simp add: two_state_sqls two_state_db add_mset_commute)
qed

text \<open>Both outcomes of the reservation occur: two candidates that mix numbers and missing values the
  other way round.\<close>

definition mixed_run :: "string \<Rightarrow> exec_result py" where
  "mixed_run q =
     Inr (ok_result [''n''] (if q = ''SELECT 1'' then [[PInt 1], [PNone]] else [[PNone], [PInt 1]]))"

lemma order_decides_the_message:
  "outcome (voter_node demo_cfg silent_llm mixed_run [''SELECT 1'', ''SELECT 2''] demo_tick two_state)
     = Inl (clash_error (''str'', ''float''))"
  "outcome (voter_node demo_cfg silent_llm mixed_run [''SELECT 2'', ''SELECT 1''] demo_tick two_state)
     = Inl (clash_error (''float'', ''str''))"
  by code_simp+

theorem voter_order_independent_witness:
  "outcome (voter_node demo_cfg silent_llm same_run [''SELECT 2'', ''SELECT 1''] demo_tick two_state)
   = outcome (voter_node demo_cfg silent_llm same_run [''SELECT 1'', ''SELECT 2''] demo_tick two_state)"
proof -
  have "py_ok (\<lambda>s. True) (outcome (voter_node demo_cfg silent_llm same_run [''SELECT 2'', ''SELECT 1''] demo_tick two_state))"
    by code_simp
  then show ?thesis
    using voter_order_independent [of "[''SELECT 2'', ''SELECT 1'']" two_state "[''SELECT 1'', ''SELECT 2'']"
        demo_cfg silent_llm same_run demo_tick]
    by (auto simp: two_state_sqls add_mset_commute py_ok_iff)
qed

theorem voter_majority_witness:
  "\<exists>s'. voter_node demo_cfg silent_llm same_run [''SELECT 2'', ''SELECT 1''] demo_tick two_state = Inr s'
     \<and> (\<exists>r. s_sql s' = Some r)"
proof -
  let ?r = "ok_result [''n''] [[PInt 1]]"
  let ?v = "\<lambda>q. \<lparr>v_sql = q, v_success = True, v_result = ?r, v_hash = Some (HRows [[NNum 1]])\<rparr>"
  have "node_ok (\<lambda>s'. True) (voter_node demo_cfg silent_llm same_run [''SELECT 2'', ''SELECT 1''] demo_tick two_state)"
    by code_simp
  then obtain s' where v: "voter_node demo_cfg silent_llm same_run [''SELECT 2'', ''SELECT 1''] demo_tick
      two_state = Inr s'"
    by (auto simp: node_ok_iff)
  have e: "without_log (exec_candidates same_run demo_tick (voter_sqls two_state) [''SELECT 2'', ''SELECT 1''] None)
      = Inr [?v ''SELECT 1'', ?v ''SELECT 2'']"
    unfolding two_state_sqls by code_simp
  have "s_sql s' \<noteq> None"
    using voter_majority [OF v two_state_db e, of "?v ''SELECT 1''"] by (auto simp: votes_def)
  with v show ?thesis by auto
qed

end
