(* ===== verification/SemanticCheck.thy ===== *)
theory SemanticCheck
  imports Generator
begin

text \<open>
  \<open>agent/nodes/semantic_check.py\<close>: the model reviews the executed query and answers YES or NO.
  The schema text is reduced to the tables the query names, the query text to a ceiling; a
  rejection is passed to the refiner; a query rejected twice in a row passes unchecked.
\<close>

definition SCHEMA_MAX_CHARS :: nat where "SCHEMA_MAX_CHARS = 8000"
definition SQL_MAX_CHARS :: nat where "SQL_MAX_CHARS = 6000"
definition PREVIEW_VALUE_MAX :: nat where "PREVIEW_VALUE_MAX = 40"

definition sem_normalize_sql :: "string \<Rightarrow> string" where
  "sem_normalize_sql sql = join '' '' (split_ws (lower sql))"

text \<open>\<open>(?:FROM|JOIN)\s+(\w+)(?:\s+(?:AS\s+)?(\w+))?\<close>, without regard to case\<close>

definition rx_from_join :: rx where
  "rx_from_join = rseq [ralt [rlit_ci ''FROM'', rlit_ci ''JOIN''], rplus rws, RGrp 1 (rplus rw),
     ropt (rseq [rplus rws, ropt (rseq [rlit_ci ''AS'', rplus rws]), RGrp 2 (rplus rw)])]"

definition extract_sql_tables :: "string \<Rightarrow> string list" where
  "extract_sql_tables sql = remdups (map (\<lambda>m. lower (m_group 1 m)) (re_finditer rx_from_join sql))"

text \<open>\<open>CREATE\s+TABLE\s+\<close>, with and without regard to case, and the name after it\<close>

definition rx_create_table :: rx where
  "rx_create_table = rseq [rlit ''CREATE'', rplus rws, rlit ''TABLE'', rplus rws]"

definition rx_create_table_ci :: rx where
  "rx_create_table_ci = rseq [rlit_ci ''CREATE'', rplus rws, rlit_ci ''TABLE'', rplus rws]"

definition rx_create_name :: rx where
  "rx_create_name = rseq [rlit_ci ''CREATE'', rplus rws, rlit_ci ''TABLE'', rplus rws,
     ropt (rlit dq), RGrp 1 (rplus rw), ropt (rlit dq)]"

definition ddl_blocks :: "string \<Rightarrow> string list" where
  "ddl_blocks schema_text =
     filter (\<lambda>b. b \<noteq> []) (map strip (re_split (rseq [rlit nl, rlook rx_create_table]) schema_text))"

definition truncate_at_ddl_boundary :: "string \<Rightarrow> nat \<Rightarrow> string" where
  "truncate_at_ddl_boundary s max_chars =
     (if length s \<le> max_chars then s
      else
        let truncated = take max_chars s in
        case rfind_sub '');'' truncated of
          Some last_end \<Rightarrow>
            if max_chars div 2 < last_end then
              take (last_end + 2) truncated
                @ nl @ nl @ ''-- NOTE: Schema truncated at '' @ show_nat max_chars @ '' chars. ''
                @ show_nat (length (re_finditer rx_create_table_ci (drop (last_end + 2) s)))
                @ '' table(s) omitted. ''
                @ ''Only the tables referenced by the SQL and shown above are relevant.''
            else truncated @ nl @ nl
                @ ''-- NOTE: Schema truncated. Verify against the execution result below.''
        | None \<Rightarrow> truncated @ nl @ nl
                @ ''-- NOTE: Schema truncated. Verify against the execution result below.'')"

definition block_name :: "string \<Rightarrow> string option" where
  "block_name blk = map_option (m_group 1) (re_match_start rx_create_name blk)"

definition block_used :: "string list \<Rightarrow> string \<Rightarrow> bool" where
  "block_used used_tables blk =
     (case block_name blk of Some n \<Rightarrow> lower n \<in> set used_tables | None \<Rightarrow> False)"

definition filter_schema_text :: "string \<Rightarrow> string list \<Rightarrow> nat \<Rightarrow> string" where
  "filter_schema_text schema_text used_tables max_chars =
     (if schema_text = [] then []
      else
        let blocks = ddl_blocks schema_text in
        if used_tables = [] then truncate_at_ddl_boundary schema_text max_chars
        else
          let relevant = filter (block_used used_tables) blocks;
              unused = filter (\<lambda>b. \<not> block_used used_tables b) blocks
          in if relevant = [] then truncate_at_ddl_boundary schema_text max_chars
             else
               let filtered = join (nl @ nl) relevant
               in if length filtered \<le> max_chars then
                    (let omitted_names = sorted_set (List.map_filter block_name unused)
                     in if unused \<noteq> [] \<and> omitted_names \<noteq> []
                        then filtered @ nl @ nl @ ''-- Note: '' @ show_nat (length omitted_names)
                          @ '' other table(s) in schema but not referenced by this SQL: ''
                          @ join '', '' omitted_names
                        else filtered)
                  else truncate_at_ddl_boundary filtered max_chars)"

definition ellipsis :: string where "ellipsis = [CHR 0xE2, CHR 0x80, CHR 0xA6]"

definition preview_value :: "pyv \<Rightarrow> string" where
  "preview_value v =
     (let s = py_str v
      in if PREVIEW_VALUE_MAX < length s then take PREVIEW_VALUE_MAX s @ ellipsis else s)"

definition build_data_preview :: "row list \<Rightarrow> string list \<Rightarrow> string" where
  "build_data_preview data cols =
     (if data = [] then ''(empty result)''
      else
        let cols_shown = take 12 cols
        in join nl
             ([join '', '' cols_shown]
              @ map (\<lambda>row. join '', '' (map preview_value (take (length cols_shown) row))) (take 5 data)
              @ (if 12 < length cols
                 then [''-- ('' @ show_nat (length cols - 12) @ '' more columns not shown)''] else [])))"

text \<open>The ceiling on the query: cut after the last clause keyword, tried in this order.\<close>

definition rx_words :: "string list \<Rightarrow> rx" where
  "rx_words ws = (case ws of
     [w] \<Rightarrow> rseq [rwordb, rlit_ci w, rwordb]
   | [v, w] \<Rightarrow> rseq [rwordb, rlit_ci v, rplus rws, rlit_ci w, rwordb]
   | _ \<Rightarrow> REps)"

definition cut_patterns :: "rx list" where
  "cut_patterns = [rx_words [''LIMIT''], rx_words [''ORDER'', ''BY''], rx_words [''GROUP'', ''BY''],
     rx_words [''HAVING''], rx_words [''WHERE''], rx_words [''FROM''], rlit '')'']"

definition truncated_mark :: string where "truncated_mark = nl @ ''-- (SQL truncated)''"

fun cut_sql :: "rx list \<Rightarrow> string \<Rightarrow> string \<Rightarrow> string" where
  "cut_sql [] sql truncated = truncated @ truncated_mark"
| "cut_sql (kw # kws) sql truncated =
     (case re_finditer kw truncated of
        [] \<Rightarrow> cut_sql kws sql truncated
      | m # ms \<Rightarrow>
          if SQL_MAX_CHARS div 2 < m_end (last (m # ms))
          then take (m_end (last (m # ms))) sql @ truncated_mark
          else cut_sql kws sql truncated)"

definition sql_for_check :: "string \<Rightarrow> string" where
  "sql_for_check sql =
     (if SQL_MAX_CHARS < length sql then cut_sql cut_patterns sql (take SQL_MAX_CHARS sql) else sql)"

definition semantic_prompt :: "agent_state \<Rightarrow> string \<Rightarrow> string py" where
  "semantic_prompt s sql =
     (let er = (case s_exec_result s of Some (Some r) \<Rightarrow> Some r | _ \<Rightarrow> None);
          row_count = (case er of Some r \<Rightarrow> er_row_count r | None \<Rightarrow> 0);
          data = (case er of Some r \<Rightarrow> or_default [] (er_data r) | None \<Rightarrow> []);
          cols = (case er of Some r \<Rightarrow> or_default [] (er_columns r) | None \<Rightarrow> [])
      in py_format
           [(''schema_text'', filter_schema_text (or_default [] (s_schema_text s))
               (extract_sql_tables sql) SCHEMA_MAX_CHARS),
            (''question'', s_question s),
            (''sql'', sql_for_check sql),
            (''row_count'', show_int row_count),
            (''columns'', join '', '' (take 12 cols)),
            (''preview_rows'', show_nat (min (length data) 5)),
            (''preview'', build_data_preview data cols)]
           SEMANTIC_CHECK_PROMPT)"

lemma semantic_prompt_ok: "\<exists>p. semantic_prompt s sql = Inr p"
  unfolding semantic_prompt_def Let_def
  by (rule py_format_ok [OF semantic_prompt_fields]) simp

text \<open>The verdict in a reply, and the reason of a rejection\<close>

definition semantic_verdict_of :: "string \<Rightarrow> bool \<times> string" where
  "semantic_verdict_of raw =
     (if prefix ''YES'' (upper raw) then (True, [])
      else if prefix ''NO'' (upper raw) then
        (False, strip (lstrip_by (\<lambda>c. c = CHR '':'') (strip (drop 2 raw))))
      else (False, take 200 raw))"

definition escape_hatch :: "agent_state \<Rightarrow> string \<Rightarrow> bool" where
  "escape_hatch s sql \<longleftrightarrow>
     sem_normalize_sql sql = or_default [] (s_sem_last_rejected s) \<and>
     2 \<le> or_default 0 (s_sem_reject_count s)"

text \<open>What the node records when the model has answered\<close>

definition record_verdict ::
  "config \<Rightarrow> clock \<Rightarrow> llm_reply \<Rightarrow> string \<Rightarrow> agent_state \<Rightarrow> agent_state \<Rightarrow> agent_state" where
  "record_verdict cfg t response sql s s1 =
     (let last_rejected = or_default [] (s_sem_last_rejected s);
          reject_count = or_default 0 (s_sem_reject_count s);
          normalized = sem_normalize_sql sql;
          raw = strip (lr_content response);
          tu = lr_usage response;
          (passed, reason) = semantic_verdict_of raw;
          s2 = tlog_do (\<lambda>tr.
                 node_exit (t 6) ''semantic_check'' [(''passed'', PBool passed)] ''success''
                   (semantic_verdict (t 5) passed reason
                     (llm_call (t 4) (cfg_llm_model cfg) (usage_dict tu) (since t 2 3)
                       ''semantic_check'' tr))) s1;
          token_usage = add_usage (or_default zero_usage (s_token_usage s)) tu;
          new_count = (if \<not> passed
                       then (if normalized = last_rejected then reject_count + 1 else 1)
                       else 0);
          s3 = set_latency ''semantic_check'' (since t 0 7)
                 (s2\<lparr>s_semantic_pass := Some passed,
                     s_semantic_feedback := Some reason,
                     s_token_usage := Some token_usage,
                     s_sem_reject_count := Some new_count,
                     s_sem_last_rejected := Some (if \<not> passed then normalized else [])\<rparr>)
      in if \<not> passed
         then s3\<lparr>s_last_error := Some (''Semantic check failed: '' @ reason), s_last_sql := Some sql\<rparr>
         else s3)"

definition semantic_check_node :: "config \<Rightarrow> llm \<Rightarrow> clock \<Rightarrow> agent_state \<Rightarrow> node_out" where
  "semantic_check_node cfg chat t s =
     (let question = s_question s;
          sql = or_default [] (s_sql s);
          reject_count = or_default 0 (s_sem_reject_count s);
          sql_len = (''sql_len'', PInt (int (length sql)))
      in if sql = [] \<or> question = [] then
           Inr (s\<lparr>s_semantic_pass := Some True, s_semantic_feedback := Some []\<rparr>)
         else if escape_hatch s sql then
           Inr (set_latency ''semantic_check'' (since t 0 3)
             ((tlog_do (\<lambda>tr.
                 node_exit (t 2) ''semantic_check'' [(''passed'', PBool True), (''escape_hatch'', PBool True)]
                   ''success''
                   (node_enter (t 1) ''semantic_check'' [sql_len, (''escape_hatch'', PBool True)] tr)) s)
              \<lparr>s_semantic_pass := Some True,
               s_semantic_feedback := Some (''(escape hatch: same SQL rejected '' @ show_int reject_count
                  @ '' times, passing)'')\<rparr>))
         else
           let s1 = tlog_do (node_enter (t 1) ''semantic_check'' [sql_len]) s
           in try_in s1 (semantic_prompt s sql) (\<lambda>prompt.
              case llm_invoke chat SEMANTIC_CHECK_SYSTEM_PROMPT prompt 0 of
                Inl e \<Rightarrow>
                  Inr (set_latency ''semantic_check'' (since t 0 5)
                    ((tlog_do (\<lambda>tr.
                        node_exit (t 4) ''semantic_check'' [(''error'', PStr (take 120 (exc_msg e)))] ''success''
                          (llm_error (t 3) (cfg_llm_model cfg) (exc_type e) (take 300 (exc_msg e)) 0
                            ''semantic_check'' tr)) s1)
                     \<lparr>s_semantic_pass := Some True,
                      s_semantic_feedback := Some (''(check skipped: '' @ exc_msg e @ '')'')\<rparr>))
              | Inr response \<Rightarrow> Inr (record_verdict cfg t response sql s s1)))"

subsection \<open>What the node decides\<close>

lemma record_verdict_fields:
  "s_semantic_pass (record_verdict cfg t r q s s1) = Some (fst (semantic_verdict_of (strip (lr_content r))))"
  "s_semantic_feedback (record_verdict cfg t r q s s1) = Some (snd (semantic_verdict_of (strip (lr_content r))))"
  "s_token_usage (record_verdict cfg t r q s s1) =
     Some (add_usage (or_default zero_usage (s_token_usage s)) (lr_usage r))"
  "s_sem_reject_count (record_verdict cfg t r q s s1) = Some
     (if fst (semantic_verdict_of (strip (lr_content r))) then 0
      else if sem_normalize_sql q = or_default [] (s_sem_last_rejected s)
           then or_default 0 (s_sem_reject_count s) + 1 else 1)"
  "s_sem_last_rejected (record_verdict cfg t r q s s1) = Some
     (if fst (semantic_verdict_of (strip (lr_content r))) then [] else sem_normalize_sql q)"
  "s_last_sql (record_verdict cfg t r q s s1) =
     (if fst (semantic_verdict_of (strip (lr_content r))) then s_last_sql s1 else Some q)"
  "s_sql (record_verdict cfg t r q s s1) = s_sql s1"
  "s_retry_count (record_verdict cfg t r q s s1) = s_retry_count s1"
  "s_max_retries (record_verdict cfg t r q s s1) = s_max_retries s1"
  "s_exec_result (record_verdict cfg t r q s s1) = s_exec_result s1"
  "s_guard_issues (record_verdict cfg t r q s s1) = s_guard_issues s1"
  "s_question (record_verdict cfg t r q s s1) = s_question s1"
  by (cases "semantic_verdict_of (strip (lr_content r))";
      simp add: record_verdict_def Let_def set_latency_def tlog_do_def)+

lemma semantic_check_frame:
  assumes "semantic_check_node cfg chat t s = Inr s'"
  shows "s_sql s' = s_sql s" and "s_retry_count s' = s_retry_count s"
    and "s_max_retries s' = s_max_retries s" and "s_exec_result s' = s_exec_result s"
    and "s_guard_issues s' = s_guard_issues s" and "\<exists>b. s_semantic_pass s' = Some b"
    and "s_question s' = s_question s"
proof -
  obtain p where p: "semantic_prompt s (or_default [] (s_sql s)) = Inr p" using semantic_prompt_ok by blast
  show "s_sql s' = s_sql s" "s_retry_count s' = s_retry_count s"
    "s_max_retries s' = s_max_retries s" "s_exec_result s' = s_exec_result s"
    "s_guard_issues s' = s_guard_issues s" "\<exists>b. s_semantic_pass s' = Some b"
    "s_question s' = s_question s"
    using assms p
    by (cases "llm_invoke chat SEMANTIC_CHECK_SYSTEM_PROMPT p 0";
        auto simp: semantic_check_node_def Let_def set_latency_def tlog_do_def record_verdict_fields
          split: if_splits)+
qed

lemma semantic_check_total: "\<exists>s'. semantic_check_node cfg chat t s = Inr s'"
proof -
  obtain p where "semantic_prompt s (or_default [] (s_sql s)) = Inr p" using semantic_prompt_ok by blast
  then show ?thesis
    by (auto simp: semantic_check_node_def Let_def split: sum.split prod.split)
qed

text \<open>The result of the node, by cases.\<close>

lemma semantic_check_cases:
  assumes "semantic_check_node cfg chat t s = Inr s'"
  obtains
    (skip) "or_default [] (s_sql s) = [] \<or> s_question s = [] \<or> escape_hatch s (or_default [] (s_sql s))"
      "s_semantic_pass s' = Some True" "s_sem_reject_count s' = s_sem_reject_count s"
      "s_sem_last_rejected s' = s_sem_last_rejected s" "s_token_usage s' = s_token_usage s"
      "s_last_error s' = s_last_error s" "s_last_sql s' = s_last_sql s"
  | (failed) e where "\<not> escape_hatch s (or_default [] (s_sql s))"
      "s_semantic_pass s' = Some True" "s_sem_reject_count s' = s_sem_reject_count s"
      "s_sem_last_rejected s' = s_sem_last_rejected s" "s_token_usage s' = s_token_usage s"
      "s_last_error s' = s_last_error s" "s_last_sql s' = s_last_sql s"
  | (answered) prompt response where "\<not> escape_hatch s (or_default [] (s_sql s))"
      "or_default [] (s_sql s) \<noteq> []"
      "semantic_prompt s (or_default [] (s_sql s)) = Inr prompt"
      "llm_invoke chat SEMANTIC_CHECK_SYSTEM_PROMPT prompt 0 = Inr response"
      "s_semantic_pass s' = Some (fst (semantic_verdict_of (strip (lr_content response))))"
      "s_semantic_feedback s' = Some (snd (semantic_verdict_of (strip (lr_content response))))"
      "s_token_usage s' = Some (add_usage (or_default zero_usage (s_token_usage s)) (lr_usage response))"
      "s_sem_reject_count s' = Some
         (if fst (semantic_verdict_of (strip (lr_content response))) then 0
          else if sem_normalize_sql (or_default [] (s_sql s)) = or_default [] (s_sem_last_rejected s)
               then or_default 0 (s_sem_reject_count s) + 1 else 1)"
      "s_sem_last_rejected s' = Some
         (if fst (semantic_verdict_of (strip (lr_content response))) then []
          else sem_normalize_sql (or_default [] (s_sql s)))"
      "s_last_sql s' = (if fst (semantic_verdict_of (strip (lr_content response))) then s_last_sql s
                        else Some (or_default [] (s_sql s)))"
proof -
  let ?q = "or_default [] (s_sql s)"
  consider "?q = [] \<or> s_question s = [] \<or> escape_hatch s ?q" | "?q \<noteq> []" "s_question s \<noteq> []" "\<not> escape_hatch s ?q"
    by blast
  then show thesis
  proof cases
    case 1
    then show thesis
      using assms by (intro skip) (auto simp: semantic_check_node_def Let_def set_latency_def tlog_do_def split: if_splits)
  next
    case 2
    obtain p where p: "semantic_prompt s ?q = Inr p" using semantic_prompt_ok by blast
    show thesis
    proof (cases "llm_invoke chat SEMANTIC_CHECK_SYSTEM_PROMPT p 0")
      case (Inl e)
      then show thesis
        using assms 2 p
        by (intro failed) (auto simp: semantic_check_node_def Let_def set_latency_def tlog_do_def)
    next
      case (Inr response)
      have "s' = record_verdict cfg t response ?q s
          (tlog_do (node_enter (t 1) ''semantic_check'' [(''sql_len'', PInt (int (length ?q)))]) s)"
        using assms 2 p Inr by (simp add: semantic_check_node_def Let_def)
      then show thesis
        using 2 by (intro answered [OF _ _ p Inr]) (simp_all add: record_verdict_fields tlog_do_def)
    qed
  qed
qed

subsection \<open>Properties\<close>

text \<open>The number of consecutive rejections of one query stays within two.\<close>

definition rejections_bounded :: "agent_state \<Rightarrow> bool" where
  "rejections_bounded s \<longleftrightarrow> or_default 0 (s_sem_reject_count s) \<le> 2"

lemma rejections_bounded_step:
  assumes "semantic_check_node cfg chat t s = Inr s'" and "rejections_bounded s"
  shows "rejections_bounded s'"
  using assms(1)
proof (cases rule: semantic_check_cases)
  case (answered prompt response)
  then show ?thesis using assms(2) by (auto simp: rejections_bounded_def escape_hatch_def)
qed (use assms(2) in \<open>auto simp: rejections_bounded_def\<close>)

text \<open>The semantic check never raises. It passes without asking when there is nothing to check
  or the same normalised query was rejected twice in a row; it passes when the model fails;
  otherwise it passes exactly the replies that start with YES, and a rejection hands the query
  and the reason to the next correction round.\<close>

theorem semantic_check_verdict:
  "\<exists>s'. semantic_check_node cfg chat t s = Inr s' \<and>
     (if or_default [] (s_sql s) = [] \<or> s_question s = [] \<or> escape_hatch s (or_default [] (s_sql s))
      then s_semantic_pass s' = Some True
      else (case py_bind (semantic_prompt s (or_default [] (s_sql s)))
                   (\<lambda>prompt. llm_invoke chat SEMANTIC_CHECK_SYSTEM_PROMPT prompt 0) of
              Inl e \<Rightarrow> s_semantic_pass s' = Some True
            | Inr r \<Rightarrow> s_semantic_pass s' = Some (prefix ''YES'' (upper (strip (lr_content r)))) \<and>
                (prefix ''YES'' (upper (strip (lr_content r))) \<or>
                 s_last_sql s' = s_sql s \<and> s_last_error s' = Some (''Semantic check failed: ''
                   @ or_default [] (s_semantic_feedback s')))))"
proof -
  let ?q = "or_default [] (s_sql s)"
  obtain p where p: "semantic_prompt s ?q = Inr p" using semantic_prompt_ok by blast
  have pass: "fst (semantic_verdict_of raw) = prefix ''YES'' (upper raw)" for raw
    by (simp add: semantic_verdict_of_def)
  have err: "s_last_error (record_verdict cfg t r ?q s s1) = Some (''Semantic check failed: ''
      @ or_default [] (s_semantic_feedback (record_verdict cfg t r ?q s s1)))"
    if "\<not> fst (semantic_verdict_of (strip (lr_content r)))" for r s1
    using that by (cases "semantic_verdict_of (strip (lr_content r))")
      (simp add: record_verdict_def Let_def set_latency_def tlog_do_def)
  show ?thesis
  proof (cases "?q = [] \<or> s_question s = [] \<or> escape_hatch s ?q")
    case True
    then show ?thesis
      by (auto simp: semantic_check_node_def Let_def set_latency_def tlog_do_def)
  next
    case False
    then have q: "s_sql s = Some ?q" by (cases "s_sql s") auto
    show ?thesis
    proof (cases "llm_invoke chat SEMANTIC_CHECK_SYSTEM_PROMPT p 0")
      case (Inl e)
      with False p show ?thesis
        by (simp add: semantic_check_node_def Let_def set_latency_def tlog_do_def)
    next
      case (Inr r)
      with False p q err [of r] show ?thesis
        by (auto simp: semantic_check_node_def Let_def record_verdict_fields pass)
    qed
  qed
qed

text \<open>A history of checks. Between two checks the other nodes may do anything to the state except to
  the two fields of the counter, which only this node writes; each check may have its own model
  and clock. The trace lists the normalised query of each check and whether it passed.\<close>

definition checked_query :: "agent_state \<Rightarrow> string" where
  "checked_query s = sem_normalize_sql (or_default [] (s_sql s))"

inductive checks :: "config \<Rightarrow> agent_state \<Rightarrow> (string \<times> bool) list \<Rightarrow> agent_state \<Rightarrow> bool"
  for cfg :: config and s0 :: agent_state where
  no_check: "checks cfg s0 [] s0"
| other_nodes: "checks cfg s0 trace s \<Longrightarrow> s_sem_reject_count s' = s_sem_reject_count s \<Longrightarrow>
     s_sem_last_rejected s' = s_sem_last_rejected s \<Longrightarrow> checks cfg s0 trace s'"
| next_check: "checks cfg s0 trace s \<Longrightarrow> semantic_check_node cfg chat t s = Inr s' \<Longrightarrow>
     checks cfg s0 (trace @ [(checked_query s, s_semantic_pass s' = Some True)]) s'"

lemma checks_prefix: "checks cfg s0 trace s \<Longrightarrow> trace = xs @ ys \<Longrightarrow> \<exists>s1. checks cfg s0 xs s1"
proof (induction arbitrary: ys rule: checks.induct)
  case (next_check trace s chat t s')
  show ?case
  proof (cases ys rule: rev_cases)
    case Nil
    then show ?thesis using next_check.hyps next_check.prems checks.next_check by fastforce
  next
    case (snoc zs z)
    then show ?thesis using next_check.IH [of zs] next_check.prems by simp
  qed
qed (auto intro: checks.intros)

text \<open>The counter: it has counted the rejections at the end of the trace, all of the query it
  remembers, and it is between zero and two.\<close>

definition counts_rejections :: "(string \<times> bool) list \<Rightarrow> agent_state \<Rightarrow> bool" where
  "counts_rejections trace s \<longleftrightarrow>
     0 \<le> or_default 0 (s_sem_reject_count s) \<and> rejections_bounded s \<and>
     (\<forall>pre k q. trace = pre @ replicate (Suc k) (q, False) \<longrightarrow>
        or_default [] (s_sem_last_rejected s) = q \<and> int (Suc k) \<le> or_default 0 (s_sem_reject_count s))"

lemma ends_in_replicate:
  assumes "trace @ [(p, b)] = pre @ replicate (Suc k) (q, False)"
  shows "p = q \<and> \<not> b \<and> trace = pre @ replicate k (q, False)"
  using assms by (simp add: replicate_append_same [symmetric] flip: append_assoc)

lemma counts_rejections_passed:
  assumes "counts_rejections trace s" and "s_sem_reject_count s' = s_sem_reject_count s"
  shows "counts_rejections (trace @ [(q, True)]) s'"
  using assms ends_in_replicate unfolding counts_rejections_def rejections_bounded_def by fastforce

lemma counts_rejections_step:
  assumes "semantic_check_node cfg chat t s = Inr s'" and "counts_rejections trace s"
  shows "counts_rejections (trace @ [(checked_query s, s_semantic_pass s' = Some True)]) s'"
  using assms(1)
proof (cases rule: semantic_check_cases)
  case (answered prompt response)
  let ?ok = "fst (semantic_verdict_of (strip (lr_content response)))"
  have b: "rejections_bounded s'"
    using rejections_bounded_step [OF assms(1)] assms(2) by (simp add: counts_rejections_def)
  show ?thesis
  proof (cases ?ok)
    case True
    then show ?thesis
      using answered ends_in_replicate unfolding counts_rejections_def rejections_bounded_def by fastforce
  next
    case False
    have "or_default [] (s_sem_last_rejected s') = q \<and> int (Suc k) \<le> or_default 0 (s_sem_reject_count s')"
      if "trace @ [(checked_query s, False)] = pre @ replicate (Suc k) (q, False)" for pre k q
    proof -
      have e: "checked_query s = q" "trace = pre @ replicate k (q, False)"
        using ends_in_replicate [OF that] by auto
      show ?thesis
      proof (cases k)
        case 0
        then show ?thesis
          using False answered e assms(2) by (auto simp: checked_query_def counts_rejections_def)
      next
        case (Suc j)
        then have "or_default [] (s_sem_last_rejected s) = q" "int k \<le> or_default 0 (s_sem_reject_count s)"
          using assms(2) e(2) unfolding counts_rejections_def by blast+
        then show ?thesis using False answered e(1) by (simp add: checked_query_def)
      qed
    qed
    moreover have "0 \<le> or_default 0 (s_sem_reject_count s')"
      using False answered assms(2) by (auto simp: counts_rejections_def)
    moreover have pass: "(s_semantic_pass s' = Some True) = False" using answered(5) False by simp
    ultimately show ?thesis using b unfolding counts_rejections_def pass by blast
  qed
qed (use counts_rejections_passed [OF assms(2)] in simp_all)

lemma checks_counted:
  assumes "checks cfg s0 trace s" and "or_default 0 (s_sem_reject_count s0) = 0"
  shows "counts_rejections trace s"
  using assms(1)
proof induction
  case no_check
  then show ?case using assms(2) by (simp add: counts_rejections_def rejections_bounded_def)
next
  case (other_nodes trace s s')
  then have "s_sem_reject_count s' = s_sem_reject_count s" "s_sem_last_rejected s' = s_sem_last_rejected s"
    by blast+
  then show ?case
    using other_nodes.IH unfolding counts_rejections_def rejections_bounded_def by metis
next
  case (next_check trace s chat t s')
  then show ?case using counts_rejections_step by blast
qed

text \<open>With the token keys the provider uses, a check never changes the token usage of the pipeline,
  although it means to add the call's tokens.\<close>

lemma semantic_check_drops_usage:
  assumes "semantic_check_node cfg chat t s = Inr s'"
    and "\<And>sys user temp r. llm_invoke chat sys user temp = Inr r \<Longrightarrow>
      set (map fst (lr_usage r)) \<subseteq> {''prompt_tokens'', ''completion_tokens'', ''total_tokens''}"
    and "s_token_usage s = Some [(''prompt'', a), (''completion'', b), (''total'', c)]"
  shows "s_token_usage s' = s_token_usage s"
  using assms(1)
proof (cases rule: semantic_check_cases)
  case (answered prompt response)
  have "k \<in> {''prompt'', ''completion'', ''total''} \<Longrightarrow> usage_get (lr_usage response) k = 0" for k
  proof -
    assume "k \<in> {''prompt'', ''completion'', ''total''}"
    then have "k \<notin> fst ` set (lr_usage response)" using assms(2) [OF answered(4)] by auto
    then have "map_of (lr_usage response) k = None" by (simp add: map_of_eq_None_iff)
    then show ?thesis by (simp add: usage_get_def)
  qed
  then show ?thesis using answered(7) assms(3) by (simp add: add_usage_def)
qed simp_all

text \<open>C11: The bound on rejections. In every history of checks that starts with the counter at
  zero, a query is rejected at most twice in a row, whatever the models answer and the other
  nodes do in between: after two rejections the next check of the same query (up to case and
  spacing) passes under any model. Nothing here bounds the rejections of queries that keep
  changing; those are bounded by the retries of the graph.\<close>

theorem semantic_check_bounded:
  assumes "checks cfg s0 (pre @ replicate k (q, False) @ post) s"
    and "or_default 0 (s_sem_reject_count s0) = 0"
  shows "k \<le> 2 \<and>
    (k = 2 \<and> post = [] \<and> checked_query s = q \<longrightarrow>
      (\<exists>s'. semantic_check_node cfg chat t s = Inr s' \<and> s_semantic_pass s' = Some True))"
proof -
  have two: "k' \<le> 2" if "checks cfg s0 (pre @ replicate k' (q, False)) s1" for k' s1
  proof (cases k')
    case (Suc j)
    then have "int k' \<le> or_default 0 (s_sem_reject_count s1)" and "rejections_bounded s1"
      using checks_counted [OF that assms(2)] unfolding counts_rejections_def by blast+
    then show ?thesis by (simp add: rejections_bounded_def)
  qed simp
  have "\<exists>s1. checks cfg s0 (pre @ replicate k (q, False)) s1"
    using checks_prefix [OF assms(1), of "pre @ replicate k (q, False)" post] by simp
  then have "k \<le> 2" using two by blast
  moreover have "s_semantic_pass s' = Some True"
    if h: "k = 2" "post = []" "checked_query s = q" and s': "semantic_check_node cfg chat t s = Inr s'" for s'
  proof (rule ccontr)
    assume "s_semantic_pass s' \<noteq> Some True"
    then have "checks cfg s0 (pre @ replicate 3 (q, False)) s'"
      using checks.next_check [OF assms(1) s'] h by (simp add: numeral_eq_Suc)
    from two [OF this] show False by simp
  qed
  ultimately show ?thesis using semantic_check_total [of cfg chat t s] by blast
qed

text \<open>A model that always objects.\<close>

definition no_llm :: llm where
  "no_llm = \<lparr>llm_invoke = (\<lambda>sys user temp. Inr \<lparr>lr_content = ''NO: wrong table'',
       lr_usage = [(''prompt_tokens'', 400), (''completion_tokens'', 4), (''total_tokens'', 404)]\<rparr>),
     llm_stream = (\<lambda>sys user temp. Inr [])\<rparr>"

lemma no_llm_rejects:
  assumes "semantic_check_node cfg no_llm t s = Inr s'" and "\<not> escape_hatch s (or_default [] (s_sql s))"
    and "or_default [] (s_sql s) \<noteq> []" and "s_question s \<noteq> []"
  shows "s_semantic_pass s' = Some False"
proof -
  obtain p where "semantic_prompt s (or_default [] (s_sql s)) = Inr p" using semantic_prompt_ok by blast
  moreover have "\<not> prefix ''YES'' (upper (strip ''NO: wrong table''))" by code_simp
  ultimately show ?thesis
    using semantic_check_verdict [of cfg no_llm t s] assms by (simp add: no_llm_def)
qed

theorem semantic_check_bounded_witness:
  "\<exists>s s'. checks demo_cfg ((init_state ''How many?'')\<lparr>s_sql := Some ''SELECT 1''\<rparr>)
      [(''select 1'', False), (''select 1'', False)] s \<and>
    semantic_check_node demo_cfg no_llm (\<lambda>i. \<lparr>r_ms = int i, r_ts = []\<rparr>) s = Inr s' \<and> s_semantic_pass s' = Some True"
proof -
  let ?s = "(init_state ''How many?'')\<lparr>s_sql := Some ''SELECT 1''\<rparr>"
  let ?t = "\<lambda>i. \<lparr>r_ms = int i, r_ts = []\<rparr>"
  have n: "sem_normalize_sql ''SELECT 1'' = ''select 1''" by code_simp
  obtain s1 where s1: "semantic_check_node demo_cfg no_llm ?t ?s = Inr s1" using semantic_check_total by blast
  have p1: "s_semantic_pass s1 = Some False"
    using no_llm_rejects [OF s1] by (simp add: escape_hatch_def init_state_def)
  have f1: "s_sql s1 = Some ''SELECT 1''" "s_question s1 = ''How many?''"
    using semantic_check_frame [OF s1] by (simp_all add: init_state_def)
  have c1: "or_default 0 (s_sem_reject_count s1) = 1"
    using s1 p1 by (cases rule: semantic_check_cases) (auto simp: init_state_def)
  obtain s2 where s2: "semantic_check_node demo_cfg no_llm ?t s1 = Inr s2" using semantic_check_total by blast
  have p2: "s_semantic_pass s2 = Some False"
    using no_llm_rejects [OF s2] c1 f1 by (simp add: escape_hatch_def)
  have f2: "s_sql s2 = Some ''SELECT 1''" using semantic_check_frame [OF s2] f1 by simp
  have "checks demo_cfg ?s ([] @ [(checked_query ?s, s_semantic_pass s1 = Some True)]) s1"
    by (rule checks.next_check [OF checks.no_check s1])
  from checks.next_check [OF this s2] have h: "checks demo_cfg ?s ([] @ replicate 2 (''select 1'', False) @ []) s2"
    using p1 p2 f1 n by (simp add: checked_query_def numeral_2_eq_2)
  show ?thesis
    using semantic_check_bounded [OF h, of no_llm ?t] h f2 n
    by (auto simp: checked_query_def init_state_def numeral_2_eq_2)
qed

end
