(* ===== verification/Retrieval.thy ===== *)
theory Retrieval
  imports AgentState
begin

text \<open>
  The retrieval layer below the schema retriever: \<open>retrieval/rag_retrieve.py\<close> (prompt context),
  \<open>retrieval/hybrid_search.py\<close> (keyword search and reciprocal rank fusion),
  \<open>retrieval/fk_expand.py\<close> (foreign-key graph) and \<open>retrieval/column_prune.py\<close>. The vector store
  and the BM25 scores are parameters. Fusion scores are exact rationals. A Python set that is
  turned into a list is listed in insertion order.
\<close>

subsection \<open>rag_retrieve.py\<close>

text \<open>A row of a vector store answer: id, document, metadata.\<close>

type_synonym store_query = "string \<Rightarrow> (string \<times> string) option \<Rightarrow> nat \<Rightarrow> (string \<times> string \<times> pydict) list py"

definition item_of_row :: "string \<times> string \<times> pydict \<Rightarrow> chunk" where
  "item_of_row row = (case row of (doc_id, doc, meta) \<Rightarrow>
     \<lparr>ch_content = doc, ch_source = py_str (d_get_or meta ''source_path'' (PStr [])),
      ch_meta = Some meta\<rparr>)"

definition retrieve :: "store_query \<Rightarrow> string \<Rightarrow> nat \<Rightarrow> chunk list py" where
  "retrieve query question k =
     py_bind (query question None k) (\<lambda>rows. Inr (map item_of_row rows))"

definition retrieve_semantic :: "store_query \<Rightarrow> string \<Rightarrow> string \<Rightarrow> nat \<Rightarrow> chunk list py" where
  "retrieve_semantic query question db_id k =
     py_bind (query question (Some (''db_id'', db_id)) k) (\<lambda>rows. Inr (map item_of_row rows))"

definition format_retrieved :: "chunk list \<Rightarrow> string" where
  "format_retrieved chunks =
     join (nl @ nl) (map (\<lambda>(i, c). ''['' @ show_nat (i + 1) @ ''] (source: '' @ ch_source c @ '')'' @ nl
        @ ch_content c) (enumerate 0 chunks))"

definition chunk_type :: "chunk \<Rightarrow> pyv" where
  "chunk_type c =
     (case ch_meta c of Some m \<Rightarrow> d_get_or m ''chunk_type'' (PStr ''domain'') | None \<Rightarrow> PStr ''domain'')"

definition is_schema_chunk :: "chunk \<Rightarrow> bool" where
  "is_schema_chunk c \<longleftrightarrow> chunk_type c = PStr ''schema''"

definition notes_part :: "chunk \<Rightarrow> string" where
  "notes_part c =
     (let heading = (case ch_meta c of Some m \<Rightarrow> d_get_or m ''heading'' (PStr []) | None \<Rightarrow> PStr [])
      in if truthy heading then ''## '' @ py_str heading @ nl @ ch_content c else ch_content c)"

definition build_prompt_context :: "chunk list \<Rightarrow> string \<times> string" where
  "build_prompt_context chunks =
     (join (nl @ nl) (map ch_content (filter is_schema_chunk chunks)),
      join (nl @ nl) (map notes_part (filter (\<lambda>c. \<not> is_schema_chunk c) chunks)))"

text \<open>Every chunk ends up in exactly one of the two texts.\<close>

lemma build_prompt_context_complete:
  assumes "c \<in> set chunks"
  shows "if is_schema_chunk c then str_in (ch_content c) (fst (build_prompt_context chunks))
         else str_in (notes_part c) (snd (build_prompt_context chunks))"
  using assms by (auto simp: build_prompt_context_def intro!: str_in_join)

subsection \<open>hybrid_search.py\<close>

definition RRF_K :: nat where "RRF_K = 60"

text \<open>\<open>re.findall(r"[a-zA-Z0-9_]+", text.lower())\<close>\<close>

definition ascii_word_char :: "char \<Rightarrow> bool" where
  "ascii_word_char c \<longleftrightarrow> is_upper_char c \<or> is_lower_char c \<or> is_digit_char c \<or> c = CHR ''_''"

definition ascii_words :: "string \<Rightarrow> string list" where
  "ascii_words s = map m_text (re_finditer (rplus (RCls ascii_word_char)) (lower s))"

record bm25_meta =
  bm_document :: string
  bm_db_id :: string
  bm_table_name :: string
  bm_chunk_type :: string
  bm_source_path :: string

definition bm_key :: "bm25_meta \<Rightarrow> string \<times> string \<times> string" where
  "bm_key m = (bm_db_id m, bm_table_name m, bm_chunk_type m)"

definition bm_item :: "bm25_meta \<Rightarrow> chunk" where
  "bm_item m = \<lparr>ch_content = bm_document m, ch_source = bm_source_path m,
     ch_meta = Some [(''db_id'', PStr (bm_db_id m)), (''table_name'', PStr (bm_table_name m)),
                     (''chunk_type'', PStr (bm_chunk_type m))]\<rparr>"

text \<open>The loop that skips seen keys and stops at \<open>k\<close> results. The test for \<open>k\<close> follows the append, so
  one result is returned even for \<open>k = 0\<close>.\<close>

fun bm_collect :: "nat \<Rightarrow> bm25_meta list \<Rightarrow> (string \<times> string \<times> string) list \<Rightarrow> chunk list \<Rightarrow> chunk list" where
  "bm_collect k [] seen results = results"
| "bm_collect k (m # ms) seen results =
     (if bm_key m \<in> set seen then bm_collect k ms seen results
      else let results = results @ [bm_item m]
           in if k \<le> length results then results
              else bm_collect k ms (bm_key m # seen) results)"

definition bm25_search ::
  "(string list \<Rightarrow> rat list) \<Rightarrow> bm25_meta list \<Rightarrow> string \<Rightarrow> string \<Rightarrow> nat \<Rightarrow> chunk list" where
  "bm25_search get_scores meta question db_id k =
     (let tokenized = ascii_words question
      in if tokenized = [] \<or> meta = [] then []
         else
           let scored = filter (\<lambda>(sc, m). bm_db_id m = db_id) (zip (get_scores tokenized) meta);
               scored = sort_desc fst scored
           in bm_collect k (map snd scored) [] [])"

definition rrf_key :: "chunk \<Rightarrow> string" where
  "rrf_key item =
     (let m = or_default [] (ch_meta item)
      in py_str (d_get_or m ''db_id'' (PStr [])) @ ''::'' @ py_str (d_get_or m ''table_name'' (PStr []))
         @ ''::'' @ py_str (d_get_or m ''chunk_type'' (PStr [])))"

definition score_get :: "(string \<times> rat) list \<Rightarrow> string \<Rightarrow> rat" where
  "score_get scores rk = (case map_of scores rk of None \<Rightarrow> 0 | Some q \<Rightarrow> q)"

text \<open>One ranked item: its score grows by \<open>1 / (k + rank + 1)\<close>, and the first item of a key is kept.\<close>

definition rrf_add ::
  "nat \<Rightarrow> nat \<times> chunk \<Rightarrow> (string \<times> rat) list \<times> (string \<times> chunk) list
    \<Rightarrow> (string \<times> rat) list \<times> (string \<times> chunk) list" where
  "rrf_add k ri acc =
     (let (rank, item) = ri; (scores, items) = acc; rk = rrf_key item
      in (AList.update rk (score_get scores rk + 1 / of_nat (k + rank + 1)) scores,
          if map_of items rk = None then items @ [(rk, item)] else items))"

definition rrf_scan :: "nat \<Rightarrow> chunk list list \<Rightarrow> (string \<times> rat) list \<times> (string \<times> chunk) list" where
  "rrf_scan k result_lists = fold (rrf_add k) (concat (map (enumerate 0) result_lists)) ([], [])"

definition rrf_merge :: "nat \<Rightarrow> chunk list list \<Rightarrow> chunk list" where
  "rrf_merge k result_lists =
     (let (scores, items) = rrf_scan k result_lists;
          merged = sort_desc snd scores
      in map (\<lambda>(rk, _). the (map_of items rk)) merged)"

definition hybrid_retrieve ::
  "store_query \<Rightarrow> (string list \<Rightarrow> rat list) \<Rightarrow> bm25_meta list \<Rightarrow> string \<Rightarrow> string \<Rightarrow> nat \<Rightarrow> chunk list py" where
  "hybrid_retrieve query get_scores meta question db_id k =
     py_bind (retrieve_semantic query question db_id (k * 2)) (\<lambda>semantic_results.
       let bm25_results = bm25_search get_scores meta question db_id (k * 2)
       in if bm25_results = [] then Inr (take k semantic_results)
          else if semantic_results = [] then Inr (take k bm25_results)
          else Inr (take k (rrf_merge RRF_K [semantic_results, bm25_results])))"

definition retrieve_bird ::
  "store_query \<Rightarrow> (string list \<Rightarrow> rat list) \<Rightarrow> bm25_meta list \<Rightarrow> string \<Rightarrow> string \<Rightarrow> nat \<Rightarrow> bool
    \<Rightarrow> chunk list py" where
  "retrieve_bird query get_scores meta question db_id k hybrid =
     (if hybrid then hybrid_retrieve query get_scores meta question db_id k
      else retrieve_semantic query question db_id k)"

subsection \<open>Facts about the fusion\<close>

definition contribution :: "nat \<Rightarrow> string \<Rightarrow> nat \<times> chunk \<Rightarrow> rat" where
  "contribution k rk ri = (if rrf_key (snd ri) = rk then 1 / of_nat (k + fst ri + 1) else 0)"

text \<open>The fusion score of a key: one reciprocal rank for each occurrence in each list.\<close>

definition rrf_score :: "nat \<Rightarrow> chunk list list \<Rightarrow> string \<Rightarrow> rat" where
  "rrf_score k result_lists rk =
     sum_list (map (\<lambda>results. sum_list (map (contribution k rk) (enumerate 0 results))) result_lists)"

definition rrf_inv :: "(string \<times> rat) list \<times> (string \<times> chunk) list \<Rightarrow> bool" where
  "rrf_inv acc \<longleftrightarrow> map fst (fst acc) = map fst (snd acc) \<and> distinct (map fst (fst acc)) \<and>
     (\<forall>(rk, c)\<in>set (snd acc). rrf_key c = rk)"

lemma rrf_add_step:
  assumes "rrf_inv acc"
  shows "rrf_inv (rrf_add k ri acc)"
    and "set (map fst (fst (rrf_add k ri acc))) = insert (rrf_key (snd ri)) (set (map fst (fst acc)))"
    and "score_get (fst (rrf_add k ri acc)) rk = score_get (fst acc) rk + contribution k rk ri"
    and "set (map snd (snd (rrf_add k ri acc))) \<subseteq> insert (snd ri) (set (map snd (snd acc)))"
proof -
  obtain rank item where ri: "ri = (rank, item)" by (cases ri)
  obtain scores items where acc: "acc = (scores, items)" by (cases acc)
  have keys: "map fst scores = map fst items" "distinct (map fst scores)"
    using assms by (auto simp: rrf_inv_def acc)
  have mem: "map_of items (rrf_key item) = None \<longleftrightarrow> rrf_key item \<notin> set (map fst scores)"
    using keys(1) by (simp add: map_of_eq_None_iff)
  show "rrf_inv (rrf_add k ri acc)"
    using assms mem
    by (cases "map_of items (rrf_key item)")
       (auto simp: rrf_inv_def rrf_add_def ri acc update_keys distinct_update Let_def)
  show "set (map fst (fst (rrf_add k ri acc))) = insert (rrf_key (snd ri)) (set (map fst (fst acc)))"
    by (auto simp: rrf_add_def ri acc update_keys Let_def)
  show "score_get (fst (rrf_add k ri acc)) rk = score_get (fst acc) rk + contribution k rk ri"
    by (auto simp: rrf_add_def ri acc score_get_def update_conv contribution_def Let_def)
  show "set (map snd (snd (rrf_add k ri acc))) \<subseteq> insert (snd ri) (set (map snd (snd acc)))"
    by (auto simp: rrf_add_def ri acc Let_def)
qed

lemma rrf_fold:
  assumes "rrf_inv acc"
  shows "rrf_inv (fold (rrf_add k) ris acc) \<and>
    set (map fst (fst (fold (rrf_add k) ris acc))) = set (map fst (fst acc)) \<union> (rrf_key \<circ> snd) ` set ris \<and>
    score_get (fst (fold (rrf_add k) ris acc)) rk = score_get (fst acc) rk + sum_list (map (contribution k rk) ris) \<and>
    set (map snd (snd (fold (rrf_add k) ris acc))) \<subseteq> snd ` set ris \<union> set (map snd (snd acc))"
  using assms
proof (induction ris arbitrary: acc)
  case (Cons ri ris)
  let ?acc = "rrf_add k ri acc"
  have inv: "rrf_inv ?acc" by (rule rrf_add_step(1) [OF Cons.prems])
  note IH = Cons.IH [OF inv]
  have f: "fold (rrf_add k) (ri # ris) acc = fold (rrf_add k) ris ?acc" by simp
  have "set (map fst (fst (fold (rrf_add k) ris ?acc))) =
      set (map fst (fst acc)) \<union> (rrf_key \<circ> snd) ` set (ri # ris)"
    using IH rrf_add_step(2) [OF Cons.prems, of k ri] by auto
  moreover have "score_get (fst (fold (rrf_add k) ris ?acc)) rk =
      score_get (fst acc) rk + sum_list (map (contribution k rk) (ri # ris))"
    using IH rrf_add_step(3) [OF Cons.prems, of k ri rk] by (simp add: add.assoc)
  moreover have "set (map snd (snd (fold (rrf_add k) ris ?acc))) \<subseteq>
      snd ` set (ri # ris) \<union> set (map snd (snd acc))"
  proof -
    have "set (map snd (snd (fold (rrf_add k) ris ?acc))) \<subseteq> snd ` set ris \<union> set (map snd (snd ?acc))"
      using IH by blast
    then show ?thesis using rrf_add_step(4) [OF Cons.prems, of k ri] unfolding list.set image_insert by blast
  qed
  ultimately show ?case unfolding f using IH by blast
qed simp

lemma rrf_scan_facts:
  "rrf_inv (rrf_scan k ls)"
  "set (map fst (fst (rrf_scan k ls))) = rrf_key ` (\<Union>l\<in>set ls. set l)"
  "score_get (fst (rrf_scan k ls)) rk = rrf_score k ls rk"
  "set (map snd (snd (rrf_scan k ls))) \<subseteq> (\<Union>l\<in>set ls. set l)"
proof -
  let ?ris = "concat (map (enumerate 0) ls)"
  have inv: "rrf_inv ([], [])" by (simp add: rrf_inv_def)
  note f = rrf_fold [OF inv, of k ?ris]
  have img: "snd ` set ?ris = (\<Union>l\<in>set ls. set l)"
  proof -
    have "snd ` set (enumerate 0 l) = set l" for l :: "chunk list"
      by (metis list.set_map map_snd_enumerate)
    then show ?thesis by (simp add: image_UN)
  qed
  show "rrf_inv (rrf_scan k ls)" using f by (simp add: rrf_scan_def)
  show "set (map fst (fst (rrf_scan k ls))) = rrf_key ` (\<Union>l\<in>set ls. set l)"
    using f unfolding rrf_scan_def img [symmetric] image_comp by simp
  show "set (map snd (snd (rrf_scan k ls))) \<subseteq> (\<Union>l\<in>set ls. set l)"
    using f img by (simp add: rrf_scan_def)
  have "sum_list (map (contribution k rk) ?ris) = rrf_score k ls rk"
    by (induction ls) (simp_all add: rrf_score_def)
  then show "score_get (fst (rrf_scan k ls)) rk = rrf_score k ls rk"
    using f by (simp add: rrf_scan_def score_get_def)
qed

lemma rrf_item:
  assumes "rrf_inv acc" and "rk \<in> set (map fst (fst acc))"
  shows "\<exists>c. map_of (snd acc) rk = Some c \<and> rrf_key c = rk \<and> c \<in> set (map snd (snd acc))"
proof -
  have "rk \<in> fst ` set (snd acc)" using assms by (metis list.set_map rrf_inv_def)
  then obtain c where "map_of (snd acc) rk = Some c"
    by (metis map_of_eq_None_iff option.exhaust)
  moreover from this have "(rk, c) \<in> set (snd acc)" by (rule map_of_SomeD)
  ultimately show ?thesis using assms(1) by (force simp: rrf_inv_def)
qed

text \<open>Reciprocal rank fusion. The merged list has exactly one item for each key of the input
  lists, each item comes from an input list, and the items stand in decreasing order of their
  fusion score, the sum of \<open>1 / (k + rank + 1)\<close> over all occurrences of the key.\<close>

theorem rrf_merge_correct:
  "distinct (map rrf_key (rrf_merge k ls)) \<and>
   set (map rrf_key (rrf_merge k ls)) = rrf_key ` (\<Union>l\<in>set ls. set l) \<and>
   set (rrf_merge k ls) \<subseteq> (\<Union>l\<in>set ls. set l) \<and>
   sorted_wrt (\<lambda>a b. rrf_score k ls (rrf_key b) \<le> rrf_score k ls (rrf_key a)) (rrf_merge k ls)"
proof -
  obtain scores items where sc: "rrf_scan k ls = (scores, items)" by fastforce
  let ?m = "sort_desc snd scores"
  note facts = rrf_scan_facts [of k ls, unfolded sc fst_conv snd_conv]
  have item: "\<exists>c. map_of items rk = Some c \<and> rrf_key c = rk \<and> c \<in> set (map snd items)"
    if "rk \<in> set (map fst scores)" for rk
    using rrf_item [OF facts(1)] that by simp
  have out: "rrf_merge k ls = map (\<lambda>x. the (map_of items (fst x))) ?m"
    by (simp add: rrf_merge_def sc case_prod_unfold)
  have keys: "map rrf_key (rrf_merge k ls) = map fst ?m"
    unfolding out using item by (fastforce simp: in_set_conv_nth)
  have dist: "distinct (map fst scores)" using facts(1) unfolding rrf_inv_def fst_conv by blast
  have val: "snd x = rrf_score k ls (fst x)" if "x \<in> set scores" for x
    using map_of_is_SomeI [OF dist, of "fst x" "snd x"] that facts(3) [of "fst x"]
    by (simp add: score_get_def)
  have "sorted_wrt (\<lambda>a b. rrf_score k ls (fst b) \<le> rrf_score k ls (fst a)) ?m"
    by (rule sorted_wrt_mono_rel [OF _ sorted_sort_desc [of snd scores]]) (use val in auto)
  then have "sorted_wrt (\<lambda>a b. rrf_score k ls b \<le> rrf_score k ls a) (map rrf_key (rrf_merge k ls))"
    unfolding keys by (simp add: sorted_wrt_map)
  moreover have "set (rrf_merge k ls) \<subseteq> (\<Union>l\<in>set ls. set l)"
    unfolding out using item facts(4) by fastforce
  moreover have "distinct (map rrf_key (rrf_merge k ls))"
    unfolding keys by (rule distinct_sort_desc [OF dist])
  moreover have "set (map rrf_key (rrf_merge k ls)) = rrf_key ` (\<Union>l\<in>set ls. set l)"
    unfolding keys using facts(2) by simp
  ultimately show ?thesis by (simp add: sorted_wrt_map)
qed

text \<open>Hybrid retrieval returns at most \<open>k\<close> chunks, and fails only when the vector store does.\<close>

theorem hybrid_retrieve_bound:
  "(case hybrid_retrieve query get_scores meta question db_id k of
      Inr chunks \<Rightarrow> length chunks \<le> k
    | Inl e \<Rightarrow> query question (Some (''db_id'', db_id)) (k * 2) = Inl e)"
  by (auto simp: hybrid_retrieve_def retrieve_semantic_def Let_def py_bind_def split: sum.split)

subsection \<open>fk_expand.py\<close>

record fk_node =
  references :: "string list"
  referenced_by :: "string list"

type_synonym fk_graph = "(string \<times> fk_node) list"

definition fk_get :: "fk_graph \<Rightarrow> string \<Rightarrow> fk_node" where
  "fk_get g t = (case map_of g t of Some n \<Rightarrow> n | None \<Rightarrow> \<lparr>references = [], referenced_by = []\<rparr>)"

definition set_add :: "'a \<Rightarrow> 'a list \<Rightarrow> 'a list" where
  "set_add x xs = (if x \<in> set xs then xs else xs @ [x])"

lemma set_set_add [simp]: "set (set_add x xs) = insert x (set xs)"
  by (auto simp: set_add_def)

text \<open>One foreign key from \<open>src\<close> to \<open>tgt\<close>: an entry in both directions.\<close>

definition add_edge :: "string \<Rightarrow> string \<Rightarrow> fk_graph \<Rightarrow> fk_graph" where
  "add_edge src tgt g =
     (let n = fk_get g src;
          g = AList.update src (n\<lparr>references := set_add tgt (references n)\<rparr>) g;
          m = fk_get g tgt
      in AList.update tgt (m\<lparr>referenced_by := set_add src (referenced_by m)\<rparr>) g)"

definition fk_edges :: "schema_info \<Rightarrow> (string \<times> string) list" where
  "fk_edges info =
     filter (\<lambda>(src, tgt). tgt \<in> fst ` set info)
       (concat (map (\<lambda>(t_lower, t_info). map (\<lambda>fk. (t_lower, lower (referred_table fk))) (fks t_info)) info))"

definition build_graph :: "schema_info \<Rightarrow> fk_graph" where
  "build_graph info = fold (\<lambda>(src, tgt). add_edge src tgt) (fk_edges info) []"

text \<open>The module caches one graph, for one URL.\<close>

definition get_graph ::
  "(string \<Rightarrow> schema_info py) \<Rightarrow> string \<Rightarrow> string option \<Rightarrow> (string \<times> fk_graph) option
    \<Rightarrow> (fk_graph \<times> (string \<times> fk_graph) option) py" where
  "get_graph lookup default_url database_url cache =
     (let db = (case database_url of Some u \<Rightarrow> if u = [] then default_url else u | None \<Rightarrow> default_url)
      in case cache of
           Some (u, g) \<Rightarrow>
             if u = db then Inr (g, cache)
             else py_bind (lookup db) (\<lambda>info. Inr (build_graph info, Some (db, build_graph info)))
         | None \<Rightarrow> py_bind (lookup db) (\<lambda>info. Inr (build_graph info, Some (db, build_graph info))))"

definition expand_tables :: "fk_graph \<Rightarrow> string list \<Rightarrow> string list" where
  "expand_tables graph selected =
     fold (\<lambda>t expanded.
       (case map_of graph (lower t) of
          None \<Rightarrow> expanded
        | Some n \<Rightarrow> fold set_add (referenced_by n) (fold set_add (references n) expanded)))
       selected (remdups selected)"

definition parse_matched_tables :: "chunk list \<Rightarrow> string list" where
  "parse_matched_tables rag_chunks =
     fold (\<lambda>c tabs.
       (case ch_meta c of
          None \<Rightarrow> tabs
        | Some m \<Rightarrow>
            let tn = d_get_or m ''table_name'' (PStr [])
            in if truthy tn \<and> py_str tn \<notin> set tabs then tabs @ [py_str tn] else tabs))
       rag_chunks []"

text \<open>\<open>samples\<close> is the text \<open>get_sample_rows\<close> returns for a table.\<close>

definition build_ddl_for_tables ::
  "(string \<Rightarrow> schema_info py) \<Rightarrow> (string \<Rightarrow> string) \<Rightarrow> string list \<Rightarrow> string option \<Rightarrow> string py" where
  "build_ddl_for_tables lookup samples table_names database_url =
     (case database_url of
        None \<Rightarrow> Inr []
      | Some url \<Rightarrow>
          if table_names = [] \<or> url = [] then Inr []
          else py_bind (lookup url) (\<lambda>info.
            let table_lines = (\<lambda>t.
                  (case map_of info (lower t) of
                     None \<Rightarrow> []
                   | Some t_info \<Rightarrow>
                       [''CREATE TABLE '' @ actual_name t_info @ '' ('',
                        join comma_nl (map (column_member (pk_cols t_info)) (columns t_info)
                                       @ map fk_member (fks t_info)),
                        '');'',
                        samples (actual_name t_info) @ nl]))
            in Inr (join nl ((''-- SQL Dialect: '' @ ddl_get_dialect database_url @ nl)
                             # concat (map table_lines table_names)))))"

definition expand_schema_text ::
  "(string \<Rightarrow> schema_info py) \<Rightarrow> (string \<Rightarrow> string) \<Rightarrow> fk_graph \<Rightarrow> string \<Rightarrow> chunk list \<Rightarrow> string option
    \<Rightarrow> string py" where
  "expand_schema_text lookup samples graph schema_text rag_chunks database_url =
     (let matched = parse_matched_tables rag_chunks
      in if matched = [] then Inr schema_text
         else
           let missing = filter (\<lambda>t. t \<notin> set matched) (expand_tables graph matched)
           in if missing = [] then Inr schema_text
              else py_bind (build_ddl_for_tables lookup samples missing database_url) (\<lambda>extra_ddl.
                Inr (schema_text @ nl @ nl @ ''-- FK-expanded tables (1-hop JOIN paths)'' @ nl @ extra_ddl)))"

subsection \<open>The graph holds exactly the foreign keys\<close>

definition edge_in :: "fk_graph \<Rightarrow> string \<Rightarrow> string \<Rightarrow> bool" where
  "edge_in g a b \<longleftrightarrow> b \<in> set (references (fk_get g a))"

definition edge_back :: "fk_graph \<Rightarrow> string \<Rightarrow> string \<Rightarrow> bool" where
  "edge_back g a b \<longleftrightarrow> a \<in> set (referenced_by (fk_get g b))"

lemma fk_get_update: "fk_get (AList.update t n g) t' = (if t' = t then n else fk_get g t')"
  by (auto simp: fk_get_def update_conv)

lemma add_edge_edges:
  "edge_in (add_edge s d g) a b \<longleftrightarrow> edge_in g a b \<or> (a = s \<and> b = d)"
  "edge_back (add_edge s d g) a b \<longleftrightarrow> edge_back g a b \<or> (a = s \<and> b = d)"
  by (auto simp: edge_in_def edge_back_def add_edge_def Let_def fk_get_update)

lemma build_graph_edges:
  "edge_in (build_graph info) a b \<longleftrightarrow> (a, b) \<in> set (fk_edges info)"
  "edge_back (build_graph info) a b \<longleftrightarrow> (a, b) \<in> set (fk_edges info)"
proof -
  have "edge_in (fold (\<lambda>(src, tgt). add_edge src tgt) es g) a b \<longleftrightarrow> edge_in g a b \<or> (a, b) \<in> set es"
    and "edge_back (fold (\<lambda>(src, tgt). add_edge src tgt) es g) a b \<longleftrightarrow> edge_back g a b \<or> (a, b) \<in> set es" for es g
    by (induction es arbitrary: g) (auto simp: add_edge_edges)
  then show "edge_in (build_graph info) a b \<longleftrightarrow> (a, b) \<in> set (fk_edges info)"
    and "edge_back (build_graph info) a b \<longleftrightarrow> (a, b) \<in> set (fk_edges info)"
    by (auto simp: build_graph_def edge_in_def edge_back_def fk_get_def)
qed

lemma set_fold_set_add [simp]: "set (fold set_add xs ys) = set xs \<union> set ys"
  by (induction xs arbitrary: ys) auto

lemma distinct_fold_set_add: "distinct ys \<Longrightarrow> distinct (fold set_add xs ys)"
  by (induction xs arbitrary: ys) (auto simp: set_add_def)

lemma set_expand_tables:
  "set (expand_tables g sel) = set sel \<union> {b. \<exists>t\<in>set sel. edge_in g (lower t) b \<or> edge_back g b (lower t)}"
proof -
  let ?f = "\<lambda>t expanded. (case map_of g (lower t) of None \<Rightarrow> expanded
      | Some n \<Rightarrow> fold set_add (referenced_by n) (fold set_add (references n) expanded))"
  have step: "set (?f t ys) = set ys \<union> {b. edge_in g (lower t) b \<or> edge_back g b (lower t)}" for t ys
    by (auto simp: edge_in_def edge_back_def fk_get_def split: option.split)
  have "set (fold ?f ts ys) = set ys \<union> {b. \<exists>t\<in>set ts. edge_in g (lower t) b \<or> edge_back g b (lower t)}" for ts ys
    by (induction ts arbitrary: ys) (auto simp: step)
  then show ?thesis by (simp add: expand_tables_def)
qed

text \<open>The expansion along foreign keys adds to the selected tables exactly their neighbours in
  the schema: a table is added when a foreign key leads to it from a selected table, or from it
  to a selected table (names compared in lower case).\<close>

theorem expand_tables_neighbours:
  "set (expand_tables (build_graph info) sel) =
     set sel \<union> {b. \<exists>t\<in>set sel. (lower t, b) \<in> set (fk_edges info) \<or> (b, lower t) \<in> set (fk_edges info)}"
  unfolding set_expand_tables build_graph_edges by (rule refl)

end
