(* ===== verification/ColumnPrune.thy ===== *)
theory ColumnPrune
  imports Retrieval "HOL-Library.Multiset"
begin

text \<open>
  \<open>retrieval/column_prune.py\<close>: for a table with many columns, keep its keys and the columns that
  share most words with the question, within a budget; and the compact DDL of what is kept.
  Chinese text is UTF-8, so a character of the range of \<open>[\<one>-\<nine>]\<close> used by the source (code points
  4E00 to 9FFF) is a group of three bytes.
\<close>

subsection \<open>Tokens\<close>

definition utf8_code :: "string \<Rightarrow> nat" where
  "utf8_code s = (case s of
     a # b # c # _ \<Rightarrow> (ord_of a - 224) * 4096 + (ord_of b - 128) * 64 + (ord_of c - 128) | _ \<Rightarrow> 0)"

definition cjk_head :: "string \<Rightarrow> bool" where
  "cjk_head s \<longleftrightarrow>
     (case s of
        a # b # c # _ \<Rightarrow> 224 \<le> ord_of a \<and> ord_of a < 240 \<and> 128 \<le> ord_of b \<and> ord_of b < 192 \<and>
          128 \<le> ord_of c \<and> ord_of c < 192 \<and> 19968 \<le> utf8_code s \<and> utf8_code s \<le> 40959
      | _ \<Rightarrow> False)"

text \<open>The maximal segments of such characters, each a list of characters\<close>

function cjk_segments :: "string list \<Rightarrow> string \<Rightarrow> string list list" where
  "cjk_segments acc [] = (if acc = [] then [] else [rev acc])"
| "cjk_segments acc (c # s) =
     (if cjk_head (c # s) then cjk_segments (take 3 (c # s) # acc) (drop 3 (c # s))
      else (if acc = [] then cjk_segments [] s else rev acc # cjk_segments [] s))"
  by pat_completeness auto
termination
  by (relation "measure (\<lambda>(acc, s). length s)") auto

fun bigrams :: "string list \<Rightarrow> string list" where
  "bigrams (a # b # xs) = (a @ b) # bigrams (b # xs)"
| "bigrams _ = []"

definition tokenize :: "string \<Rightarrow> string list" where
  "tokenize s =
     remdups (ascii_words s @ concat (map (\<lambda>seg. bigrams seg @ seg) (cjk_segments [] s)))"

text \<open>\<open>len(question_tokens & col_tokens)\<close>\<close>

definition score_column :: "string \<Rightarrow> string \<Rightarrow> string list \<Rightarrow> nat" where
  "score_column col_name table_name question_tokens =
     length (filter (\<lambda>w. w \<in> set question_tokens) (tokenize (table_name @ '' '' @ col_name)))"

subsection \<open>Pruning\<close>

definition resolve_actual_name :: "schema_info \<Rightarrow> string \<Rightarrow> string option" where
  "resolve_actual_name info table_name = map_option actual_name (map_of info (lower table_name))"

text \<open>The set \<open>pk_cols | fk_cols\<close>\<close>

definition mandatory_cols :: "table_info \<Rightarrow> string list" where
  "mandatory_cols t_info = remdups (pk_cols t_info @ fk_cols t_info)"

definition scored_cols :: "string list \<Rightarrow> string \<Rightarrow> table_info \<Rightarrow> (nat \<times> string) list" where
  "scored_cols qt t t_info =
     sort_desc fst
       (map (\<lambda>c. (score_column (c_name c) t qt, c_name c))
         (filter (\<lambda>c. c_name c \<notin> set (mandatory_cols t_info)) (columns t_info)))"

definition prune_table :: "string list \<Rightarrow> nat \<Rightarrow> nat \<Rightarrow> schema_info \<Rightarrow> string \<Rightarrow> string list" where
  "prune_table qt max_cols_per_table max_cols_threshold schema_info t =
     (case map_of schema_info (lower t) of
        None \<Rightarrow> []
      | Some info \<Rightarrow>
          let cols = columns info;
              mandatory = mandatory_cols info
          in if length cols \<le> max_cols_threshold then map c_name cols
             else
               let scored = scored_cols qt t info;
                   budget = max_cols_per_table - length mandatory
               in sort mandatory @ map snd (take budget scored))"

definition prune_columns ::
  "string \<Rightarrow> string list \<Rightarrow> nat \<Rightarrow> nat \<Rightarrow> schema_info \<Rightarrow> (string \<times> string list) list" where
  "prune_columns question table_names max_cols_per_table max_cols_threshold schema_info =
     fold (\<lambda>t result. AList.update t
             (prune_table (tokenize question) max_cols_per_table max_cols_threshold schema_info t) result)
       table_names []"

subsection \<open>The compact DDL\<close>

text \<open>A kept name that is no column raises \<open>KeyError\<close>, as \<open>all_cols[name]\<close> does; a later column of
  the same name replaces an earlier one in the dictionary.\<close>

definition kept_member :: "table_info \<Rightarrow> string \<Rightarrow> string py" where
  "kept_member info name =
     (case find (\<lambda>c. c_name c = name) (rev (columns info)) of
        None \<Rightarrow> Inl (PyExc ''KeyError'' name)
      | Some c \<Rightarrow> Inr (column_member (pk_cols info) c))"

definition compact_table :: "schema_info \<Rightarrow> (string \<times> string list) list \<Rightarrow> string \<Rightarrow> string list py" where
  "compact_table schema_info pruned t =
     (case map_of schema_info (lower t) of
        None \<Rightarrow> Inr []
      | Some info \<Rightarrow>
          let kept = (case map_of pruned t of Some k \<Rightarrow> k
                      | None \<Rightarrow> remdups (map c_name (columns info)))
          in py_bind (py_map (kept_member info) kept) (\<lambda>members.
               let members = members @ map fk_member
                     (filter (\<lambda>fk. list_all (\<lambda>c. c \<in> set kept) (constrained_columns fk)) (fks info))
               in Inr [''CREATE TABLE '' @ t @ '' ('', join comma_nl members, '');'']))"

definition build_compact_ddl ::
  "string list \<Rightarrow> (string \<times> string list) list \<Rightarrow> schema_info \<Rightarrow> string option \<Rightarrow> string py" where
  "build_compact_ddl table_names pruned schema_info database_url =
     py_bind (py_map (compact_table schema_info pruned) table_names) (\<lambda>table_lines.
       Inr (join nl ((''-- SQL Dialect: '' @ ddl_get_dialect database_url) # concat table_lines)))"

subsection \<open>What is kept\<close>

definition wf_table :: "table_info \<Rightarrow> bool" where
  "wf_table info \<longleftrightarrow>
     distinct (map c_name (columns info)) \<and>
     list_all (\<lambda>n. n \<in> c_name ` set (columns info)) (pk_cols info @ fk_cols info)"

lemma scored_cols_set:
  "snd ` set (scored_cols qt t info) = c_name ` set (columns info) - set (mandatory_cols info)"
  by (force simp: scored_cols_def)

lemma scored_cols_distinct:
  "distinct (map c_name (columns info)) \<Longrightarrow> distinct (map snd (scored_cols qt t info))"
  unfolding scored_cols_def
  by (intro distinct_sort_desc) (simp add: comp_def distinct_map_filter)

lemma scored_cols_sorted: "sorted_wrt (\<lambda>a b. fst b \<le> fst a) (scored_cols qt t info)"
  unfolding scored_cols_def by (rule sorted_sort_desc)

lemma scored_cols_score:
  "x \<in> set (scored_cols qt t info) \<Longrightarrow> fst x = score_column (snd x) t qt"
  by (auto simp: scored_cols_def)

text \<open>A column that was dropped does not score better than one that was kept within the budget.\<close>

lemma dropped_not_better:
  assumes "a \<in> set (take n xs)" and "b \<in> set (drop n xs)" and "sorted_wrt (\<lambda>a b. fst b \<le> fst a) xs"
  shows "fst b \<le> fst a"
proof -
  have "sorted_wrt (\<lambda>a b. fst b \<le> fst a) (take n xs @ drop n xs)" using assms(3) by simp
  then show ?thesis using assms(1,2) unfolding sorted_wrt_append by blast
qed

text \<open>Column pruning of a table whose keys are columns. A small table keeps all its columns. A
  large one keeps every primary and foreign key column, only columns of the table, no column
  twice, at most the budget or the number of key columns if that is larger; and no dropped
  column shares more words with the question than a kept column that is not a key.\<close>

theorem prune_table_correct:
  assumes "map_of schema_info (lower t) = Some info" and "wf_table info"
  shows "if length (columns info) \<le> thr
    then prune_table qt n thr schema_info t = map c_name (columns info)
    else set (pk_cols info) \<union> set (fk_cols info) \<subseteq> set (prune_table qt n thr schema_info t) \<and>
      set (prune_table qt n thr schema_info t) \<subseteq> c_name ` set (columns info) \<and>
      distinct (prune_table qt n thr schema_info t) \<and>
      length (prune_table qt n thr schema_info t) \<le> max n (length (mandatory_cols info)) \<and>
      list_all (\<lambda>k. list_all (\<lambda>d. score_column d t qt \<le> score_column k t qt)
          (filter (\<lambda>c. c \<notin> set (prune_table qt n thr schema_info t)) (map c_name (columns info))))
        (filter (\<lambda>c. c \<notin> set (mandatory_cols info)) (prune_table qt n thr schema_info t))"
proof (cases "length (columns info) \<le> thr")
  case True
  then show ?thesis using assms(1) by (simp add: prune_table_def)
next
  case False
  let ?m = "mandatory_cols info"
  let ?s = "scored_cols qt t info"
  let ?b = "n - length ?m"
  let ?k = "map snd (take ?b ?s)"
  have p: "prune_table qt n thr schema_info t = sort ?m @ ?k"
    using False assms(1) by (simp add: prune_table_def Let_def)
  have mset: "set ?m = set (pk_cols info) \<union> set (fk_cols info)" by (simp add: mandatory_cols_def)
  have sub: "set ?k \<subseteq> c_name ` set (columns info) - set ?m"
    using image_mono [OF set_take_subset, of snd ?b ?s] unfolding scored_cols_set list.set_map .
  have "set ?m \<subseteq> c_name ` set (columns info)"
    using assms(2) unfolding mset by (auto simp: wf_table_def list_all_iff)
  then have cols: "set (sort ?m @ ?k) \<subseteq> c_name ` set (columns info)" using sub by auto
  have "distinct (map snd ?s)" using scored_cols_distinct assms(2) by (simp add: wf_table_def)
  then have "distinct ?k" by (metis distinct_take take_map)
  then have dist: "distinct (sort ?m @ ?k)" using sub by (auto simp: mandatory_cols_def)
  have len: "length (sort ?m @ ?k) \<le> max n (length ?m)" by simp
  have better: "score_column d t qt \<le> score_column k t qt"
    if k: "k \<in> set (sort ?m @ ?k)" "k \<notin> set ?m" and d: "d \<in> c_name ` set (columns info)" "d \<notin> set (sort ?m @ ?k)"
    for k d
  proof -
    obtain x where x: "x \<in> set (take ?b ?s)" "snd x = k" using k by auto
    have "d \<in> snd ` set ?s" using d scored_cols_set [of qt t info] by auto
    then obtain y where y: "y \<in> set ?s" "snd y = d" by auto
    have "y \<notin> set (take ?b ?s)" using y(2) d(2) by auto
    then have "y \<in> set (drop ?b ?s)" using y(1) by (metis Un_iff append_take_drop_id set_append)
    then have "fst y \<le> fst x" using x(1) scored_cols_sorted by (intro dropped_not_better)
    moreover have "fst x = score_column k t qt"
      using x(2) scored_cols_score [OF in_set_takeD [OF x(1)]] by simp
    moreover have "fst y = score_column d t qt"
      using y(2) scored_cols_score [OF y(1)] by simp
    ultimately show ?thesis by simp
  qed
  show ?thesis
    unfolding p using False mset cols dist len better by (auto simp: list_all_iff)
qed

definition wide_table :: table_info where
  "wide_table = \<lparr>columns = map (\<lambda>n. \<lparr>c_name = n, c_type = ''TEXT'', c_nullable = True\<rparr>)
     [''id'', ''name'', ''city'', ''age''], pk_cols = [''id''], fk_cols = [], fks = [],
     actual_name = ''users''\<rparr>"

theorem prune_table_correct_witness:
  "prune_table (tokenize ''Which city?'') 2 3 [(''users'', wide_table)] ''Users'' = [''id'', ''city'']
   \<and> set (pk_cols wide_table) \<subseteq> set (prune_table (tokenize ''Which city?'') 2 3 [(''users'', wide_table)] ''Users'')"
proof -
  have "prune_table (tokenize ''Which city?'') 2 3 [(''users'', wide_table)] ''Users'' = [''id'', ''city'']"
    by code_simp
  moreover have "lower ''Users'' = ''users''" by code_simp
  moreover have "wf_table wide_table" by (simp add: wf_table_def wide_table_def)
  ultimately show ?thesis
    using prune_table_correct [of "[(''users'', wide_table)]" "''Users''" wide_table 3
        "tokenize ''Which city?''" 2]
    by (simp add: wide_table_def)
qed

end
