(* ===== verification/Difflib.thy ===== *)
theory Difflib
  imports Values
begin

text \<open>
  The part of Python's \<open>difflib\<close> the refiner uses: \<open>get_close_matches(word, possibilities, n=1,
  cutoff)\<close>. The similarity of two strings is \<open>2 * M / T\<close>, where \<open>M\<close> counts the characters in the
  matching blocks (the longest common block, then recursively to its left and right) and \<open>T\<close> is
  the total length. The \<open>autojunk\<close> heuristic only applies to words of at least 200 characters and
  is not modelled.
\<close>

fun lcp :: "'a list \<Rightarrow> 'a list \<Rightarrow> nat" where
  "lcp (x # xs) (y # ys) = (if x = y then Suc (lcp xs ys) else 0)"
| "lcp _ _ = 0"

lemma lcp_le: "lcp xs ys \<le> length xs" "lcp xs ys \<le> length ys"
  by (induction xs ys rule: lcp.induct) auto

datatype block = Block (blk_i: nat) (blk_j: nat) (blk_k: nat)

text \<open>\<open>find_longest_match\<close>: the longest block, the first in \<open>a\<close> and then in \<open>b\<close> among equals.\<close>

definition better_block :: "string \<Rightarrow> string \<Rightarrow> nat \<times> nat \<Rightarrow> block \<Rightarrow> block" where
  "better_block a b ij best =
     (let k = lcp (drop (fst ij) a) (drop (snd ij) b)
      in if blk_k best < k then Block (fst ij) (snd ij) k else best)"

definition find_longest_match :: "string \<Rightarrow> string \<Rightarrow> block" where
  "find_longest_match a b =
     fold (better_block a b) (List.product [0..<length a] [0..<length b]) (Block 0 0 0)"

definition block_in :: "string \<Rightarrow> string \<Rightarrow> block \<Rightarrow> bool" where
  "block_in a b m \<longleftrightarrow> blk_i m + blk_k m \<le> length a \<and> blk_j m + blk_k m \<le> length b \<and>
     take (blk_k m) (drop (blk_i m) a) = take (blk_k m) (drop (blk_j m) b)"

lemma lcp_take: "take (lcp xs ys) xs = take (lcp xs ys) ys"
  by (induction xs ys rule: lcp.induct) auto

lemma better_block_in:
  assumes "block_in a b m" and "fst ij < length a" and "snd ij < length b"
  shows "block_in a b (better_block a b ij m)"
  using assms lcp_le [of "drop (fst ij) a" "drop (snd ij) b"] lcp_take [of "drop (fst ij) a" "drop (snd ij) b"]
  by (auto simp: better_block_def Let_def block_in_def)

lemma longest_match_in: "block_in a b (find_longest_match a b)"
proof -
  have "block_in a b (fold (better_block a b) ps m)"
    if "block_in a b m" "\<forall>ij\<in>set ps. fst ij < length a \<and> snd ij < length b" for ps m
    using that by (induction ps arbitrary: m) (auto simp: better_block_in)
  then show ?thesis
    unfolding find_longest_match_def by (auto simp: block_in_def)
qed

function matched_size :: "string \<Rightarrow> string \<Rightarrow> nat" where
  "matched_size a b =
     (let m = find_longest_match a b
      in if blk_k m = 0 then 0
         else blk_k m + matched_size (take (blk_i m) a) (take (blk_j m) b)
            + matched_size (drop (blk_i m + blk_k m) a) (drop (blk_j m + blk_k m) b))"
  by pat_completeness auto
termination
proof (relation "measure (\<lambda>(a, b). length a)")
  fix a b :: string and m
  assume m: "m = find_longest_match a b" and k: "blk_k m \<noteq> 0"
  have "blk_i m + blk_k m \<le> length a" using longest_match_in [of a b] m by (simp add: block_in_def)
  with k show "((take (blk_i m) a, take (blk_j m) b), (a, b)) \<in> measure (\<lambda>(a, b). length a)"
    and "((drop (blk_i m + blk_k m) a, drop (blk_j m + blk_k m) b), (a, b)) \<in> measure (\<lambda>(a, b). length a)"
    by auto
qed simp

declare matched_size.simps [simp del]

definition ratio :: "string \<Rightarrow> string \<Rightarrow> rat" where
  "ratio a b =
     (if a = [] \<and> b = [] then 1
      else 2 * of_nat (matched_size a b) / of_nat (length a + length b))"

text \<open>The matching blocks lie in both strings, so the similarity is between 0 and 1.\<close>

lemma matched_size_le: "matched_size a b \<le> length a" "matched_size a b \<le> length b"
proof (induction a b rule: matched_size.induct)
  case (1 a b)
  let ?m = "find_longest_match a b"
  have m: "blk_i ?m + blk_k ?m \<le> length a" "blk_j ?m + blk_k ?m \<le> length b"
    using longest_match_in [of a b] by (auto simp: block_in_def)
  case 1
  show ?case
    using "1.IH"(1,3) [OF refl] m by (subst matched_size.simps) (force simp: Let_def)
next
  case (1 a b)
  let ?m = "find_longest_match a b"
  have m: "blk_i ?m + blk_k ?m \<le> length a" "blk_j ?m + blk_k ?m \<le> length b"
    using longest_match_in [of a b] by (auto simp: block_in_def)
  case 2
  show ?case
    using "1.IH"(2,4) [OF refl] m by (subst matched_size.simps) (force simp: Let_def)
qed

lemma ratio_bounds: "0 \<le> ratio a b" "ratio a b \<le> 1"
proof -
  have "2 * matched_size a b \<le> length a + length b" using matched_size_le [of a b] by simp
  then have "(2::rat) * of_nat (matched_size a b) \<le> of_nat (length a + length b)"
    by (metis of_nat_le_iff of_nat_mult of_nat_numeral)
  then show "0 \<le> ratio a b" "ratio a b \<le> 1"
    by (auto simp: ratio_def divide_le_eq_1)
qed

text \<open>\<open>get_close_matches(word, possibilities, n=1, cutoff)\<close>: the largest pair of similarity and
  candidate among those that reach the cutoff\<close>

fun best_pair :: "(rat \<times> string) list \<Rightarrow> (rat \<times> string) option" where
  "best_pair [] = None"
| "best_pair (p # ps) =
     (case best_pair ps of
        None \<Rightarrow> Some p
      | Some q \<Rightarrow> if fst p < fst q \<or> (fst p = fst q \<and> snd p < snd q) then Some q else Some p)"

definition get_close_match :: "string \<Rightarrow> string list \<Rightarrow> rat \<Rightarrow> string option" where
  "get_close_match word possibilities cutoff =
     map_option snd (best_pair (filter (\<lambda>p. cutoff \<le> fst p)
       (map (\<lambda>x. (ratio x word, x)) possibilities)))"

lemma best_pair_in: "best_pair ps = Some p \<Longrightarrow> p \<in> set ps"
  by (induction ps arbitrary: p) (auto split: option.splits if_splits)

lemma best_pair_max: "best_pair ps = Some p \<Longrightarrow> q \<in> set ps \<Longrightarrow> fst q \<le> fst p"
proof (induction ps arbitrary: p)
  case (Cons a ps)
  show ?case
  proof (cases "best_pair ps")
    case None
    then have "ps = []" by (cases ps) (auto split: option.splits if_splits)
    then show ?thesis using Cons.prems by simp
  next
    case (Some r)
    then show ?thesis using Cons by (fastforce split: if_splits)
  qed
qed simp

lemma best_pair_None [simp]: "best_pair ps = None \<longleftrightarrow> ps = []"
  by (cases ps) (auto split: option.split)

lemma get_close_match_Some:
  assumes "get_close_match w ps c = Some x"
  shows "x \<in> set ps \<and> c \<le> ratio x w \<and> (\<forall>y\<in>set ps. ratio y w \<le> ratio x w)"
proof -
  let ?ps = "filter (\<lambda>p. c \<le> fst p) (map (\<lambda>x. (ratio x w, x)) ps)"
  obtain p where p: "best_pair ?ps = Some p" and x: "x = snd p"
    using assms by (auto simp: get_close_match_def)
  have in_p: "p \<in> set ?ps" by (rule best_pair_in [OF p])
  then have px: "p = (ratio x w, x)" and xs: "x \<in> set ps" and c: "c \<le> ratio x w" by (auto simp: x)
  have "ratio y w \<le> ratio x w" if "y \<in> set ps" for y
  proof (cases "c \<le> ratio y w")
    case True
    then have "(ratio y w, y) \<in> set ?ps" using that by simp
    then show ?thesis using best_pair_max [OF p] px by fastforce
  next
    case False
    then show ?thesis using c by simp
  qed
  then show ?thesis using xs c by blast
qed

lemma get_close_match_None:
  "get_close_match w ps c = None \<longleftrightarrow> (\<forall>y\<in>set ps. ratio y w < c)"
  by (auto simp: get_close_match_def filter_empty_conv not_le)

end
