(* ===== verification/Refiner.thy ===== *)
theory Refiner
  imports Difflib SemanticCheck Retrieval Executor
begin

text \<open>
  \<open>agent/nodes/refiner.py\<close>: turns the failure of a round into correction feedback for the
  generator, with hints from the schema text, and widens the retrieval once when a name was
  missing.
\<close>

subsection \<open>Identifiers of the schema text\<close>

definition rx_create_split :: rx where
  "rx_create_split = rseq [rlit nl, rlook rx_create_table_ci]"

text \<open>\<open>CREATE\s+TABLE\s+(?:IF\s+NOT\s+EXISTS\s+)?"?(\w+)"?\<close>\<close>

definition rx_table_name :: rx where
  "rx_table_name = rseq [rlit_ci ''CREATE'', rplus rws, rlit_ci ''TABLE'', rplus rws,
     ropt (rseq [rlit_ci ''IF'', rplus rws, rlit_ci ''NOT'', rplus rws, rlit_ci ''EXISTS'', rplus rws]),
     ropt (rlit dq), RGrp 1 (rplus rw), ropt (rlit dq)]"

definition column_types :: "rx list" where
  "column_types = [rlit_ci ''TEXT'', rlit_ci ''INTEGER'', rlit_ci ''INT'', rlit_ci ''REAL'',
     rlit_ci ''FLOAT'', rlit_ci ''DOUBLE'', rlit_ci ''NUMERIC'', rlit_ci ''DECIMAL'',
     rlit_ci ''BOOLEAN'', rlit_ci ''DATE'', rlit_ci ''DATETIME'', rlit_ci ''BLOB'',
     rlit_ci ''VARCHAR'', rseq [rlit_ci ''CHAR'', rwordb], rlit_ci ''SERIAL'', rlit_ci ''BIGINT'',
     rlit_ci ''SMALLINT'', rlit_ci ''TIMESTAMP'']"

definition rx_column_def :: rx where
  "rx_column_def = rseq [rbol, rstar rws, ropt (rlit dq), RGrp 1 (rplus rw), ropt (rlit dq),
     rplus rws, ralt column_types]"

definition not_columns :: "string list" where
  "not_columns = [''create'', ''table'', ''primary'', ''foreign'', ''key'', ''references'', ''not'',
     ''null'', ''default'', ''unique'', ''check'', ''index'', ''constraint'']"

definition block_columns :: "string \<Rightarrow> string list" where
  "block_columns block =
     filter (\<lambda>c. c \<notin> set not_columns)
       (map (\<lambda>m. lower (m_group 1 m)) (re_finditer rx_column_def block))"

definition parse_schema_identifiers :: "string \<Rightarrow> (string \<times> string list) list" where
  "parse_schema_identifiers schema_text =
     fold (\<lambda>block tables.
       (case re_search rx_table_name block of
          None \<Rightarrow> tables
        | Some m \<Rightarrow> AList.update (lower (m_group 1 m)) (block_columns block) tables))
       (re_split rx_create_split schema_text) []"

definition all_identifiers :: "(string \<times> string list) list \<Rightarrow> string list" where
  "all_identifiers tables =
     concat (map (\<lambda>(tbl, cols). concat (map (\<lambda>c. [c, tbl @ ''.'' @ c]) cols)) tables)"

subsection \<open>The closest identifier\<close>

text \<open>\<open>re.split(r'[._]', name)[-1]\<close>\<close>

definition last_token :: "string \<Rightarrow> string" where
  "last_token s = rev (takeWhile (\<lambda>c. c \<noteq> CHR ''.'' \<and> c \<noteq> CHR ''_'') (rev s))"

lemma takeWhile_shorter: "takeWhile P xs \<noteq> xs \<Longrightarrow> length (takeWhile P xs) < length xs"
  by (induction xs) auto

lemma rev_takeWhile_shorter:
  assumes "rev (takeWhile P (rev s)) \<noteq> s"
  shows "length (rev (takeWhile P (rev s))) < length s"
proof -
  have "takeWhile P (rev s) \<noteq> rev s" using assms by (metis rev_rev_ident)
  then show ?thesis using takeWhile_shorter [of P "rev s"] by simp
qed

lemma last_token_shorter: "last_token s \<noteq> s \<Longrightarrow> length (last_token s) < length s"
  unfolding last_token_def by (rule rev_takeWhile_shorter)

function find_closest :: "string \<Rightarrow> string list \<Rightarrow> rat \<Rightarrow> string option" where
  "find_closest name candidates cutoff =
     (let name_lower = lower name;
          cand_lower = map lower candidates;
          token_match = (if last_token name_lower \<noteq> name_lower
                         then find_closest (last_token name_lower) cand_lower cutoff else None)
      in case token_match of
           Some m \<Rightarrow> if m \<noteq> [] then Some m else get_close_match name_lower cand_lower cutoff
         | None \<Rightarrow> get_close_match name_lower cand_lower cutoff)"
  by pat_completeness auto
termination
proof (relation "measure (\<lambda>(name, _, _). length name)")
  fix name :: string and candidates cutoff name_lower cand_lower
  assume "name_lower = lower name" and "last_token name_lower \<noteq> name_lower"
  then show "((last_token name_lower, cand_lower, cutoff), name, candidates, cutoff)
      \<in> measure (\<lambda>(name, _, _). length name)"
    using last_token_shorter [of name_lower] by simp
qed simp

declare find_closest.simps [simp del]

text \<open>A suggestion is always one of the candidates, in lower case.\<close>

lemma find_closest_member:
  "find_closest name candidates cutoff = Some x \<Longrightarrow> x \<in> set (map lower candidates)"
proof (induction name candidates cutoff rule: find_closest.induct)
  case (1 name candidates cutoff)
  let ?n = "lower name" and ?c = "map lower candidates"
  have direct: "get_close_match ?n ?c cutoff = Some x \<Longrightarrow> x \<in> set ?c"
    using get_close_match_Some by blast
  have rec: "find_closest (last_token ?n) ?c cutoff = Some x \<Longrightarrow> last_token ?n \<noteq> ?n \<Longrightarrow> x \<in> set ?c"
    using "1.IH" [OF refl refl] by (auto simp: image_image)
  show ?case
    using "1.prems" direct rec
    by (subst (asm) find_closest.simps) (auto simp: Let_def split: option.splits if_splits)
qed

definition no_match_hint :: "string \<Rightarrow> string" where
  "no_match_hint offending = ''No column or table named '' @ sq @ offending @ sq
     @ '' found in the schema. Only use identifiers listed in the SCHEMA section.''"

definition build_schema_hint :: "string \<Rightarrow> string \<Rightarrow> string" where
  "build_schema_hint offending schema_text =
     (let tables = parse_schema_identifiers schema_text
      in if tables = [] then []
         else
           (case find_closest offending (all_identifiers tables) (3 / 5) of
              Some closest \<Rightarrow>
                if closest \<noteq> [] then ''Did you mean '' @ sq @ closest @ sq
                  @ ''? Check the SCHEMA section for available columns.''
                else no_match_hint offending
            | None \<Rightarrow> no_match_hint offending))"

subsection \<open>Feedback texts\<close>

definition failed_title :: string where
  "failed_title = nl @ ''## FAILED SQL '' @ em_dash @ '' DO NOT REPEAT''"

definition rx_quoted_ident :: rx where
  "rx_quoted_ident = rseq [rlit sq, RGrp 1 (rseq [rplus rw, ropt (rlit ''.''), rstar rw]), rlit sq]"

definition rx_identifier :: rx where
  "rx_identifier = rseq [rlit (''Identifier '' @ sq), RGrp 1 (rplus rw), rlit sq]"

definition rx_near_at :: rx where
  "rx_near_at = rseq [ralt [rlit ''near'', rlit ''at''], rplus rws, RGrp 1 (rlazy_plus rdot),
     ralt [rlit ''.'', reos]]"

definition rx_statement_type :: rx where
  "rx_statement_type = rseq [rlit ''Forbidden statement type:'', rstar rws, RGrp 1 (rplus rw)]"

definition hint_or :: "string \<Rightarrow> string \<Rightarrow> string" where
  "hint_or name schema_text =
     (let hint = build_schema_hint name schema_text
      in if hint \<noteq> [] then hint else ''Only use identifiers from the SCHEMA section.'')"

text \<open>The fix line of one issue, and the context it adds\<close>

definition guard_fix :: "string \<Rightarrow> issue \<Rightarrow> string \<times> string list" where
  "guard_fix schema_text i =
     (let t = i_type i; detail = i_detail i
      in if t = ''hallucination'' then
           (case re_search rx_quoted_ident detail of
              Some m \<Rightarrow> (hint_or (m_group 1 m) schema_text, [])
            | None \<Rightarrow>
                (case re_search rx_identifier detail of
                   Some m \<Rightarrow> (hint_or (m_group 1 m) schema_text, [])
                 | None \<Rightarrow> (''Only use identifiers that exist in the SCHEMA section.'', [])))
         else if t = ''safety'' then
           (if str_in ''does not contain SELECT'' detail
            then (''Start your query with SELECT. Only SELECT queries are allowed.'', [])
            else if str_in ''Forbidden keyword'' detail
            then (''Do NOT use '' @ strip (after_last ''Forbidden keyword:'' detail)
                    @ ''. Rewrite as a read-only SELECT query.'', [])
            else if str_in ''Multiple statements'' detail
            then (''Combine statements into a single query using CTE (WITH ... AS ...).'', [])
            else (''Ensure the query is a single read-only SELECT statement.'', []))
         else if t = ''ast_syntax'' then
           (''Check for missing commas, unmatched parentheses, or incomplete JOIN ... ON clauses.'',
            (case re_search rx_near_at detail of
               Some loc \<Rightarrow> [''Syntax error near: '' @ take 80 (strip (m_group 1 loc))]
             | None \<Rightarrow> []))
         else if t = ''ast_structure'' then
           (''You wrote '' @ (case re_search (rplus rd) detail of Some m \<Rightarrow> m_text m | None \<Rightarrow> ''multiple'')
              @ '' separate statements. Use WITH ... AS (CTE) to combine them into a single SELECT.'', [])
         else if t = ''ast_forbidden'' then
           (''Do NOT use '' @ group1_or ''that statement type'' (re_search rx_statement_type detail)
              @ ''. Use only SELECT (or WITH ... SELECT). The database is read-only.'', [])
         else (''Review the error and fix the SQL accordingly.'', []))"

definition numbered :: "string list \<Rightarrow> string list" where
  "numbered xs = map (\<lambda>(j, e). nl @ ''  '' @ show_nat (j + 1) @ ''. '' @ e) (enumerate 0 xs)"

definition format_guard_feedback :: "issue list \<Rightarrow> string \<Rightarrow> string \<Rightarrow> string" where
  "format_guard_feedback issues schema_text sql =
     (let shown = take 3 issues;
          error_items = map (\<lambda>i. ''['' @ i_type i @ ''] '' @ i_detail i) shown;
          fix_items = map (fst \<circ> guard_fix schema_text) shown;
          ctx_items = concat (map (snd \<circ> guard_fix schema_text) shown)
      in join nl
           ([''## CORRECTION FEEDBACK'', ''Type: Guard failure'',
             ''Error: '' @ (if length error_items = 1 then join '' | '' error_items
                            else join '' '' (numbered error_items))]
            @ (if fix_items \<noteq> [] then
                 (if length fix_items = 1 then [''Fix: '' @ hd fix_items]
                  else [''Fix:'' @ concat (numbered fix_items)]) else [])
            @ (if ctx_items \<noteq> [] then [''Context: '' @ join ''; '' ctx_items] else [])
            @ [failed_title, take 600 sql]))"

definition rx_no_such :: rx where
  "rx_no_such = rseq [rlit ''no such '', ralt [rlit ''column'', rlit ''table''], rlit '':'', rstar rws,
     ropt (rlit sq), RGrp 1 (rseq [rplus rw, ropt (rlit ''.''), rstar rw]), ropt (rlit sq)]"

definition rx_near_quoted :: rx where
  "rx_near_quoted = rseq [rlit ''near'', rplus rws, rlit dq, RGrp 1 (rplus (rnone_of dq)), rlit dq]"

definition exec_context :: "error_type \<Rightarrow> string \<Rightarrow> string \<Rightarrow> string \<Rightarrow> string list" where
  "exec_context hint_type error_msg sql schema_text =
     (if hint_type = MISSING_COLUMN \<or> hint_type = MISSING_TABLE then
        (case re_search rx_no_such error_msg of
           Some m \<Rightarrow>
             let schema_hint = build_schema_hint (m_group 1 m) schema_text
             in if schema_hint \<noteq> [] then [schema_hint] else []
         | None \<Rightarrow> [])
      else if hint_type = SYNTAX_ERROR then
        (case re_search rx_near_quoted error_msg of
           Some m \<Rightarrow>
             let token = m_group 1 m
             in (case find_sub token sql of
                   Some idx \<Rightarrow>
                     if 0 < idx then
                       [''Near: ...'' @ take (min (length sql) (idx + length token + 40) - (idx - 40))
                                          (drop (idx - 40) sql) @ ''...'']
                     else []
                 | None \<Rightarrow> [])
         | None \<Rightarrow> [])
      else [])"

definition format_exec_feedback :: "string \<Rightarrow> string \<Rightarrow> string \<Rightarrow> string py" where
  "format_exec_feedback error_msg sql schema_text =
     py_bind (classify_exec_error error_msg) (\<lambda>(hint_type, hint).
       let ctx_parts = exec_context hint_type error_msg sql schema_text
       in Inr (join nl
            ([''## CORRECTION FEEDBACK'',
              ''Type: Execution error ('' @ error_type_value hint_type @ '')'',
              ''Error: '' @ take 300 error_msg, ''Fix: '' @ hint]
             @ (if ctx_parts \<noteq> [] then [''Context: '' @ join ''; '' ctx_parts] else [])
             @ [failed_title, take 600 sql])))"

definition preview_rows :: "nat \<Rightarrow> nat \<Rightarrow> nat \<Rightarrow> row list \<Rightarrow> string" where
  "preview_rows nrows ncols width data =
     join '' | '' (map (\<lambda>row. join '', '' (map (take width \<circ> py_str) (take ncols row))) (take nrows data))"

definition format_semantic_feedback :: "string \<Rightarrow> string \<Rightarrow> exec_result option \<Rightarrow> string" where
  "format_semantic_feedback feedback sql er =
     (let row_count = (case er of Some r \<Rightarrow> er_row_count r | None \<Rightarrow> 0);
          cols = (case er of Some r \<Rightarrow> or_default [] (er_columns r) | None \<Rightarrow> []);
          data = (case er of Some r \<Rightarrow> or_default [] (er_data r) | None \<Rightarrow> []);
          ctx_parts = (if cols \<noteq> [] then
              [''Returned '' @ show_int row_count @ '' rows, columns: '' @ join '', '' (take 8 cols)]
              @ (if data \<noteq> [] then [''Preview: '' @ preview_rows 3 5 20 data] else [])
            else [])
      in join nl
           ([''## CORRECTION FEEDBACK'', ''Type: Semantic error'', ''Error: '' @ feedback,
             ''Fix: Revise the SQL to correctly answer the user question. The syntax is valid but the query logic or returned data is wrong.'']
            @ (if ctx_parts \<noteq> [] then [''Context: '' @ join ''; '' ctx_parts] else [])
            @ [failed_title, take 600 sql]))"

definition arrow :: string where "arrow = [CHR 0xE2, CHR 0x86, CHR 0x92]"

definition turn_lines :: "conv_turn \<Rightarrow> string list" where
  "turn_lines t =
     [''Turn '' @ show_int (ct_turn t) @ '' '' @ em_dash @ '' '' @ dq @ ct_feedback t @ dq]
     @ (if ct_sql t \<noteq> [] then [''  '' @ arrow @ '' SQL: '' @ take 200 (ct_sql t)] else [])
     @ (case ct_exec t of
          None \<Rightarrow> []
        | Some r \<Rightarrow>
            let cols = or_default [] (er_columns r); data = or_default [] (er_data r)
            in if cols \<noteq> [] then
                 [''  '' @ arrow @ '' Result: '' @ show_int (er_row_count r) @ '' rows [''
                    @ join '', '' (take 8 cols) @ '']'']
                 @ (if data \<noteq> [] then [''     Preview: '' @ preview_rows 2 4 15 data] else [])
               else [])"

definition format_user_feedback :: "string \<Rightarrow> string \<Rightarrow> conv_turn list \<Rightarrow> string" where
  "format_user_feedback feedback sql turns =
     join nl
       ([''## CORRECTION FEEDBACK'']
        @ (if turns \<noteq> [] then (nl @ ''## PREVIOUS ATTEMPTS'') # concat (map turn_lines turns) else [])
        @ [nl @ ''## CURRENT GUIDANCE'', ''User says: '' @ dq @ feedback @ dq,
           ''Please revise the SQL according to the guidance above. ''
             @ ''Previous corrections from PREVIOUS ATTEMPTS should be preserved.'']
        @ (if sql \<noteq> [] then [nl @ ''## CURRENT SQL (for reference)'', take 600 sql] else []))"

subsection \<open>refiner_node\<close>

text \<open>What \<open>state.get("exec_result", {})\<close> yields.\<close>

datatype er_view = ErEmpty | ErNone | Er exec_result

definition er_of :: "agent_state \<Rightarrow> er_view" where
  "er_of s = (case s_exec_result s of None \<Rightarrow> ErEmpty | Some None \<Rightarrow> ErNone | Some (Some r) \<Rightarrow> Er r)"

definition attribute_error :: py_exc where
  "attribute_error = PyExc ''AttributeError''
     (sq @ ''NoneType'' @ sq @ '' object has no attribute '' @ sq @ ''get'' @ sq)"

text \<open>\<open>exec_result.get("error")\<close>, empty when there is none\<close>

definition exec_error_of :: "er_view \<Rightarrow> string" where
  "exec_error_of v = (case v of Er r \<Rightarrow> or_default [] (er_error r) | _ \<Rightarrow> [])"

definition correction_header :: "int \<Rightarrow> int \<Rightarrow> string" where
  "correction_header attempt max_attempts =
     ''## CORRECTION '' @ show_int attempt @ ''/'' @ show_int max_attempts
       @ (if max_attempts \<le> attempt
          then '' (FINAL ATTEMPT '' @ em_dash @ '' be conservative, prefer simpler queries)'' @ nl
          else nl)"

datatype feedback_source = FbHuman | FbSemantic | FbExecution | FbGuard | FbUnknown

definition feedback_source_of :: "agent_state \<Rightarrow> feedback_source" where
  "feedback_source_of s =
     (let user_feedback = or_default [] (s_user_feedback s);
          semantic_feedback = or_default [] (s_semantic_feedback s);
          exec_error = exec_error_of (er_of s);
          guard_issues = or_default [] (s_guard_issues s)
      in if user_feedback \<noteq> [] then FbHuman
         else if semantic_feedback \<noteq> [] \<and> exec_error = [] then FbSemantic
         else if exec_error \<noteq> [] then FbExecution
         else if guard_issues \<noteq> [] then FbGuard
         else FbUnknown)"

fun source_name :: "feedback_source \<Rightarrow> string" where
  "source_name FbHuman = ''human''"
| "source_name FbSemantic = ''semantic''"
| "source_name FbExecution = ''execution''"
| "source_name FbGuard = ''guard''"
| "source_name FbUnknown = ''unknown''"

definition unknown_feedback :: "string \<Rightarrow> string" where
  "unknown_feedback sql =
     ''## CORRECTION FEEDBACK'' @ nl
     @ ''Type: Unknown error '' @ em_dash @ '' no execution, guard, or semantic details available.'' @ nl
     @ nl @ ''## FAILED SQL '' @ em_dash @ '' DO NOT REPEAT'' @ nl @ take 600 sql"

definition error_feedback :: "agent_state \<Rightarrow> string \<Rightarrow> string py" where
  "error_feedback s sql =
     (case feedback_source_of s of
        FbHuman \<Rightarrow> Inr (format_user_feedback (or_default [] (s_user_feedback s)) sql
                     (or_default [] (s_conversation_turns s)))
      | FbSemantic \<Rightarrow>
          (case er_of s of
             ErNone \<Rightarrow> Inl attribute_error
           | ErEmpty \<Rightarrow> Inr (format_semantic_feedback (or_default [] (s_semantic_feedback s)) sql None)
           | Er r \<Rightarrow> Inr (format_semantic_feedback (or_default [] (s_semantic_feedback s)) sql (Some r)))
      | FbExecution \<Rightarrow> format_exec_feedback (exec_error_of (er_of s)) sql (or_default [] (s_schema_text s))
      | FbGuard \<Rightarrow> Inr (format_guard_feedback (or_default [] (s_guard_issues s))
                     (or_default [] (s_schema_text s)) sql)
      | FbUnknown \<Rightarrow> Inr (unknown_feedback sql))"

definition build_expanded_catalog :: "(string \<Rightarrow> schema_info py) \<Rightarrow> string option \<Rightarrow> string py" where
  "build_expanded_catalog lookup database_url =
     (case database_url of
        None \<Rightarrow> Inr []
      | Some url \<Rightarrow> if url = [] then Inr [] else py_bind (lookup url) (\<lambda>info. Inr (catalog_text info)))"

text \<open>The wider retrieval: chunks, schema text and notes text that go into the update.\<close>

definition expand_rag ::
  "store_query \<Rightarrow> store_query \<Rightarrow> (string \<Rightarrow> schema_info py) \<Rightarrow> agent_state \<Rightarrow> int
    \<Rightarrow> (chunk list \<times> string \<times> string) py" where
  "expand_rag bird corpus lookup s expanded_k =
     (let db_id = or_default [] (s_db_id s)
      in py_bind (if db_id \<noteq> [] then retrieve_semantic bird (s_question s) db_id (nat expanded_k)
                  else retrieve corpus (s_question s) (nat expanded_k)) (\<lambda>chunks.
           let (schema_text, notes_text) = build_prompt_context chunks
           in if or_default True (s_rag_schema s) \<and> schema_text \<noteq> [] then
                py_bind (build_expanded_catalog lookup (s_database_url s)) (\<lambda>cat.
                  Inr (chunks, schema_text @ nl @ nl @ cat, notes_text))
              else Inr (chunks, schema_text, notes_text)))"

definition wants_expansion :: "agent_state \<Rightarrow> error_type \<Rightarrow> bool" where
  "wants_expansion s hint_type \<longleftrightarrow>
     (hint_type = MISSING_COLUMN \<or> hint_type = MISSING_TABLE \<or> or_default [] (s_semantic_feedback s) \<noteq> [])
     \<and> s_rag_k_expanded s = None"

definition expansion_of ::
  "store_query \<Rightarrow> store_query \<Rightarrow> (string \<Rightarrow> schema_info py) \<Rightarrow> agent_state \<Rightarrow> error_type
    \<Rightarrow> (chunk list \<times> string \<times> string) option py" where
  "expansion_of bird corpus lookup s hint_type =
     (if wants_expansion s hint_type
      then py_bind (expand_rag bird corpus lookup s (or_default 8 (s_rag_k s) * 2)) (\<lambda>ctx. Inr (Some ctx))
      else Inr None)"

definition refiner_sql :: "agent_state \<Rightarrow> string" where
  "refiner_sql s = (case s_last_sql s of Some q \<Rightarrow> q | None \<Rightarrow> or_default [] (s_sql s))"

definition apply_expansion :: "agent_state \<Rightarrow> int \<Rightarrow> (chunk list \<times> string \<times> string) \<Rightarrow> agent_state" where
  "apply_expansion s expanded_k ctx =
     (let (chunks, schema_text, notes_text) = ctx;
          s1 = s\<lparr>s_rag_k_expanded := Some expanded_k, s_rag_chunks := Some chunks,
                 s_schema_text := Some schema_text\<rparr>
      in if or_default True (s_rag_domain s) \<and> notes_text \<noteq> []
         then s1\<lparr>s_notes_text := Some notes_text\<rparr> else s1)"

definition repair_entry :: "agent_state \<Rightarrow> error_type \<Rightarrow> repair" where
  "repair_entry s hint_type =
     \<lparr>rp_attempt = or_default 0 (s_retry_count s) + 1,
      rp_source = source_name (feedback_source_of s),
      rp_type = (if exec_error_of (er_of s) \<noteq> [] then error_type_value hint_type else []),
      rp_failed_sql = take 300 (refiner_sql s),
      rp_strategy = (if or_default 0 (s_rag_k_expanded s) \<noteq> 0 then ''rag_expand'' else ''feedback_only'')\<rparr>"

text \<open>The keys a round of the refiner writes\<close>

definition refined ::
  "agent_state \<Rightarrow> clock \<Rightarrow> agent_state \<Rightarrow> string \<Rightarrow> error_type
    \<Rightarrow> (chunk list \<times> string \<times> string) option \<Rightarrow> agent_state" where
  "refined s t s1 last_error hint_type expansion =
     (let s2 = s1\<lparr>s_last_error := Some last_error, s_last_sql := Some (refiner_sql s)\<rparr>;
          s3 = (case expansion of None \<Rightarrow> s2 | Some ctx \<Rightarrow> apply_expansion s2 (or_default 8 (s_rag_k s) * 2) ctx);
          s4 = tlog_do (node_exit (t 2) ''refiner''
                 [(''rag_expanded'', PBool (s_rag_k_expanded s \<noteq> None))] ''success'') s3
      in (set_latency ''refiner'' (since t 0 3) s4)
           \<lparr>s_repair_history := Some (or_default [] (s_repair_history s) @ [repair_entry s hint_type])\<rparr>)"

definition refiner_node ::
  "store_query \<Rightarrow> store_query \<Rightarrow> (string \<Rightarrow> schema_info py) \<Rightarrow> clock \<Rightarrow> agent_state \<Rightarrow> node_out" where
  "refiner_node bird corpus lookup t s =
     (let sql = refiner_sql s;
          retry_count = or_default 0 (s_retry_count s);
          max_retries = or_default 2 (s_max_retries s);
          header = correction_header (retry_count + 1) (max_retries + 1)
      in if s_tlog s \<noteq> None \<and> er_of s = ErNone then Inl (attribute_error, s_tlog s)
         else
           let s1 = tlog_do (node_enter (t 1) ''refiner''
                      [(''error'', PStr (take 80 (exec_error_of (er_of s))))]) s
           in try_in s1 (error_feedback s sql) (\<lambda>feedback.
              try_in s1 (classify_exec_error (exec_error_of (er_of s))) (\<lambda>(hint_type, hint).
              try_in s1 (expansion_of bird corpus lookup s hint_type) (\<lambda>expansion.
              Inr (refined s t s1 (header @ feedback) hint_type expansion)))))"

subsection \<open>What the node stores\<close>

lemma apply_expansion_frame [simp]:
  "s_last_error (apply_expansion s k ctx) = s_last_error s"
  "s_last_sql (apply_expansion s k ctx) = s_last_sql s"
  "s_retry_count (apply_expansion s k ctx) = s_retry_count s"
  "s_max_retries (apply_expansion s k ctx) = s_max_retries s"
  "s_tlog (apply_expansion s k ctx) = s_tlog s"
  "s_sql (apply_expansion s k ctx) = s_sql s"
  "s_node_latency (apply_expansion s k ctx) = s_node_latency s"
  "s_question (apply_expansion s k ctx) = s_question s"
  "s_rag_k_expanded (apply_expansion s k ctx) = Some k"
  by (simp_all add: apply_expansion_def case_prod_unfold Let_def)

lemma refined_fields:
  "s_last_error (refined s t s1 e h x) = Some e"
  "s_last_sql (refined s t s1 e h x) = Some (refiner_sql s)"
  "s_retry_count (refined s t s1 e h x) = s_retry_count s1"
  "s_max_retries (refined s t s1 e h x) = s_max_retries s1"
  "s_sql (refined s t s1 e h x) = s_sql s1"
  "s_question (refined s t s1 e h x) = s_question s1"
  "s_rag_k_expanded (refined s t s1 e h x) =
     (case x of None \<Rightarrow> s_rag_k_expanded s1 | Some ctx \<Rightarrow> Some (or_default 8 (s_rag_k s) * 2))"
  "s_schema_text (refined s t s1 e h x) = (case x of None \<Rightarrow> s_schema_text s1 | Some ctx \<Rightarrow> Some (fst (snd ctx)))"
  "s_rag_chunks (refined s t s1 e h x) = (case x of None \<Rightarrow> s_rag_chunks s1 | Some ctx \<Rightarrow> Some (fst ctx))"
  by (simp_all add: refined_def Let_def set_latency_def tlog_do_def apply_expansion_def case_prod_unfold
      split: option.split)

lemma refiner_node_Inr:
  assumes "refiner_node bird corpus lookup t s = Inr s'"
  obtains feedback hint_type expansion s1
  where "error_feedback s (refiner_sql s) = Inr feedback"
    and "expansion_of bird corpus lookup s hint_type = Inr expansion"
    and "s' = refined s t s1 (correction_header (or_default 0 (s_retry_count s) + 1)
           (or_default 2 (s_max_retries s) + 1) @ feedback) hint_type expansion"
    and "s1 = tlog_do (node_enter (t 1) ''refiner'' [(''error'', PStr (take 80 (exec_error_of (er_of s))))]) s"
  using assms
  by (auto simp: refiner_node_def Let_def try_in_Inr_iff split: if_split_asm prod.split_asm)

lemma expansion_of_cases:
  assumes "expansion_of bird corpus lookup s h = Inr e"
  obtains "e = None"
    | ctx where "e = Some ctx" "s_rag_k_expanded s = None"
        "expand_rag bird corpus lookup s (or_default 8 (s_rag_k s) * 2) = Inr ctx"
proof (cases "wants_expansion s h")
  case True
  then have "s_rag_k_expanded s = None" by (simp add: wants_expansion_def)
  moreover obtain ctx where "e = Some ctx"
      "expand_rag bird corpus lookup s (or_default 8 (s_rag_k s) * 2) = Inr ctx"
    using assms True by (auto simp: expansion_of_def py_bind_Inr_iff)
  ultimately show ?thesis using that(2) by blast
next
  case False
  then show ?thesis using assms that(1) by (simp add: expansion_of_def)
qed

text \<open>Without a schema chunk the wider retrieval has no schema text.\<close>

lemma expand_rag_schema:
  assumes "expand_rag bird corpus lookup s k = Inr ctx"
  shows "list_ex is_schema_chunk (fst ctx) \<or> fst (snd ctx) = []"
proof -
  obtain chunks where c: "(case build_prompt_context chunks of (schema_text, notes_text) \<Rightarrow>
      if or_default True (s_rag_schema s) \<and> schema_text \<noteq> [] then
        py_bind (build_expanded_catalog lookup (s_database_url s)) (\<lambda>cat.
          Inr (chunks, schema_text @ nl @ nl @ cat, notes_text))
      else Inr (chunks, schema_text, notes_text)) = Inr ctx"
    using assms unfolding expand_rag_def Let_def py_bind_Inr_iff by blast
  obtain st nt where b: "build_prompt_context chunks = (st, nt)" by (cases "build_prompt_context chunks")
  have "st = []" if "\<not> list_ex is_schema_chunk chunks"
  proof -
    have "filter is_schema_chunk chunks = []"
      using that by (simp add: filter_empty_conv list_ex_iff)
    then show ?thesis using b by (auto simp: build_prompt_context_def)
  qed
  moreover have "fst ctx = chunks \<and> (st = [] \<longrightarrow> fst (snd ctx) = [])"
    using c b by (auto simp: py_bind_Inr_iff split: if_split_asm)
  ultimately show ?thesis by auto
qed

subsection \<open>Properties\<close>

text \<open>A refiner that returns stores, as feedback for the next round, the header of the attempt
  followed by the text of one source, chosen in the order user guidance, semantic reason (when
  the execution has no error), execution error, guard issues; the failed query it refers to is
  \<open>last_sql\<close> if that key is present, even when it is empty; and it announces the final attempt
  exactly when \<open>retry_count >= max_retries\<close>.\<close>

theorem refiner_feedback:
  assumes "refiner_node bird corpus lookup t s = Inr s'"
  shows "s_last_sql s' = Some (refiner_sql s) \<and>
    (case error_feedback s (refiner_sql s) of
       Inl e \<Rightarrow> False
     | Inr feedback \<Rightarrow> s_last_error s' = Some (
         ''## CORRECTION '' @ show_int (or_default 0 (s_retry_count s) + 1) @ ''/''
         @ show_int (or_default 2 (s_max_retries s) + 1)
         @ (if or_default 2 (s_max_retries s) \<le> or_default 0 (s_retry_count s)
            then '' (FINAL ATTEMPT '' @ em_dash @ '' be conservative, prefer simpler queries)'' else [])
         @ nl @ feedback))"
proof -
  obtain feedback h x s1 where f: "error_feedback s (refiner_sql s) = Inr feedback"
    and s': "s' = refined s t s1 (correction_header (or_default 0 (s_retry_count s) + 1)
           (or_default 2 (s_max_retries s) + 1) @ feedback) h x"
    by (rule refiner_node_Inr [OF assms])
  show ?thesis by (simp add: f s' refined_fields correction_header_def)
qed

text \<open>A vector store that only knows one note.\<close>

definition notes_store :: store_query where
  "notes_store q w k = Inr [(''n1'', ''Late means after the due date.'', [(''chunk_type'', PStr ''domain'')])]"

definition rejected_state :: agent_state where
  "rejected_state = (init_state ''Which orders are late?'')
     \<lparr>s_sql := Some ''SELECT 1'', s_last_sql := Some ''SELECT 1'', s_db_id := Some ''shop'',
      s_schema_text := Some ''CREATE TABLE orders (id INTEGER);'',
      s_semantic_feedback := Some ''wrong table'',
      s_exec_result := Some (Some (ok_result [''1''] [[PInt 1]]))\<rparr>"

theorem refiner_feedback_witness:
  "\<exists>s'. refiner_node notes_store notes_store (\<lambda>u. Inr []) (\<lambda>i. \<lparr>r_ms = int i, r_ts = []\<rparr>) rejected_state = Inr s'
     \<and> s_last_sql s' = Some ''SELECT 1''"
proof -
  have "node_ok (\<lambda>s'. True) (refiner_node notes_store notes_store (\<lambda>u. Inr [])
      (\<lambda>i. \<lparr>r_ms = int i, r_ts = []\<rparr>) rejected_state)"
    by code_simp
  then obtain s' where r: "refiner_node notes_store notes_store (\<lambda>u. Inr [])
      (\<lambda>i. \<lparr>r_ms = int i, r_ts = []\<rparr>) rejected_state = Inr s'"
    by (auto simp: node_ok_iff)
  then show ?thesis
    using refiner_feedback [OF r] by (simp add: refiner_sql_def rejected_state_def)
qed

text \<open>C12: The retrieval is widened at most once, to twice the number of chunks; otherwise schema and
  notes stay as they are. When the wider retrieval brings no schema chunk, the schema text of
  the prompt is overwritten with the empty text.\<close>

theorem expansion_once_and_may_erase_schema:
  assumes "refiner_node bird corpus lookup t s = Inr s'"
  shows "if s_rag_k_expanded s \<noteq> None \<or> s_rag_k_expanded s' = None
    then s_rag_k_expanded s' = s_rag_k_expanded s \<and> s_schema_text s' = s_schema_text s
    else s_rag_k_expanded s' = Some (or_default 8 (s_rag_k s) * 2) \<and>
      (list_ex is_schema_chunk (or_default [] (s_rag_chunks s')) \<or> s_schema_text s' = Some [])"
proof -
  obtain feedback h x s1 where e: "expansion_of bird corpus lookup s h = Inr x"
    and s': "s' = refined s t s1 (correction_header (or_default 0 (s_retry_count s) + 1)
           (or_default 2 (s_max_retries s) + 1) @ feedback) h x"
    and s1: "s1 = tlog_do (node_enter (t 1) ''refiner''
           [(''error'', PStr (take 80 (exec_error_of (er_of s))))]) s"
    by (rule refiner_node_Inr [OF assms])
  have k: "s_rag_k_expanded s1 = s_rag_k_expanded s" "s_schema_text s1 = s_schema_text s"
    by (simp_all add: s1 tlog_do_def)
  show ?thesis
  proof (rule expansion_of_cases [OF e])
    assume "x = None"
    then show ?thesis by (cases "s_rag_k_expanded s") (simp_all add: s' refined_fields k)
  next
    fix ctx assume x: "x = Some ctx" "s_rag_k_expanded s = None"
      "expand_rag bird corpus lookup s (or_default 8 (s_rag_k s) * 2) = Inr ctx"
    have "list_ex is_schema_chunk (fst ctx) \<or> fst (snd ctx) = []"
      by (rule expand_rag_schema [OF x(3)])
    then show ?thesis using x by (simp add: s' refined_fields)
  qed
qed

theorem expansion_once_and_may_erase_schema_witness:
  "\<exists>s'. refiner_node notes_store notes_store (\<lambda>u. Inr []) (\<lambda>i. \<lparr>r_ms = int i, r_ts = []\<rparr>) rejected_state = Inr s'
     \<and> s_schema_text s' = Some []"
proof -
  have "node_ok (\<lambda>s'. s_rag_k_expanded s' \<noteq> None \<and> \<not> list_ex is_schema_chunk (or_default [] (s_rag_chunks s')))
      (refiner_node notes_store notes_store (\<lambda>u. Inr []) (\<lambda>i. \<lparr>r_ms = int i, r_ts = []\<rparr>) rejected_state)"
    by code_simp
  then obtain s' where r: "refiner_node notes_store notes_store (\<lambda>u. Inr [])
      (\<lambda>i. \<lparr>r_ms = int i, r_ts = []\<rparr>) rejected_state = Inr s'"
    and "s_rag_k_expanded s' \<noteq> None" "\<not> list_ex is_schema_chunk (or_default [] (s_rag_chunks s'))"
    by (auto simp: node_ok_iff)
  moreover have "s_rag_k_expanded rejected_state = None" by (simp add: rejected_state_def init_state_def)
  ultimately show ?thesis
    using expansion_once_and_may_erase_schema [OF r] by auto
qed

text \<open>Schema hints suggest only identifiers of the schema text: a suggested name is a column, or
  a column qualified with its table, of some parsed table.\<close>

theorem schema_hint_sound:
  assumes "find_closest offending (all_identifiers (parse_schema_identifiers schema_text)) cutoff = Some x"
  shows "list_ex (\<lambda>(tbl, cols). list_ex (\<lambda>c. x = c \<or> x = tbl @ ''.'' @ c) cols)
    (parse_schema_identifiers schema_text)"
proof -
  let ?step = "\<lambda>block tabs. (case re_search rx_table_name block of None \<Rightarrow> tabs
        | Some m \<Rightarrow> AList.update (lower (m_group 1 m)) (block_columns block) tabs)"
  have dot: "lower_char CHR ''.'' = CHR ''.''" by code_simp
  define low where "low tabs = (\<forall>(tbl, cols)\<in>set tabs. lower tbl = tbl \<and> (\<forall>c\<in>set cols. lower c = c))"
    for tabs :: "(string \<times> string list) list"
  have upd: "low tabs \<Longrightarrow> low (AList.update (lower n) (block_columns b) tabs)" for tabs n b
  proof -
    assume l: "low tabs"
    have "set (AList.update k v al) \<subseteq> insert (k, v) (set al)" for k v and al :: "(string \<times> string list) list"
      by (induction al) auto
    then show ?thesis using l by (fastforce simp: low_def block_columns_def)
  qed
  have f: "low tabs \<Longrightarrow> low (fold ?step bs tabs)" for bs tabs
    by (induction bs arbitrary: tabs) (simp_all add: upd split: option.split)
  have "low []" by (simp add: low_def)
  then have "low (parse_schema_identifiers schema_text)"
    unfolding parse_schema_identifiers_def by (rule f)
  then have "\<forall>y\<in>set (all_identifiers (parse_schema_identifiers schema_text)). lower y = y"
    unfolding all_identifiers_def low_def by (fastforce simp: dot lower_def)
  moreover have "x \<in> set (map lower (all_identifiers (parse_schema_identifiers schema_text)))"
    by (rule find_closest_member [OF assms])
  ultimately have "x \<in> set (all_identifiers (parse_schema_identifiers schema_text))"
    by auto
  then show ?thesis by (auto simp: all_identifiers_def list_ex_iff)
qed

theorem schema_hint_sound_witness:
  "list_ex (\<lambda>(tbl, cols). list_ex (\<lambda>c. ''name'' = c \<or> ''name'' = tbl @ ''.'' @ c) cols)
    (parse_schema_identifiers (''CREATE TABLE u ('' @ nl @ ''name TEXT'' @ nl @ '');''))"
proof -
  have "find_closest ''nmae'' (all_identifiers (parse_schema_identifiers
      (''CREATE TABLE u ('' @ nl @ ''name TEXT'' @ nl @ '');''))) (3/5) = Some ''name''"
    by code_simp
  then show ?thesis by (rule schema_hint_sound)
qed

end
