(* ===== verification/Json.thy ===== *)
theory Json
  imports Values
begin

text \<open>
  The part of Python's \<open>json\<close> the program uses: \<open>json.loads\<close> (replies of the model, entries of the
  task store, broker messages) and \<open>json.dumps(\<dots>, ensure_ascii=False, default=str)\<close>. A decoding
  error carries the message of CPython's decoder without its position. \<open>NaN\<close> and the infinities,
  which Python's decoder accepts, are \<open>POther\<close> values with the text Python prints for them.
\<close>

subsection \<open>json.dumps\<close>

definition hex_digit :: "nat \<Rightarrow> char" where
  "hex_digit n = (if n < 10 then chr_of (48 + n) else chr_of (87 + n))"

definition quote_char :: char where "quote_char = CHR 0x22"
definition backslash :: char where "backslash = CHR 0x5C"

definition json_esc :: "char \<Rightarrow> string" where
  "json_esc c =
     (if c = quote_char then [backslash, quote_char]
      else if c = backslash then [backslash, backslash]
      else if c = CHR 0x0A then [backslash, CHR ''n'']
      else if c = CHR 0x0D then [backslash, CHR ''r'']
      else if c = CHR 0x09 then [backslash, CHR ''t'']
      else if c = CHR 0x08 then [backslash, CHR ''b'']
      else if c = CHR 0x0C then [backslash, CHR ''f'']
      else if ord_of c < 32
        then [backslash, CHR ''u'', CHR ''0'', CHR ''0'', hex_digit (ord_of c div 16), hex_digit (ord_of c mod 16)]
      else [c])"

definition json_str :: "string \<Rightarrow> string" where
  "json_str s = [quote_char] @ concat (map json_esc s) @ [quote_char]"

text \<open>A value \<open>json\<close> cannot encode is written as the string \<open>str(v)\<close>.\<close>

fun json_dumps :: "pyv \<Rightarrow> string" where
  "json_dumps PNone = ''null''"
| "json_dumps (PBool b) = (if b then ''true'' else ''false'')"
| "json_dumps (PInt i) = show_int i"
| "json_dumps (PFloat q) = show_float q"
| "json_dumps (PDec q s) = json_str s"
| "json_dumps (PStr s) = json_str s"
| "json_dumps (POther s) = json_str s"
| "json_dumps (PList xs) = ''['' @ join '', '' (map json_dumps xs) @ '']''"
| "json_dumps (PDict d) = ''{'' @ join '', '' (map (\<lambda>(k, v). json_str k @ '': '' @ json_dumps v) d) @ ''}''"

subsection \<open>json.loads\<close>

definition js_err :: "string \<Rightarrow> 'a py" where
  "js_err msg = Inl (PyExc ''JSONDecodeError'' msg)"

definition is_js_space :: "char \<Rightarrow> bool" where
  "is_js_space c \<longleftrightarrow> c = CHR 0x20 \<or> c = CHR 0x09 \<or> c = CHR 0x0A \<or> c = CHR 0x0D"

definition js_ws :: "string \<Rightarrow> string" where
  "js_ws s = dropWhile is_js_space s"

definition hex_val :: "char \<Rightarrow> nat option" where
  "hex_val c =
     (if is_digit_char c then Some (ord_of c - 48)
      else if 97 \<le> ord_of c \<and> ord_of c \<le> 102 then Some (ord_of c - 87)
      else if 65 \<le> ord_of c \<and> ord_of c \<le> 70 then Some (ord_of c - 55)
      else None)"

fun hex4 :: "string \<Rightarrow> (nat \<times> string) option" where
  "hex4 (a # b # c # d # s) =
     (case (hex_val a, hex_val b, hex_val c, hex_val d) of
        (Some w, Some x, Some y, Some z) \<Rightarrow> Some (((w * 16 + x) * 16 + y) * 16 + z, s)
      | _ \<Rightarrow> None)"
| "hex4 _ = None"

lemma hex4_length: "hex4 s = Some (n, r) \<Longrightarrow> length r < length s"
  by (induction s rule: hex4.induct) (auto split: option.splits)

definition utf8 :: "nat \<Rightarrow> string" where
  "utf8 n =
     (if n < 0x80 then [chr_of n]
      else if n < 0x800 then [chr_of (0xC0 + n div 64), chr_of (0x80 + n mod 64)]
      else if n < 0x10000
        then [chr_of (0xE0 + n div 4096), chr_of (0x80 + n div 64 mod 64), chr_of (0x80 + n mod 64)]
      else [chr_of (0xF0 + n div 262144), chr_of (0x80 + n div 4096 mod 64),
            chr_of (0x80 + n div 64 mod 64), chr_of (0x80 + n mod 64)])"

text \<open>After \<open>\u\<close>: a code unit, or a surrogate pair\<close>

definition js_unicode :: "string \<Rightarrow> (string \<times> string) option" where
  "js_unicode s =
     (case hex4 s of
        None \<Rightarrow> None
      | Some (n, r) \<Rightarrow>
          (if 0xD800 \<le> n \<and> n < 0xDC00 \<and> prefix [backslash, CHR ''u''] r
           then (case hex4 (drop 2 r) of
                   Some (m, r2) \<Rightarrow>
                     if 0xDC00 \<le> m \<and> m < 0xE000
                     then Some (utf8 (0x10000 + (n - 0xD800) * 1024 + (m - 0xDC00)), r2)
                     else Some (utf8 n, r)
                 | None \<Rightarrow> None)
           else Some (utf8 n, r)))"

lemma js_unicode_length: "js_unicode s = Some (t, r) \<Longrightarrow> length r < length s"
  by (auto simp: js_unicode_def dest!: hex4_length split: option.splits if_splits)

definition js_escape :: "char \<Rightarrow> char option" where
  "js_escape e =
     (if e = quote_char \<or> e = backslash \<or> e = CHR ''/'' then Some e
      else if e = CHR ''b'' then Some (CHR 0x08)
      else if e = CHR ''f'' then Some (CHR 0x0C)
      else if e = CHR ''n'' then Some (CHR 0x0A)
      else if e = CHR ''r'' then Some (CHR 0x0D)
      else if e = CHR ''t'' then Some (CHR 0x09)
      else None)"

definition js_cons :: "string \<Rightarrow> (string \<times> string) py \<Rightarrow> (string \<times> string) py" where
  "js_cons u m = py_bind m (\<lambda>(t, r). Inr (u @ t, r))"

text \<open>One character or escape of a string, after its first byte\<close>

definition js_unit :: "char \<Rightarrow> string \<Rightarrow> (string \<times> string) py" where
  "js_unit c s =
     (if c = backslash then
        (case s of
           [] \<Rightarrow> js_err ''Unterminated string starting at''
         | e # s1 \<Rightarrow>
             (if e = CHR ''u'' then
                (case js_unicode s1 of
                   None \<Rightarrow> js_err (''Invalid '' @ [backslash] @ ''uXXXX escape'')
                 | Some p \<Rightarrow> Inr p)
              else
                (case js_escape e of
                   None \<Rightarrow> js_err (''Invalid '' @ [backslash] @ ''escape'')
                 | Some d \<Rightarrow> Inr ([d], s1))))
      else if ord_of c < 32 then js_err ''Invalid control character at''
      else Inr ([c], s))"

lemma js_err_not_Inr [simp]: "js_err msg \<noteq> Inr x"
  by (simp add: js_err_def)

lemma js_unit_length: "js_unit c s = Inr (t, r) \<Longrightarrow> length r \<le> length s"
  by (auto simp: js_unit_def dest!: js_unicode_length split: if_split_asm list.splits option.splits)

function js_string :: "string \<Rightarrow> (string \<times> string) py" where
  "js_string [] = js_err ''Unterminated string starting at''"
| "js_string (c # s) =
     (if c = quote_char then Inr ([], s)
      else (case js_unit c s of
              Inl e \<Rightarrow> Inl e
            | Inr (u, r) \<Rightarrow> js_cons u (js_string r)))"
  by pat_completeness auto
termination
  by (relation "measure length") (auto dest!: js_unit_length)

text \<open>The value of the digits after the point\<close>

definition dec_val :: "string \<Rightarrow> rat" where
  "dec_val ds = foldr (\<lambda>c q. (of_nat (digit_val c) + q) / 10) ds 0"

definition js_exponent :: "string \<Rightarrow> (int \<times> string) option" where
  "js_exponent s =
     (case s of
        [] \<Rightarrow> None
      | c # r \<Rightarrow>
          (if c = CHR ''e'' \<or> c = CHR ''E'' then
             let sgn = (case r of d # _ \<Rightarrow> d = CHR ''-'' \<or> d = CHR ''+'' | [] \<Rightarrow> False);
                 neg = (case r of d # _ \<Rightarrow> d = CHR ''-'' | [] \<Rightarrow> False);
                 r1 = (if sgn then tl r else r);
                 ds = takeWhile is_digit_char r1
             in if ds = [] then None
                else Some ((if neg then - int (parse_nat ds) else int (parse_nat ds)), drop (length ds) r1)
           else None))"

definition scale10 :: "int \<Rightarrow> rat \<Rightarrow> rat" where
  "scale10 e q = (if 0 \<le> e then q * 10 ^ nat e else q / 10 ^ nat (- e))"

text \<open>\<open>(-?(?:0|[1-9]\d*))(\.\d+)?([eE][-+]?\d+)?\<close>\<close>

definition js_frac :: "string \<Rightarrow> string" where
  "js_frac s = (case s of c # r \<Rightarrow> if c = CHR ''.'' then takeWhile is_digit_char r else [] | [] \<Rightarrow> [])"

definition js_number :: "string \<Rightarrow> (pyv \<times> string) option" where
  "js_number s =
     (let neg = prefix ''-'' s;
          r = (if neg then tl s else s);
          ds = takeWhile is_digit_char r
      in if ds = [] then None
         else
           let ip = (if hd ds = CHR ''0'' then ''0'' else ds);
               r1 = drop (length ip) r;
               fp = js_frac r1;
               r2 = (if fp = [] then r1 else drop (Suc (length fp)) r1);
               n = int (parse_nat ip);
               a = of_int n + dec_val fp
           in (case js_exponent r2 of
                 Some (e, r3) \<Rightarrow> Some (PFloat (scale10 e (if neg then - a else a)), r3)
               | None \<Rightarrow>
                   if fp = [] then Some (PInt (if neg then - n else n), r2)
                   else Some (PFloat (if neg then - a else a), r2)))"

definition js_word :: "string \<Rightarrow> (pyv \<times> string) option" where
  "js_word s =
     (if prefix ''null'' s then Some (PNone, drop 4 s)
      else if prefix ''true'' s then Some (PBool True, drop 4 s)
      else if prefix ''false'' s then Some (PBool False, drop 5 s)
      else
        (case js_number s of
           Some p \<Rightarrow> Some p
         | None \<Rightarrow>
             (if prefix ''NaN'' s then Some (POther ''nan'', drop 3 s)
              else if prefix ''Infinity'' s then Some (POther ''inf'', drop 8 s)
              else if prefix ''-Infinity'' s then Some (POther ''-inf'', drop 9 s)
              else None)))"

text \<open>The recursive decoder. The first argument bounds the number of steps; every step reads a
  character, so twice the length of the text is enough (\<open>js_fuel\<close>).\<close>

definition no_fuel :: "'a py" where
  "no_fuel = Inl (PyExc ''RecursionError'' ''maximum recursion depth exceeded'')"

datatype js_tok = TStr | TObj | TArr | TOther

definition js_tok :: "char \<Rightarrow> js_tok" where
  "js_tok c = (if c = quote_char then TStr else if c = CHR ''{'' then TObj
     else if c = CHR ''['' then TArr else TOther)"

text \<open>The closing bracket of an empty list or object\<close>

definition js_next :: "string \<Rightarrow> (char \<times> string) option" where
  "js_next s = (case js_ws s of [] \<Rightarrow> None | d # r \<Rightarrow> Some (d, r))"

definition js_close :: "char \<Rightarrow> string \<Rightarrow> string option" where
  "js_close cl s = (case js_next s of Some (d, r) \<Rightarrow> if d = cl then Some r else None | None \<Rightarrow> None)"

text \<open>After an item: a comma (and another item follows) or the closing bracket\<close>

definition js_sep :: "char \<Rightarrow> string \<Rightarrow> (bool \<times> string) py" where
  "js_sep cl s =
     (case js_next s of
        None \<Rightarrow> js_err ''Expecting , delimiter''
      | Some (d, r) \<Rightarrow>
          if d = cl then Inr (False, r)
          else if d = CHR '','' then Inr (True, js_ws r)
          else js_err ''Expecting , delimiter'')"

text \<open>A property name, its colon and the space after it\<close>

definition js_colon :: "string \<Rightarrow> string py" where
  "js_colon s =
     (case js_next s of
        None \<Rightarrow> js_err ''Expecting : delimiter''
      | Some (d, r) \<Rightarrow> if d = CHR '':'' then Inr (js_ws r) else js_err ''Expecting : delimiter'')"

definition js_key :: "string \<Rightarrow> (string \<times> string) py" where
  "js_key s =
     (if s \<noteq> [] \<and> hd s = quote_char then
        py_bind (js_string (tl s)) (\<lambda>(k, r).
        py_bind (js_colon r) (\<lambda>r1. Inr (k, r1)))
      else js_err ''Expecting property name enclosed in double quotes'')"

fun js_value :: "nat \<Rightarrow> string \<Rightarrow> (pyv \<times> string) py"
and js_array :: "nat \<Rightarrow> string \<Rightarrow> pyv list \<Rightarrow> (pyv \<times> string) py"
and js_members :: "nat \<Rightarrow> string \<Rightarrow> pydict \<Rightarrow> (pyv \<times> string) py" where
  "js_value 0 s = no_fuel"
| "js_value (Suc n) [] = js_err ''Expecting value''"
| "js_value (Suc n) (c # r) =
     (case js_tok c of
        TStr \<Rightarrow> py_bind (js_string r) (\<lambda>(t, r1). Inr (PStr t, r1))
      | TObj \<Rightarrow> (case js_close CHR ''}'' r of
                   Some r1 \<Rightarrow> Inr (PDict [], r1)
                 | None \<Rightarrow> js_members n (js_ws r) [])
      | TArr \<Rightarrow> (case js_close CHR '']'' r of
                   Some r1 \<Rightarrow> Inr (PList [], r1)
                 | None \<Rightarrow> js_array n (js_ws r) [])
      | TOther \<Rightarrow> (case js_word (c # r) of
                   Some p \<Rightarrow> Inr p
                 | None \<Rightarrow> js_err ''Expecting value''))"
| "js_array 0 s acc = no_fuel"
| "js_array (Suc n) s acc =
     py_bind (js_value n s) (\<lambda>(v, r).
     py_bind (js_sep CHR '']'' r) (\<lambda>(again, r1).
       if again then js_array n r1 (acc @ [v]) else Inr (PList (acc @ [v]), r1)))"
| "js_members 0 s acc = no_fuel"
| "js_members (Suc n) s acc =
     py_bind (js_key s) (\<lambda>(k, r).
     py_bind (js_value n r) (\<lambda>(v, r1).
     py_bind (js_sep CHR ''}'' r1) (\<lambda>(again, r2).
       if again then js_members n r2 (d_set k v acc) else Inr (PDict (d_set k v acc), r2))))"

definition json_loads :: "string \<Rightarrow> pyv py" where
  "json_loads s =
     py_bind (js_value (Suc (2 * length s)) (js_ws s)) (\<lambda>(v, r).
       if js_ws r = [] then Inr v else js_err ''Extra data'')"

subsection \<open>The decoder reads, and its fuel suffices\<close>

definition decode_err :: "'a py \<Rightarrow> bool" where
  "decode_err m = (case m of Inl e \<Rightarrow> exc_type e = ''JSONDecodeError'' | Inr x \<Rightarrow> True)"

lemma decode_err_simps [simp]:
  "decode_err (js_err msg)"
  "decode_err (Inr x)"
  "\<not> decode_err no_fuel"
  by (simp_all add: decode_err_def js_err_def no_fuel_def)

lemma decode_err_bind [intro]:
  "decode_err m \<Longrightarrow> (\<And>x. m = Inr x \<Longrightarrow> decode_err (f x)) \<Longrightarrow> decode_err (py_bind m f)"
  by (cases m) (auto simp: decode_err_def)

lemma no_fuel_not_Inr [simp]: "no_fuel \<noteq> Inr x"
  by (simp add: no_fuel_def)

lemma length_js_ws: "length (js_ws s) \<le> length s"
  by (simp add: js_ws_def length_dropWhile_le)

lemma decode_err_js_unit: "decode_err (js_unit c s)"
  by (simp add: js_unit_def split: list.split option.split)

lemma decode_err_js_string: "decode_err (js_string s)"
proof (induction s rule: js_string.induct)
  case (2 c s)
  show ?case
  proof (cases "js_unit c s")
    case (Inl e)
    then show ?thesis using decode_err_js_unit [of c s] by (simp add: decode_err_def)
  next
    case (Inr p)
    obtain u r where p: "p = (u, r)" by (cases p)
    show ?thesis
    proof (cases "c = quote_char")
      case False
      then have "decode_err (js_string r)" using "2.IH" [OF False Inr] p by simp
      then show ?thesis using Inr p False by (auto simp: js_cons_def)
    qed simp
  qed
qed simp

lemma js_cons_Inr: "js_cons u m = Inr (t, r) \<longleftrightarrow> (\<exists>t'. m = Inr (t', r) \<and> t = u @ t')"
  by (cases m) (auto simp: js_cons_def)

lemma js_string_length: "js_string s = Inr (t, r) \<Longrightarrow> length r < length s"
proof (induction s arbitrary: t rule: js_string.induct)
  case (2 c s)
  show ?case
  proof (cases "c = quote_char")
    case False
    then obtain u r1 where u: "js_unit c s = Inr (u, r1)" using "2.prems" by (cases "js_unit c s") auto
    then obtain t' where "js_string r1 = Inr (t', r)" using "2.prems" False by (auto simp: js_cons_Inr)
    then show ?thesis using "2.IH" [OF False u] js_unit_length [OF u] by fastforce
  qed (use "2.prems" in simp)
qed simp

lemma js_next_length: "js_next s = Some (d, r) \<Longrightarrow> length r < length s"
  using length_js_ws [of s] by (auto simp: js_next_def split: list.splits)

lemma js_close_length: "js_close cl s = Some r \<Longrightarrow> length r < length s"
  by (auto simp: js_close_def dest: js_next_length split: option.splits if_split_asm)

lemma js_sep_length:
  assumes "js_sep cl s = Inr (b, r)"
  shows "length r < length s"
proof (cases "js_next s")
  case (Some p)
  obtain d r1 where "p = (d, r1)" by (cases p)
  then show ?thesis
    using assms Some js_next_length [of s d r1] length_js_ws [of r1] by (auto simp: js_sep_def split: if_split_asm)
qed (use assms in \<open>simp add: js_sep_def\<close>)

lemma js_colon_length:
  assumes "js_colon s = Inr r"
  shows "length r < length s"
proof (cases "js_next s")
  case (Some p)
  obtain d r1 where "p = (d, r1)" by (cases p)
  then show ?thesis
    using assms Some js_next_length [of s d r1] length_js_ws [of r1] by (auto simp: js_colon_def split: if_split_asm)
qed (use assms in \<open>simp add: js_colon_def\<close>)

lemma js_key_length: "js_key s = Inr (k, r) \<Longrightarrow> Suc (length r) < length s"
  by (auto simp: js_key_def py_bind_Inr_iff dest!: js_string_length js_colon_length split: if_split_asm)

lemma decode_err_colon: "decode_err (js_colon s)"
  by (auto simp: js_colon_def split: option.split)

lemma decode_err_sep_key: "decode_err (js_sep cl s)" "decode_err (js_key s)"
proof -
  show "decode_err (js_sep cl s)" by (auto simp: js_sep_def split: option.split)
  have "decode_err (py_bind (js_string t) (\<lambda>(k, r). py_bind (js_colon r) (\<lambda>r1. Inr (k, r1))))" for t
    by (rule decode_err_bind [OF decode_err_js_string])
      (auto intro: decode_err_bind [OF decode_err_colon])
  then show "decode_err (js_key s)" by (simp add: js_key_def)
qed

lemma length_takeWhile_dropped: "ds = takeWhile P r \<Longrightarrow> ds \<noteq> [] \<Longrightarrow> length (drop (length ds) r) < length r"
  using length_takeWhile_le [of P r] by (cases r) auto

lemma js_exponent_length: "js_exponent s = Some (e, r) \<Longrightarrow> length r < length s"
  by (auto simp: js_exponent_def Let_def split: list.splits if_splits)

lemma js_number_length:
  assumes "js_number s = Some (v, r)"
  shows "length r < length s"
proof -
  let ?r = "if prefix ''-'' s then tl s else s"
  define ds where "ds = takeWhile is_digit_char ?r"
  define ip where "ip = (if hd ds = CHR ''0'' then ''0'' else ds)"
  define fp where "fp = js_frac (drop (length ip) ?r)"
  define r2 where "r2 = (if fp = [] then drop (length ip) ?r else drop (Suc (length fp)) (drop (length ip) ?r))"
  have ds: "ds \<noteq> []" using assms by (auto simp: js_number_def ds_def Let_def)
  then have "ip \<noteq> []" by (simp add: ip_def)
  moreover have "?r \<noteq> []" using ds by (auto simp: ds_def)
  ultimately have "length r2 < length ?r" by (cases ?r; cases ip) (auto simp: r2_def)
  moreover have "length r \<le> length r2"
  proof (cases "js_exponent r2")
    case None
    then have "r = r2"
      using assms ds unfolding js_number_def Let_def ds_def [symmetric] ip_def [symmetric] fp_def [symmetric] r2_def [symmetric]
      by (simp split: if_split_asm)
    then show ?thesis by simp
  next
    case (Some p)
    then have "r = snd p"
      using assms ds unfolding js_number_def Let_def ds_def [symmetric] ip_def [symmetric] fp_def [symmetric] r2_def [symmetric]
      by (cases p) simp
    then show ?thesis using js_exponent_length [of r2 "fst p" "snd p"] Some by simp
  qed
  moreover have "length ?r \<le> length s" by simp
  ultimately show ?thesis by linarith
qed

lemma length_drop_prefix: "prefix (x # xs) s \<Longrightarrow> length s - Suc k < length s"
  by (cases s) auto

lemma js_word_length: "js_word s = Some (v, r) \<Longrightarrow> length r < length s"
  by (cases "js_number s")
    (auto simp del: prefix_code simp: js_word_def numeral_eq_Suc
      intro: length_drop_prefix js_number_length split: if_split_asm)

lemma js_length:
  "js_value n s = Inr (v, r) \<Longrightarrow> length r < length s"
  "js_array n s acc = Inr (v, r) \<Longrightarrow> length r < length s"
  "js_members n s d = Inr (v, r) \<Longrightarrow> length r < length s"
proof (induction n s and n s acc and n s d arbitrary: v r and v r and v r rule: js_value_js_array_js_members.induct)
  case (3 n c s)
  have ws: "length (js_ws s) \<le> length s" by (rule length_js_ws)
  show ?case
  proof (cases "js_tok c")
    case TStr
    then obtain t where "js_string s = Inr (t, r)" using "3.prems" by (auto simp: py_bind_Inr_iff)
    then show ?thesis by (auto dest: js_string_length)
  next
    case TObj
    show ?thesis
    proof (cases "js_close CHR ''}'' s")
      case None
      then show ?thesis using "3.IH"(1) [OF TObj None] "3.prems" TObj ws by fastforce
    next
      case (Some r1)
      then show ?thesis using "3.prems" TObj js_close_length [OF Some] by simp
    qed
  next
    case TArr
    show ?thesis
    proof (cases "js_close CHR '']'' s")
      case None
      then show ?thesis using "3.IH"(2) [OF TArr None] "3.prems" TArr ws by fastforce
    next
      case (Some r1)
      then show ?thesis using "3.prems" TArr js_close_length [OF Some] by simp
    qed
  next
    case TOther
    then have "js_word (c # s) = Some (v, r)" using "3.prems" by (auto split: option.splits)
    then show ?thesis by (rule js_word_length)
  qed
next
  case (5 n s acc)
  then obtain w r1 b r2 where w: "js_value n s = Inr (w, r1)" and b: "js_sep CHR '']'' r1 = Inr (b, r2)"
    and r: "if b then js_array n r2 (acc @ [w]) = Inr (v, r) else r = r2"
    by (auto simp: py_bind_Inr_iff split: if_split_asm)
  then show ?case
    using "5.IH"(1) [OF w] js_sep_length [OF b] "5.IH"(2) [of b r2 w v r]
    by (cases b) auto
next
  case (7 n s acc)
  then obtain k r0 w r1 b r2 where k: "js_key s = Inr (k, r0)" and w: "js_value n r0 = Inr (w, r1)"
    and b: "js_sep CHR ''}'' r1 = Inr (b, r2)"
    and r: "if b then js_members n r2 (d_set k w acc) = Inr (v, r) else r = r2"
    by (auto simp: py_bind_Inr_iff split: if_split_asm)
  then show ?case
    using js_key_length [OF k] js_sep_length [OF b] "7.IH"(1) [OF w]
      "7.IH"(2)
    by (cases b) fastforce+
qed simp_all

text \<open>Twice the length of the text is enough fuel: decoding ends in a value or a decoding error.\<close>

lemma js_fuel:
  "2 * length s < n \<Longrightarrow> decode_err (js_value n s)"
  "Suc (2 * length s) < n \<Longrightarrow> decode_err (js_array n s acc)"
  "Suc (2 * length s) < n \<Longrightarrow> decode_err (js_members n s d)"
proof (induction n s and n s acc and n s d rule: js_value_js_array_js_members.induct)
  case (3 n c s)
  have ws: "Suc (2 * length (js_ws s)) < n"
    using length_js_ws [of s] "3.prems" by simp
  show ?case
  proof (cases "js_tok c")
    case TStr
    have "decode_err (py_bind (js_string s) (\<lambda>(t, r1). Inr (PStr t, r1)))"
      by (rule decode_err_bind [OF decode_err_js_string]) auto
    then show ?thesis using TStr by simp
  next
    case TObj
    then show ?thesis using "3.IH"(1) [OF TObj _ ws] by (simp split: option.split)
  next
    case TArr
    then show ?thesis using "3.IH"(2) [OF TArr _ ws] by (simp split: option.split)
  next
    case TOther
    then show ?thesis by (simp split: option.split)
  qed
next
  case (5 n s acc)
  have "decode_err (js_array (Suc n) s acc)"
    unfolding js_array.simps
  proof (rule decode_err_bind, goal_cases)
    case 1
    then show ?case using "5.IH"(1) "5.prems" by simp
  next
    case (2 p)
    then have l: "length (snd p) < length s" using js_length(1) [of n s "fst p" "snd p"] by simp
    show ?case
      unfolding case_prod_unfold
    proof (rule decode_err_bind, goal_cases)
      case 1
      show ?case by (rule decode_err_sep_key)
    next
      case (2 q)
      then have "length (snd q) < length (snd p)" using js_sep_length [of _ _ "fst q" "snd q"] by simp
      then show ?case using l "5.IH"(2) [of "fst q" "snd q" "fst p"] "5.prems" by simp
    qed
  qed
  then show ?case .
next
  case (7 n s acc)
  have "decode_err (js_members (Suc n) s acc)"
    unfolding js_members.simps
  proof (rule decode_err_bind, goal_cases)
    case 1
    show ?case by (rule decode_err_sep_key)
  next
    case (2 p)
    then have k: "Suc (length (snd p)) < length s" using js_key_length [of s "fst p" "snd p"] by simp
    show ?case
      unfolding case_prod_unfold
    proof (rule decode_err_bind, goal_cases)
      case 1
      then show ?case using "7.IH"(1) "7.prems" k by simp
    next
      case (2 q)
      then have l: "length (snd q) < length (snd p)" using js_length(1) [of n _ "fst q" "snd q"] by simp
      show ?case
      proof (rule decode_err_bind, goal_cases)
        case 1
        show ?case by (rule decode_err_sep_key)
      next
        case (2 t)
        then have "length (snd t) < length (snd q)" using js_sep_length [of _ _ "fst t" "snd t"] by simp
        then show ?case using k l "7.IH"(2) [of "fst t" "snd t" "fst p" "fst q"] "7.prems" by simp
      qed
    qed
  qed
  then show ?case .
qed simp_all

text \<open>\<open>json.loads\<close> is total: on every text it returns a value or raises \<open>JSONDecodeError\<close>,
  the one exception its callers catch; the bound on its steps is never reached.\<close>

lemma json_loads_total:
  "case json_loads s of Inl e \<Rightarrow> exc_type e = ''JSONDecodeError'' | Inr v \<Rightarrow> True"
proof -
  have "2 * length (js_ws s) < Suc (2 * length s)" using length_js_ws [of s] by simp
  then have "decode_err (json_loads s)"
    unfolding json_loads_def
    by (intro decode_err_bind js_fuel) auto
  then show ?thesis by (simp add: decode_err_def)
qed

subsection \<open>Round trip\<close>

text \<open>Values that JSON represents: no scalar outside JSON, distinct keys, floats with at most 17
  decimals.\<close>

fun json_value :: "pyv \<Rightarrow> bool" where
  "json_value (PDec q s) \<longleftrightarrow> False"
| "json_value (POther s) \<longleftrightarrow> False"
| "json_value (PFloat q) \<longleftrightarrow> q * 10 ^ 17 = of_int \<lfloor>q * 10 ^ 17\<rfloor>"
| "json_value (PList xs) \<longleftrightarrow> list_all json_value xs"
| "json_value (PDict d) \<longleftrightarrow> distinct (map fst d) \<and> list_all (\<lambda>(k, v). json_value v) d"
| "json_value _ \<longleftrightarrow> True"

lemma hex_val_digit: "k < 16 \<Longrightarrow> hex_val (hex_digit k) = Some k"
  by (cases "k < 10") (simp_all add: hex_val_def hex_digit_def is_digit_char_def)

lemma js_unicode_ctrl:
  assumes "n < 32"
  shows "js_unicode ([CHR ''0'', CHR ''0'', hex_digit (n div 16), hex_digit (n mod 16)] @ s) = Some ([chr_of n], s)"
proof -
  have h: "hex_val (hex_digit (n div 16)) = Some (n div 16)" "hex_val (hex_digit (n mod 16)) = Some (n mod 16)"
    using assms by (simp_all add: hex_val_digit)
  have z: "hex_val CHR ''0'' = Some 0" by code_simp
  have "n div 16 * 16 + n mod 16 = n" by simp
  then have "hex4 ([CHR ''0'', CHR ''0'', hex_digit (n div 16), hex_digit (n mod 16)] @ s) = Some (n, s)"
    by (simp add: h z)
  then show ?thesis using assms by (simp add: js_unicode_def utf8_def)
qed

lemma backslash_not_quote [simp]: "backslash \<noteq> quote_char"
  by (simp add: quote_char_def backslash_def)

lemma json_esc_pair:
  assumes "list_all (\<lambda>(c, e). json_esc c = [backslash, e] \<and> js_escape e = Some c \<and> e \<noteq> CHR ''u'') [(c, e)]"
  shows "\<exists>d u. json_esc c = d # u \<and> d \<noteq> quote_char \<and> (\<forall>s. js_unit d (u @ s) = Inr ([c], s))"
  using assms by (intro exI [of _ backslash] exI [of _ "[e]"]) (simp add: js_unit_def)

lemma json_esc_pairs:
  "list_all (\<lambda>(c, e). json_esc c = [backslash, e] \<and> js_escape e = Some c \<and> e \<noteq> CHR ''u'')
    [(quote_char, quote_char), (backslash, backslash), (CHR 0x0A, CHR ''n''), (CHR 0x0D, CHR ''r''),
     (CHR 0x09, CHR ''t''), (CHR 0x08, CHR ''b''), (CHR 0x0C, CHR ''f'')]"
  by code_simp

lemma json_esc_unit:
  "\<exists>d u. json_esc c = d # u \<and> d \<noteq> quote_char \<and> (\<forall>s. js_unit d (u @ s) = Inr ([c], s))"
proof (cases "c = quote_char \<or> c = backslash \<or> c = CHR 0x0A \<or> c = CHR 0x0D \<or> c = CHR 0x09 \<or> c = CHR 0x08
    \<or> c = CHR 0x0C")
  case True
  then obtain e where "(c, e) \<in> set [(quote_char, quote_char), (backslash, backslash),
      (CHR 0x0A, CHR ''n''), (CHR 0x0D, CHR ''r''), (CHR 0x09, CHR ''t''), (CHR 0x08, CHR ''b''), (CHR 0x0C, CHR ''f'')]"
    by (elim disjE) (simp_all, blast+)
  then show ?thesis
    using json_esc_pairs by (intro json_esc_pair [of c e]) (auto simp: list_all_iff)
next
  case other: False
  show ?thesis
  proof (cases "ord_of c < 32")
    case True
    show ?thesis
      using other True js_unicode_ctrl [OF True]
      by (auto simp: json_esc_def js_unit_def ord_of_def chr_of_def)
  next
    case False
    then show ?thesis using other by (auto simp: json_esc_def js_unit_def)
  qed
qed

lemma js_string_esc: "js_string (concat (map json_esc t) @ quote_char # s) = Inr (t, s)"
proof (induction t)
  case Nil
  then show ?case by simp
next
  case (Cons c t)
  obtain d u where d: "json_esc c = d # u" "d \<noteq> quote_char" "\<And>s. js_unit d (u @ s) = Inr ([c], s)"
    using json_esc_unit by blast
  then show ?case using Cons by (simp add: js_cons_def)
qed


text \<open>What may follow a number\<close>

definition num_end :: "string \<Rightarrow> bool" where
  "num_end s = (case s of [] \<Rightarrow> True
     | c # _ \<Rightarrow> \<not> is_digit_char c \<and> c \<noteq> CHR ''.'' \<and> c \<noteq> CHR ''e'' \<and> c \<noteq> CHR ''E'')"

lemma digits_takeWhile:
  "list_all is_digit_char ds \<Longrightarrow> s = [] \<or> \<not> is_digit_char (hd s) \<Longrightarrow> takeWhile is_digit_char (ds @ s) = ds"
  by (cases s) (auto simp: takeWhile_append list_all_iff)

lemma js_exponent_end: "num_end s \<Longrightarrow> js_exponent s = None"
  by (auto simp: num_end_def js_exponent_def split: list.split)

lemma digit_not_special: "is_digit_char c \<Longrightarrow> c \<noteq> CHR ''-''" "\<not> is_digit_char CHR ''.''" "\<not> is_digit_char CHR ''-''"
  by (auto simp: is_digit_char_def ord_of_def)

lemma js_number_text:
  assumes ds: "ds \<noteq> []" "list_all is_digit_char ds" "hd ds = CHR ''0'' \<Longrightarrow> ds = ''0''"
    and fs: "list_all is_digit_char fs" and e: "num_end s"
  shows "js_number ((if neg then ''-'' else []) @ ds @ (if fs = [] then [] else CHR ''.'' # fs) @ s)
    = Some (if fs = [] then PInt (if neg then - int (parse_nat ds) else int (parse_nat ds))
            else PFloat (if neg then - (of_int (int (parse_nat ds)) + dec_val fs)
                         else of_int (int (parse_nat ds)) + dec_val fs), s)"
proof -
  define r where "r = ds @ (if fs = [] then [] else CHR ''.'' # fs) @ s"
  have hd: "hd ds \<noteq> CHR ''-''" using ds digit_not_special(1) by (cases ds) auto
  have neg: "prefix ''-'' ((if neg then ''-'' else []) @ r) = neg"
    using ds(1) hd by (cases ds) (auto simp: r_def)
  have tl: "(if neg then tl ((if neg then ''-'' else []) @ r) else (if neg then ''-'' else []) @ r) = r"
    by simp
  have tw: "takeWhile is_digit_char r = ds"
    unfolding r_def using e ds(2)
    by (intro digits_takeWhile) (auto simp: digit_not_special num_end_def split: list.splits)
  have ip: "(if hd ds = CHR ''0'' then ''0'' else ds) = ds" using ds(3) by simp
  have r1: "drop (length ds) r = (if fs = [] then [] else CHR ''.'' # fs) @ s" by (simp add: r_def)
  have "takeWhile is_digit_char (fs @ s) = fs"
    using e fs by (intro digits_takeWhile) (auto simp: num_end_def split: list.splits)
  then have fp: "js_frac ((if fs = [] then [] else CHR ''.'' # fs) @ s) = fs"
    using e by (auto simp: js_frac_def num_end_def split: list.splits)
  have r2: "(if fs = [] then (if fs = [] then [] else CHR ''.'' # fs) @ s
      else drop (Suc (length fs)) ((if fs = [] then [] else CHR ''.'' # fs) @ s)) = s" by simp
  have "js_number ((if neg then ''-'' else []) @ r) = Some (if fs = [] then PInt (if neg then - int (parse_nat ds) else int (parse_nat ds))
            else PFloat (if neg then - (of_int (int (parse_nat ds)) + dec_val fs)
                         else of_int (int (parse_nat ds)) + dec_val fs), s)"
    unfolding js_number_def Let_def neg tl tw ip r1 fp r2 using ds(1) by (simp add: js_exponent_end [OF e])
  then show ?thesis by (simp add: r_def)
qed

lemma show_nat_zero: "hd (show_nat n) = CHR ''0'' \<Longrightarrow> show_nat n = ''0''"
proof (induction n rule: show_nat.induct)
  case (1 n)
  have z: "chr_of (48 + k) = CHR ''0'' \<longleftrightarrow> k = 0" if "k < 10" for k
  proof
    assume "chr_of (48 + k) = CHR ''0''"
    then have "ord_of (chr_of (48 + k)) = ord_of CHR ''0''" by simp
    moreover have "ord_of CHR ''0'' = 48" by (simp add: ord_of_def)
    ultimately show "k = 0" using that by simp
  next
    assume "k = 0"
    moreover have "chr_of 48 = CHR ''0''" by code_simp
    ultimately show "chr_of (48 + k) = CHR ''0''" by simp
  qed
  show ?case
  proof (cases "n < 10")
    case True
    then have "show_nat n = [chr_of (48 + n)]" by (simp add: show_nat.simps [of n])
    then show ?thesis using "1.prems" by simp
  next
    case False
    then have "hd (show_nat (n div 10)) = CHR ''0''" using "1.prems" by (simp add: show_nat.simps [of n])
    then have "show_nat (n div 10) = ''0''" using "1.IH" False by simp
    then have "parse_nat (show_nat (n div 10)) = parse_nat ''0''" by simp
    moreover have "parse_nat ''0'' = 0" by code_simp
    ultimately have "n div 10 = 0" by (simp only: parse_show_nat)
    then show ?thesis using False by simp
  qed
qed

lemma digit_val_chr [simp]: "k < 10 \<Longrightarrow> digit_val (chr_of (48 + k)) = k"
  by (simp add: digit_val_def)

lemma frac_digits_text: "0 \<le> q \<Longrightarrow> q < 1 \<Longrightarrow> list_all is_digit_char (frac_digits n q)"
proof (induction n q rule: frac_digits.induct)
  case (2 n q)
  have d: "nat \<lfloor>10 * q\<rfloor> < 10" using "2.prems" by linarith
  have "list_all is_digit_char (frac_digits n (10 * q - of_int \<lfloor>10 * q\<rfloor>))" if "q \<noteq> 0"
    by (rule "2.IH" [OF that]) linarith+
  moreover have "is_digit_char (chr_of (48 + nat \<lfloor>10 * q\<rfloor>))" using d by (simp add: is_digit_char_def)
  ultimately show ?case by simp
qed simp

lemma frac_digits_val:
  "0 \<le> q \<Longrightarrow> q < 1 \<Longrightarrow> q * 10 ^ n \<in> \<int> \<Longrightarrow> dec_val (frac_digits n q) = q"
proof (induction n q rule: frac_digits.induct)
  case (1 q)
  then obtain i where "q = of_int i" by (auto elim: Ints_cases)
  then have "q = 0" using 1 by simp
  then show ?case by (simp add: dec_val_def)
next
  case (2 n q)
  let ?d = "\<lfloor>10 * q\<rfloor>"
  show ?case
  proof (cases "q = 0")
    case False
    have d: "0 \<le> ?d" "nat ?d < 10" using "2.prems" by linarith+
    have eq: "(10 * q - of_int ?d) * 10 ^ n = q * 10 ^ Suc n - of_int (?d * 10 ^ n)"
      by (simp add: algebra_simps)
    have "(10 * q - of_int ?d) * 10 ^ n \<in> \<int>"
      unfolding eq by (rule Ints_diff [OF "2.prems"(3) Ints_of_int])
    then have "dec_val (frac_digits n (10 * q - of_int ?d)) = 10 * q - of_int ?d"
      using "2.IH" [OF False] by (simp add: floor_le_iff) linarith
    then show ?thesis using False d by (simp add: dec_val_def)
  qed (simp add: dec_val_def)
qed

definition js_start :: "string \<Rightarrow> bool" where
  "js_start s \<longleftrightarrow> (case s of [] \<Rightarrow> False | c # _ \<Rightarrow> \<not> is_js_space c \<and> c \<noteq> CHR '']'' \<and> c \<noteq> CHR ''}'')"

definition js_scalar :: "string \<Rightarrow> pyv \<Rightarrow> bool" where
  "js_scalar t v \<longleftrightarrow> js_start t \<and> (\<forall>n s. num_end s \<longrightarrow> js_value (Suc n) (t @ s) = Inr (v, s))"

lemma js_number_scalar:
  assumes "ds \<noteq> []" "list_all is_digit_char ds" "hd ds = CHR ''0'' \<Longrightarrow> ds = ''0''" "list_all is_digit_char fs"
  shows "js_scalar ((if neg then ''-'' else []) @ ds @ (if fs = [] then [] else CHR ''.'' # fs))
    (if fs = [] then PInt (if neg then - int (parse_nat ds) else int (parse_nat ds))
     else PFloat (if neg then - (of_int (int (parse_nat ds)) + dec_val fs)
                  else of_int (int (parse_nat ds)) + dec_val fs))"
proof -
  let ?t = "(if neg then ''-'' else []) @ ds @ (if fs = [] then [] else CHR ''.'' # fs)"
  obtain c t where t: "?t = c # t" using assms(1) by (cases ?t) auto
  have c: "is_digit_char c \<or> c = CHR ''-''" using assms(1,2) t by (cases ds) (auto split: if_splits)
  have sp: "\<not> is_js_space c" "c \<noteq> CHR '']''" "c \<noteq> CHR ''}''" "js_tok c = TOther"
    "c \<noteq> CHR ''n''" "c \<noteq> CHR ''t''" "c \<noteq> CHR ''f''"
    using c by (auto simp: is_js_space_def is_digit_char_def ord_of_def js_tok_def quote_char_def)
  have "js_value (Suc n) (?t @ s) = Inr (if fs = [] then PInt (if neg then - int (parse_nat ds) else int (parse_nat ds))
     else PFloat (if neg then - (of_int (int (parse_nat ds)) + dec_val fs)
                  else of_int (int (parse_nat ds)) + dec_val fs), s)" if "num_end s" for n s
  proof -
    have numeq: "js_number (?t @ s) = Some (if fs = [] then PInt (if neg then - int (parse_nat ds) else int (parse_nat ds))
     else PFloat (if neg then - (of_int (int (parse_nat ds)) + dec_val fs)
                  else of_int (int (parse_nat ds)) + dec_val fs), s)"
      unfolding append_assoc by (rule js_number_text [OF assms that])
    then have num: "js_number (?t @ s) \<noteq> None" by simp
    have "\<not> prefix ''null'' (?t @ s)" "\<not> prefix ''true'' (?t @ s)" "\<not> prefix ''false'' (?t @ s)"
      unfolding t using sp by simp_all
    then have w: "js_word (?t @ s) = js_number (?t @ s)"
      using num unfolding js_word_def by (cases "js_number (?t @ s)") (simp_all only: if_False option.case, blast)
    have "js_value (Suc n) (?t @ s) = (case js_word (?t @ s) of Some p \<Rightarrow> Inr p | None \<Rightarrow> js_err ''Expecting value'')"
      using sp by (simp add: t)
    also have "\<dots> = Inr (if fs = [] then PInt (if neg then - int (parse_nat ds) else int (parse_nat ds))
     else PFloat (if neg then - (of_int (int (parse_nat ds)) + dec_val fs)
                  else of_int (int (parse_nat ds)) + dec_val fs), s)"
      by (simp only: w numeq option.case)
    finally show ?thesis .
  qed
  then show ?thesis using sp(1-3) by (simp add: js_scalar_def js_start_def t)
qed

lemma js_scalar_int: "js_scalar (show_int i) (PInt i)"
proof -
  have "js_scalar ((if neg then ''-'' else []) @ show_nat n)
      (PInt (if neg then - int n else int n))" for n neg
    using js_number_scalar [OF show_nat_not_Nil show_nat_digits show_nat_zero, of n "[]" neg]
    unfolding parse_show_nat by simp
  from this [of "i < 0" "nat \<bar>i\<bar>"] show ?thesis by (simp add: show_int_def split: if_splits)
qed

lemma js_scalar_float:
  assumes "q * 10 ^ 17 = of_int \<lfloor>q * 10 ^ 17\<rfloor>"
  shows "js_scalar (show_float q) (PFloat q)"
proof -
  let ?a = "\<bar>q\<bar>"
  let ?r = "?a - of_int \<lfloor>?a\<rfloor>"
  define f where "f = frac_digits 17 ?r"
  have r: "0 \<le> ?r" "?r < 1" by linarith+
  have "q * 10 ^ 17 \<in> \<int>" using assms by (metis Ints_of_int)
  then have "?a * 10 ^ 17 \<in> \<int>" by (cases "q < 0") (auto simp: abs_if)
  moreover have "of_int \<lfloor>?a\<rfloor> * 10 ^ 17 \<in> (\<int> :: rat set)"
    by (metis Ints_mult Ints_of_int Ints_power of_int_numeral)
  ultimately have "?r * 10 ^ 17 \<in> \<int>" by (simp add: left_diff_distrib Ints_diff)
  then have v: "dec_val f = ?r" unfolding f_def by (rule frac_digits_val [OF r])
  have n: "\<not> \<lfloor>?a\<rfloor> < 0" by simp
  define fs where "fs = (if f = [] then ''0'' else f)"
  have "dec_val ''0'' = 0" by code_simp
  then have fv: "dec_val fs = ?r" using v by (auto simp: fs_def dec_val_def)
  have fd: "list_all is_digit_char fs" "fs \<noteq> []"
    using frac_digits_text [OF r, of 17] by (auto simp: fs_def f_def is_digit_char_def ord_of_def)
  have "js_scalar ((if q < 0 then ''-'' else []) @ show_nat (nat \<lfloor>?a\<rfloor>) @ CHR ''.'' # fs)
      (PFloat (if q < 0 then - (of_int (int (nat \<lfloor>?a\<rfloor>)) + dec_val fs) else of_int (int (nat \<lfloor>?a\<rfloor>)) + dec_val fs))"
    using js_number_scalar [OF show_nat_not_Nil show_nat_digits show_nat_zero fd(1), of "nat \<lfloor>?a\<rfloor>" "q < 0"] fd(2)
    unfolding parse_show_nat by simp
  moreover have "show_float q = (if q < 0 then ''-'' else []) @ show_nat (nat \<lfloor>?a\<rfloor>) @ CHR ''.'' # fs"
    using n unfolding show_float_def Let_def f_def [symmetric] fs_def show_int_def by simp
  moreover have "(if q < 0 then - (of_int (int (nat \<lfloor>?a\<rfloor>)) + dec_val fs) else of_int (int (nat \<lfloor>?a\<rfloor>)) + dec_val fs) = q"
    using n by (simp add: fv)
  ultimately show ?thesis by simp
qed

text \<open>An encoded value followed by the end of the text or by a separator is read back.\<close>

definition reads :: "string \<Rightarrow> pyv \<Rightarrow> bool" where
  "reads t v \<longleftrightarrow> js_start t \<and>
     (\<forall>n s. num_end s \<longrightarrow> length t \<le> n \<longrightarrow> js_value (Suc n) (t @ s) = Inr (v, s))"

lemma reads_scalar: "js_scalar t v \<Longrightarrow> reads t v"
  by (simp add: reads_def js_scalar_def)

lemma reads_word:
  assumes "js_word t0 = Some (v, [])" "\<And>s. js_word (t0 @ s) = Some (v, s)" "js_start t0" "js_tok (hd t0) = TOther"
  shows "reads t0 v"
  using assms by (cases t0) (auto simp: reads_def js_start_def)

lemma reads_null: "reads ''null'' PNone" "reads ''true'' (PBool True)" "reads ''false'' (PBool False)"
  by (auto intro!: reads_word simp: js_word_def js_start_def is_js_space_def js_tok_def quote_char_def)

lemma num_end_sep: "num_end (CHR '','' # s)" "num_end (CHR '']'' # s)" "num_end (CHR ''}'' # s)" "num_end []"
  by (simp_all add: num_end_def is_digit_char_def ord_of_def)

lemma js_ws_start: "js_start t \<Longrightarrow> js_ws (t @ s) = t @ s"
  by (cases t) (auto simp: js_start_def js_ws_def)

lemma js_ws_one: "js_start t \<Longrightarrow> js_ws (CHR '' '' # t @ s) = t @ s"
  using js_ws_start [of t s] by (simp add: js_ws_def is_js_space_def)

lemma js_start_str: "js_start (json_str t)"
  by (simp add: js_start_def json_str_def quote_char_def is_js_space_def)

lemma reads_str: "reads (json_str t) (PStr t)"
  using js_start_str [of t] by (simp add: reads_def json_str_def js_tok_def js_string_esc)

lemma js_sep_comma: "js_start t \<Longrightarrow> cl \<noteq> CHR '','' \<Longrightarrow> js_sep cl (CHR '','' # CHR '' '' # t @ s) = Inr (True, t @ s)"
  by (simp add: js_sep_def js_next_def js_ws_def [of "CHR '','' # _"] is_js_space_def js_ws_one)

lemma js_sep_close: "cl \<in> {CHR '']'', CHR ''}''} \<Longrightarrow> js_sep cl (cl # s) = Inr (False, s)"
  by (auto simp: js_sep_def js_next_def js_ws_def is_js_space_def)

lemma reads_items:
  assumes "xs \<noteq> []" and "list_all (\<lambda>x. reads (json_dumps x) x) xs"
    and "length (join '', '' (map json_dumps xs)) < n"
  shows "js_array (Suc n) (join '', '' (map json_dumps xs) @ CHR '']'' # s) acc = Inr (PList (acc @ xs), s)"
  using assms
proof (induction xs arbitrary: n acc)
  case (Cons x xs)
  have x: "reads (json_dumps x) x" using Cons.prems by simp
  obtain m where n: "n = Suc m" using Cons.prems(3) by (cases n) auto
  show ?case
  proof (cases xs)
    case Nil
    have "js_value n (json_dumps x @ CHR '']'' # s) = Inr (x, CHR '']'' # s)"
      using x Cons.prems(3) n by (simp add: Nil reads_def num_end_sep)
    then show ?thesis by (simp add: Nil js_sep_close)
  next
    case (Cons y ys)
    let ?rest = "join '', '' (map json_dumps xs)"
    have j: "join '', '' (map json_dumps (x # xs)) = json_dumps x @ '', '' @ ?rest"
      by (simp add: Cons)
    have st: "js_start ?rest"
    proof -
      have "js_start (json_dumps y)" using Cons.prems(2) by (simp add: Cons reads_def)
      then show ?thesis by (cases "json_dumps y"; cases ys) (simp_all add: Cons js_start_def)
    qed
    have v: "js_value n (json_dumps x @ '', '' @ ?rest @ CHR '']'' # s) = Inr (x, '', '' @ ?rest @ CHR '']'' # s)"
      using x Cons.prems(3) n by (simp add: j [simplified] reads_def num_end_sep)
    have "js_array n (?rest @ CHR '']'' # s) (acc @ [x]) = Inr (PList ((acc @ [x]) @ xs), s)"
      using Cons.IH [of m "acc @ [x]"] Cons.prems n by (simp add: j Cons)
    then have "js_array (Suc n) (json_dumps x @ '', '' @ ?rest @ CHR '']'' # s) acc = Inr (PList (acc @ x # xs), s)"
      using v js_sep_comma [OF st, of "CHR '']''" "CHR '']'' # s"] by simp
    then show ?thesis by (simp only: j append_assoc)
  qed
qed simp

lemma js_start_bracket: "js_start (CHR ''['' # s)" "js_start (CHR ''{'' # s)"
  by (simp_all add: js_start_def is_js_space_def)

lemma js_tok_bracket: "js_tok CHR ''['' = TArr" "js_tok CHR ''{'' = TObj"
  by (simp_all add: js_tok_def quote_char_def)

lemma js_close_start:
  assumes "js_start t" and "cl = CHR '']'' \<or> cl = CHR ''}''"
  shows "js_close cl (t @ s) = None"
proof -
  have "js_ws (t @ s) = t @ s" by (rule js_ws_start [OF assms(1)])
  then show ?thesis using assms by (cases t) (auto simp: js_close_def js_next_def js_start_def)
qed

lemma reads_list:
  assumes "list_all (\<lambda>x. reads (json_dumps x) x) xs"
  shows "reads (json_dumps (PList xs)) (PList xs)"
proof (cases "xs = []")
  case True
  have "js_close CHR '']'' (CHR '']'' # s) = Some s" for s
    by (simp add: js_close_def js_next_def js_ws_def is_js_space_def)
  then show ?thesis by (simp add: True reads_def js_start_bracket js_tok_bracket)
next
  case False
  let ?t = "join '', '' (map json_dumps xs)"
  have st: "js_start ?t"
  proof -
    obtain y ys where xs: "xs = y # ys" using False by (cases xs) auto
    have "js_start (json_dumps y)" using assms by (simp add: xs reads_def)
    then show ?thesis by (cases "json_dumps y"; cases ys) (simp_all add: xs js_start_def)
  qed
  have "js_value (Suc n) (json_dumps (PList xs) @ s) = Inr (PList xs, s)"
    if le: "length (json_dumps (PList xs)) \<le> n" for n s
  proof -
    obtain m where n: "n = Suc m" using le by (cases n) auto
    have l: "length ?t < m" using le by (simp add: n)
    have "js_array n (?t @ CHR '']'' # s) [] = Inr (PList ([] @ xs), s)"
      unfolding n by (rule reads_items [OF False assms l])
    then show ?thesis
      using js_close_start [OF st, of "CHR '']''" "CHR '']'' # s"] js_ws_start [OF st, of "CHR '']'' # s"]
      by (simp add: js_tok_bracket)
  qed
  then show ?thesis by (simp add: reads_def js_start_bracket)
qed

text \<open>Members of an object\<close>

definition member :: "string \<times> pyv \<Rightarrow> string" where
  "member p = json_str (fst p) @ '': '' @ json_dumps (snd p)"

lemma json_dumps_dict: "json_dumps (PDict d) = ''{'' @ join '', '' (map member d) @ ''}''"
  by (simp add: member_def [abs_def] case_prod_unfold)

lemma js_key_str: "js_start t \<Longrightarrow> js_key (json_str k @ '': '' @ t @ s) = Inr (k, t @ s)"
  by (simp add: js_key_def json_str_def js_string_esc js_colon_def js_next_def js_ws_one
      js_ws_def [of "CHR '':'' # _"] is_js_space_def)

lemma js_start_member: "js_start (member p)"
  using js_start_str [of "fst p"] by (cases "json_str (fst p)") (auto simp: member_def js_start_def)

lemma js_start_members: "d \<noteq> [] \<Longrightarrow> js_start (join '', '' (map member d))"
  using js_start_member [of "hd d"] by (cases d; cases "tl d"; cases "member (hd d)") (auto simp: js_start_def)

lemma d_set_fresh: "k \<notin> fst ` set d \<Longrightarrow> d_set k v d = d @ [(k, v)]"
  unfolding d_set_def by (induction d) auto

lemma reads_members:
  assumes "d \<noteq> []" and "list_all (\<lambda>p. reads (json_dumps (snd p)) (snd p)) d"
    and "length (join '', '' (map member d)) < n" and "distinct (map fst (acc @ d))"
  shows "js_members (Suc n) (join '', '' (map member d) @ CHR ''}'' # s) acc = Inr (PDict (acc @ d), s)"
  using assms
proof (induction d arbitrary: n acc)
  case (Cons p d)
  obtain k v where p: "p = (k, v)" by (cases p)
  have v: "reads (json_dumps v) v" using Cons.prems by (simp add: p)
  have st: "js_start (json_dumps v)" using v by (simp add: reads_def)
  obtain m where n: "n = Suc m" using Cons.prems(3) by (cases n) auto
  have acc: "d_set k v acc = acc @ [p]" using Cons.prems(4) by (simp add: p d_set_fresh)
  show ?case
  proof (cases d)
    case Nil
    have "js_value n (json_dumps v @ CHR ''}'' # s) = Inr (v, CHR ''}'' # s)"
      using v Cons.prems(3) n by (simp add: Nil reads_def num_end_sep member_def p)
    then show ?thesis
      using js_key_str [OF st, of k "CHR ''}'' # s"]
      by (simp add: Nil js_sep_close member_def acc p)
  next
    case (Cons y ys)
    let ?rest = "join '', '' (map member d)"
    have j: "join '', '' (map member (p # d)) = json_str k @ '': '' @ json_dumps v @ '', '' @ ?rest"
      by (simp add: Cons member_def p)
    have sr: "js_start ?rest" by (rule js_start_members) (simp add: Cons)
    have val: "js_value n (json_dumps v @ '', '' @ ?rest @ CHR ''}'' # s) = Inr (v, '', '' @ ?rest @ CHR ''}'' # s)"
      using v Cons.prems(3) n unfolding j by (simp add: reads_def num_end_sep)
    have "js_members n (?rest @ CHR ''}'' # s) (acc @ [p]) = Inr (PDict ((acc @ [p]) @ d), s)"
      unfolding n using Cons.prems(2,3,4) n j by (intro Cons.IH) (simp_all add: Cons)
    then have "js_members (Suc n) (json_str k @ '': '' @ json_dumps v @ '', '' @ ?rest @ CHR ''}'' # s) acc
        = Inr (PDict (acc @ p # d), s)"
      using val js_key_str [OF st, of k "'', '' @ ?rest @ CHR ''}'' # s"] acc
        js_sep_comma [OF sr, of "CHR ''}''" "CHR ''}'' # s"]
      by simp
    then show ?thesis by (simp only: j append_assoc)
  qed
qed simp

lemma reads_dict:
  assumes "list_all (\<lambda>p. reads (json_dumps (snd p)) (snd p)) d" and "distinct (map fst d)"
  shows "reads (json_dumps (PDict d)) (PDict d)"
proof (cases "d = []")
  case True
  have "js_close CHR ''}'' (CHR ''}'' # s) = Some s" for s
    by (simp add: js_close_def js_next_def js_ws_def is_js_space_def)
  then show ?thesis by (simp add: True reads_def js_start_bracket js_tok_bracket)
next
  case False
  let ?t = "join '', '' (map member d)"
  have st: "js_start ?t" by (rule js_start_members [OF False])
  have "js_value (Suc n) ((''{'' @ ?t @ ''}'') @ s) = Inr (PDict d, s)"
    if le: "length (''{'' @ ?t @ ''}'') \<le> n" for n s
  proof -
    obtain m where n: "n = Suc m" using le by (cases n) auto
    have l: "length ?t < m" using le by (simp add: n)
    have "js_members n (?t @ CHR ''}'' # s) [] = Inr (PDict ([] @ d), s)"
      unfolding n using assms by (intro reads_members [OF False _ l]) simp_all
    then show ?thesis
      using js_close_start [OF st, of "CHR ''}''" "CHR ''}'' # s"] js_ws_start [OF st, of "CHR ''}'' # s"]
      by (simp add: js_tok_bracket)
  qed
  then show ?thesis unfolding json_dumps_dict by (simp add: reads_def js_start_bracket)
qed

lemma reads_dumps: "json_value v \<Longrightarrow> reads (json_dumps v) v"
proof (induction v)
  case (PList xs)
  then have "list_all (\<lambda>x. reads (json_dumps x) x) xs" by (simp add: list_all_iff)
  then show ?case by (rule reads_list)
next
  case (PDict d)
  then have "list_all (\<lambda>p. reads (json_dumps (snd p)) (snd p)) d"
    by (fastforce simp: list_all_iff snds.intros)
  then show ?case using PDict.prems by (intro reads_dict) simp_all
qed (simp_all add: reads_null reads_str reads_scalar js_scalar_int js_scalar_float)

text \<open>A JSON value that is encoded and decoded is read back unchanged, whatever characters its strings
  hold.\<close>

lemma json_dumps_loads:
  assumes "json_value v"
  shows "json_loads (json_dumps v) = Inr v"
proof -
  have r: "reads (json_dumps v) v" by (rule reads_dumps [OF assms])
  then have "js_ws (json_dumps v) = json_dumps v"
    using js_ws_start [of "json_dumps v" "[]"] by (simp add: reads_def)
  moreover have "js_value (Suc (2 * length (json_dumps v))) (json_dumps v @ []) = Inr (v, [])"
  proof -
    have "\<And>n s. num_end s \<Longrightarrow> length (json_dumps v) \<le> n \<Longrightarrow> js_value (Suc n) (json_dumps v @ s) = Inr (v, s)"
      using r by (simp add: reads_def)
    from this [OF num_end_sep(4), of "2 * length (json_dumps v)"] show ?thesis by simp
  qed
  ultimately show ?thesis by (simp add: json_loads_def js_ws_def)
qed

end
