(* ===== verification/Router.thy ===== *)
theory Router
  imports Generator
begin

text \<open>
  \<open>agent/nodes/router.py\<close>: the question is scored by keyword and shape; a score of one is
  decided by the model, any other by the score alone. Non-ASCII keywords are their UTF-8 bytes.
  \<open>ntok\<close> is the tokenizer's \<open>len(_ENCODER.encode(question))\<close>.
\<close>

subsection \<open>The keyword lists\<close>

definition TOKEN_THRESHOLD :: nat where "TOKEN_THRESHOLD = 25"
definition TOKEN_THRESHOLD_HIGH :: nat where "TOKEN_THRESHOLD_HIGH = 35"

definition MULTI_INTENT_PATTERNS :: "string list" where
  "MULTI_INTENT_PATTERNS =
    [[CHR 0xE5, CHR 0x90, CHR 0x8C, CHR 0xE6, CHR 0x97, CHR 0xB6],
     [CHR 0xE5, CHR 0xB9, CHR 0xB6, CHR 0xE4, CHR 0xB8, CHR 0x94],
     [CHR 0xE5, CHR 0x88, CHR 0x86, CHR 0xE5, CHR 0x88, CHR 0xAB],
     [CHR 0xE4, CHR 0xBB, CHR 0xA5, CHR 0xE5, CHR 0x8F, CHR 0x8A],
     [CHR 0xE4, CHR 0xB9, CHR 0x9F, CHR 0xE4, CHR 0xB9, CHR 0xB0, CHR 0xE4, CHR 0xBA, CHR 0x86],
     [CHR 0xE8, CHR 0xBF, CHR 0x98, CHR 0xE4, CHR 0xB9, CHR 0xB0, CHR 0xE4, CHR 0xBA, CHR 0x86],
     [CHR 0xE4, CHR 0xB8, CHR 0x8D, CHR 0xE4, CHR 0xBB, CHR 0x85],
     [CHR 0xE8, CHR 0xBF, CHR 0x98, CHR 0xE8, CHR 0xA6, CHR 0x81],
     [CHR 0xE5, CHR 0x86, CHR 0x8D, CHR 0xE5, CHR 0x8A, CHR 0xA0, CHR 0xE4, CHR 0xB8, CHR 0x8A],
     ''respectively'',
     ''as well as'',
     ''in addition to'',
     ''along with'',
     ''additionally'',
     ''furthermore'',
     ''and also'',
     ''and then'',
     ''who have both'',
     ''that have both'',
     ''and their corresponding'',
     ''along with their'']"

definition MULTI_INTENT_PAIRS :: "(string \<times> string) list" where
  "MULTI_INTENT_PAIRS =
    [([CHR 0xE6, CHR 0x97, CHR 0xA2], [CHR 0xE5, CHR 0x8F, CHR 0x88]),
     (''both'', ''and''),
     (''not only'', ''but also''),
     (''first'', ''then'')]"

definition COMPLEX_STRUCTURE_PATTERNS :: "string list" where
  "COMPLEX_STRUCTURE_PATTERNS =
    [[CHR 0xE5, CHR 0x8D, CHR 0xA0, CHR 0xE6, CHR 0xAF, CHR 0x94],
     [CHR 0xE7, CHR 0x99, CHR 0xBE, CHR 0xE5, CHR 0x88, CHR 0x86, CHR 0xE6, CHR 0xAF, CHR 0x94],
     [CHR 0xE5, CHR 0xA2, CHR 0x9E, CHR 0xE9, CHR 0x95, CHR 0xBF, CHR 0xE7, CHR 0x8E, CHR 0x87],
     [CHR 0xE6, CHR 0x8E, CHR 0x92, CHR 0xE5, CHR 0x90, CHR 0x8D],
     [CHR 0xE5, CHR 0x89, CHR 0x8D, CHR 0x35],
     [CHR 0xE5, CHR 0x89, CHR 0x8D, CHR 0x31, CHR 0x30],
     ''percentage'',
     ''ratio'',
     ''proportion'',
     ''growth rate'',
     ''rank'',
     ''ranking'']"

definition IMPLICIT_COMPLEX_PATTERNS :: "string list" where
  "IMPLICIT_COMPLEX_PATTERNS =
    [[CHR 0xE6, CHR 0x9C, CHR 0x80],
     [CHR 0xE6, CHR 0x9C, CHR 0x80, CHR 0xE9, CHR 0xAB, CHR 0x98],
     [CHR 0xE6, CHR 0x9C, CHR 0x80, CHR 0xE4, CHR 0xBD, CHR 0x8E],
     [CHR 0xE6, CHR 0x9C, CHR 0x80, CHR 0xE5, CHR 0xA4, CHR 0xA7],
     [CHR 0xE6, CHR 0x9C, CHR 0x80, CHR 0xE5, CHR 0xB0, CHR 0x8F],
     [CHR 0xE6, CHR 0xB2, CHR 0xA1, CHR 0xE6, CHR 0x9C, CHR 0x89],
     [CHR 0xE4, CHR 0xBB, CHR 0x8E, CHR 0xE6, CHR 0x9C, CHR 0xAA],
     [CHR 0xE6, CHR 0xB2, CHR 0xA1, CHR 0xE4, CHR 0xB9, CHR 0xB0, CHR 0xE8, CHR 0xBF, CHR 0x87],
     [CHR 0xE6, CHR 0xAF, CHR 0x94],
     [CHR 0xE5, CHR 0xAF, CHR 0xB9, CHR 0xE6, CHR 0xAF, CHR 0x94],
     [CHR 0xE6, CHR 0xAF, CHR 0x94, CHR 0xE8, CHR 0xBE, CHR 0x83],
     [CHR 0xE7, CHR 0x9B, CHR 0xB8, CHR 0xE6, CHR 0xAF, CHR 0x94],
     [CHR 0xE6, CHR 0xAF, CHR 0x8F, CHR 0xE4, CHR 0xB8, CHR 0xAA],
     [CHR 0xE6, CHR 0xAF, CHR 0x8F, CHR 0xE7, CHR 0xA7, CHR 0x8D],
     [CHR 0xE5, CHR 0x90, CHR 0x84, CHR 0xE7, CHR 0xB1, CHR 0xBB],
     [CHR 0xE5, CHR 0x90, CHR 0x84, CHR 0xE4, CHR 0xB8, CHR 0xAA],
     ''highest'',
     ''lowest'',
     ''maximum'',
     ''minimum'',
     ''most expensive'',
     ''least expensive'',
     ''never'',
     ''no '',
     '' versus '',
     ''compared to'',
     ''difference between'',
     '' than '',
     ''per '',
     ''does not have'',
     ''does not contain'',
     ''does not include'',
     ''without '',
     ''excluding '',
     ''same '',
     ''for each '',
     ''respective'',
     ''which of the'',
     ''oldest'',
     ''youngest'',
     ''most recent'',
     ''earliest'',
     ''latest'',
     ''who have '',
     ''that have '',
     ''which have '',
     ''two or more '',
     ''three or more '',
     ''decrease rate'',
     ''completion rate'']"

subsection \<open>Quoted entities and category words\<close>

definition rx_book_marks :: rx where
  "rx_book_marks = rseq [ralt [rlit [CHR 0xE3, CHR 0x80, CHR 0x8A], rlit [CHR 0xE3, CHR 0x80, CHR 0x8C], rlit [CHR 0xE3, CHR 0x80, CHR 0x8E]], RGrp 1 (rlazy_plus rdot), ralt [rlit [CHR 0xE3, CHR 0x80, CHR 0x8B], rlit [CHR 0xE3, CHR 0x80, CHR 0x8D], rlit [CHR 0xE3, CHR 0x80, CHR 0x8F]]]"

definition rx_quoted_by :: "string \<Rightarrow> rx" where
  "rx_quoted_by q = rseq [rlit q, RGrp 1 (rplus (rnone_of q)), rlit q]"

definition count_entities :: "string \<Rightarrow> nat" where
  "count_entities question =
     length (re_finditer rx_book_marks question)
     + length (re_finditer (rx_quoted_by [CHR 0x22]) question)
     + length (re_finditer (rx_quoted_by [CHR 0x27]) question)"

text \<open>\<open>[A-Za-z\<dots>]\<close> with the CJK ideographs U+4E00 to U+9FFF, in UTF-8\<close>

definition rbetween :: "nat \<Rightarrow> nat \<Rightarrow> rx" where
  "rbetween lo hi = RCls (\<lambda>c. lo \<le> ord_of c \<and> ord_of c \<le> hi)"

definition rx_letter :: rx where
  "rx_letter = ralt [RCls (\<lambda>c. is_upper_char c \<or> is_lower_char c),
     rseq [rbetween 0xE4 0xE4, rbetween 0xB8 0xBF, rbetween 0x80 0xBF],
     rseq [rbetween 0xE5 0xE9, rbetween 0x80 0xBF, rbetween 0x80 0xBF]]"

definition rx_cn_hint :: rx where
  "rx_cn_hint = rseq [rx_letter, rx_letter, rstar rx_letter, ralt [rlit [CHR 0xE5, CHR 0x93, CHR 0x81, CHR 0xE7, CHR 0xB1, CHR 0xBB], rlit [CHR 0xE7, CHR 0xB1, CHR 0xBB, CHR 0xE5, CHR 0x88, CHR 0xAB], rlit [CHR 0xE5, CHR 0x88, CHR 0x86, CHR 0xE7, CHR 0xB1, CHR 0xBB], rlit [CHR 0xE5, CHR 0x95, CHR 0x86, CHR 0xE5, CHR 0x93, CHR 0x81], rlit [CHR 0xE4, CHR 0xBA, CHR 0xA7, CHR 0xE5, CHR 0x93, CHR 0x81]]]"

definition rx_en_hint :: rx where
  "rx_en_hint = rseq [rwordb,
     ralt [rlit ''category'', rlit ''categories'', rlit ''type'', rlit ''types'', rlit ''class'',
           rlit ''classes'', rlit ''group'', rlit ''groups'', rlit ''brand'', rlit ''product''],
     rwordb]"

definition rx_top_n :: rx where
  "rx_top_n = rseq [rwordb, rlit ''top'', rplus rws, rplus rd, rwordb]"

definition rx_at_least :: rx where
  "rx_at_least = rseq [rwordb, rlit ''at'', rplus rws, rlit ''least'', rplus rws, rplus rd, rwordb]"

definition rx_compound :: rx where
  "rx_compound = rseq [rwordb, ralt [rlit ''total average'', rlit ''average total''], rwordb]"

definition re_found :: "rx \<Rightarrow> string \<Rightarrow> bool" where
  "re_found r s \<longleftrightarrow> re_search r s \<noteq> None"

subsection \<open>The score\<close>

text \<open>A signal is a weight and the text that is logged for it.\<close>

type_synonym signal = "nat \<times> string"

definition first_pattern :: "string \<Rightarrow> nat \<Rightarrow> string list \<Rightarrow> string \<Rightarrow> signal list" where
  "first_pattern tag w pats q =
     (case find (\<lambda>pat. str_in pat q) pats of None \<Rightarrow> [] | Some pat \<Rightarrow> [(w, tag @ pat)])"

definition token_signal :: "nat \<Rightarrow> signal list" where
  "token_signal n =
     (if TOKEN_THRESHOLD_HIGH < n then [(2, ''tokens>35'')]
      else if TOKEN_THRESHOLD < n then [(1, ''tokens>25'')] else [])"

definition pair_signal :: "string \<Rightarrow> signal list" where
  "pair_signal q =
     (case find (\<lambda>(a, b). str_in a q \<and> str_in b q) MULTI_INTENT_PAIRS of
        None \<Rightarrow> []
      | Some (a, b) \<Rightarrow> [(2, ''multi_intent_pair:'' @ a @ ''+'' @ b)])"

definition structure_signal :: "string \<Rightarrow> signal list" where
  "structure_signal q =
     (let s = first_pattern ''structure:'' 1 COMPLEX_STRUCTURE_PATTERNS q
      in if s \<noteq> [] then s
         else if re_found rx_top_n q then [(1, ''structure:topN'')]
         else if re_found rx_at_least q then [(1, ''structure:at_leastN'')]
         else [])"

definition flag_signal :: "bool \<Rightarrow> string \<Rightarrow> signal list" where
  "flag_signal b tag = (if b then [(1, tag)] else [])"

definition explicit_signals :: "(string \<Rightarrow> nat) \<Rightarrow> string \<Rightarrow> signal list" where
  "explicit_signals ntok question =
     (let q = lower question
      in token_signal (ntok question)
         @ first_pattern ''multi_intent:'' 2 MULTI_INTENT_PATTERNS q
         @ pair_signal q
         @ structure_signal q
         @ flag_signal (2 \<le> count_entities question) ''entities>=2''
         @ flag_signal (2 \<le> length (re_finditer rx_cn_hint question) + length (re_finditer rx_en_hint q))
             ''entity_hints>=2''
         @ flag_signal (2 \<le> length (filter ((=) CHR ''?'') question)) ''multi_step:multi_q''
         @ flag_signal (re_found rx_compound q) ''multi_step:compound_agg'')"

definition score_of :: "signal list \<Rightarrow> nat" where
  "score_of ss = sum_list (map fst ss)"

text \<open>The implicit patterns are looked at only below a score of two.\<close>

definition all_signals :: "(string \<Rightarrow> nat) \<Rightarrow> string \<Rightarrow> signal list" where
  "all_signals ntok question =
     (let ss = explicit_signals ntok question
      in if score_of ss < 2
         then ss @ first_pattern ''implicit:'' 1 IMPLICIT_COMPLEX_PATTERNS (lower question)
         else ss)"

definition heuristic_score :: "(string \<Rightarrow> nat) \<Rightarrow> string \<Rightarrow> nat \<times> string" where
  "heuristic_score ntok question =
     (let ss = all_signals ntok question
      in (score_of ss, if ss \<noteq> [] then join '','' (map snd ss) else ''none''))"

subsection \<open>The borderline gate\<close>

definition reply_punctuation :: "string list" where
  "reply_punctuation =
    [''.'',
     '','',
     '';'',
     '':'',
     ''!'',
     ''?'',
     [CHR 0xE3, CHR 0x80, CHR 0x82],
     [CHR 0xEF, CHR 0xBC, CHR 0x8C],
     [CHR 0xEF, CHR 0xBC, CHR 0x9B],
     [CHR 0xEF, CHR 0xBC, CHR 0x9A],
     [CHR 0xEF, CHR 0xBC, CHR 0x81],
     [CHR 0xEF, CHR 0xBC, CHR 0x9F]]"

text \<open>\<open>s.rstrip(".,;:!?\<dots>")\<close> with the punctuation marks as byte sequences\<close>

function rstrip_marks :: "string \<Rightarrow> string" where
  "rstrip_marks s =
     (case find (\<lambda>m. suffix m s) reply_punctuation of
        None \<Rightarrow> s
      | Some m \<Rightarrow> if s = [] then s else rstrip_marks (take (length s - length m) s))"
  by pat_completeness auto
termination
proof (relation "measure length", simp)
  fix s m :: string
  assume f: "find (\<lambda>m. suffix m s) reply_punctuation = Some m" and s: "s \<noteq> []"
  have "list_all (\<lambda>m. m \<noteq> []) reply_punctuation" by (simp add: reply_punctuation_def)
  moreover have "m \<in> set reply_punctuation" using f by (auto simp: find_Some_iff in_set_conv_nth)
  ultimately have "m \<noteq> []" by (auto simp: list_all_iff)
  then show "(take (length s - length m) s, s) \<in> measure length" using s by (cases s; cases m) auto
qed

declare rstrip_marks.simps [simp del]

text \<open>\<open>re.split(r"\s+", raw)[0]\<close> of a stripped reply\<close>

definition first_word :: "string \<Rightarrow> string" where
  "first_word raw = lower (rstrip_marks (takeWhile (\<lambda>c. \<not> is_space_char c) raw))"

definition classify_reply :: "string \<Rightarrow> string" where
  "classify_reply raw = (if first_word raw = ''simple'' then ''simple'' else ''complex'')"

definition classifier_question :: "string \<Rightarrow> string" where
  "classifier_question question = ''Question: '' @ question @ nl @ nl @ ''Classification:''"

definition llm_classify :: "llm \<Rightarrow> string \<Rightarrow> (string \<times> string \<times> usage) py" where
  "llm_classify chat question =
     py_bind (llm_invoke chat ROUTER_CLASSIFIER_PROMPT (classifier_question question) 0) (\<lambda>response.
       let raw = strip (lr_content response)
       in Inr (classify_reply raw, raw, extract_token_usage (lr_usage response)))"

subsection \<open>router_node\<close>

record route =
  rt_complexity :: string
  rt_method :: string
  rt_raw :: string
  rt_usage :: usage
  rt_error :: "py_exc option"

definition choose_route :: "llm \<Rightarrow> string \<Rightarrow> nat \<Rightarrow> route" where
  "choose_route chat q score =
     (if 2 \<le> score then
        \<lparr>rt_complexity = ''complex'', rt_method = ''heuristic'', rt_raw = [], rt_usage = [], rt_error = None\<rparr>
      else if score = 1 then
        (case llm_classify chat q of
           Inr (complexity, raw, tu) \<Rightarrow>
             \<lparr>rt_complexity = complexity, rt_method = ''llm_borderline'', rt_raw = raw, rt_usage = tu,
              rt_error = None\<rparr>
         | Inl e \<Rightarrow>
             \<lparr>rt_complexity = ''complex'', rt_method = ''llm_borderline_error'', rt_raw = [],
              rt_usage = [], rt_error = Some e\<rparr>)
      else
        \<lparr>rt_complexity = ''simple'', rt_method = ''heuristic'', rt_raw = [], rt_usage = [], rt_error = None\<rparr>)"

text \<open>What the gate logs: an error if there was one, and then, in both cases, a call.\<close>

definition log_route :: "config \<Rightarrow> clock \<Rightarrow> nat \<Rightarrow> route \<Rightarrow> tracer \<Rightarrow> tracer" where
  "log_route cfg t score r tr =
     (if score = 1 then
        let tr1 = (case rt_error r of
                     None \<Rightarrow> tr
                   | Some e \<Rightarrow> llm_error (t 4) (cfg_llm_model cfg) (exc_type e) (take 300 (exc_msg e)) 0 ''router'' tr)
        in llm_call (t 5) (cfg_llm_model cfg) (usage_dict (rt_usage r))
             (if rt_error r = None then since t 2 3 else 0) ''router'' tr1
      else tr)"

text \<open>\<open>fresh\<close> is the identifier a new logger would draw.\<close>

definition router_node ::
  "config \<Rightarrow> (string \<Rightarrow> nat) \<Rightarrow> llm \<Rightarrow> string \<Rightarrow> clock \<Rightarrow> agent_state \<Rightarrow> node_out" where
  "router_node cfg ntok chat fresh t s =
     (let q = s_question s;
          tr0 = (case s_tlog s of Some tr \<Rightarrow> tr | None \<Rightarrow> tracer_init None fresh);
          tr1 = node_enter (t 1) ''router'' [(''question'', PStr (take 60 q))] tr0;
          (score, score_detail) = heuristic_score ntok q;
          r = choose_route chat q score;
          token_usage = (if score = 1 then add_usage (or_default zero_usage (s_token_usage s)) (rt_usage r)
                         else or_default zero_usage (s_token_usage s));
          tr2 = log_route cfg t score r tr1;
          tr3 = router_decision (t 6) (rt_complexity r) (int score) (rt_method r) tr2;
          tr4 = node_exit (t 7) ''router''
                  [(''complexity'', PStr (rt_complexity r)), (''score'', PInt (int score)),
                   (''method'', PStr (rt_method r))] ''success'' tr3;
          s1 = s\<lparr>s_tlog := Some tr4\<rparr>
      in Inr ((set_latency ''router'' (since t 0 8) s1)
           \<lparr>s_complexity := Some (rt_complexity r),
            s_router_score := Some (int score),
            s_router_score_detail := Some score_detail,
            s_router_method := Some (rt_method r),
            s_trace_id := Some (trace_id tr4),
            s_token_usage := Some token_usage,
            s_router_llm_raw := (if rt_method r = ''llm_borderline'' then Some (rt_raw r)
                                 else s_router_llm_raw s)\<rparr>))"

subsection \<open>Properties\<close>

lemma score_first_pattern: "score_of (first_pattern tag w pats q) \<le> w"
  by (simp add: first_pattern_def score_of_def split: option.split)

lemma score_append [simp]: "score_of (a @ b) = score_of a + score_of b"
  by (simp add: score_of_def)

lemma score_signals:
  "score_of (token_signal n) \<le> 2"
  "score_of (pair_signal q) \<le> 2"
  "score_of (structure_signal q) \<le> 1"
  "score_of (flag_signal b tag) \<le> 1"
  using score_first_pattern [of "''structure:''" 1 COMPLEX_STRUCTURE_PATTERNS q]
  by (auto simp: token_signal_def pair_signal_def structure_signal_def flag_signal_def score_of_def
      first_pattern_def Let_def split: option.splits)

lemma explicit_score: "score_of (explicit_signals ntok q) \<le> 11"
  unfolding explicit_signals_def Let_def score_append
  using score_signals(1) [of "ntok q"] score_signals(2,3) [of "lower q"]
    score_first_pattern [of "''multi_intent:''" 2 MULTI_INTENT_PATTERNS "lower q"]
    score_signals(4) [of "2 \<le> count_entities q" "''entities>=2''"]
    score_signals(4) [of "2 \<le> length (re_finditer rx_cn_hint q) + length (re_finditer rx_en_hint (lower q))"
      "''entity_hints>=2''"]
    score_signals(4) [of "2 \<le> length (filter ((=) CHR ''?'') q)" "''multi_step:multi_q''"]
    score_signals(4) [of "re_found rx_compound (lower q)" "''multi_step:compound_agg''"]
  by linarith

text \<open>The score is at most 11; the implicit patterns only ever lift a question to a borderline
  score or from borderline to complex, never above two, and they change no score that is
  already two or more.\<close>

theorem heuristic_score_bounds:
  "fst (heuristic_score ntok q) \<le> 11 \<and>
   score_of (explicit_signals ntok q) \<le> fst (heuristic_score ntok q) \<and>
   fst (heuristic_score ntok q) \<le> max 2 (score_of (explicit_signals ntok q))"
proof -
  have "score_of (all_signals ntok q) \<le> max 2 (score_of (explicit_signals ntok q))"
    using score_first_pattern [of "''implicit:''" 1 IMPLICIT_COMPLEX_PATTERNS "lower q"]
    by (auto simp: all_signals_def Let_def)
  then show ?thesis
    using explicit_score [of ntok q] by (auto simp: heuristic_score_def all_signals_def Let_def)
qed

text \<open>Routing never raises. A score of two or more is complex and zero is simple without a
  model call; a borderline question is simple only if the model's first word says so, and an
  unexpected reply or a failing model makes it complex.\<close>

theorem router_decides:
  "node_ok (\<lambda>s'. s_router_score s' = Some (int (fst (heuristic_score ntok (s_question s)))) \<and>
      s_complexity s' = Some (
        if 2 \<le> fst (heuristic_score ntok (s_question s)) then ''complex''
        else if fst (heuristic_score ntok (s_question s)) = 0 then ''simple''
        else (case llm_invoke chat ROUTER_CLASSIFIER_PROMPT (classifier_question (s_question s)) 0 of
                Inl e \<Rightarrow> ''complex''
              | Inr response \<Rightarrow>
                  if first_word (strip (lr_content response)) = ''simple'' then ''simple'' else ''complex'')))
    (router_node cfg ntok chat fresh t s)"
  by (auto simp: router_node_def Let_def node_ok_def choose_route_def llm_classify_def classify_reply_def
      case_prod_unfold set_latency_def py_bind_def split: sum.split)

text \<open>The token totals the log reports for its model calls\<close>

definition logged_tokens :: "tracer \<Rightarrow> pyv list" where
  "logged_tokens tr =
     map (\<lambda>e. d_get_or e ''total_tokens'' PNone) (filter (\<lambda>e. event_name e = PStr ''llm_call'') (events tr))"

lemma event_name_update:
  "d_get d ''event'' = None \<Longrightarrow> distinct (map fst d) \<Longrightarrow> event_name (d_update [(''ts'', a), (''trace_id'', b), (''event'', c)] d) = c"
  unfolding event_name_def d_get_or_def d_get_def [symmetric] by (simp add: d_get_update_distinct) (simp add: d_get_def)

lemma logged_tokens_emit:
  "d_get data ''event'' = None \<Longrightarrow> distinct (map fst data) \<Longrightarrow>
     logged_tokens (emit ts ev data tr) =
     logged_tokens tr @ (if ev = ''llm_call'' then
        [d_get_or (d_update [(''ts'', PStr ts), (''trace_id'', PStr (trace_id tr)), (''event'', PStr ev)] data)
           ''total_tokens'' PNone] else [])"
  by (simp add: logged_tokens_def emit_def Let_def event_name_update)

lemma logged_tokens_start [simp]:
  "logged_tokens (tr\<lparr>start_times := x\<rparr>) = logged_tokens tr"
  "logged_tokens (snd (pop_start now n tr)) = logged_tokens tr"
  by (simp_all add: logged_tokens_def pop_start_def Let_def split: option.split)

lemma logged_tokens_ops:
  "logged_tokens (node_enter now ''router'' [(''question'', q)] tr) = logged_tokens tr"
  "logged_tokens (node_exit now ''router'' [(''complexity'', a), (''score'', b), (''method'', c)] st tr) = logged_tokens tr"
  "logged_tokens (router_decision now cx sc m tr) = logged_tokens tr"
  "logged_tokens (llm_error now m e msg dur ''router'' tr) = logged_tokens tr"
  by (simp_all add: node_enter_def node_enter_v_def node_exit_def node_exit_v_def add_versions_def
      router_decision_def llm_error_def with_node_def Let_def case_prod_unfold logged_tokens_emit
      d_update_def d_set_def d_get_def)

lemma logged_tokens_call:
  "logged_tokens (llm_call now m u dur ''router'' tr) = logged_tokens tr @ [d_get_or u ''total_tokens'' (PInt 0)]"
  by (simp add: llm_call_def with_node_def Let_def logged_tokens_emit d_update_def d_set_def d_get_def)
    (simp add: d_get_or_def)

lemma route_usage: "d_get_or (usage_dict (rt_usage (choose_route chat q n))) ''total_tokens'' (PInt 0) = PInt 0"
  by (auto simp: choose_route_def llm_classify_def py_bind_def usage_dict_def extract_token_usage_def d_get_or_def
      Let_def split: sum.split)

text \<open>The log counts no tokens for the router: whatever the model reports, a borderline question
  logs exactly one model call with zero tokens (the usage is passed under the pipeline's keys,
  not the logger's), and it does so even when the call failed.\<close>

theorem router_logs_zero_tokens:
  "node_ok (\<lambda>s'. map_option logged_tokens (s_tlog s') =
      Some ((case s_tlog s of Some tr \<Rightarrow> logged_tokens tr | None \<Rightarrow> [])
        @ (if fst (heuristic_score ntok (s_question s)) = 1 then [PInt 0] else [])))
    (router_node cfg ntok chat fresh t s)"
proof -
  have "logged_tokens (tracer_init None fresh) = []" by (simp add: logged_tokens_def tracer_init_def)
  then show ?thesis
    by (simp add: router_node_def Let_def node_ok_def case_prod_unfold set_latency_def logged_tokens_ops
        log_route_def logged_tokens_call route_usage split: option.split)
qed

end
