(* ===== verification/Decomposer.thy ===== *)
theory Decomposer
  imports Generator Json
begin

text \<open>
  \<open>agent/nodes/decomposer.py\<close>: the model splits a complex question into steps, which the
  generator writes into its prompt.
\<close>

subsection \<open>JSON in a reply\<close>

text \<open>\<open>```(?:json)?\s*(.*?)```\<close> and \<open>\{.*\}\<close>, dot matching everything\<close>

definition rx_json_block :: rx where
  "rx_json_block = rseq [rlit ticks, ropt (rlit ''json''), rstar rws, RGrp 1 (rlazy rany), rlit ticks]"

definition rx_braces :: rx where
  "rx_braces = rseq [rlit ''{'', rstar rany, rlit ''}'']"

definition decomposer_json :: "string \<Rightarrow> pyv py" where
  "decomposer_json response =
     (case re_search rx_json_block response of
        Some m \<Rightarrow> json_loads (m_group 1 m)
      | None \<Rightarrow>
          (case re_search rx_braces response of
             Some m \<Rightarrow> json_loads (m_text m)
           | None \<Rightarrow> Inr (PDict [])))"

text \<open>\<open>parsed.get("steps", [])\<close>\<close>

definition steps_of :: "pyv \<Rightarrow> pyv py" where
  "steps_of parsed =
     (case parsed of
        PDict d \<Rightarrow> Inr (d_get_or d ''steps'' (PList []))
      | _ \<Rightarrow> Inl (no_attribute parsed ''get''))"

subsection \<open>decomposer_node\<close>

definition decomposer_message :: "agent_state \<Rightarrow> string" where
  "decomposer_message s =
     join (nl @ nl)
       ([section_of ''SCHEMA'' (or_default [] (s_schema_text s))]
        @ opt_section ''RETRIEVED NOTES'' (or_default [] (s_notes_text s))
        @ [section_of ''COMPLEX QUESTION'' (s_question s)])"

definition decompose :: "llm \<Rightarrow> agent_state \<Rightarrow> (pyv \<times> usage) py" where
  "decompose chat s =
     py_bind (llm_invoke chat DECOMPOSER_SYSTEM_PROMPT (decomposer_message s) 0) (\<lambda>response.
     py_bind (decomposer_json (lr_content response)) (\<lambda>parsed.
     py_bind (steps_of parsed) (\<lambda>steps.
       Inr (steps, extract_token_usage (lr_usage response)))))"

text \<open>A single step means the model saw nothing to decompose. \<open>len(steps)\<close> is outside the guarded
  block: a value without a length raises after the node was entered in the log.\<close>

definition decomposer_node :: "config \<Rightarrow> llm \<Rightarrow> clock \<Rightarrow> agent_state \<Rightarrow> node_out" where
  "decomposer_node cfg chat t s =
     (let s1 = tlog_do (node_enter (t 1) ''decomposer'' [(''question'', PStr (take 80 (s_question s)))]) s
      in case decompose chat s of
           Inl e \<Rightarrow>
             Inl (e, map_option (\<lambda>tr.
               node_exit (t 4) ''decomposer'' [(''step_count'', PInt 0), (''error'', PStr (take 120 (exc_msg e)))] ''error''
                 (llm_error (t 3) (cfg_llm_model cfg) (exc_type e) (take 300 (exc_msg e)) 0 ''decomposer'' tr))
               (s_tlog s1))
         | Inr (steps, tu) \<Rightarrow>
             try_in s1 (py_iter steps) (\<lambda>items.
               let items = (if length items = 1 then [] else items);
                   s2 = tlog_do (\<lambda>tr.
                          node_exit (t 4) ''decomposer'' [(''step_count'', PInt (int (length items)))] ''success''
                            (llm_call (t 3) (cfg_llm_model cfg) (usage_dict tu) (since t 0 2) ''decomposer'' tr)) s1
               in Inr ((set_latency ''decomposer'' (since t 0 5) s2)
                    \<lparr>s_sub_questions := Some items,
                     s_token_usage := Some (add_usage (or_default zero_usage (s_token_usage s)) tu)\<rparr>)))"

subsection \<open>Properties\<close>

text \<open>A step the generator can print\<close>

definition printable_step :: "pyv \<Rightarrow> bool" where
  "printable_step v = (case v of PDict d \<Rightarrow> d_get d ''id'' \<noteq> None \<and> d_get d ''sub_q'' \<noteq> None | _ \<Rightarrow> False)"

lemma format_sub_question_ok: "(\<exists>t. format_sub_question v = Inr t) \<longleftrightarrow> printable_step v"
  by (cases v) (auto simp: format_sub_question_def printable_step_def format_step_def Let_def split: option.splits)

lemma py_map_total: "(\<exists>ys. py_map f xs = Inr ys) \<longleftrightarrow> list_all (\<lambda>x. \<exists>y. f x = Inr y) xs"
  by (induction xs) (auto simp: py_bind_Inr_iff)

lemma sub_section_ok: "(\<exists>t. sub_section vs = Inr t) \<longleftrightarrow> list_all printable_step vs"
  using py_map_total [of format_sub_question vs]
  by (auto simp: sub_section_def format_sub_questions_def py_bind_Inr_iff format_sub_question_ok)

text \<open>The decomposer never leaves a single step: it stores either no steps or at least two, adds
  the reply's usage, and changes neither query nor schema; but it does not check the steps, and
  the generator's prompt can be built exactly when each of them is an object with \<open>id\<close> and
  \<open>sub_q\<close>.\<close>

theorem decomposer_steps:
  assumes "decomposer_node cfg chat t s = Inr s'"
  shows "length (or_default [] (s_sub_questions s')) \<noteq> 1 \<and>
    s_sql s' = s_sql s \<and> s_schema_text s' = s_schema_text s \<and>
    ((\<exists>parts. user_parts (gen_request_of s') = Inr parts)
      \<longleftrightarrow> list_all printable_step (or_default [] (s_sub_questions s')))"
proof -
  obtain steps tu items where d: "decompose chat s = Inr (steps, tu)" and i: "py_iter steps = Inr items"
    and s': "s_sub_questions s' = Some (if length items = 1 then [] else items)"
      "s_sql s' = s_sql s" "s_schema_text s' = s_schema_text s"
    using assms
    by (cases "decompose chat s")
      (auto simp: decomposer_node_def Let_def try_in_Inr_iff set_latency_def tlog_do_def)
  moreover have "(\<exists>parts. user_parts (gen_request_of s') = Inr parts)
      \<longleftrightarrow> (\<exists>t. sub_section (or_default [] (s_sub_questions s')) = Inr t)"
    by (auto simp: user_parts_def gen_request_of_def py_bind_Inr_iff)
  ultimately show ?thesis by (simp add: sub_section_ok)
qed

definition steps_reply :: string where
  "steps_reply = ''{'' @ [CHR 0x22] @ ''steps'' @ [CHR 0x22] @ '':[1,2]}''"

definition steps_llm :: llm where
  "steps_llm = \<lparr>llm_invoke = (\<lambda>sys user temp. Inr \<lparr>lr_content = steps_reply, lr_usage = []\<rparr>),
     llm_stream = (\<lambda>sys user temp. Inr [])\<rparr>"

theorem decomposer_steps_witness:
  "\<exists>s'. decomposer_node demo_cfg steps_llm (\<lambda>i. \<lparr>r_ms = int i, r_ts = []\<rparr>) (init_state ''Why?'') = Inr s' \<and>
     \<not> (\<exists>parts. user_parts (gen_request_of s') = Inr parts)"
proof -
  have "node_ok (\<lambda>s'. \<not> list_all printable_step (or_default [] (s_sub_questions s')))
      (decomposer_node demo_cfg steps_llm (\<lambda>i. \<lparr>r_ms = int i, r_ts = []\<rparr>) (init_state ''Why?''))"
    by code_simp
  then obtain s' where s': "decomposer_node demo_cfg steps_llm (\<lambda>i. \<lparr>r_ms = int i, r_ts = []\<rparr>) (init_state ''Why?'') = Inr s'"
    and n: "\<not> list_all printable_step (or_default [] (s_sub_questions s'))"
    by (auto simp: node_ok_iff)
  show ?thesis using decomposer_steps [OF s'] s' n by blast
qed

end
