(* ===== verification/Fewshot.thy ===== *)
theory Fewshot
  imports AgentState
begin

text \<open>
  \<open>retrieval/fewshot_retrieve.py\<close> (reading side and corpus parser) and
  \<open>agent/nodes/fewshot_selector.py\<close>: similar questions with their queries for the prompt. The
  vector collection is a parameter: its size and its answers (metadata of the rows, best first).
\<close>

subsection \<open>The collection\<close>

record fs_collection =
  fs_count :: nat
  fs_query :: "string \<Rightarrow> (string \<times> string) option \<Rightarrow> nat \<Rightarrow> pydict list py"

record fs_item =
  fi_question :: string
  fi_sql :: string
  fi_source :: string

definition fs_item_of :: "pydict \<Rightarrow> fs_item" where
  "fs_item_of meta =
     \<lparr>fi_question = py_str (d_get_or meta ''question'' (PStr [])),
      fi_sql = py_str (d_get_or meta ''sql'' (PStr [])),
      fi_source = py_str (d_get_or meta ''source_path'' (PStr []))\<rparr>"

definition retrieve_fewshot :: "fs_collection \<Rightarrow> string \<Rightarrow> nat \<Rightarrow> fs_item list py" where
  "retrieve_fewshot col question k =
     (if fs_count col = 0 then Inr []
      else py_bind (fs_query col question None (min k (fs_count col))) (\<lambda>rows. Inr (map fs_item_of rows)))"

definition retrieve_fewshot_for_db :: "fs_collection \<Rightarrow> string \<Rightarrow> string \<Rightarrow> nat \<Rightarrow> fs_item list py" where
  "retrieve_fewshot_for_db col question db_id k =
     (if fs_count col = 0 then Inr []
      else py_bind (fs_query col question (Some (''db_id'', db_id)) (min k (fs_count col)))
             (\<lambda>rows. Inr (map fs_item_of rows)))"

definition format_fewshot :: "fs_item list \<Rightarrow> string" where
  "format_fewshot items =
     join (nl @ nl) (map (\<lambda>(i, item). ''Example '' @ show_nat (i + 1) @ '':'' @ nl @ ''Q: '' @ fi_question item
        @ nl @ ''SQL: '' @ fi_sql item) (enumerate 0 items))"

subsection \<open>The corpus files\<close>

text \<open>\<open>###\s*Q\s*\n(.+?)(?:\n###|\Z)\<close> and \<open>###\s*SQL\s*\n(.+)\<close>, dot matching everything, without
  regard to case\<close>

definition rx_corpus_q :: rx where
  "rx_corpus_q = rseq [rlit ''###'', rstar rws, rlit_ci ''Q'', rstar rws, rlit nl, RGrp 1 (rlazy_plus rany),
     ralt [rlit (nl @ ''###''), reot]]"

definition rx_corpus_sql :: rx where
  "rx_corpus_sql = rseq [rlit ''###'', rstar rws, rlit_ci ''SQL'', rstar rws, rlit nl, RGrp 1 (rplus rany)]"

record corpus_chunk =
  cc_id :: string
  cc_path :: string
  cc_question :: string
  cc_sql :: string

text \<open>A file, given by its name and text; files without both sections are skipped.\<close>

definition corpus_chunk_of :: "string \<Rightarrow> string \<times> string \<Rightarrow> corpus_chunk option" where
  "corpus_chunk_of fewshot_dir f =
     (let (fname, txt) = f
      in if \<not> suffix ''.md'' fname then None
         else (case (re_search rx_corpus_q txt, re_search rx_corpus_sql txt) of
                 (Some q_match, Some sql_match) \<Rightarrow>
                   Some \<lparr>cc_id = ''fewshot_'' @ replace_all ''.md'' [] fname,
                         cc_path = fewshot_dir @ ''/'' @ fname,
                         cc_question = strip (m_group 1 q_match), cc_sql = strip (m_group 1 sql_match)\<rparr>
               | _ \<Rightarrow> None))"

text \<open>\<open>files\<close> is the listing of the directory, if it exists.\<close>

definition load_fewshot_corpus :: "string \<Rightarrow> (string \<times> string) list option \<Rightarrow> corpus_chunk list" where
  "load_fewshot_corpus corpus_dir files =
     (case files of
        None \<Rightarrow> []
      | Some fs \<Rightarrow> List.map_filter (corpus_chunk_of (corpus_dir @ ''/fewshot'')) (sort_key fst fs))"

definition markdown_of :: "string \<Rightarrow> string \<Rightarrow> string" where
  "markdown_of question sql = ''### Q'' @ nl @ question @ nl @ nl @ ''### SQL'' @ nl @ sql @ nl"

definition pad2 :: "nat \<Rightarrow> string" where
  "pad2 n = (if n < 10 then ''0'' @ show_nat n else show_nat n)"

text \<open>The files \<open>export_fewshot_to_markdown\<close> writes\<close>

definition export_fewshot_to_markdown :: "fs_item list \<Rightarrow> (string \<times> string) list" where
  "export_fewshot_to_markdown items =
     map (\<lambda>(i, item). (pad2 (i + 1) @ ''.md'', markdown_of (fi_question item) (fi_sql item))) (enumerate 0 items)"

subsection \<open>fewshot_selector_node\<close>

definition py_or :: "'a list \<Rightarrow> 'a list py \<Rightarrow> 'a list py" where
  "py_or items alt = (if items \<noteq> [] then Inr items else alt)"

definition select_examples :: "fs_collection \<Rightarrow> agent_state \<Rightarrow> nat \<Rightarrow> fs_item list py" where
  "select_examples col s k =
     (let question = s_question s;
          db_id = or_default [] (s_db_id s);
          dialect_items = (case db_url s of
              None \<Rightarrow> Inr []
            | Some url \<Rightarrow>
                let dialect = get_dialect_from_url url
                in if dialect \<noteq> [] \<and> dialect \<noteq> ''sqlite'' then retrieve_fewshot_for_db col question dialect k
                   else Inr [])
      in py_bind (if db_id \<noteq> [] then retrieve_fewshot_for_db col question db_id k else Inr []) (\<lambda>items.
         py_bind (py_or items dialect_items) (\<lambda>items.
         py_or items (retrieve_fewshot col question k))))"

definition shots :: "agent_state \<Rightarrow> nat" where
  "shots s = (if or_default ''simple'' (s_complexity s) = ''simple'' then 1 else 3)"

definition fewshot_selector_node :: "fs_collection \<Rightarrow> clock \<Rightarrow> agent_state \<Rightarrow> node_out" where
  "fewshot_selector_node col t s =
     (let enabled = or_default False (s_fewshot_enabled s);
          k = shots s;
          s1 = tlog_do (node_enter (t 1) ''fewshot_selector''
                 [(''enabled'', PBool enabled), (''db_id'', PStr (or_default [] (s_db_id s))), (''k'', PInt (int k))]) s
      in if \<not> enabled then
           Inr ((tlog_do (node_exit (t 2) ''fewshot_selector''
                  [(''example_count'', PInt 0), (''skipped'', PBool True)] ''success'') s1)
                \<lparr>s_fewshot_text := Some []\<rparr>)
         else
           try_in s1 (select_examples col s k) (\<lambda>items.
             let hits = map fi_source items;
                 s2 = tlog_do (node_exit (t 2) ''fewshot_selector''
                        [(''example_count'', PInt (int (length items))), (''hits'', PList (map PStr hits))] ''success'') s1
             in Inr ((set_latency ''fewshot_selector'' (since t 0 3) s2)
                  \<lparr>s_fewshot_text := Some (format_fewshot items), s_fewshot_hits := Some hits\<rparr>)))"

subsection \<open>Properties\<close>

lemma retrieve_fewshot_bound:
  assumes "\<And>q w k. py_ok (\<lambda>rows. length rows \<le> k) (fs_query col q w k) \<or> (\<exists>e. fs_query col q w k = Inl e)"
  shows "retrieve_fewshot col q k = Inr items \<Longrightarrow> length items \<le> k"
    and "retrieve_fewshot_for_db col q d k = Inr items \<Longrightarrow> length items \<le> k"
  using assms [of "min k (fs_count col)" q None] assms [of "min k (fs_count col)" q "Some (''db_id'', d)"]
  by (auto simp: retrieve_fewshot_def retrieve_fewshot_for_db_def py_bind_Inr_iff py_ok_def split: if_splits sum.splits)

text \<open>With a collection that returns at most the rows it is asked for, the selector adds at most
  one example to a simple question and three to a complex one, as many sources as examples, and
  none, whatever the collection holds, when few-shot is off.\<close>

theorem fewshot_bound:
  assumes rows: "\<And>q w k. py_ok (\<lambda>rows. length rows \<le> k) (fs_query col q w k) \<or> (\<exists>e. fs_query col q w k = Inl e)"
    and run: "fewshot_selector_node col t s = Inr s'"
  shows "if s_fewshot_enabled s = Some True
    then (\<exists>items. s_fewshot_text s' = Some (format_fewshot items) \<and> length items \<le> shots s \<and>
           s_fewshot_hits s' = Some (map fi_source items))
    else s_fewshot_text s' = Some [] \<and> s_fewshot_hits s' = s_fewshot_hits s"
proof (cases "or_default False (s_fewshot_enabled s)")
  case True
  then have en: "s_fewshot_enabled s = Some True" by (cases "s_fewshot_enabled s") auto
  obtain items where i: "select_examples col s (shots s) = Inr items"
    and s': "s_fewshot_text s' = Some (format_fewshot items)" "s_fewshot_hits s' = Some (map fi_source items)"
    using run True by (auto simp: fewshot_selector_node_def Let_def try_in_Inr_iff set_latency_def tlog_do_def)
  have "length items \<le> shots s"
    using i retrieve_fewshot_bound [OF rows]
    by (auto simp: select_examples_def Let_def py_bind_Inr_iff py_or_def split: if_splits option.splits)
  then show ?thesis using en s' by auto
next
  case False
  then have "s_fewshot_enabled s \<noteq> Some True" by auto
  then show ?thesis using run False
    by (auto simp: fewshot_selector_node_def Let_def tlog_do_def)
qed

text \<open>A collection with one example, whatever is asked.\<close>

definition one_example :: fs_collection where
  "one_example = \<lparr>fs_count = 1, fs_query = (\<lambda>q w k. Inr (take k
     [[(''question'', PStr ''How many?''), (''sql'', PStr ''SELECT 1''), (''source_path'', PStr ''a.md'')]]))\<rparr>"

theorem fewshot_bound_witness:
  "\<exists>s'. fewshot_selector_node one_example (\<lambda>i. \<lparr>r_ms = int i, r_ts = []\<rparr>)
      ((init_state ''Who?'')\<lparr>s_fewshot_enabled := Some True\<rparr>) = Inr s' \<and> s_fewshot_hits s' = Some [''a.md'']"
proof -
  let ?s = "(init_state ''Who?'')\<lparr>s_fewshot_enabled := Some True\<rparr>"
  let ?t = "\<lambda>i. \<lparr>r_ms = int i, r_ts = []\<rparr>"
  have "node_ok (\<lambda>s'. s_fewshot_hits s' = Some [''a.md'']) (fewshot_selector_node one_example ?t ?s)"
    by code_simp
  then obtain s' where s': "fewshot_selector_node one_example ?t ?s = Inr s'" and h: "s_fewshot_hits s' = Some [''a.md'']"
    by (auto simp: node_ok_iff)
  have "py_ok (\<lambda>rows. length rows \<le> k) (fs_query one_example q w k) \<or> (\<exists>e. fs_query one_example q w k = Inl e)" for q w k
    by (simp add: one_example_def py_ok_def)
  then have "\<exists>items. s_fewshot_text s' = Some (format_fewshot items)"
    using fewshot_bound [OF _ s'] by auto
  then show ?thesis using s' h by blast
qed

end
