(* ===== verification/SchemaRetriever.thy ===== *)
theory SchemaRetriever
  imports Retrieval ColumnPrune
begin

text \<open>
  \<open>agent/nodes/schema_retriever.py\<close>: chooses the schema text, the domain notes and the sample
  rows of the prompt. \<open>lookup\<close> is the cached schema of a URL, \<open>samples\<close> the sample rows of a table
  of a URL, \<open>default_url\<close> is \<open>Config.DATABASE_URL\<close>.
\<close>

record retrieval_env =
  re_query :: store_query
  re_scores :: "string list \<Rightarrow> rat list"
  re_meta :: "bm25_meta list"
  re_lookup :: "string \<Rightarrow> schema_info py"
  re_samples :: "string \<Rightarrow> string \<Rightarrow> string"
  re_default_url :: string

definition schema_of_url :: "retrieval_env \<Rightarrow> string option \<Rightarrow> schema_info py" where
  "schema_of_url env u = (case u of None \<Rightarrow> Inr [] | Some url \<Rightarrow> re_lookup env url)"

text \<open>\<open>database_url or Config.DATABASE_URL\<close>\<close>

definition graph_url :: "retrieval_env \<Rightarrow> string option \<Rightarrow> string" where
  "graph_url env u = (case u of Some url \<Rightarrow> if url = [] then re_default_url env else url | None \<Rightarrow> re_default_url env)"

text \<open>The foreign-key graph, without its cache (\<open>get_graph_transparent\<close>)\<close>

definition fk_graph_of :: "retrieval_env \<Rightarrow> string option \<Rightarrow> fk_graph py" where
  "fk_graph_of env u = py_bind (re_lookup env (graph_url env u)) (\<lambda>info. Inr (build_graph info))"

definition cache_consistent :: "retrieval_env \<Rightarrow> (string \<times> fk_graph) option \<Rightarrow> bool" where
  "cache_consistent env cache =
     (case cache of None \<Rightarrow> True | Some (u, g) \<Rightarrow> py_ok (\<lambda>info. g = build_graph info) (re_lookup env u))"

lemma get_graph_transparent:
  assumes "cache_consistent env cache"
  shows "(case get_graph (re_lookup env) (re_default_url env) u cache of
     Inl e \<Rightarrow> fk_graph_of env u = Inl e
   | Inr (g, cache') \<Rightarrow> fk_graph_of env u = Inr g \<and> cache_consistent env cache')"
  using assms
  by (auto simp: get_graph_def fk_graph_of_def graph_url_def cache_consistent_def py_ok_iff Let_def
      py_bind_def split: option.splits sum.splits)

definition table_catalog :: "retrieval_env \<Rightarrow> string option \<Rightarrow> string py" where
  "table_catalog env u =
     (case u of None \<Rightarrow> Inr [] | Some url \<Rightarrow> py_bind (re_lookup env url) (\<lambda>info. Inr (catalog_text info)))"

definition build_sample_rows :: "retrieval_env \<Rightarrow> string option \<Rightarrow> string list option \<Rightarrow> string py" where
  "build_sample_rows env u tables =
     (case u of
        None \<Rightarrow> Inr []
      | Some url \<Rightarrow>
          py_bind (re_lookup env url) (\<lambda>info.
            let target = filter (\<lambda>p. case tables of None \<Rightarrow> True | Some ts \<Rightarrow> lower (fst p) \<in> set ts) info
            in Inr (join (nl @ nl) (map (\<lambda>p. re_samples env url (actual_name (snd p))) target))))"

subsection \<open>The steps of the node\<close>

definition no_db_id :: py_exc where
  "no_db_id = PyExc ''ValueError'' (''rag_schema/rag_domain requested but no db_id provided '' @ em_dash
     @ '' schema_retriever needs db_id to query bird_minidev'')"

definition fetch_chunks :: "retrieval_env \<Rightarrow> agent_state \<Rightarrow> chunk list py" where
  "fetch_chunks env s =
     (if or_default True (s_rag_schema s) \<or> or_default True (s_rag_domain s) then
        let db_id = or_default [] (s_db_id s)
        in if db_id = [] then Inl no_db_id
           else retrieve_bird (re_query env) (re_scores env) (re_meta env) (s_question s) db_id
                  (nat (or_default 8 (s_rag_k s))) (or_default False (s_rag_hybrid s))
      else Inr [])"

definition chunk_texts :: "agent_state \<Rightarrow> chunk list \<Rightarrow> string \<times> string" where
  "chunk_texts s rag_chunks =
     (let (sch, notes) = (if rag_chunks \<noteq> [] then build_prompt_context rag_chunks else ([], []));
          schema_text = (if or_default True (s_rag_schema s) then sch else []);
          notes_text = (if or_default True (s_rag_domain s) then notes else []);
          domain_override = or_default [] (s_domain_override s)
      in (schema_text, if domain_override \<noteq> [] then domain_override else notes_text))"

definition base_schema :: "retrieval_env \<Rightarrow> agent_state \<Rightarrow> string \<Rightarrow> string py" where
  "base_schema env s schema_text =
     (if schema_text = [] \<and> \<not> or_default False (s_skip_schema s) then
        (case db_url s of
           None \<Rightarrow> Inr []
         | Some url \<Rightarrow> py_bind (re_lookup env url) (\<lambda>info. Inr (schema_summary_text url info)))
      else Inr schema_text)"

definition prunes :: "agent_state \<Rightarrow> bool" where
  "prunes s \<longleftrightarrow> or_default False (s_rag_column_prune s) \<and> or_default ''simple'' (s_complexity s) \<noteq> ''simple''"

text \<open>The pruned path expands the matched tables with \<open>expand_tables(matched)\<close>: no URL is passed, so
  the graph is that of the default database.\<close>

definition pruned_tables :: "retrieval_env \<Rightarrow> agent_state \<Rightarrow> chunk list \<Rightarrow> string list py" where
  "pruned_tables env s rag_chunks =
     (let matched = parse_matched_tables rag_chunks
      in if or_default True (s_rag_fk_expand s) \<and> matched \<noteq> []
         then py_bind (fk_graph_of env None) (\<lambda>g. Inr (expand_tables g matched))
         else Inr matched)"

definition pruned_schema :: "retrieval_env \<Rightarrow> agent_state \<Rightarrow> string \<Rightarrow> string list \<Rightarrow> string py" where
  "pruned_schema env s schema_text table_set =
     (if table_set = [] then Inr schema_text
      else py_bind (schema_of_url env (db_url s)) (\<lambda>info.
        build_compact_ddl table_set (prune_columns (s_question s) table_set 10 10 info) info (s_database_url s)))"

definition full_schema :: "retrieval_env \<Rightarrow> agent_state \<Rightarrow> chunk list \<Rightarrow> string \<Rightarrow> string py" where
  "full_schema env s rag_chunks schema_text =
     py_bind (if or_default True (s_rag_fk_expand s) then
                (if parse_matched_tables rag_chunks = [] then Inr schema_text
                 else py_bind (fk_graph_of env (s_database_url s)) (\<lambda>g.
                   expand_schema_text (re_lookup env) (re_samples env (or_default [] (s_database_url s))) g
                     schema_text rag_chunks (s_database_url s)))
              else Inr schema_text) (\<lambda>schema_text.
     py_bind (table_catalog env (db_url s)) (\<lambda>cat. Inr (schema_text @ nl @ nl @ cat)))"

text \<open>Schema text and the tables whose sample rows are shown\<close>

definition final_schema :: "retrieval_env \<Rightarrow> agent_state \<Rightarrow> chunk list \<Rightarrow> string
    \<Rightarrow> (string \<times> string list option) py" where
  "final_schema env s rag_chunks schema_text =
     (if or_default False (s_skip_schema s) then Inr (schema_text, None)
      else if prunes s then
        py_bind (pruned_tables env s rag_chunks) (\<lambda>table_set.
        py_bind (pruned_schema env s schema_text table_set) (\<lambda>schema_text.
          Inr (schema_text, if table_set \<noteq> [] then Some (map lower table_set) else None)))
      else py_bind (full_schema env s rag_chunks schema_text) (\<lambda>schema_text. Inr (schema_text, None)))"

definition sample_text :: "retrieval_env \<Rightarrow> agent_state \<Rightarrow> string list option \<Rightarrow> string py" where
  "sample_text env s tables =
     (if or_default False (s_skip_schema s) \<or> \<not> or_default True (s_sample_rows s) then Inr []
      else build_sample_rows env (db_url s) tables)"

definition schema_retriever_node :: "retrieval_env \<Rightarrow> string \<Rightarrow> clock \<Rightarrow> agent_state \<Rightarrow> node_out" where
  "schema_retriever_node env fresh t s =
     (let tr0 = (case s_tlog s of Some tr \<Rightarrow> tr | None \<Rightarrow> tracer_init (s_trace_id s) fresh);
          tr1 = node_enter (t 1) ''schema_retriever'' [(''question'', PStr (take 80 (s_question s)))] tr0;
          s1 = s\<lparr>s_tlog := Some tr1\<rparr>
      in try_in s1 (fetch_chunks env s) (\<lambda>rag_chunks.
         let (schema_text, notes_text) = chunk_texts s rag_chunks
         in try_in s1 (base_schema env s schema_text) (\<lambda>schema_text.
            try_in s1 (final_schema env s rag_chunks schema_text) (\<lambda>(schema_text, tables).
            try_in s1 (sample_text env s tables) (\<lambda>sample_rows_text.
              let tr2 = node_exit (t 2) ''schema_retriever''
                    [(''schema_len'', PInt (int (length schema_text))),
                     (''notes_len'', PInt (int (length notes_text))),
                     (''chunk_count'', PInt (int (length rag_chunks)))] ''success'' tr1
              in Inr ((set_latency ''schema_retriever'' (since t 0 3) (s\<lparr>s_tlog := Some tr2\<rparr>))
                   \<lparr>s_rag_chunks := Some rag_chunks, s_schema_text := Some schema_text,
                    s_notes_text := Some notes_text, s_sample_rows_text := Some sample_rows_text,
                    s_trace_id := Some (trace_id tr2)\<rparr>))))))"

subsection \<open>Properties\<close>

lemma schema_retriever_result:
  assumes "schema_retriever_node env fresh t s = Inr s'"
  obtains rag_chunks schema_text tables samples where "fetch_chunks env s = Inr rag_chunks"
    and "base_schema env s (fst (chunk_texts s rag_chunks)) = Inr schema_text"
    and "final_schema env s rag_chunks schema_text = Inr (the (s_schema_text s'), tables)"
    and "sample_text env s tables = Inr samples"
    and "s_schema_text s' \<noteq> None" "s_rag_chunks s' = Some rag_chunks"
    and "s_notes_text s' = Some (snd (chunk_texts s rag_chunks))" "s_sample_rows_text s' = Some samples"
    and "s_sql s' = s_sql s" "s_retry_count s' = s_retry_count s" "s_max_retries s' = s_max_retries s"
  using assms
  by (auto simp: schema_retriever_node_def Let_def case_prod_unfold try_in_Inr_iff set_latency_def)

text \<open>Outside the pruning mode the prompt shows the whole database: when the retriever returns,
  the schema text names every table and every column of the task's database.\<close>

theorem schema_text_complete:
  assumes "schema_retriever_node env fresh t s = Inr s'"
    and "s_skip_schema s \<noteq> Some True" and "\<not> prunes s"
    and "db_url s = Some url" and "re_lookup env url = Inr info"
  shows "list_all (\<lambda>(k, t_info). list_all (\<lambda>c. str_in (actual_name t_info) (or_default [] (s_schema_text s')) \<and>
      str_in (c_name c) (or_default [] (s_schema_text s'))) (columns t_info)) info"
proof -
  have skip: "\<not> or_default False (s_skip_schema s)" using assms(2) by (cases "s_skip_schema s") auto
  obtain rag_chunks schema_text tables where
    f: "final_schema env s rag_chunks schema_text = Inr (the (s_schema_text s'), tables)"
    and ne: "s_schema_text s' \<noteq> None"
    by (rule schema_retriever_result [OF assms(1)])
  obtain pre where sch: "the (s_schema_text s') = pre @ nl @ nl @ catalog_text info"
  proof -
    have "py_bind (full_schema env s rag_chunks schema_text) (\<lambda>schema_text. Inr (schema_text, None))
        = Inr (the (s_schema_text s'), tables)"
      using f skip assms(3) by (simp add: final_schema_def)
    then have "full_schema env s rag_chunks schema_text = Inr (the (s_schema_text s'))"
      by (cases "full_schema env s rag_chunks schema_text") simp_all
    moreover have "table_catalog env (db_url s) = Inr (catalog_text info)"
      using assms(4,5) by (simp add: table_catalog_def)
    ultimately obtain x where "x @ nl @ nl @ catalog_text info = the (s_schema_text s')"
      by (auto simp: full_schema_def py_bind_Inr_iff)
    then show ?thesis using that by metis
  qed
  have "str_in (catalog_text info) (or_default [] (s_schema_text s'))"
    using ne sch str_in_append [of "catalog_text info" "pre @ nl @ nl" "[]"] by auto
  then show ?thesis
    using catalog_lists_every_table [of _ _ info] by (auto simp: list_all_iff intro: str_in_trans)
qed

text \<open>Two databases: the task's, where \<open>orders\<close> refers to \<open>users\<close>, and an empty default one.\<close>

definition col :: "string \<Rightarrow> column_info" where
  "col n = \<lparr>c_name = n, c_type = ''INT'', c_nullable = True\<rparr>"

definition shop_info :: schema_info where
  "shop_info =
     [(''orders'', \<lparr>columns = [col ''id'', col ''uid''], pk_cols = [''id''], fk_cols = [''uid''],
        fks = [\<lparr>constrained_columns = [''uid''], referred_table = ''users'', referred_columns = [''id'']\<rparr>],
        actual_name = ''orders''\<rparr>),
      (''users'', \<lparr>columns = [col ''id''], pk_cols = [''id''], fk_cols = [], fks = [], actual_name = ''users''\<rparr>)]"

definition shop_env :: retrieval_env where
  "shop_env = \<lparr>re_query = (\<lambda>q w k. Inr [(''d1'', ''DDL'', [(''table_name'', PStr ''orders''), (''chunk_type'', PStr ''schema'')])]),
     re_scores = (\<lambda>ws. []), re_meta = [],
     re_lookup = (\<lambda>u. if u = ''shop'' then Inr shop_info else Inr []),
     re_samples = (\<lambda>u t. []), re_default_url = ''dflt''\<rparr>"

definition shop_state :: "bool \<Rightarrow> agent_state" where
  "shop_state prune = (init_state ''Who?'')\<lparr>s_db_id := Some ''b'', s_database_url := Some ''shop'',
     s_complexity := Some ''complex'', s_rag_column_prune := Some prune, s_sample_rows := Some False\<rparr>"

definition tick :: clock where "tick i = \<lparr>r_ms = int i, r_ts = []\<rparr>"

theorem schema_text_complete_witness:
  "\<exists>s'. schema_retriever_node shop_env [] tick (shop_state False) = Inr s' \<and>
     str_in ''users'' (or_default [] (s_schema_text s'))"
proof -
  have "node_ok (\<lambda>s'. True) (schema_retriever_node shop_env [] tick (shop_state False))"
    by code_simp
  then obtain s' where s': "schema_retriever_node shop_env [] tick (shop_state False) = Inr s'"
    by (auto simp: node_ok_iff)
  have "s_skip_schema (shop_state False) \<noteq> Some True" "\<not> prunes (shop_state False)"
      "db_url (shop_state False) = Some ''shop''" "re_lookup shop_env ''shop'' = Inr shop_info"
    by (simp_all add: shop_state_def init_state_def prunes_def db_url_def shop_env_def)
  from schema_text_complete [OF s' this] show ?thesis
    using s' by (simp add: shop_info_def)
qed

text \<open>In the pruning mode the tables are widened along the foreign keys of the default database,
  whatever the database of the task: the pruned DDL is that of the tables matched by retrieval
  and their neighbours in the schema of \<open>Config.DATABASE_URL\<close>.\<close>

theorem pruning_uses_default_foreign_keys:
  assumes "schema_retriever_node env fresh t s = Inr s'"
    and "s_skip_schema s \<noteq> Some True" and "prunes s" and "s_rag_fk_expand s \<noteq> Some False"
    and "re_lookup env (re_default_url env) = Inr dinfo"
    and "parse_matched_tables (or_default [] (s_rag_chunks s')) = m # ms"
  shows "py_bind (schema_of_url env (db_url s)) (\<lambda>info.
      build_compact_ddl (expand_tables (build_graph dinfo) (m # ms))
        (prune_columns (s_question s) (expand_tables (build_graph dinfo) (m # ms)) 10 10 info) info
        (s_database_url s)) = Inr (or_default [] (s_schema_text s'))"
proof -
  have flags: "\<not> or_default False (s_skip_schema s)" "or_default True (s_rag_fk_expand s)"
    using assms(2,4) by (cases "s_skip_schema s"; cases "s_rag_fk_expand s"; auto)+
  obtain rag_chunks schema_text tables where c: "s_rag_chunks s' = Some rag_chunks"
    and f: "final_schema env s rag_chunks schema_text = Inr (the (s_schema_text s'), tables)"
    and ne: "s_schema_text s' \<noteq> None"
    by (rule schema_retriever_result [OF assms(1)])
  let ?tabs = "expand_tables (build_graph dinfo) (m # ms)"
  have matched: "parse_matched_tables rag_chunks = m # ms" using assms(6) c by simp
  have g: "fk_graph_of env None = Inr (build_graph dinfo)"
    using assms(5) by (simp add: fk_graph_of_def graph_url_def)
  have tabs: "pruned_tables env s rag_chunks = Inr ?tabs"
    using flags(2) by (simp add: pruned_tables_def matched g)
  have "m \<in> set ?tabs" by (simp add: set_expand_tables)
  then have "?tabs \<noteq> []" by auto
  moreover have "pruned_schema env s schema_text ?tabs = Inr (the (s_schema_text s'))"
    using f flags(1) assms(3) tabs by (auto simp: final_schema_def py_bind_Inr_iff)
  ultimately have "py_bind (schema_of_url env (db_url s)) (\<lambda>info.
      build_compact_ddl ?tabs (prune_columns (s_question s) ?tabs 10 10 info) info (s_database_url s))
      = Inr (the (s_schema_text s'))"
    by (simp add: pruned_schema_def)
  then show ?thesis using ne by auto
qed

theorem pruning_uses_default_foreign_keys_witness:
  "\<exists>s'. schema_retriever_node shop_env [] tick (shop_state True) = Inr s' \<and>
     \<not> str_in ''CREATE TABLE users'' (or_default [] (s_schema_text s'))"
proof -
  have "node_ok (\<lambda>s'. parse_matched_tables (or_default [] (s_rag_chunks s')) = [''orders''])
      (schema_retriever_node shop_env [] tick (shop_state True))"
    by code_simp
  then obtain s' where s': "schema_retriever_node shop_env [] tick (shop_state True) = Inr s'"
    and m: "parse_matched_tables (or_default [] (s_rag_chunks s')) = [''orders'']"
    by (auto simp: node_ok_iff)
  have "s_skip_schema (shop_state True) \<noteq> Some True" "prunes (shop_state True)"
      "s_rag_fk_expand (shop_state True) \<noteq> Some False" "re_lookup shop_env (re_default_url shop_env) = Inr []"
    by (simp_all add: shop_state_def init_state_def prunes_def shop_env_def)
  note r = pruning_uses_default_foreign_keys [OF s' this m]
  have "py_ok (\<lambda>ddl. \<not> str_in ''CREATE TABLE users'' ddl) (py_bind (schema_of_url shop_env (db_url (shop_state True))) (\<lambda>info.
      build_compact_ddl (expand_tables (build_graph []) [''orders''])
        (prune_columns (s_question (shop_state True)) (expand_tables (build_graph []) [''orders'']) 10 10 info) info
        (s_database_url (shop_state True))))"
    by code_simp
  then show ?thesis using r s' by (auto simp: py_ok_iff)
qed

end
