(* ===== verification/Pipeline.thy ===== *)
theory Pipeline
  imports Router Decomposer Fewshot SchemaRetriever Guard Voter Refiner
begin

text \<open>
  \<open>agent/graphs/full_graph.py\<close> and \<open>agent/graphs/feedback_graph.py\<close>: the nodes composed into a
  graph. A configuration is a node about to run on a state, a final state, or a raised
  exception. Everything a node asks of the outside world may change from step to step.
\<close>

subsection \<open>Nodes and edges\<close>

datatype node = NRouter | NSchemaRetriever | NDecomposer | NFewshot | NGenerator | NGuard | NVoter
  | NSemantic | NRefiner | NPostRefiner

datatype target = To node | GEnd

definition route_after_schema :: "agent_state \<Rightarrow> target" where
  "route_after_schema s =
     (if s_complexity s = Some ''complex'' \<and> or_default False (s_decomposer_enabled s)
      then To NDecomposer else To NFewshot)"

definition route_after_guard :: "agent_state \<Rightarrow> target" where
  "route_after_guard s = (if or_default False (s_guard_pass s) then To NVoter else To NRefiner)"

definition route_after_voter :: "agent_state \<Rightarrow> target" where
  "route_after_voter s =
     (case s_exec_result s of
        Some (Some r) \<Rightarrow> if er_success r then To NSemantic else To NRefiner
      | _ \<Rightarrow> To NRefiner)"

definition route_after_semantic :: "agent_state \<Rightarrow> target" where
  "route_after_semantic s = (if or_default True (s_semantic_pass s) then GEnd else To NRefiner)"

definition route_after_refiner :: "agent_state \<Rightarrow> target" where
  "route_after_refiner s =
     (if or_default 2 (s_max_retries s) < or_default 0 (s_retry_count s) then GEnd else To NGenerator)"

definition after_refiner :: "agent_state \<Rightarrow> agent_state" where
  "after_refiner s = s\<lparr>s_retry_count := Some (or_default 0 (s_retry_count s) + 1)\<rparr>"

text \<open>\<open>create_full_graph\<close>: the entry is the router\<close>

fun next_full :: "node \<Rightarrow> agent_state \<Rightarrow> target" where
  "next_full NRouter s = To NSchemaRetriever"
| "next_full NSchemaRetriever s = route_after_schema s"
| "next_full NDecomposer s = To NFewshot"
| "next_full NFewshot s = To NGenerator"
| "next_full NGenerator s = To NGuard"
| "next_full NGuard s = route_after_guard s"
| "next_full NVoter s = route_after_voter s"
| "next_full NSemantic s = route_after_semantic s"
| "next_full NRefiner s = To NPostRefiner"
| "next_full NPostRefiner s = route_after_refiner s"

text \<open>\<open>create_feedback_graph\<close>: the entry is the refiner; the first four nodes are not part of it\<close>

fun next_feedback :: "node \<Rightarrow> agent_state \<Rightarrow> target" where
  "next_feedback NGenerator s = To NGuard"
| "next_feedback NGuard s = route_after_guard s"
| "next_feedback NVoter s = route_after_voter s"
| "next_feedback NSemantic s = route_after_semantic s"
| "next_feedback NRefiner s = To NPostRefiner"
| "next_feedback NPostRefiner s = route_after_refiner s"
| "next_feedback _ s = GEnd"

subsection \<open>Running a node\<close>

text \<open>What one step may ask: configuration, parser, model, clock, stores, database. \<open>ne_fin\<close> is the
  order in which parallel executions complete.\<close>

record node_env =
  ne_cfg :: config
  ne_rules :: "(string \<times> string list) list"
  ne_sg :: sqlglot
  ne_ntok :: "string \<Rightarrow> nat"
  ne_chat :: llm
  ne_stream :: bool
  ne_fresh :: string
  ne_clock :: clock
  ne_retr :: retrieval_env
  ne_fewshot :: fs_collection
  ne_corpus :: store_query
  ne_db :: database
  ne_timed_out :: "string \<Rightarrow> bool"
  ne_ms :: "string \<Rightarrow> int"
  ne_fin :: "string list \<Rightarrow> string list"

definition run_candidate :: "node_env \<Rightarrow> agent_state \<Rightarrow> string \<Rightarrow> exec_result py" where
  "run_candidate env s q =
     Inr (run_sql (ne_sg env) (ne_db env) (ne_timed_out env q) (ne_ms env q) EXEC_TIMEOUT_S (s_database_url s) q)"

fun run_node :: "node_env \<Rightarrow> node \<Rightarrow> agent_state \<Rightarrow> node_out" where
  "run_node env NRouter s = router_node (ne_cfg env) (ne_ntok env) (ne_chat env) (ne_fresh env) (ne_clock env) s"
| "run_node env NSchemaRetriever s = schema_retriever_node (ne_retr env) (ne_fresh env) (ne_clock env) s"
| "run_node env NDecomposer s = decomposer_node (ne_cfg env) (ne_chat env) (ne_clock env) s"
| "run_node env NFewshot s = fewshot_selector_node (ne_fewshot env) (ne_clock env) s"
| "run_node env NGenerator s =
     generator_node (ne_cfg env) (ne_rules env) (ne_chat env) (ne_stream env) (ne_clock env) s"
| "run_node env NGuard s = guard_node (ne_sg env) (re_lookup (ne_retr env)) (ne_clock env) s"
| "run_node env NVoter s =
     voter_node (ne_cfg env) (ne_chat env) (run_candidate env s) (ne_fin env (voter_sqls s)) (ne_clock env) s"
| "run_node env NSemantic s = semantic_check_node (ne_cfg env) (ne_chat env) (ne_clock env) s"
| "run_node env NRefiner s =
     refiner_node (re_query (ne_retr env)) (ne_corpus env) (re_lookup (ne_retr env)) (ne_clock env) s"
| "run_node env NPostRefiner s = Inr (after_refiner s)"

subsection \<open>The graph as a transition system\<close>

datatype conf = At node agent_state | Done agent_state | Raised py_exc

definition conf_of :: "target \<Rightarrow> agent_state \<Rightarrow> conf" where
  "conf_of tg s = (case tg of To n \<Rightarrow> At n s | GEnd \<Rightarrow> Done s)"

definition exec_node ::
  "(node \<Rightarrow> agent_state \<Rightarrow> target) \<Rightarrow> (node \<Rightarrow> agent_state \<Rightarrow> node_out) \<Rightarrow> node \<Rightarrow> agent_state \<Rightarrow> conf" where
  "exec_node nxt run n s =
     (case run n s of Inl (e, lg) \<Rightarrow> Raised e | Inr s' \<Rightarrow> conf_of (nxt n s') s')"

inductive graph_step ::
  "(node \<Rightarrow> agent_state \<Rightarrow> target) \<Rightarrow> ('e \<Rightarrow> node \<Rightarrow> agent_state \<Rightarrow> node_out) \<Rightarrow> conf \<Rightarrow> conf \<Rightarrow> bool"
  for nxt run where
  move: "exec_node nxt (run env) n s = c \<Longrightarrow> graph_step nxt run (At n s) c"

inductive_cases graph_stepE: "graph_step nxt run c c'"
inductive_simps graph_step_At: "graph_step nxt run (At n s) c"
inductive_simps graph_step_final: "graph_step nxt run (Done s) c" "graph_step nxt run (Raised e) c"

inductive reach ::
  "(node \<Rightarrow> agent_state \<Rightarrow> target) \<Rightarrow> ('e \<Rightarrow> node \<Rightarrow> agent_state \<Rightarrow> node_out) \<Rightarrow> conf \<Rightarrow> conf \<Rightarrow> bool"
  for nxt run c0 where
  start: "reach nxt run c0 c0"
| step: "reach nxt run c0 c \<Longrightarrow> graph_step nxt run c c' \<Longrightarrow> reach nxt run c0 c'"

text \<open>A run: \<open>run i\<close> is what the nodes do at step \<open>i\<close>. The result is the list of the nodes that ran
  and the last configuration.\<close>

fun graph_run ::
  "(node \<Rightarrow> agent_state \<Rightarrow> target) \<Rightarrow> (nat \<Rightarrow> node \<Rightarrow> agent_state \<Rightarrow> node_out) \<Rightarrow> nat \<Rightarrow> nat \<Rightarrow> conf
    \<Rightarrow> node list \<times> conf" where
  "graph_run nxt run (Suc f) i (At n s) =
     (let (tr, c) = graph_run nxt run f (Suc i) (exec_node nxt (run i) n s) in (n # tr, c))"
| "graph_run nxt run f i c = ([], c)"

lemma reach_first:
  "graph_step nxt run c c' \<Longrightarrow> reach nxt run c' c'' \<Longrightarrow> reach nxt run c c''"
  by (rotate_tac, induction rule: reach.induct) (auto intro: reach.intros)

lemma graph_run_reach: "graph_run nxt (\<lambda>i. run (env i)) f i c = (tr, c') \<Longrightarrow> reach nxt run c c'"
proof (induction f arbitrary: i c tr)
  case 0
  then show ?case by (cases c) (auto intro: reach.start)
next
  case (Suc f)
  show ?case
  proof (cases c)
    case (At n s)
    obtain tr1 where "graph_run nxt (\<lambda>i. run (env i)) f (Suc i) (exec_node nxt (run (env i)) n s) = (tr1, c')"
      using Suc.prems At by (auto split: prod.splits)
    from Suc.IH [OF this] show ?thesis
      unfolding At by (rule reach_first [OF graph_step.move [OF refl]])
  qed (use Suc.prems in \<open>auto intro: reach.start\<close>)
qed

subsection \<open>The contract of the nodes\<close>

definition same_counters :: "agent_state \<Rightarrow> agent_state \<Rightarrow> bool" where
  "same_counters s s' \<longleftrightarrow> s_retry_count s' = s_retry_count s \<and> s_max_retries s' = s_max_retries s"

text \<open>Rounds of the generator that are left\<close>

definition rounds_left :: "agent_state \<Rightarrow> nat" where
  "rounds_left s = nat (or_default 2 (s_max_retries s) - or_default 0 (s_retry_count s))"

text \<open>The pipeline with everything but its rounds forgotten. A voter is only ever followed by the
  semantic check.\<close>

datatype round_conf = Round node nat | Finished | Failed

inductive round_step :: "round_conf \<Rightarrow> round_conf \<Rightarrow> bool" where
  router: "round_step (Round NRouter k) (Round NSchemaRetriever k)"
| schema_decomposer: "round_step (Round NSchemaRetriever k) (Round NDecomposer k)"
| schema_fewshot: "round_step (Round NSchemaRetriever k) (Round NFewshot k)"
| decomposer: "round_step (Round NDecomposer k) (Round NFewshot k)"
| fewshot: "round_step (Round NFewshot k) (Round NGenerator k)"
| generator: "round_step (Round NGenerator k) (Round NGuard k)"
| guard_pass: "round_step (Round NGuard k) (Round NVoter k)"
| guard_fail: "round_step (Round NGuard k) (Round NRefiner k)"
| voter: "round_step (Round NVoter k) (Round NSemantic k)"
| semantic_pass: "round_step (Round NSemantic k) Finished"
| semantic_fail: "round_step (Round NSemantic k) (Round NRefiner k)"
| refiner: "round_step (Round NRefiner k) (Round NPostRefiner k)"
| retry: "round_step (Round NPostRefiner (Suc k)) (Round NGenerator k)"
| give_up: "round_step (Round NPostRefiner 0) Finished"
| raised: "n \<noteq> NPostRefiner \<Longrightarrow> round_step (Round n k) Failed"

fun abs_conf :: "conf \<Rightarrow> round_conf" where
  "abs_conf (At n s) = Round n (rounds_left s)"
| "abs_conf (Done s) = Finished"
| "abs_conf (Raised e) = Failed"

text \<open>How many steps and how many generator runs a configuration has left\<close>

fun steps_left :: "round_conf \<Rightarrow> nat" where
  "steps_left (Round n k) = 6 * k + (case n of NRouter \<Rightarrow> 10 | NSchemaRetriever \<Rightarrow> 9 | NDecomposer \<Rightarrow> 8
     | NFewshot \<Rightarrow> 7 | NGenerator \<Rightarrow> 6 | NGuard \<Rightarrow> 5 | NVoter \<Rightarrow> 4 | NSemantic \<Rightarrow> 3 | NRefiner \<Rightarrow> 2 | NPostRefiner \<Rightarrow> 1)"
| "steps_left _ = 0"

fun generations_left :: "round_conf \<Rightarrow> nat" where
  "generations_left (Round n k) =
     (if n \<in> {NGuard, NVoter, NSemantic, NRefiner, NPostRefiner} then k else Suc k)"
| "generations_left _ = 0"

lemma round_step_steps: "round_step c c' \<Longrightarrow> steps_left c' < steps_left c"
  by (induction rule: round_step.induct) (auto split: node.split)

lemma round_step_generations:
  "round_step (Round n k) c' \<Longrightarrow> generations_left c' + (if n = NGenerator then 1 else 0) \<le> generations_left (Round n k)"
  by (induction "Round n k" c' rule: round_step.induct) auto

text \<open>What the graph relies on: no node but the counter touches the counters, and the voter reports
  success. \<open>'e\<close> is what the environment contributes to a step.\<close>

locale pipeline_nodes =
  fixes node_run :: "'e \<Rightarrow> node \<Rightarrow> agent_state \<Rightarrow> node_out"
  assumes keeps_counters: "node_run e n s = Inr s' \<Longrightarrow> n \<noteq> NPostRefiner \<Longrightarrow> same_counters s s'"
    and counts: "node_run e NPostRefiner s = Inr (after_refiner s)"
    and voter_succeeds: "node_run e NVoter s = Inr s' \<Longrightarrow> route_after_voter s' = To NSemantic"
begin

lemma keeps_rounds: "node_run e n s = Inr s' \<Longrightarrow> n \<noteq> NPostRefiner \<Longrightarrow> rounds_left s' = rounds_left s"
  using keeps_counters by (simp add: same_counters_def rounds_left_def)

lemma post_refiner:
  "exec_node nxt (node_run e) NPostRefiner s = conf_of (nxt NPostRefiner (after_refiner s)) (after_refiner s)"
  by (simp add: exec_node_def counts)

lemma post_refines:
  "round_step (Round NPostRefiner (rounds_left s)) (abs_conf (conf_of (route_after_refiner (after_refiner s)) (after_refiner s)))"
proof (cases "or_default 2 (s_max_retries s) < or_default 0 (s_retry_count s) + 1")
  case True
  then have "rounds_left s = 0" by (simp add: rounds_left_def)
  then show ?thesis
    using True by (simp add: route_after_refiner_def after_refiner_def conf_of_def round_step.give_up)
next
  case False
  then have "rounds_left s = Suc (rounds_left (after_refiner s))"
    by (simp add: rounds_left_def after_refiner_def nat_diff_distrib' Suc_nat_eq_nat_zadd1 algebra_simps)
  then show ?thesis
    using False by (simp add: route_after_refiner_def after_refiner_def conf_of_def round_step.retry)
qed

text \<open>Simulation: every step of the full graph is a step of the rounds.\<close>

lemma full_refines: "graph_step next_full node_run c c' \<Longrightarrow> round_step (abs_conf c) (abs_conf c')"
proof (erule graph_stepE)
  fix env n s
  assume c: "c = At n s" "exec_node next_full (node_run env) n s = c'"
  show ?thesis
  proof (cases "n = NPostRefiner")
    case True
    then show ?thesis using c post_refiner [of next_full env s] post_refines [of s] by auto
  next
    case False
    show ?thesis
    proof (cases "node_run env n s")
      case (Inl e)
      then show ?thesis using c False by (auto simp: exec_node_def round_step.raised split: prod.split)
    next
      case (Inr s')
      have k: "rounds_left s' = rounds_left s" by (rule keeps_rounds [OF Inr False])
      have "c' = conf_of (next_full n s') s'" using c Inr by (simp add: exec_node_def)
      moreover have "n = NVoter \<Longrightarrow> route_after_voter s' = To NSemantic" using voter_succeeds Inr by simp
      ultimately show ?thesis using c(1) k False
        by (cases n) (auto simp: conf_of_def route_after_schema_def route_after_guard_def
            route_after_semantic_def intro: round_step.intros)
    qed
  qed
qed

lemma run_bounded:
  assumes "\<And>c c'. graph_step nxt node_run c c' \<Longrightarrow> round_step (abs_conf c) (abs_conf c')"
  shows "steps_left (abs_conf c) \<le> f \<Longrightarrow> graph_run nxt (\<lambda>i. node_run (env i)) f i c = (tr, c') \<Longrightarrow>
    length tr \<le> steps_left (abs_conf c) \<and> count_list tr NGenerator \<le> generations_left (abs_conf c)
    \<and> (\<nexists>n s. c' = At n s)"
proof (induction f arbitrary: i c tr)
  case 0
  then show ?case by (cases c) (auto split: node.splits)
next
  case (Suc f)
  show ?case
  proof (cases c)
    case (At n s)
    let ?c1 = "exec_node nxt (node_run (env i)) n s"
    obtain tr1 where r: "graph_run nxt (\<lambda>i. node_run (env i)) f (Suc i) ?c1 = (tr1, c')" and tr: "tr = n # tr1"
      using Suc.prems(2) At by (auto split: prod.splits)
    have st: "round_step (abs_conf c) (abs_conf ?c1)"
      unfolding At by (rule assms) (rule graph_step.move, rule refl)
    have lt: "steps_left (abs_conf ?c1) < steps_left (abs_conf c)" by (rule round_step_steps [OF st])
    then have "steps_left (abs_conf ?c1) \<le> f" using Suc.prems(1) by simp
    from Suc.IH [OF this r] lt show ?thesis
      using round_step_generations [OF st [unfolded At abs_conf.simps]] tr At by auto
  qed (use Suc.prems in auto)
qed

end

subsection \<open>What the nodes leave alone\<close>

text \<open>Schema and task of a state, and what the routing reads\<close>

record view =
  vw_task :: "string \<times> string option \<times> string option"
  vw_counters :: "int option \<times> int option"
  vw_sql :: "string option"
  vw_exec :: "exec_result option option"
  vw_guard :: "bool option"

definition view :: "agent_state \<Rightarrow> view" where
  "view s = \<lparr>vw_task = (s_question s, s_database_url s, s_db_id s),
     vw_counters = (s_retry_count s, s_max_retries s),
     vw_sql = s_sql s, vw_exec = s_exec_result s, vw_guard = s_guard_pass s\<rparr>"

named_theorems node_view

lemma view_tlog [simp]: "view (tlog_do f s) = view s" "view (set_latency n k s) = view s"
  "view (s\<lparr>s_tlog := x\<rparr>) = view s"
  by (simp_all add: view_def tlog_do_def set_latency_def)

lemma router_view [node_view]: "router_node cfg ntok chat fresh t s = Inr s' \<Longrightarrow> view s' = view s"
  by (auto simp: router_node_def Let_def case_prod_unfold view_def set_latency_def)

lemma schema_retriever_view [node_view]: "schema_retriever_node env fresh t s = Inr s' \<Longrightarrow> view s' = view s"
  by (auto simp: schema_retriever_node_def Let_def case_prod_unfold try_in_Inr_iff view_def set_latency_def)

lemma decomposer_view [node_view]: "decomposer_node cfg chat t s = Inr s' \<Longrightarrow> view s' = view s"
  by (auto simp: decomposer_node_def Let_def try_in_Inr_iff view_def set_latency_def tlog_do_def split: sum.splits)

lemma fewshot_view [node_view]: "fewshot_selector_node fcol t s = Inr s' \<Longrightarrow> view s' = view s"
  by (auto simp: fewshot_selector_node_def Let_def try_in_Inr_iff view_def set_latency_def tlog_do_def
      split: if_splits)

lemma generator_view [node_view]:
  "generator_node cfg rules chat cb t s = Inr s' \<Longrightarrow> view s' = (view s)\<lparr>vw_sql := s_sql s'\<rparr>"
  by (auto simp: generator_node_def generator_single_def generator_multi_def Let_def view_def
      set_latency_def tlog_do_def split: sum.splits if_splits list.splits)

lemma guard_view [node_view]:
  "guard_node sg lookup t s = Inr s' \<Longrightarrow> view s' = (view s)\<lparr>vw_guard := s_guard_pass s'\<rparr>"
  by (auto simp: guard_node_def Let_def try_in_Inr_iff tlog_do_def set_latency_def view_def)

lemma finish_view: "view (finish t q r s) = (view s)\<lparr>vw_sql := Some q, vw_exec := Some (Some r)\<rparr>"
  by (simp add: finish_def set_latency_def view_def)

lemma voter_decide_view:
  "view (voter_decide cfg chat t sqls rs tr s) =
     (view s)\<lparr>vw_sql := s_sql (voter_decide cfg chat t sqls rs tr s),
              vw_exec := s_exec_result (voter_decide cfg chat t sqls rs tr s)\<rparr>"
  by (auto simp: voter_decide_def finish_with_def finish_view Let_def
      split: decision.split prod.split option.split)

lemma voter_view [node_view]:
  assumes "voter_node cfg chat run fin t s = Inr s'"
  shows "view s' = (view s)\<lparr>vw_sql := s_sql s', vw_exec := s_exec_result s'\<rparr>"
  using assms
  by (auto simp: voter_node_def Let_def finish_view intro: trans [OF voter_decide_view]
      split: prod.splits sum.splits if_splits)

lemma semantic_view [node_view]:
  assumes "semantic_check_node cfg chat t s = Inr s'"
  shows "view s' = view s"
proof -
  obtain p where p: "semantic_prompt s (or_default [] (s_sql s)) = Inr p" using semantic_prompt_ok by blast
  have r: "view (record_verdict cfg t r q s s1) = view s1" for r q s1
    by (cases "semantic_verdict_of (strip (lr_content r))";
        simp add: record_verdict_def Let_def view_def set_latency_def tlog_do_def)
  show ?thesis
    using assms p
    by (cases "llm_invoke chat SEMANTIC_CHECK_SYSTEM_PROMPT p 0")
       (auto simp: semantic_check_node_def Let_def r [unfolded view_def, simplified] set_latency_def
          tlog_do_def view_def split: if_splits)
qed

lemma refiner_view [node_view]:
  assumes "refiner_node bird corpus lookup t s = Inr s'"
  shows "view s' = view s"
proof -
  have r: "view (refined s t s1 e h x) = view s1" for s1 e h x
    by (simp add: refined_def Let_def set_latency_def tlog_do_def apply_expansion_def case_prod_unfold view_def
        split: option.split)
  show ?thesis by (rule refiner_node_Inr [OF assms]) (simp add: r)
qed

lemma view_updates [simp]:
  "vw_counters (v\<lparr>vw_sql := q\<rparr>) = vw_counters v" "vw_task (v\<lparr>vw_sql := q\<rparr>) = vw_task v"
  by (cases v; simp)+

lemma view_fields:
  "vw_task (view s) = (s_question s, s_database_url s, s_db_id s)"
  "vw_counters (view s) = (s_retry_count s, s_max_retries s)"
  "vw_sql (view s) = s_sql s" "vw_exec (view s) = s_exec_result s" "vw_guard (view s) = s_guard_pass s"
  by (simp_all add: view_def)

text \<open>What a node may change of the view.\<close>

lemma run_node_view:
  assumes "run_node env n s = Inr s'"
  shows "vw_task (view s') = vw_task (view s)"
    and "n \<noteq> NPostRefiner \<Longrightarrow> vw_counters (view s') = vw_counters (view s)"
    and "n \<notin> {NGenerator, NVoter} \<Longrightarrow> s_sql s' = s_sql s"
    and "n \<noteq> NVoter \<Longrightarrow> s_exec_result s' = s_exec_result s"
    and "n \<noteq> NGuard \<Longrightarrow> s_guard_pass s' = s_guard_pass s"
proof -
  have v: "view s' = (case n of
      NGenerator \<Rightarrow> (view s)\<lparr>vw_sql := s_sql s'\<rparr>
    | NGuard \<Rightarrow> (view s)\<lparr>vw_guard := s_guard_pass s'\<rparr>
    | NVoter \<Rightarrow> (view s)\<lparr>vw_sql := s_sql s', vw_exec := s_exec_result s'\<rparr>
    | NPostRefiner \<Rightarrow> view (after_refiner s)
    | _ \<Rightarrow> view s)"
    using assms by (cases n) (auto dest: node_view)
  show "vw_task (view s') = vw_task (view s)"
    and "n \<noteq> NPostRefiner \<Longrightarrow> vw_counters (view s') = vw_counters (view s)"
    and "n \<notin> {NGenerator, NVoter} \<Longrightarrow> s_sql s' = s_sql s"
    and "n \<noteq> NVoter \<Longrightarrow> s_exec_result s' = s_exec_result s"
    and "n \<noteq> NGuard \<Longrightarrow> s_guard_pass s' = s_guard_pass s"
    using v by (cases n; simp add: view_def after_refiner_def)+
qed

interpretation pipe: pipeline_nodes run_node
proof unfold_locales
  show "same_counters s s'" if "run_node e n s = Inr s'" "n \<noteq> NPostRefiner" for e n s s'
    using run_node_view(2) [OF that] by (simp add: view_fields same_counters_def)
  show "run_node e NPostRefiner s = Inr (after_refiner s)" for e s by simp
  show "route_after_voter s' = To NSemantic" if "run_node e NVoter s = Inr s'" for e s s'
    using voter_node_success that by (fastforce simp: route_after_voter_def)
qed

subsection \<open>The feedback graph\<close>

text \<open>The part of the full graph that the feedback graph repeats\<close>

definition in_loop :: "node \<Rightarrow> bool" where
  "in_loop n \<longleftrightarrow> n \<notin> {NRouter, NSchemaRetriever, NDecomposer, NFewshot}"

lemma loop_step:
  assumes "in_loop n"
  shows "exec_node next_feedback run n s = exec_node next_full run n s"
    and "exec_node next_full run n s = At n' s' \<Longrightarrow> in_loop n'"
  using assms
  by (cases n; auto simp: in_loop_def exec_node_def conf_of_def route_after_guard_def route_after_voter_def
      route_after_semantic_def route_after_refiner_def split: sum.splits if_splits option.splits)+

lemma feedback_run:
  "(\<And>n s. c = At n s \<Longrightarrow> in_loop n) \<Longrightarrow> graph_run next_feedback run f i c = graph_run next_full run f i c"
proof (induction f arbitrary: i c)
  case 0
  then show ?case by (cases c) auto
next
  case (Suc f)
  show ?case
  proof (cases c)
    case (At n s)
    then have n: "in_loop n" using Suc.prems by simp
    have "graph_run next_feedback run f (Suc i) (exec_node next_full (run i) n s)
        = graph_run next_full run f (Suc i) (exec_node next_full (run i) n s)"
      by (rule Suc.IH) (rule loop_step(2) [OF n])
    then show ?thesis using At loop_step(1) [OF n] by simp
  qed auto
qed

subsection \<open>What a run leaves in the state\<close>

text \<open>A stored result is a vote of the model, or the successful execution of a safe query.\<close>

definition backed :: "sqlglot \<Rightarrow> agent_state \<Rightarrow> bool" where
  "backed sg s \<longleftrightarrow>
     (case s_exec_result s of
        Some (Some r) \<Rightarrow> er_success r \<and>
          (case er_sql r of
             None \<Rightarrow> er_voted_by r \<noteq> None
           | Some q \<Rightarrow> safe_sql sg q (executor_dialect (s_database_url s)))
      | _ \<Rightarrow> True)"

text \<open>The result belongs to the query of the state.\<close>

definition settled :: "agent_state \<Rightarrow> bool" where
  "settled s \<longleftrightarrow>
     (case s_exec_result s of
        Some (Some r) \<Rightarrow> er_success r \<and> (er_sql r = None \<or> er_sql r = s_sql s)
      | _ \<Rightarrow> False)"

definition exhausted :: "agent_state \<Rightarrow> bool" where
  "exhausted s \<longleftrightarrow> or_default 2 (s_max_retries s) < or_default 0 (s_retry_count s)"

fun conf_ok :: "sqlglot \<Rightarrow> conf \<Rightarrow> bool" where
  "conf_ok sg (At n s) \<longleftrightarrow> backed sg s \<and>
     (n \<in> {NVoter, NSemantic} \<longrightarrow> s_guard_pass s = Some True) \<and>
     (n \<in> {NSemantic, NRefiner, NPostRefiner} \<longrightarrow> s_guard_pass s = Some True \<longrightarrow> settled s)"
| "conf_ok sg (Done s) \<longleftrightarrow> backed sg s \<and> (s_guard_pass s = Some True \<longrightarrow> settled s) \<and>
     (s_guard_pass s = Some True \<and> s_semantic_pass s = Some True \<or> exhausted s)"
| "conf_ok sg (Raised e) \<longleftrightarrow> True"

text \<open>Nodes over one parser\<close>

definition run_over :: "sqlglot \<Rightarrow> node_env \<Rightarrow> node \<Rightarrow> agent_state \<Rightarrow> node_out" where
  "run_over sg env = run_node (env\<lparr>ne_sg := sg\<rparr>)"

lemma run_over_step: "graph_step nxt (run_over sg) c c' \<Longrightarrow> graph_step nxt run_node c c'"
  unfolding run_over_def by (erule graph_stepE) (simp add: graph_step.move)

lemma voter_backed:
  assumes "run_over sg env NVoter s = Inr s'"
  shows "backed sg s' \<and> settled s'"
proof -
  let ?run = "run_candidate (env\<lparr>ne_sg := sg\<rparr>) s"
  have url: "s_database_url s' = s_database_url s"
    using run_node_view(1) [OF assms [unfolded run_over_def]] by (simp add: view_fields)
  have "voted_or_run ?run s'"
    using assms by (auto simp: run_over_def intro: voter_node_source)
  then show ?thesis unfolding voted_or_run_def
  proof (elim disjE exE conjE)
    fix m
    assume "s_exec_result s' = Some (Some (vote_result m))"
    then show ?thesis by (simp add: backed_def settled_def vote_result_def)
  next
    fix q r
    assume r: "?run q = Inr r" "er_success r" "s_sql s' = Some q"
      "s_exec_result s' = Some (Some (r\<lparr>er_sql := Some q\<rparr>))"
    have "safe_sql sg q (executor_dialect (s_database_url s))"
      using r(1,2) run_sql_unsafe(2) by (fastforce simp: run_candidate_def)
    then show ?thesis using r url by (simp add: backed_def settled_def)
  qed
qed

lemma run_over_keeps:
  assumes "run_over sg env n s = Inr s'"
  shows "backed sg s \<Longrightarrow> backed sg s'"
    and "n \<notin> {NGenerator, NVoter} \<Longrightarrow> settled s' \<longleftrightarrow> settled s"
    and "n \<noteq> NGuard \<Longrightarrow> s_guard_pass s' = s_guard_pass s"
proof -
  note v = run_node_view [OF assms [unfolded run_over_def]]
  have url: "s_database_url s' = s_database_url s" using v(1) by (simp add: view_fields)
  show "backed sg s \<Longrightarrow> backed sg s'"
  proof (cases "n = NVoter")
    case True
    then show "backed sg s'" using voter_backed assms by blast
  next
    case False
    then show "backed sg s \<Longrightarrow> backed sg s'" using v(4) unfolding backed_def url by simp
  qed
  show "n \<notin> {NGenerator, NVoter} \<Longrightarrow> settled s' \<longleftrightarrow> settled s"
    using v(3,4) by (simp add: settled_def cong: option.case_cong)
  show "n \<noteq> NGuard \<Longrightarrow> s_guard_pass s' = s_guard_pass s" using v(5) by auto
qed

lemma semantic_decides: "run_over sg env NSemantic s = Inr s' \<Longrightarrow> \<exists>b. s_semantic_pass s' = Some b"
  using semantic_check_frame(6) by (auto simp: run_over_def)

lemma guard_decides: "run_over sg env NGuard s = Inr s' \<Longrightarrow> \<exists>b. s_guard_pass s' = Some b"
  by (auto simp: run_over_def elim: guard_node_result)

lemma conf_ok_step:
  assumes "graph_step next_full (run_over sg) c c'" and "conf_ok sg c"
  shows "conf_ok sg c'"
  using assms(1)
proof (rule graph_stepE)
  fix env n s
  assume c: "c = At n s" "exec_node next_full (run_over sg env) n s = c'"
  show ?thesis
  proof (cases "run_over sg env n s")
    case (Inl e)
    then show ?thesis using c by (auto simp: exec_node_def split: prod.split)
  next
    case (Inr s')
    have c': "c' = conf_of (next_full n s') s'" using c Inr by (simp add: exec_node_def)
    have b: "backed sg s'" using run_over_keeps(1) [OF Inr] assms(2) c(1) by simp
    show ?thesis
    proof (cases n)
      case NGuard
      then show ?thesis using b c' guard_decides [of sg env s s'] Inr
        by (auto simp: conf_of_def route_after_guard_def)
    next
      case NVoter
      have "s_guard_pass s' = Some True" using run_over_keeps(3) [OF Inr] NVoter assms(2) c(1) by simp
      moreover have "route_after_voter s' = To NSemantic"
        using pipe.voter_succeeds [of "env\<lparr>ne_sg := sg\<rparr>" s s'] Inr NVoter by (simp add: run_over_def)
      ultimately show ?thesis using b c' NVoter voter_backed Inr by (auto simp: conf_of_def)
    next
      case NSemantic
      moreover have "s_guard_pass s' = Some True"
        using run_over_keeps(3) [OF Inr] NSemantic assms(2) c(1) by simp
      moreover have "settled s'" using run_over_keeps(2) [OF Inr] NSemantic assms(2) c(1) by simp
      ultimately show ?thesis using b c' semantic_decides [of sg env s s'] Inr
        by (auto simp: conf_of_def route_after_semantic_def)
    next
      case NRefiner
      then show ?thesis using b c' run_over_keeps(2,3) [OF Inr] assms(2) c(1) by (simp add: conf_of_def)
    next
      case NPostRefiner
      then show ?thesis using b c' run_over_keeps(2,3) [OF Inr] assms(2) c(1)
        by (simp add: conf_of_def route_after_refiner_def exhausted_def)
    qed (use b c' in \<open>auto simp: conf_of_def route_after_schema_def\<close>)
  qed
qed

lemma conf_ok_reach: "reach next_full (run_over sg) c0 c \<Longrightarrow> conf_ok sg c0 \<Longrightarrow> conf_ok sg c"
  by (induction rule: reach.induct) (auto intro: conf_ok_step)

subsection \<open>A run to the end\<close>

text \<open>No database: the query of the model passes the guard, is voted for and accepted because the
  model does not answer the semantic check.\<close>

definition silent_llm :: llm where
  "silent_llm = \<lparr>llm_invoke = (\<lambda>sys user temp. Inl (PyExc ''APITimeoutError'' ''Request timed out.'')),
     llm_stream = (\<lambda>sys user temp. Inl (PyExc ''APITimeoutError'' ''Request timed out.''))\<rparr>"

definition plain_env :: "llm \<Rightarrow> node_env" where
  "plain_env chat = \<lparr>ne_cfg = demo_cfg, ne_rules = [], ne_sg = demo_sg demo_ast, ne_ntok = (\<lambda>q. 1),
     ne_chat = chat, ne_stream = False, ne_fresh = ''t1'', ne_clock = tick, ne_retr = shop_env,
     ne_fewshot = \<lparr>fs_count = 0, fs_query = (\<lambda>q w k. Inr [])\<rparr>, ne_corpus = notes_store, ne_db = demo_db, ne_timed_out = (\<lambda>q. False),
     ne_ms = (\<lambda>q. 1), ne_fin = (\<lambda>qs. qs)\<rparr>"

definition plain_state :: agent_state where
  "plain_state = (init_state ''How many?'')
     \<lparr>s_rag_schema := Some False, s_rag_domain := Some False, s_skip_schema := Some True\<rparr>"

text \<open>The fields the run depends on\<close>

definition plain :: "agent_state \<Rightarrow> bool" where
  "plain s \<longleftrightarrow> s_rag_schema s = Some False \<and> s_rag_domain s = Some False \<and> s_skip_schema s = Some True
     \<and> s_decomposer_enabled s = None \<and> s_fewshot_enabled s = None \<and> s_retry_count s = None
     \<and> s_database_url s = None \<and> s_sub_questions s = None \<and> s_exec_result s = None \<and> s_max_retries s = None
     \<and> s_user_feedback s = None \<and> s_semantic_feedback s = None"

lemma plain_router: "plain s \<Longrightarrow> \<exists>s'. run_node (plain_env c) NRouter s = Inr s' \<and> plain s'"
  by (simp add: router_node_def Let_def case_prod_unfold plain_def set_latency_def)

lemma plain_schema: "plain s \<Longrightarrow> \<exists>s'. run_node (plain_env c) NSchemaRetriever s = Inr s' \<and> plain s'"
  by (simp add: schema_retriever_node_def Let_def case_prod_unfold plain_def set_latency_def fetch_chunks_def
      chunk_texts_def base_schema_def final_schema_def sample_text_def)

lemma plain_fewshot: "plain s \<Longrightarrow> \<exists>s'. run_node (plain_env c) NFewshot s = Inr s' \<and> plain s'"
  by (simp add: fewshot_selector_node_def Let_def plain_def tlog_do_def)

lemma plain_generator:
  "plain s \<Longrightarrow> \<exists>s'. run_node (plain_env demo_llm) NGenerator s = Inr s' \<and> plain s' \<and> s_sql s' = Some ''SELECT 1''
     \<and> s_candidate_sqls s' = Some []"
  by (simp add: generator_node_def generator_single_def Let_def plain_def tlog_do_def set_latency_def plain_env_def
      gen_request_of_def demo_generate_one)

lemma plain_guard:
  assumes "plain s" and "s_sql s = Some ''SELECT 1''"
  shows "\<exists>s'. run_node (plain_env c) NGuard s = Inr s' \<and> plain s' \<and> s_guard_pass s' = Some True"
proof -
  have "py_ok (\<lambda>r. sr_issues r = []) (check_safety (demo_sg demo_ast) ''SELECT 1'' (get_sqlglot_dialect None))"
    by code_simp
  moreover have "get_cached_schema_for_check l None = []" for l by (simp add: get_cached_schema_for_check_def)
  ultimately show ?thesis using assms
    by (auto simp: guard_node_def Let_def py_ok_iff plain_env_def plain_def tlog_do_def set_latency_def)
qed

lemma plain_refiner:
  assumes "plain s"
  shows "\<exists>s'. refiner_node bird corpus lookup t s = Inr s'"
proof -
  have "py_ok (\<lambda>(h, hint). h \<noteq> MISSING_COLUMN \<and> h \<noteq> MISSING_TABLE) (classify_exec_error [])" by code_simp
  then obtain h hint where c: "classify_exec_error [] = Inr (h, hint)" "h \<noteq> MISSING_COLUMN" "h \<noteq> MISSING_TABLE"
    by (auto simp: py_ok_iff)
  have e: "er_of s = ErEmpty" "exec_error_of ErEmpty = []" "s_user_feedback s = None" "s_semantic_feedback s = None"
    using assms by (simp_all add: plain_def er_of_def exec_error_of_def)
  then obtain f where "error_feedback s (refiner_sql s) = Inr f"
    by (cases "or_default [] (s_guard_issues s) = []") (auto simp: error_feedback_def feedback_source_of_def)
  moreover have "expansion_of bird corpus lookup (tlog_do g s) h = Inr None"
    and "expansion_of bird corpus lookup s h = Inr None" for g
    using c e by (simp_all add: expansion_of_def wants_expansion_def tlog_do_def)
  ultimately show ?thesis using c(1) e by (simp add: refiner_node_def Let_def)
qed

lemma plain_voter: "plain s \<Longrightarrow> \<exists>s'. run_node (plain_env c) NVoter s = Inr s'"
  by (auto simp: voter_node_def Let_def plain_def db_url_def split: prod.split)

lemma silent_semantic:
  assumes "run_node (plain_env silent_llm) NSemantic s = Inr s'"
  shows "s_semantic_pass s' = Some True"
proof -
  obtain p where p: "semantic_prompt s (or_default [] (s_sql s)) = Inr p" using semantic_prompt_ok by blast
  show ?thesis using assms p
    by (auto simp: semantic_check_node_def Let_def plain_env_def silent_llm_def set_latency_def split: if_splits)
qed

lemma run_over_plain: "run_over (demo_sg demo_ast) (plain_env c) = run_node (plain_env c)"
  by (simp add: run_over_def plain_env_def)

lemma plain_run:
  "\<exists>s. reach next_full (run_over (demo_sg demo_ast)) (At NRouter plain_state) (Done s) \<and> s_guard_pass s = Some True"
proof -
  let ?env = "\<lambda>i. if i < 6 then plain_env demo_llm else plain_env silent_llm"
  have "plain plain_state" by (simp add: plain_def plain_state_def init_state_def)
  then obtain s1 where 1: "run_node (plain_env demo_llm) NRouter plain_state = Inr s1" "plain s1"
    using plain_router by blast
  obtain s2 where 2: "run_node (plain_env demo_llm) NSchemaRetriever s1 = Inr s2" "plain s2"
    using plain_schema 1 by blast
  obtain s3 where 3: "run_node (plain_env demo_llm) NFewshot s2 = Inr s3" "plain s3"
    using plain_fewshot 2 by blast
  obtain s4 where 4: "run_node (plain_env demo_llm) NGenerator s3 = Inr s4" "plain s4" "s_sql s4 = Some ''SELECT 1''"
    using plain_generator 3 by blast
  obtain s5 where 5: "run_node (plain_env demo_llm) NGuard s4 = Inr s5" "plain s5" "s_guard_pass s5 = Some True"
    using plain_guard 4 by blast
  obtain s6 where 6: "run_node (plain_env demo_llm) NVoter s5 = Inr s6" using plain_voter 5 by blast
  obtain s7 where 7: "run_node (plain_env silent_llm) NSemantic s6 = Inr s7"
    using semantic_check_total by (metis run_node.simps(8))
  have "s_guard_pass s7 = Some True" using run_node_view(5) [OF 6] run_node_view(5) [OF 7] 5(3) by simp
  moreover have "route_after_schema s2 = To NFewshot" "route_after_guard s5 = To NVoter"
      "route_after_voter s6 = To NSemantic" "route_after_semantic s7 = GEnd"
    using 2 5 pipe.voter_succeeds [OF 6] silent_semantic [OF 7]
    by (simp_all add: route_after_schema_def plain_def route_after_guard_def route_after_semantic_def)
  then have "graph_run next_full (\<lambda>i. run_over (demo_sg demo_ast) (?env i)) 7 0 (At NRouter plain_state)
      = ([NRouter, NSchemaRetriever, NFewshot, NGenerator, NGuard, NVoter, NSemantic], Done s7)"
    by (simp add: eval_nat_numeral exec_node_def conf_of_def run_over_plain 1 2 3 4 5 6 7 del: run_node.simps)
  then have "reach next_full (run_over (demo_sg demo_ast)) (At NRouter plain_state) (Done s7)"
    by (rule graph_run_reach)
  ultimately show ?thesis by blast
qed

subsection \<open>Properties\<close>

text \<open>C15: Refinement. Every execution of the full graph is an execution of the rounds: whatever the
  model, the database and the stores answer, the nodes run in the order of \<open>round_step\<close>, in which
  the voter always hands over to the semantic check, the rounds are used up one by one, and the
  generator only runs again while one is left.\<close>

theorem pipeline_refines_rounds:
  assumes "reach next_full run_node c0 c"
  shows "round_step\<^sup>*\<^sup>* (abs_conf c0) (abs_conf c)"
  using assms
  by (induction rule: reach.induct) (auto intro: rtranclp.rtrancl_into_rtrancl dest: pipe.full_refines)

theorem pipeline_refines_rounds_witness:
  "round_step\<^sup>*\<^sup>* (Round NRouter 2) Finished"
proof -
  have "\<exists>s. reach next_full run_node (At NRouter plain_state) (Done s)"
  proof -
    obtain s where "reach next_full (run_over (demo_sg demo_ast)) (At NRouter plain_state) (Done s)"
      using plain_run by blast
    then have "reach next_full run_node (At NRouter plain_state) (Done s)"
      by (induction rule: reach.induct) (auto intro: reach.intros run_over_step)
    then show ?thesis by blast
  qed
  then obtain s where "reach next_full run_node (At NRouter plain_state) (Done s)" by blast
  from pipeline_refines_rounds [OF this] show ?thesis
    by (simp add: rounds_left_def plain_state_def init_state_def)
qed

text \<open>C16: The graph always ends. Whatever the nodes meet at each step, after at most
  \<open>10 + 6 * rounds\<close> nodes, where \<open>rounds = max_retries - retry_count\<close>, the run has returned or raised,
  and the generator has run at most \<open>rounds + 1\<close> times. With the two retries the worker asks for
  this is 22 nodes, below the 25 the graph library allows by default.\<close>

theorem pipeline_terminates:
  "case graph_run next_full (\<lambda>i. run_node (env i)) (10 + 6 * rounds_left s) 0 (At NRouter s) of
     (tr, c) \<Rightarrow> length tr \<le> 10 + 6 * rounds_left s \<and> count_list tr NGenerator \<le> rounds_left s + 1
       \<and> (case c of At n s' \<Rightarrow> False | Done s' \<Rightarrow> True | Raised e \<Rightarrow> True)"
proof (cases "graph_run next_full (\<lambda>i. run_node (env i)) (10 + 6 * rounds_left s) 0 (At NRouter s)")
  case (Pair tr c)
  from pipe.run_bounded [OF pipe.full_refines _ Pair] show ?thesis
    by (auto simp: Pair split: conf.split)
qed

text \<open>C18: The feedback graph is the full graph entered at the refiner: both graphs run the same nodes
  on the same states and end alike, with the same number of steps.\<close>

theorem feedback_graph_is_full_graph_from_refiner:
  "graph_run next_feedback run f i (At NRefiner s) = graph_run next_full run f i (At NRefiner s)"
  by (rule feedback_run) (simp add: in_loop_def)

text \<open>C17: What a finished run of the full graph leaves behind. A stored result is either a vote of the
  model without execution or the successful execution of a query that satisfies \<open>safe_sql\<close>; if the
  last guard check passed, the result belongs to the query that is returned; and the run ended
  because guard and semantic check passed or because the rounds were used up.\<close>

theorem pipeline_result_safe:
  assumes "reach next_full (run_over sg) (At NRouter s0) (Done s)" and "s_exec_result s0 = None"
  shows "backed sg s \<and> (s_guard_pass s = Some True \<longrightarrow> settled s) \<and>
    (s_guard_pass s = Some True \<and> s_semantic_pass s = Some True \<or> exhausted s)"
proof -
  have "conf_ok sg (At NRouter s0)" using assms(2) by (simp add: backed_def)
  from conf_ok_reach [OF assms(1) this] show ?thesis by simp
qed

theorem pipeline_result_safe_witness:
  "\<exists>s. reach next_full (run_over (demo_sg demo_ast)) (At NRouter plain_state) (Done s) \<and> settled s"
proof -
  have "s_exec_result plain_state = None" by (simp add: plain_state_def init_state_def)
  then show ?thesis using plain_run pipeline_result_safe by blast
qed

text \<open>A guard failure never reaches the model. The generator clears \<open>last_sql\<close>, the refiner prefers
  that empty text over the rejected query, and the generator prints its correction section only
  when both texts are there: after generator, guard and refiner there is a correction text, but
  the prompt of the next round is the same whatever it says.\<close>

theorem guard_feedback_lost:
  assumes "generator_node cfg rules chat cb tg s = Inr s1" and "guard_node sg lookup t s1 = Inr s2"
    and "refiner_node bird corpus rl tr s2 = Inr s3"
  shows "or_default [] (s_last_error s3) \<noteq> [] \<and>
    user_parts ((gen_request_of (after_refiner s3))\<lparr>gq_last_error := x\<rparr>) = user_parts (gen_request_of (after_refiner s3))"
proof -
  have "s_last_sql s2 = Some []"
    using generator_node_keeps(6) [OF assms(1)] guard_node_frame(5) [OF assms(2)] by simp
  then have q: "refiner_sql s2 = []" by (simp add: refiner_sql_def)
  obtain feedback h y s' where "s3 = refined s2 tr s' (correction_header (or_default 0 (s_retry_count s2) + 1)
           (or_default 2 (s_max_retries s2) + 1) @ feedback) h y"
    by (rule refiner_node_Inr [OF assms(3)])
  then have "s_last_sql s3 = Some []" and "or_default [] (s_last_error s3) \<noteq> []"
    using q by (simp_all add: refined_fields correction_header_def)
  then show ?thesis
    by (simp add: user_parts_def gen_request_of_def after_refiner_def)
qed

theorem guard_feedback_lost_witness:
  "\<exists>s2 s3. s_guard_pass s2 = Some False \<and> refiner_node notes_store notes_store (\<lambda>u. Inr []) tick s2 = Inr s3 \<and>
     user_parts ((gen_request_of (after_refiner s3))\<lparr>gq_last_error := ''x''\<rparr>) = user_parts (gen_request_of (after_refiner s3))"
proof -
  have "plain plain_state" by (simp add: plain_def plain_state_def init_state_def)
  then obtain s1 where s1: "generator_node demo_cfg [] demo_llm False tick plain_state = Inr s1" "plain s1"
      "s_sql s1 = Some ''SELECT 1''"
    using plain_generator by (force simp: plain_env_def)
  have "py_ok (\<lambda>r. sr_issues r \<noteq> []) (check_safety failing_sg ''SELECT 1'' (get_sqlglot_dialect None))"
    by code_simp
  then obtain s2 where s2: "guard_node failing_sg demo_lookup tick s1 = Inr s2" "plain s2" "s_guard_pass s2 = Some False"
    using s1(2,3) by (auto simp: guard_node_def Let_def py_ok_iff plain_def tlog_do_def set_latency_def)
  obtain s3 where s3: "refiner_node notes_store notes_store (\<lambda>u. Inr []) tick s2 = Inr s3"
    using plain_refiner s2(2) by blast
  from guard_feedback_lost [OF s1(1) s2(1) s3] s2(3) s3 show ?thesis by blast
qed

text \<open>When the rounds are used up and the last query fails the guard, the run still ends normally, and
  the final state pairs the rejected query with whatever result an earlier round left.\<close>

theorem rejected_query_keeps_old_result:
  assumes "guard_node (ne_sg env) (re_lookup (ne_retr env)) (ne_clock env) s = Inr s1" and "s_guard_pass s1 = Some False"
    and "refiner_node (re_query (ne_retr env)) (ne_corpus env) (re_lookup (ne_retr env)) (ne_clock env) s1 = Inr s2"
    and "rounds_left s = 0"
  shows "graph_run next_full (\<lambda>i. run_node env) 3 0 (At NGuard s) = ([NGuard, NRefiner, NPostRefiner], Done (after_refiner s2))
    \<and> s_sql (after_refiner s2) = s_sql s \<and> s_exec_result (after_refiner s2) = s_exec_result s"
proof -
  have r: "run_node env NGuard s = Inr s1" "run_node env NRefiner s1 = Inr s2" using assms(1,3) by simp_all
  note v = run_node_view [OF r(1)] run_node_view [OF r(2)]
  have "rounds_left s2 = 0"
    using pipe.keeps_rounds [OF r(1)] pipe.keeps_rounds [OF r(2)] assms(4) by simp
  then have "route_after_refiner (after_refiner s2) = GEnd"
    by (simp add: route_after_refiner_def after_refiner_def rounds_left_def)
  then have "graph_run next_full (\<lambda>i. run_node env) 3 0 (At NGuard s) = ([NGuard, NRefiner, NPostRefiner], Done (after_refiner s2))"
    using assms(2) r
    by (simp add: eval_nat_numeral exec_node_def conf_of_def route_after_guard_def del: run_node.simps(1-9))
  then show ?thesis using v by (simp add: after_refiner_def)
qed

text \<open>The query of the last round is rejected, an earlier round had succeeded.\<close>

definition stale_state :: agent_state where
  "stale_state = (init_state ''Which orders are late?'')
     \<lparr>s_sql := Some ''DROP TABLE orders'', s_last_sql := Some [], s_retry_count := Some 2, s_rag_k_expanded := Some 16,
      s_exec_result := Some (Some ((ok_result [''1''] [[PInt 1]])\<lparr>er_sql := Some ''SELECT 1''\<rparr>))\<rparr>"

theorem rejected_query_keeps_old_result_witness:
  "\<exists>s. graph_run next_full (\<lambda>i. run_node (plain_env silent_llm)) 3 0 (At NGuard stale_state)
       = ([NGuard, NRefiner, NPostRefiner], Done s)
     \<and> s_sql s = Some ''DROP TABLE orders'' \<and> s_exec_result s = s_exec_result stale_state"
proof -
  let ?g = "guard_node (demo_sg demo_ast) (re_lookup shop_env) tick"
  let ?r = "refiner_node (re_query shop_env) notes_store (re_lookup shop_env) tick"
  have "node_ok (\<lambda>s1. s_guard_pass s1 = Some False) (?g stale_state)"
    and "node_ok (\<lambda>s1. node_ok (\<lambda>s2. True) (?r s1)) (?g stale_state)"
    by code_simp+
  then obtain s1 s2 where "?g stale_state = Inr s1" "s_guard_pass s1 = Some False" "?r s1 = Inr s2"
    by (auto simp: node_ok_iff)
  then show ?thesis
    using rejected_query_keeps_old_result [of "plain_env silent_llm" stale_state s1 s2]
    by (auto simp: plain_env_def rounds_left_def stale_state_def init_state_def)
qed

text \<open>The guard checks one query, the voter chooses among all candidates. Without a database the
  candidate the model names is returned although the guard would have rejected it.\<close>

definition naming_llm :: llm where
  "naming_llm = \<lparr>llm_invoke = (\<lambda>sys user temp. Inr \<lparr>lr_content = ''1'', lr_usage = []\<rparr>),
     llm_stream = (\<lambda>sys user temp. Inr [])\<rparr>"

definition two_candidates :: agent_state where
  "two_candidates = (init_state ''How many?'')
     \<lparr>s_sql := Some ''SELECT 1'', s_candidate_sqls := Some [''SELECT 1'', ''DROP TABLE users'']\<rparr>"

theorem unguarded_candidate_returned:
  "\<exists>s1 s2. run_node (plain_env naming_llm) NGuard two_candidates = Inr s1 \<and> next_full NGuard s1 = To NVoter
     \<and> run_node (plain_env naming_llm) NVoter s1 = Inr s2 \<and> s_sql s2 = Some ''DROP TABLE users''
     \<and> s_guard_pass s2 = Some True \<and> \<not> safe_sql (demo_sg demo_ast) ''DROP TABLE users'' ''sqlite''"
proof -
  have "node_ok (\<lambda>s1. next_full NGuard s1 = To NVoter \<and> node_ok (\<lambda>s2. s_sql s2 = Some ''DROP TABLE users''
        \<and> s_guard_pass s2 = Some True) (run_node (plain_env naming_llm) NVoter s1))
      (run_node (plain_env naming_llm) NGuard two_candidates)"
    and "py_ok (\<lambda>r. \<not> sr_valid r) (check_safety (demo_sg demo_ast) ''DROP TABLE users'' ''sqlite'')"
    by code_simp+
  then show ?thesis
    using check_safety_valid_iff [of "demo_sg demo_ast" "''DROP TABLE users''" "''sqlite''"]
    by (auto simp: node_ok_iff py_ok_iff)
qed

end
