(* ===== verification/Broker.thy ===== *)
theory Broker
  imports Json
begin

text \<open>
  \<open>infrastructure/broker.py\<close>: the message envelope and the Kafka client. The reachability of Kafka and
  the fate of each message are parameters of the broker.
\<close>

definition TOPIC_REQUEST :: string where "TOPIC_REQUEST = ''nl2sql.task.request''"
definition TOPIC_STATUS :: string where "TOPIC_STATUS = ''nl2sql.task.status''"
definition TOPIC_RESULT :: string where "TOPIC_RESULT = ''nl2sql.task.result''"
definition TOPIC_DLQ :: string where "TOPIC_DLQ = ''nl2sql.task.dlq''"
definition TOPIC_FEEDBACK :: string where "TOPIC_FEEDBACK = ''nl2sql.task.feedback''"

definition ALL_TOPICS :: "string list" where
  "ALL_TOPICS = [TOPIC_REQUEST, TOPIC_STATUS, TOPIC_RESULT, TOPIC_DLQ, TOPIC_FEEDBACK]"

subsection \<open>TaskMessage\<close>

text \<open>Nothing checks the types of what arrives.\<close>

record task_message =
  tm_task_id :: pyv
  tm_event :: pyv
  tm_payload :: pyv

definition to_json :: "task_message \<Rightarrow> string" where
  "to_json m = json_dumps (PDict [(''task_id'', tm_task_id m), (''event'', tm_event m), (''payload'', tm_payload m)])"

definition py_item :: "pyv \<Rightarrow> string \<Rightarrow> pyv py" where
  "py_item v k =
     (case v of
        PDict d \<Rightarrow> (case d_get d k of None \<Rightarrow> Inl (PyExc ''KeyError'' ([CHR 0x27] @ k @ [CHR 0x27])) | Some x \<Rightarrow> Inr x)
      | _ \<Rightarrow> Inl (PyExc ''TypeError'' (py_type_name v @ '' indices must be integers or slices, not str'')))"

definition from_json :: "string \<Rightarrow> task_message py" where
  "from_json raw =
     py_bind (json_loads raw) (\<lambda>d.
     py_bind (py_item d ''task_id'') (\<lambda>tid.
     py_bind (py_item d ''event'') (\<lambda>event.
       case d of
         PDict e \<Rightarrow> Inr \<lparr>tm_task_id = tid, tm_event = event, tm_payload = d_get_or e ''payload'' (PDict [])\<rparr>
       | _ \<Rightarrow> Inl (no_attribute d ''get''))))"

definition message :: "string \<Rightarrow> string \<Rightarrow> pydict \<Rightarrow> task_message" where
  "message tid event payload = \<lparr>tm_task_id = PStr tid, tm_event = PStr event, tm_payload = PDict payload\<rparr>"

subsection \<open>Publishing\<close>

text \<open>\<open>bk_accepts\<close>: whether \<open>future.get\<close> confirms a record (topic, key, value) within its timeout.\<close>

record broker =
  bk_connected :: bool
  bk_producer :: bool                  \<comment> \<open>\<open>_producer\<close> exists\<close>
  bk_can_create :: bool
  bk_accepts :: "string \<times> string \<times> string \<Rightarrow> bool"
  bk_sent :: "(string \<times> string \<times> string) list"

definition get_producer :: "broker \<Rightarrow> bool \<times> broker" where
  "get_producer b =
     (if \<not> bk_connected b then (False, b)
      else if bk_producer b then (True, b)
      else if bk_can_create b then (True, b\<lparr>bk_producer := True\<rparr>) else (False, b))"

text \<open>A key that is not a string fails inside the guarded block, like any other error.\<close>

definition publish :: "string \<Rightarrow> task_message \<Rightarrow> broker \<Rightarrow> bool \<times> broker" where
  "publish topic msg b =
     (if \<not> bk_connected b then (False, b)
      else let (ok, b1) = get_producer b
      in if \<not> ok then (False, b1)
         else (case tm_task_id msg of
             PStr key \<Rightarrow>
               let record = (topic, key, to_json msg)
               in if bk_accepts b record then (True, b1\<lparr>bk_sent := bk_sent b1 @ [record]\<rparr>) else (False, b1)
           | _ \<Rightarrow> (False, b1)))"

definition create_topics :: "string list \<Rightarrow> string list \<Rightarrow> broker \<Rightarrow> string list" where
  "create_topics existing topics b =
     (if \<not> bk_connected b then existing else existing @ filter (\<lambda>t. t \<notin> set existing) topics)"

definition close_broker :: "broker \<Rightarrow> broker" where
  "close_broker b = b\<lparr>bk_producer := False\<rparr>"

text \<open>The constructor probes the connection: the topics the admin client lists, or the exception it ends with.
  Nobody calls \<open>_try_connect\<close> again, and \<open>get_broker\<close> makes one object for the process.\<close>

definition try_connect :: "string list py \<Rightarrow> broker \<Rightarrow> bool \<times> broker" where
  "try_connect probe b =
     (case probe of Inl e \<Rightarrow> (False, b\<lparr>bk_connected := False\<rparr>) | Inr topics \<Rightarrow> (True, b\<lparr>bk_connected := True\<rparr>))"

definition new_broker :: "string list py \<Rightarrow> bool \<Rightarrow> (string \<times> string \<times> string \<Rightarrow> bool) \<Rightarrow> broker" where
  "new_broker probe can_create accepts = snd (try_connect probe
     \<lparr>bk_connected = False, bk_producer = False, bk_can_create = can_create, bk_accepts = accepts, bk_sent = []\<rparr>)"

definition get_broker :: "broker \<Rightarrow> broker option \<Rightarrow> broker \<times> broker option" where
  "get_broker fresh st = (case st of None \<Rightarrow> (fresh, Some fresh) | Some b \<Rightarrow> (b, st))"

text \<open>A process that starts without the message server publishes nothing for the rest of its life.\<close>

lemma never_reconnects:
  assumes "\<not> bk_connected b"
  shows "\<not> bk_connected (fold (\<lambda>(topic, msg) b. snd (publish topic msg b)) ms b)
    \<and> bk_sent (fold (\<lambda>(topic, msg) b. snd (publish topic msg b)) ms b) = bk_sent b"
proof -
  have "snd (publish topic msg b) = b" for topic msg using assms by (simp add: publish_def)
  then have "fold (\<lambda>(topic, msg) b. snd (publish topic msg b)) ms b = b"
    by (induction ms) (simp_all split: prod.split)
  then show ?thesis using assms by simp
qed

lemma publish_sent: "bk_sent (snd (publish topic msg b)) =
    (if fst (publish topic msg b)
     then bk_sent b @ [(topic, (case tm_task_id msg of PStr k \<Rightarrow> k | _ \<Rightarrow> []), to_json msg)] else bk_sent b)"
  by (auto simp: publish_def get_producer_def Let_def split: pyv.split)

subsection \<open>Consuming\<close>

text \<open>\<open>subscribe\<close>: the iterator moves one record at a time; a commit stores the position reached; an
  error only skips the commit. The result is the final world and the committed position.\<close>

fun subscribe_loop ::
  "(task_message \<Rightarrow> 'w \<Rightarrow> (py_exc \<times> 'w) + 'w) \<Rightarrow> string list \<Rightarrow> nat \<Rightarrow> nat \<Rightarrow> 'w \<Rightarrow> 'w \<times> nat" where
  "subscribe_loop cb [] pos committed w = (w, committed)"
| "subscribe_loop cb (raw # rs) pos committed w =
     (case from_json raw of
        Inl e \<Rightarrow> subscribe_loop cb rs (Suc pos) committed w
      | Inr msg \<Rightarrow> (case cb msg w of
          Inl (e, w') \<Rightarrow> subscribe_loop cb rs (Suc pos) committed w'
        | Inr w' \<Rightarrow> subscribe_loop cb rs (Suc pos) (Suc pos) w'))"

definition subscribe ::
  "broker \<Rightarrow> (task_message \<Rightarrow> 'w \<Rightarrow> (py_exc \<times> 'w) + 'w) \<Rightarrow> string list \<Rightarrow> 'w \<Rightarrow> 'w \<times> nat" where
  "subscribe b cb records w = (if bk_connected b then subscribe_loop cb records 0 0 w else (w, 0))"

lemma subscribe_loop_append:
  "subscribe_loop cb (xs @ ys) pos com w =
     (case subscribe_loop cb xs pos com w of (w', com') \<Rightarrow> subscribe_loop cb ys (pos + length xs) com' w')"
  by (induction cb xs pos com w rule: subscribe_loop.induct) (auto split: sum.splits prod.splits)

subsection \<open>Properties\<close>

lemma from_to_json:
  assumes "json_value (tm_task_id m)" and "json_value (tm_event m)" and "json_value (tm_payload m)"
  shows "from_json (to_json m) = Inr m"
proof -
  have "json_loads (to_json m) = Inr (PDict [(''task_id'', tm_task_id m), (''event'', tm_event m), (''payload'', tm_payload m)])"
    unfolding to_json_def by (rule json_dumps_loads) (use assms in simp)
  then show ?thesis by (simp add: from_json_def py_item_def d_get_def d_get_or_def)
qed

text \<open>Round trip. Every message whose identifier, event and payload are JSON values is the same
  message after \<open>to_json\<close> and \<open>from_json\<close>.\<close>

theorem message_roundtrip:
  assumes "json_value (tm_task_id m)" and "json_value (tm_event m)" and "json_value (tm_payload m)"
  shows "from_json (to_json m) = Inr m"
  by (rule from_to_json [OF assms])

definition demo_message :: task_message where
  "demo_message = message ''a1'' ''submitted'' [(''question'', PStr ''How many?''), (''rag_k'', PInt 8), (''rag_hybrid'', PBool True)]"

theorem message_roundtrip_witness: "from_json (to_json demo_message) = Inr demo_message"
  by (rule message_roundtrip) (simp_all add: demo_message_def message_def)

text \<open>A message whose handler fails is not delivered again when a later one succeeds: the commit of
  the later message covers it. (The loop comments that an uncommitted message is retried.)\<close>

theorem failed_message_lost:
  assumes "bk_connected b" and "from_json good = Inr m" and "\<And>w. cb m w = Inr (f w)"
  shows "snd (subscribe b cb (rs @ [good]) w) = Suc (length rs)"
  using assms
  by (auto simp: subscribe_def subscribe_loop_append split: prod.split)

theorem failed_message_lost_witness:
  "snd (subscribe \<lparr>bk_connected = True, bk_producer = False, bk_can_create = True, bk_accepts = (\<lambda>r. True), bk_sent = []\<rparr>
     (\<lambda>m (w :: unit). Inr w) [''not json'', to_json demo_message] ()) = 2"
proof -
  have "from_json (to_json demo_message) = Inr demo_message"
    by (rule from_to_json) (simp_all add: demo_message_def message_def)
  then show ?thesis
    using failed_message_lost [of _ "to_json demo_message" demo_message "\<lambda>m (w :: unit). Inr w" "\<lambda>w. w" "[''not json'']" "()"]
    by simp
qed

end
