(* ===== verification/IsoTime.thy ===== *)
theory IsoTime
  imports Prelude Complex_Main
begin

text \<open>
  The part of \<open>datetime\<close> the task store uses: UTC time stamps, \<open>isoformat\<close>, \<open>fromisoformat\<close> on
  the texts \<open>isoformat\<close> writes, and the difference of two stamps in seconds.
\<close>

record datetime =
  dt_year :: nat
  dt_month :: nat
  dt_day :: nat
  dt_hour :: nat
  dt_minute :: nat
  dt_second :: nat
  dt_micro :: nat

definition leap :: "nat \<Rightarrow> bool" where
  "leap y \<longleftrightarrow> y mod 4 = 0 \<and> (y mod 100 \<noteq> 0 \<or> y mod 400 = 0)"

definition month_days :: "nat \<Rightarrow> nat \<Rightarrow> nat" where
  "month_days y m = (if m = 2 then (if leap y then 29 else 28) else if m \<in> {4, 6, 9, 11} then 30 else 31)"

definition valid_dt :: "datetime \<Rightarrow> bool" where
  "valid_dt d \<longleftrightarrow> 1 \<le> dt_year d \<and> dt_year d \<le> 9999 \<and> 1 \<le> dt_month d \<and> dt_month d \<le> 12
     \<and> 1 \<le> dt_day d \<and> dt_day d \<le> month_days (dt_year d) (dt_month d)
     \<and> dt_hour d < 24 \<and> dt_minute d < 60 \<and> dt_second d < 60 \<and> dt_micro d < 1000000"

text \<open>\<open>toordinal\<close>, and the difference \<open>(a - b).total_seconds()\<close>\<close>

definition toordinal :: "datetime \<Rightarrow> nat" where
  "toordinal d =
     (let p = dt_year d - 1
      in p * 365 + p div 4 - p div 100 + p div 400
           + sum_list (map (month_days (dt_year d)) [1..<dt_month d]) + dt_day d)"

definition micros :: "datetime \<Rightarrow> int" where
  "micros d = int (((toordinal d * 86400 + dt_hour d * 3600 + dt_minute d * 60 + dt_second d) * 1000000) + dt_micro d)"

definition seconds_between :: "datetime \<Rightarrow> datetime \<Rightarrow> rat" where
  "seconds_between a b = of_int (micros a - micros b) / 1000000"

subsection \<open>Text\<close>

fun pad :: "nat \<Rightarrow> nat \<Rightarrow> string" where
  "pad 0 n = []"
| "pad (Suc k) n = pad k (n div 10) @ [chr_of (48 + n mod 10)]"

definition isoformat :: "datetime \<Rightarrow> string" where
  "isoformat d =
     pad 4 (dt_year d) @ ''-'' @ pad 2 (dt_month d) @ ''-'' @ pad 2 (dt_day d) @ ''T''
     @ pad 2 (dt_hour d) @ '':'' @ pad 2 (dt_minute d) @ '':'' @ pad 2 (dt_second d)
     @ (if dt_micro d = 0 then [] else ''.'' @ pad 6 (dt_micro d)) @ ''+00:00''"

definition digits_at :: "nat \<Rightarrow> nat \<Rightarrow> string \<Rightarrow> nat option" where
  "digits_at i k s =
     (let t = take k (drop i s) in if length t = k \<and> list_all is_digit_char t then Some (parse_nat t) else None)"

text \<open>The other formats \<open>fromisoformat\<close> knows are never written by this program.\<close>

definition fromisoformat :: "string \<Rightarrow> datetime option" where
  "fromisoformat s =
     (let mic = (if drop 19 s = ''+00:00'' then Some 0
                 else if take 1 (drop 19 s) = ''.'' \<and> drop 26 s = ''+00:00'' then digits_at 20 6 s else None)
      in case (digits_at 0 4 s, digits_at 5 2 s, digits_at 8 2 s, digits_at 11 2 s, digits_at 14 2 s, digits_at 17 2 s, mic) of
           (Some y, Some mo, Some d, Some h, Some mi, Some sec, Some us) \<Rightarrow>
             let dt = \<lparr>dt_year = y, dt_month = mo, dt_day = d, dt_hour = h, dt_minute = mi, dt_second = sec, dt_micro = us\<rparr>
             in if valid_dt dt \<and> s ! 4 = CHR ''-'' \<and> s ! 7 = CHR ''-'' \<and> s ! 10 = CHR ''T'' \<and> s ! 13 = CHR '':'' \<and> s ! 16 = CHR '':''
                then Some dt else None
         | _ \<Rightarrow> None)"

lemma length_pad [simp]: "length (pad k n) = k"
  by (induction k arbitrary: n) simp_all

lemma pad_digits [simp]: "list_all is_digit_char (pad k n)"
proof (induction k arbitrary: n)
  case (Suc k)
  have "is_digit_char (chr_of (48 + n mod 10))" by (simp add: is_digit_char_def)
  then show ?case using Suc by simp
qed simp

lemma parse_nat_pad: "parse_nat (pad k n) = n mod 10 ^ k"
proof (induction k arbitrary: n)
  case 0
  then show ?case by (simp add: parse_nat_def)
next
  case (Suc k)
  have "parse_nat (pad (Suc k) n) = parse_nat (pad k (n div 10)) * 10 + n mod 10"
    by (simp add: parse_nat_def digit_val_def)
  also have "\<dots> = (n div 10 mod 10 ^ k) * 10 + n mod 10" by (simp add: Suc)
  also have "\<dots> = n mod 10 ^ Suc k" by (simp add: mod_mult2_eq)
  finally show ?case .
qed

lemma digits_at_pad: "length p = i \<Longrightarrow> n < 10 ^ k \<Longrightarrow> digits_at i k (p @ pad k n @ s) = Some n"
  by (simp add: digits_at_def parse_nat_pad)

text \<open>\<open>fromisoformat\<close> reads what \<open>isoformat\<close> writes.\<close>

lemma iso_fields:
  assumes "valid_dt d"
  shows "digits_at 0 4 (isoformat d) = Some (dt_year d)" "digits_at 5 2 (isoformat d) = Some (dt_month d)"
    "digits_at 8 2 (isoformat d) = Some (dt_day d)" "digits_at 11 2 (isoformat d) = Some (dt_hour d)"
    "digits_at 14 2 (isoformat d) = Some (dt_minute d)" "digits_at 17 2 (isoformat d) = Some (dt_second d)"
    "dt_micro d \<noteq> 0 \<Longrightarrow> digits_at 20 6 (isoformat d) = Some (dt_micro d)"
proof -
  have "month_days (dt_year d) (dt_month d) \<le> 31" by (simp add: month_days_def)
  then have b: "dt_year d < 10 ^ 4" "dt_month d < 10 ^ 2" "dt_day d < 10 ^ 2" "dt_hour d < 10 ^ 2"
    "dt_minute d < 10 ^ 2" "dt_second d < 10 ^ 2" "dt_micro d < 10 ^ 6"
    using assms by (auto simp: valid_dt_def)
  let ?y = "pad 4 (dt_year d) @ ''-''" and ?m = "pad 2 (dt_month d) @ ''-''" and ?d = "pad 2 (dt_day d) @ ''T''"
  let ?h = "pad 2 (dt_hour d) @ '':''" and ?mi = "pad 2 (dt_minute d) @ '':''"
  note at = digits_at_pad [OF _ b(1), of "[]"] digits_at_pad [OF _ b(2), of ?y]
    digits_at_pad [OF _ b(3), of "?y @ ?m"] digits_at_pad [OF _ b(4), of "?y @ ?m @ ?d"]
    digits_at_pad [OF _ b(5), of "?y @ ?m @ ?d @ ?h"] digits_at_pad [OF _ b(6), of "?y @ ?m @ ?d @ ?h @ ?mi"]
    digits_at_pad [OF _ b(7), of "?y @ ?m @ ?d @ ?h @ ?mi @ pad 2 (dt_second d) @ ''.''"]
  show "digits_at 0 4 (isoformat d) = Some (dt_year d)" "digits_at 5 2 (isoformat d) = Some (dt_month d)"
    "digits_at 8 2 (isoformat d) = Some (dt_day d)" "digits_at 11 2 (isoformat d) = Some (dt_hour d)"
    "digits_at 14 2 (isoformat d) = Some (dt_minute d)" "digits_at 17 2 (isoformat d) = Some (dt_second d)"
    "dt_micro d \<noteq> 0 \<Longrightarrow> digits_at 20 6 (isoformat d) = Some (dt_micro d)"
    using at by (simp_all add: isoformat_def)
qed

lemma drop_pad [simp]: "k \<le> i \<Longrightarrow> drop i (pad k n @ s) = drop (i - k) s"
  by simp

lemma iso_rest:
  "drop 19 (isoformat d) = (if dt_micro d = 0 then [] else ''.'' @ pad 6 (dt_micro d)) @ ''+00:00''"
  "isoformat d ! 4 = CHR ''-''" "isoformat d ! 7 = CHR ''-''" "isoformat d ! 10 = CHR ''T''"
  "isoformat d ! 13 = CHR '':''" "isoformat d ! 16 = CHR '':''"
  by (simp_all add: isoformat_def nth_append nth_Cons')

lemma fromisoformat_isoformat: "valid_dt d \<Longrightarrow> fromisoformat (isoformat d) = Some d"
proof -
  assume v: "valid_dt d"
  have "drop 26 (isoformat d) = drop 7 (drop 19 (isoformat d))" by simp
  then have d26: "dt_micro d \<noteq> 0 \<Longrightarrow> drop 26 (isoformat d) = ''+00:00''"
    by (simp add: iso_rest del: drop_drop)
  show ?thesis
    using iso_fields [OF v] v d26 iso_rest [of d]
    by (cases "dt_micro d = 0"; cases d; simp add: fromisoformat_def Let_def)
qed

end
