(* ===== verification/TaskStore.thy ===== *)
theory TaskStore
  imports Json IsoTime
begin

text \<open>
  \<open>infrastructure/task_store.py\<close>: the state of a task in Redis. The store is a parameter, the record
  \<open>kv\<close> of the operations the code calls; what the code relies on is the locale \<open>kv_store\<close>. A store
  that could not be reached when the process first asked for it is \<open>None\<close>, and then every operation does nothing.

  The operations are stated for a connection that holds. \<open>get_redis\<close> keeps the client after one ping, so a
  connection that is lost later makes the next command raise out of the operation. An operation issues
  reads and then at most one write, so \<open>run_linked\<close> gives what such a loss leaves behind: the store as it
  was, or, if only the reply got lost, as the operation would have left it. Each operation is one
  step: that other processes may write between the reads of a transition and its write is shown
  apart, by \<open>transition_checked_at\<close>. The handlers of the worker and the endpoints, in the theories that
  use these operations, run over a connection that holds.
\<close>

subsection \<open>The store\<close>

record 'r kv =
  kv_get :: "string \<Rightarrow> 'r \<Rightarrow> string option"
  kv_setex :: "string \<Rightarrow> nat \<Rightarrow> string \<Rightarrow> 'r \<Rightarrow> 'r"
  kv_delete :: "string \<Rightarrow> 'r \<Rightarrow> 'r"
  kv_publish :: "string \<Rightarrow> string \<Rightarrow> 'r \<Rightarrow> 'r"

text \<open>\<open>wait n\<close> lets \<open>n\<close> seconds pass. A key set with a time to live \<open>t\<close> is there for less than \<open>t\<close> seconds.\<close>

locale kv_store =
  fixes K :: "'r kv" and wait :: "nat \<Rightarrow> 'r \<Rightarrow> 'r"
  assumes get_setex: "0 < t \<Longrightarrow> kv_get K k (kv_setex K k' t v r) = (if k = k' then Some v else kv_get K k r)"
    and get_delete: "kv_get K k (kv_delete K k' r) = (if k = k' then None else kv_get K k r)"
    and get_publish: "kv_get K k (kv_publish K ch v r) = kv_get K k r"
    and get_wait_setex: "0 < t \<Longrightarrow> kv_get K k (wait n (kv_setex K k t v r)) = (if n < t then Some v else None)"
    and get_wait: "kv_get K k (wait n r) \<in> {None, kv_get K k r}"
    and get_wait_other: "k \<noteq> k' \<Longrightarrow> kv_get K k (wait n (kv_setex K k' t v r)) = kv_get K k (wait n r)"

text \<open>Redis, as far as these operations go\<close>

record redis =
  rd_now :: nat
  rd_keys :: "(string \<times> string \<times> nat) list"     \<comment> \<open>value and deadline\<close>
  rd_sent :: "(string \<times> string) list"

definition redis_get :: "string \<Rightarrow> redis \<Rightarrow> string option" where
  "redis_get k r =
     (case map_of (rd_keys r) k of Some (v, dl) \<Rightarrow> if rd_now r < dl then Some v else None | None \<Rightarrow> None)"

definition redis_kv :: "redis kv" where
  "redis_kv = \<lparr>kv_get = redis_get,
     kv_setex = (\<lambda>k t v r. r\<lparr>rd_keys := AList.update k (v, rd_now r + t) (rd_keys r)\<rparr>),
     kv_delete = (\<lambda>k r. r\<lparr>rd_keys := AList.delete k (rd_keys r)\<rparr>),
     kv_publish = (\<lambda>ch v r. r\<lparr>rd_sent := rd_sent r @ [(ch, v)]\<rparr>)\<rparr>"

definition redis_wait :: "nat \<Rightarrow> redis \<Rightarrow> redis" where
  "redis_wait n r = r\<lparr>rd_now := rd_now r + n\<rparr>"

definition redis_empty :: redis where
  "redis_empty = \<lparr>rd_now = 0, rd_keys = [], rd_sent = []\<rparr>"

interpretation redis: kv_store redis_kv redis_wait
  by unfold_locales
     (auto simp: redis_kv_def redis_get_def redis_wait_def update_conv' delete_conv' split: option.splits)

subsection \<open>Constants and keys\<close>

definition HEARTBEAT_TTL_S :: nat where "HEARTBEAT_TTL_S = 30"
definition HEARTBEAT_STALE_S :: nat where "HEARTBEAT_STALE_S = 60"
definition TTL_RUNNING :: nat where "TTL_RUNNING = 7200"
definition TTL_TERMINAL_GOOD :: nat where "TTL_TERMINAL_GOOD = 86400"
definition TTL_TERMINAL_BAD :: nat where "TTL_TERMINAL_BAD = 3600"
definition TASK_TIMEOUTS :: "nat list" where "TASK_TIMEOUTS = [120, 300, 480]"

definition task_key :: "string \<Rightarrow> string" where "task_key tid = ''task:'' @ tid"
definition cancel_key :: "string \<Rightarrow> string" where "cancel_key tid = ''task:'' @ tid @ '':cancel''"
definition heartbeat_key :: "string \<Rightarrow> string" where "heartbeat_key tid = ''task:'' @ tid @ '':heartbeat''"
definition idempotent_key :: "string \<Rightarrow> string" where "idempotent_key k = ''idempotent:'' @ k"

text \<open>Identifiers of tasks are hexadecimal digits; all that matters is that they have no colon.\<close>

definition plain_id :: "string \<Rightarrow> bool" where
  "plain_id tid \<longleftrightarrow> CHR '':'' \<notin> set tid"

definition get_task_timeout :: "nat \<Rightarrow> nat" where
  "get_task_timeout retry_count = TASK_TIMEOUTS ! min retry_count (length TASK_TIMEOUTS - 1)"

subsection \<open>Task state\<close>

definition ttl_for_status :: "pyv \<Rightarrow> nat" where
  "ttl_for_status status =
     (if status \<in> {PStr ''PENDING'', PStr ''RUNNING''} then TTL_RUNNING
      else if status = PStr ''TIMEOUT'' then TTL_TERMINAL_BAD
      else if status \<in> {PStr ''SUCCESS'', PStr ''FAILED'', PStr ''CANCELLED''} then TTL_TERMINAL_GOOD
      else TTL_RUNNING)"

definition set_state :: "'r kv \<Rightarrow> string \<Rightarrow> pydict \<Rightarrow> 'r option \<Rightarrow> 'r option" where
  "set_state K tid state st =
     map_option (kv_setex K (task_key tid) (ttl_for_status (d_get_or state ''status'' (PStr ''PENDING'')))
       (json_dumps (PDict state))) st"

text \<open>\<open>now\<close> gives the readings of \<open>_now_iso()\<close>.\<close>

definition task_create ::
  "'r kv \<Rightarrow> (nat \<Rightarrow> string) \<Rightarrow> string \<Rightarrow> string \<Rightarrow> string \<Rightarrow> string \<Rightarrow> 'r option \<Rightarrow> pydict \<times> 'r option" where
  "task_create K now tid question db_id database_url st =
     (let state = [(''task_id'', PStr tid), (''status'', PStr ''PENDING''), (''question'', PStr (take 200 question)),
           (''db_id'', PStr db_id), (''database_url'', PStr database_url), (''progress'', PInt 0),
           (''node'', PNone), (''sql'', PNone), (''exec_result'', PNone), (''token_usage'', PDict []),
           (''node_timings'', PDict []), (''retry_count'', PInt 0), (''error'', PNone),
           (''created_at'', PStr (now 0)), (''updated_at'', PStr (now 1))]
      in (state, set_state K tid state st))"

text \<open>A text that is not JSON counts as missing (\<open>json_loads\<close> raises nothing else).\<close>

definition task_get :: "'r kv \<Rightarrow> string \<Rightarrow> 'r option \<Rightarrow> pyv option" where
  "task_get K tid st =
     (case st of
        None \<Rightarrow> None
      | Some r \<Rightarrow> (case kv_get K (task_key tid) r of
          None \<Rightarrow> None
        | Some raw \<Rightarrow> (case json_loads raw of Inl e \<Rightarrow> None | Inr v \<Rightarrow> Some v)))"

definition as_dict :: "pyv \<Rightarrow> string \<Rightarrow> pydict py" where
  "as_dict v attr = (case v of PDict d \<Rightarrow> Inr d | _ \<Rightarrow> Inl (no_attribute v attr))"

definition task_update ::
  "'r kv \<Rightarrow> (nat \<Rightarrow> string) \<Rightarrow> string \<Rightarrow> pydict \<Rightarrow> 'r option \<Rightarrow> (pyv option \<times> 'r option) py" where
  "task_update K now tid kwargs st =
     (case task_get K tid st of
        None \<Rightarrow> Inr (None, st)
      | Some v \<Rightarrow> py_bind (as_dict v ''update'') (\<lambda>state.
          let state = d_set ''updated_at'' (PStr (now 0)) (d_update state kwargs)
          in Inr (Some (PDict state), set_state K tid state st)))"

text \<open>A status that is not a string has no entry in the table.\<close>

definition allowed_next :: "pyv \<Rightarrow> string list" where
  "allowed_next cur =
     (if cur = PStr ''PENDING'' then [''RUNNING'', ''CANCELLED'']
      else if cur = PStr ''RUNNING'' then [''SUCCESS'', ''FAILED'', ''TIMEOUT'', ''CANCELLED'']
      else if cur \<in> {PStr ''FAILED'', PStr ''TIMEOUT''} then [''PENDING'']
      else [])"

definition valid_transition :: "pydict option \<Rightarrow> string \<Rightarrow> bool" where
  "valid_transition current next_status =
     (case current of
        None \<Rightarrow> next_status = ''PENDING''
      | Some d \<Rightarrow> next_status \<in> set (allowed_next (d_get_or d ''status'' (PStr ''PENDING''))))"

definition task_transition ::
  "'r kv \<Rightarrow> (nat \<Rightarrow> string) \<Rightarrow> string \<Rightarrow> string \<Rightarrow> pydict \<Rightarrow> 'r option \<Rightarrow> (pyv option \<times> 'r option) py" where
  "task_transition K now tid status extra st =
     (let current = task_get K tid st
      in py_bind (case current of None \<Rightarrow> Inr None | Some v \<Rightarrow> py_bind (as_dict v ''get'') (\<lambda>d. Inr (Some d))) (\<lambda>cur.
         if \<not> valid_transition cur status then Inr (current, st)
         else task_update K now tid ((''status'', PStr status) # extra) st))"

definition feedback_transition ::
  "'r kv \<Rightarrow> (nat \<Rightarrow> string) \<Rightarrow> string \<Rightarrow> 'r option \<Rightarrow> (pyv option \<times> 'r option) py" where
  "feedback_transition K now tid st =
     (case task_get K tid st of
        None \<Rightarrow> Inr (None, st)
      | Some v \<Rightarrow> py_bind (as_dict v ''get'') (\<lambda>d.
          if d_get_or d ''status'' PNone \<notin> {PStr ''SUCCESS'', PStr ''FAILED''} then Inr (Some v, st)
          else task_update K now tid [(''status'', PStr ''RUNNING''), (''node'', PNone), (''progress'', PInt 0)] st))"

subsection \<open>Flags\<close>

definition task_request_cancel :: "'r kv \<Rightarrow> string \<Rightarrow> 'r option \<Rightarrow> bool \<times> 'r option" where
  "task_request_cancel K tid st =
     (case st of None \<Rightarrow> (False, None) | Some r \<Rightarrow> (True, Some (kv_setex K (cancel_key tid) 3600 ''1'' r)))"

definition task_is_cancelled :: "'r kv \<Rightarrow> string \<Rightarrow> 'r option \<Rightarrow> bool" where
  "task_is_cancelled K tid st =
     (case st of None \<Rightarrow> False | Some r \<Rightarrow> kv_get K (cancel_key tid) r \<noteq> None)"

definition task_clear_cancel :: "'r kv \<Rightarrow> string \<Rightarrow> 'r option \<Rightarrow> 'r option" where
  "task_clear_cancel K tid st = map_option (kv_delete K (cancel_key tid)) st"

definition idempotent_check :: "'r kv \<Rightarrow> string \<Rightarrow> 'r option \<Rightarrow> string option" where
  "idempotent_check K k st = (case st of None \<Rightarrow> None | Some r \<Rightarrow> kv_get K (idempotent_key k) r)"

definition idempotent_set :: "'r kv \<Rightarrow> string \<Rightarrow> string \<Rightarrow> nat \<Rightarrow> 'r option \<Rightarrow> 'r option" where
  "idempotent_set K k tid ttl st = map_option (kv_setex K (idempotent_key k) ttl tid) st"

definition task_heartbeat :: "'r kv \<Rightarrow> string \<Rightarrow> string \<Rightarrow> 'r option \<Rightarrow> 'r option" where
  "task_heartbeat K now tid st = map_option (kv_setex K (heartbeat_key tid) HEARTBEAT_TTL_S now) st"

definition task_get_heartbeat :: "'r kv \<Rightarrow> string \<Rightarrow> 'r option \<Rightarrow> string option" where
  "task_get_heartbeat K tid st =
     (case st of
        None \<Rightarrow> None
      | Some r \<Rightarrow> (case kv_get K (heartbeat_key tid) r of
          None \<Rightarrow> None | Some val \<Rightarrow> if val = [] then None else Some val))"

definition task_publish_token :: "'r kv \<Rightarrow> string \<Rightarrow> string \<Rightarrow> 'r option \<Rightarrow> 'r option" where
  "task_publish_token K tid text st = map_option (kv_publish K (''task:'' @ tid @ '':tokens'') text) st"

subsection \<open>Stale tasks\<close>

definition lost :: "string \<Rightarrow> pydict" where
  "lost why = [(''error'', PStr (''Worker lost ('' @ why @ '')''))]"

text \<open>Why a running task counts as lost: no heartbeat, an old one, or one that cannot be read.\<close>

definition staleness :: "datetime \<Rightarrow> nat \<Rightarrow> string option \<Rightarrow> string option" where
  "staleness now stale_s hb =
     (case hb of
        None \<Rightarrow> Some (''no heartbeat for '' @ show_nat stale_s @ ''s'')
      | Some t \<Rightarrow> (case fromisoformat t of
          None \<Rightarrow> Some ''heartbeat unparseable''
        | Some h \<Rightarrow> if of_nat stale_s < seconds_between now h
                    then Some (''heartbeat stale '' @ show_int \<lfloor>seconds_between now h\<rfloor> @ ''s'') else None))"

text \<open>One key of the scan. The pattern \<open>task:*\<close> guarantees the prefix.\<close>

definition scan_key ::
  "'r kv \<Rightarrow> (nat \<Rightarrow> string) \<Rightarrow> datetime \<Rightarrow> nat \<Rightarrow> string \<Rightarrow> 'r option \<Rightarrow> (string list \<times> 'r option) py" where
  "scan_key K clk now stale_s key st =
     (if str_in '':heartbeat'' key \<or> str_in '':cancel'' key then Inr ([], st)
      else let task_id = drop 5 key
      in if prefix ''idempotent:'' task_id then Inr ([], st)
         else (case task_get K task_id st of
             None \<Rightarrow> Inr ([], st)
           | Some v \<Rightarrow> py_bind (as_dict v ''get'') (\<lambda>state.
               if d_get_or state ''status'' PNone \<noteq> PStr ''RUNNING'' then Inr ([], st)
               else (case staleness now stale_s (task_get_heartbeat K task_id st) of
                   None \<Rightarrow> Inr ([], st)
                 | Some why \<Rightarrow> py_bind (task_transition K clk task_id ''TIMEOUT'' (lost why) st) (\<lambda>(_, st').
                     Inr ([task_id], st'))))))"

fun scan_keys ::
  "'r kv \<Rightarrow> (nat \<Rightarrow> string) \<Rightarrow> datetime \<Rightarrow> nat \<Rightarrow> string list \<Rightarrow> 'r option \<Rightarrow> (string list \<times> 'r option) py" where
  "scan_keys K clk now stale_s [] st = Inr ([], st)"
| "scan_keys K clk now stale_s (k # ks) st =
     py_bind (scan_key K clk now stale_s k st) (\<lambda>(ids, st1).
     py_bind (scan_keys K clk now stale_s ks st1) (\<lambda>(ids', st2). Inr (ids @ ids', st2)))"

text \<open>\<open>keys\<close> are the keys the cursor loop of \<open>SCAN\<close> yields.\<close>

definition scan_stale_tasks ::
  "'r kv \<Rightarrow> (nat \<Rightarrow> string) \<Rightarrow> datetime \<Rightarrow> nat \<Rightarrow> string list \<Rightarrow> 'r option \<Rightarrow> (string list \<times> 'r option) py" where
  "scan_stale_tasks K clk now stale_s keys st =
     (case st of None \<Rightarrow> Inr ([], None) | Some r \<Rightarrow> scan_keys K clk now stale_s keys st)"

subsection \<open>What is read back\<close>

lemma json_value_set: "json_value (PDict d) \<Longrightarrow> json_value v \<Longrightarrow> json_value (PDict (d_set k v d))"
  unfolding d_set_def by (induction d) (auto simp: list_all_iff dom_update)

lemma json_value_update:
  "json_value (PDict d) \<Longrightarrow> list_all (\<lambda>(k, v). json_value v) e \<Longrightarrow> json_value (PDict (d_update d e))"
proof (induction e arbitrary: d)
  case (Cons x e)
  then show ?case
    using json_value_set [of d "snd x" "fst x"] by (simp add: d_update_def case_prod_unfold del: json_value.simps)
qed (simp add: d_update_def)

lemma ttl_pos [simp]: "0 < ttl_for_status v"
  by (simp add: ttl_for_status_def TTL_RUNNING_def TTL_TERMINAL_BAD_def TTL_TERMINAL_GOOD_def)

lemma keys_apart [simp]:
  "task_key a = task_key b \<longleftrightarrow> a = b"
  "plain_id a \<Longrightarrow> task_key a \<noteq> cancel_key b" "plain_id a \<Longrightarrow> cancel_key b \<noteq> task_key a"
  "plain_id a \<Longrightarrow> task_key a \<noteq> heartbeat_key b" "plain_id a \<Longrightarrow> heartbeat_key b \<noteq> task_key a"
  "task_key a \<noteq> idempotent_key k" "idempotent_key k \<noteq> task_key a"
  by (auto simp: task_key_def cancel_key_def heartbeat_key_def idempotent_key_def plain_id_def)

text \<open>A task's key holds nothing, or the text of a state JSON can represent.\<close>

definition well_stored :: "'r kv \<Rightarrow> string \<Rightarrow> 'r option \<Rightarrow> bool" where
  "well_stored K tid st \<longleftrightarrow>
     (case st of None \<Rightarrow> True
      | Some r \<Rightarrow> (case kv_get K (task_key tid) r of None \<Rightarrow> True
          | Some raw \<Rightarrow> \<exists>d. json_value (PDict d) \<and> raw = json_dumps (PDict d)))"

definition status_of :: "'r kv \<Rightarrow> string \<Rightarrow> 'r option \<Rightarrow> pyv option" where
  "status_of K tid st =
     (case task_get K tid st of Some (PDict d) \<Rightarrow> Some (d_get_or d ''status'' (PStr ''PENDING'')) | _ \<Rightarrow> None)"

lemma well_stored_get:
  assumes "well_stored K tid st"
  obtains "task_get K tid st = None"
  | d where "task_get K tid st = Some (PDict d)" and "json_value (PDict d)"
  using assms json_dumps_loads
  by (auto simp: well_stored_def task_get_def split: option.splits simp del: json_value.simps json_dumps.simps)

lemma well_stored_dict: "well_stored K tid st \<Longrightarrow> task_get K tid st = Some v \<Longrightarrow> \<exists>d. v = PDict d"
  by (erule well_stored_get) auto

context kv_store
begin

lemma get_set_state:
  assumes "json_value (PDict d)"
  shows "task_get K tid (set_state K tid' d (Some r)) = (if tid = tid' then Some (PDict d) else task_get K tid (Some r))"
  using json_dumps_loads [OF assms] by (simp add: task_get_def set_state_def get_setex)

lemma well_stored_set_state:
  "json_value (PDict d) \<Longrightarrow> well_stored K tid st \<Longrightarrow> well_stored K tid (set_state K tid' d st)"
  by (cases st) (auto simp: well_stored_def set_state_def get_setex simp del: json_value.simps json_dumps.simps)

lemma get_set_state_wait:
  assumes "json_value (PDict d)"
  shows "task_get K tid (map_option (wait n) (set_state K tid d (Some r))) =
    (if n < ttl_for_status (d_get_or d ''status'' (PStr ''PENDING'')) then Some (PDict d) else None)"
  using json_dumps_loads [OF assms] by (simp add: task_get_def set_state_def get_wait_setex)

end

subsection \<open>The life of a task\<close>

text \<open>The edges a status can move along: the table, and the feedback round.\<close>

definition status_edge :: "pyv \<Rightarrow> pyv \<Rightarrow> bool" where
  "status_edge a b \<longleftrightarrow> (\<exists>n \<in> set (allowed_next a). b = PStr n)
     \<or> a \<in> {PStr ''SUCCESS'', PStr ''FAILED''} \<and> b = PStr ''RUNNING''"

definition status_move :: "pyv option \<Rightarrow> pyv option \<Rightarrow> bool" where
  "status_move a b \<longleftrightarrow> b = a \<or> b = None \<or> (\<exists>x y. a = Some x \<and> b = Some y \<and> status_edge x y)"

text \<open>What a transition makes of a status\<close>

definition next_status :: "pyv option \<Rightarrow> string \<Rightarrow> pyv option" where
  "next_status a status =
     (case a of Some x \<Rightarrow> if status \<in> set (allowed_next x) then Some (PStr status) else a | None \<Rightarrow> None)"

lemma next_status_move: "status_move a (next_status a status)"
  by (auto simp: next_status_def status_move_def status_edge_def split: option.split)

text \<open>What may happen to the store once a task exists, on this task or another.\<close>

datatype task_op =
    OTransition string string pydict
  | OUpdate string pydict
  | OFeedback string
  | ORequestCancel string
  | OClearCancel string
  | OHeartbeat string string
  | OToken string string
  | OIdempotent string string
  | OScan datetime string
  | OWait nat

definition run_op ::
  "'r kv \<Rightarrow> (nat \<Rightarrow> 'r \<Rightarrow> 'r) \<Rightarrow> (nat \<Rightarrow> string) \<Rightarrow> task_op \<Rightarrow> 'r option \<Rightarrow> 'r option py" where
  "run_op K wait now op st =
     (case op of
        OTransition tid status extra \<Rightarrow> py_bind (task_transition K now tid status extra st) (\<lambda>(_, st'). Inr st')
      | OUpdate tid kwargs \<Rightarrow> py_bind (task_update K now tid kwargs st) (\<lambda>(_, st'). Inr st')
      | OFeedback tid \<Rightarrow> py_bind (feedback_transition K now tid st) (\<lambda>(_, st'). Inr st')
      | ORequestCancel tid \<Rightarrow> Inr (snd (task_request_cancel K tid st))
      | OClearCancel tid \<Rightarrow> Inr (task_clear_cancel K tid st)
      | OHeartbeat tid t \<Rightarrow> Inr (task_heartbeat K t tid st)
      | OToken tid t \<Rightarrow> Inr (task_publish_token K tid t st)
      | OIdempotent k tid \<Rightarrow> Inr (idempotent_set K k tid 300 st)
      | OScan dt key \<Rightarrow> py_bind (scan_key K now dt HEARTBEAT_STALE_S key st) (\<lambda>(_, st'). Inr st')
      | OWait n \<Rightarrow> Inr (map_option (wait n) st))"

fun run_ops ::
  "'r kv \<Rightarrow> (nat \<Rightarrow> 'r \<Rightarrow> 'r) \<Rightarrow> (nat \<Rightarrow> nat \<Rightarrow> string) \<Rightarrow> task_op list \<Rightarrow> 'r option \<Rightarrow> 'r option py" where
  "run_ops K wait now [] st = Inr st"
| "run_ops K wait now (op # ops) st = py_bind (run_op K wait (now (length ops)) op st) (run_ops K wait now ops)"

text \<open>The keyword arguments the program passes: JSON values, and no status but the one of a transition.\<close>

definition plain_args :: "pydict \<Rightarrow> bool" where
  "plain_args kw \<longleftrightarrow> list_all (\<lambda>(k, v). json_value v \<and> k \<noteq> ''status'') kw"

fun op_ok :: "task_op \<Rightarrow> bool" where
  "op_ok (OTransition tid status extra) = (plain_id tid \<and> plain_args extra)"
| "op_ok (OUpdate tid kwargs) = (plain_id tid \<and> plain_args kwargs)"
| "op_ok (OFeedback tid) = plain_id tid"
| "op_ok (OScan dt key) = (str_in '':heartbeat'' key \<or> str_in '':cancel'' key \<or> plain_id (drop 5 key))"
| "op_ok _ = True"

text \<open>Every task of the store is well stored.\<close>

definition all_stored :: "'r kv \<Rightarrow> 'r option \<Rightarrow> bool" where
  "all_stored K st \<longleftrightarrow> (\<forall>tid. plain_id tid \<longrightarrow> well_stored K tid st)"

lemma status_after_update:
  "list_all (\<lambda>(k, v). json_value v \<and> k \<noteq> ''status'') kw \<Longrightarrow>
    d_get (d_update d kw) ''status'' = d_get d ''status''"
proof (induction kw arbitrary: d)
  case (Cons x kw)
  then show ?case by (simp add: d_update_def case_prod_unfold)
qed (simp add: d_update_def)

lemma d_get_or_get: "d_get_or d k v = (case d_get d k of None \<Rightarrow> v | Some w \<Rightarrow> w)"
  by (simp add: d_get_or_def d_get_def)

lemma d_update_Cons: "d_update d ((k, v) # e) = d_update (d_set k v d) e"
  by (simp add: d_update_def)

text \<open>An update writes at most the key of its task.\<close>

lemma task_update_writes:
  "task_update K now tid kw st = Inr (r, st') \<Longrightarrow> st' = st \<or> (\<exists>d. st' = set_state K tid d st)"
  by (auto simp: task_update_def Let_def py_bind_Inr_iff split: option.splits)

lemma task_transition_writes:
  "task_transition K now tid status extra st = Inr (r, st') \<Longrightarrow> st' = st \<or> (\<exists>d. st' = set_state K tid d st)"
  by (auto simp: task_transition_def Let_def py_bind_Inr_iff split: if_splits dest: task_update_writes)

lemma feedback_transition_writes:
  "feedback_transition K now tid st = Inr (r, st') \<Longrightarrow> st' = st \<or> (\<exists>d. st' = set_state K tid d st)"
  by (auto simp: feedback_transition_def py_bind_Inr_iff split: if_splits option.splits dest: task_update_writes)

context kv_store
begin

lemma cancelled_set_state: "plain_id tid' \<Longrightarrow> task_is_cancelled K tid (set_state K tid' d st) = task_is_cancelled K tid st"
  by (cases st) (simp_all add: task_is_cancelled_def set_state_def get_setex)

lemma cancelled_heartbeat: "task_is_cancelled K tid (task_heartbeat K t tid' st) = task_is_cancelled K tid st"
  by (cases st) (simp_all add: task_is_cancelled_def task_heartbeat_def get_setex cancel_key_def heartbeat_key_def
      HEARTBEAT_TTL_S_def)

text \<open>An update of a well-stored task, seen from any task.\<close>

lemma task_update_effect:
  assumes "well_stored K tid' st" and "well_stored K tid st"
    and "list_all (\<lambda>(k, v). json_value v) kw"
  obtains r st' where "task_update K now tid' kw st = Inr (r, st')" and "well_stored K tid st'"
    and "status_of K tid st' = (if tid = tid' then
           (case task_get K tid st of Some (PDict d) \<Rightarrow> Some (d_get_or (d_update d kw) ''status'' (PStr ''PENDING'')) | _ \<Rightarrow> None)
         else status_of K tid st)"
proof (rule well_stored_get [OF assms(1)])
  assume n: "task_get K tid' st = None"
  then have "task_update K now tid' kw st = Inr (None, st)" by (simp add: task_update_def)
  then show thesis using n assms(2) by (intro that) (auto simp: status_of_def)
next
  fix d assume d: "task_get K tid' st = Some (PDict d)" "json_value (PDict d)"
  let ?d = "d_set ''updated_at'' (PStr (now 0)) (d_update d kw)"
  have u: "task_update K now tid' kw st = Inr (Some (PDict ?d), set_state K tid' ?d st)"
    using d(1) by (simp add: task_update_def as_dict_def Let_def)
  have j: "json_value (PDict ?d)" by (rule json_value_set [OF json_value_update [OF d(2) assms(3)]]) simp
  obtain r where r: "st = Some r" using d(1) by (cases st) (auto simp: task_get_def)
  show thesis
    using get_set_state [OF j, of tid tid' r] d(1)
    by (intro that [OF u well_stored_set_state [OF j assms(2)]]) (auto simp: status_of_def r d_get_or_get)
qed

lemma task_transition_effect:
  assumes "well_stored K tid' st" and "well_stored K tid st" and "plain_args extra"
  obtains r st' where "task_transition K now tid' status extra st = Inr (r, st')" and "well_stored K tid st'"
    and "status_of K tid st' = (if tid = tid' then next_status (status_of K tid st) status else status_of K tid st)"
proof -
  have kw: "list_all (\<lambda>(k, v). json_value v) ((''status'', PStr status) # extra)"
    using assms(3) by (auto simp: plain_args_def list_all_iff)
  obtain r st1 where u: "task_update K now tid' ((''status'', PStr status) # extra) st = Inr (r, st1)" "well_stored K tid st1"
    and s: "status_of K tid st1 = (if tid = tid' then
        (case task_get K tid st of Some (PDict d) \<Rightarrow>
           Some (d_get_or (d_update d ((''status'', PStr status) # extra)) ''status'' (PStr ''PENDING'')) | _ \<Rightarrow> None)
         else status_of K tid st)"
    by (rule task_update_effect [OF assms(1,2) kw])
  have new: "d_get_or (d_update d ((''status'', PStr status) # extra)) ''status'' v = PStr status" for d v
    using status_after_update [OF assms(3) [unfolded plain_args_def], of "d_set ''status'' (PStr status) d"]
    by (simp add: d_get_or_get d_update_Cons)
  show thesis
  proof (rule well_stored_get [OF assms(1)])
    assume n: "task_get K tid' st = None"
    show thesis
    proof (cases "status = ''PENDING''")
      case True
      then have "task_transition K now tid' status extra st = Inr (r, st1)"
        using u n by (simp add: task_transition_def valid_transition_def)
      then show thesis using u(2) s n by (intro that) (auto simp: next_status_def status_of_def)
    next
      case False
      then have "task_transition K now tid' status extra st = Inr (None, st)"
        using n by (simp add: task_transition_def valid_transition_def)
      then show thesis using assms(2) n by (intro that) (auto simp: next_status_def status_of_def)
    qed
  next
    fix d assume d: "task_get K tid' st = Some (PDict d)"
    show thesis
    proof (cases "valid_transition (Some d) status")
      case True
      then have "task_transition K now tid' status extra st = Inr (r, st1)"
        using u d by (simp add: task_transition_def as_dict_def)
      then show thesis using True u(2) s d
        by (intro that) (auto simp: next_status_def status_of_def new valid_transition_def)
    next
      case False
      then have "task_transition K now tid' status extra st = Inr (Some (PDict d), st)"
        using d by (simp add: task_transition_def as_dict_def)
      then show thesis using assms(2) False d
        by (intro that) (auto simp: next_status_def status_of_def valid_transition_def)
    qed
  qed
qed

lemma feedback_transition_effect:
  assumes "well_stored K tid' st" and "well_stored K tid st"
  obtains r st' where "feedback_transition K now tid' st = Inr (r, st')" and "well_stored K tid st'"
    and "status_of K tid st' = (if tid = tid' \<and> status_of K tid st \<in> {Some (PStr ''SUCCESS''), Some (PStr ''FAILED'')}
           then Some (PStr ''RUNNING'') else status_of K tid st)"
proof -
  let ?kw = "[(''status'', PStr ''RUNNING''), (''node'', PNone), (''progress'', PInt 0)]"
  obtain r st1 where u: "task_update K now tid' ?kw st = Inr (r, st1)" "well_stored K tid st1"
    and s: "status_of K tid st1 = (if tid = tid' then
        (case task_get K tid st of Some (PDict d) \<Rightarrow> Some (d_get_or (d_update d ?kw) ''status'' (PStr ''PENDING'')) | _ \<Rightarrow> None)
         else status_of K tid st)"
    by (rule task_update_effect [OF assms, where kw = ?kw and now = now]) simp_all
  have new: "d_get_or (d_update d ?kw) ''status'' v = PStr ''RUNNING''" for d v
    by (simp add: d_update_def)
  have old: "d_get_or d ''status'' PNone \<in> {PStr ''SUCCESS'', PStr ''FAILED''}
      \<longleftrightarrow> d_get_or d ''status'' (PStr ''PENDING'') \<in> {PStr ''SUCCESS'', PStr ''FAILED''}" for d
    by (cases "d_get d ''status''") (simp_all add: d_get_or_get)
  show thesis
  proof (rule well_stored_get [OF assms(1)])
    assume n: "task_get K tid' st = None"
    then have "feedback_transition K now tid' st = Inr (None, st)" by (simp add: feedback_transition_def)
    then show thesis using assms(2) n by (intro that) (auto simp: status_of_def)
  next
    fix d assume d: "task_get K tid' st = Some (PDict d)"
    show thesis
    proof (cases "d_get_or d ''status'' (PStr ''PENDING'') \<in> {PStr ''SUCCESS'', PStr ''FAILED''}")
      case True
      then have "feedback_transition K now tid' st = Inr (r, st1)"
        using u d old [of d] by (auto simp: feedback_transition_def as_dict_def)
      then show thesis using True u(2) s d by (intro that) (auto simp: status_of_def new)
    next
      case False
      then have "feedback_transition K now tid' st = Inr (Some (PDict d), st)"
        using d old [of d] by (simp add: feedback_transition_def as_dict_def)
      then show thesis using assms(2) d False by (intro that) (auto simp: status_of_def)
    qed
  qed
qed

text \<open>The other keys of the store.\<close>

lemma other_keys:
  assumes "plain_id tid"
  shows "task_get K tid (snd (task_request_cancel K tid' st)) = task_get K tid st"
    and "task_get K tid (task_clear_cancel K tid' st) = task_get K tid st"
    and "task_get K tid (task_heartbeat K t tid' st) = task_get K tid st"
    and "task_get K tid (task_publish_token K tid' t st) = task_get K tid st"
    and "task_get K tid (idempotent_set K k v 300 st) = task_get K tid st"
    and "task_get K tid (map_option (wait n) st) \<in> {None, task_get K tid st}"
  using assms get_wait [of "task_key tid" n "the st"]
  by (cases st; auto simp: task_get_def task_request_cancel_def task_clear_cancel_def task_heartbeat_def
      task_publish_token_def idempotent_set_def get_setex get_delete get_publish HEARTBEAT_TTL_S_def
      split: option.splits)+

lemma well_stored_other:
  assumes "plain_id tid" and "well_stored K tid st"
  shows "well_stored K tid (snd (task_request_cancel K tid' st))"
    and "well_stored K tid (task_clear_cancel K tid' st)"
    and "well_stored K tid (task_heartbeat K t tid' st)"
    and "well_stored K tid (task_publish_token K tid' t st)"
    and "well_stored K tid (idempotent_set K k v 300 st)"
    and "well_stored K tid (map_option (wait n) st)"
  using assms get_wait [of "task_key tid" n "the st"]
  by (cases st; auto simp: well_stored_def task_request_cancel_def task_clear_cancel_def task_heartbeat_def
      task_publish_token_def idempotent_set_def get_setex get_delete get_publish HEARTBEAT_TTL_S_def
      simp del: json_value.simps json_dumps.simps split: option.splits)+

lemma scan_key_effect:
  assumes "all_stored K st" and "plain_id tid" and "op_ok (OScan dt key)"
  shows "\<exists>r st'. scan_key K now dt n key st = Inr (r, st') \<and> well_stored K tid st'
    \<and> status_move (status_of K tid st) (status_of K tid st')"
proof -
  let ?id = "drop 5 key"
  have same: "well_stored K tid st \<and> status_move (status_of K tid st) (status_of K tid st)"
    using assms(1,2) by (simp add: all_stored_def status_move_def)
  show ?thesis
  proof (cases "str_in '':heartbeat'' key \<or> str_in '':cancel'' key")
    case True
    then show ?thesis using same by (simp add: scan_key_def)
  next
    case False
    with assms have w: "well_stored K ?id st" by (simp add: all_stored_def)
    have t: "\<exists>r st'. task_transition K now ?id ''TIMEOUT'' (lost why) st = Inr (r, st') \<and> well_stored K tid st'
        \<and> status_move (status_of K tid st) (status_of K tid st')" for why
      by (rule task_transition_effect [OF w, of tid "lost why" now "''TIMEOUT''"])
         (use assms(1,2) next_status_move in \<open>auto simp: all_stored_def lost_def plain_args_def status_move_def\<close>)
    show ?thesis
    proof (cases "task_get K ?id st")
      case None
      then show ?thesis using False same by (simp add: scan_key_def Let_def)
    next
      case (Some v)
      then obtain d where v: "v = PDict d" using well_stored_dict [OF w] by blast
      show ?thesis
      proof (cases "prefix ''idempotent:'' ?id \<or> d_get_or d ''status'' PNone \<noteq> PStr ''RUNNING''
          \<or> staleness dt n (task_get_heartbeat K ?id st) = None")
        case True
        then show ?thesis using False Some v same by (auto simp: scan_key_def as_dict_def Let_def)
      next
        case stale: False
        then obtain why where "staleness dt n (task_get_heartbeat K ?id st) = Some why" by blast
        then show ?thesis using False Some v stale t [of why] by (auto simp: scan_key_def as_dict_def Let_def)
      qed
    qed
  qed
qed

lemma task_op_effect:
  assumes "all_stored K st" and "plain_id tid" and "op_ok op"
  shows "\<exists>st'. run_op K wait now op st = Inr st' \<and> well_stored K tid st'
    \<and> status_move (status_of K tid st) (status_of K tid st')"
proof -
  have w: "well_stored K t st" if "plain_id t" for t using assms(1) that by (simp add: all_stored_def)
  have quiet: "\<exists>st''. (Inr st' :: 'r option py) = Inr st'' \<and> well_stored K tid st''
      \<and> status_move (status_of K tid st) (status_of K tid st'')"
    if "task_get K tid st' \<in> {None, task_get K tid st}" "well_stored K tid st'" for st'
    using that by (auto simp: status_of_def status_move_def)
  note o = other_keys [OF assms(2)] and s = well_stored_other [OF assms(2) w [OF assms(2)]]
  show ?thesis
  proof (cases op)
    case (OTransition t status extra)
    then have t: "plain_id t" "plain_args extra" using assms(3) by simp_all
    obtain r st' where "task_transition K now t status extra st = Inr (r, st')" "well_stored K tid st'"
      and "status_of K tid st' = (if tid = t then next_status (status_of K tid st) status else status_of K tid st)"
      by (rule task_transition_effect [OF w [OF t(1)] w [OF assms(2)] t(2)])
    then show ?thesis unfolding OTransition using next_status_move by (simp add: run_op_def status_move_def)
  next
    case (OUpdate t kw)
    then have kw: "list_all (\<lambda>(k, v). json_value v \<and> k \<noteq> ''status'') kw" "plain_id t"
      using assms(3) by (simp_all add: plain_args_def)
    then have "list_all (\<lambda>(k, v). json_value v) kw" by (auto simp: list_all_iff)
    then obtain r st' where u: "task_update K now t kw st = Inr (r, st')" "well_stored K tid st'"
      and s: "status_of K tid st' = (if tid = t then
          (case task_get K tid st of Some (PDict d) \<Rightarrow> Some (d_get_or (d_update d kw) ''status'' (PStr ''PENDING'')) | _ \<Rightarrow> None)
          else status_of K tid st)"
      using task_update_effect [OF w [OF kw(2)] w [OF assms(2)]] by metis
    have "status_of K tid st' = status_of K tid st"
      using s status_after_update [OF kw(1)]
      by (auto simp: status_of_def d_get_or_get split: option.splits pyv.splits)
    then show ?thesis using u OUpdate by (simp add: run_op_def status_move_def)
  next
    case (OFeedback t)
    then have t: "plain_id t" using assms(3) by simp
    obtain r st' where "feedback_transition K now t st = Inr (r, st')" "well_stored K tid st'"
      and "status_of K tid st' = (if tid = t \<and> status_of K tid st \<in> {Some (PStr ''SUCCESS''), Some (PStr ''FAILED'')}
           then Some (PStr ''RUNNING'') else status_of K tid st)"
      by (rule feedback_transition_effect [OF w [OF t] w [OF assms(2)]])
    then show ?thesis unfolding OFeedback by (auto simp: run_op_def status_move_def status_edge_def)
  next
    case (OScan dt key)
    then show ?thesis
      using scan_key_effect [OF assms(1,2), of dt key now HEARTBEAT_STALE_S] assms(3) by (auto simp: run_op_def)
  next
    case (ORequestCancel t)
    show ?thesis unfolding run_op_def ORequestCancel task_op.case by (rule quiet [OF _ s(1)]) (simp add: o)
  next
    case (OClearCancel t)
    show ?thesis unfolding run_op_def OClearCancel task_op.case by (rule quiet [OF _ s(2)]) (simp add: o)
  next
    case (OHeartbeat t h)
    show ?thesis unfolding run_op_def OHeartbeat task_op.case by (rule quiet [OF _ s(3)]) (simp add: o)
  next
    case (OToken t x)
    show ?thesis unfolding run_op_def OToken task_op.case by (rule quiet [OF _ s(4)]) (simp add: o)
  next
    case (OIdempotent k t)
    show ?thesis unfolding run_op_def OIdempotent task_op.case by (rule quiet [OF _ s(5)]) (simp add: o)
  next
    case (OWait n)
    show ?thesis unfolding run_op_def OWait task_op.case by (rule quiet [OF o(6) s(6)])
  qed
qed

lemma task_ops_effect:
  assumes "all_stored K st" and "list_all op_ok ops"
  shows "\<exists>st'. run_ops K wait now ops st = Inr st' \<and> all_stored K st' \<and>
    (\<forall>tid. plain_id tid \<longrightarrow> status_move\<^sup>*\<^sup>* (status_of K tid st) (status_of K tid st'))"
  using assms
proof (induction ops arbitrary: st)
  case (Cons op ops)
  obtain st1 where 1: "run_op K wait (now (length ops)) op st = Inr st1"
    using task_op_effect [OF Cons.prems(1), of "[]" op] Cons.prems(2) by (auto simp: plain_id_def)
  have 2: "well_stored K tid st1" "status_move (status_of K tid st) (status_of K tid st1)" if "plain_id tid" for tid
    using task_op_effect [OF Cons.prems(1) that, of op "now (length ops)"] 1 Cons.prems(2) by auto
  then have "all_stored K st1" by (simp add: all_stored_def)
  from Cons.IH [OF this] Cons.prems(2) obtain st' where "run_ops K wait now ops st1 = Inr st'" "all_stored K st'"
    "\<And>tid. plain_id tid \<Longrightarrow> status_move\<^sup>*\<^sup>* (status_of K tid st1) (status_of K tid st')" by auto
  then show ?case using 1 2(2) by (auto intro: converse_rtranclp_into_rtranclp)
qed simp

end

subsection \<open>A connection that breaks\<close>

text \<open>During an operation the connection holds, or breaks: then the client raises some exception
  (\<open>ConnectionError\<close>, \<open>TimeoutError\<close>), before the write of the operation took effect or after. Time
  passes in any case, and a process that found no store has no connection to lose.\<close>

datatype link = Holds | Breaks py_exc bool    \<comment> \<open>whether the write took effect\<close>

fun uses_link :: "task_op \<Rightarrow> bool" where
  "uses_link (OWait n) = False"
| "uses_link _ = True"

definition run_linked ::
  "'r kv \<Rightarrow> (nat \<Rightarrow> 'r \<Rightarrow> 'r) \<Rightarrow> (nat \<Rightarrow> string) \<Rightarrow> link \<Rightarrow> task_op \<Rightarrow> 'r option \<Rightarrow> py_exc option \<times> 'r option" where
  "run_linked K wait now l op st =
     (case run_op K wait now op st of
        Inl e \<Rightarrow> (Some e, st)
      | Inr st' \<Rightarrow> (case l of
          Holds \<Rightarrow> (None, st')
        | Breaks e written \<Rightarrow>
            if st = None \<or> \<not> uses_link op then (None, st') else (Some e, if written then st' else st)))"

text \<open>A sequence of operations, each with its connection; an exception ends its own operation only.\<close>

fun run_links ::
  "'r kv \<Rightarrow> (nat \<Rightarrow> 'r \<Rightarrow> 'r) \<Rightarrow> (nat \<Rightarrow> nat \<Rightarrow> string) \<Rightarrow> (link \<times> task_op) list \<Rightarrow> 'r option \<Rightarrow>
     py_exc option list \<times> 'r option" where
  "run_links K wait now [] st = ([], st)"
| "run_links K wait now ((l, op) # steps) st =
     (let (x, st1) = run_linked K wait (now (length steps)) l op st;
          (xs, st2) = run_links K wait now steps st1
      in (x # xs, st2))"

text \<open>What an operation may raise\<close>

fun raised_by :: "link \<Rightarrow> py_exc option \<Rightarrow> bool" where
  "raised_by Holds x = (x = None)"
| "raised_by (Breaks e written) x = (x \<in> {None, Some e})"

text \<open>Over connections that hold, this is the plain sequence of the operations.\<close>

lemma run_links_hold:
  "run_ops K wait now ops st = Inr st' \<Longrightarrow>
     run_links K wait now (map (Pair Holds) ops) st = (replicate (length ops) None, st')"
  by (induction ops arbitrary: st) (auto simp: run_linked_def py_bind_Inr_iff)

context kv_store
begin

lemma linked_effect:
  assumes "all_stored K st" and "op_ok op" and "run_linked K wait now l op st = (x, st')"
  shows "raised_by l x \<and> all_stored K st' \<and>
    (\<forall>tid. plain_id tid \<longrightarrow> status_move (status_of K tid st) (status_of K tid st'))"
proof -
  obtain st1 where 1: "run_op K wait now op st = Inr st1"
    using task_op_effect [OF assms(1) _ assms(2), of "[]" now] by (auto simp: plain_id_def)
  have "all_stored K st1" "\<And>tid. plain_id tid \<Longrightarrow> status_move (status_of K tid st) (status_of K tid st1)"
    using task_op_effect [OF assms(1) _ assms(2), of _ now] 1 by (auto simp: all_stored_def)
  moreover have "st' \<in> {st, st1} \<and> raised_by l x"
    using assms(3) 1 by (auto simp: run_linked_def split: link.splits if_splits)
  ultimately show ?thesis using assms(1) by (auto simp: status_move_def)
qed

lemma links_effect:
  "run_links K wait now steps st = (xs, st') \<Longrightarrow> all_stored K st \<Longrightarrow> list_all (op_ok \<circ> snd) steps \<Longrightarrow>
    list_all2 (\<lambda>step x. raised_by (fst step) x) steps xs \<and> all_stored K st' \<and>
    (\<forall>tid. plain_id tid \<longrightarrow> status_move\<^sup>*\<^sup>* (status_of K tid st) (status_of K tid st'))"
proof (induction steps arbitrary: st xs)
  case (Cons step steps)
  obtain l op where so: "step = (l, op)" by (cases step)
  obtain x st1 where 1: "run_linked K wait (now (length steps)) l op st = (x, st1)"
    by (cases "run_linked K wait (now (length steps)) l op st")
  obtain ys where ys: "run_links K wait now steps st1 = (ys, st')" "xs = x # ys"
    using Cons.prems(1) so 1 by (auto split: prod.splits)
  note e = linked_effect [OF Cons.prems(2) _ 1]
  have ok: "op_ok op" "list_all (op_ok \<circ> snd) steps" using Cons.prems(3) so by (simp_all add: comp_def)
  show ?case
    using e [OF ok(1)] Cons.IH [OF ys(1) _ ok(2)] so ys(2)
    by (auto intro: converse_rtranclp_into_rtranclp)
qed simp

end

text \<open>A transition whose check read the store at one moment and whose update finds it at a later one.\<close>

definition transition_checked_at ::
  "'r kv \<Rightarrow> (nat \<Rightarrow> string) \<Rightarrow> string \<Rightarrow> string \<Rightarrow> pydict \<Rightarrow> 'r option \<Rightarrow> 'r option \<Rightarrow> (pyv option \<times> 'r option) py" where
  "transition_checked_at K now tid status extra seen st =
     (let current = task_get K tid seen
      in py_bind (case current of None \<Rightarrow> Inr None | Some v \<Rightarrow> py_bind (as_dict v ''get'') (\<lambda>d. Inr (Some d))) (\<lambda>cur.
         if \<not> valid_transition cur status then Inr (current, st)
         else task_update K now tid ((''status'', PStr status) # extra) st))"

lemma transition_checked_now: "transition_checked_at K now tid status extra st st = task_transition K now tid status extra st"
  by (simp add: transition_checked_at_def task_transition_def)

subsection \<open>Properties\<close>

text \<open>C21: Round trip. A task state of JSON values is read back unchanged for as long as its status
  allows (2 hours while pending or running, 24 hours when finished, 1 hour after a timeout),
  then it is gone; the other tasks are not touched.\<close>

theorem task_state_roundtrip:
  assumes "kv_store K wait" and "json_value (PDict d)"
  shows "task_get K tid (map_option (wait n) (set_state K tid d (Some r))) =
      (if n < ttl_for_status (d_get_or d ''status'' (PStr ''PENDING'')) then Some (PDict d) else None)
    \<and> (tid' \<noteq> tid \<longrightarrow> task_get K tid' (set_state K tid d (Some r)) = task_get K tid' (Some r))"
  using kv_store.get_set_state_wait [OF assms] kv_store.get_set_state [OF assms, of tid'] by simp

definition running_task :: pydict where
  "running_task = [(''task_id'', PStr ''a1''), (''status'', PStr ''RUNNING''), (''retry_count'', PInt 0)]"

theorem task_state_roundtrip_witness:
  "task_get redis_kv ''a1'' (map_option (redis_wait 7000) (set_state redis_kv ''a1'' running_task (Some redis_empty)))
     = Some (PDict running_task)
   \<and> task_get redis_kv ''a1'' (map_option (redis_wait 7200) (set_state redis_kv ''a1'' running_task (Some redis_empty))) = None"
proof -
  have "json_value (PDict running_task)" by (simp add: running_task_def)
  note r = task_state_roundtrip [OF redis.kv_store_axioms this]
  have "ttl_for_status (d_get_or running_task ''status'' (PStr ''PENDING'')) = 7200" by code_simp
  then show ?thesis by (simp add: r)
qed

text \<open>C20: The life of a task. Over any sequence of transitions, updates, feedback and cancel requests,
  heartbeats, scans and waiting, on this task and others, each operation being one step and each over
  a connection that holds or breaks: an operation raises nothing but the exception of a connection that
  broke under it; and the status of a task only ever moves along the edges of the transition table
  and from SUCCESS or FAILED to RUNNING for a feedback round, until its key expires, also through
  the operations that raised. In particular a cancelled task stays cancelled.\<close>

theorem task_status_machine:
  assumes "kv_store K wait" and "all_stored K st" and "list_all (op_ok \<circ> snd) steps" and "plain_id tid"
    and "run_links K wait now steps st = (raised, st')"
  shows "list_all2 (\<lambda>step x. raised_by (fst step) x) steps raised \<and>
    status_move\<^sup>*\<^sup>* (status_of K tid st) (status_of K tid st') \<and>
    (status_of K tid st = Some (PStr ''CANCELLED'') \<longrightarrow> status_of K tid st' \<in> {Some (PStr ''CANCELLED''), None})"
proof -
  have final: "b \<in> {Some (PStr ''CANCELLED''), None}"
    if "status_move\<^sup>*\<^sup>* a b" "a = Some (PStr ''CANCELLED'')" for a b
    using that
    by (induction rule: rtranclp_induct) (auto simp: status_move_def status_edge_def allowed_next_def)
  show ?thesis
    using kv_store.links_effect [OF assms(1,5,2,3)] assms(4) final by blast
qed

lemma running_stored: "all_stored redis_kv (set_state redis_kv ''a1'' running_task (Some redis_empty))"
  "status_of redis_kv ''a1'' (set_state redis_kv ''a1'' running_task (Some redis_empty)) = Some (PStr ''RUNNING'')"
proof -
  have j: "json_value (PDict running_task)" by (simp add: running_task_def)
  have "all_stored redis_kv (Some redis_empty)"
    by (simp add: all_stored_def well_stored_def redis_kv_def redis_get_def redis_empty_def)
  then show "all_stored redis_kv (set_state redis_kv ''a1'' running_task (Some redis_empty))"
    using redis.well_stored_set_state [OF j] by (simp add: all_stored_def)
  show "status_of redis_kv ''a1'' (set_state redis_kv ''a1'' running_task (Some redis_empty)) = Some (PStr ''RUNNING'')"
    using redis.get_set_state [OF j] by (simp add: status_of_def running_task_def d_get_or_def)
qed

theorem task_status_machine_witness:
  "\<exists>xs st'. run_links redis_kv redis_wait (\<lambda>i j. ''t'')
      [(Holds, OHeartbeat ''a1'' ''t''), (Breaks (PyExc ''ConnectionError'' []) True, OTransition ''a1'' ''CANCELLED'' []),
       (Holds, OTransition ''a1'' ''SUCCESS'' []), (Holds, OFeedback ''a1'')]
      (set_state redis_kv ''a1'' running_task (Some redis_empty)) = (xs, st')
    \<and> xs ! 2 = None \<and> status_move\<^sup>*\<^sup>* (Some (PStr ''RUNNING'')) (status_of redis_kv ''a1'' st')"
proof -
  let ?ops = "[(Holds, OHeartbeat ''a1'' ''t''), (Breaks (PyExc ''ConnectionError'' []) True, OTransition ''a1'' ''CANCELLED'' []),
       (Holds, OTransition ''a1'' ''SUCCESS'' []), (Holds, OFeedback ''a1'')]"
  let ?st = "set_state redis_kv ''a1'' running_task (Some redis_empty)"
  obtain xs st' where r: "run_links redis_kv redis_wait (\<lambda>i j. ''t'') ?ops ?st = (xs, st')" by fastforce
  have ok: "list_all (op_ok \<circ> snd) ?ops" "plain_id ''a1''" by (simp_all add: plain_args_def plain_id_def)
  note m = task_status_machine [OF redis.kv_store_axioms running_stored(1) ok r]
  from m have "list_all2 (\<lambda>step x. raised_by (fst step) x) ?ops xs" by blast
  then have "xs ! 2 = None" by (auto simp: list_all2_Cons1)
  then show ?thesis using r m running_stored(2) by auto
qed

text \<open>An operation over a connection that is lost does raise, although the operations are meant to do
  nothing without Redis.\<close>

theorem lost_link_raises:
  assumes "kv_store K wait" and "all_stored K (Some r)" and "op_ok op" and "uses_link op"
  shows "fst (run_linked K wait now (Breaks e written) op (Some r)) = Some e"
proof -
  obtain st' where "run_op K wait now op (Some r) = Inr st'"
    using kv_store.task_op_effect [OF assms(1,2) _ assms(3), of "[]" now] by (auto simp: plain_id_def)
  then show ?thesis using assms(4) by (simp add: run_linked_def)
qed

theorem lost_link_raises_witness:
  "fst (run_linked redis_kv redis_wait (\<lambda>i. ''t'') (Breaks (PyExc ''ConnectionError'' []) False) (OHeartbeat ''a1'' ''t'')
     (Some redis_empty)) = Some (PyExc ''ConnectionError'' [])"
  by (rule lost_link_raises [OF redis.kv_store_axioms])
     (simp_all add: all_stored_def well_stored_def redis_kv_def redis_get_def redis_empty_def)

text \<open>The check of a transition and its write are separate commands: when another process cancels the
  task between them, a worker that has checked the move from RUNNING to SUCCESS overwrites the
  cancellation, and the status has moved along no edge of the table.\<close>

lemma cancelled_task_succeeds:
  "\<exists>seen st r. task_transition redis_kv (\<lambda>i. ''t'') ''a1'' ''CANCELLED'' [] seen = Inr (r, st) \<and>
     status_of redis_kv ''a1'' st = Some (PStr ''CANCELLED'') \<and>
     py_ok (\<lambda>(r, st'). status_of redis_kv ''a1'' st' = Some (PStr ''SUCCESS''))
       (transition_checked_at redis_kv (\<lambda>i. ''t'') ''a1'' ''SUCCESS'' [] seen st)"
proof -
  let ?s0 = "set_state redis_kv ''a1'' running_task (Some redis_empty)"
  have w: "well_stored redis_kv ''a1'' ?s0" using running_stored(1) by (simp add: all_stored_def plain_id_def)
  obtain r st where c: "task_transition redis_kv (\<lambda>i. ''t'') ''a1'' ''CANCELLED'' [] ?s0 = Inr (r, st)"
      "well_stored redis_kv ''a1'' st" "status_of redis_kv ''a1'' st = next_status (Some (PStr ''RUNNING'')) ''CANCELLED''"
    using redis.task_transition_effect [OF w w, of "[]" "\<lambda>i. ''t''" "''CANCELLED''"] running_stored(2)
    by (auto simp: plain_args_def)
  then have s: "status_of redis_kv ''a1'' st = Some (PStr ''CANCELLED'')"
    by (simp add: next_status_def allowed_next_def)
  obtain d where d: "task_get redis_kv ''a1'' st = Some (PDict d)"
    using s by (auto simp: status_of_def split: option.splits pyv.splits)
  obtain r' st' where u: "task_update redis_kv (\<lambda>i. ''t'') ''a1'' [(''status'', PStr ''SUCCESS'')] st = Inr (r', st')"
    "status_of redis_kv ''a1'' st' = Some (d_get_or (d_update d [(''status'', PStr ''SUCCESS'')]) ''status'' (PStr ''PENDING''))"
    by (rule redis.task_update_effect [OF c(2,2), of "[(''status'', PStr ''SUCCESS'')]" "\<lambda>i. ''t''"]) (simp_all add: d)
  have "task_get redis_kv ''a1'' ?s0 = Some (PDict running_task)"
    using redis.get_set_state [of running_task "''a1''" "''a1''" redis_empty] by (simp add: running_task_def)
  moreover have "valid_transition (Some running_task) ''SUCCESS''"
    by (simp add: valid_transition_def running_task_def allowed_next_def d_get_or_def)
  ultimately have "transition_checked_at redis_kv (\<lambda>i. ''t'') ''a1'' ''SUCCESS'' [] ?s0 st = Inr (r', st')"
    using u(1) by (simp add: transition_checked_at_def as_dict_def)
  moreover have "status_of redis_kv ''a1'' st' = Some (PStr ''SUCCESS'')"
    using u(2) by (simp add: d_get_or_get d_update_def)
  ultimately show ?thesis using c(1) s by (intro exI [of _ ?s0] exI [of _ st] exI [of _ r]) (simp add: py_ok_def)
qed

text \<open>A running task counts as lost 30 seconds after its last heartbeat, not after the 60 of
  \<open>HEARTBEAT_STALE_S\<close>: the heartbeat key itself expires first, so with synchronous clocks the
  comparison with the threshold never decides.\<close>

theorem heartbeat_threshold:
  assumes "kv_store K wait" and "valid_dt hb" and "seconds_between now hb = of_nat n"
    and "task_get K tid (map_option (wait n) (task_heartbeat K (isoformat hb) tid (Some r))) = Some (PDict d)"
    and "d_get_or d ''status'' PNone = PStr ''RUNNING''" and "plain_id tid"
    and "\<not> str_in '':heartbeat'' (task_key tid)" "\<not> str_in '':cancel'' (task_key tid)"
  shows "\<exists>ids st'. scan_key K clk now HEARTBEAT_STALE_S (task_key tid)
      (map_option (wait n) (task_heartbeat K (isoformat hb) tid (Some r))) = Inr (ids, st') \<and>
    ids = (if 30 \<le> n then [tid] else [])"
proof -
  let ?st = "map_option (wait n) (task_heartbeat K (isoformat hb) tid (Some r))"
  have ne: "isoformat hb \<noteq> []" by (simp add: isoformat_def)
  have h: "task_get_heartbeat K tid ?st = (if n < 30 then Some (isoformat hb) else None)"
    using kv_store.get_wait_setex [OF assms(1), of 30 "heartbeat_key tid" n "isoformat hb" r] ne
    by (simp add: task_get_heartbeat_def task_heartbeat_def HEARTBEAT_TTL_S_def)
  have s: "staleness now HEARTBEAT_STALE_S (task_get_heartbeat K tid ?st) =
      (if 30 \<le> n then Some (''no heartbeat for '' @ show_nat 60 @ ''s'') else None)"
    using fromisoformat_isoformat [OF assms(2)] assms(3)
    by (simp add: staleness_def h HEARTBEAT_STALE_S_def)
  have nid: "\<not> prefix ''idempotent:'' tid"
    using assms(6) by (auto simp: plain_id_def prefix_def)
  have "\<exists>st'. py_bind (task_transition K clk tid ''TIMEOUT'' x ?st) (\<lambda>(_, st'). Inr ([tid], st')) = Inr ([tid], st')" for x
    using assms(4) by (simp add: task_transition_def task_update_def as_dict_def Let_def)
  then show ?thesis
    using assms(4,5,7,8) s nid by (auto simp: scan_key_def as_dict_def task_key_def Let_def)
qed

definition at_second :: "nat \<Rightarrow> datetime" where
  "at_second s = \<lparr>dt_year = 2025, dt_month = 7, dt_day = 1, dt_hour = 12, dt_minute = 0, dt_second = s, dt_micro = 0\<rparr>"

theorem heartbeat_threshold_witness:
  "\<exists>st'. scan_key redis_kv (\<lambda>i. ''t'') (at_second 40) HEARTBEAT_STALE_S (task_key ''a1'')
     (map_option (redis_wait 40) (task_heartbeat redis_kv (isoformat (at_second 0)) ''a1''
       (set_state redis_kv ''a1'' running_task (Some redis_empty)))) = Inr ([''a1''], st')"
proof -
  have "seconds_between (at_second 40) (at_second 0) = of_nat 40"
    by (simp add: seconds_between_def micros_def at_second_def toordinal_def Let_def)
  moreover have "valid_dt (at_second 0)" and "d_get_or running_task ''status'' PNone = PStr ''RUNNING''" and "plain_id ''a1''"
    and k: "\<not> str_in '':heartbeat'' (task_key ''a1'')" "\<not> str_in '':cancel'' (task_key ''a1'')"
    and apart: "task_key ''a1'' \<noteq> heartbeat_key ''a1''"
    by (simp_all add: valid_dt_def at_second_def month_days_def running_task_def d_get_or_def plain_id_def
        task_key_def heartbeat_key_def)
  moreover obtain r where r: "set_state redis_kv ''a1'' running_task (Some redis_empty) = Some r"
    by (simp add: set_state_def)
  moreover have "task_get redis_kv ''a1'' (map_option (redis_wait 40) (Some r)) = Some (PDict running_task)"
  proof -
    have "json_value (PDict running_task)" by (simp add: running_task_def)
    moreover have "ttl_for_status (d_get_or running_task ''status'' (PStr ''PENDING'')) = 7200" by code_simp
    ultimately show ?thesis
      using redis.get_set_state_wait [of running_task "''a1''" 40 redis_empty] unfolding r by simp
  qed
  then have "task_get redis_kv ''a1'' (map_option (redis_wait 40) (task_heartbeat redis_kv (isoformat (at_second 0)) ''a1'' (Some r)))
      = Some (PDict running_task)"
    using redis.get_wait_other [OF apart] by (simp add: task_get_def task_heartbeat_def)
  ultimately show ?thesis
    using heartbeat_threshold [OF redis.kv_store_axioms, of "at_second 0" "at_second 40" 40 "''a1''" r running_task "\<lambda>i. ''t''"]
    by simp
qed

end
