(* ===== verification/Worker.thy ===== *)
theory Worker
  imports Broker TaskStore
begin

text \<open>
  \<open>worker/main.py\<close>: running the graphs for a task, retries, the dead-letter queue, feedback rounds and
  the consumer loop. The stream of the graph is a parameter: the updates it yields, in order, and
  the exception it ends with, if any. What other processes do to the store in between is the
  parameter \<open>env\<close>, applied before the step of that number.
\<close>

definition MAX_RETRIES :: int where "MAX_RETRIES = 3"

record 'r world =
  w_store :: "'r option"
  w_broker :: broker

text \<open>A step that raises keeps the changes made before.\<close>

type_synonym 'r wres = "(py_exc \<times> 'r world) + 'r world"

definition w_then :: "'r wres \<Rightarrow> ('r world \<Rightarrow> 'r wres) \<Rightarrow> 'r wres" where
  "w_then m f = (case m of Inl e \<Rightarrow> Inl e | Inr w \<Rightarrow> f w)"

definition on_store :: "('r option \<Rightarrow> (pyv option \<times> 'r option) py) \<Rightarrow> 'r world \<Rightarrow> 'r wres" where
  "on_store f w = (case f (w_store w) of Inl e \<Rightarrow> Inl (e, w) | Inr (_, st) \<Rightarrow> Inr (w\<lparr>w_store := st\<rparr>))"

definition say :: "string \<Rightarrow> pyv \<Rightarrow> string \<Rightarrow> pydict \<Rightarrow> 'r world \<Rightarrow> 'r world" where
  "say topic tid event payload w =
     w\<lparr>w_broker := snd (publish topic \<lparr>tm_task_id = tid, tm_event = PStr event, tm_payload = PDict payload\<rparr> (w_broker w))\<rparr>"

definition meddle :: "('r option \<Rightarrow> 'r option) \<Rightarrow> 'r world \<Rightarrow> 'r world" where
  "meddle f w = w\<lparr>w_store := f (w_store w)\<rparr>"

lemma w_then_simps [simp]: "w_then (Inl e) f = Inl e" "w_then (Inr w) f = f w"
  by (simp_all add: w_then_def)

subsection \<open>Progress and summaries\<close>

definition progress_order :: "(string \<times> int) list" where
  "progress_order = [(''router'', 5), (''schema_retriever'', 15), (''decomposer'', 25), (''fewshot_selector'', 35),
     (''generator'', 55), (''guard'', 65), (''voter'', 85), (''semantic_check'', 95), (''refiner'', 80)]"

definition node_progress :: "string \<Rightarrow> int" where
  "node_progress node_name = (case map_of progress_order node_name of None \<Rightarrow> 50 | Some n \<Rightarrow> n)"

text \<open>\<open>len(v)\<close>\<close>

definition py_len :: "pyv \<Rightarrow> pyv py" where
  "py_len v = py_bind (py_iter v) (\<lambda>xs. Inr (PInt (int (length xs))))"

definition py_or_val :: "pyv \<Rightarrow> pyv \<Rightarrow> pyv" where
  "py_or_val a b = (if truthy a then a else b)"

definition py_prefix :: "pyv \<Rightarrow> nat \<Rightarrow> pyv py" where
  "py_prefix v n = (case v of
       PStr s \<Rightarrow> Inr (PStr (take n s))
     | PList xs \<Rightarrow> Inr (PList (take n xs))
     | _ \<Rightarrow> Inl (PyExc ''TypeError'' ([CHR 0x27] @ py_type_name v @ [CHR 0x27] @ '' object is not subscriptable'')))"

definition py_get_or :: "pyv \<Rightarrow> string \<Rightarrow> pyv \<Rightarrow> pyv py" where
  "py_get_or v k dflt = (case v of PDict d \<Rightarrow> Inr (d_get_or d k dflt) | _ \<Rightarrow> Inl (no_attribute v ''get''))"

definition summarize_node :: "string \<Rightarrow> pydict \<Rightarrow> pydict py" where
  "summarize_node node_name state =
     (let one = (\<lambda>k m. py_bind m (\<lambda>v. Inr [(k, v)]))
      in if node_name = ''schema_retriever'' then one ''schema_len'' (py_len (d_get_or state ''schema_text'' (PStr [])))
         else if node_name = ''router'' then Inr [(''complexity'', d_get_or state ''complexity'' (PStr ''simple''))]
         else if node_name = ''decomposer'' then one ''sub_count'' (py_len (d_get_or state ''sub_questions'' (PList [])))
         else if node_name = ''fewshot_selector'' then one ''hit_count'' (py_len (d_get_or state ''fewshot_hits'' (PList [])))
         else if node_name = ''generator'' then
           py_bind (py_len (py_or_val (d_get_or state ''candidate_sqls'' (PList [])) (PList []))) (\<lambda>n.
           py_bind (py_prefix (py_or_val (d_get_or state ''sql'' PNone) (PStr [])) 200) (\<lambda>p.
             Inr [(''candidate_count'', n), (''sql_preview'', p)]))
         else if node_name = ''guard'' then Inr [(''guard_pass'', d_get_or state ''guard_pass'' (PBool False))]
         else if node_name = ''voter'' then
           let er = py_or_val (d_get_or state ''exec_result'' (PDict [])) (PDict [])
           in py_bind (py_get_or er ''success'' (PBool False)) (\<lambda>ok.
              py_bind (py_get_or er ''row_count'' (PInt 0)) (\<lambda>n.
                Inr [(''exec_success'', ok), (''row_count'', n)]))
         else if node_name = ''semantic_check'' then Inr [(''semantic_pass'', d_get_or state ''semantic_pass'' (PBool True))]
         else if node_name = ''refiner'' then Inr [(''retry_count'', d_get_or state ''retry_count'' (PInt 0))]
         else Inr [])"

text \<open>\<open>_sanitize\<close>: decimals become floats; a row must be iterable.\<close>

definition safe_value :: "pyv \<Rightarrow> pyv" where
  "safe_value v = (case v of PDec q s \<Rightarrow> PFloat q | _ \<Rightarrow> v)"

definition sanitize :: "pyv \<Rightarrow> pyv py" where
  "sanitize result =
     (case result of
        PNone \<Rightarrow> Inr PNone
      | PDict out \<Rightarrow>
          let data = d_get_or out ''data'' PNone
          in if \<not> truthy data then Inr (PDict out)
             else py_bind (py_iter data) (\<lambda>rows.
                  py_bind (py_map py_iter rows) (\<lambda>cells.
                    Inr (PDict (d_set ''data'' (PList (map (\<lambda>row. PList (map safe_value row)) cells)) out))))
      | _ \<Rightarrow> Inl (PyExc ''TypeError'' ([CHR 0x27] @ py_type_name result @ [CHR 0x27] @ '' object is not iterable'')))"

subsection \<open>The stream loop\<close>

text \<open>What a handler is told about: the store, the clock, the identifier in the message, and the other
  processes: what they do before the handler, between its check and its first transition, before
  each update of the stream, and before the final transition. \<open>rc_source\<close> is the node a cancelled
  run reports.\<close>

record 'r run_conf =
  rc_kv :: "'r kv"
  rc_now :: "nat \<Rightarrow> string"
  rc_id :: pyv
  rc_before :: "'r option \<Rightarrow> 'r option"
  rc_mid :: "'r option \<Rightarrow> 'r option"
  rc_env :: "nat \<Rightarrow> 'r option \<Rightarrow> 'r option"
  rc_after :: "'r option \<Rightarrow> 'r option"
  rc_source :: string

abbreviation rc_tid :: "'r run_conf \<Rightarrow> string" where
  "rc_tid C \<equiv> py_str (rc_id C)"

definition chosen_sql :: "pydict \<Rightarrow> pyv \<Rightarrow> pyv" where
  "chosen_sql acc dflt = py_or_val (d_get_or acc ''sql'' PNone) (d_get_or acc ''chosen_sql'' dflt)"

definition node_done :: "'r run_conf \<Rightarrow> string \<times> pydict \<Rightarrow> pydict \<Rightarrow> 'r world \<Rightarrow> 'r wres" where
  "node_done C step acc w =
     (let (node_name, _) = step
      in case summarize_node node_name acc of
           Inl e \<Rightarrow> Inl (e, w)
         | Inr summary \<Rightarrow>
             on_store (task_update (rc_kv C) (rc_now C) (rc_tid C)
                 [(''node'', PStr node_name), (''progress'', PInt (node_progress node_name)),
                  (''sql'', chosen_sql acc PNone), (''token_usage'', d_get_or acc ''token_usage'' (PDict [])),
                  (''node_timings'', d_get_or acc ''node_latency'' (PDict []))])
               (say TOPIC_STATUS (rc_id C) ''node_done'' [(''node'', PStr node_name), (''summary'', PDict summary)] w))"

definition cancel_run :: "'r run_conf \<Rightarrow> 'r world \<Rightarrow> 'r wres" where
  "cancel_run C w =
     w_then (on_store (task_transition (rc_kv C) (rc_now C) (rc_tid C) ''CANCELLED'' []) w) (\<lambda>w.
       Inr (meddle (task_clear_cancel (rc_kv C) (rc_tid C))
         (say TOPIC_STATUS (rc_id C) ''cancelled'' [(''node'', PStr (rc_source C))] w)))"

datatype 'r streamed =
    Streaming pydict "'r world"      \<comment> \<open>all steps taken so far\<close>
  | Cancelled "'r world"
  | Failed py_exc "'r world"

text \<open>The updates from number \<open>i\<close> on; the environment moves before each of them.\<close>

fun stream_steps :: "'r run_conf \<Rightarrow> nat \<Rightarrow> (string \<times> pydict) list \<Rightarrow> pydict \<Rightarrow> 'r world \<Rightarrow> 'r streamed" where
  "stream_steps C i [] acc w = Streaming acc w"
| "stream_steps C i (step # steps) acc w =
     (let w = meddle (rc_env C i) w
      in if task_is_cancelled (rc_kv C) (rc_tid C) (w_store w)
         then (case cancel_run C w of Inl (e, w) \<Rightarrow> Failed e w | Inr w \<Rightarrow> Cancelled w)
         else let acc = d_update acc (snd step)
              in (case node_done C step acc w of
                    Inl (e, w) \<Rightarrow> Failed e w
                  | Inr w \<Rightarrow> stream_steps C (Suc i) steps acc w))"

subsection \<open>run_graph\<close>

text \<open>What the run of a graph brings: its updates, the exception it ends with, its duration, how many
  updates come before the handler gives up waiting, and the text of a traceback.\<close>

record graph_log =
  gl_steps :: "(string \<times> pydict) list"
  gl_error :: "py_exc option"
  gl_elapsed :: rat
  gl_deadline :: "nat option"
  gl_traceback :: string

definition graph_input :: "pydict \<Rightarrow> pydict py" where
  "graph_input payload =
     py_bind (py_item (PDict payload) ''question'') (\<lambda>question. Inr
       ([(''question'', question), (''db_id'', d_get_or payload ''db_id'' (PStr [])),
         (''database_url'', d_get_or payload ''database_url'' (PStr []))]
        @ map (\<lambda>(k, v). (k, d_get_or payload k v))
            [(''rag_schema'', PBool True), (''rag_domain'', PBool True), (''multi_candidate'', PBool True),
             (''rag_k'', PInt 8), (''rag_column_prune'', PBool False), (''rag_hybrid'', PBool True),
             (''rag_fk_expand'', PBool True), (''fewshot_enabled'', PBool True)]))"

definition timings :: "pydict \<Rightarrow> pydict" where
  "timings acc = [(''token_usage'', d_get_or acc ''token_usage'' (PDict [])),
     (''node_timings'', d_get_or acc ''node_latency'' (PDict []))]"

definition finish_run :: "'r run_conf \<Rightarrow> pydict \<Rightarrow> rat \<Rightarrow> pydict \<Rightarrow> 'r world \<Rightarrow> 'r wres" where
  "finish_run C payload elapsed acc w =
     (let sql = chosen_sql acc (PStr [])
      in case sanitize (d_get_or acc ''exec_result'' PNone) of
           Inl e \<Rightarrow> Inl (e, w)
         | Inr res \<Rightarrow>
             w_then (on_store (task_update (rc_kv C) (rc_now C) (rc_tid C)
               ([(''sql'', sql), (''exec_result'', res)] @ timings acc
                @ [(''_schema_text'', d_get_or acc ''schema_text'' (PStr [])),
                   (''_notes_text'', d_get_or acc ''notes_text'' (PStr [])),
                   (''_fewshot_text'', d_get_or acc ''fewshot_text'' (PStr [])),
                   (''_original_payload'', PDict payload)])) w) (\<lambda>w.
             Inr (say TOPIC_RESULT (rc_id C) ''success''
               ([(''sql'', sql), (''exec_result'', res)] @ timings acc @ [(''elapsed_s'', PFloat elapsed)]) w)))"

text \<open>The end of a stream, given what has been accumulated. In Python the handler waits for this in
  another thread, which goes on after a timeout.\<close>

definition end_stream ::
  "graph_log \<Rightarrow> (pydict \<Rightarrow> 'r world \<Rightarrow> 'r wres) \<Rightarrow> 'r streamed \<Rightarrow> 'r streamed" where
  "end_stream g finish r =
     (case r of
        Streaming acc w \<Rightarrow> (case gl_error g of
            Some e \<Rightarrow> Failed e w
          | None \<Rightarrow> (case finish acc w of Inl (e, w) \<Rightarrow> Failed e w | Inr w \<Rightarrow> Streaming acc w))
      | _ \<Rightarrow> r)"

text \<open>What the handler sees: the end, or the state of affairs when it gives up\<close>

datatype 'r waited =
    Returned bool "'r world"         \<comment> \<open>whether the run reports that it was cancelled\<close>
  | Errored py_exc "'r world"
  | GaveUp pydict "'r world"

fun waited_for :: "'r streamed \<Rightarrow> 'r waited" where
  "waited_for (Streaming acc w) = Returned False w"
| "waited_for (Cancelled w) = Returned True w"
| "waited_for (Failed e w) = Errored e w"

definition wait_for ::
  "'r run_conf \<Rightarrow> graph_log \<Rightarrow> (pydict \<Rightarrow> 'r world \<Rightarrow> 'r wres) \<Rightarrow> pydict py \<Rightarrow> 'r world \<Rightarrow> 'r waited" where
  "wait_for C g finish input w =
     (case input of
        Inl e \<Rightarrow> Errored e w
      | Inr s0 \<Rightarrow> (case gl_deadline g of
          None \<Rightarrow> waited_for (end_stream g finish (stream_steps C 0 (gl_steps g) s0 w))
        | Some n \<Rightarrow> (case stream_steps C 0 (take n (gl_steps g)) s0 w of
            Streaming acc w \<Rightarrow> GaveUp acc w
          | r \<Rightarrow> waited_for r)))"

text \<open>What the abandoned thread still does\<close>

definition abandoned ::
  "'r run_conf \<Rightarrow> graph_log \<Rightarrow> (pydict \<Rightarrow> 'r world \<Rightarrow> 'r wres) \<Rightarrow> pydict \<Rightarrow> 'r world \<Rightarrow> 'r streamed" where
  "abandoned C g finish acc w =
     (case gl_deadline g of
        None \<Rightarrow> Streaming acc w
      | Some n \<Rightarrow> end_stream g finish (stream_steps C n (drop n (gl_steps g)) acc w))"

subsection \<open>handle_task\<close>

text \<open>\<open>get_task_timeout\<close> with the index Python allows\<close>

definition task_timeout :: "int \<Rightarrow> nat py" where
  "task_timeout retry_count =
     (let idx = min retry_count (int (length TASK_TIMEOUTS) - 1)
      in if 0 \<le> idx then Inr (TASK_TIMEOUTS ! nat idx)
         else if - int (length TASK_TIMEOUTS) \<le> idx then Inr (TASK_TIMEOUTS ! nat (int (length TASK_TIMEOUTS) + idx))
         else Inl (PyExc ''IndexError'' ''list index out of range''))"

definition retry_count_of :: "pydict \<Rightarrow> int py" where
  "retry_count_of payload =
     (case d_get_or payload ''_retry_count'' (PInt 0) of
        PInt n \<Rightarrow> Inr n
      | PBool b \<Rightarrow> Inr (if b then 1 else 0)
      | v \<Rightarrow> Inl (PyExc ''TypeError'' (''unexpected '' @ py_type_name v)))"

definition transition :: "'r run_conf \<Rightarrow> string \<Rightarrow> pydict \<Rightarrow> 'r world \<Rightarrow> 'r wres" where
  "transition C status extra = on_store (task_transition (rc_kv C) (rc_now C) (rc_tid C) status extra)"

definition is_cancelled :: "'r run_conf \<Rightarrow> 'r world \<Rightarrow> bool" where
  "is_cancelled C w = task_is_cancelled (rc_kv C) (rc_tid C) (w_store w)"

definition clear_cancel :: "'r run_conf \<Rightarrow> 'r world \<Rightarrow> 'r world" where
  "clear_cancel C = meddle (task_clear_cancel (rc_kv C) (rc_tid C))"

definition error_text :: "py_exc \<Rightarrow> string" where
  "error_text e = exc_type e @ '': '' @ take 300 (exc_msg e)"

definition settle_timeout :: "'r run_conf \<Rightarrow> int \<Rightarrow> nat \<Rightarrow> 'r world \<Rightarrow> 'r wres" where
  "settle_timeout C retry_count timeout_s w =
     (if is_cancelled C w then
        w_then (transition C ''CANCELLED'' [(''error'', PStr ''Cancelled during execution'')] w) (\<lambda>w. Inr (clear_cancel C w))
      else
        w_then (transition C ''TIMEOUT'' [(''error'', PStr (''Task timed out after '' @ show_nat timeout_s @ ''s''))] w) (\<lambda>w.
          Inr (say TOPIC_STATUS (rc_id C) ''timeout''
            [(''retry_count'', PInt retry_count), (''timeout_s'', PInt (int timeout_s))] w)))"

definition settle_error :: "'r run_conf \<Rightarrow> graph_log \<Rightarrow> pydict \<Rightarrow> int \<Rightarrow> py_exc \<Rightarrow> 'r world \<Rightarrow> 'r wres" where
  "settle_error C g payload retry_count e w =
     (let err_msg = error_text e
      in if is_cancelled C w then
           w_then (transition C ''CANCELLED'' [(''error'', PStr (''Cancelled after error: '' @ err_msg))] w) (\<lambda>w.
             Inr (clear_cancel C w))
         else if retry_count < MAX_RETRIES then
           let payload = d_set ''_last_error'' (PStr err_msg) (d_set ''_retry_count'' (PInt (retry_count + 1)) payload)
           in w_then (on_store (task_update (rc_kv C) (rc_now C) (rc_tid C)
                [(''retry_count'', PInt (retry_count + 1)), (''error'', PStr err_msg)])
                  (say TOPIC_REQUEST (rc_id C) ''retry'' payload w)) (\<lambda>w.
              Inr (say TOPIC_STATUS (rc_id C) ''retrying''
                [(''attempt'', PInt (retry_count + 1)), (''error'', PStr err_msg)] w))
         else
           w_then (transition C ''FAILED'' [(''error'', PStr err_msg)] w) (\<lambda>w.
             Inr (say TOPIC_DLQ (rc_id C) ''dead_letter''
               [(''original_payload'', PDict payload), (''error'', PStr err_msg),
                (''traceback'', PStr (rev (take 2000 (rev (gl_traceback g)))))]
               (say TOPIC_STATUS (rc_id C) ''failed''
                 [(''error'', PStr err_msg), (''retries_exhausted'', PBool True)] w))))"

text \<open>The two nested \<open>try\<close> blocks. A \<open>TimeoutError\<close> of the graph itself looks like the handler's own.\<close>

definition settle :: "'r run_conf \<Rightarrow> graph_log \<Rightarrow> pydict \<Rightarrow> int \<Rightarrow> nat \<Rightarrow> 'r waited \<Rightarrow> 'r wres" where
  "settle C g payload retry_count timeout_s out =
     (let inner = (case out of
          Returned cancelled w \<Rightarrow> if cancelled then Inr w else transition C ''SUCCESS'' [] (meddle (rc_after C) w)
        | GaveUp acc w \<Rightarrow> settle_timeout C retry_count timeout_s w
        | Errored e w \<Rightarrow> if exc_type e = ''TimeoutError'' then settle_timeout C retry_count timeout_s w else Inl (e, w))
      in case inner of Inr w \<Rightarrow> Inr w | Inl (e, w) \<Rightarrow> settle_error C g payload retry_count e w)"

text \<open>The heartbeat thread writes at once when it starts; its later beats belong to the environment.\<close>

definition start_heartbeat :: "'r run_conf \<Rightarrow> 'r world \<Rightarrow> 'r world" where
  "start_heartbeat C = meddle (task_heartbeat (rc_kv C) (rc_now C 0) (rc_tid C))"

definition handle_task :: "'r run_conf \<Rightarrow> graph_log \<Rightarrow> pyv \<Rightarrow> 'r world \<Rightarrow> 'r wres" where
  "handle_task C g raw_payload w0 =
     (let w = meddle (rc_before C) w0
      in case py_bind (as_dict raw_payload ''get'') (\<lambda>payload.
           py_bind (retry_count_of payload) (\<lambda>n.
           py_bind (task_timeout n) (\<lambda>timeout_s. Inr (payload, n, timeout_s)))) of
        Inl e \<Rightarrow> Inl (e, w)
      | Inr (payload, n, timeout_s) \<Rightarrow>
          if is_cancelled C w then transition C ''CANCELLED'' [] w
          else
            w_then (transition C ''RUNNING'' [(''retry_count'', PInt n)] (meddle (rc_mid C) w)) (\<lambda>w.
              let w = start_heartbeat C (say TOPIC_STATUS (rc_id C) ''running''
                    [(''retry_count'', PInt n), (''timeout_s'', PInt (int timeout_s))] w)
              in settle C g payload n timeout_s
                   (wait_for C g (finish_run C payload (gl_elapsed g)) (graph_input payload) w)))"

subsection \<open>Feedback rounds\<close>

text \<open>\<open>task_get(task_id) or {}\<close>\<close>

definition stored_task :: "'r run_conf \<Rightarrow> 'r world \<Rightarrow> pydict py" where
  "stored_task C w =
     (case task_get (rc_kv C) (rc_tid C) (w_store w) of
        None \<Rightarrow> Inr []
      | Some v \<Rightarrow> if truthy v then as_dict v ''get'' else Inr [])"

definition feedback_input :: "pydict \<Rightarrow> pydict \<Rightarrow> pydict" where
  "feedback_input payload task_state =
     (let old = (\<lambda>k. d_get_or task_state k (PStr []));
          new = (\<lambda>k. d_get_or payload k (old k))
      in [(''question'', new ''question''), (''db_id'', new ''db_id''), (''database_url'', new ''database_url''),
          (''schema_text'', old ''_schema_text''), (''notes_text'', old ''_notes_text''),
          (''fewshot_text'', old ''_fewshot_text''), (''sql'', new ''sql''), (''last_sql'', new ''sql''),
          (''exec_result'', py_or_val (d_get_or payload ''exec_result'' PNone) (d_get_or task_state ''exec_result'' PNone)),
          (''user_feedback'', d_get_or payload ''feedback'' (PStr [])),
          (''conversation_turns'', d_get_or payload ''conversation_turns'' (PList [])),
          (''retry_count'', PInt 0), (''max_retries'', PInt 2), (''is_feedback_round'', PBool True)]
         @ map (\<lambda>(k, v). (k, d_get_or payload k v))
             [(''rag_schema'', PBool True), (''rag_domain'', PBool True), (''rag_k'', PInt 8),
              (''fewshot_enabled'', PBool True), (''multi_candidate'', PBool True)])"

definition finish_feedback :: "'r run_conf \<Rightarrow> pydict \<Rightarrow> rat \<Rightarrow> pydict \<Rightarrow> 'r world \<Rightarrow> 'r wres" where
  "finish_feedback C payload elapsed acc w =
     (let sql = chosen_sql acc (PStr [])
      in case py_bind (py_iter (d_get_or payload ''conversation_turns'' (PList []))) (\<lambda>turns.
              py_bind (sanitize (d_get_or acc ''exec_result'' PNone)) (\<lambda>res. Inr (turns, res))) of
           Inl e \<Rightarrow> Inl (e, w)
         | Inr (turns, res) \<Rightarrow>
             (let turns = turns @ [PDict [(''turn'', PInt (int (length turns) + 1)),
                    (''user_feedback'', d_get_or payload ''feedback'' (PStr [])), (''sql'', sql),
                    (''exec_result'', res), (''timestamp'', PStr (rc_now C 1))]]
              in w_then (on_store (task_update (rc_kv C) (rc_now C) (rc_tid C)
                   ([(''sql'', sql), (''exec_result'', res)] @ timings acc
                    @ [(''conversation_turns'', PList turns), (''user_feedback'', PStr [])])) w) (\<lambda>w.
                 Inr (say TOPIC_RESULT (rc_id C) ''success''
                   ([(''sql'', sql), (''exec_result'', res)] @ timings acc
                    @ [(''elapsed_s'', PFloat elapsed), (''turn'', PInt (int (length turns)))]) w))))"

definition feedback_error :: "'r run_conf \<Rightarrow> pyv \<Rightarrow> py_exc \<Rightarrow> 'r world \<Rightarrow> 'r wres" where
  "feedback_error C turn e w =
     w_then (transition C ''FAILED'' [(''error'', PStr (error_text e))] w) (\<lambda>w.
       Inr (say TOPIC_STATUS (rc_id C) ''failed''
         [(''error'', PStr (error_text e)), (''source'', PStr ''feedback''), (''turn'', turn)] w))"

definition feedback_timeout :: "'r run_conf \<Rightarrow> pyv \<Rightarrow> 'r world \<Rightarrow> 'r wres" where
  "feedback_timeout C turn w =
     w_then (transition C ''TIMEOUT'' [(''error'', PStr (''Feedback turn '' @ py_str turn @ '' timed out''))] w) (\<lambda>w.
       Inr (say TOPIC_STATUS (rc_id C) ''timeout'' [(''source'', PStr ''feedback''), (''turn'', turn)] w))"

definition settle_feedback :: "'r run_conf \<Rightarrow> pyv \<Rightarrow> 'r waited \<Rightarrow> 'r wres" where
  "settle_feedback C turn out =
     (let inner = (case out of
          Returned cancelled w \<Rightarrow> if cancelled then Inr w else transition C ''SUCCESS'' [] (meddle (rc_after C) w)
        | GaveUp acc w \<Rightarrow> feedback_timeout C turn w
        | Errored e w \<Rightarrow> if exc_type e = ''TimeoutError'' then feedback_timeout C turn w else Inl (e, w))
      in case inner of Inr w \<Rightarrow> Inr w | Inl (e, w) \<Rightarrow> feedback_error C turn e w)"

definition handle_feedback :: "'r run_conf \<Rightarrow> graph_log \<Rightarrow> pyv \<Rightarrow> 'r world \<Rightarrow> 'r wres" where
  "handle_feedback C g raw_payload w0 =
     (let w = meddle (rc_before C) w0
      in case py_bind (as_dict (py_or_val raw_payload (PDict [])) ''get'') (\<lambda>payload.
              py_bind (stored_task C w) (\<lambda>existing. Inr (payload, existing))) of
           Inl e \<Rightarrow> Inl (e, w)
         | Inr (payload, existing) \<Rightarrow>
             let turn = d_get_or payload ''turn'' (PInt 1)
             in if d_get_or existing ''status'' PNone = PStr ''RUNNING'' then Inr w
                else
                  w_then (on_store (feedback_transition (rc_kv C) (rc_now C) (rc_tid C)) (meddle (rc_mid C) w)) (\<lambda>w.
                    let w = start_heartbeat C (say TOPIC_STATUS (rc_id C) ''running''
                          [(''source'', PStr ''feedback''), (''turn'', turn)] w)
                    in settle_feedback C turn
                         (wait_for C g (finish_feedback C payload (gl_elapsed g))
                           (py_bind (stored_task C w) (\<lambda>task_state. Inr (feedback_input payload task_state))) w)))"

subsection \<open>The consumer\<close>

text \<open>\<open>poll\<close> returns a batch and moves the position behind it; every commit stores that position. The
  flag \<open>running\<close> is read before each record. \<open>h k\<close> is what handling record number \<open>k\<close> does.\<close>

fun batch_loop ::
  "(nat \<Rightarrow> bool) \<Rightarrow> (nat \<Rightarrow> 'm \<Rightarrow> 'w \<Rightarrow> (py_exc \<times> 'w) + 'w) \<Rightarrow> nat \<Rightarrow> nat \<Rightarrow> 'm list \<Rightarrow> 'w \<Rightarrow> nat \<Rightarrow> 'w \<times> nat" where
  "batch_loop running h k position [] w committed = (w, committed)"
| "batch_loop running h k position (r # rs) w committed =
     (if \<not> running k then (w, committed)
      else (case h k r w of
          Inl (e, w') \<Rightarrow> batch_loop running h (Suc k) position rs w' committed
        | Inr w' \<Rightarrow> batch_loop running h (Suc k) position rs w' position))"

fun poll_loop ::
  "(nat \<Rightarrow> bool) \<Rightarrow> (nat \<Rightarrow> 'm \<Rightarrow> 'w \<Rightarrow> (py_exc \<times> 'w) + 'w) \<Rightarrow> nat \<Rightarrow> 'm list list \<Rightarrow> 'w \<Rightarrow> nat \<Rightarrow> 'w \<times> nat" where
  "poll_loop running h k [] w committed = (w, committed)"
| "poll_loop running h k (b # bs) w committed =
     (if \<not> running k then (w, committed)
      else (case batch_loop running h k (k + length b) b w committed of
          (w', committed') \<Rightarrow> poll_loop running h (k + length b) bs w' committed'))"

text \<open>What is done with one record: a topic and a text\<close>

definition dispatch ::
  "(pyv \<Rightarrow> 'r run_conf) \<Rightarrow> graph_log \<Rightarrow> string \<times> string \<Rightarrow> 'r world \<Rightarrow> 'r wres" where
  "dispatch conf g r w =
     (case from_json (snd r) of
        Inl e \<Rightarrow> Inl (e, w)
      | Inr msg \<Rightarrow>
          if fst r = TOPIC_FEEDBACK then handle_feedback (conf (tm_task_id msg)) g (tm_payload msg) w
          else handle_task (conf (tm_task_id msg)) g (tm_payload msg) w)"

definition worker_main ::
  "(nat \<Rightarrow> bool) \<Rightarrow> (nat \<Rightarrow> pyv \<Rightarrow> 'r run_conf) \<Rightarrow> (nat \<Rightarrow> graph_log) \<Rightarrow> (string \<times> string) list list
    \<Rightarrow> 'r world \<Rightarrow> 'r world \<times> nat" where
  "worker_main running conf logs batches w =
     (case poll_loop running (\<lambda>k. dispatch (conf k) (logs k)) 0 batches w 0 of
        (w', committed) \<Rightarrow> (w'\<lparr>w_broker := close_broker (w_broker w')\<rparr>, committed))"

subsection \<open>What the handlers leave of the store\<close>

abbreviation w_status :: "'r run_conf \<Rightarrow> 'r world \<Rightarrow> pyv option" where
  "w_status C w \<equiv> status_of (rc_kv C) (rc_tid C) (w_store w)"

text \<open>The worlds a handler moves in: the task's state is readable and no cancel request is pending.\<close>

definition steady :: "'r run_conf \<Rightarrow> 'r world \<Rightarrow> bool" where
  "steady C w \<longleftrightarrow> well_stored (rc_kv C) (rc_tid C) (w_store w) \<and> \<not> is_cancelled C w"

definition json_args :: "pydict \<Rightarrow> bool" where
  "json_args kw \<longleftrightarrow> list_all (\<lambda>(k, v). json_value v) kw"

lemma json_args_Cons [simp]: "json_args ((k, v) # kw) \<longleftrightarrow> json_value v \<and> json_args kw"
  and json_args_Nil [simp]: "json_args []"
  and json_args_append [simp]: "json_args (xs @ ys) \<longleftrightarrow> json_args xs \<and> json_args ys"
  by (simp_all add: json_args_def)

lemma json_args_set [simp]: "json_args d \<Longrightarrow> json_value v \<Longrightarrow> json_args (d_set k v d)"
  unfolding d_set_def by (induction d) auto

lemma json_args_update: "json_args d \<Longrightarrow> json_args e \<Longrightarrow> json_args (d_update d e)"
proof (induction e arbitrary: d)
  case (Cons x e)
  then show ?case by (cases x) (simp add: d_update_Cons)
qed (simp add: d_update_def)

lemma json_args_get: "json_args d \<Longrightarrow> json_value v \<Longrightarrow> json_value (d_get_or d k v)"
  by (induction d) (auto simp: d_get_or_def split: if_splits option.splits)

lemma json_dict: "json_value (PDict d) \<Longrightarrow> json_args d"
  by (simp add: json_args_def)

lemma is_cancelled_say [simp]: "is_cancelled C (say topic tid ev p w) = is_cancelled C w"
  by (simp add: is_cancelled_def say_def)

lemma steady_say [simp]: "steady C (say topic tid ev p w) = steady C w" "w_store (say topic tid ev p w) = w_store w"
  by (simp_all add: steady_def is_cancelled_def say_def)

lemma steady_store: "w_store w = w_store w' \<Longrightarrow> steady C w = steady C w'"
  by (simp add: steady_def is_cancelled_def)

context kv_store
begin

text \<open>An update that does not touch the status, and a transition.\<close>

lemma on_update:
  assumes "rc_kv C = K" and "plain_id (rc_tid C)" and "steady C w" and "plain_args kw"
  obtains st where "on_store (task_update (rc_kv C) (rc_now C) (rc_tid C) kw) w = Inr (w\<lparr>w_store := st\<rparr>)"
    and "steady C (w\<lparr>w_store := st\<rparr>)" and "w_status C (w\<lparr>w_store := st\<rparr>) = w_status C w"
proof -
  have ws: "well_stored K (rc_tid C) (w_store w)" and nc: "\<not> task_is_cancelled K (rc_tid C) (w_store w)"
    using assms(1,3) by (simp_all add: steady_def is_cancelled_def)
  have kw: "list_all (\<lambda>(k, v). json_value v \<and> k \<noteq> ''status'') kw" using assms(4) by (simp add: plain_args_def)
  then have "list_all (\<lambda>(k, v). json_value v) kw" by (auto simp: list_all_iff)
  then obtain r st where u: "task_update K (rc_now C) (rc_tid C) kw (w_store w) = Inr (r, st)" "well_stored K (rc_tid C) st"
    and s: "status_of K (rc_tid C) st = (if rc_tid C = rc_tid C then
        (case task_get K (rc_tid C) (w_store w) of Some (PDict d) \<Rightarrow> Some (d_get_or (d_update d kw) ''status'' (PStr ''PENDING'')) | _ \<Rightarrow> None)
        else status_of K (rc_tid C) (w_store w))"
    by (rule task_update_effect [OF ws ws])
  have "status_of K (rc_tid C) st = status_of K (rc_tid C) (w_store w)"
    using s status_after_update [OF kw] by (auto simp: status_of_def d_get_or_get split: option.splits pyv.splits)
  moreover have "\<not> task_is_cancelled K (rc_tid C) st"
    using task_update_writes [OF u(1)] nc cancelled_set_state [OF assms(2)] by auto
  ultimately show thesis using u assms(1) by (intro that [of st]) (simp_all add: on_store_def steady_def is_cancelled_def)
qed

lemma on_transition:
  assumes "rc_kv C = K" and "plain_id (rc_tid C)" and "well_stored K (rc_tid C) (w_store w)" and "plain_args extra"
  obtains st where "transition C status extra w = Inr (w\<lparr>w_store := st\<rparr>)"
    and "well_stored K (rc_tid C) st" and "is_cancelled C (w\<lparr>w_store := st\<rparr>) = is_cancelled C w"
    and "w_status C (w\<lparr>w_store := st\<rparr>) = next_status (w_status C w) status"
proof -
  obtain r st where u: "task_transition K (rc_now C) (rc_tid C) status extra (w_store w) = Inr (r, st)" "well_stored K (rc_tid C) st"
    and s: "status_of K (rc_tid C) st = (if rc_tid C = rc_tid C then next_status (status_of K (rc_tid C) (w_store w)) status
        else status_of K (rc_tid C) (w_store w))"
    by (rule task_transition_effect [OF assms(3,3,4)])
  have "task_is_cancelled K (rc_tid C) st = task_is_cancelled K (rc_tid C) (w_store w)"
    using task_transition_writes [OF u(1)] cancelled_set_state [OF assms(2)] by auto
  then show thesis using u s assms(1) by (intro that [of st]) (simp_all add: transition_def on_store_def is_cancelled_def)
qed

lemma on_heartbeat:
  assumes "rc_kv C = K" and "plain_id (rc_tid C)" and "steady C w"
  shows "steady C (start_heartbeat C w)" and "w_status C (start_heartbeat C w) = w_status C w"
    and "w_broker (start_heartbeat C w) = w_broker w"
  using assms other_keys(3) [OF assms(2)] well_stored_other(3) [OF assms(2)]
  by (auto simp: steady_def is_cancelled_def start_heartbeat_def meddle_def cancelled_heartbeat status_of_def)

end

subsection \<open>Retries\<close>

text \<open>The texts published to a topic, and a consumer that handles the requests in order, including those
  its own handling publishes.\<close>

definition sent_to :: "string \<Rightarrow> 'r world \<Rightarrow> string list" where
  "sent_to topic w = map (snd \<circ> snd) (filter (\<lambda>r. fst r = topic) (bk_sent (w_broker w)))"

fun drain :: "'r run_conf \<Rightarrow> graph_log \<Rightarrow> nat \<Rightarrow> nat \<Rightarrow> 'r world \<Rightarrow> nat \<times> 'r world" where
  "drain C g 0 seen w = (seen, w)"
| "drain C g (Suc f) seen w =
     (if length (sent_to TOPIC_REQUEST w) \<le> seen then (seen, w)
      else (case dispatch (\<lambda>i. C) g (TOPIC_REQUEST, sent_to TOPIC_REQUEST w ! seen) w of
          Inl (e, w') \<Rightarrow> drain C g f (Suc seen) w'
        | Inr w' \<Rightarrow> drain C g f (Suc seen) w'))"

definition opened :: "broker \<Rightarrow> bool" where
  "opened b \<longleftrightarrow> bk_connected b \<and> bk_can_create b \<and> (\<forall>r. bk_accepts b r)"

lemma topics_differ [simp]:
  "TOPIC_REQUEST \<noteq> TOPIC_STATUS" "TOPIC_STATUS \<noteq> TOPIC_REQUEST" "TOPIC_REQUEST \<noteq> TOPIC_DLQ" "TOPIC_DLQ \<noteq> TOPIC_REQUEST"
  "TOPIC_STATUS \<noteq> TOPIC_DLQ" "TOPIC_DLQ \<noteq> TOPIC_STATUS" "TOPIC_RESULT \<noteq> TOPIC_STATUS" "TOPIC_STATUS \<noteq> TOPIC_RESULT"
  "TOPIC_RESULT \<noteq> TOPIC_REQUEST" "TOPIC_REQUEST \<noteq> TOPIC_RESULT" "TOPIC_REQUEST \<noteq> TOPIC_FEEDBACK" "TOPIC_RESULT \<noteq> TOPIC_DLQ"
  by (simp_all add: TOPIC_REQUEST_def TOPIC_STATUS_def TOPIC_DLQ_def TOPIC_RESULT_def TOPIC_FEEDBACK_def)

lemma say_opened:
  assumes "opened (w_broker w)"
  shows "opened (w_broker (say topic (PStr tid) ev p w))"
    and "sent_to t (say topic (PStr tid) ev p w) = sent_to t w @
      (if t = topic then [to_json \<lparr>tm_task_id = PStr tid, tm_event = PStr ev, tm_payload = PDict p\<rparr>] else [])"
  using assms by (auto simp: say_def publish_def get_producer_def opened_def Let_def sent_to_def)

lemma broker_kept [simp]:
  "sent_to t (w\<lparr>w_store := st\<rparr>) = sent_to t w" "w_broker (w\<lparr>w_store := st\<rparr>) = w_broker w"
  "sent_to t (meddle f w) = sent_to t w" "w_broker (meddle f w) = w_broker w"
  "sent_to t (start_heartbeat C w) = sent_to t w" "w_broker (start_heartbeat C w) = w_broker w"
  by (simp_all add: sent_to_def meddle_def start_heartbeat_def)

text \<open>No other process before or after the stream of updates\<close>

definition quiet :: "'r run_conf \<Rightarrow> bool" where
  "quiet C \<longleftrightarrow> rc_before C = (\<lambda>st. st) \<and> rc_mid C = (\<lambda>st. st) \<and> rc_after C = (\<lambda>st. st)
     \<and> (\<exists>tid. rc_id C = PStr tid \<and> plain_id tid)"

definition request :: "pydict \<Rightarrow> int \<Rightarrow> bool" where
  "request p n \<longleftrightarrow> json_value (PDict p) \<and> retry_count_of p = Inr n \<and> d_get p ''question'' \<noteq> None"

definition retry_payload :: "pydict \<Rightarrow> int \<Rightarrow> py_exc \<Rightarrow> pydict" where
  "retry_payload p n e = d_set ''_last_error'' (PStr (error_text e)) (d_set ''_retry_count'' (PInt (n + 1)) p)"

lemma request_retry: "request p n \<Longrightarrow> request (retry_payload p n e) (n + 1)"
  using json_value_set [of p "PInt (n + 1)" "''_retry_count''"]
    json_value_set [of "d_set ''_retry_count'' (PInt (n + 1)) p" "PStr (error_text e)" "''_last_error''"]
  by (auto simp: request_def retry_payload_def retry_count_of_def simp del: json_value.simps(5))

text \<open>A world in which the task waits for its next attempt\<close>

definition awaits :: "'r run_conf \<Rightarrow> 'r world \<Rightarrow> bool" where
  "awaits C w \<longleftrightarrow> steady C w \<and> opened (w_broker w) \<and> w_status C w \<in> {Some (PStr ''PENDING''), Some (PStr ''RUNNING'')}"

context kv_store
begin

text \<open>The common start of every attempt\<close>

lemma started:
  assumes C: "rc_kv C = K" "quiet C" and w: "steady C w" "opened (w_broker w)" and p: "request p n" "0 \<le> n"
  obtains w1 to where "handle_task C g (PDict p) w =
      settle C g p n to (wait_for C g (finish_run C p (gl_elapsed g)) (graph_input p) w1)"
    and "steady C w1" and "opened (w_broker w1)" and "w_status C w1 = next_status (w_status C w) ''RUNNING''"
    and "\<And>t. t \<noteq> TOPIC_STATUS \<Longrightarrow> sent_to t w1 = sent_to t w"
proof -
  obtain tid where tid: "rc_id C = PStr tid" "plain_id tid" "rc_tid C = tid"
    using C(2) by (auto simp: quiet_def)
  have ws: "well_stored K (rc_tid C) (w_store w)" and nc: "\<not> is_cancelled C w"
    using w C(1) by (simp_all add: steady_def)
  obtain to where to: "task_timeout n = Inr to" using p(2) by (auto simp: task_timeout_def Let_def TASK_TIMEOUTS_def)
  have ra: "plain_args [(''retry_count'', PInt n)]" by (simp add: plain_args_def)
  obtain s1 where t: "transition C ''RUNNING'' [(''retry_count'', PInt n)] w = Inr (w\<lparr>w_store := s1\<rparr>)"
    and s1: "well_stored K (rc_tid C) s1" "is_cancelled C (w\<lparr>w_store := s1\<rparr>) = is_cancelled C w"
      "w_status C (w\<lparr>w_store := s1\<rparr>) = next_status (w_status C w) ''RUNNING''"
    using on_transition [OF C(1) _ ws ra, of "''RUNNING''"] tid by auto
  let ?w = "say TOPIC_STATUS (rc_id C) ''running'' [(''retry_count'', PInt n), (''timeout_s'', PInt (int to))] (w\<lparr>w_store := s1\<rparr>)"
  have sw: "steady C ?w" using s1 nc C(1) by (simp add: steady_def)
  note h = on_heartbeat [OF C(1) _ sw]
  have "handle_task C g (PDict p) w = settle C g p n to
      (wait_for C g (finish_run C p (gl_elapsed g)) (graph_input p) (start_heartbeat C ?w))"
    using C(2) nc p(1) to t by (simp add: handle_task_def quiet_def meddle_def as_dict_def request_def Let_def)
  then show thesis
    using h(1,2) s1(3) tid w(2) by (intro that [of to "start_heartbeat C ?w"]) (auto simp: say_opened)
qed

lemma graph_input_good:
  assumes "request p n"
  shows "\<exists>inp. graph_input p = Inr inp \<and> json_args inp"
proof -
  obtain q where q: "d_get p ''question'' = Some q" using assms by (auto simp: request_def)
  have j: "json_args p" using assms json_dict by (simp add: request_def del: json_value.simps(5))
  have "json_value q" using json_args_get [OF j, of PNone "''question''"] q by (simp add: d_get_or_get)
  then show ?thesis using q j by (simp add: graph_input_def py_item_def json_args_get)
qed

end

subsection \<open>Runs that succeed\<close>

text \<open>Updates of JSON values whose summaries can be written\<close>

fun good_steps :: "pydict \<Rightarrow> (string \<times> pydict) list \<Rightarrow> bool" where
  "good_steps acc [] = True"
| "good_steps acc (step # steps) =
     (let acc = d_update acc (snd step)
      in json_args (snd step) \<and> py_ok (\<lambda>v. True) (summarize_node (fst step) acc) \<and> good_steps acc steps)"

definition accumulated :: "pydict \<Rightarrow> (string \<times> pydict) list \<Rightarrow> pydict" where
  "accumulated acc steps = fold (\<lambda>step a. d_update a (snd step)) steps acc"

definition publishable :: "pydict \<Rightarrow> bool" where
  "publishable acc \<longleftrightarrow> json_args acc \<and> py_ok json_value (sanitize (d_get_or acc ''exec_result'' PNone))"

text \<open>No other process before the updates from \<open>i\<close> up to \<open>n\<close>\<close>

definition undisturbed :: "'r run_conf \<Rightarrow> nat \<Rightarrow> nat \<Rightarrow> bool" where
  "undisturbed C i n \<longleftrightarrow> (\<forall>j\<in>{i..<n}. rc_env C j = (\<lambda>st. st))"

lemma json_args_chosen: "json_args acc \<Longrightarrow> json_value v \<Longrightarrow> json_value (chosen_sql acc v)"
  by (simp add: chosen_sql_def py_or_val_def json_args_get)

lemma json_args_timings: "json_args acc \<Longrightarrow> json_args (timings acc)"
  by (simp add: timings_def json_args_get)

lemma plain_args_json: "json_args kw \<Longrightarrow> ''status'' \<notin> fst ` set kw \<Longrightarrow> plain_args kw"
  by (force simp: plain_args_def json_args_def list_all_iff)

lemma say_keeps:
  "t \<noteq> topic \<Longrightarrow> sent_to t (say topic tid ev p w) = sent_to t w"
  "opened (w_broker w) \<Longrightarrow> opened (w_broker (say topic tid ev p w))"
  by (auto simp: say_def publish_def get_producer_def opened_def Let_def sent_to_def split: pyv.split)

context kv_store
begin

lemma stream_good:
  assumes C: "rc_kv C = K" "plain_id (rc_tid C)"
  shows "undisturbed C i (i + length steps) \<Longrightarrow> steady C w \<Longrightarrow> json_args acc \<Longrightarrow> good_steps acc steps \<Longrightarrow>
    \<exists>w'. stream_steps C i steps acc w = Streaming (accumulated acc steps) w' \<and> steady C w' \<and> w_status C w' = w_status C w
      \<and> json_args (accumulated acc steps) \<and> sent_to TOPIC_RESULT w' = sent_to TOPIC_RESULT w
      \<and> (opened (w_broker w) \<longrightarrow> opened (w_broker w'))"
proof (induction steps arbitrary: i acc w)
  case Nil
  then show ?case by (simp add: accumulated_def)
next
  case (Cons step steps)
  let ?acc = "d_update acc (snd step)"
  have m: "meddle (rc_env C i) w = w" using Cons.prems(1) by (simp add: undisturbed_def meddle_def)
  have nc: "\<not> task_is_cancelled (rc_kv C) (rc_tid C) (w_store w)"
    using Cons.prems(2) by (simp add: steady_def is_cancelled_def)
  obtain summary where sm: "summarize_node (fst step) ?acc = Inr summary"
    using Cons.prems(4) by (auto simp: Let_def py_ok_iff)
  have ja: "json_args ?acc" using Cons.prems(3,4) by (simp add: Let_def json_args_update)
  let ?say = "say TOPIC_STATUS (rc_id C) ''node_done'' [(''node'', PStr (fst step)), (''summary'', PDict summary)] w"
  let ?kw = "[(''node'', PStr (fst step)), (''progress'', PInt (node_progress (fst step))),
      (''sql'', chosen_sql ?acc PNone), (''token_usage'', d_get_or ?acc ''token_usage'' (PDict [])),
      (''node_timings'', d_get_or ?acc ''node_latency'' (PDict []))]"
  have "json_args ?kw" using ja json_args_chosen [OF ja, of PNone] by (simp add: json_args_get)
  then have kw: "plain_args ?kw" by (rule plain_args_json) simp
  have "steady C ?say" using Cons.prems(2) by simp
  then obtain st where st: "on_store (task_update (rc_kv C) (rc_now C) (rc_tid C) ?kw) ?say = Inr (?say\<lparr>w_store := st\<rparr>)"
      "steady C (?say\<lparr>w_store := st\<rparr>)" "w_status C (?say\<lparr>w_store := st\<rparr>) = w_status C ?say"
    using on_update [OF C(1,2) _ kw] by blast
  have "node_done C step ?acc w = Inr (?say\<lparr>w_store := st\<rparr>)"
    using st(1) sm by (simp add: node_done_def case_prod_unfold)
  moreover have gs: "good_steps ?acc steps" using Cons.prems(4) by (simp add: Let_def)
  have "undisturbed C (Suc i) (Suc i + length steps)" using Cons.prems(1) by (simp add: undisturbed_def)
  from Cons.IH [OF this st(2) ja gs] obtain w' where
    "stream_steps C (Suc i) steps ?acc (?say\<lparr>w_store := st\<rparr>) = Streaming (accumulated ?acc steps) w'"
    "steady C w'" "w_status C w' = w_status C w" "json_args (accumulated ?acc steps)"
    "sent_to TOPIC_RESULT w' = sent_to TOPIC_RESULT w" "opened (w_broker w) \<longrightarrow> opened (w_broker w')"
    using st(3) say_keeps(2) [of w TOPIC_STATUS "rc_id C"] by (auto simp: say_keeps(1))
  ultimately show ?case using nc by (simp add: m Let_def accumulated_def)
qed

lemma finish_good:
  assumes C: "rc_kv C = K" "plain_id (rc_tid C)" "rc_id C = PStr tid" and w: "steady C w" "opened (w_broker w)"
    and acc: "publishable acc" and p: "json_value (PDict p)"
  shows "\<exists>w'. finish_run C p el acc w = Inr w' \<and> steady C w' \<and> w_status C w' = w_status C w
    \<and> opened (w_broker w') \<and> length (sent_to TOPIC_RESULT w') = Suc (length (sent_to TOPIC_RESULT w))"
proof -
  obtain res where res: "sanitize (d_get_or acc ''exec_result'' PNone) = Inr res" "json_value res"
    using acc by (auto simp: publishable_def py_ok_iff)
  let ?kw = "[(''sql'', chosen_sql acc (PStr [])), (''exec_result'', res)] @ timings acc
    @ [(''_schema_text'', d_get_or acc ''schema_text'' (PStr [])), (''_notes_text'', d_get_or acc ''notes_text'' (PStr [])),
       (''_fewshot_text'', d_get_or acc ''fewshot_text'' (PStr [])), (''_original_payload'', PDict p)]"
  have "json_args ?kw"
    using acc res(2) p json_args_chosen [of acc "PStr []"]
    by (simp add: publishable_def json_args_get json_args_timings del: json_value.simps(5))
  then have kw: "plain_args ?kw" by (rule plain_args_json) (simp add: timings_def)
  obtain st where "on_store (task_update (rc_kv C) (rc_now C) (rc_tid C) ?kw) w = Inr (w\<lparr>w_store := st\<rparr>)"
      "steady C (w\<lparr>w_store := st\<rparr>)" "w_status C (w\<lparr>w_store := st\<rparr>) = w_status C w"
    using on_update [OF C(1,2) w(1) kw] by blast
  then show ?thesis using res(1) C(3) w(2) by (simp add: finish_run_def Let_def say_opened)
qed

lemma transition_steady:
  assumes C: "rc_kv C = K" "quiet C" and w: "steady C w" and a: "plain_args extra"
  shows "\<exists>st. transition C status extra w = Inr (w\<lparr>w_store := st\<rparr>) \<and> steady C (w\<lparr>w_store := st\<rparr>)
    \<and> w_status C (w\<lparr>w_store := st\<rparr>) = next_status (w_status C w) status"
proof -
  have ws: "well_stored K (rc_tid C) (w_store w)" and pl: "plain_id (rc_tid C)"
    using w C by (auto simp: steady_def quiet_def)
  obtain st where "transition C status extra w = Inr (w\<lparr>w_store := st\<rparr>)" "well_stored K (rc_tid C) st"
      "is_cancelled C (w\<lparr>w_store := st\<rparr>) = is_cancelled C w" "w_status C (w\<lparr>w_store := st\<rparr>) = next_status (w_status C w) status"
    by (rule on_transition [OF C(1) pl ws a])
  then show ?thesis using w C(1) by (auto simp: steady_def)
qed

lemma quiet_id: "quiet C \<Longrightarrow> plain_id (rc_tid C) \<and> rc_id C = PStr (rc_tid C) \<and> rc_after C = (\<lambda>st. st)"
  by (auto simp: quiet_def)

lemma stream_finish:
  assumes C: "rc_kv C = K" "quiet C" "undisturbed C i (i + length steps)" and w: "steady C w" "opened (w_broker w)"
    and acc: "json_args acc" "good_steps acc steps" "publishable (accumulated acc steps)" and p: "json_value (PDict p)"
    and g: "gl_error g = None"
  shows "\<exists>w'. end_stream g (finish_run C p el) (stream_steps C i steps acc w) = Streaming (accumulated acc steps) w'
    \<and> steady C w' \<and> w_status C w' = w_status C w \<and> length (sent_to TOPIC_RESULT w') = Suc (length (sent_to TOPIC_RESULT w))"
proof -
  note q = quiet_id [OF C(2)]
  obtain w1 where 1: "stream_steps C i steps acc w = Streaming (accumulated acc steps) w1" "steady C w1"
    "w_status C w1 = w_status C w" "sent_to TOPIC_RESULT w1 = sent_to TOPIC_RESULT w" "opened (w_broker w1)"
    using stream_good [OF C(1) _ C(3) w(1) acc(1,2)] q w(2) by blast
  show ?thesis
    using finish_good [OF C(1) conjunct1 [OF q] _ 1(2,5) acc(3) p, of "rc_tid C" el] q 1 g
    by (auto simp: end_stream_def)
qed

end

lemma batch_loop_all:
  assumes "\<And>k m w. h k m w = Inr (f m w)" and "\<And>j. j < length xs \<Longrightarrow> running (k + j)" and "\<not> running (k + length xs)"
    and "xs \<noteq> []"
  shows "batch_loop running h k pos (xs @ rest) w com = (fold f xs w, pos)"
  using assms(2-)
proof (induction xs arbitrary: k w com)
  case (Cons x xs)
  show ?case
  proof (cases "xs = []")
    case True
    then show ?thesis using Cons.prems assms(1) by (cases rest) auto
  next
    case False
    have "\<And>j. j < length xs \<Longrightarrow> running (Suc k + j)" using Cons.prems(1) [of "Suc j" for j] by simp
    moreover have "\<not> running (Suc k + length xs)" using Cons.prems(2) by simp
    moreover have "running k" using Cons.prems(1) [of 0] by simp
    ultimately show ?thesis using Cons.IH [of "Suc k" "f x w" pos] False assms(1) by simp
  qed
qed simp

lemma good_steps_append:
  "good_steps acc (xs @ ys) \<longleftrightarrow> good_steps acc xs \<and> good_steps (accumulated acc xs) ys"
  by (induction xs arbitrary: acc) (auto simp: accumulated_def Let_def)

lemma accumulated_append: "accumulated acc (xs @ ys) = accumulated (accumulated acc xs) ys"
  by (simp add: accumulated_def)

lemma stream_steps_append:
  "stream_steps C i (xs @ ys) acc w =
     (case stream_steps C i xs acc w of Streaming a w' \<Rightarrow> stream_steps C (i + length xs) ys a w' | r \<Rightarrow> r)"
  by (induction xs arbitrary: i acc w) (auto simp: Let_def split: sum.split streamed.split)

definition task_input :: "pydict \<Rightarrow> pydict" where
  "task_input p = (case graph_input p of Inr inp \<Rightarrow> inp | Inl e \<Rightarrow> [])"

definition good_run :: "graph_log \<Rightarrow> pydict \<Rightarrow> bool" where
  "good_run g p \<longleftrightarrow> gl_error g = None \<and> good_steps (task_input p) (gl_steps g)
     \<and> publishable (accumulated (task_input p) (gl_steps g))"

lemma json_args_accumulated: "json_args acc \<Longrightarrow> good_steps acc steps \<Longrightarrow> json_args (accumulated acc steps)"
  by (induction steps arbitrary: acc) (auto simp: accumulated_def Let_def json_args_update)

context kv_store
begin

lemma good_task:
  assumes C: "rc_kv C = K" "quiet C" "undisturbed C 0 (length (gl_steps g))"
    and w: "steady C w" "opened (w_broker w)" and p: "request p n" "0 \<le> n" and g: "good_run g p" "gl_deadline g = None"
  shows "\<exists>w'. handle_task C g (PDict p) w = Inr w' \<and>
    w_status C w' = next_status (next_status (w_status C w) ''RUNNING'') ''SUCCESS'' \<and>
    length (sent_to TOPIC_RESULT w') = Suc (length (sent_to TOPIC_RESULT w))"
proof -
  obtain w1 to where 1: "handle_task C g (PDict p) w =
      settle C g p n to (wait_for C g (finish_run C p (gl_elapsed g)) (graph_input p) w1)"
    "steady C w1" "opened (w_broker w1)" "w_status C w1 = next_status (w_status C w) ''RUNNING''"
    "\<And>t. t \<noteq> TOPIC_STATUS \<Longrightarrow> sent_to t w1 = sent_to t w"
    by (rule started [OF C(1,2) w p]) blast
  obtain inp where inp: "graph_input p = Inr inp" "json_args inp" using graph_input_good [OF p(1)] by blast
  have ti: "task_input p = inp" by (simp add: task_input_def inp)
  obtain w2 where 2: "end_stream g (finish_run C p (gl_elapsed g)) (stream_steps C 0 (gl_steps g) inp w1)
      = Streaming (accumulated inp (gl_steps g)) w2" "steady C w2" "w_status C w2 = w_status C w1"
    "length (sent_to TOPIC_RESULT w2) = Suc (length (sent_to TOPIC_RESULT w1))"
    using stream_finish [OF C(1,2) _ 1(2,3) inp(2), of 0 "gl_steps g" p g "gl_elapsed g"] C(3) g(1) p(1) ti
    by (auto simp: good_run_def request_def)
  have "plain_args []" by (simp add: plain_args_def)
  from transition_steady [OF C(1,2) 2(2) this, of "''SUCCESS''"] obtain st where
    t: "transition C ''SUCCESS'' [] w2 = Inr (w2\<lparr>w_store := st\<rparr>)"
    "w_status C (w2\<lparr>w_store := st\<rparr>) = next_status (w_status C w2) ''SUCCESS''" by blast
  have "handle_task C g (PDict p) w = Inr (w2\<lparr>w_store := st\<rparr>)"
    using 1(1) 2(1) g(2) t(1) quiet_id [OF C(2)] by (simp add: wait_for_def inp settle_def meddle_def)
  then show ?thesis using t(2) 2 1(4,5) by simp
qed

lemma timed_out_task:
  assumes C: "rc_kv C = K" "quiet C" "undisturbed C 0 (length (gl_steps g))"
    and w: "awaits C w" and p: "request p n" "0 \<le> n" and g: "good_run g p" "gl_deadline g = Some m" "m \<le> length (gl_steps g)"
  shows "\<exists>w1 acc w2. handle_task C g (PDict p) w = Inr w1 \<and> w_status C w1 = Some (PStr ''TIMEOUT'') \<and>
    sent_to TOPIC_RESULT w1 = sent_to TOPIC_RESULT w \<and>
    abandoned C g (finish_run C p (gl_elapsed g)) (accumulated (task_input p) (take m (gl_steps g))) w1 = Streaming acc w2 \<and>
    w_status C w2 = Some (PStr ''TIMEOUT'') \<and>
    length (sent_to TOPIC_RESULT w2) = Suc (length (sent_to TOPIC_RESULT w))"
proof -
  have w': "steady C w" "opened (w_broker w)" using w by (simp_all add: awaits_def)
  obtain w1 to where 1: "handle_task C g (PDict p) w =
      settle C g p n to (wait_for C g (finish_run C p (gl_elapsed g)) (graph_input p) w1)"
    "steady C w1" "opened (w_broker w1)" "w_status C w1 = next_status (w_status C w) ''RUNNING''"
    "\<And>t. t \<noteq> TOPIC_STATUS \<Longrightarrow> sent_to t w1 = sent_to t w"
    by (rule started [OF C(1,2) w' p]) blast
  obtain inp where inp: "graph_input p = Inr inp" "json_args inp" using graph_input_good [OF p(1)] by blast
  have ti: "task_input p = inp" by (simp add: task_input_def inp)
  let ?a = "take m (gl_steps g)" and ?b = "drop m (gl_steps g)"
  have gs: "good_steps inp ?a" "good_steps (accumulated inp ?a) ?b" "publishable (accumulated (accumulated inp ?a) ?b)"
    using g(1) good_steps_append [of inp ?a ?b] accumulated_append [of inp ?a ?b] by (simp_all add: good_run_def ti)
  have ua: "undisturbed C 0 (0 + length ?a)" and ub: "undisturbed C m (m + length ?b)"
    using C(3) g(3) by (auto simp: undisturbed_def)
  obtain w2 where 2: "stream_steps C 0 ?a inp w1 = Streaming (accumulated inp ?a) w2" "steady C w2"
    "w_status C w2 = w_status C w1" "sent_to TOPIC_RESULT w2 = sent_to TOPIC_RESULT w1" "opened (w_broker w2)"
    using stream_good [OF C(1) _ ua 1(2) inp(2) gs(1)] quiet_id [OF C(2)] 1(3) by blast
  let ?x = "[(''error'', PStr (''Task timed out after '' @ show_nat to @ ''s''))]"
  have "plain_args ?x" by (simp add: plain_args_def)
  from transition_steady [OF C(1,2) 2(2) this, of "''TIMEOUT''"] obtain st where
    t: "transition C ''TIMEOUT'' ?x w2 = Inr (w2\<lparr>w_store := st\<rparr>)" "steady C (w2\<lparr>w_store := st\<rparr>)"
    "w_status C (w2\<lparr>w_store := st\<rparr>) = next_status (w_status C w2) ''TIMEOUT''" by blast
  let ?w = "say TOPIC_STATUS (rc_id C) ''timeout'' [(''retry_count'', PInt n), (''timeout_s'', PInt (int to))] (w2\<lparr>w_store := st\<rparr>)"
  have h: "handle_task C g (PDict p) w = Inr ?w"
    using 1(1) 2(1,2) t(1) by (simp add: wait_for_def inp g(2) settle_def settle_timeout_def steady_def)
  have s: "w_status C ?w = Some (PStr ''TIMEOUT'')"
    using t(3) 2(3) 1(4) w by (auto simp: awaits_def next_status_def allowed_next_def)
  have "opened (w_broker ?w)" and "steady C ?w" and r: "sent_to TOPIC_RESULT ?w = sent_to TOPIC_RESULT w"
    using 2(4,5) t(2) 1(5) by (simp_all add: say_keeps)
  then show ?thesis
    using stream_finish [OF C(1,2) ub _ _ json_args_accumulated [OF inp(2) gs(1)] gs(2,3), of ?w p g "gl_elapsed g"]
      g(1,2) p(1) h s ti
    by (auto simp: abandoned_def good_run_def request_def)
qed

end

subsection \<open>Runs that fail\<close>

text \<open>A run that raises, after any number of updates the worker can pass on, before the handler gives up.\<close>

definition always_fails :: "graph_log \<Rightarrow> pydict \<Rightarrow> py_exc \<Rightarrow> bool" where
  "always_fails g p e \<longleftrightarrow> gl_error g = Some e \<and> gl_deadline g = None \<and> good_steps (task_input p) (gl_steps g)"

lemma d_get_retry: "k \<noteq> ''_retry_count'' \<Longrightarrow> k \<noteq> ''_last_error'' \<Longrightarrow> 
   d_get (retry_payload p n e) k = d_get p k \<and> d_get_or (retry_payload p n e) k v = d_get_or p k v"
  by (simp add: retry_payload_def d_get_or_get)

text \<open>The graph of a retry gets the same input.\<close>

lemma always_fails_retry: "always_fails g p e \<Longrightarrow> always_fails g (retry_payload p n e') e"
  by (simp add: always_fails_def task_input_def graph_input_def py_item_def d_get_retry)

lemma stream_topics:
  "stream_steps C i steps acc w = Streaming acc' w' \<Longrightarrow> t \<noteq> TOPIC_STATUS \<Longrightarrow> sent_to t w' = sent_to t w"
proof (induction steps arbitrary: i acc w)
  case (Cons step steps)
  let ?w = "meddle (rc_env C i) w"
  obtain w1 where n: "node_done C step (d_update acc (snd step)) ?w = Inr w1"
    and r: "stream_steps C (Suc i) steps (d_update acc (snd step)) w1 = Streaming acc' w'"
    using Cons.prems(1) by (auto simp: Let_def split: if_splits sum.splits)
  have "sent_to t w1 = sent_to t w"
    using n Cons.prems(2) by (auto simp: node_done_def on_store_def say_keeps split: sum.splits prod.splits)
  then show ?case using Cons.IH [OF r Cons.prems(2)] by simp
qed simp

context kv_store
begin

lemma attempt:
  assumes C: "rc_kv C = K" "quiet C" "undisturbed C 0 (length (gl_steps g))"
    and w: "awaits C w" and p: "request p n" "0 \<le> n" and g: "always_fails g p e"
  obtains w1 to where "handle_task C g (PDict p) w = settle C g p n to (Errored e w1)" and "steady C w1" and "opened (w_broker w1)"
    and "w_status C w1 = Some (PStr ''RUNNING'')"
    and "sent_to TOPIC_REQUEST w1 = sent_to TOPIC_REQUEST w" and "sent_to TOPIC_DLQ w1 = sent_to TOPIC_DLQ w"
proof -
  obtain w1 to where 1: "handle_task C g (PDict p) w =
      settle C g p n to (wait_for C g (finish_run C p (gl_elapsed g)) (graph_input p) w1)"
    "steady C w1" "opened (w_broker w1)" "w_status C w1 = next_status (w_status C w) ''RUNNING''"
    "\<And>t. t \<noteq> TOPIC_STATUS \<Longrightarrow> sent_to t w1 = sent_to t w"
    using started [OF C(1,2) _ _ p] w unfolding awaits_def by blast
  have r: "w_status C w1 = Some (PStr ''RUNNING'')"
    using 1(4) w by (auto simp: awaits_def next_status_def allowed_next_def)
  obtain inp where inp: "graph_input p = Inr inp" "json_args inp" using graph_input_good [OF p(1)] by blast
  have gs: "good_steps inp (gl_steps g)" using g inp(1) by (simp add: always_fails_def task_input_def)
  have u: "undisturbed C 0 (0 + length (gl_steps g))" using C(3) by simp
  obtain w2 where 2: "stream_steps C 0 (gl_steps g) inp w1 = Streaming (accumulated inp (gl_steps g)) w2" "steady C w2"
    "w_status C w2 = w_status C w1" "opened (w_broker w2)"
    using stream_good [OF C(1) _ u 1(2) inp(2) gs] quiet_id [OF C(2)] 1(3) by blast
  have "handle_task C g (PDict p) w = settle C g p n to (Errored e w2)"
    using 1(1) 2(1) g inp(1) by (simp add: wait_for_def end_stream_def always_fails_def)
  then show thesis
    using 2 r 1(5) stream_topics [OF 2(1)] by (intro that [of to w2]) simp_all
qed

lemma timeout_step:
  assumes C: "rc_kv C = K" "quiet C" "undisturbed C 0 (length (gl_steps g))"
    and w: "awaits C w" and p: "request p n" "0 \<le> n" and g: "always_fails g p e" "exc_type e = ''TimeoutError''"
  shows "\<exists>w'. handle_task C g (PDict p) w = Inr w' \<and> w_status C w' = Some (PStr ''TIMEOUT'') \<and>
    sent_to TOPIC_REQUEST w' = sent_to TOPIC_REQUEST w \<and> sent_to TOPIC_DLQ w' = sent_to TOPIC_DLQ w"
proof -
  obtain w1 to where 1: "handle_task C g (PDict p) w = settle C g p n to (Errored e w1)" "steady C w1" "opened (w_broker w1)"
    "w_status C w1 = Some (PStr ''RUNNING'')"
    "sent_to TOPIC_REQUEST w1 = sent_to TOPIC_REQUEST w" "sent_to TOPIC_DLQ w1 = sent_to TOPIC_DLQ w"
    by (rule attempt [OF C w p g(1)])
  let ?x = "[(''error'', PStr (''Task timed out after '' @ show_nat to @ ''s''))]"
  have "plain_args ?x" by (simp add: plain_args_def)
  from transition_steady [OF C(1,2) 1(2) this, of "''TIMEOUT''"] obtain st where
    t: "transition C ''TIMEOUT'' ?x w1 = Inr (w1\<lparr>w_store := st\<rparr>)"
    "w_status C (w1\<lparr>w_store := st\<rparr>) = next_status (w_status C w1) ''TIMEOUT''" by blast
  show ?thesis
    using 1 t g(2) by (simp add: settle_def settle_timeout_def steady_def next_status_def allowed_next_def say_keeps)
qed

lemma retry_step:
  assumes C: "rc_kv C = K" "quiet C" "undisturbed C 0 (length (gl_steps g))"
    and w: "awaits C w" and p: "request p n" "0 \<le> n" "n < 3" and g: "always_fails g p e" "exc_type e \<noteq> ''TimeoutError''"
  shows "\<exists>w'. handle_task C g (PDict p) w = Inr w' \<and> awaits C w' \<and>
    sent_to TOPIC_REQUEST w' = sent_to TOPIC_REQUEST w @
      [to_json \<lparr>tm_task_id = rc_id C, tm_event = PStr ''retry'', tm_payload = PDict (retry_payload p n e)\<rparr>] \<and>
    sent_to TOPIC_DLQ w' = sent_to TOPIC_DLQ w"
proof -
  obtain tid where tid: "rc_id C = PStr tid" "plain_id tid" "rc_tid C = tid"
    using C(2) by (auto simp: quiet_def)
  obtain w1 to where 1: "handle_task C g (PDict p) w = settle C g p n to (Errored e w1)" "steady C w1" "opened (w_broker w1)"
    "w_status C w1 = Some (PStr ''RUNNING'')"
    "sent_to TOPIC_REQUEST w1 = sent_to TOPIC_REQUEST w" "sent_to TOPIC_DLQ w1 = sent_to TOPIC_DLQ w"
    by (rule attempt [OF C w p(1,2) g(1)])
  let ?w = "say TOPIC_REQUEST (rc_id C) ''retry'' (retry_payload p n e) w1"
  have kw: "plain_args [(''retry_count'', PInt (n + 1)), (''error'', PStr (error_text e))]" by (simp add: plain_args_def)
  have "steady C ?w" using 1(2) by simp
  then obtain st where u: "on_store (task_update (rc_kv C) (rc_now C) (rc_tid C)
        [(''retry_count'', PInt (n + 1)), (''error'', PStr (error_text e))]) ?w = Inr (?w\<lparr>w_store := st\<rparr>)"
      "steady C (?w\<lparr>w_store := st\<rparr>)" "w_status C (?w\<lparr>w_store := st\<rparr>) = w_status C ?w"
    using on_update [OF C(1) _ _ kw] tid by metis
  have nc: "\<not> is_cancelled C w1" using 1(2) by (simp add: steady_def)
  show ?thesis
    using 1 u nc p(3) tid g(2)
    by (simp add: say_opened settle_def settle_error_def Let_def MAX_RETRIES_def awaits_def retry_payload_def [symmetric])
qed

lemma last_step:
  assumes C: "rc_kv C = K" "quiet C" "undisturbed C 0 (length (gl_steps g))"
    and w: "awaits C w" and p: "request p 3" and g: "always_fails g p e" "exc_type e \<noteq> ''TimeoutError''"
  shows "\<exists>w'. handle_task C g (PDict p) w = Inr w' \<and> w_status C w' = Some (PStr ''FAILED'') \<and>
    sent_to TOPIC_REQUEST w' = sent_to TOPIC_REQUEST w \<and> length (sent_to TOPIC_DLQ w') = Suc (length (sent_to TOPIC_DLQ w))"
proof -
  obtain tid where tid: "rc_id C = PStr tid" "plain_id tid" "rc_tid C = tid"
    using C(2) by (auto simp: quiet_def)
  obtain w1 to where 1: "handle_task C g (PDict p) w = settle C g p 3 to (Errored e w1)" "steady C w1" "opened (w_broker w1)"
    "w_status C w1 = Some (PStr ''RUNNING'')"
    "sent_to TOPIC_REQUEST w1 = sent_to TOPIC_REQUEST w" "sent_to TOPIC_DLQ w1 = sent_to TOPIC_DLQ w"
    by (rule attempt [OF C w p _ g(1)]) simp
  have nc: "\<not> is_cancelled C w1" and ws: "well_stored K (rc_tid C) (w_store w1)"
    using 1(2) C(1) by (simp_all add: steady_def)
  have a: "plain_args [(''error'', PStr (error_text e))]" by (simp add: plain_args_def)
  obtain st where t: "transition C ''FAILED'' [(''error'', PStr (error_text e))] w1 = Inr (w1\<lparr>w_store := st\<rparr>)"
    and s: "w_status C (w1\<lparr>w_store := st\<rparr>) = next_status (w_status C w1) ''FAILED''"
    using on_transition [OF C(1) _ ws a, of "''FAILED''"] tid by auto
  let ?w = "say TOPIC_STATUS (rc_id C) ''failed'' [(''error'', PStr (error_text e)), (''retries_exhausted'', PBool True)]
      (w1\<lparr>w_store := st\<rparr>)"
  show ?thesis
    using 1 nc t s tid g(2)
    by (simp add: settle_def settle_error_def Let_def MAX_RETRIES_def next_status_def allowed_next_def say_opened)
qed

lemma drain_failing:
  assumes C: "rc_kv C = K" "quiet C" "undisturbed C 0 (length (gl_steps g))" and e: "exc_type e \<noteq> ''TimeoutError''"
  shows "always_fails g p e \<Longrightarrow> awaits C w \<Longrightarrow> request p (3 - int m) \<Longrightarrow> length (sent_to TOPIC_REQUEST w) = Suc seen \<Longrightarrow> m \<le> 3 \<Longrightarrow>
    sent_to TOPIC_REQUEST w ! seen = to_json \<lparr>tm_task_id = rc_id C, tm_event = PStr ev, tm_payload = PDict p\<rparr> \<Longrightarrow>
    \<exists>w'. drain C g (Suc m + k) seen w = (seen + Suc m, w') \<and> w_status C w' = Some (PStr ''FAILED'') \<and>
      length (sent_to TOPIC_REQUEST w') = seen + Suc m \<and> length (sent_to TOPIC_DLQ w') = Suc (length (sent_to TOPIC_DLQ w))"
proof (induction m arbitrary: w p seen ev)
  case (0 w p seen ev)
  have "dispatch (\<lambda>i. C) g (TOPIC_REQUEST, sent_to TOPIC_REQUEST w ! seen) w = handle_task C g (PDict p) w"
    using 0 C(2) from_to_json [of "\<lparr>tm_task_id = rc_id C, tm_event = PStr ev, tm_payload = PDict p\<rparr>"]
    by (auto simp: dispatch_def request_def quiet_def simp del: json_value.simps(5))
  moreover obtain w' where "handle_task C g (PDict p) w = Inr w'" "w_status C w' = Some (PStr ''FAILED'')"
    "sent_to TOPIC_REQUEST w' = sent_to TOPIC_REQUEST w" "length (sent_to TOPIC_DLQ w') = Suc (length (sent_to TOPIC_DLQ w))"
    using last_step [OF C 0(2) _ 0(1) e] 0(3) by auto
  moreover have "drain C g k (Suc seen) w' = (Suc seen, w')" if "length (sent_to TOPIC_REQUEST w') = Suc seen"
    using that by (cases k) auto
  ultimately show ?case using 0(4) by auto
next
  case (Suc m w p seen ev)
  have "dispatch (\<lambda>i. C) g (TOPIC_REQUEST, sent_to TOPIC_REQUEST w ! seen) w = handle_task C g (PDict p) w"
    using Suc.prems C(2) from_to_json [of "\<lparr>tm_task_id = rc_id C, tm_event = PStr ev, tm_payload = PDict p\<rparr>"]
    by (auto simp: dispatch_def request_def quiet_def simp del: json_value.simps(5))
  moreover obtain w1 where 1: "handle_task C g (PDict p) w = Inr w1" "awaits C w1"
    "sent_to TOPIC_REQUEST w1 = sent_to TOPIC_REQUEST w @
      [to_json \<lparr>tm_task_id = rc_id C, tm_event = PStr ''retry'', tm_payload = PDict (retry_payload p (3 - int (Suc m)) e)\<rparr>]"
    "sent_to TOPIC_DLQ w1 = sent_to TOPIC_DLQ w"
    using retry_step [OF C Suc.prems(2,3) _ _ Suc.prems(1) e] Suc.prems(5) by auto
  moreover have "request (retry_payload p (3 - int (Suc m)) e) (3 - int m)"
    using request_retry [OF Suc.prems(3), of e] by simp
  from Suc.IH [OF always_fails_retry [OF Suc.prems(1)] 1(2) this, of "Suc seen" "''retry''"] Suc.prems(4,5) 1(3,4)
  obtain w' where "drain C g (Suc m + k) (Suc seen) w1 = (Suc seen + Suc m, w')" "w_status C w' = Some (PStr ''FAILED'')"
    "length (sent_to TOPIC_REQUEST w') = Suc seen + Suc m" "length (sent_to TOPIC_DLQ w') = Suc (length (sent_to TOPIC_DLQ w1))"
    by (auto simp: nth_append)
  ultimately show ?case using Suc.prems(4) by auto
qed

lemma drain_timeout:
  assumes C: "rc_kv C = K" "quiet C" "undisturbed C 0 (length (gl_steps g))"
    and w: "awaits C w" and p: "request p 0" and g: "always_fails g p e" "exc_type e = ''TimeoutError''"
    and m: "sent_to TOPIC_REQUEST w = [to_json \<lparr>tm_task_id = rc_id C, tm_event = PStr ev, tm_payload = PDict p\<rparr>]"
  shows "\<exists>w'. drain C g (Suc k) 0 w = (1, w') \<and> w_status C w' = Some (PStr ''TIMEOUT'') \<and>
      length (sent_to TOPIC_REQUEST w') = 1 \<and> sent_to TOPIC_DLQ w' = sent_to TOPIC_DLQ w"
proof -
  have "dispatch (\<lambda>i. C) g (TOPIC_REQUEST, sent_to TOPIC_REQUEST w ! 0) w = handle_task C g (PDict p) w"
    using m p C(2) from_to_json [of "\<lparr>tm_task_id = rc_id C, tm_event = PStr ev, tm_payload = PDict p\<rparr>"]
    by (auto simp: dispatch_def request_def quiet_def simp del: json_value.simps(5))
  moreover obtain w' where "handle_task C g (PDict p) w = Inr w'" "w_status C w' = Some (PStr ''TIMEOUT'')"
    "sent_to TOPIC_REQUEST w' = sent_to TOPIC_REQUEST w" "sent_to TOPIC_DLQ w' = sent_to TOPIC_DLQ w"
    using timeout_step [OF C w p _ g] by auto
  moreover have "drain C g k 1 w' = (1, w')" if "length (sent_to TOPIC_REQUEST w') = 1"
    using that by (cases k) auto
  ultimately show ?thesis using m by auto
qed

end

subsection \<open>Cancelling\<close>

context kv_store
begin

lemma cancel_run_effect:
  assumes C: "rc_kv C = K" "quiet C" and w: "well_stored K (rc_tid C) (w_store w)"
  shows "\<exists>w'. cancel_run C w = Inr w' \<and> w_status C w' = next_status (w_status C w) ''CANCELLED'' \<and> \<not> is_cancelled C w'
    \<and> sent_to TOPIC_RESULT w' = sent_to TOPIC_RESULT w"
proof -
  have pl: "plain_id (rc_tid C)" using quiet_id [OF C(2)] by simp
  obtain st where t: "transition C ''CANCELLED'' [] w = Inr (w\<lparr>w_store := st\<rparr>)"
      "w_status C (w\<lparr>w_store := st\<rparr>) = next_status (w_status C w) ''CANCELLED''"
    by (rule on_transition [OF C(1) pl w, of "[]" "''CANCELLED''"]) (simp_all add: plain_args_def)
  let ?w = "say TOPIC_STATUS (rc_id C) ''cancelled'' [(''node'', PStr (rc_source C))] (w\<lparr>w_store := st\<rparr>)"
  have "cancel_run C w = Inr (meddle (task_clear_cancel K (rc_tid C)) ?w)"
    using t(1) C(1) by (simp add: cancel_run_def transition_def)
  moreover have "\<not> is_cancelled C (meddle (task_clear_cancel K (rc_tid C)) ?w)"
    using C(1) by (cases "w_store ?w") (simp_all add: is_cancelled_def task_is_cancelled_def meddle_def task_clear_cancel_def get_delete)
  moreover have "w_status C (meddle (task_clear_cancel K (rc_tid C)) ?w) = next_status (w_status C w) ''CANCELLED''"
    using t(2) C(1) other_keys(2) [OF pl] by (simp add: meddle_def status_of_def)
  ultimately show ?thesis by (simp add: say_keeps)
qed

lemma cancelled_task:
  assumes C: "rc_kv C = K" "quiet C" "undisturbed C 0 i" and i: "i < length (gl_steps g)"
    and env: "rc_env C i = (\<lambda>st. snd (task_request_cancel K (rc_tid C) st))"
    and w: "awaits C w" and p: "request p n" "0 \<le> n"
    and g: "good_steps (task_input p) (gl_steps g)" "gl_deadline g = None"
  shows "\<exists>w'. handle_task C g (PDict p) w = Inr w' \<and> w_status C w' = Some (PStr ''CANCELLED'') \<and> \<not> is_cancelled C w'
    \<and> sent_to TOPIC_RESULT w' = sent_to TOPIC_RESULT w"
proof -
  have w': "steady C w" "opened (w_broker w)" using w by (simp_all add: awaits_def)
  note q = quiet_id [OF C(2)]
  obtain w1 to where 1: "handle_task C g (PDict p) w =
      settle C g p n to (wait_for C g (finish_run C p (gl_elapsed g)) (graph_input p) w1)"
    "steady C w1" "opened (w_broker w1)" "w_status C w1 = next_status (w_status C w) ''RUNNING''"
    "\<And>t. t \<noteq> TOPIC_STATUS \<Longrightarrow> sent_to t w1 = sent_to t w"
    by (rule started [OF C(1,2) w' p]) blast
  obtain inp where inp: "graph_input p = Inr inp" "json_args inp" using graph_input_good [OF p(1)] by blast
  have ti: "task_input p = inp" by (simp add: task_input_def inp)
  obtain step rest where steps: "gl_steps g = take i (gl_steps g) @ step # rest"
    using i by (metis id_take_nth_drop)
  let ?a = "take i (gl_steps g)"
  have gs: "good_steps inp ?a" using g(1) steps good_steps_append [of inp ?a "step # rest"] ti by metis
  have ua: "undisturbed C 0 (0 + length ?a)" using C(3) i by simp
  obtain w2 where 2: "stream_steps C 0 ?a inp w1 = Streaming (accumulated inp ?a) w2" "steady C w2"
    "w_status C w2 = w_status C w1" "sent_to TOPIC_RESULT w2 = sent_to TOPIC_RESULT w1"
    using stream_good [OF C(1) _ ua 1(2) inp(2) gs] q by blast
  have run: "w_status C w2 = Some (PStr ''RUNNING'')"
    using 2(3) 1(4) w by (auto simp: awaits_def next_status_def allowed_next_def)
  then obtain r where r: "w_store w2 = Some r" by (cases "w_store w2") (auto simp: status_of_def task_get_def)
  let ?w = "meddle (rc_env C i) w2"
  have c: "task_is_cancelled (rc_kv C) (rc_tid C) (w_store ?w)"
    using C(1) by (simp add: env meddle_def r task_request_cancel_def task_is_cancelled_def get_setex)
  have ws: "well_stored K (rc_tid C) (w_store ?w)" and st: "w_status C ?w = w_status C w2"
    using 2(2) C(1) q well_stored_other(1) [of "rc_tid C"] other_keys(1) [of "rc_tid C"]
    by (simp_all add: env meddle_def steady_def status_of_def)
  obtain w3 where 3: "cancel_run C ?w = Inr w3" "w_status C w3 = Some (PStr ''CANCELLED'')" "\<not> is_cancelled C w3"
    "sent_to TOPIC_RESULT w3 = sent_to TOPIC_RESULT w2"
    using cancel_run_effect [OF C(1,2) ws] st run by (auto simp: next_status_def allowed_next_def)
  have "stream_steps C 0 (gl_steps g) inp w1 = Cancelled w3"
    using stream_steps_append [of C 0 ?a "step # rest" inp w1] 2(1) c 3(1) i by (simp add: steps [symmetric] Let_def)
  then have "handle_task C g (PDict p) w = Inr w3"
    using 1(1) g(2) by (simp add: wait_for_def inp end_stream_def settle_def)
  then show ?thesis using 3 2(4) 1(5) by simp
qed

end

subsection \<open>The feedback race\<close>

text \<open>\<open>task_feedback\<close> of the API publishes the request and then makes the transition itself.\<close>

definition api_feedback :: "'r kv \<Rightarrow> (nat \<Rightarrow> string) \<Rightarrow> string \<Rightarrow> 'r option \<Rightarrow> 'r option" where
  "api_feedback K now tid st = (case feedback_transition K now tid st of Inl e \<Rightarrow> st | Inr (v, st') \<Rightarrow> st')"

text \<open>The round itself comes to an end, whatever the status of the task.\<close>

definition feedback_completes :: "'r run_conf \<Rightarrow> graph_log \<Rightarrow> pydict \<Rightarrow> bool" where
  "feedback_completes C g p \<longleftrightarrow> (\<forall>w. steady C w \<longrightarrow>
     (\<exists>w'. wait_for C g (finish_feedback C p (gl_elapsed g))
          (py_bind (stored_task C w) (\<lambda>task_state. Inr (feedback_input p task_state))) w = Returned False w'
        \<and> steady C w' \<and> w_status C w' = w_status C w))"

text \<open>Who else moves before, between and after is not seen by the run.\<close>

abbreviation with_others :: "'r run_conf \<Rightarrow> ('r option \<Rightarrow> 'r option) \<Rightarrow> ('r option \<Rightarrow> 'r option) \<Rightarrow> ('r option \<Rightarrow> 'r option) \<Rightarrow> 'r run_conf" where
  "with_others C b m a \<equiv> C\<lparr>rc_before := b, rc_mid := m, rc_after := a\<rparr>"

lemma with_others_simps [simp]:
  "transition (with_others C b m a) = transition C"
  "start_heartbeat (with_others C b m a) = start_heartbeat C"
  "stored_task (with_others C b m a) = stored_task C"
  "finish_feedback (with_others C b m a) = finish_feedback C"
  "node_done (with_others C b m a) = node_done C"
  "cancel_run (with_others C b m a) = cancel_run C"
  by (simp_all add: fun_eq_iff transition_def start_heartbeat_def stored_task_def finish_feedback_def node_done_def
      cancel_run_def cong: option.case_cong sum.case_cong)

lemma with_others_run [simp]:
  "stream_steps (with_others C b m a) i steps acc w = stream_steps C i steps acc w"
  "wait_for (with_others C b m a) g f inp w = wait_for C g f inp w"
proof -
  show s: "stream_steps (with_others C b m a) i steps acc w = stream_steps C i steps acc w" for i steps acc w
    by (induction steps arbitrary: i acc w) (auto simp: Let_def split: sum.split)
  show "wait_for (with_others C b m a) g f inp w = wait_for C g f inp w" by (simp only: wait_for_def s)
qed

context kv_store
begin

lemma api_feedback_effect:
  assumes C: "rc_kv C = K" "quiet C" and w: "steady C w"
  shows "steady C (meddle (api_feedback K now (rc_tid C)) w)"
    and "w_status C (meddle (api_feedback K now (rc_tid C)) w) =
      (if w_status C w \<in> {Some (PStr ''SUCCESS''), Some (PStr ''FAILED'')} then Some (PStr ''RUNNING'') else w_status C w)"
proof -
  have ws: "well_stored K (rc_tid C) (w_store w)" using w C(1) by (simp add: steady_def)
  obtain r st' where f: "feedback_transition K now (rc_tid C) (w_store w) = Inr (r, st')" "well_stored K (rc_tid C) st'"
    "status_of K (rc_tid C) st' = (if rc_tid C = rc_tid C \<and> status_of K (rc_tid C) (w_store w) \<in> {Some (PStr ''SUCCESS''), Some (PStr ''FAILED'')}
       then Some (PStr ''RUNNING'') else status_of K (rc_tid C) (w_store w))"
    by (rule feedback_transition_effect [OF ws ws])
  have "task_is_cancelled K (rc_tid C) st' = task_is_cancelled K (rc_tid C) (w_store w)"
    using feedback_transition_writes [OF f(1)] cancelled_set_state quiet_id [OF C(2)] by auto
  then show "steady C (meddle (api_feedback K now (rc_tid C)) w)"
    and "w_status C (meddle (api_feedback K now (rc_tid C)) w) =
      (if w_status C w \<in> {Some (PStr ''SUCCESS''), Some (PStr ''FAILED'')} then Some (PStr ''RUNNING'') else w_status C w)"
    using f w C(1) by (simp_all add: api_feedback_def meddle_def steady_def is_cancelled_def)
qed

lemma stored_task_status:
  assumes "rc_kv C = K" and "steady C w" and "w_status C w = Some x"
  obtains d where "stored_task C w = Inr d" and "d_get_or d ''status'' PNone = PStr ''RUNNING'' \<longleftrightarrow> x = PStr ''RUNNING''"
proof -
  have ws: "well_stored K (rc_tid C) (w_store w)" using assms(1,2) by (simp add: steady_def)
  show thesis
  proof (rule well_stored_get [OF ws])
    assume "task_get K (rc_tid C) (w_store w) = None"
    then show thesis using assms(1,3) by (simp add: status_of_def)
  next
    fix d assume d: "task_get K (rc_tid C) (w_store w) = Some (PDict d)"
    then have "stored_task C w = Inr d" using assms(1) by (simp add: stored_task_def as_dict_def)
    then show thesis using d assms(1,3) by (intro that [of d]) (auto simp: status_of_def d_get_or_get split: option.splits)
  qed
qed

text \<open>The handler from its first transition on\<close>

lemma feedback_runs:
  assumes C: "rc_kv C = K" "quiet C" and b: "b = (\<lambda>st. st)" and w: "steady C w"
    and x: "w_status C w \<in> {Some (PStr ''SUCCESS''), Some (PStr ''FAILED'')}"
    and m: "m \<in> {\<lambda>st. st, api_feedback K now (rc_tid C)}" and a: "a \<in> {\<lambda>st. st, api_feedback K now (rc_tid C)}"
    and g: "feedback_completes C g p"
  shows "\<exists>w'. handle_feedback (with_others C b m a) g (PDict p) w = Inr w' \<and> steady C w'
    \<and> w_status C w' = Some (PStr ''SUCCESS'')"
proof -
  have nr: "w_status C w \<noteq> Some (PStr ''RUNNING'')" using x by auto
  obtain y where y: "w_status C w = Some y" using x by auto
  obtain d where d: "stored_task C w = Inr d" "d_get_or d ''status'' PNone \<noteq> PStr ''RUNNING''"
    using stored_task_status [OF C(1) w y] nr y by metis
  let ?m = "meddle m w"
  have sm: "steady C ?m" and xm: "w_status C ?m \<in> {Some (PStr ''SUCCESS''), Some (PStr ''FAILED''), Some (PStr ''RUNNING'')}"
    using m w x api_feedback_effect [OF C w, of now] by (auto simp: meddle_def)
  let ?ft = "meddle (api_feedback K (rc_now C) (rc_tid C)) ?m"
  have ft: "on_store (feedback_transition (rc_kv C) (rc_now C) (rc_tid C)) ?m = Inr ?ft"
  proof -
    have ws: "well_stored K (rc_tid C) (w_store ?m)" using sm C(1) by (simp add: steady_def)
    show ?thesis
      by (rule feedback_transition_effect [OF ws ws, of "rc_now C"])
         (simp add: on_store_def api_feedback_def meddle_def C(1))
  qed
  have f: "steady C ?ft" "w_status C ?ft = Some (PStr ''RUNNING'')"
    using api_feedback_effect [OF C sm, of "rc_now C"] xm by auto
  let ?s = "say TOPIC_STATUS (rc_id C) ''running'' [(''source'', PStr ''feedback''), (''turn'', d_get_or p ''turn'' (PInt 1))] ?ft"
  let ?w = "start_heartbeat C ?s"
  have h: "steady C ?w" "w_status C ?w = Some (PStr ''RUNNING'')"
    using on_heartbeat [OF C(1) _, of ?s] f quiet_id [OF C(2)] by simp_all
  obtain w1 where 1: "wait_for C g (finish_feedback C p (gl_elapsed g))
      (py_bind (stored_task C ?w) (\<lambda>task_state. Inr (feedback_input p task_state))) ?w = Returned False w1"
    "steady C w1" "w_status C w1 = Some (PStr ''RUNNING'')"
    using g h unfolding feedback_completes_def by metis
  let ?a = "meddle a w1"
  have sa: "steady C ?a" "w_status C ?a = Some (PStr ''RUNNING'')"
    using a 1(2,3) api_feedback_effect [OF C 1(2), of now] by (auto simp: meddle_def)
  have "plain_args []" by (simp add: plain_args_def)
  from transition_steady [OF C sa(1) this, of "''SUCCESS''"] obtain st where
    t: "transition C ''SUCCESS'' [] ?a = Inr (?a\<lparr>w_store := st\<rparr>)" "steady C (?a\<lparr>w_store := st\<rparr>)"
    "w_status C (?a\<lparr>w_store := st\<rparr>) = next_status (w_status C ?a) ''SUCCESS''" by blast
  have p: "as_dict (py_or_val (PDict p) (PDict [])) ''get'' = Inr p" by (simp add: py_or_val_def as_dict_def)
  have b': "meddle b w = w" by (simp add: b meddle_def)
  have "handle_feedback (with_others C b m a) g (PDict p) w = Inr (?a\<lparr>w_store := st\<rparr>)"
    using d ft 1(1) t(1) by (simp add: handle_feedback_def b' p Let_def settle_feedback_def)
  then show ?thesis using t(2,3) sa(2) by (simp add: next_status_def allowed_next_def)
qed

lemma feedback_skipped:
  assumes C: "rc_kv C = K" "quiet C" and w: "steady C w" and x: "w_status C w \<in> {Some (PStr ''SUCCESS''), Some (PStr ''FAILED'')}"
  shows "\<exists>w'. handle_feedback (with_others C (api_feedback K now (rc_tid C)) m a) g (PDict p) w = Inr w'
    \<and> w_status C w' = Some (PStr ''RUNNING'') \<and> w_broker w' = w_broker w"
proof -
  let ?w = "meddle (api_feedback K now (rc_tid C)) w"
  note f = api_feedback_effect [OF C w, of now]
  have r: "w_status C ?w = Some (PStr ''RUNNING'')" using f(2) x by auto
  obtain d where d: "stored_task C ?w = Inr d" "d_get_or d ''status'' PNone = PStr ''RUNNING''"
    using stored_task_status [OF C(1) f(1) r] by auto
  have "as_dict (py_or_val (PDict p) (PDict [])) ''get'' = Inr p" by (simp add: py_or_val_def as_dict_def)
  then show ?thesis using d r by (simp add: handle_feedback_def Let_def)
qed

end

subsection \<open>A task to look at\<close>

definition open_broker :: broker where
  "open_broker = \<lparr>bk_connected = True, bk_producer = False, bk_can_create = True, bk_accepts = (\<lambda>r. True), bk_sent = []\<rparr>"

definition demo_conf :: "redis run_conf" where
  "demo_conf = \<lparr>rc_kv = redis_kv, rc_now = (\<lambda>i. ''t''), rc_id = PStr ''a1'', rc_before = (\<lambda>st. st), rc_mid = (\<lambda>st. st),
     rc_env = (\<lambda>i st. st), rc_after = (\<lambda>st. st), rc_source = ''?''\<rparr>"

definition demo_world :: "string \<Rightarrow> redis world" where
  "demo_world status = \<lparr>w_store = set_state redis_kv ''a1'' [(''task_id'', PStr ''a1''), (''status'', PStr status)] (Some redis_empty),
     w_broker = open_broker\<rparr>"

definition demo_payload :: pydict where
  "demo_payload = [(''question'', PStr ''How many?'')]"

definition demo_log :: graph_log where
  "demo_log = \<lparr>gl_steps = [(''guard'', [(''guard_pass'', PBool True)])], gl_error = None, gl_elapsed = 3, gl_deadline = None,
     gl_traceback = []\<rparr>"

lemma demo_quiet: "rc_kv demo_conf = redis_kv" "quiet demo_conf" "undisturbed demo_conf i n" "rc_tid demo_conf = ''a1''"
  by (simp_all add: demo_conf_def quiet_def undisturbed_def plain_id_def)

lemma demo_steady: "steady demo_conf (demo_world status)" "w_status demo_conf (demo_world status) = Some (PStr status)"
  "opened (w_broker (demo_world status))"
proof -
  let ?d = "[(''task_id'', PStr ''a1''), (''status'', PStr status)]"
  have j: "json_value (PDict ?d)" by simp
  have "well_stored redis_kv ''a1'' (Some redis_empty)"
    by (simp add: well_stored_def redis_kv_def redis_get_def redis_empty_def)
  then have "well_stored redis_kv ''a1'' (set_state redis_kv ''a1'' ?d (Some redis_empty))"
    by (rule redis.well_stored_set_state [OF j])
  moreover have "\<not> task_is_cancelled redis_kv ''a1'' (set_state redis_kv ''a1'' ?d (Some redis_empty))"
    using redis.cancelled_set_state [of "''a1''" "''a1''" ?d "Some redis_empty"]
    by (simp add: plain_id_def task_is_cancelled_def redis_kv_def redis_get_def redis_empty_def)
  ultimately show "steady demo_conf (demo_world status)"
    by (simp add: steady_def is_cancelled_def demo_conf_def demo_world_def)
  show "w_status demo_conf (demo_world status) = Some (PStr status)"
    using redis.get_set_state [OF j] by (simp add: demo_conf_def demo_world_def status_of_def d_get_or_def)
  show "opened (w_broker (demo_world status))" by (simp add: demo_world_def open_broker_def opened_def)
qed

lemma demo_request: "request demo_payload 0"
  by (simp add: request_def demo_payload_def retry_count_of_def d_get_or_def d_get_def)

lemma demo_run: "good_run (demo_log\<lparr>gl_deadline := x\<rparr>) demo_payload"
  by (simp add: good_run_def demo_log_def task_input_def graph_input_def demo_payload_def py_item_def d_get_def
      d_get_or_def Let_def summarize_node_def publishable_def accumulated_def d_update_def d_set_def sanitize_def json_args_def
      py_ok_def)

subsection \<open>Properties\<close>

text \<open>C19: Retries end. A task whose graph raises the same exception in every attempt, after any number of
  updates and before its time is up, with no other process touching the task. If the exception is not a
  \<open>TimeoutError\<close> the task is delivered exactly four times (the request and three retries), however
  long the worker goes on consuming; then its status is FAILED and one dead letter has been
  published. A \<open>TimeoutError\<close> is taken for the handler's own timeout: the task is delivered once, its
  status is TIMEOUT, and there is neither a retry nor a dead letter.\<close>

theorem failing_task_dead_letter:
  assumes "kv_store K wait" and "rc_kv C = K" and "quiet C" and "undisturbed C 0 (length (gl_steps g))"
    and "always_fails g p e" and "awaits C w" and "request p 0"
    and "sent_to TOPIC_REQUEST w = [to_json \<lparr>tm_task_id = rc_id C, tm_event = PStr ''submitted'', tm_payload = PDict p\<rparr>]"
  shows "\<exists>w'. drain C g (4 + k) 0 w = (if exc_type e = ''TimeoutError'' then 1 else 4, w') \<and>
    w_status C w' = Some (PStr (if exc_type e = ''TimeoutError'' then ''TIMEOUT'' else ''FAILED'')) \<and>
    length (sent_to TOPIC_REQUEST w') = (if exc_type e = ''TimeoutError'' then 1 else 4) \<and>
    length (sent_to TOPIC_DLQ w') = length (sent_to TOPIC_DLQ w) + (if exc_type e = ''TimeoutError'' then 0 else 1)"
proof (cases "exc_type e = ''TimeoutError''")
  case True
  have "4 + k = Suc (3 + k)" by simp
  with True show ?thesis
    using kv_store.drain_timeout [OF assms(1-4,6,7,5) True assms(8), of "3 + k"] by (auto simp del: drain.simps)
next
  case False
  then show ?thesis
    using kv_store.drain_failing [OF assms(1-4) False assms(5,6), where m = 3 and seen = 0 and ev = "''submitted''" and k = k] assms(7,8)
    by (simp add: eval_nat_numeral)
qed

theorem failing_task_dead_letter_witness:
  "(\<exists>w'. drain demo_conf (demo_log\<lparr>gl_error := Some (PyExc ''ValueError'' ''no schema'')\<rparr>) 10 0
       (say TOPIC_REQUEST (PStr ''a1'') ''submitted'' demo_payload (demo_world ''PENDING'')) = (4, w')
     \<and> w_status demo_conf w' = Some (PStr ''FAILED'')) \<and>
   (\<exists>w'. drain demo_conf (demo_log\<lparr>gl_error := Some (PyExc ''TimeoutError'' [])\<rparr>) 10 0
       (say TOPIC_REQUEST (PStr ''a1'') ''submitted'' demo_payload (demo_world ''PENDING'')) = (1, w')
     \<and> w_status demo_conf w' = Some (PStr ''TIMEOUT''))"
proof -
  let ?w = "say TOPIC_REQUEST (PStr ''a1'') ''submitted'' demo_payload (demo_world ''PENDING'')"
  have w: "awaits demo_conf ?w" using demo_steady [of "''PENDING''"] by (simp add: awaits_def say_opened)
  have m: "sent_to TOPIC_REQUEST ?w = [to_json \<lparr>tm_task_id = rc_id demo_conf, tm_event = PStr ''submitted'',
      tm_payload = PDict demo_payload\<rparr>]"
    using demo_steady(3) [of "''PENDING''"]
    by (simp add: say_opened demo_conf_def) (simp add: sent_to_def demo_world_def open_broker_def)
  have f: "always_fails (demo_log\<lparr>gl_error := Some e\<rparr>) demo_payload e" for e
    using demo_run [of None] by (simp add: always_fails_def good_run_def demo_log_def)
  show ?thesis
    using failing_task_dead_letter [OF redis.kv_store_axioms demo_quiet(1-3) f w demo_request m, of "PyExc ''ValueError'' ''no schema''" 6]
      failing_task_dead_letter [OF redis.kv_store_axioms demo_quiet(1-3) f w demo_request m, of "PyExc ''TimeoutError'' []" 6]
    by auto
qed

text \<open>A run that comes to its end publishes one result and makes a pending or running task a
  success. In every other status, for instance TIMEOUT after a scan that ran while the task was
  waiting for its next attempt, the status stays as it is, although the result is published.\<close>

theorem completed_task:
  assumes "kv_store K wait" and "rc_kv C = K" and "quiet C" and "undisturbed C 0 (length (gl_steps g))"
    and "steady C w" and "opened (w_broker w)" and "request p n" and "0 \<le> n" and "good_run g p" and "gl_deadline g = None"
  shows "\<exists>w'. handle_task C g (PDict p) w = Inr w' \<and>
    w_status C w' = (if w_status C w \<in> {Some (PStr ''PENDING''), Some (PStr ''RUNNING'')} then Some (PStr ''SUCCESS'')
                     else w_status C w) \<and>
    length (sent_to TOPIC_RESULT w') = Suc (length (sent_to TOPIC_RESULT w))"
proof -
  have "next_status (next_status s ''RUNNING'') ''SUCCESS'' =
      (if s \<in> {Some (PStr ''PENDING''), Some (PStr ''RUNNING'')} then Some (PStr ''SUCCESS'') else s)" for s
    by (cases s) (auto simp: next_status_def allowed_next_def)
  then show ?thesis using kv_store.good_task [OF assms] by simp
qed

theorem completed_task_witness:
  "(\<exists>w'. handle_task demo_conf demo_log (PDict demo_payload) (demo_world ''PENDING'') = Inr w'
      \<and> w_status demo_conf w' = Some (PStr ''SUCCESS''))
   \<and> (\<exists>w'. handle_task demo_conf demo_log (PDict demo_payload) (demo_world ''TIMEOUT'') = Inr w'
      \<and> w_status demo_conf w' = Some (PStr ''TIMEOUT'') \<and> sent_to TOPIC_RESULT w' \<noteq> [])"
proof -
  have "\<exists>w'. handle_task demo_conf demo_log (PDict demo_payload) (demo_world s) = Inr w' \<and>
    w_status demo_conf w' = (if w_status demo_conf (demo_world s) \<in> {Some (PStr ''PENDING''), Some (PStr ''RUNNING'')}
      then Some (PStr ''SUCCESS'') else w_status demo_conf (demo_world s)) \<and>
    length (sent_to TOPIC_RESULT w') = Suc (length (sent_to TOPIC_RESULT (demo_world s)))" for s
    by (rule completed_task [OF redis.kv_store_axioms demo_quiet(1-3) demo_steady(1,3) demo_request])
       (use demo_run [of None] in \<open>simp_all add: demo_log_def\<close>)
  from this [of "''PENDING''"] this [of "''TIMEOUT''"] show ?thesis using demo_steady(2) by fastforce
qed

text \<open>A timeout only stops the waiting. The handler reports TIMEOUT and publishes no result, but the
  run goes on in its thread: it still writes its result into the task and publishes it as a
  success, while the status stays TIMEOUT.\<close>

theorem timed_out_run_goes_on:
  assumes "kv_store K wait" and "rc_kv C = K" and "quiet C" and "undisturbed C 0 (length (gl_steps g))"
    and "awaits C w" and "request p n" and "0 \<le> n" and "good_run g p" and "gl_deadline g = Some m"
    and "m \<le> length (gl_steps g)"
  shows "\<exists>w1 acc w2. handle_task C g (PDict p) w = Inr w1 \<and> w_status C w1 = Some (PStr ''TIMEOUT'') \<and>
    sent_to TOPIC_RESULT w1 = sent_to TOPIC_RESULT w \<and>
    abandoned C g (finish_run C p (gl_elapsed g)) (accumulated (task_input p) (take m (gl_steps g))) w1 = Streaming acc w2 \<and>
    w_status C w2 = Some (PStr ''TIMEOUT'') \<and>
    length (sent_to TOPIC_RESULT w2) = Suc (length (sent_to TOPIC_RESULT w))"
  by (rule kv_store.timed_out_task [OF assms])

theorem timed_out_run_goes_on_witness:
  "\<exists>w1. handle_task demo_conf (demo_log\<lparr>gl_deadline := Some 0\<rparr>) (PDict demo_payload) (demo_world ''PENDING'') = Inr w1
     \<and> w_status demo_conf w1 = Some (PStr ''TIMEOUT'')"
proof -
  have "awaits demo_conf (demo_world ''PENDING'')" using demo_steady [of "''PENDING''"] by (simp add: awaits_def)
  from timed_out_run_goes_on [OF redis.kv_store_axioms demo_quiet(1-3) this demo_request _ demo_run [of "Some 0"], of 0]
  show ?thesis by auto
qed

text \<open>Cancelling. A cancel request that arrives before the update number \<open>i\<close> of the stream stops the
  run there: the status is CANCELLED, no result is published, and the flag is cleared.\<close>

theorem cancel_stops_run:
  assumes "kv_store K wait" and "rc_kv C = K" and "quiet C" and "undisturbed C 0 i" and "i < length (gl_steps g)"
    and "rc_env C i = (\<lambda>st. snd (task_request_cancel K (rc_tid C) st))"
    and "awaits C w" and "request p n" and "0 \<le> n" and "good_steps (task_input p) (gl_steps g)" and "gl_deadline g = None"
  shows "\<exists>w'. handle_task C g (PDict p) w = Inr w' \<and> w_status C w' = Some (PStr ''CANCELLED'') \<and> \<not> is_cancelled C w'
    \<and> sent_to TOPIC_RESULT w' = sent_to TOPIC_RESULT w"
  by (rule kv_store.cancelled_task [OF assms])

theorem cancel_stops_run_witness:
  "\<exists>w'. handle_task (demo_conf\<lparr>rc_env := (\<lambda>i st. snd (task_request_cancel redis_kv ''a1'' st))\<rparr>) demo_log (PDict demo_payload)
      (demo_world ''PENDING'') = Inr w'
    \<and> w_status (demo_conf\<lparr>rc_env := (\<lambda>i st. snd (task_request_cancel redis_kv ''a1'' st))\<rparr>) w' = Some (PStr ''CANCELLED'')"
proof -
  let ?C = "demo_conf\<lparr>rc_env := (\<lambda>i st. snd (task_request_cancel redis_kv ''a1'' st))\<rparr>"
  have "awaits ?C (demo_world ''PENDING'')"
    using demo_steady [of "''PENDING''"] by (simp add: awaits_def steady_def is_cancelled_def)
  moreover have "quiet ?C" using demo_quiet(2) by (simp add: quiet_def)
  ultimately show ?thesis
    using cancel_stops_run [OF redis.kv_store_axioms, of ?C 0 demo_log "demo_world ''PENDING''" demo_payload 0]
      demo_request demo_run [of None] demo_quiet(4)
    by (auto simp: undisturbed_def good_run_def demo_log_def demo_quiet(1))
qed

text \<open>C34: The feedback race. The API publishes the feedback request and then moves the task to RUNNING
  itself; the worker skips a task that is RUNNING. If the API's transition comes before the
  worker's check, the round is skipped, nothing is published and the task stays RUNNING; if it
  comes after the worker's last transition, the finished round is left RUNNING. Only in between
  does the round end in SUCCESS.\<close>

theorem feedback_race:
  assumes "kv_store K wait" and "rc_kv C = K" and "quiet C" and "steady C w"
    and "w_status C w \<in> {Some (PStr ''SUCCESS''), Some (PStr ''FAILED'')}" and "feedback_completes C g p"
  shows "(\<exists>w'. handle_feedback (C\<lparr>rc_before := api_feedback K now (rc_tid C)\<rparr>) g (PDict p) w = Inr w'
      \<and> w_status C w' = Some (PStr ''RUNNING'') \<and> w_broker w' = w_broker w) \<and>
    (\<exists>w'. handle_feedback (C\<lparr>rc_mid := api_feedback K now (rc_tid C)\<rparr>) g (PDict p) w = Inr w'
      \<and> w_status C w' = Some (PStr ''SUCCESS'')) \<and>
    (\<exists>w'. handle_feedback (C\<lparr>rc_after := api_feedback K now (rc_tid C)\<rparr>) g (PDict p) w = Inr w'
      \<and> w_status C w' = Some (PStr ''SUCCESS'')) \<and>
    (\<exists>w'. handle_feedback C g (PDict p) w = Inr w' \<and> w_status C w' = Some (PStr ''SUCCESS'')
      \<and> status_of K (rc_tid C) (api_feedback K now (rc_tid C) (w_store w')) = Some (PStr ''RUNNING''))"
proof -
  let ?f = "api_feedback K now (rc_tid C)" and ?i = "\<lambda>st :: 'a option. st"
  have c: "C\<lparr>rc_before := ?f\<rparr> = with_others C ?f ?i ?i" "C\<lparr>rc_mid := ?f\<rparr> = with_others C ?i ?f ?i"
    "C\<lparr>rc_after := ?f\<rparr> = with_others C ?i ?i ?f" "C = with_others C ?i ?i ?i"
    using assms(3) by (cases C; simp add: quiet_def)+
  note run = kv_store.feedback_runs [OF assms(1-3) refl assms(4,5) _ _ assms(6), where now = now]
  obtain w' where w': "handle_feedback C g (PDict p) w = Inr w'" "steady C w'" "w_status C w' = Some (PStr ''SUCCESS'')"
    using run [of ?i ?i] c(4) by auto
  have "status_of K (rc_tid C) (?f (w_store w')) = Some (PStr ''RUNNING'')"
    using kv_store.api_feedback_effect(2) [OF assms(1-3) w'(2), of now] w'(3) assms(2) by (simp add: meddle_def)
  moreover have "\<exists>w'. handle_feedback (C\<lparr>rc_before := ?f\<rparr>) g (PDict p) w = Inr w'
      \<and> w_status C w' = Some (PStr ''RUNNING'') \<and> w_broker w' = w_broker w"
    by (subst c(1)) (rule kv_store.feedback_skipped [OF assms(1-5)])
  moreover have "\<exists>w'. handle_feedback (C\<lparr>rc_mid := ?f\<rparr>) g (PDict p) w = Inr w' \<and> w_status C w' = Some (PStr ''SUCCESS'')"
    by (subst c(2)) (use run [of ?f ?i] in auto)
  moreover have "\<exists>w'. handle_feedback (C\<lparr>rc_after := ?f\<rparr>) g (PDict p) w = Inr w' \<and> w_status C w' = Some (PStr ''SUCCESS'')"
    by (subst c(3)) (use run [of ?i ?f] in auto)
  ultimately show ?thesis using w' by blast
qed

definition fb_log :: graph_log where
  "fb_log = \<lparr>gl_steps = [], gl_error = None, gl_elapsed = 2, gl_deadline = None, gl_traceback = []\<rparr>"

text \<open>A round whose graph changes nothing and whose payload carries query and result\<close>

definition fb_payload :: pydict where
  "fb_payload = [(''feedback'', PStr ''use orders''), (''sql'', PStr ''SELECT 1''), (''exec_result'', PDict [(''success'', PBool True)]),
     (''conversation_turns'', PList [])]"

lemma fb_completes: "feedback_completes demo_conf fb_log fb_payload"
  unfolding feedback_completes_def
proof (intro allI impI)
  fix w :: "redis world"
  assume w: "steady demo_conf w"
  then have ws: "well_stored (rc_kv demo_conf) (rc_tid demo_conf) (w_store w)" by (simp add: steady_def)
  have "\<exists>ts. stored_task demo_conf w = Inr ts"
    by (rule well_stored_get [OF ws]) (simp_all add: stored_task_def as_dict_def)
  then obtain ts where ts: "stored_task demo_conf w = Inr ts" by blast
  let ?acc = "feedback_input fb_payload ts" and ?res = "PDict [(''success'', PBool True)]"
  let ?turn = "PDict [(''turn'', PInt 1), (''user_feedback'', PStr ''use orders''), (''sql'', PStr ''SELECT 1''),
      (''exec_result'', ?res), (''timestamp'', PStr ''t'')]"
  let ?kw = "[(''sql'', PStr ''SELECT 1''), (''exec_result'', ?res), (''token_usage'', PDict []), (''node_timings'', PDict []),
      (''conversation_turns'', PList [?turn]), (''user_feedback'', PStr [])]"
  have acc: "chosen_sql ?acc (PStr []) = PStr ''SELECT 1''" "d_get_or ?acc ''exec_result'' PNone = ?res"
    "timings ?acc = [(''token_usage'', PDict []), (''node_timings'', PDict [])]"
    by (simp_all add: chosen_sql_def timings_def feedback_input_def fb_payload_def d_get_or_def py_or_val_def Let_def)
  have p: "d_get_or fb_payload ''conversation_turns'' (PList []) = PList []"
    "d_get_or fb_payload ''feedback'' (PStr []) = PStr ''use orders''"
    by (simp_all add: fb_payload_def d_get_or_def)
  have "plain_args ?kw" by (simp add: plain_args_def)
  then obtain st where st: "on_store (task_update (rc_kv demo_conf) (rc_now demo_conf) (rc_tid demo_conf) ?kw) w = Inr (w\<lparr>w_store := st\<rparr>)"
    "steady demo_conf (w\<lparr>w_store := st\<rparr>)" "w_status demo_conf (w\<lparr>w_store := st\<rparr>) = w_status demo_conf w"
    using redis.on_update [OF demo_quiet(1) _ w] demo_quiet(4) by (auto simp: plain_id_def)
  have "sanitize ?res = Inr ?res" by (simp add: sanitize_def d_get_or_def)
  moreover have "rc_now demo_conf 1 = ''t''" by (simp add: demo_conf_def)
  ultimately have "finish_feedback demo_conf fb_payload 2 ?acc w = Inr (say TOPIC_RESULT (rc_id demo_conf) ''success''
      [(''sql'', PStr ''SELECT 1''), (''exec_result'', ?res), (''token_usage'', PDict []), (''node_timings'', PDict []),
       (''elapsed_s'', PFloat 2), (''turn'', PInt 1)] (w\<lparr>w_store := st\<rparr>))"
    using st(1) by (simp add: finish_feedback_def acc p)
  then have "wait_for demo_conf fb_log (finish_feedback demo_conf fb_payload (gl_elapsed fb_log))
      (py_bind (stored_task demo_conf w) (\<lambda>task_state. Inr (feedback_input fb_payload task_state))) w
      = Returned False (say TOPIC_RESULT (rc_id demo_conf) ''success''
      [(''sql'', PStr ''SELECT 1''), (''exec_result'', ?res), (''token_usage'', PDict []), (''node_timings'', PDict []),
       (''elapsed_s'', PFloat 2), (''turn'', PInt 1)] (w\<lparr>w_store := st\<rparr>))"
    by (simp add: wait_for_def ts fb_log_def end_stream_def)
  then show "\<exists>w'. wait_for demo_conf fb_log (finish_feedback demo_conf fb_payload (gl_elapsed fb_log))
      (py_bind (stored_task demo_conf w) (\<lambda>task_state. Inr (feedback_input fb_payload task_state))) w = Returned False w'
      \<and> steady demo_conf w' \<and> w_status demo_conf w' = w_status demo_conf w"
    using st(2,3) by simp
qed

theorem feedback_race_witness:
  "(\<exists>w'. handle_feedback (demo_conf\<lparr>rc_before := api_feedback redis_kv (\<lambda>i. ''t'') ''a1''\<rparr>) fb_log (PDict fb_payload) (demo_world ''SUCCESS'') = Inr w'
      \<and> w_status demo_conf w' = Some (PStr ''RUNNING'') \<and> w_broker w' = open_broker)
   \<and> (\<exists>w'. handle_feedback (demo_conf\<lparr>rc_mid := api_feedback redis_kv (\<lambda>i. ''t'') ''a1''\<rparr>) fb_log (PDict fb_payload) (demo_world ''SUCCESS'') = Inr w'
      \<and> w_status demo_conf w' = Some (PStr ''SUCCESS''))"
  using feedback_race [OF redis.kv_store_axioms demo_quiet(1,2) demo_steady(1) _ fb_completes, of "''SUCCESS''" "\<lambda>i. ''t''"]
    demo_steady(2) [of "''SUCCESS''"] demo_quiet(4)
  by (simp add: demo_world_def)

text \<open>Stopping the worker. Each commit covers the whole batch that was polled. When the worker is
  told to stop inside a batch of which one message has been handled, the messages of that batch
  that were not handled are committed all the same, and are not delivered again.\<close>

theorem shutdown_skips_batch:
  assumes "\<And>k. running k \<longleftrightarrow> k < length handled" and "handled \<noteq> []" and "\<And>k m w. h k m w = Inr (f m w)"
  shows "poll_loop running h 0 [handled @ rest] w 0 = (fold f handled w, length (handled @ rest))"
  using batch_loop_all [of h f handled running 0 "length (handled @ rest)" rest w 0] assms by simp

theorem shutdown_skips_batch_witness:
  "poll_loop (\<lambda>k. k < 1) (\<lambda>k m (w :: string list). Inr (w @ [m])) 0 [[''a1'', ''a2'', ''a3'']] [] 0 = ([''a1''], 3)"
  using shutdown_skips_batch [of "\<lambda>k. k < 1" "[''a1'']" "\<lambda>k m (w :: string list). Inr (w @ [m])" "\<lambda>m w. w @ [m]" "[''a2'', ''a3'']" "[]"]
  by simp

end
