(* ===== verification/TaskApi.thy ===== *)
theory TaskApi
  imports Worker
begin

text \<open>
  \<open>api/routes/task.py\<close>: the endpoints a client uses to submit a task, to watch it, to cancel it and to
  give feedback. The digest of an idempotency key, the fresh identifier of a task and the checks a
  response class makes of its fields are parameters. An endpoint ends with an HTTP error, an
  exception (which the framework turns into status 500), or a response.
\<close>

datatype api_error = Http nat string | Raised py_exc

type_synonym 'a api = "api_error + 'a"

definition api_of :: "'a py \<Rightarrow> 'a api" where
  "api_of m = (case m of Inl e \<Rightarrow> Inl (Raised e) | Inr x \<Rightarrow> Inr x)"

definition api_bind :: "'a api \<Rightarrow> ('a \<Rightarrow> 'b api) \<Rightarrow> 'b api" where
  "api_bind m f = (case m of Inl e \<Rightarrow> Inl e | Inr x \<Rightarrow> f x)"

lemma api_simps [simp]:
  "api_of (Inl e) = Inl (Raised e)" "api_of (Inr x) = Inr x"
  "api_bind (Inl er) f = Inl er" "api_bind (Inr x) f = f x"
  by (simp_all add: api_of_def api_bind_def)

definition not_found :: api_error where
  "not_found = Http 404 ''Task not found or expired''"

subsection \<open>Submission\<close>

record submit_request =
  sq_question :: string
  sq_rag_schema :: bool
  sq_rag_domain :: bool
  sq_multi_candidate :: bool
  sq_rag_k :: int
  sq_rag_column_prune :: bool
  sq_rag_hybrid :: bool
  sq_rag_fk_expand :: bool
  sq_fewshot_enabled :: bool
  sq_database_url :: "string option"
  sq_db_id :: "string option"
  sq_idempotency_key :: "string option"

text \<open>An empty key counts as none.\<close>

definition idem_key :: "(string \<Rightarrow> string) \<Rightarrow> submit_request \<Rightarrow> string option" where
  "idem_key sha256 req =
     (case sq_idempotency_key req of
        None \<Rightarrow> None
      | Some k \<Rightarrow> if k = [] then None else Some (take 32 (sha256 (k @ '':'' @ take 80 (sq_question req)))))"

definition existing_task :: "'r kv \<Rightarrow> (string \<Rightarrow> string) \<Rightarrow> submit_request \<Rightarrow> 'r option \<Rightarrow> string option" where
  "existing_task K sha256 req st =
     (case idem_key sha256 req of
        None \<Rightarrow> None
      | Some k \<Rightarrow> (case idempotent_check K k st of
          None \<Rightarrow> None
        | Some tid \<Rightarrow> if tid = [] then None else Some tid))"

definition opt_text :: "string option \<Rightarrow> string" where
  "opt_text v = (case v of None \<Rightarrow> [] | Some s \<Rightarrow> s)"

definition submit_payload :: "submit_request \<Rightarrow> pydict" where
  "submit_payload req =
     [(''question'', PStr (sq_question req)),
      (''db_id'', PStr (opt_text (sq_db_id req))), (''database_url'', PStr (opt_text (sq_database_url req))),
      (''rag_schema'', PBool (sq_rag_schema req)), (''rag_domain'', PBool (sq_rag_domain req)),
      (''multi_candidate'', PBool (sq_multi_candidate req)), (''rag_k'', PInt (sq_rag_k req)),
      (''rag_column_prune'', PBool (sq_rag_column_prune req)), (''rag_hybrid'', PBool (sq_rag_hybrid req)),
      (''rag_fk_expand'', PBool (sq_rag_fk_expand req)), (''fewshot_enabled'', PBool (sq_fewshot_enabled req))]"

text \<open>\<open>new_id\<close> is \<open>uuid.uuid4().hex[:12]\<close>. The response is the identifier; its status is always PENDING.\<close>

definition task_submit ::
  "'r kv \<Rightarrow> (nat \<Rightarrow> string) \<Rightarrow> (string \<Rightarrow> string) \<Rightarrow> string \<Rightarrow> submit_request \<Rightarrow> 'r world \<Rightarrow> string \<times> 'r world" where
  "task_submit K now sha256 new_id req w =
     (case existing_task K sha256 req (w_store w) of
        Some tid \<Rightarrow> (tid, w)
      | None \<Rightarrow>
          let w = (case idem_key sha256 req of
                None \<Rightarrow> w | Some k \<Rightarrow> meddle (idempotent_set K k new_id 300) w);
              w = meddle (\<lambda>st. snd (task_create K now new_id (sq_question req)
                (opt_text (sq_db_id req)) (opt_text (sq_database_url req)) st)) w
          in (new_id, say TOPIC_REQUEST (PStr new_id) ''submitted'' (submit_payload req) w))"

subsection \<open>Status, cancellation, health\<close>

text \<open>The state of a task as a dictionary; a missing one is a 404.\<close>

definition stored_state :: "'r kv \<Rightarrow> string \<Rightarrow> 'r option \<Rightarrow> pydict api" where
  "stored_state K tid st =
     (case task_get K tid st of None \<Rightarrow> Inl not_found | Some v \<Rightarrow> api_of (as_dict v ''get''))"

text \<open>The fields of \<open>TaskStatusResponse\<close> with their defaults; other keys of the state are ignored.\<close>

definition status_fields :: "(string \<times> pyv) list" where
  "status_fields = [(''question'', PStr []), (''db_id'', PStr []), (''progress'', PInt 0), (''node'', PNone),
     (''sql'', PNone), (''exec_result'', PNone), (''token_usage'', PDict []), (''node_timings'', PDict []),
     (''error'', PNone), (''retry_count'', PInt 0), (''created_at'', PStr []), (''updated_at'', PStr [])]"

definition task_status :: "(pydict \<Rightarrow> pydict py) \<Rightarrow> 'r kv \<Rightarrow> string \<Rightarrow> 'r option \<Rightarrow> pydict api" where
  "task_status validate K tid st =
     api_bind (stored_state K tid st) (\<lambda>state.
     api_bind (api_of (py_item (PDict state) ''task_id'')) (\<lambda>task_id.
     api_bind (api_of (py_item (PDict state) ''status'')) (\<lambda>status.
       api_of (validate ([(''task_id'', task_id), (''status'', status)]
         @ map (\<lambda>(k, dflt). (k, d_get_or state k dflt)) status_fields)))))"

text \<open>The status of the response, and the store.\<close>

definition task_cancel :: "'r kv \<Rightarrow> string \<Rightarrow> 'r option \<Rightarrow> (pyv \<times> 'r option) api" where
  "task_cancel K tid st =
     (case task_get K tid st of
        None \<Rightarrow> Inr (PStr ''not_found'', st)
      | Some v \<Rightarrow> api_bind (api_of (as_dict v ''get'')) (\<lambda>state.
          let status = d_get_or state ''status'' PNone
          in if status \<in> {PStr ''SUCCESS'', PStr ''FAILED'', PStr ''CANCELLED'', PStr ''TIMEOUT''}
             then Inr (status, st)
             else Inr (PStr ''cancelled'', snd (task_request_cancel K tid st))))"

text \<open>\<open>now\<close> is the current time. The heartbeat is one the worker wrote, so it has a time zone.\<close>

definition task_health :: "'r kv \<Rightarrow> datetime \<Rightarrow> string \<Rightarrow> 'r option \<Rightarrow> pydict api" where
  "task_health K now tid st =
     api_bind (stored_state K tid st) (\<lambda>state.
       let status = d_get_or state ''status'' (PStr ''?'');
           hb = task_get_heartbeat K tid st;
           elapsed = (case hb of None \<Rightarrow> None
             | Some t \<Rightarrow> map_option (\<lambda>h. seconds_between now h) (fromisoformat t));
           healthy = (case elapsed of None \<Rightarrow> False | Some e \<Rightarrow> e < of_nat HEARTBEAT_STALE_S);
           stale_s = (case elapsed of None \<Rightarrow> PNone | Some e \<Rightarrow> PFloat (round_dec 1 e))
       in Inr [(''task_id'', PStr tid), (''task_status'', status),
            (''heartbeat'', case hb of None \<Rightarrow> PNone | Some t \<Rightarrow> PStr t), (''heartbeat_stale_s'', stale_s),
            (''healthy'', PBool healthy), (''worker_alive'', PBool (healthy \<and> status = PStr ''RUNNING''))])"

definition trigger_stale_scan ::
  "'r kv \<Rightarrow> (nat \<Rightarrow> string) \<Rightarrow> datetime \<Rightarrow> string list \<Rightarrow> 'r option \<Rightarrow> (pydict \<times> 'r option) api" where
  "trigger_stale_scan K clk now keys st =
     api_bind (api_of (scan_stale_tasks K clk now HEARTBEAT_STALE_S keys st)) (\<lambda>(stale, st').
       Inr ([(''stale_count'', PInt (int (length stale))), (''stale_task_ids'', PList (map PStr stale))], st'))"

subsection \<open>Feedback\<close>

definition TASK_FEEDBACK_MAX_TURNS :: nat where "TASK_FEEDBACK_MAX_TURNS = 10"

definition feedback_payload :: "string \<Rightarrow> nat \<Rightarrow> pyv \<Rightarrow> pydict \<Rightarrow> pydict" where
  "feedback_payload feedback turn turns state =
     [(''feedback'', PStr feedback), (''turn'', PInt (int turn)),
      (''question'', d_get_or state ''question'' (PStr [])), (''db_id'', d_get_or state ''db_id'' (PStr [])),
      (''database_url'', d_get_or state ''database_url'' (PStr [])), (''sql'', d_get_or state ''sql'' (PStr [])),
      (''exec_result'', d_get_or state ''exec_result'' PNone), (''conversation_turns'', turns),
      (''token_usage'', d_get_or state ''token_usage'' (PDict [])),
      (''node_timings'', d_get_or state ''node_timings'' (PDict []))]"

definition feedback_refused :: "pyv \<Rightarrow> api_error" where
  "feedback_refused status =
     Http 400 (''Feedback only allowed on SUCCESS tasks (current: '' @ py_str status @ '')'')"

definition turns_exhausted :: api_error where
  "turns_exhausted = Http 400 (''Maximum feedback turns ('' @ show_nat TASK_FEEDBACK_MAX_TURNS @ '') reached'')"

text \<open>The number of the turn, and the world after the message and the transition.\<close>

definition task_feedback ::
  "'r kv \<Rightarrow> (nat \<Rightarrow> string) \<Rightarrow> string \<Rightarrow> string \<Rightarrow> 'r world \<Rightarrow> (nat \<times> 'r world) api" where
  "task_feedback K now tid feedback w =
     api_bind (stored_state K tid (w_store w)) (\<lambda>state.
       let cur_status = d_get_or state ''status'' (PStr []);
           turns = d_get_or state ''conversation_turns'' (PList [])
       in if cur_status \<notin> {PStr ''SUCCESS'', PStr ''FAILED''} then Inl (feedback_refused cur_status)
          else api_bind (api_of (py_iter turns)) (\<lambda>items.
            let turn_number = length items + 1
            in if TASK_FEEDBACK_MAX_TURNS < turn_number then Inl turns_exhausted
               else
                 let w = say TOPIC_FEEDBACK (PStr tid) ''feedback'' (feedback_payload feedback turn_number turns state) w
                 in api_bind (api_of (feedback_transition K now tid (w_store w))) (\<lambda>(_, st).
                      Inr (turn_number, w\<lparr>w_store := st\<rparr>))))"

subsection \<open>The event stream\<close>

text \<open>One turn of the loop: a token within half a second, or none and then the state that is polled.\<close>

datatype stream_turn = TToken string | TPoll "pyv option"

datatype stream_event =
    EToken string
  | EStatus pydict
  | ENode pyv
  | EComplete pydict
  | EError string
  | ETimeout
  | ERaised py_exc        \<comment> \<open>the generator is left by an exception\<close>

definition status_event :: "pydict \<Rightarrow> pydict py" where
  "status_event state =
     py_bind (py_prefix (py_or_val (d_get_or state ''sql'' PNone) (PStr [])) 200) (\<lambda>preview. Inr
       [(''status'', d_get_or state ''status'' (PStr ''?'')), (''progress'', d_get_or state ''progress'' (PInt 0)),
        (''node'', d_get_or state ''node'' (PStr [])), (''sql_preview'', preview),
        (''error'', d_get_or state ''error'' PNone)])"

definition complete_event :: "pydict \<Rightarrow> pydict" where
  "complete_event state =
     [(''status'', d_get_or state ''status'' (PStr ''?'')), (''sql'', d_get_or state ''sql'' (PStr [])),
      (''exec_result'', d_get_or state ''exec_result'' PNone), (''token_usage'', d_get_or state ''token_usage'' (PDict [])),
      (''node_timings'', d_get_or state ''node_timings'' (PDict [])), (''error'', d_get_or state ''error'' PNone)]"

definition terminal :: "pydict \<Rightarrow> bool" where
  "terminal state \<longleftrightarrow> d_get_or state ''status'' (PStr ''?'')
     \<in> {PStr ''SUCCESS'', PStr ''FAILED'', PStr ''TIMEOUT'', PStr ''CANCELLED''}"

text \<open>The events of one poll, the new marks \<open>last_updated\<close> and \<open>last_node\<close>, and whether the loop goes on.\<close>

definition poll_events :: "pydict \<Rightarrow> pyv \<Rightarrow> pyv \<Rightarrow> (stream_event list \<times> pyv \<times> pyv \<times> bool) py" where
  "poll_events state last_updated last_node =
     (let updated = d_get_or state ''updated_at'' (PStr []);
          node = d_get_or state ''node'' (PStr []);
          new_node = (truthy node \<and> node \<noteq> last_node)
      in py_bind (if updated \<noteq> last_updated
                  then py_bind (status_event state) (\<lambda>e. Inr [EStatus e]) else Inr []) (\<lambda>ev1. Inr
           (ev1 @ (if new_node then [ENode node] else [])
              @ (if terminal state then [EComplete (complete_event state)] else []),
            updated, if new_node then node else last_node, \<not> terminal state)))"

text \<open>The list of turns is what happens before the deadline of five minutes.\<close>

fun stream_events :: "stream_turn list \<Rightarrow> pyv \<Rightarrow> pyv \<Rightarrow> stream_event list" where
  "stream_events [] last_updated last_node = [ETimeout]"
| "stream_events (TToken t # ts) last_updated last_node = EToken t # stream_events ts last_updated last_node"
| "stream_events (TPoll None # ts) last_updated last_node = [EError ''Task not found'']"
| "stream_events (TPoll (Some v) # ts) last_updated last_node =
     (case py_bind (as_dict v ''get'') (\<lambda>state. poll_events state last_updated last_node) of
        Inl e \<Rightarrow> [ERaised e]
      | Inr (evs, u, n, go) \<Rightarrow> evs @ (if go then stream_events ts u n else []))"

definition task_stream :: "stream_turn list \<Rightarrow> stream_event list" where
  "task_stream ts = stream_events ts (PStr []) (PStr [])"

subsection \<open>Submission meets the worker\<close>

lemma meddle_store [simp]: "w_store (meddle f w) = f (w_store w)"
  by (simp add: meddle_def)

definition fresh_state :: "(nat \<Rightarrow> string) \<Rightarrow> string \<Rightarrow> submit_request \<Rightarrow> pydict" where
  "fresh_state now tid req =
     fst (task_create (redis_kv :: redis kv) now tid (sq_question req) (opt_text (sq_db_id req)) (opt_text (sq_database_url req)) None)"

lemma task_create_fresh:
  "snd (task_create K now tid (sq_question req) (opt_text (sq_db_id req)) (opt_text (sq_database_url req)) st)
     = set_state K tid (fresh_state now tid req) st"
  by (simp add: task_create_def fresh_state_def Let_def)

lemma fresh_state_good:
  "json_value (PDict (fresh_state now tid req))" "d_get_or (fresh_state now tid req) ''status'' v = PStr ''PENDING''"
  "d_get (fresh_state now tid req) ''question'' = Some (PStr (take 200 (sq_question req)))"
  by (simp_all add: fresh_state_def task_create_def Let_def d_get_or_def d_get_def)

lemma submit_new:
  assumes "existing_task K sha256 req (w_store w) = None"
  obtains st where "task_submit K now sha256 tid req w = (tid,
      say TOPIC_REQUEST (PStr tid) ''submitted'' (submit_payload req) (w\<lparr>w_store := set_state K tid (fresh_state now tid req) st\<rparr>))"
    and "st = (case idem_key sha256 req of None \<Rightarrow> w_store w | Some k \<Rightarrow> idempotent_set K k tid 300 (w_store w))"
  using assms
  by (intro that) (auto simp: task_submit_def task_create_fresh meddle_def Let_def split: option.splits)

lemma submit_request_good: "request (submit_payload req) 0"
  by (simp add: request_def submit_payload_def retry_count_of_def d_get_or_def d_get_def)

context kv_store
begin

lemma idempotent_other: "idempotent_check K k (set_state K tid d st) = idempotent_check K k st"
  by (cases st) (simp_all add: idempotent_check_def set_state_def get_setex)

lemma idempotent_after:
  "idempotent_check K k (map_option (wait n) (set_state K tid d (idempotent_set K k v 300 (Some r))))
     = (if n < 300 then Some v else None)"
  by (simp add: idempotent_check_def set_state_def idempotent_set_def get_wait_other get_wait_setex)

text \<open>A submitted task waits for the worker.\<close>

lemma submitted_awaits:
  assumes C: "rc_kv C = K" "rc_id C = PStr tid" "plain_id tid"
    and w: "w_store w = Some r" "\<not> is_cancelled C w" "opened (w_broker w)"
    and e: "existing_task K sha256 req (w_store w) = None"
  shows "awaits C (snd (task_submit K now sha256 tid req w))"
    and "w_status C (snd (task_submit K now sha256 tid req w)) = Some (PStr ''PENDING'')"
    and "sent_to TOPIC_REQUEST (snd (task_submit K now sha256 tid req w)) = sent_to TOPIC_REQUEST w
      @ [to_json \<lparr>tm_task_id = rc_id C, tm_event = PStr ''submitted'', tm_payload = PDict (submit_payload req)\<rparr>]"
proof -
  obtain st where s: "task_submit K now sha256 tid req w = (tid,
      say TOPIC_REQUEST (PStr tid) ''submitted'' (submit_payload req) (w\<lparr>w_store := set_state K tid (fresh_state now tid req) st\<rparr>))"
    and st: "st = (case idem_key sha256 req of None \<Rightarrow> w_store w | Some k \<Rightarrow> idempotent_set K k tid 300 (w_store w))"
    by (rule submit_new [OF e])
  obtain r' where r': "st = Some r'" using st w(1) by (cases "idem_key sha256 req") (auto simp: idempotent_set_def)
  have "\<not> task_is_cancelled K tid st"
    using w C st by (cases "idem_key sha256 req")
      (auto simp: is_cancelled_def task_is_cancelled_def idempotent_set_def get_setex cancel_key_def idempotent_key_def)
  then have nc: "\<not> is_cancelled C (w\<lparr>w_store := set_state K tid (fresh_state now tid req) st\<rparr>)"
    using C by (simp add: is_cancelled_def cancelled_set_state)
  have g: "task_get K tid (set_state K tid (fresh_state now tid req) st) = Some (PDict (fresh_state now tid req))"
    using get_set_state [OF fresh_state_good(1), of tid tid now tid req r'] r' by simp
  have "well_stored K tid (set_state K tid (fresh_state now tid req) st)"
    using fresh_state_good(1) [of now tid req] r'
    by (auto simp: well_stored_def set_state_def get_setex simp del: json_value.simps json_dumps.simps)
  then show "awaits C (snd (task_submit K now sha256 tid req w))"
    and "w_status C (snd (task_submit K now sha256 tid req w)) = Some (PStr ''PENDING'')"
    and "sent_to TOPIC_REQUEST (snd (task_submit K now sha256 tid req w)) = sent_to TOPIC_REQUEST w
      @ [to_json \<lparr>tm_task_id = rc_id C, tm_event = PStr ''submitted'', tm_payload = PDict (submit_payload req)\<rparr>]"
    using s nc g C w(3) by (simp_all add: awaits_def steady_def say_opened status_of_def fresh_state_good)
qed

end

text \<open>From the submission to the end of all retries: a task whose graph always raises, after any number
  of updates, an exception other than \<open>TimeoutError\<close>.\<close>

lemma submitted_dead_letter:
  assumes "kv_store K wait" and "rc_kv C = K" "quiet C" "undisturbed C 0 (length (gl_steps g))" "exc_type e \<noteq> ''TimeoutError''"
    and "rc_id C = PStr tid" and "always_fails g (submit_payload req) e"
    and "w_store w = Some r" "\<not> is_cancelled C w" "opened (w_broker w)" "sent_to TOPIC_REQUEST w = []"
    and "existing_task K sha256 req (w_store w) = None"
  shows "\<exists>w'. drain C g (4 + k) 0 (snd (task_submit K now sha256 tid req w)) = (4, w')
    \<and> w_status C w' = Some (PStr ''FAILED'')"
proof -
  have p: "plain_id tid" using assms(3,6) by (auto simp: quiet_def)
  note a = kv_store.submitted_awaits [OF assms(1,2,6) p assms(8-10,12), of now]
  show ?thesis
    using kv_store.drain_failing [OF assms(1-5,7) a(1), where m = 3 and seen = 0 and ev = "''submitted''" and k = k]
      a(3) assms(11) submit_request_good [of req]
    by (auto simp: eval_nat_numeral)
qed

subsection \<open>The shape of the event stream\<close>

fun closing :: "stream_event \<Rightarrow> bool" where
  "closing (EToken t) = False"
| "closing (EStatus d) = False"
| "closing (ENode v) = False"
| "closing e = True"

definition tokens_of :: "stream_event list \<Rightarrow> string list" where
  "tokens_of evs = concat (map (\<lambda>e. case e of EToken t \<Rightarrow> [t] | _ \<Rightarrow> []) evs)"

lemma tokens_of_simps [simp]:
  "tokens_of [] = []" "tokens_of (EToken t # evs) = t # tokens_of evs" "tokens_of (EStatus d # evs) = tokens_of evs"
  "tokens_of (ENode v # evs) = tokens_of evs" "tokens_of (EComplete d # evs) = tokens_of evs"
  "tokens_of (a @ b) = tokens_of a @ tokens_of b"
  by (simp_all add: tokens_of_def)

text \<open>A poll that ends the stream: no state, a value that is no state, or a final status.\<close>

definition ends_stream :: "stream_turn \<Rightarrow> bool" where
  "ends_stream t \<longleftrightarrow> (case t of TToken s \<Rightarrow> False | TPoll None \<Rightarrow> True
     | TPoll (Some v) \<Rightarrow> (case v of PDict d \<Rightarrow> terminal d | _ \<Rightarrow> True))"

text \<open>States as the worker writes them: the query is a string or missing.\<close>

definition readable :: "stream_turn \<Rightarrow> bool" where
  "readable t \<longleftrightarrow> (case t of TPoll (Some v) \<Rightarrow> (case v of
       PDict d \<Rightarrow> (case d_get_or d ''sql'' PNone of PNone \<Rightarrow> True | PStr q \<Rightarrow> True | _ \<Rightarrow> False)
     | _ \<Rightarrow> False) | _ \<Rightarrow> True)"

lemma status_event_readable: "readable (TPoll (Some (PDict d))) \<Longrightarrow> \<exists>e. status_event d = Inr e"
  by (auto simp: readable_def status_event_def py_or_val_def py_prefix_def split: pyv.splits)

lemma poll_events_readable:
  assumes "readable (TPoll (Some (PDict d)))"
  obtains evs u' n' where "poll_events d u n =
      Inr (evs @ (if terminal d then [EComplete (complete_event d)] else []), u', n', \<not> terminal d)"
    and "list_all (\<lambda>e. \<not> closing e) evs" and "tokens_of evs = []"
proof -
  obtain e where e: "status_event d = Inr e" using status_event_readable [OF assms] by blast
  show thesis
    by (rule that [of "(if d_get_or d ''updated_at'' (PStr []) \<noteq> u then [EStatus e] else []) @
          (if truthy (d_get_or d ''node'' (PStr [])) \<and> d_get_or d ''node'' (PStr []) \<noteq> n
           then [ENode (d_get_or d ''node'' (PStr []))] else [])"
          "d_get_or d ''updated_at'' (PStr [])"
          "if truthy (d_get_or d ''node'' (PStr [])) \<and> d_get_or d ''node'' (PStr []) \<noteq> n
           then d_get_or d ''node'' (PStr []) else n"])
      (auto simp: poll_events_def e Let_def)
qed

definition final_event :: "stream_turn list \<Rightarrow> stream_event" where
  "final_event ts = (case find ends_stream ts of
       None \<Rightarrow> ETimeout
     | Some (TPoll (Some (PDict d))) \<Rightarrow> EComplete (complete_event d)
     | _ \<Rightarrow> EError ''Task not found'')"

definition tokens_sent :: "stream_turn list \<Rightarrow> string list" where
  "tokens_sent ts = concat (map (\<lambda>t. case t of TToken s \<Rightarrow> [s] | TPoll v \<Rightarrow> []) (takeWhile (\<lambda>t. \<not> ends_stream t) ts))"

lemma stream_shape:
  "list_all readable ts \<Longrightarrow> \<exists>body. stream_events ts u n = body @ [final_event ts] \<and>
     list_all (\<lambda>e. \<not> closing e) body \<and> tokens_of body = tokens_sent ts"
proof (induction ts u n rule: stream_events.induct)
  case (2 t ts u n)
  then obtain body where b: "stream_events ts u n = body @ [final_event ts]" "list_all (\<lambda>e. \<not> closing e) body"
    "tokens_of body = tokens_sent ts" by auto
  have "final_event (TToken t # ts) = final_event ts" "tokens_sent (TToken t # ts) = t # tokens_sent ts"
    by (simp_all add: final_event_def tokens_sent_def ends_stream_def)
  then show ?case using b by (intro exI [of _ "EToken t # body"]) simp
next
  case (4 v ts u n)
  obtain d where d: "v = PDict d" using 4(2) by (cases v) (auto simp: readable_def)
  obtain evs u' n' where p: "poll_events d u n =
      Inr (evs @ (if terminal d then [EComplete (complete_event d)] else []), u', n', \<not> terminal d)"
    "list_all (\<lambda>e. \<not> closing e) evs" "tokens_of evs = []"
    using poll_events_readable [of d u n] 4(2) d by auto
  show ?case
  proof (cases "terminal d")
    case True
    then have "final_event (TPoll (Some v) # ts) = EComplete (complete_event d)" "tokens_sent (TPoll (Some v) # ts) = []"
      by (simp_all add: final_event_def tokens_sent_def ends_stream_def d)
    then show ?thesis using p True by (intro exI [of _ evs]) (simp add: d as_dict_def)
  next
    case False
    have s: "final_event (TPoll (Some v) # ts) = final_event ts" "tokens_sent (TPoll (Some v) # ts) = tokens_sent ts"
      using False by (simp_all add: final_event_def tokens_sent_def ends_stream_def d)
    have "\<exists>body. stream_events ts u' n' = body @ [final_event ts] \<and> list_all (\<lambda>e. \<not> closing e) body
        \<and> tokens_of body = tokens_sent ts"
      by (rule 4(1)) (use p False 4(2) in \<open>auto simp: d as_dict_def\<close>)
    then obtain body where "stream_events ts u' n' = body @ [final_event ts]" "list_all (\<lambda>e. \<not> closing e) body"
      "tokens_of body = tokens_sent ts" by blast
    then show ?thesis using p False s by (intro exI [of _ "evs @ body"]) (simp add: d as_dict_def)
  qed
qed (simp_all add: final_event_def tokens_sent_def ends_stream_def tokens_of_def)

subsection \<open>Properties\<close>

text \<open>The stream of a task ends with exactly one closing event, its last: the result of the first
  state with a final status, an error if the task is gone before that, or the timeout if the
  deadline comes first. Until then every token is passed on, once and in order.\<close>

theorem stream_ends_once:
  assumes "list_all readable ts"
  shows "\<exists>body. task_stream ts = body @ [final_event ts] \<and> list_all (\<lambda>e. \<not> closing e) body \<and> closing (final_event ts)
    \<and> tokens_of body = tokens_sent ts
    \<and> (\<forall>d. final_event ts = EComplete d \<longleftrightarrow>
        (\<exists>state. find ends_stream ts = Some (TPoll (Some (PDict state))) \<and> d = complete_event state))"
proof -
  have f: "closing (final_event ts)"
    by (auto simp: final_event_def split: option.splits stream_turn.splits pyv.splits)
  have c: "final_event ts = EComplete d \<longleftrightarrow>
      (\<exists>state. find ends_stream ts = Some (TPoll (Some (PDict state))) \<and> d = complete_event state)" for d
    by (auto simp: final_event_def split: option.splits stream_turn.splits pyv.splits)
  show ?thesis using stream_shape [OF assms, of "PStr []" "PStr []"] f c unfolding task_stream_def by auto
qed

definition demo_turns :: "stream_turn list" where
  "demo_turns = [TToken ''SEL'', TPoll (Some (PDict [(''status'', PStr ''RUNNING''), (''node'', PStr ''guard''), (''updated_at'', PStr ''t1'')])),
     TToken ''ECT'', TPoll (Some (PDict [(''status'', PStr ''SUCCESS''), (''sql'', PStr ''SELECT 1''), (''updated_at'', PStr ''t2'')])),
     TToken ''late'']"

theorem stream_ends_once_witness:
  "list_all readable demo_turns \<and> tokens_sent demo_turns = [''SEL'', ''ECT'']
   \<and> (\<exists>body d. task_stream demo_turns = body @ [EComplete d] \<and> tokens_of body = [''SEL'', ''ECT''])"
proof -
  have r: "list_all readable demo_turns" by code_simp
  have t: "tokens_sent demo_turns = [''SEL'', ''ECT'']" by code_simp
  have "\<exists>d. final_event demo_turns = EComplete d"
    by (simp add: final_event_def demo_turns_def ends_stream_def terminal_def d_get_or_def)
  then show ?thesis using stream_ends_once [OF r] r t by auto
qed

text \<open>C33: An idempotency key is honoured for 300 seconds: a second request with the same key and question
  returns the first task and changes nothing; afterwards it creates a task of its own. The first
  request leaves a pending task with the (shortened) question and one message that the worker
  decodes to exactly the payload.\<close>

theorem submit_idempotent:
  assumes "kv_store K wait" and "w_store w = Some r" and "opened (w_broker w)" and "tid \<noteq> []"
    and "idem_key sha256 req = Some k" and "idem_key sha256 req2 = Some k" and "idempotent_check K k (w_store w) = None"
  shows "\<exists>w1 d raw. task_submit K now sha256 tid req w = (tid, w1)
    \<and> task_get K tid (w_store w1) = Some (PDict d) \<and> d_get d ''status'' = Some (PStr ''PENDING'')
    \<and> d_get d ''question'' = Some (PStr (take 200 (sq_question req)))
    \<and> sent_to TOPIC_REQUEST w1 = sent_to TOPIC_REQUEST w @ [raw]
    \<and> from_json raw = Inr \<lparr>tm_task_id = PStr tid, tm_event = PStr ''submitted'', tm_payload = PDict (submit_payload req)\<rparr>
    \<and> (let w2 = meddle (map_option (wait n)) w1; (tid', w3) = task_submit K now2 sha256 tid2 req2 w2
       in if n < 300 then tid' = tid \<and> w3 = w2
          else tid' = tid2 \<and> length (sent_to TOPIC_REQUEST w3) = length (sent_to TOPIC_REQUEST w) + 2)"
proof -
  have e: "existing_task K sha256 req (w_store w) = None" using assms(5,7) by (simp add: existing_task_def)
  let ?st = "idempotent_set K k tid 300 (w_store w)"
  let ?w1 = "say TOPIC_REQUEST (PStr tid) ''submitted'' (submit_payload req) (w\<lparr>w_store := set_state K tid (fresh_state now tid req) ?st\<rparr>)"
  let ?m = "\<lparr>tm_task_id = PStr tid, tm_event = PStr ''submitted'', tm_payload = PDict (submit_payload req)\<rparr>"
  have s: "task_submit K now sha256 tid req w = (tid, ?w1)"
    by (rule submit_new [OF e, where now = now and tid = tid]) (simp add: assms(5))
  obtain r' where r': "?st = Some r'" by (simp add: idempotent_set_def assms(2))
  have g: "task_get K tid (w_store ?w1) = Some (PDict (fresh_state now tid req))"
    using kv_store.get_set_state [OF assms(1) fresh_state_good(1), of tid tid now tid req r'] r' by simp
  have m: "from_json (to_json ?m) = Inr ?m"
    using submit_request_good [of req] by (intro from_to_json) (simp_all add: request_def del: json_value.simps(5))
  have o: "sent_to TOPIC_REQUEST ?w1 = sent_to TOPIC_REQUEST w @ [to_json ?m]" "opened (w_broker ?w1)"
    using assms(3) by (simp_all add: say_opened)
  have x: "existing_task K sha256 req2 (w_store (meddle (map_option (wait n)) ?w1)) = (if n < 300 then Some tid else None)"
    using kv_store.idempotent_after [OF assms(1), of k n tid "fresh_state now tid req" tid r] assms(2,4,6)
    by (simp add: existing_task_def)
  have late: "let w2 = meddle (map_option (wait n)) ?w1; (tid', w3) = task_submit K now2 sha256 tid2 req2 w2
       in if n < 300 then tid' = tid \<and> w3 = w2
          else tid' = tid2 \<and> length (sent_to TOPIC_REQUEST w3) = length (sent_to TOPIC_REQUEST w) + 2"
  proof (cases "n < 300")
    case True
    then show ?thesis using x by (simp add: task_submit_def Let_def)
  next
    case False
    then have "existing_task K sha256 req2 (w_store (meddle (map_option (wait n)) ?w1)) = None" using x by simp
    then show ?thesis
      by (rule submit_new [where now = now2 and tid = tid2]) (use False o in \<open>auto simp: say_opened Let_def\<close>)
  qed
  show ?thesis
    using s g m o(1) late fresh_state_good(2) [of now tid req PNone] fresh_state_good(3) [of now tid req]
    by (intro exI [of _ ?w1] exI [of _ "fresh_state now tid req"] exI [of _ "to_json ?m"])
      (simp add: d_get_or_get split: option.splits)
qed

definition demo_submit :: submit_request where
  "demo_submit = \<lparr>sq_question = ''How many?'', sq_rag_schema = True, sq_rag_domain = True, sq_multi_candidate = True,
     sq_rag_k = 8, sq_rag_column_prune = False, sq_rag_hybrid = True, sq_rag_fk_expand = True, sq_fewshot_enabled = True,
     sq_database_url = None, sq_db_id = Some ''shop'', sq_idempotency_key = Some ''k1''\<rparr>"

theorem submit_idempotent_witness:
  "\<exists>w1. task_submit redis_kv (\<lambda>i. ''t'') (\<lambda>s. s) ''a1'' demo_submit \<lparr>w_store = Some redis_empty, w_broker = open_broker\<rparr> = (''a1'', w1)
    \<and> fst (task_submit redis_kv (\<lambda>i. ''t'') (\<lambda>s. s) ''a2'' demo_submit (meddle (map_option (redis_wait 299)) w1)) = ''a1''
    \<and> fst (task_submit redis_kv (\<lambda>i. ''t'') (\<lambda>s. s) ''a2'' demo_submit (meddle (map_option (redis_wait 300)) w1)) = ''a2''"
proof -
  let ?w = "\<lparr>w_store = Some redis_empty, w_broker = open_broker\<rparr>"
  have k: "idem_key (\<lambda>s. s) demo_submit = Some ''k1:How many?''" by (simp add: idem_key_def demo_submit_def)
  have i: "idempotent_check redis_kv ''k1:How many?'' (w_store ?w) = None"
    by (simp add: idempotent_check_def redis_kv_def redis_get_def redis_empty_def)
  have o: "opened (w_broker ?w)" by (simp add: opened_def open_broker_def)
  note t = submit_idempotent [OF redis.kv_store_axioms _ o _ k k i, where now = "\<lambda>i. ''t''" and tid = "''a1''"
      and ?now2.0 = "\<lambda>i. ''t''" and ?tid2.0 = "''a2''"]
  show ?thesis using t [of redis_empty 299] t [of redis_empty 300] by (auto simp: Let_def case_prod_unfold)
qed

end
