(* ===== verification/Metrics.thy ===== *)
theory Metrics
  imports Executor Json "HOL-Library.Multiset"
begin

text \<open>
  \<open>evaluation/metrics.py\<close>: comparing the result of a generated query with that of the reference query,
  and how many of the reference tables the retrieval found. Times are inputs: \<open>t n\<close> is the n-th
  reading of the clock in seconds, and \<open>timed_out\<close> says whether the generated query took longer than
  the 60 seconds it is given.
\<close>

subsection \<open>Reference data\<close>

text \<open>\<open>load_gold\<close>: one JSON value on each line that is not blank.\<close>

definition load_gold :: "string \<Rightarrow> pyv list py" where
  "load_gold text = py_map json_loads (filter (\<lambda>l. strip l \<noteq> []) (split nl text))"

subsection \<open>Comparison of results\<close>

text \<open>Rows are sorted by the texts of their cells, so that numbers and strings can meet. Sorting is
  stable: rows with the same texts keep the order of the database.\<close>

definition normalize_rows :: "row list \<Rightarrow> ncell list list" where
  "normalize_rows rows = sort_key (map ncell_str) (map (map norm_cell) rows)"

record match_info =
  mi_ex :: bool
  mi_detail :: string
  mi_gold_ms :: rat
  mi_gen_ms :: rat
  mi_gold_rows :: int
  mi_gen_rows :: int

text \<open>A result of the reference query that was computed before; no rows means that it failed then.\<close>

record gold_cache =
  gc_norm :: "ncell list list option"
  gc_ms :: rat
  gc_rows :: int
  gc_error :: string

definition no_match :: "string \<Rightarrow> rat \<Rightarrow> rat \<Rightarrow> int \<Rightarrow> int \<Rightarrow> match_info" where
  "no_match detail gold_ms gen_ms gold_rows gen_rows =
     \<lparr>mi_ex = False, mi_detail = detail, mi_gold_ms = gold_ms, mi_gen_ms = gen_ms,
      mi_gold_rows = gold_rows, mi_gen_rows = gen_rows\<rparr>"

text \<open>The error of a failed result; \<open>None[:80]\<close> raises.\<close>

definition error_prefix :: "exec_result \<Rightarrow> string py" where
  "error_prefix r = (case er_error r of
       None \<Rightarrow> Inl (PyExc ''TypeError'' ([CHR 0x27] @ ''NoneType'' @ [CHR 0x27] @ '' object is not subscriptable''))
     | Some e \<Rightarrow> Inr (take 80 e))"

text \<open>The reference side: normalised rows, time and number of rows, or the verdict that ends the comparison\<close>

definition gold_side ::
  "sqlglot \<Rightarrow> database \<Rightarrow> (nat \<Rightarrow> rat) \<Rightarrow> gold_cache option \<Rightarrow> string \<Rightarrow> string option
    \<Rightarrow> (match_info + ncell list list \<times> rat \<times> int) py" where
  "gold_side sg db t gold_cache sql_a database_url =
     (case gold_cache of
        Some g \<Rightarrow> Inr (case gc_norm g of
            None \<Rightarrow> Inl (no_match (''gold unavailable: '' @ take 80 (gc_error g)) (gc_ms g) 0 0 0)
          | Some norm_a \<Rightarrow> Inr (norm_a, gc_ms g, gc_rows g))
      | None \<Rightarrow>
          py_bind (execute_sql sg db sql_a DEFAULT_MAX_ROWS database_url) (\<lambda>r_a.
            let gold_time = (t 1 - t 0) * 1000
            in if \<not> er_success r_a
               then py_bind (error_prefix r_a) (\<lambda>e.
                 Inr (Inl (no_match (''gold SQL failed: '' @ e) gold_time 0 0 0)))
               else Inr (Inr (normalize_rows (or_default [] (er_data r_a)), gold_time, er_row_count r_a))))"

definition compare_rows :: "ncell list list \<Rightarrow> rat \<Rightarrow> int \<Rightarrow> exec_result \<Rightarrow> rat \<Rightarrow> match_info" where
  "compare_rows norm_a gold_time gold_rows r_b gen_time =
     (if norm_a = normalize_rows (or_default [] (er_data r_b))
      then \<lparr>mi_ex = True, mi_detail = ''match ('' @ show_int gold_rows @ '' rows)'', mi_gold_ms = gold_time,
            mi_gen_ms = gen_time, mi_gold_rows = gold_rows, mi_gen_rows = er_row_count r_b\<rparr>
      else no_match (''mismatch: gold='' @ show_int gold_rows @ '' rows, gen='' @ show_int (er_row_count r_b) @ '' rows'')
             gold_time gen_time gold_rows (er_row_count r_b))"

definition exec_match ::
  "sqlglot \<Rightarrow> database \<Rightarrow> (nat \<Rightarrow> rat) \<Rightarrow> bool \<Rightarrow> gold_cache option \<Rightarrow> string \<Rightarrow> string \<Rightarrow> string option \<Rightarrow> match_info py" where
  "exec_match sg db t timed_out gold_cache sql_a sql_b database_url =
     py_bind (gold_side sg db t gold_cache sql_a database_url) (\<lambda>g.
       case g of
         Inl m \<Rightarrow> Inr m
       | Inr (norm_a, gold_time, gold_rows) \<Rightarrow>
           let gen_time = (t 3 - t 2) * 1000
           in if timed_out
              then Inr (no_match ''generated SQL timed out after 60s'' gold_time gen_time gold_rows 0)
              else (case execute_sql sg db sql_b DEFAULT_MAX_ROWS database_url of
                  Inl e \<Rightarrow> Inr (no_match (''generated SQL error: '' @ take 80 (exc_msg e)) gold_time gen_time gold_rows 0)
                | Inr r_b \<Rightarrow>
                    if \<not> er_success r_b
                    then py_bind (error_prefix r_b) (\<lambda>e.
                      Inr (no_match (''generated SQL failed: '' @ e) gold_time gen_time gold_rows 0))
                    else Inr (compare_rows norm_a gold_time gold_rows r_b gen_time)))"

subsection \<open>Recall of the retrieval\<close>

text \<open>\<open>set.add\<close>, with the set as the list of its elements in the order of insertion\<close>

fun extract_tables_from_rag_chunks :: "chunk list \<Rightarrow> string list py" where
  "extract_tables_from_rag_chunks [] = Inr []"
| "extract_tables_from_rag_chunks (c # cs) =
     py_bind (case ch_meta c of
         None \<Rightarrow> Inr []
       | Some meta \<Rightarrow> (case d_get_or meta ''table_name'' (PStr []) of
           PStr tn \<Rightarrow> Inr (if tn = [] then [] else [lower tn])
         | v \<Rightarrow> if truthy v then Inl (no_attribute v ''lower'') else Inr [])) (\<lambda>x.
     py_bind (extract_tables_from_rag_chunks cs) (\<lambda>xs. Inr (List.union x xs)))"

record rag_recall =
  rr_recall :: rat
  rr_gold :: "string list"
  rr_retrieved :: "string list"
  rr_hit :: "string list"
  rr_missed :: "string list"

definition compute_rag_recall :: "sqlglot \<Rightarrow> chunk list \<Rightarrow> string \<Rightarrow> string \<Rightarrow> rag_recall option py" where
  "compute_rag_recall sg rag_chunks gold_sql dialect =
     (if rag_chunks = [] then Inr None
      else let gold_tables = extract_table_names sg gold_sql dialect
      in if gold_tables = [] then Inr None
         else py_bind (extract_tables_from_rag_chunks rag_chunks) (\<lambda>rag_tables.
           let hit = filter (\<lambda>x. x \<in> set rag_tables) gold_tables;
               missed = filter (\<lambda>x. x \<notin> set rag_tables) gold_tables
           in Inr (Some
             \<lparr>rr_recall = round_dec 4 (of_nat (length hit) / of_nat (length gold_tables)),
              rr_gold = sort gold_tables, rr_retrieved = sort rag_tables, rr_hit = sort hit, rr_missed = sort missed\<rparr>)))"

subsection \<open>Efficiency score\<close>

text \<open>\<open>math.sqrt\<close> is the exact square root here.\<close>

definition ves_score :: "bool \<Rightarrow> real \<Rightarrow> real \<Rightarrow> real" where
  "ves_score ex gold_time_ms gen_time_ms =
     (if \<not> ex \<or> gold_time_ms \<le> 0 \<or> gen_time_ms \<le> 0 then 0 else sqrt (gold_time_ms / gen_time_ms))"

lemma ves_score_faster: "1 < ves_score ex g b \<longleftrightarrow> ex \<and> 0 < b \<and> b < g"
  by (auto simp: ves_score_def)

lemma ves_score_nonneg: "0 \<le> ves_score ex g b"
  by (simp add: ves_score_def)

subsection \<open>When results match\<close>

abbreviation norm_row :: "row \<Rightarrow> ncell list" where
  "norm_row \<equiv> map norm_cell"

abbreviation row_text :: "ncell list \<Rightarrow> string list" where
  "row_text \<equiv> map ncell_str"

lemma mset_normalize [simp]: "mset (normalize_rows rows) = mset (map norm_row rows)"
  by (simp add: normalize_rows_def)

lemma sort_key_texts: "map f (sort_key f xs) = sort (map f xs)"
  by (rule properties_for_sort [symmetric]) simp_all

text \<open>Sorting forgets the order of the rows, unless two different rows have the same texts.\<close>

lemma normalize_rows_perm:
  assumes "mset (map norm_row xs) = mset (map norm_row ys)" and "inj_on row_text (set (map norm_row xs))"
  shows "normalize_rows xs = normalize_rows ys"
proof (rule map_inj_on)
  have "mset (map row_text (map norm_row xs)) = mset (map row_text (map norm_row ys))"
    using assms(1) by (metis mset_map)
  then have "sort (map row_text (map norm_row xs)) = sort (map row_text (map norm_row ys))"
    by (intro properties_for_sort) simp_all
  then show "map row_text (normalize_rows xs) = map row_text (normalize_rows ys)"
    by (simp only: normalize_rows_def sort_key_texts)
  have "set (normalize_rows xs) = set (map norm_row xs)" "set (normalize_rows ys) = set (map norm_row xs)"
    using mset_eq_setD [OF mset_normalize [of xs]] mset_eq_setD [OF mset_normalize [of ys]] mset_eq_setD [OF assms(1)] by auto
  then show "inj_on row_text (set (normalize_rows xs) \<union> set (normalize_rows ys))" using assms(2) by simp
qed

text \<open>Two different rows with the same texts: the order in which the database returns them decides.\<close>

lemma same_text_order_matters:
  "normalize_rows [[PFloat 1], [PStr ''1.0'']] \<noteq> normalize_rows [[PStr ''1.0''], [PFloat 1]]"
  by code_simp

abbreviation result_rows :: "exec_result \<Rightarrow> ncell list list" where
  "result_rows r \<equiv> map norm_row (or_default [] (er_data r))"

definition answers :: "sqlglot \<Rightarrow> database \<Rightarrow> string option \<Rightarrow> string \<Rightarrow> exec_result \<Rightarrow> bool" where
  "answers sg db url sql r \<longleftrightarrow> execute_sql sg db sql DEFAULT_MAX_ROWS url = Inr r \<and> er_success r"

lemma answers_count: "answers sg db url sql r \<Longrightarrow> er_row_count r = int (length (result_rows r))"
  using execute_sql_rows by (fastforce simp: answers_def)

lemma compare_rows_ex [simp]: "mi_ex (compare_rows na gt gr rb t) \<longleftrightarrow> na = normalize_rows (or_default [] (er_data rb))"
  and no_match_ex [simp]: "\<not> mi_ex (no_match d a b x y)"
  by (simp_all add: compare_rows_def no_match_def)

text \<open>The comparison of two queries that are both executed\<close>

lemma exec_match_answers:
  assumes "answers sg db url sql_a ra" and "answers sg db url sql_b rb"
  shows "exec_match sg db t False None sql_a sql_b url = Inr (compare_rows (normalize_rows (or_default [] (er_data ra)))
    ((t 1 - t 0) * 1000) (er_row_count ra) rb ((t 3 - t 2) * 1000))"
  using assms by (simp add: exec_match_def gold_side_def answers_def Let_def)

lemma exec_match_ex:
  assumes "exec_match sg db t to None sql_a sql_b url = Inr m" and "mi_ex m"
  obtains ra rb where "answers sg db url sql_a ra" and "answers sg db url sql_b rb"
    and "normalize_rows (or_default [] (er_data ra)) = normalize_rows (or_default [] (er_data rb))"
  using assms
  by (auto simp: exec_match_def gold_side_def answers_def py_bind_Inr_iff Let_def split: if_splits sum.splits)

subsection \<open>Property\<close>

text \<open>C35: Execution accuracy. Two queries count as equal only if both are executed and return the same rows
  the same number of times, after rounding, in any order; then they also have the same number of
  rows. Conversely such queries count as equal, provided that no two different rows of the result have
  the same texts.\<close>

theorem exec_match_correct:
  assumes "exec_match sg db t False None sql_a sql_b url = Inr m"
  shows "(mi_ex m \<longrightarrow> (\<exists>ra rb. answers sg db url sql_a ra \<and> answers sg db url sql_b rb
      \<and> mset (result_rows ra) = mset (result_rows rb) \<and> er_row_count ra = er_row_count rb))
    \<and> (\<forall>ra rb. answers sg db url sql_a ra \<and> answers sg db url sql_b rb \<and> mset (result_rows ra) = mset (result_rows rb)
      \<and> inj_on row_text (set (result_rows ra)) \<longrightarrow> mi_ex m)"
proof (intro conjI impI allI)
  assume "mi_ex m"
  then obtain ra rb where a: "answers sg db url sql_a ra" "answers sg db url sql_b rb"
    and n: "normalize_rows (or_default [] (er_data ra)) = normalize_rows (or_default [] (er_data rb))"
    using exec_match_ex [OF assms] by blast
  then have "mset (result_rows ra) = mset (result_rows rb)" by (metis mset_normalize)
  moreover from this have "length (result_rows ra) = length (result_rows rb)" by (rule mset_eq_length)
  ultimately show "\<exists>ra rb. answers sg db url sql_a ra \<and> answers sg db url sql_b rb
      \<and> mset (result_rows ra) = mset (result_rows rb) \<and> er_row_count ra = er_row_count rb"
    using a answers_count by metis
next
  fix ra rb
  assume "answers sg db url sql_a ra \<and> answers sg db url sql_b rb \<and> mset (result_rows ra) = mset (result_rows rb)
      \<and> inj_on row_text (set (result_rows ra))"
  then show "mi_ex m"
    using exec_match_answers [of sg db url sql_a ra sql_b rb t] normalize_rows_perm assms by auto
qed

theorem exec_match_correct_witness:
  "\<exists>m. exec_match (demo_sg demo_ast) demo_db (\<lambda>i. of_nat i) False None demo_sql demo_sql None = Inr m \<and> mi_ex m"
proof -
  have "py_ok (\<lambda>m. True) (exec_match (demo_sg demo_ast) demo_db (\<lambda>i. of_nat i) False None demo_sql demo_sql None)"
    and "py_ok (\<lambda>r. er_success r \<and> result_rows r = [[NStr ''Ada'']])
      (execute_sql (demo_sg demo_ast) demo_db demo_sql DEFAULT_MAX_ROWS None)"
    by code_simp+
  then obtain m r where m: "exec_match (demo_sg demo_ast) demo_db (\<lambda>i. of_nat i) False None demo_sql demo_sql None = Inr m"
    and r: "answers (demo_sg demo_ast) demo_db None demo_sql r" "result_rows r = [[NStr ''Ada'']]"
    by (auto simp: py_ok_def answers_def split: sum.splits)
  have "inj_on row_text (set (result_rows r))" by (simp add: r(2))
  then show ?thesis using exec_match_correct [OF m] r(1) m by blast
qed

text \<open>The recall lies between 0 and 1, the tables found and missed are all reference tables, and it is 1 if
  none is missed.\<close>

lemma rag_recall_bounds:
  assumes "compute_rag_recall sg chunks gold_sql dialect = Inr (Some r)"
  shows "0 \<le> rr_recall r \<and> rr_recall r \<le> 1 \<and> mset (rr_hit r @ rr_missed r) = mset (rr_gold r)
    \<and> (rr_missed r = [] \<longrightarrow> rr_recall r = 1)"
proof -
  let ?g = "extract_table_names sg gold_sql dialect"
  obtain rt where g: "?g \<noteq> []" and r: "r = \<lparr>rr_recall = round_dec 4 (of_nat (length (filter (\<lambda>x. x \<in> set rt) ?g)) / of_nat (length ?g)),
      rr_gold = sort ?g, rr_retrieved = sort rt, rr_hit = sort (filter (\<lambda>x. x \<in> set rt) ?g),
      rr_missed = sort (filter (\<lambda>x. x \<notin> set rt) ?g)\<rparr>"
    using assms by (auto simp: compute_rag_recall_def py_bind_Inr_iff Let_def split: if_splits)
  have q: "0 \<le> (of_nat (length (filter P ?g)) / of_nat (length ?g) :: rat)"
    "(of_nat (length (filter P ?g)) / of_nat (length ?g) :: rat) \<le> 1" for P
    using g by (simp_all add: divide_le_eq_1)
  have f: "filter (\<lambda>x. x \<notin> set rt) ?g = [] \<Longrightarrow> filter (\<lambda>x. x \<in> set rt) ?g = ?g"
    by (simp add: filter_empty_conv filter_id_conv)
  show ?thesis
    using round_dec_mono [OF q(1), of 4] round_dec_mono [OF q(2), of 4] f g
    by (auto simp: r simp flip: set_empty)
qed

end
