(* ===== verification/Review.thy ===== *)
theory Review
  imports Prompts Generator Json
begin

text \<open>
  \<open>guard/review.py\<close>: the reviewer of the older pipeline, a check of the names in a query by regular
  expressions followed by a call of a model. The order in which Python visits the set of bare names is
  the parameter \<open>order\<close>.
\<close>

subsection \<open>The check of the names\<close>

definition rx_create_table :: rx where
  "rx_create_table = rseq [rlit_ci ''CREATE TABLE '', RGrp 1 (rplus rw)]"

definition rx_create_body :: rx where
  "rx_create_body = rseq [rlit_ci ''CREATE TABLE '', RGrp 1 (rplus rw), rstar rws, rlit ''('',
     RGrp 2 (rlazy rany), rlit '');'']"

definition rx_line_word :: rx where
  "rx_line_word = rseq [rbol, rstar rws, RGrp 1 (rplus rw)]"

definition rx_quoted_text :: rx where
  "rx_quoted_text = rseq [rlit sq, rlazy rdot, rlit sq]"

definition rx_backticks :: rx where
  "rx_backticks = rseq [rlit [CHR 0x60], RGrp 1 (rplus rw), rlit [CHR 0x60]]"

definition rx_from_join :: rx where
  "rx_from_join = rseq [RAlt (rlit_ci ''FROM'') (rlit_ci ''JOIN''), rplus rws, RGrp 1 (rplus rw)]"

definition rx_qualified :: rx where
  "rx_qualified = rseq [RGrp 1 (rplus rw), rlit ''.'', RGrp 2 (rplus rw)]"

definition rx_bare_name :: rx where
  "rx_bare_name = rseq [rwordb, RGrp 1 (RSeq (RCls (\<lambda>c. is_upper_char c \<or> is_lower_char c \<or> c = CHR ''_'')) (rstar rw))]"

definition find_groups :: "rx \<Rightarrow> string \<Rightarrow> string list" where
  "find_groups r s = map (m_group 1) (re_finditer r s)"

definition schema_tables_of :: "string \<Rightarrow> string list" where
  "schema_tables_of schema_text = find_groups rx_create_table schema_text"

text \<open>Each column by itself and with its table\<close>

definition schema_cols_of :: "string \<Rightarrow> string list" where
  "schema_cols_of schema_text =
     concat (map (\<lambda>m. concat (map (\<lambda>col. [lower col, lower (m_group 1 m @ ''.'' @ col)])
         (find_groups rx_line_word (m_group 2 m))))
       (re_finditer rx_create_body schema_text))"

definition clean_sql :: "string \<Rightarrow> string" where
  "clean_sql sql = re_sub rx_backticks (m_group 1) (re_sub rx_quoted_text (\<lambda>m. sq @ ''...'' @ sq) sql)"

definition review_keywords :: "string list" where
  "review_keywords = [''select'', ''from'', ''where'', ''and'', ''or'', ''not'', ''in'', ''on'', ''as'', ''by'',
     ''group'', ''order'', ''having'', ''limit'', ''join'', ''left'', ''right'', ''inner'',
     ''outer'', ''cross'', ''full'', ''union'', ''all'', ''distinct'', ''case'', ''when'',
     ''then'', ''else'', ''end'', ''between'', ''like'', ''is'', ''null'', ''true'', ''false'',
     ''count'', ''sum'', ''avg'', ''min'', ''max'', ''date'', ''strftime'', ''cast'', ''coalesce'',
     ''exists'', ''asc'', ''desc'', ''set'', ''into'', ''values'', ''create'', ''drop'', ''alter'', ''table'',
     ''index'', ''view'', ''database'']"

definition qualified_issues_of :: "string \<Rightarrow> string \<Rightarrow> issue list" where
  "qualified_issues_of sql_clean schema_text =
     (let table_refs = map lower (find_groups rx_from_join sql_clean);
          refs = map (\<lambda>m. (lower (m_group 1 m), lower (m_group 1 m @ ''.'' @ m_group 2 m))) (re_finditer rx_qualified sql_clean)
      in map (\<lambda>(t, ref). mk_issue ''hallucination'' (''Column '' @ sq @ ref @ sq @ '' not found in schema.''))
           (filter (\<lambda>(t, ref). (t \<in> set table_refs \<or> t \<in> set (schema_tables_of schema_text))
              \<and> ref \<notin> set (schema_cols_of schema_text)) refs))"

text \<open>A bare name is suspect unless it is a keyword, one character, a known column or table, or the
  column part of a qualified name.\<close>

definition suspect_name :: "string \<Rightarrow> string \<Rightarrow> string \<Rightarrow> bool" where
  "suspect_name sql_clean schema_text c \<longleftrightarrow>
     (let cl = lower c
      in cl \<notin> set review_keywords \<and> \<not> (cl \<noteq> [] \<and> list_all is_digit_char cl) \<and> 1 < length cl
         \<and> \<not> (cl \<in> set (schema_cols_of schema_text) \<and> CHR ''.'' \<notin> set cl)
         \<and> cl \<notin> set (map lower (find_groups rx_from_join sql_clean)) \<and> cl \<notin> set (schema_tables_of schema_text)
         \<and> cl \<notin> set (map (\<lambda>m. lower (m_group 2 m)) (re_finditer rx_qualified sql_clean)))"

definition bare_names :: "string \<Rightarrow> string list" where
  "bare_names sql_clean = remdups (find_groups rx_bare_name (upper sql_clean))"

definition hard_check_hallucinations :: "(string list \<Rightarrow> string list) \<Rightarrow> string \<Rightarrow> string \<Rightarrow> issue list" where
  "hard_check_hallucinations order sql schema_text =
     (let sql_clean = clean_sql sql
      in qualified_issues_of sql_clean schema_text
         @ (case find (suspect_name sql_clean schema_text) (order (bare_names sql_clean)) of
              None \<Rightarrow> []
            | Some c \<Rightarrow> [mk_issue ''hallucination''
                (''Identifier '' @ sq @ c @ sq @ '' not found in schema '' @ em_dash
                  @ '' not a recognized table or column name.'')]))"

text \<open>Which name is reported depends on the order of the set; whether one is reported does not.\<close>

lemma hard_check_order:
  assumes "\<And>xs. set (order1 xs) = set xs" and "\<And>xs. set (order2 xs) = set xs"
  shows "length (hard_check_hallucinations order1 sql sch) = length (hard_check_hallucinations order2 sql sch)"
proof -
  let ?P = "suspect_name (clean_sql sql) sch" and ?b = "bare_names (clean_sql sql)"
  have "find ?P (order1 ?b) = None \<longleftrightarrow> find ?P (order2 ?b) = None"
    using assms by (simp add: find_None_iff)
  then show ?thesis by (auto simp: hard_check_hallucinations_def Let_def split: option.splits)
qed

subsection \<open>The reply of the model\<close>

definition rx_json_fence :: rx where
  "rx_json_fence = rseq [rlit_ci (ticks @ ''json''), rstar rws, RGrp 1 (rlazy rany), rlit ticks]"

definition rx_object :: rx where
  "rx_object = rseq [rlit ''{'', rstar rany, rlit ''}'']"

definition fail_open :: pyv where
  "fail_open = PDict [(''valid'', PBool True), (''issues'', PList []), (''critical_count'', PInt 0),
     (''suggested_fix'', PStr []), (''_parse_failed'', PBool True)]"

definition review_json :: "string \<Rightarrow> pyv" where
  "review_json response =
     (let bare = (case re_search rx_object response of
            None \<Rightarrow> fail_open
          | Some m \<Rightarrow> (case json_loads (m_text m) of Inl e \<Rightarrow> fail_open | Inr v \<Rightarrow> v))
      in case re_search rx_json_fence response of
           None \<Rightarrow> bare
         | Some m \<Rightarrow> (case json_loads (m_group 1 m) of Inl e \<Rightarrow> bare | Inr v \<Rightarrow> v))"

text \<open>The name in quotes of an issue's detail\<close>

definition rx_in_quotes :: rx where
  "rx_in_quotes = rseq [rlit sq, RGrp 1 (rplus (rnone_of sq)), rlit sq]"

definition quoted_name :: "string \<Rightarrow> string option" where
  "quoted_name detail = map_option (\<lambda>m. lower (m_group 1 m)) (re_search rx_in_quotes detail)"

definition llm_detail :: "pyv \<Rightarrow> string py" where
  "llm_detail v = (case v of
       PDict d \<Rightarrow> (case d_get_or d ''detail'' (PStr []) of
           PStr s \<Rightarrow> Inr s
         | _ \<Rightarrow> Inl (PyExc ''TypeError'' ''expected string or bytes-like object''))
     | _ \<Rightarrow> Inl (no_attribute v ''get''))"

fun new_issues :: "string list \<Rightarrow> pyv list \<Rightarrow> pyv list py" where
  "new_issues seen [] = Inr []"
| "new_issues seen (v # vs) =
     py_bind (llm_detail v) (\<lambda>detail.
     py_bind (new_issues seen vs) (\<lambda>rest.
       Inr (if (case quoted_name detail of None \<Rightarrow> False | Some n \<Rightarrow> n \<in> set seen) then rest else v # rest)))"

definition issue_value :: "issue \<Rightarrow> pyv" where
  "issue_value i = PDict [(''type'', PStr (i_type i)), (''detail'', PStr (i_detail i))]"

definition is_hallucination :: "pyv \<Rightarrow> bool" where
  "is_hallucination v = (case v of PDict d \<Rightarrow> d_get_or d ''type'' PNone = PStr ''hallucination'' | _ \<Rightarrow> False)"

definition add_count :: "pyv \<Rightarrow> nat \<Rightarrow> pyv py" where
  "add_count v n = (case v of
       PInt i \<Rightarrow> Inr (PInt (i + int n))
     | PBool b \<Rightarrow> Inr (PInt ((if b then 1 else 0) + int n))
     | PFloat q \<Rightarrow> Inr (PFloat (q + of_nat n))
     | _ \<Rightarrow> Inl (PyExc ''TypeError'' (''unsupported operand type(s) for +: '' @ py_type_name v)))"

definition merge_review :: "issue list \<Rightarrow> llm_reply \<Rightarrow> pydict py" where
  "merge_review hard_issues response =
     (case review_json (lr_content response) of
        PDict result \<Rightarrow>
          let token_usage = extract_token_usage (lr_usage response);
              seen = concat (map (\<lambda>i. case quoted_name (i_detail i) of None \<Rightarrow> [] | Some n \<Rightarrow> [n]) hard_issues)
          in py_bind (py_iter (d_get_or result ''issues'' (PList []))) (\<lambda>llm_issues.
             py_bind (new_issues seen llm_issues) (\<lambda>deduped.
               let all_issues = map issue_value hard_issues @ deduped
               in py_bind (add_count (d_get_or result ''critical_count'' (PInt 0)) (length (filter is_hallucination all_issues))) (\<lambda>critical.
                  let result = d_set ''critical_count'' critical (d_set ''issues'' (PList all_issues) result);
                      result = (if hard_issues \<noteq> [] then d_set ''valid'' (PBool False) result else result)
                  in Inr (d_set ''token_usage'' (PDict (usage_dict token_usage)) result))))
      | v \<Rightarrow> Inl (no_attribute v ''get''))"

subsection \<open>The review\<close>

definition review_message :: "issue list \<Rightarrow> string \<Rightarrow> string \<Rightarrow> string \<Rightarrow> string" where
  "review_message hard_issues sql schema_text notes_text =
     join (nl @ nl)
       ([section_of ''SCHEMA'' schema_text] @ opt_section ''RETRIEVED NOTES'' notes_text
        @ (if hard_issues \<noteq> []
           then [section_of ''PRE-DETECTED ISSUES (hallucinations confirmed by code)''
             (json_dumps (PList (map issue_value hard_issues)))] else [])
        @ [section_of ''SQL TO REVIEW'' (ticks @ ''sql'' @ nl @ sql @ nl @ ticks)])"

definition review :: "(string list \<Rightarrow> string list) \<Rightarrow> llm \<Rightarrow> string \<Rightarrow> string \<Rightarrow> string \<Rightarrow> string \<Rightarrow> pydict py" where
  "review order chat sql schema_text notes_text dialect =
     (let hard_issues = hard_check_hallucinations order sql schema_text;
          user_message = review_message hard_issues sql schema_text notes_text
      in py_bind (py_format [(''dialect'', dialect)] REVIEWER_PROMPT) (\<lambda>system.
         py_bind (llm_invoke chat system user_message 0) (\<lambda>response. merge_review hard_issues response)))"

text \<open>The JSON examples of the prompt are read as fields, so no review gets to its model.\<close>

lemma review_raises: "review order chat sql sch notes d = Inl (PyExc ''KeyError'' bad_field)"
  by (simp add: review_def reviewer_format_raises)

text \<open>An issue the check has found is never lost in the merge, and makes the query invalid.\<close>

lemma merge_review_hard: "merge_review hard r = Inr result \<Longrightarrow> hard \<noteq> [] \<Longrightarrow>
    d_get result ''valid'' = Some (PBool False) \<and>
    (\<exists>rest. d_get result ''issues'' = Some (PList (map issue_value hard @ rest)))"
  by (auto simp: merge_review_def py_bind_Inr_iff Let_def split: pyv.splits)

end
