(* ===== verification/MiniPipeline.thy ===== *)
theory MiniPipeline
  imports Review SchemaRetriever Executor
begin

text \<open>
  \<open>run\<close> in \<open>guard/error_classifier.py\<close>: the older pipeline behind the endpoint \<open>/query\<close>. Retrieval,
  one generation, up to two reviews, and up to three executions with a correction after each failure.
\<close>

definition MAX_REVIEW_ROUNDS :: nat where "MAX_REVIEW_ROUNDS = 2"
definition MAX_EXECUTION_RETRIES :: nat where "MAX_EXECUTION_RETRIES = 2"

text \<open>What the pipeline runs on. \<open>mn_samples\<close> reads sample rows from the default database, because the
  URL is not passed on; it raises for a table that is not there.\<close>

record mini_env =
  mn_cfg :: config
  mn_rules :: "(string \<times> string list) list"
  mn_sqlglot :: sqlglot
  mn_chat :: llm
  mn_review_chat :: llm
  mn_order :: "string list \<Rightarrow> string list"
  mn_db :: database
  mn_store :: retrieval_env
  mn_corpus :: store_query
  mn_samples :: "string \<Rightarrow> string py"

record mini_request =
  mr_question :: string
  mr_rag_schema :: bool
  mr_rag_domain :: bool
  mr_reviewer_on :: bool
  mr_k :: nat
  mr_database_url :: "string option"
  mr_db_id :: "string option"

record attempt_log =
  al_attempt :: nat
  al_sql :: string
  al_result :: exec_result

record mini_state =
  ms_sql :: string
  ms_raw :: string
  ms_schema :: string
  ms_notes :: string
  ms_chunks :: "chunk list"
  ms_usage :: usage
  ms_reviews :: "pydict list"
  ms_exec :: "exec_result option"
  ms_attempts :: "attempt_log list"
  ms_expanded_k :: nat

definition mini_url :: "mini_request \<Rightarrow> string option" where
  "mini_url q = (case mr_database_url q of Some u \<Rightarrow> if u = [] then None else Some u | None \<Rightarrow> None)"

definition mini_retrieve :: "mini_env \<Rightarrow> mini_request \<Rightarrow> nat \<Rightarrow> chunk list py" where
  "mini_retrieve E q k =
     (let db_id = or_default [] (mr_db_id q)
      in if db_id \<noteq> []
         then retrieve_bird (re_query (mn_store E)) (re_scores (mn_store E)) (re_meta (mn_store E)) (mr_question q) db_id k False
         else retrieve (mn_corpus E) (mr_question q) k)"

definition mini_sample_rows :: "mini_env \<Rightarrow> mini_request \<Rightarrow> string py" where
  "mini_sample_rows E q =
     (case mini_url q of
        None \<Rightarrow> Inr []
      | Some url \<Rightarrow> py_bind (re_lookup (mn_store E) url) (\<lambda>info.
          py_bind (py_map (\<lambda>p. mn_samples E (actual_name (snd p))) info) (\<lambda>blocks. Inr (join (nl @ nl) blocks))))"

text \<open>Retrieved chunks, schema text and notes\<close>

definition mini_context :: "mini_env \<Rightarrow> mini_request \<Rightarrow> (chunk list \<times> string \<times> string) py" where
  "mini_context E q =
     py_bind (if mr_rag_schema q \<or> mr_rag_domain q then mini_retrieve E q (mr_k q) else Inr []) (\<lambda>chunks.
     let (sch, notes) = build_prompt_context chunks;
         schema_text = (if mr_rag_schema q then sch else []);
         notes_text = (if mr_rag_domain q then notes else [])
     in py_bind (if schema_text = []
                 then (case mini_url q of None \<Rightarrow> Inr []
                   | Some url \<Rightarrow> py_bind (re_lookup (mn_store E) url) (\<lambda>info. Inr (schema_summary_text url info)))
                 else py_bind (table_catalog (mn_store E) (mini_url q)) (\<lambda>cat. Inr (schema_text @ nl @ nl @ cat))) (\<lambda>schema_text.
          Inr (chunks, schema_text, notes_text)))"

definition mini_generate :: "mini_env \<Rightarrow> mini_request \<Rightarrow> string \<Rightarrow> string \<Rightarrow> string \<Rightarrow> mini_state \<Rightarrow> mini_state py" where
  "mini_generate E q samples last_error last_sql s =
     py_bind (generate_sql (mn_cfg E) (mn_rules E) (mn_sqlglot E) (mn_chat E) (ms_schema s) (mr_question q)
         (ms_notes s) samples last_error last_sql [] (map_option get_dialect_from_url (mini_url q)))
       (\<lambda>(sql, raw, tu). Inr (s\<lparr>ms_sql := sql, ms_raw := raw, ms_usage := add_usage (ms_usage s) tu\<rparr>))"

subsection \<open>Reviews\<close>

definition llm_issue_of :: "pyv \<Rightarrow> llm_issue py" where
  "llm_issue_of v = (case v of
       PDict d \<Rightarrow> Inr \<lparr>li_type = map_option py_str (d_get d ''type''), li_detail = map_option py_str (d_get d ''detail'')\<rparr>
     | _ \<Rightarrow> Inl (no_attribute v ''get''))"

definition review_feedback :: "pydict \<Rightarrow> string py" where
  "review_feedback result =
     py_bind (py_iter (d_get_or result ''issues'' (PList []))) (\<lambda>vs.
     py_bind (py_map llm_issue_of vs) (\<lambda>issues.
       let fix = d_get_or result ''suggested_fix'' (PStr [])
       in Inr (format_review_feedback issues (if truthy fix then py_str fix else []))))"

text \<open>The counters a review reports; a value that is no dictionary of integers does not occur.\<close>

definition review_usage :: "pydict \<Rightarrow> usage" where
  "review_usage result = (case d_get_or result ''token_usage'' (PDict []) of
       PDict d \<Rightarrow> concat (map (\<lambda>(k, v). case v of PInt n \<Rightarrow> [(k, n)] | _ \<Rightarrow> []) d) | _ \<Rightarrow> [])"

fun review_loop :: "mini_env \<Rightarrow> mini_request \<Rightarrow> string \<Rightarrow> nat \<Rightarrow> mini_state \<Rightarrow> mini_state py" where
  "review_loop E q samples 0 s = Inr s"
| "review_loop E q samples (Suc rounds) s =
     py_bind (review (mn_order E) (mn_review_chat E) (ms_sql s) (ms_schema s) (ms_notes s) ''sqlite'') (\<lambda>result.
       let s = s\<lparr>ms_reviews := ms_reviews s @ [result], ms_usage := add_usage (ms_usage s) (review_usage result)\<rparr>
       in if truthy (d_get_or result ''valid'' PNone) then Inr s
          else py_bind (review_feedback result) (\<lambda>feedback.
               py_bind (mini_generate E q samples feedback (ms_sql s) s) (\<lambda>s.
                 if ms_sql s = [] then Inr s else review_loop E q samples rounds s)))"

subsection \<open>Executions\<close>

definition mini_expand :: "mini_env \<Rightarrow> mini_request \<Rightarrow> error_type \<Rightarrow> mini_state \<Rightarrow> mini_state py" where
  "mini_expand E q hint_type s =
     (if hint_type \<in> {MISSING_COLUMN, MISSING_TABLE} \<and> ms_expanded_k s = mr_k q then
        py_bind (mini_retrieve E q (mr_k q * 2)) (\<lambda>chunks.
          let (sch, notes) = build_prompt_context chunks
          in py_bind (if mr_rag_schema q \<and> sch \<noteq> []
                      then py_bind (table_catalog (mn_store E) (mini_url q)) (\<lambda>cat. Inr (sch @ nl @ nl @ cat))
                      else Inr (ms_schema s)) (\<lambda>schema_text.
               Inr (s\<lparr>ms_expanded_k := mr_k q * 2, ms_schema := schema_text,
                     ms_notes := (if mr_rag_domain q \<and> notes \<noteq> [] then notes else ms_notes s), ms_chunks := chunks\<rparr>)))
      else Inr s)"

text \<open>Attempt number \<open>i\<close>; \<open>left\<close> attempts remain after it.\<close>

fun exec_loop :: "mini_env \<Rightarrow> mini_request \<Rightarrow> string \<Rightarrow> nat \<Rightarrow> nat \<Rightarrow> mini_state \<Rightarrow> mini_state py" where
  "exec_loop E q samples i left s =
     py_bind (execute_sql (mn_sqlglot E) (mn_db E) (ms_sql s) DEFAULT_MAX_ROWS (mr_database_url q)) (\<lambda>r.
       let s = s\<lparr>ms_exec := Some r, ms_attempts := ms_attempts s @ [\<lparr>al_attempt = i, al_sql = ms_sql s, al_result = r\<rparr>]\<rparr>
       in if er_success r then Inr s
          else (case left of
              0 \<Rightarrow> Inr s
            | Suc left \<Rightarrow>
                py_bind (classify_exec_error (or_default [] (er_error r))) (\<lambda>(hint_type, hint).
                py_bind (mini_expand E q hint_type s) (\<lambda>s.
                py_bind (format_exec_error (er_error r)) (\<lambda>feedback.
                py_bind (mini_generate E q samples feedback (ms_sql s) s) (\<lambda>s.
                  if ms_sql s = [] then Inr s else exec_loop E q samples (Suc i) left s))))))"

declare exec_loop.simps [simp del]

subsection \<open>The pipeline\<close>

record mini_result =
  mo_state :: mini_state
  mo_k_initial :: nat
  mo_k_expanded :: "nat option"

definition mini_start :: "mini_env \<Rightarrow> mini_request \<Rightarrow> (string \<times> mini_state) py" where
  "mini_start E q =
     py_bind (mini_context E q) (\<lambda>(chunks, schema_text, notes_text).
     py_bind (mini_sample_rows E q) (\<lambda>samples.
     py_bind (mini_generate E q samples [] []
         \<lparr>ms_sql = [], ms_raw = [], ms_schema = schema_text, ms_notes = notes_text, ms_chunks = chunks,
          ms_usage = zero_usage, ms_reviews = [], ms_exec = None, ms_attempts = [], ms_expanded_k = mr_k q\<rparr>) (\<lambda>s.
       Inr (samples, s))))"

definition mini_run :: "mini_env \<Rightarrow> mini_request \<Rightarrow> mini_result py" where
  "mini_run E q =
     py_bind (mini_start E q) (\<lambda>(samples, s).
     py_bind (if mr_reviewer_on q \<and> ms_sql s \<noteq> [] then review_loop E q samples MAX_REVIEW_ROUNDS s else Inr s) (\<lambda>s.
     py_bind (if ms_sql s \<noteq> [] then exec_loop E q samples 1 MAX_EXECUTION_RETRIES s else Inr s) (\<lambda>s.
       Inr \<lparr>mo_state = s, mo_k_initial = mr_k q,
            mo_k_expanded = (if ms_expanded_k s \<noteq> mr_k q then Some (ms_expanded_k s) else None)\<rparr>)))"

subsection \<open>Runs\<close>

lemma mini_generate_keeps:
  assumes "mini_generate E q samples e l s = Inr s'"
  shows "ms_sql s' = [] \<or> safe_sql (mn_sqlglot E) (ms_sql s') ''sqlite''"
    and "ms_attempts s' = ms_attempts s" and "ms_reviews s' = ms_reviews s" and "ms_exec s' = ms_exec s"
proof -
  obtain sql raw tu where g: "generate_sql (mn_cfg E) (mn_rules E) (mn_sqlglot E) (mn_chat E) (ms_schema s) (mr_question q)
      (ms_notes s) samples e l [] (map_option get_dialect_from_url (mini_url q)) = Inr (sql, raw, tu)"
    and s': "s' = s\<lparr>ms_sql := sql, ms_raw := raw, ms_usage := add_usage (ms_usage s) tu\<rparr>"
    using assms by (auto simp: mini_generate_def py_bind_Inr_iff)
  show "ms_sql s' = [] \<or> safe_sql (mn_sqlglot E) (ms_sql s') ''sqlite''"
    using generate_sql_safe [OF g] s' by simp
  show "ms_attempts s' = ms_attempts s" "ms_reviews s' = ms_reviews s" "ms_exec s' = ms_exec s"
    using s' by simp_all
qed

lemma mini_expand_keeps:
  assumes "mini_expand E q h s = Inr s'"
  shows "ms_sql s' = ms_sql s" and "ms_attempts s' = ms_attempts s" and "ms_reviews s' = ms_reviews s"
    and "ms_exec s' = ms_exec s"
proof -
  have "ms_sql s' = ms_sql s \<and> ms_attempts s' = ms_attempts s \<and> ms_reviews s' = ms_reviews s \<and> ms_exec s' = ms_exec s"
  proof (cases "h \<in> {MISSING_COLUMN, MISSING_TABLE} \<and> ms_expanded_k s = mr_k q")
    case True
    obtain chunks where r: "mini_retrieve E q (mr_k q * 2) = Inr chunks"
      using assms True by (cases "mini_retrieve E q (mr_k q * 2)") (auto simp: mini_expand_def)
    obtain sch nts where p: "build_prompt_context chunks = (sch, nts)" by fastforce
    obtain sch2 where "s' = s\<lparr>ms_expanded_k := mr_k q * 2, ms_schema := sch2,
        ms_notes := (if mr_rag_domain q \<and> nts \<noteq> [] then nts else ms_notes s), ms_chunks := chunks\<rparr>"
      using assms unfolding mini_expand_def if_P [OF True] r py_bind_simps p Let_def prod.case py_bind_Inr_iff by auto
    then show ?thesis by simp
  next
    case False
    then show ?thesis using assms unfolding mini_expand_def if_not_P [OF False] by simp
  qed
  then show "ms_sql s' = ms_sql s" "ms_attempts s' = ms_attempts s" "ms_reviews s' = ms_reviews s" "ms_exec s' = ms_exec s"
    by simp_all
qed

text \<open>An attempt: the query passed the checks when it was generated, and was executed.\<close>

definition executed :: "mini_env \<Rightarrow> mini_request \<Rightarrow> attempt_log \<Rightarrow> bool" where
  "executed E q a \<longleftrightarrow> al_sql a \<noteq> [] \<and> safe_sql (mn_sqlglot E) (al_sql a) ''sqlite'' \<and>
     execute_sql (mn_sqlglot E) (mn_db E) (al_sql a) DEFAULT_MAX_ROWS (mr_database_url q) = Inr (al_result a)"

abbreviation al_ok :: "attempt_log \<Rightarrow> bool" where
  "al_ok a \<equiv> er_success (al_result a)"

text \<open>The attempts of the loop, numbered from \<open>i\<close>: all but the last have failed, the result is that of the
  last, and a failed last attempt is the last one allowed or was followed by an empty query.\<close>

definition attempts_ok :: "mini_env \<Rightarrow> mini_request \<Rightarrow> nat \<Rightarrow> nat \<Rightarrow> attempt_log list \<Rightarrow> mini_state \<Rightarrow> bool" where
  "attempts_ok E q i left as s \<longleftrightarrow> as \<noteq> [] \<and> length as \<le> Suc left \<and> map al_attempt as = [i..<i + length as]
     \<and> list_all (executed E q) as \<and> list_all (\<lambda>a. \<not> al_ok a) (butlast as) \<and> ms_exec s = Some (al_result (last as))
     \<and> (if al_ok (last as) then ms_sql s = al_sql (last as) else length as = Suc left \<or> ms_sql s = [])"

lemma exec_loop_run:
  assumes "exec_loop E q samples i left s = Inr s'" and "ms_sql s \<noteq> []" and "safe_sql (mn_sqlglot E) (ms_sql s) ''sqlite''"
  shows "\<exists>as. ms_attempts s' = ms_attempts s @ as \<and> attempts_ok E q i left as s' \<and> ms_reviews s' = ms_reviews s"
  using assms
proof (induction left arbitrary: i s)
  case 0
  then show ?case
    by (subst (asm) exec_loop.simps)
      (auto simp: py_bind_Inr_iff attempts_ok_def executed_def Let_def split: if_splits)
next
  case (Suc left)
  from Suc.prems(1) obtain r where r: "execute_sql (mn_sqlglot E) (mn_db E) (ms_sql s) DEFAULT_MAX_ROWS (mr_database_url q) = Inr r"
    by (subst (asm) exec_loop.simps) (auto simp: py_bind_Inr_iff)
  let ?a = "\<lparr>al_attempt = i, al_sql = ms_sql s, al_result = r\<rparr>"
  let ?s = "s\<lparr>ms_exec := Some r, ms_attempts := ms_attempts s @ [?a]\<rparr>"
  have a: "executed E q ?a" using Suc.prems r by (simp add: executed_def)
  show ?case
  proof (cases "er_success r")
    case True
    then have "s' = ?s" using Suc.prems(1) r by (subst (asm) exec_loop.simps) (simp add: Let_def)
    then show ?thesis using a True by (intro exI [of _ "[?a]"]) (simp add: attempts_ok_def)
  next
    case False
    then obtain h s1 fb s2 where 1: "mini_expand E q h ?s = Inr s1" "mini_generate E q samples fb (ms_sql s1) s1 = Inr s2"
      "(if ms_sql s2 = [] then Inr s2 else exec_loop E q samples (Suc i) left s2) = Inr s'"
      using Suc.prems(1) r by (subst (asm) exec_loop.simps) (auto simp: Let_def py_bind_Inr_iff)
    note k = mini_expand_keeps [OF 1(1)] mini_generate_keeps [OF 1(2)]
    show ?thesis
    proof (cases "ms_sql s2 = []")
      case True
      have "ms_exec s1 = Some r" using k by simp
      then show ?thesis using 1(3) True k a False by (intro exI [of _ "[?a]"]) (auto simp: attempts_ok_def)
    next
      case ne: False
      then obtain as where as: "ms_attempts s' = ms_attempts s2 @ as" "attempts_ok E q (Suc i) left as s'" "ms_reviews s' = ms_reviews s2"
        using Suc.IH [of "Suc i" s2] 1(3) k by auto
      then have "attempts_ok E q i (Suc left) (?a # as) s'"
        using a False by (auto simp: attempts_ok_def upt_conv_Cons simp del: upt_Suc)
      then show ?thesis using as k by (intro exI [of _ "?a # as"]) simp
    qed
  qed
qed

lemma mini_start_fresh:
  assumes "mini_start E q = Inr (samples, s)"
  shows "ms_attempts s = []" and "ms_reviews s = []" and "ms_exec s = None"
    and "ms_sql s = [] \<or> safe_sql (mn_sqlglot E) (ms_sql s) ''sqlite''"
proof -
  obtain s0 where g: "mini_generate E q samples [] [] s0 = Inr s" and s0: "ms_attempts s0 = []" "ms_reviews s0 = []" "ms_exec s0 = None"
    using assms by (auto simp: mini_start_def py_bind_Inr_iff)
  show "ms_attempts s = []" "ms_reviews s = []" "ms_exec s = None" "ms_sql s = [] \<or> safe_sql (mn_sqlglot E) (ms_sql s) ''sqlite''"
    using mini_generate_keeps [OF g] s0 by simp_all
qed

lemma review_loop_raises: "review_loop E q samples (Suc n) s = Inl (PyExc ''KeyError'' bad_field)"
  by (simp add: review_raises)

subsection \<open>Properties\<close>

text \<open>C13: With the reviewer on, the older pipeline never gets to an execution: it raises \<open>KeyError\<close> for
  every query the model writes, and returns only when the first query is empty.\<close>

theorem mini_reviewer_on_fails:
  assumes "mr_reviewer_on q" and "mini_start E q = Inr (samples, s)"
  shows "if ms_sql s = [] then \<exists>out. mini_run E q = Inr out \<and> ms_sql (mo_state out) = [] \<and> ms_exec (mo_state out) = None
    else mini_run E q = Inl (PyExc ''KeyError'' bad_field)"
  using assms mini_start_fresh(3) [OF assms(2)]
  by (simp add: mini_run_def MAX_REVIEW_ROUNDS_def numeral_2_eq_2 review_loop_raises del: review_loop.simps(2))

text \<open>C14: Without the reviewer, a run that returns has executed at most three queries, numbered in order,
  each of which passed the safety checks when it was generated. All but the last failed; the
  result is that of the last, and it is the result of the returned query if it succeeded. A failed
  result means that all three attempts were used or that the last correction was empty.\<close>

theorem mini_attempts:
  assumes "mini_run E q = Inr out" and "\<not> mr_reviewer_on q"
  shows "if ms_exec (mo_state out) = None then ms_sql (mo_state out) = [] \<and> ms_attempts (mo_state out) = []
    else attempts_ok E q 1 2 (ms_attempts (mo_state out)) (mo_state out)"
proof -
  obtain samples s where s: "mini_start E q = Inr (samples, s)"
    and r: "(if ms_sql s \<noteq> [] then exec_loop E q samples 1 MAX_EXECUTION_RETRIES s else Inr s) = Inr (mo_state out)"
    using assms by (auto simp: mini_run_def py_bind_Inr_iff)
  note f = mini_start_fresh [OF s]
  show ?thesis
  proof (cases "ms_sql s = []")
    case True
    then show ?thesis using r f by auto
  next
    case False
    then have "\<exists>as. ms_attempts (mo_state out) = ms_attempts s @ as \<and> attempts_ok E q 1 MAX_EXECUTION_RETRIES as (mo_state out)
        \<and> ms_reviews (mo_state out) = ms_reviews s"
      using r f(4) by (intro exec_loop_run) auto
    then have a: "attempts_ok E q 1 2 (ms_attempts (mo_state out)) (mo_state out)"
      using f(1) by (auto simp: MAX_EXECUTION_RETRIES_def)
    then obtain r where "ms_exec (mo_state out) = Some r" by (auto simp: attempts_ok_def)
    then show ?thesis using a by simp
  qed
qed

definition demo_mini :: mini_env where
  "demo_mini = \<lparr>mn_cfg = demo_cfg, mn_rules = [], mn_sqlglot = demo_sg demo_ast, mn_chat = demo_llm, mn_review_chat = demo_llm,
     mn_order = (\<lambda>xs. xs), mn_db = demo_db, mn_store = shop_env, mn_corpus = (\<lambda>q w k. Inr []), mn_samples = (\<lambda>t. Inr [])\<rparr>"

definition mini_question :: "bool \<Rightarrow> mini_request" where
  "mini_question reviewer_on = \<lparr>mr_question = ''How many users are there?'', mr_rag_schema = False, mr_rag_domain = False,
     mr_reviewer_on = reviewer_on, mr_k = 6, mr_database_url = None, mr_db_id = None\<rparr>"

lemma demo_mini_start: "\<exists>s. mini_start demo_mini (mini_question b) = Inr ([], s) \<and> ms_sql s = ''SELECT 1''"
proof -
  obtain sys where sys: "generator_system [] (effective_dialect demo_cfg None) = Inr sys"
    using generator_system_ok by blast
  have e: "extract_sql (lr_content (demo_reply ''SELECT 1'')) = ''SELECT 1''" by code_simp
  have v: "py_ok sr_valid (check_safety (demo_sg demo_ast) ''SELECT 1'' ''sqlite'')" by code_simp
  then obtain r where "check_safety (demo_sg demo_ast) ''SELECT 1'' ''sqlite'' = Inr r" "sr_valid r" by (auto simp: py_ok_iff)
  then show ?thesis
    by (simp add: mini_start_def mini_context_def mini_sample_rows_def mini_generate_def generate_sql_def mini_url_def
        mini_question_def demo_mini_def build_prompt_context_def sub_section_def demo_llm_def sys e Let_def)
qed

theorem mini_reviewer_on_fails_witness:
  "mini_run demo_mini (mini_question True) = Inl (PyExc ''KeyError'' bad_field)"
proof -
  obtain s where "mini_start demo_mini (mini_question True) = Inr ([], s)" "ms_sql s = ''SELECT 1''"
    using demo_mini_start by blast
  then show ?thesis using mini_reviewer_on_fails [of "mini_question True" demo_mini "[]" s] by (simp add: mini_question_def)
qed

theorem mini_attempts_witness:
  "\<exists>out. mini_run demo_mini (mini_question False) = Inr out \<and> attempts_ok demo_mini (mini_question False) 1 2
     (ms_attempts (mo_state out)) (mo_state out)"
proof -
  obtain s where s: "mini_start demo_mini (mini_question False) = Inr ([], s)" "ms_sql s = ''SELECT 1''"
    using demo_mini_start by blast
  have "py_ok er_success (execute_sql (demo_sg demo_ast) demo_db ''SELECT 1'' DEFAULT_MAX_ROWS None)" by code_simp
  then obtain r where "execute_sql (demo_sg demo_ast) demo_db ''SELECT 1'' DEFAULT_MAX_ROWS None = Inr r" "er_success r"
    by (auto simp: py_ok_iff)
  then have "\<exists>out. mini_run demo_mini (mini_question False) = Inr out \<and> ms_exec (mo_state out) = Some r"
    using s by (simp add: mini_run_def mini_question_def exec_loop.simps demo_mini_def)
  then show ?thesis using mini_attempts by (fastforce simp: mini_question_def)
qed

end
