(* ===== verification/RedisCache.thy ===== *)
theory RedisCache
  imports TaskStore
begin

text \<open>
  \<open>storage/redis_cache.py\<close>: the connection to Redis and the semantic cache of answered questions. The
  embedder is the parameter \<open>encode\<close>; embeddings are lists of rationals, and their similarity, which
  takes square roots, is a real number. The sets of Redis are an interface of their own on top of the
  store of \<open>TaskStore\<close>.
\<close>

subsection \<open>Sets in the store\<close>

record 'r sets =
  st_add :: "string \<Rightarrow> string \<Rightarrow> 'r \<Rightarrow> 'r"
  st_rem :: "string \<Rightarrow> string \<Rightarrow> 'r \<Rightarrow> 'r"
  st_members :: "string \<Rightarrow> 'r \<Rightarrow> string list"     \<comment> \<open>in the order the store lists them\<close>

locale set_store = kv_store K wait
  for K :: "'r kv" and wait :: "nat \<Rightarrow> 'r \<Rightarrow> 'r" +
  fixes S :: "'r sets"
  assumes distinct_members: "distinct (st_members S k r)"
    and members_add: "set (st_members S k (st_add S k' x r)) = (if k = k' then {x} else {}) \<union> set (st_members S k r)"
    and members_rem: "set (st_members S k (st_rem S k' x r)) = set (st_members S k r) - (if k = k' then {x} else {})"
    and members_setex: "k \<noteq> k' \<Longrightarrow> set (st_members S k (kv_setex K k' t v r)) = set (st_members S k r)"
    and members_wait: "set (st_members S k (wait n r)) = set (st_members S k r)"
    and get_add: "k \<noteq> k' \<Longrightarrow> kv_get K k (st_add S k' x r) = kv_get K k r"
    and get_rem: "k \<noteq> k' \<Longrightarrow> kv_get K k (st_rem S k' x r) = kv_get K k r"
    and get_wait_add: "k \<noteq> k' \<Longrightarrow> kv_get K k (wait n (st_add S k' x r)) = kv_get K k (wait n r)"

text \<open>A store of keys and values with sets beside it\<close>

type_synonym 'r set_db = "'r \<times> (string \<times> string list) list"

definition kv_with_sets :: "'r kv \<Rightarrow> 'r set_db kv" where
  "kv_with_sets K = \<lparr>kv_get = (\<lambda>k (r, s). kv_get K k r), kv_setex = (\<lambda>k t v (r, s). (kv_setex K k t v r, s)),
     kv_delete = (\<lambda>k (r, s). (kv_delete K k r, s)), kv_publish = (\<lambda>ch v (r, s). (kv_publish K ch v r, s))\<rparr>"

definition wait_with_sets :: "(nat \<Rightarrow> 'r \<Rightarrow> 'r) \<Rightarrow> nat \<Rightarrow> 'r set_db \<Rightarrow> 'r set_db" where
  "wait_with_sets wait n rs = (wait n (fst rs), snd rs)"

definition members_of :: "string \<Rightarrow> (string \<times> string list) list \<Rightarrow> string list" where
  "members_of k s = remdups (case map_of s k of None \<Rightarrow> [] | Some xs \<Rightarrow> xs)"

definition assoc_sets :: "'r set_db sets" where
  "assoc_sets = \<lparr>st_add = (\<lambda>k x (r, s). (r, AList.update k (List.insert x (members_of k s)) s)),
     st_rem = (\<lambda>k x (r, s). (r, AList.update k (removeAll x (members_of k s)) s)),
     st_members = (\<lambda>k (r, s). members_of k s)\<rparr>"

lemma members_of_update: "members_of k (AList.update k' xs s) = (if k = k' then remdups xs else members_of k s)"
  by (simp add: members_of_def update_conv')

lemma set_store_assoc:
  assumes "kv_store K wait"
  shows "set_store (kv_with_sets K) (wait_with_sets wait) assoc_sets"
proof -
  note l = kv_store.get_setex [OF assms] kv_store.get_delete [OF assms] kv_store.get_publish [OF assms]
    kv_store.get_wait_setex [OF assms] kv_store.get_wait_other [OF assms]
  have w: "kv_get K k (wait n r) \<noteq> kv_get K k r \<Longrightarrow> kv_get K k (wait n r) = None" for k n r
    using kv_store.get_wait [OF assms, of k n r] by blast
  show ?thesis
    by unfold_locales
      (auto simp: kv_with_sets_def wait_with_sets_def assoc_sets_def members_of_update l dest: w, auto simp: members_of_def)
qed

interpretation set_redis: set_store "kv_with_sets redis_kv" "wait_with_sets redis_wait" assoc_sets
  by (rule set_store_assoc [OF redis.kv_store_axioms])

subsection \<open>Connection\<close>

text \<open>The client is represented by the URL it talks to; \<open>ping\<close> says which servers answer.\<close>

record conn =
  cn_client :: "string option"
  cn_checked :: bool

definition CANDIDATE_URLS :: "string list" where
  "CANDIDATE_URLS = [''redis://127.0.0.1:6379/0'', ''redis://redis:6379/0'']"

definition get_redis :: "(string \<Rightarrow> bool) \<Rightarrow> string \<Rightarrow> conn \<Rightarrow> string option \<times> conn" where
  "get_redis ping env_url c =
     (if cn_client c \<noteq> None then (cn_client c, c)
      else if cn_checked c then (None, c)
      else let own = (if env_url = ''redis://localhost:6379/0'' then [] else [env_url]);
               client = find ping (own @ CANDIDATE_URLS)
           in (client, \<lparr>cn_client = client, cn_checked = True\<rparr>))"

text \<open>The answer of the first call stays: a server that comes up later is never asked.\<close>

lemma get_redis_once: "get_redis ping env c = (a, c') \<Longrightarrow> get_redis ping' env' c' = (a, c')"
  by (cases a) (auto simp: get_redis_def Let_def split: if_splits)

subsection \<open>Similarity\<close>

definition sum_products :: "rat list \<Rightarrow> rat list \<Rightarrow> rat" where
  "sum_products a b = sum_list (map (\<lambda>(x, y). x * y) (zip a b))"

definition cosine_similarity :: "rat list \<Rightarrow> rat list \<Rightarrow> real" where
  "cosine_similarity a b =
     (if a = [] \<or> b = [] then 0
      else let dot = of_rat (sum_products a b);
               norm_a = sqrt (of_rat (sum_products a a));
               norm_b = sqrt (of_rat (sum_products b b))
           in if norm_a = 0 \<or> norm_b = 0 then 0 else dot / (norm_a * norm_b))"

lemma sum_products_simps [simp]:
  "sum_products [] b = 0" "sum_products a [] = 0"
  "sum_products (x # a) (y # b) = x * y + sum_products a b"
  by (simp_all add: sum_products_def)

lemma sum_squares_nonneg [simp]: "0 \<le> sum_products a a"
  by (induction a) simp_all

lemma sum_squares_0_iff: "sum_products a a = 0 \<longleftrightarrow> (\<forall>x\<in>set a. x = 0)"
  by (induction a) (simp_all add: add_nonneg_eq_0_iff)

lemma four_products: "4 * u * v = (u + v)\<^sup>2 - (u - v)\<^sup>2" for u v :: rat
  by (simp add: power2_eq_square algebra_simps)

text \<open>The inequality of Cauchy and Schwarz, for lists of any lengths\<close>

lemma cauchy_schwarz: "(sum_products a b)\<^sup>2 \<le> sum_products a a * sum_products b b"
proof (induction a arbitrary: b)
  case (Cons x a)
  show ?case
  proof (cases b)
    case (Cons y b')
    define d A B where "d = sum_products a b'" and "A = sum_products a a" and "B = sum_products b' b'"
    have ab: "0 \<le> A" "0 \<le> B" "d\<^sup>2 \<le> A * B" using Cons.IH by (simp_all add: A_def B_def d_def)
    have "(2 * (x * y * d))\<^sup>2 = 4 * (x\<^sup>2 * y\<^sup>2) * d\<^sup>2" by (simp add: power2_eq_square)
    also have "\<dots> \<le> 4 * (x\<^sup>2 * y\<^sup>2) * (A * B)" using ab by (intro mult_left_mono) simp_all
    also have "\<dots> = 4 * (x\<^sup>2 * B) * (y\<^sup>2 * A)" by (simp only: mult.assoc mult.commute mult.left_commute)
    also have "\<dots> = (x\<^sup>2 * B + y\<^sup>2 * A)\<^sup>2 - (x\<^sup>2 * B - y\<^sup>2 * A)\<^sup>2" by (rule four_products)
    also have "\<dots> \<le> (x\<^sup>2 * B + y\<^sup>2 * A)\<^sup>2" by simp
    finally have "2 * (x * y * d) \<le> x\<^sup>2 * B + y\<^sup>2 * A" by (rule power2_le_imp_le) (simp add: ab)
    then have "x\<^sup>2 * y\<^sup>2 + 2 * (x * y * d) + d\<^sup>2 \<le> x\<^sup>2 * y\<^sup>2 + (x\<^sup>2 * B + y\<^sup>2 * A) + A * B"
      using ab(3) by (intro add_mono) simp_all
    moreover have "(x * y + d)\<^sup>2 = x\<^sup>2 * y\<^sup>2 + 2 * (x * y * d) + d\<^sup>2" by (simp add: power2_eq_square algebra_simps)
    moreover have "(x * x + A) * (y * y + B) = x\<^sup>2 * y\<^sup>2 + (x\<^sup>2 * B + y\<^sup>2 * A) + A * B"
      by (simp add: power2_eq_square algebra_simps)
    ultimately have "(x * y + d)\<^sup>2 \<le> (x * x + A) * (y * y + B)" by simp
    then show ?thesis by (simp add: Cons d_def A_def B_def)
  qed simp
qed simp

lemma cosine_le_1: "cosine_similarity a b \<le> 1"
proof -
  let ?d = "of_rat (sum_products a b) :: real" and ?a = "of_rat (sum_products a a) :: real" and ?b = "of_rat (sum_products b b) :: real"
  have n: "0 \<le> ?a" "0 \<le> ?b" by simp_all
  have "?d\<^sup>2 = of_rat ((sum_products a b)\<^sup>2)" "?a * ?b = of_rat (sum_products a a * sum_products b b)"
    by (simp_all add: of_rat_power of_rat_mult)
  then have "?d\<^sup>2 \<le> ?a * ?b" using cauchy_schwarz [of a b] by (simp only: of_rat_less_eq)
  then have "\<bar>?d\<bar> \<le> sqrt (?a * ?b)" by (rule real_le_rsqrt [OF ord_eq_le_trans [OF power2_abs]])
  then have "?d \<le> sqrt ?a * sqrt ?b" unfolding real_sqrt_mult by (rule order_trans [OF abs_ge_self])
  then show ?thesis using n by (auto simp: cosine_similarity_def Let_def divide_le_eq_1 less_le)
qed

lemma cosine_self: "\<exists>x\<in>set a. x \<noteq> 0 \<Longrightarrow> cosine_similarity a a = 1"
proof -
  assume "\<exists>x\<in>set a. x \<noteq> 0"
  then have "a \<noteq> []" "sum_products a a \<noteq> 0" by (auto simp: sum_squares_0_iff)
  then show ?thesis by (simp add: cosine_similarity_def Let_def)
qed

subsection \<open>The cache\<close>

definition CACHE_KEYS_SET :: string where "CACHE_KEYS_SET = ''semcache:keys''"
definition CACHE_TTL :: nat where "CACHE_TTL = 7200"
definition CACHE_SIM_THRESHOLD :: real where "CACHE_SIM_THRESHOLD = 95 / 100"
definition MAX_CACHED_ROWS :: nat where "MAX_CACHED_ROWS = 50"

definition entry_key :: "string \<Rightarrow> string" where "entry_key cid = ''semcache:'' @ cid"

lemma entry_key_simps [simp]: "entry_key a = entry_key b \<longleftrightarrow> a = b" "entry_key a = CACHE_KEYS_SET \<longleftrightarrow> a = ''keys''"
  "CACHE_KEYS_SET = entry_key a \<longleftrightarrow> a = ''keys''"
  by (auto simp: entry_key_def CACHE_KEYS_SET_def)

definition cleanup_stale :: "'r sets \<Rightarrow> string \<Rightarrow> 'r \<Rightarrow> 'r" where
  "cleanup_stale S cid r = st_rem S CACHE_KEYS_SET cid r"

text \<open>An entry whose key has expired, or that is not JSON, is stale.\<close>

definition entry_at :: "'r kv \<Rightarrow> string \<Rightarrow> 'r \<Rightarrow> pyv option" where
  "entry_at K cid r =
     (case kv_get K (entry_key cid) r of
        None \<Rightarrow> None
      | Some raw \<Rightarrow> (case json_loads raw of Inl e \<Rightarrow> None | Inr v \<Rightarrow> Some v))"

text \<open>The embedding as a list of numbers; a falsy value gives the similarity 0, like an empty one.\<close>

definition number_of :: "pyv \<Rightarrow> rat py" where
  "number_of v = (case v of
       PInt i \<Rightarrow> Inr (of_int i) | PBool b \<Rightarrow> Inr (if b then 1 else 0) | PFloat q \<Rightarrow> Inr q
     | _ \<Rightarrow> Inl (PyExc ''TypeError'' (''can not multiply '' @ py_type_name v)))"

definition entry_embedding :: "pyv \<Rightarrow> (pydict \<times> rat list) py" where
  "entry_embedding v =
     py_bind (as_dict v ''get'') (\<lambda>entry.
       let stored = d_get_or entry ''embedding'' (PList [])
       in if \<not> truthy stored then Inr (entry, [])
          else py_bind (py_iter stored) (\<lambda>xs. py_bind (py_map number_of xs) (\<lambda>emb. Inr (entry, emb))))"

definition better :: "rat list \<Rightarrow> real \<Rightarrow> real \<times> pydict option \<Rightarrow> pydict \<times> rat list \<Rightarrow> real \<times> pydict option" where
  "better q_embedding threshold best e =
     (let sim = cosine_similarity q_embedding (snd e)
      in if threshold < sim \<and> fst best < sim then (sim, Some (fst e)) else best)"

fun scan_entries ::
  "'r kv \<Rightarrow> 'r sets \<Rightarrow> rat list \<Rightarrow> real \<Rightarrow> string list \<Rightarrow> real \<times> pydict option \<Rightarrow> 'r \<Rightarrow> (real \<times> pydict option) py \<times> 'r" where
  "scan_entries K S q_embedding threshold [] best r = (Inr best, r)"
| "scan_entries K S q_embedding threshold (cid # ids) best r =
     (case entry_at K cid r of
        None \<Rightarrow> scan_entries K S q_embedding threshold ids best (cleanup_stale S cid r)
      | Some v \<Rightarrow> (case entry_embedding v of
          Inl e \<Rightarrow> (Inl e, r)
        | Inr e \<Rightarrow> scan_entries K S q_embedding threshold ids (better q_embedding threshold best e) r))"

record cache_hit =
  ch_question :: pyv
  ch_sql :: pyv
  ch_exec_result :: pyv
  ch_similarity :: real

definition d_item :: "pydict \<Rightarrow> string \<Rightarrow> pyv py" where
  "d_item d k = (case d_get d k of None \<Rightarrow> Inl (PyExc ''KeyError'' k) | Some v \<Rightarrow> Inr v)"

definition hit_of :: "pydict \<Rightarrow> real \<Rightarrow> cache_hit py" where
  "hit_of entry sim =
     py_bind (d_item entry ''question'') (\<lambda>q. py_bind (d_item entry ''sql'') (\<lambda>s.
     py_bind (d_item entry ''exec_result'') (\<lambda>e.
       Inr \<lparr>ch_question = q, ch_sql = s, ch_exec_result = e, ch_similarity = sim\<rparr>)))"

definition cache_get_llm ::
  "'r kv \<Rightarrow> 'r sets \<Rightarrow> (string \<Rightarrow> rat list) \<Rightarrow> string \<Rightarrow> real \<Rightarrow> 'r option \<Rightarrow> cache_hit option py \<times> 'r option" where
  "cache_get_llm K S encode question threshold st =
     (case st of
        None \<Rightarrow> (Inr None, None)
      | Some r \<Rightarrow>
          (case scan_entries K S (encode question) threshold (st_members S CACHE_KEYS_SET r) (0, None) r of
             (Inl e, r') \<Rightarrow> (Inl e, Some r')
           | (Inr (best_sim, None), r') \<Rightarrow> (Inr None, Some r')
           | (Inr (best_sim, Some entry), r') \<Rightarrow>
               (py_bind (hit_of entry best_sim) (\<lambda>h. Inr (Some h)), Some r')))"

text \<open>\<open>data\<close> is a list or missing; the number of rows stays that of the full result.\<close>

definition truncated_result :: "pydict \<Rightarrow> pydict" where
  "truncated_result exec_result =
     (case d_get exec_result ''data'' of
        Some (PList rows) \<Rightarrow>
          if MAX_CACHED_ROWS < length rows
          then d_set ''row_count'' (d_get_or exec_result ''row_count'' (PInt 0))
                 (d_set ''data'' (PList (take MAX_CACHED_ROWS rows)) exec_result)
          else exec_result
      | _ \<Rightarrow> exec_result)"

definition cache_entry :: "string \<Rightarrow> string \<Rightarrow> pydict \<Rightarrow> rat list \<Rightarrow> pydict" where
  "cache_entry question sql exec_result embedding =
     [(''question'', PStr question), (''sql'', PStr sql), (''exec_result'', PDict (truncated_result exec_result)),
      (''embedding'', PList (map PFloat embedding))]"

definition cache_set_llm ::
  "'r kv \<Rightarrow> 'r sets \<Rightarrow> (string \<Rightarrow> rat list) \<Rightarrow> string \<Rightarrow> string \<Rightarrow> string \<Rightarrow> pydict \<Rightarrow> 'r option \<Rightarrow> 'r option" where
  "cache_set_llm K S encode cache_id question sql exec_result st =
     map_option (\<lambda>r. st_add S CACHE_KEYS_SET cache_id
       (kv_setex K (entry_key cache_id) CACHE_TTL
         (json_dumps (PDict (cache_entry question sql exec_result (encode question)))) r)) st"

subsection \<open>What a lookup finds\<close>

text \<open>The live entries among some identifiers; all of them are dictionaries with embeddings.\<close>

definition readable_entries :: "'r kv \<Rightarrow> string list \<Rightarrow> 'r \<Rightarrow> bool" where
  "readable_entries K ids r \<longleftrightarrow>
     (\<forall>cid\<in>set ids. cid \<noteq> ''keys'' \<and> (\<forall>v. entry_at K cid r = Some v \<longrightarrow> (\<exists>e. entry_embedding v = Inr e)))"

definition live_entries :: "'r kv \<Rightarrow> string list \<Rightarrow> 'r \<Rightarrow> (pydict \<times> rat list) list" where
  "live_entries K ids r =
     concat (map (\<lambda>cid. case entry_at K cid r of None \<Rightarrow> []
       | Some v \<Rightarrow> (case entry_embedding v of Inl e \<Rightarrow> [] | Inr e \<Rightarrow> [e])) ids)"

lemma live_entry:
  assumes "e \<in> set (live_entries K ids r)"
  obtains c v where "c \<in> set ids" and "entry_at K c r = Some v" and "entry_embedding v = Inr e"
proof -
  obtain c where c: "c \<in> set ids" "e \<in> set (case entry_at K c r of None \<Rightarrow> []
       | Some v \<Rightarrow> (case entry_embedding v of Inl e \<Rightarrow> [] | Inr e \<Rightarrow> [e]))"
    using assms by (auto simp: live_entries_def)
  obtain v where v: "entry_at K c r = Some v" using c(2) by (cases "entry_at K c r") auto
  moreover obtain e' where "entry_embedding v = Inr e'" using c(2) v by (cases "entry_embedding v") auto
  ultimately show thesis using that c by simp
qed

lemma in_live_entries:
  "c \<in> set ids \<Longrightarrow> entry_at K c r = Some v \<Longrightarrow> entry_embedding v = Inr e \<Longrightarrow> e \<in> set (live_entries K ids r)"
  by (cases e) (auto simp: live_entries_def intro!: bexI [of _ c])

lemma better_spec:
  assumes "foldl (better q th) (b, x) es = (sim, y)"
  shows "(\<forall>e\<in>set es. cosine_similarity q (snd e) \<le> max th sim) \<and> b \<le> sim
    \<and> ((sim, y) = (b, x) \<or> (\<exists>e\<in>set es. y = Some (fst e) \<and> sim = cosine_similarity q (snd e) \<and> th < sim \<and> b < sim))"
  using assms
proof (induction es arbitrary: b x)
  case (Cons e es)
  let ?s = "cosine_similarity q (snd e)"
  show ?case
  proof (cases "th < ?s \<and> b < ?s")
    case True
    then have "better q th (b, x) e = (?s, Some (fst e))" by (simp add: better_def)
    then have "foldl (better q th) (?s, Some (fst e)) es = (sim, y)" using Cons.prems by simp
    from Cons.IH [OF this] True show ?thesis by auto
  next
    case False
    then have "better q th (b, x) e = (b, x)" by (auto simp: better_def Let_def)
    then have "foldl (better q th) (b, x) es = (sim, y)" using Cons.prems by simp
    from Cons.IH [OF this] False show ?thesis by auto
  qed
qed simp

context set_store
begin

lemma entry_at_cleanup: "cid \<noteq> ''keys'' \<Longrightarrow> entry_at K cid (cleanup_stale S cid' r) = entry_at K cid r"
  by (simp add: entry_at_def cleanup_stale_def get_rem)

lemma scan_result:
  assumes "readable_entries K ids r" and "distinct ids"
  shows "\<exists>r'. scan_entries K S q th ids best r = (Inr (foldl (better q th) best (live_entries K ids r)), r')
    \<and> set (st_members S CACHE_KEYS_SET r')
        = set (st_members S CACHE_KEYS_SET r) - {cid \<in> set ids. entry_at K cid r = None}"
  using assms
proof (induction ids arbitrary: best r)
  case (Cons cid ids)
  have r: "readable_entries K ids r" and n: "cid \<noteq> ''keys''" using Cons.prems by (auto simp: readable_entries_def)
  show ?case
  proof (cases "entry_at K cid r")
    case None
    let ?r = "cleanup_stale S cid r"
    have same: "entry_at K c ?r = entry_at K c r" if "c \<in> set ids" for c
      using Cons.prems(1) that by (auto simp: readable_entries_def entry_at_cleanup)
    have "readable_entries K ids ?r" using r same by (simp add: readable_entries_def)
    from Cons.IH [OF this, of best] Cons.prems(2) obtain r' where
      "scan_entries K S q th ids best ?r = (Inr (foldl (better q th) best (live_entries K ids ?r)), r')"
      "set (st_members S CACHE_KEYS_SET r') = set (st_members S CACHE_KEYS_SET ?r) - {c \<in> set ids. entry_at K c ?r = None}"
      by auto
    moreover have "live_entries K ids ?r = live_entries K ids r"
      using same by (auto simp: live_entries_def intro!: arg_cong [where f = concat])
    ultimately show ?thesis using None same by (auto simp: live_entries_def cleanup_stale_def members_rem)
  next
    case (Some v)
    then obtain e where e: "entry_embedding v = Inr e" using Cons.prems(1) by (auto simp: readable_entries_def)
    show ?thesis using Cons.IH [OF r, of "better q th best e"] Cons.prems(2) Some e
      by (auto simp: live_entries_def)
  qed
qed (simp add: live_entries_def)

lemma cache_get_result:
  fixes r :: 'r
  defines "ids \<equiv> st_members S CACHE_KEYS_SET r"
  assumes "readable_entries K ids r"
  shows "\<exists>r' sim y. foldl (better (encode q) th) (0, None) (live_entries K ids r) = (sim, y)
    \<and> cache_get_llm K S encode q th (Some r)
        = (case y of None \<Rightarrow> Inr None | Some entry \<Rightarrow> py_bind (hit_of entry sim) (\<lambda>h. Inr (Some h)), Some r')
    \<and> set (st_members S CACHE_KEYS_SET r') = {cid \<in> set ids. entry_at K cid r \<noteq> None}"
proof -
  obtain sim y where b: "foldl (better (encode q) th) (0, None) (live_entries K ids r) = (sim, y)" by fastforce
  obtain r' where s: "scan_entries K S (encode q) th ids (0, None) r = (Inr (sim, y), r')"
    and m: "set (st_members S CACHE_KEYS_SET r') = set ids - {cid \<in> set ids. entry_at K cid r = None}"
    using scan_result [OF assms(2), of "encode q" th "(0, None)"] distinct_members b by (auto simp: ids_def)
  from s have g: "cache_get_llm K S encode q th (Some r)
      = (case y of None \<Rightarrow> Inr None | Some entry \<Rightarrow> py_bind (hit_of entry sim) (\<lambda>h. Inr (Some h)), Some r')"
    by (cases y) (auto simp: cache_get_llm_def ids_def)
  have "set (st_members S CACHE_KEYS_SET r') = {cid \<in> set ids. entry_at K cid r \<noteq> None}" unfolding m by auto
  then show ?thesis using b g by (intro exI [of _ r'] exI [of _ sim] exI [of _ y]) simp
qed

text \<open>The best live entry\<close>

lemma cache_get_spec:
  assumes "readable_entries K (st_members S CACHE_KEYS_SET r) r" and "0 \<le> th"
  shows "\<exists>out r'. cache_get_llm K S encode q th (Some r) = (out, Some r')
    \<and> set (st_members S CACHE_KEYS_SET r') = {cid \<in> set (st_members S CACHE_KEYS_SET r). entry_at K cid r \<noteq> None}
    \<and> (let live = set (live_entries K (st_members S CACHE_KEYS_SET r) r); sim = (\<lambda>e. cosine_similarity (encode q) (snd e))
       in (out = Inr None \<and> (\<forall>e\<in>live. sim e \<le> th))
        \<or> (\<exists>e\<in>live. th < sim e \<and> sim e \<le> 1 \<and> (\<forall>e'\<in>live. sim e' \<le> sim e)
             \<and> out = py_bind (hit_of (fst e) (sim e)) (\<lambda>h. Inr (Some h))))"
proof -
  let ?live = "live_entries K (st_members S CACHE_KEYS_SET r) r"
  obtain r' sim y where b: "foldl (better (encode q) th) (0, None) ?live = (sim, y)"
    and g: "cache_get_llm K S encode q th (Some r)
        = (case y of None \<Rightarrow> Inr None | Some entry \<Rightarrow> py_bind (hit_of entry sim) (\<lambda>h. Inr (Some h)), Some r')"
    and m: "set (st_members S CACHE_KEYS_SET r') = {cid \<in> set (st_members S CACHE_KEYS_SET r). entry_at K cid r \<noteq> None}"
    using cache_get_result [OF assms(1), of encode q th] by blast
  note spec = better_spec [OF b]
  from spec consider "sim = 0" "y = None" | e where "e \<in> set ?live" "y = Some (fst e)" "sim = cosine_similarity (encode q) (snd e)" "th < sim"
    by auto
  then show ?thesis
  proof cases
    case 1
    then have "\<forall>e\<in>set ?live. cosine_similarity (encode q) (snd e) \<le> th" using spec assms(2) by (auto simp: max_def)
    then show ?thesis using g m 1 by (simp add: Let_def)
  next
    case 2
    then have "\<forall>e'\<in>set ?live. cosine_similarity (encode q) (snd e') \<le> cosine_similarity (encode q) (snd e)"
      using spec by (auto simp: max_def)
    then show ?thesis using g m 2 cosine_le_1 by (auto simp: Let_def)
  qed
qed

end

subsection \<open>Storing an answer\<close>

lemma json_value_truncated:
  assumes "json_value (PDict er)"
  shows "json_value (PDict (truncated_result er))"
proof (cases "\<exists>rows. d_get er ''data'' = Some (PList rows) \<and> MAX_CACHED_ROWS < length rows")
  case True
  then obtain rows where rows: "d_get er ''data'' = Some (PList rows)" "MAX_CACHED_ROWS < length rows" by blast
  have items: "json_value v" if "d_get er k = Some v" for k v
    using assms that map_of_SomeD [of er k v] by (fastforce simp: d_get_def list_all_iff)
  then have "json_value (PList (take MAX_CACHED_ROWS rows))" using items [OF rows(1)] by (auto simp: list_all_iff dest: in_set_takeD)
  moreover have "json_value (d_get_or er ''row_count'' (PInt 0))"
    using items by (auto simp: d_get_or_def d_get_def split: option.splits)
  ultimately have "json_value (PDict (d_set ''row_count'' (d_get_or er ''row_count'' (PInt 0))
      (d_set ''data'' (PList (take MAX_CACHED_ROWS rows)) er)))"
    by (intro json_value_set assms)
  then show ?thesis using rows by (simp add: truncated_result_def del: json_value.simps)
next
  case False
  then show ?thesis using assms by (simp add: truncated_result_def del: json_value.simps split: option.splits pyv.splits)
qed

lemma json_value_entry:
  assumes "json_value (PDict er)" and "\<forall>x\<in>set emb. json_value (PFloat x)"
  shows "json_value (PDict (cache_entry q sql er emb))"
  using json_value_truncated [OF assms(1)] assms(2) by (simp add: cache_entry_def list_all_iff)

lemma embedding_of_entry: "entry_embedding (PDict (cache_entry q sql er emb)) = Inr (cache_entry q sql er emb, emb)"
proof -
  have "py_map number_of (map PFloat emb) = Inr emb" by (induction emb) (simp_all add: number_of_def)
  then show ?thesis by (simp add: entry_embedding_def as_dict_def cache_entry_def d_get_or_def Let_def)
qed

lemma hit_of_entry: "hit_of (cache_entry q sql er emb) sim = Inr \<lparr>ch_question = PStr q, ch_sql = PStr sql,
    ch_exec_result = PDict (truncated_result er), ch_similarity = sim\<rparr>"
  by (simp add: hit_of_def d_item_def d_get_def cache_entry_def)

context set_store
begin

text \<open>The store \<open>n\<close> seconds after an answer was stored in it\<close>

lemma stored_entries:
  fixes r :: 'r
  assumes "json_value (PDict er)" and "\<forall>x\<in>set (encode q). json_value (PFloat x)" and "n < CACHE_TTL" and "cid \<noteq> ''keys''"
  obtains r' where "map_option (wait n) (cache_set_llm K S encode cid q sql er (Some r)) = Some r'"
    and "set (st_members S CACHE_KEYS_SET r') = insert cid (set (st_members S CACHE_KEYS_SET r))"
    and "entry_at K cid r' = Some (PDict (cache_entry q sql er (encode q)))"
    and "\<And>c. c \<noteq> ''keys'' \<Longrightarrow> c \<noteq> cid \<Longrightarrow> entry_at K c r' \<in> {None, entry_at K c r}"
proof -
  let ?raw = "json_dumps (PDict (cache_entry q sql er (encode q)))"
  let ?r = "kv_setex K (entry_key cid) CACHE_TTL ?raw r"
  let ?s = "st_add S CACHE_KEYS_SET cid ?r"
  have "CACHE_TTL > 0" by (simp add: CACHE_TTL_def)
  note j = json_dumps_loads [OF json_value_entry [OF assms(1,2), of q sql]]
  have "kv_get K (entry_key cid) (wait n ?s) = Some ?raw"
    using assms(3,4) \<open>CACHE_TTL > 0\<close> by (simp add: get_wait_add get_wait_setex)
  then have own: "entry_at K cid (wait n ?s) = Some (PDict (cache_entry q sql er (encode q)))"
    using j by (simp add: entry_at_def)
  have other: "entry_at K c (wait n ?s) \<in> {None, entry_at K c r}" if "c \<noteq> ''keys''" "c \<noteq> cid" for c
    using get_wait [of "entry_key c" n r] that
    by (auto simp: entry_at_def get_wait_add get_wait_other split: option.splits)
  show thesis
    using that [of "wait n ?s"] own other assms(4) by (simp add: cache_set_llm_def members_wait members_add members_setex del: json_dumps.simps)
qed

end

text \<open>The cache can be read and holds nothing in the direction of the question, the identifier is fresh,
  and the embedding is not zero and survives JSON.\<close>

definition storable :: "'r kv \<Rightarrow> 'r sets \<Rightarrow> (string \<Rightarrow> rat list) \<Rightarrow> string \<Rightarrow> string \<Rightarrow> 'r \<Rightarrow> bool" where
  "storable K S encode q cid r \<longleftrightarrow>
     readable_entries K (st_members S CACHE_KEYS_SET r) r
     \<and> (\<forall>e\<in>set (live_entries K (st_members S CACHE_KEYS_SET r) r). cosine_similarity (encode q) (snd e) < 1)
     \<and> cid \<notin> set (st_members S CACHE_KEYS_SET r) \<and> cid \<noteq> ''keys''
     \<and> (\<forall>x\<in>set (encode q). json_value (PFloat x)) \<and> (\<exists>x\<in>set (encode q). x \<noteq> 0)"

context set_store
begin

text \<open>A stored answer is the one that is found.\<close>

lemma cache_found:
  assumes "storable K S encode q cid r" and "json_value (PDict er)" and "n < CACHE_TTL"
  shows "fst (cache_get_llm K S encode q CACHE_SIM_THRESHOLD
        (map_option (wait n) (cache_set_llm K S encode cid q sql er (Some r))))
      = Inr (Some \<lparr>ch_question = PStr q, ch_sql = PStr sql, ch_exec_result = PDict (truncated_result er), ch_similarity = 1\<rparr>)
    \<and> cache_get_llm K S encode q CACHE_SIM_THRESHOLD (cache_set_llm K S encode cid q sql er None) = (Inr None, None)"
proof -
  note st = assms(1) [unfolded storable_def]
  note ro = st [THEN conjunct1] and less = st [THEN conjunct2, THEN conjunct1] and cidf = st [THEN conjunct2, THEN conjunct2, THEN conjunct1]
  have keys: "cid \<noteq> ''keys''" and fl: "\<forall>x\<in>set (encode q). json_value (PFloat x)" and nz: "\<exists>x\<in>set (encode q). x \<noteq> 0"
    using st by blast+
  obtain r' where r': "map_option (wait n) (cache_set_llm K S encode cid q sql er (Some r)) = Some r'"
    "set (st_members S CACHE_KEYS_SET r') = insert cid (set (st_members S CACHE_KEYS_SET r))"
    "entry_at K cid r' = Some (PDict (cache_entry q sql er (encode q)))"
    "\<And>c. c \<noteq> ''keys'' \<Longrightarrow> c \<noteq> cid \<Longrightarrow> entry_at K c r' \<in> {None, entry_at K c r}"
    using stored_entries [where er = er and encode = encode and q = q and n = n and cid = cid] keys assms(2) fl assms(3)
    by blast
  let ?new = "(cache_entry q sql er (encode q), encode q)" and ?ids = "st_members S CACHE_KEYS_SET r'"
  have ok: "readable_entries K ?ids r'"
    unfolding readable_entries_def
  proof (intro ballI conjI allI impI)
    fix c assume c: "c \<in> set ?ids"
    then show k: "c \<noteq> ''keys''" using ro keys r'(2) by (auto simp: readable_entries_def)
    fix v assume v: "entry_at K c r' = Some v"
    show "\<exists>e. entry_embedding v = Inr e"
    proof (cases "c = cid")
      case True
      then show ?thesis using v r'(3) embedding_of_entry by auto
    next
      case False
      then show ?thesis using v r'(4) [OF k] c r'(2) ro by (auto simp: readable_entries_def)
    qed
  qed
  have new: "?new \<in> set (live_entries K ?ids r')"
    using r'(2,3) embedding_of_entry by (intro in_live_entries [of cid]) auto
  have old: "e = ?new \<or> cosine_similarity (encode q) (snd e) < 1" if e: "e \<in> set (live_entries K ?ids r')" for e
  proof -
    obtain c v where c: "c \<in> set ?ids" "entry_at K c r' = Some v" "entry_embedding v = Inr e"
      using e by (elim live_entry)
    show ?thesis
    proof (cases "c = cid")
      case False
      then have "c \<noteq> ''keys''" using c(1) r'(2) ro by (auto simp: readable_entries_def)
      then have "e \<in> set (live_entries K (st_members S CACHE_KEYS_SET r) r)"
        using r'(4) [of c] False c r'(2) by (intro in_live_entries [of c]) auto
      then show ?thesis using less by blast
    qed (use c r'(3) embedding_of_entry in auto)
  qed
  note self = cosine_self [OF nz]
  have "0 \<le> CACHE_SIM_THRESHOLD" "CACHE_SIM_THRESHOLD < 1" by (simp_all add: CACHE_SIM_THRESHOLD_def)
  moreover obtain out r'' where g: "cache_get_llm K S encode q CACHE_SIM_THRESHOLD (Some r') = (out, Some r'')"
    "(out = Inr None \<and> (\<forall>e\<in>set (live_entries K ?ids r'). cosine_similarity (encode q) (snd e) \<le> CACHE_SIM_THRESHOLD))
      \<or> (\<exists>e\<in>set (live_entries K ?ids r'). (\<forall>e'\<in>set (live_entries K ?ids r'). cosine_similarity (encode q) (snd e') \<le> cosine_similarity (encode q) (snd e))
          \<and> out = py_bind (hit_of (fst e) (cosine_similarity (encode q) (snd e))) (\<lambda>h. Inr (Some h)))"
    using cache_get_spec [OF ok \<open>0 \<le> CACHE_SIM_THRESHOLD\<close>, of encode q] unfolding Let_def by blast
  ultimately obtain e where e: "e \<in> set (live_entries K ?ids r')" "cosine_similarity (encode q) (snd ?new) \<le> cosine_similarity (encode q) (snd e)"
    "out = py_bind (hit_of (fst e) (cosine_similarity (encode q) (snd e))) (\<lambda>h. Inr (Some h))"
    using new self by fastforce
  then have "e = ?new" using old [OF e(1)] self by simp
  then have "out = py_bind (hit_of (cache_entry q sql er (encode q)) 1) (\<lambda>h. Inr (Some h))" using e(3) self by simp
  then show ?thesis using g(1) r'(1) by (simp add: hit_of_entry) (simp add: cache_set_llm_def cache_get_llm_def)
qed

end

subsection \<open>Properties\<close>

text \<open>C27: A lookup returns the live entry most similar to the question among those above the threshold,
  and misses only if there is none; it removes exactly the identifiers without a live entry. Every
  similarity is at most 1.\<close>

theorem cache_get_best:
  assumes "set_store K wait S" and "readable_entries K (st_members S CACHE_KEYS_SET r) r" and "0 \<le> th"
  shows "\<exists>out r'. cache_get_llm K S encode q th (Some r) = (out, Some r')
    \<and> set (st_members S CACHE_KEYS_SET r') = {cid \<in> set (st_members S CACHE_KEYS_SET r). entry_at K cid r \<noteq> None}
    \<and> (let live = set (live_entries K (st_members S CACHE_KEYS_SET r) r); sim = (\<lambda>e. cosine_similarity (encode q) (snd e))
       in (out = Inr None \<and> (\<forall>e\<in>live. sim e \<le> th))
        \<or> (\<exists>e\<in>live. th < sim e \<and> sim e \<le> 1 \<and> (\<forall>e'\<in>live. sim e' \<le> sim e)
             \<and> out = py_bind (hit_of (fst e) (sim e)) (\<lambda>h. Inr (Some h))))"
  by (rule set_store.cache_get_spec [OF assms])

text \<open>C28: An answer that is stored is found again for two hours: the same question, unless another live entry
  points in exactly the same direction, gets back the stored query and result, cut to 50 rows, with
  similarity 1. Nothing is stored or found when Redis cannot be reached.\<close>

theorem cache_set_found:
  assumes "set_store K wait S" and "storable K S encode q cid r" and "json_value (PDict er)" and "n < CACHE_TTL"
  shows "fst (cache_get_llm K S encode q CACHE_SIM_THRESHOLD
        (map_option (wait n) (cache_set_llm K S encode cid q sql er (Some r))))
      = Inr (Some \<lparr>ch_question = PStr q, ch_sql = PStr sql, ch_exec_result = PDict (truncated_result er), ch_similarity = 1\<rparr>)
    \<and> cache_get_llm K S encode q CACHE_SIM_THRESHOLD (cache_set_llm K S encode cid q sql er None) = (Inr None, None)"
  by (rule set_store.cache_found [OF assms])

definition demo_encode :: "string \<Rightarrow> rat list" where
  "demo_encode s = (if s = ''count users'' then [1, 0] else [4, 3])"

abbreviation "demo_kv \<equiv> kv_with_sets redis_kv"

definition demo_cached :: "redis set_db option" where
  "demo_cached = cache_set_llm demo_kv assoc_sets demo_encode ''c1'' ''count users'' ''SELECT 1'' [] (Some (redis_empty, []))"

theorem cache_set_found_witness:
  "fst (cache_get_llm demo_kv assoc_sets demo_encode ''count users'' CACHE_SIM_THRESHOLD (map_option (wait_with_sets redis_wait 7000) demo_cached))
     = Inr (Some \<lparr>ch_question = PStr ''count users'', ch_sql = PStr ''SELECT 1'', ch_exec_result = PDict [], ch_similarity = 1\<rparr>)"
proof -
  have m: "st_members assoc_sets CACHE_KEYS_SET (redis_empty, []) = []" by (simp add: assoc_sets_def members_of_def)
  have "truncated_result [] = []" by (simp add: truncated_result_def d_get_def)
  then show ?thesis
    using cache_set_found [OF set_redis.set_store_axioms, of demo_encode "''count users''" "''c1''" "(redis_empty, [])" "[]" 7000 "''SELECT 1''"]
    by (simp add: storable_def m readable_entries_def live_entries_def demo_cached_def demo_encode_def CACHE_TTL_def)
qed

theorem cache_get_best_witness:
  "fst (cache_get_llm demo_kv assoc_sets demo_encode ''list orders'' CACHE_SIM_THRESHOLD (map_option (wait_with_sets redis_wait 7000) demo_cached))
     = Inr None"
proof -
  have m: "st_members assoc_sets CACHE_KEYS_SET (redis_empty, []) = []" by (simp add: assoc_sets_def members_of_def)
  obtain r where r: "map_option (wait_with_sets redis_wait 7000) demo_cached = Some r"
    "set (st_members assoc_sets CACHE_KEYS_SET r) = {''c1''}"
    "entry_at demo_kv ''c1'' r = Some (PDict (cache_entry ''count users'' ''SELECT 1'' [] [1, 0]))"
  proof (rule set_redis.stored_entries [of "[]" demo_encode "''count users''" 7000 "''c1''" "''SELECT 1''" "(redis_empty, [])"])
    fix r assume "map_option (wait_with_sets redis_wait 7000) (cache_set_llm demo_kv assoc_sets demo_encode ''c1''
        ''count users'' ''SELECT 1'' [] (Some (redis_empty, []))) = Some r"
      "set (st_members assoc_sets CACHE_KEYS_SET r) = insert ''c1'' (set (st_members assoc_sets CACHE_KEYS_SET (redis_empty, [])))"
      "entry_at demo_kv ''c1'' r = Some (PDict (cache_entry ''count users'' ''SELECT 1'' [] (demo_encode ''count users'')))"
    then show thesis using that [of r] by (simp only: m demo_cached_def) (simp add: demo_encode_def)
  qed (simp_all add: demo_encode_def CACHE_TTL_def)
  have ok: "readable_entries demo_kv (st_members assoc_sets CACHE_KEYS_SET r) r"
    using r embedding_of_entry by (auto simp: readable_entries_def)
  have "sqrt 25 = (5 :: real)" by (rule real_sqrt_unique) simp_all
  then have c: "cosine_similarity [4, 3] [1, 0] = 4 / 5" by (simp add: cosine_similarity_def)
  have th: "0 \<le> CACHE_SIM_THRESHOLD" by (simp add: CACHE_SIM_THRESHOLD_def)
  obtain out r' where g: "cache_get_llm demo_kv assoc_sets demo_encode ''list orders'' CACHE_SIM_THRESHOLD (Some r) = (out, Some r')"
    and b: "out = Inr None \<or> (\<exists>e\<in>set (live_entries demo_kv (st_members assoc_sets CACHE_KEYS_SET r) r).
      CACHE_SIM_THRESHOLD < cosine_similarity (demo_encode ''list orders'') (snd e))"
    using cache_get_best [OF set_redis.set_store_axioms ok th, of demo_encode "''list orders''", unfolded Let_def]
    by blast
  moreover have "\<not> CACHE_SIM_THRESHOLD < cosine_similarity (demo_encode ''list orders'') (snd e)"
    if e: "e \<in> set (live_entries demo_kv (st_members assoc_sets CACHE_KEYS_SET r) r)" for e
  proof -
    have "demo_encode ''list orders'' = [4, 3]" by (simp add: demo_encode_def)
    moreover obtain cid v where v: "cid \<in> set (st_members assoc_sets CACHE_KEYS_SET r)" "entry_at demo_kv cid r = Some v" "entry_embedding v = Inr e"
      using e by (rule live_entry)
    then have "v = PDict (cache_entry ''count users'' ''SELECT 1'' [] [1, 0])" using r(2,3) by simp
    then have "snd e = [1, 0]" using v(3) embedding_of_entry by auto
    ultimately show ?thesis using c by (simp add: CACHE_SIM_THRESHOLD_def)
  qed
  ultimately have "out = Inr None" by blast
  then show ?thesis unfolding r(1) using g by simp
qed

end
