(* ===== verification/QueryApi.thy ===== *)
theory QueryApi
  imports Pipeline MiniPipeline RedisCache TaskApi
begin

text \<open>
  \<open>api/routes/query.py\<close>: a question is answered from the semantic cache, after the cached query has
  been executed again, or by one of the two pipelines, whose successful answers are stored. The
  streaming endpoint is a function of what the thread that runs the graph puts into its queue.
\<close>

subsection \<open>Requests and responses\<close>

record query_request =
  qq_question :: string
  qq_rag_schema :: bool
  qq_rag_domain :: bool
  qq_use_cache :: bool
  qq_database_url :: "string option"
  qq_db_id :: "string option"

record mini_query = query_request +
  qq_reviewer_on :: bool
  qq_k :: nat

record full_query = query_request +
  qq_multi_candidate :: bool
  qq_rag_k :: nat
  qq_column_prune :: bool
  qq_hybrid :: bool
  qq_fk_expand :: bool
  qq_fewshot :: bool

text \<open>\<open>ExecResult\<close>: the class drops the other keys of a result.\<close>

record exec_response =
  xr_success :: bool
  xr_data :: "row list option"
  xr_columns :: "string list option"
  xr_row_count :: int
  xr_error :: "string option"

record query_response =
  qr_question :: string
  qr_sql :: string
  qr_exec_result :: "exec_response option"
  qr_token_usage :: usage
  qr_cache_hit :: bool

definition sanitize_exec_result :: "exec_result \<Rightarrow> exec_result" where
  "sanitize_exec_result er = er\<lparr>er_data := map_option (map (map safe_value)) (er_data er)\<rparr>"

definition exec_response_of :: "exec_result \<Rightarrow> exec_response" where
  "exec_response_of er = \<lparr>xr_success = er_success er, xr_data = er_data er, xr_columns = er_columns er,
     xr_row_count = er_row_count er, xr_error = er_error er\<rparr>"

text \<open>The dictionary of a result, as it is put into the cache\<close>

definition opt_item :: "string \<Rightarrow> ('a \<Rightarrow> pyv) \<Rightarrow> 'a option \<Rightarrow> pydict" where
  "opt_item k f x = (case x of None \<Rightarrow> [] | Some v \<Rightarrow> [(k, f v)])"

definition exec_dict :: "exec_result \<Rightarrow> pydict" where
  "exec_dict er =
     [(''success'', PBool (er_success er)),
      (''data'', case er_data er of None \<Rightarrow> PNone | Some rows \<Rightarrow> PList (map PList rows)),
      (''columns'', case er_columns er of None \<Rightarrow> PNone | Some cs \<Rightarrow> PList (map PStr cs)),
      (''error'', case er_error er of None \<Rightarrow> PNone | Some e \<Rightarrow> PStr e),
      (''error_type'', case er_error_type er of None \<Rightarrow> PNone | Some t \<Rightarrow> PStr t),
      (''row_count'', PInt (er_row_count er))]
     @ opt_item ''elapsed_ms'' PInt (er_elapsed_ms er) @ opt_item ''_sql'' PStr (er_sql er)
     @ opt_item ''_voted_by'' PStr (er_voted_by er)"

subsection \<open>The pipelines\<close>

record answer =
  an_sql :: string
  an_exec :: "exec_result option"
  an_usage :: usage

definition mini_request_of :: "'z mini_query_scheme \<Rightarrow> mini_request" where
  "mini_request_of req = \<lparr>mr_question = qq_question req, mr_rag_schema = qq_rag_schema req,
     mr_rag_domain = qq_rag_domain req, mr_reviewer_on = qq_reviewer_on req, mr_k = qq_k req,
     mr_database_url = qq_database_url req, mr_db_id = qq_db_id req\<rparr>"

definition mini_answer :: "mini_env \<Rightarrow> 'z mini_query_scheme \<Rightarrow> answer py" where
  "mini_answer E req =
     py_bind (mini_run E (mini_request_of req)) (\<lambda>out.
       Inr \<lparr>an_sql = ms_sql (mo_state out), an_exec = ms_exec (mo_state out), an_usage = ms_usage (mo_state out)\<rparr>)"

definition graph_state :: "'z full_query_scheme \<Rightarrow> agent_state" where
  "graph_state req = (init_state (qq_question req))
     \<lparr>s_rag_schema := Some (qq_rag_schema req), s_rag_domain := Some (qq_rag_domain req),
      s_rag_k := Some (int (qq_rag_k req)), s_rag_column_prune := Some (qq_column_prune req),
      s_rag_hybrid := Some (qq_hybrid req), s_rag_fk_expand := Some (qq_fk_expand req),
      s_fewshot_enabled := Some (qq_fewshot req), s_database_url := qq_database_url req, s_db_id := qq_db_id req\<rparr>"

text \<open>The graph ends within the bound of \<open>pipeline_terminates\<close>, so the last branch is never taken.\<close>

definition full_answer :: "(nat \<Rightarrow> node_env) \<Rightarrow> string \<Rightarrow> 'z full_query_scheme \<Rightarrow> answer py" where
  "full_answer env tid req =
     (let s0 = (graph_state req)\<lparr>s_trace_id := Some tid\<rparr>
      in case snd (graph_run next_full (\<lambda>i. run_node (env i)) (10 + 6 * rounds_left s0) 0 (At NRouter s0)) of
           Done s \<Rightarrow> Inr \<lparr>an_sql = or_default [] (s_sql s), an_exec = or_default None (s_exec_result s),
             an_usage = or_default [] (s_token_usage s)\<rparr>
         | conf.Raised e \<Rightarrow> Inl e
         | At n s \<Rightarrow> Inl (PyExc ''GraphRecursionError'' []))"

subsection \<open>Answering a question\<close>

definition verify_cache :: "sqlglot \<Rightarrow> database \<Rightarrow> pyv \<Rightarrow> string option \<Rightarrow> exec_response option py" where
  "verify_cache sg db sql database_url =
     (case sql of
        PStr q \<Rightarrow> py_bind (execute_sql sg db q DEFAULT_MAX_ROWS database_url) (\<lambda>er.
          Inr (if er_success er \<and> 0 < er_row_count er then Some (exec_response_of (sanitize_exec_result er)) else None))
      | _ \<Rightarrow> Inl (PyExc ''TypeError'' ''expected string or bytes-like object''))"

text \<open>What a request is answered from: the parts around the two pipelines\<close>

record 'r query_env =
  qe_kv :: "'r kv"
  qe_sets :: "'r sets"
  qe_encode :: "string \<Rightarrow> rat list"
  qe_cache_id :: string
  qe_sg :: sqlglot
  qe_db :: database
  qe_clock :: "nat \<Rightarrow> reading"

definition rat_of :: "real \<Rightarrow> rat" where
  "rat_of x = of_int \<lfloor>x * 10 ^ 6\<rfloor> / 10 ^ 6"

definition cached_answer ::
  "'r query_env \<Rightarrow> 'z query_request_scheme \<Rightarrow> 'r option \<Rightarrow> (cache_hit \<times> exec_response option) option py \<times> 'r option" where
  "cached_answer Q req st =
     (if \<not> qq_use_cache req then (Inr None, st)
      else case cache_get_llm (qe_kv Q) (qe_sets Q) (qe_encode Q) (qq_question req) CACHE_SIM_THRESHOLD st of
          (Inl e, st) \<Rightarrow> (Inl e, st)
        | (Inr None, st) \<Rightarrow> (Inr None, st)
        | (Inr (Some cached), st) \<Rightarrow>
            (py_bind (verify_cache (qe_sg Q) (qe_db Q) (ch_sql cached) (qq_database_url req)) (\<lambda>v. Inr (Some (cached, v))), st))"

definition elapsed :: "'r query_env \<Rightarrow> nat \<Rightarrow> rat" where
  "elapsed Q n = of_int (r_ms (qe_clock Q n) - r_ms (qe_clock Q 0))"

definition hit_response :: "'z query_request_scheme \<Rightarrow> cache_hit \<Rightarrow> exec_response \<Rightarrow> query_response" where
  "hit_response req cached er = \<lparr>qr_question = qq_question req, qr_sql = py_str (ch_sql cached),
     qr_exec_result = Some er, qr_token_usage = [], qr_cache_hit = True\<rparr>"

definition store_answer :: "'r query_env \<Rightarrow> 'z query_request_scheme \<Rightarrow> answer \<Rightarrow> 'r option \<Rightarrow> 'r option" where
  "store_answer Q req a st =
     (case an_exec a of
        Some er \<Rightarrow>
          if qq_use_cache req \<and> an_sql a \<noteq> [] \<and> er_success er
          then cache_set_llm (qe_kv Q) (qe_sets Q) (qe_encode Q) (qe_cache_id Q) (qq_question req) (an_sql a)
                 (exec_dict (sanitize_exec_result er)) st
          else st
      | None \<Rightarrow> st)"

definition fresh_response :: "'z query_request_scheme \<Rightarrow> answer \<Rightarrow> query_response" where
  "fresh_response req a = \<lparr>qr_question = qq_question req, qr_sql = an_sql a,
     qr_exec_result = map_option (exec_response_of \<circ> sanitize_exec_result) (an_exec a),
     qr_token_usage = an_usage a, qr_cache_hit = False\<rparr>"

definition pipeline_end :: "'r query_env \<Rightarrow> string \<Rightarrow> answer \<Rightarrow> tracer \<Rightarrow> tracer" where
  "pipeline_end Q mode a tr =
     emit (r_ts (qe_clock Q 3)) ''pipeline_end''
       [(''mode'', PStr mode), (''sql_ok'', PBool (an_sql a \<noteq> [])),
        (''exec_ok'', PBool (case an_exec a of None \<Rightarrow> False | Some er \<Rightarrow> er_success er)),
        (''row_count'', PInt (case an_exec a of None \<Rightarrow> 0 | Some er \<Rightarrow> er_row_count er)),
        (''elapsed_ms'', PFloat (round_dec 1 (elapsed Q 3)))] tr"

definition answer_query ::
  "string \<Rightarrow> string \<Rightarrow> 'r query_env \<Rightarrow> (tracer \<Rightarrow> answer py) \<Rightarrow> 'z query_request_scheme \<Rightarrow> tracer \<Rightarrow> 'r option
    \<Rightarrow> query_response api \<times> tracer \<times> 'r option" where
  "answer_query path mode Q pipeline req tlog st =
     (let run = (\<lambda>tlog st.
            let tlog = emit (r_ts (qe_clock Q 2)) ''pipeline_start''
                  [(''mode'', PStr mode), (''question'', PStr (take 100 (qq_question req)))] tlog
            in case pipeline tlog of
                 Inl e \<Rightarrow> (Inl (TaskApi.Raised e), tlog, st)
               | Inr a \<Rightarrow> (Inr (fresh_response req a), pipeline_end Q mode a tlog, store_answer Q req a st))
      in case cached_answer Q req st of
           (Inl e, st) \<Rightarrow> (Inl (TaskApi.Raised e), tlog, st)
         | (Inr None, st) \<Rightarrow> run tlog st
         | (Inr (Some (cached, None)), st) \<Rightarrow> run (log_cache_miss (qe_clock Q 1) ''exec_verify_failed'' tlog) st
         | (Inr (Some (cached, Some er)), st) \<Rightarrow>
             (Inr (hit_response req cached er),
              api_request (qe_clock Q 1) ''end'' ''POST'' path 200 (elapsed Q 1) []
                (log_cache_hit (qe_clock Q 1) (rat_of (ch_similarity cached)) (py_str (ch_question cached)) tlog),
              st))"

definition query_nl2sql ::
  "'r query_env \<Rightarrow> mini_env \<Rightarrow> 'z mini_query_scheme \<Rightarrow> tracer \<Rightarrow> 'r option \<Rightarrow> query_response api \<times> tracer \<times> 'r option" where
  "query_nl2sql Q E req = answer_query ''/api/v1/query'' ''mini'' Q (\<lambda>tlog. mini_answer E req) req"

definition query_full_graph ::
  "'r query_env \<Rightarrow> (nat \<Rightarrow> node_env) \<Rightarrow> 'z full_query_scheme \<Rightarrow> tracer \<Rightarrow> 'r option \<Rightarrow> query_response api \<times> tracer \<times> 'r option" where
  "query_full_graph Q env req = answer_query ''/api/v1/query/full'' ''full'' Q (\<lambda>tlog. full_answer env (trace_id tlog) req) req"

subsection \<open>The streaming endpoint\<close>

text \<open>\<open>_summarize_node\<close>, here of the update of the node alone\<close>

definition query_summary :: "string \<Rightarrow> pydict \<Rightarrow> pydict py" where
  "query_summary node_name state =
     (let get = d_get_or state;
          count_of = (\<lambda>k field. py_bind (py_len (get field (PList []))) (\<lambda>n. Inr [(k, n)]))
      in if node_name = ''schema_retriever'' then
           py_bind (count_of ''chunk_count'' ''rag_chunks'') (\<lambda>a.
           py_bind (py_len (get ''schema_text'' (PStr []))) (\<lambda>n. Inr (a @ [(''schema_len'', n)])))
         else if node_name = ''router'' then
           Inr [(''complexity'', get ''complexity'' (PStr ''simple'')), (''score'', get ''router_score'' (PInt 0))]
         else if node_name = ''decomposer'' then count_of ''sub_count'' ''sub_questions''
         else if node_name = ''fewshot_selector'' then count_of ''hit_count'' ''fewshot_hits''
         else if node_name = ''generator'' then
           let sql = get ''sql'' (PStr []); candidates = get ''candidate_sqls'' (PList [])
           in py_bind (if truthy candidates then py_len candidates else Inr (PInt 1)) (\<lambda>n.
              py_bind (if truthy sql then py_prefix sql 200
                       else if truthy candidates then py_bind (py_iter candidates) (\<lambda>cs. py_prefix (hd cs) 200)
                       else Inr (PStr [])) (\<lambda>preview.
                Inr [(''candidate_count'', n), (''sql_preview'', preview)]))
         else if node_name = ''guard'' then
           py_bind (count_of ''issue_count'' ''guard_issues'') (\<lambda>a. Inr ((''guard_pass'', get ''guard_pass'' (PBool False)) # a))
         else if node_name = ''voter'' then
           let er = get ''exec_result'' (PDict [])
           in if \<not> truthy er then Inr [(''exec_success'', PBool False), (''row_count'', PInt 0)]
              else py_bind (py_get_or er ''success'' (PBool False)) (\<lambda>ok.
                   py_bind (py_get_or er ''row_count'' (PInt 0)) (\<lambda>n. Inr [(''exec_success'', ok), (''row_count'', n)]))
         else if node_name = ''semantic_check'' then
           py_bind (py_prefix (py_or_val (get ''semantic_feedback'' (PStr [])) (PStr [])) 200) (\<lambda>f.
             Inr [(''semantic_pass'', get ''semantic_pass'' (PBool True)), (''feedback'', f)])
         else if node_name = ''refiner'' then
           py_bind (py_prefix (py_or_val (get ''last_error'' (PStr [])) (PStr [])) 200) (\<lambda>e.
             Inr [(''retry_count'', get ''retry_count'' (PInt 0)), (''last_error'', e)])
         else Inr [])"

text \<open>What the graph brings, token by token and node by node, and what its thread puts into the queue\<close>

datatype graph_turn = GToken string | GStep string pydict

datatype queue_msg = QToken string | QNode string pydict | QDone pydict | QError string

fun queue_of :: "pydict \<Rightarrow> graph_turn list \<Rightarrow> py_exc option \<Rightarrow> queue_msg list" where
  "queue_of acc [] None = [QDone acc]"
| "queue_of acc [] (Some e) = [QError (exc_msg e)]"
| "queue_of acc (GToken t # ts) err = QToken t # queue_of acc ts err"
| "queue_of acc (GStep n d # ts) err = QNode n d # queue_of (d_update acc d) ts err"

datatype query_event =
    QEToken string
  | QENode string pydict
  | QEComplete pydict
  | QEError string
  | QERaised py_exc                    \<comment> \<open>the generator of the events raises\<close>

definition query_complete :: "pydict \<Rightarrow> pydict \<Rightarrow> query_event" where
  "query_complete node_timings final_state =
     (let sql = py_or_val (py_or_val (d_get_or final_state ''sql'' PNone) (d_get_or final_state ''chosen_sql'' PNone)) (PStr []);
          exec_result = d_get_or final_state ''exec_result'' PNone
      in case (if truthy exec_result then sanitize exec_result else Inr PNone) of
           Inl e \<Rightarrow> QERaised e
         | Inr er \<Rightarrow> QEComplete [(''sql'', sql), (''exec_result'', er),
             (''token_usage'', d_get_or final_state ''token_usage'' (PDict [])), (''node_timings'', PDict node_timings)])"

fun event_loop :: "pydict \<Rightarrow> queue_msg list \<Rightarrow> query_event list" where
  "event_loop node_timings [] = []"
| "event_loop node_timings (QToken t # ms) = QEToken t # event_loop node_timings ms"
| "event_loop node_timings (QNode n d # ms) =
     (case query_summary n d of
        Inl e \<Rightarrow> [QERaised e]
      | Inr summary \<Rightarrow> QENode n summary # event_loop node_timings ms)"
| "event_loop node_timings (QDone acc # ms) = [query_complete node_timings acc]"
| "event_loop node_timings (QError e # ms) = [QEError e]"

definition stream_input :: "'z full_query_scheme \<Rightarrow> pydict" where
  "stream_input req =
     [(''question'', PStr (qq_question req)),
      (''db_id'', case qq_db_id req of None \<Rightarrow> PNone | Some d \<Rightarrow> PStr d),
      (''database_url'', case qq_database_url req of None \<Rightarrow> PNone | Some u \<Rightarrow> PStr u),
      (''rag_schema'', PBool (qq_rag_schema req)), (''rag_domain'', PBool (qq_rag_domain req)),
      (''multi_candidate'', PBool (qq_multi_candidate req)), (''rag_k'', PInt (int (qq_rag_k req))),
      (''rag_column_prune'', PBool (qq_column_prune req)), (''rag_hybrid'', PBool (qq_hybrid req)),
      (''rag_fk_expand'', PBool (qq_fk_expand req)), (''fewshot_enabled'', PBool (qq_fewshot req))]"

definition query_full_graph_stream ::
  "pydict \<Rightarrow> 'z full_query_scheme \<Rightarrow> graph_turn list \<Rightarrow> py_exc option \<Rightarrow> query_event list" where
  "query_full_graph_stream node_timings req turns err =
     event_loop node_timings (queue_of (stream_input req) turns err)"

subsection \<open>What the stream tells\<close>

fun turn_event :: "graph_turn \<Rightarrow> query_event py" where
  "turn_event (GToken t) = Inr (QEToken t)"
| "turn_event (GStep n d) = py_bind (query_summary n d) (\<lambda>summary. Inr (QENode n summary))"

fun after_turns :: "pydict \<Rightarrow> graph_turn list \<Rightarrow> pydict" where
  "after_turns acc [] = acc"
| "after_turns acc (GToken t # ts) = after_turns acc ts"
| "after_turns acc (GStep n d # ts) = after_turns (d_update acc d) ts"

lemma stream_events_of:
  "event_loop tm (queue_of acc turns err) =
     (case py_map turn_event turns of
        Inr evs \<Rightarrow> evs @ [case err of None \<Rightarrow> query_complete tm (after_turns acc turns) | Some e \<Rightarrow> QEError (exc_msg e)]
      | Inl e \<Rightarrow> map projr (takeWhile (Not \<circ> isl) (map turn_event turns)) @ [QERaised e])"
proof (induction turns arbitrary: acc)
  case Nil
  then show ?case by (cases err) simp_all
next
  case (Cons t ts)
  show ?case
  proof (cases t)
    case (GStep n d)
    show ?thesis unfolding GStep
      using Cons [of "d_update acc d"] by (cases err; cases "query_summary n d"; cases "py_map turn_event ts") simp_all
  next
    case (GToken x)
    show ?thesis unfolding GToken using Cons [of acc] by (cases err; cases "py_map turn_event ts") simp_all
  qed
qed

subsection \<open>Properties\<close>

lemma cached_answer_verified:
  assumes "cached_answer Q req st = (Inr (Some (cached, Some er)), st')"
  shows "\<exists>q r. ch_sql cached = PStr q \<and> execute_sql (qe_sg Q) (qe_db Q) q DEFAULT_MAX_ROWS (qq_database_url req) = Inr r
    \<and> er_success r \<and> 0 < er_row_count r \<and> er = exec_response_of (sanitize_exec_result r)"
  using assms
  by (auto simp: cached_answer_def verify_cache_def py_bind_Inr_iff split: if_splits prod.splits sum.splits option.splits pyv.splits)

text \<open>C25: A response from the cache is never taken on trust: its query passed the safety checks and has just
  been executed on the database of the request, with at least one row, and these rows are the ones
  returned.\<close>

theorem cache_hit_is_executed:
  assumes "answer_query path mode Q pipeline req tlog st = (Inr resp, tlog', st')" and "qr_cache_hit resp"
  shows "qr_question resp = qq_question req \<and> safe_sql (qe_sg Q) (qr_sql resp) (executor_dialect (qq_database_url req))
    \<and> (\<exists>r. execute_sql (qe_sg Q) (qe_db Q) (qr_sql resp) DEFAULT_MAX_ROWS (qq_database_url req) = Inr r
          \<and> er_success r \<and> 0 < er_row_count r
          \<and> qr_exec_result resp = Some (exec_response_of (sanitize_exec_result r)))"
proof -
  obtain cached er where c: "cached_answer Q req st = (Inr (Some (cached, Some er)), st')" and resp: "resp = hit_response req cached er"
    using assms by (auto simp: answer_query_def Let_def fresh_response_def
        split: prod.splits sum.splits option.splits)
  from cached_answer_verified [OF c] obtain q r where "ch_sql cached = PStr q"
    and r: "execute_sql (qe_sg Q) (qe_db Q) q DEFAULT_MAX_ROWS (qq_database_url req) = Inr r" "er_success r" "0 < er_row_count r"
      "er = exec_response_of (sanitize_exec_result r)"
    by blast
  moreover from this have "safe_sql (qe_sg Q) q (executor_dialect (qq_database_url req))"
    using execute_sql_success [OF r(1)] by blast
  ultimately show ?thesis by (simp add: resp hit_response_def)
qed

lemma cached_answer_found:
  assumes "set_store (qe_kv Q) wait (qe_sets Q)"
    and "storable (qe_kv Q) (qe_sets Q) (qe_encode Q) (qq_question req) cid r" and "json_value (PDict er)" and "n < CACHE_TTL"
    and "qq_use_cache req"
    and "execute_sql (qe_sg Q) (qe_db Q) sql DEFAULT_MAX_ROWS (qq_database_url req) = Inr r2" and "er_success r2" and "0 < er_row_count r2"
  shows "\<exists>cached st'. cached_answer Q req
      (map_option (wait n) (cache_set_llm (qe_kv Q) (qe_sets Q) (qe_encode Q) cid (qq_question req) sql er (Some r)))
    = (Inr (Some (cached, Some (exec_response_of (sanitize_exec_result r2)))), st') \<and> ch_sql cached = PStr sql"
proof -
  let ?st = "map_option (wait n) (cache_set_llm (qe_kv Q) (qe_sets Q) (qe_encode Q) cid (qq_question req) sql er (Some r))"
  obtain cached st' where "cache_get_llm (qe_kv Q) (qe_sets Q) (qe_encode Q) (qq_question req) CACHE_SIM_THRESHOLD ?st = (Inr (Some cached), st')"
      and "ch_sql cached = PStr sql"
    using set_store.cache_found [OF assms(1-4), of sql] by (metis cache_hit.select_convs(2) prod.collapse)
  then show ?thesis using assms(5-8) by (auto simp: cached_answer_def verify_cache_def)
qed

text \<open>C26: The cache knows questions, not databases: an answer found on one database answers the same question
  on any other, without running the pipeline, as long as its query can be executed there and yields
  a row. This holds for two hours, whatever the pipeline would have said.\<close>

theorem cache_ignores_database:
  assumes "set_store (qe_kv Q) wait (qe_sets Q)"
    and "cached_answer Q req1 st = (Inr None, Some r)"
    and "storable (qe_kv Q) (qe_sets Q) (qe_encode Q) (qq_question req1) (qe_cache_id Q) r"
    and "qq_use_cache req1" and "qq_use_cache req2" and "qq_question req2 = qq_question req1"
    and "\<And>tr. pipeline1 tr = Inr a" and "an_sql a \<noteq> []" and "an_exec a = Some er" and "er_success er"
    and "json_value (PDict (exec_dict (sanitize_exec_result er)))" and "n < CACHE_TTL"
    and "execute_sql (qe_sg Q) (qe_db Q) (an_sql a) DEFAULT_MAX_ROWS (qq_database_url req2) = Inr r2"
    and "er_success r2" and "0 < er_row_count r2"
  shows "\<exists>tlog1 st1 tlog2 st2. answer_query path mode Q pipeline1 req1 tlog st = (Inr (fresh_response req1 a), tlog1, st1)
    \<and> answer_query path' mode' Q pipeline2 req2 tlog' (map_option (wait n) st1)
        = (Inr \<lparr>qr_question = qq_question req2, qr_sql = an_sql a,
            qr_exec_result = Some (exec_response_of (sanitize_exec_result r2)), qr_token_usage = [], qr_cache_hit = True\<rparr>, tlog2, st2)"
proof -
  let ?st = "cache_set_llm (qe_kv Q) (qe_sets Q) (qe_encode Q) (qe_cache_id Q) (qq_question req1) (an_sql a)
      (exec_dict (sanitize_exec_result er)) (Some r)"
  have s: "store_answer Q req1 a (Some r) = ?st" using assms(4,8-10) by (simp add: store_answer_def)
  obtain tlog1 where 1: "answer_query path mode Q pipeline1 req1 tlog st = (Inr (fresh_response req1 a), tlog1, ?st)"
    using assms(2,7) s by (simp add: answer_query_def Let_def)
  obtain cached st' where "cached_answer Q req2 (map_option (wait n) ?st) = (Inr (Some (cached, Some (exec_response_of (sanitize_exec_result r2)))), st')"
      and "ch_sql cached = PStr (an_sql a)"
    using cached_answer_found [OF assms(1) _ assms(11,12,5,13-15), of "qe_cache_id Q" r] assms(3,6) by auto
  then have "\<exists>tlog2 st2. answer_query path' mode' Q pipeline2 req2 tlog' (map_option (wait n) ?st)
        = (Inr \<lparr>qr_question = qq_question req2, qr_sql = an_sql a,
            qr_exec_result = Some (exec_response_of (sanitize_exec_result r2)), qr_token_usage = [], qr_cache_hit = True\<rparr>, tlog2, st2)"
    by (simp add: answer_query_def Let_def hit_response_def)
  then show ?thesis using 1 by blast
qed

text \<open>The events of the streaming endpoint are those of the graph, token by token and node by node in their
  order, with exactly one closing event: the completed answer, or the error the graph ended with. A
  node whose update cannot be summarised cuts the stream off there, without an error event.\<close>

theorem query_stream_closes:
  "query_full_graph_stream tm req turns err =
     (case py_map turn_event turns of
        Inr evs \<Rightarrow> evs @ [case err of None \<Rightarrow> query_complete tm (after_turns (stream_input req) turns) | Some e \<Rightarrow> QEError (exc_msg e)]
      | Inl e \<Rightarrow> map projr (takeWhile (Not \<circ> isl) (map turn_event turns)) @ [QERaised e])
   \<and> list_all (\<lambda>ev. case ev of QEToken t \<Rightarrow> True | QENode n d \<Rightarrow> True | _ \<Rightarrow> False)
         (butlast (query_full_graph_stream tm req turns err))"
proof -
  have t: "turn_event t = Inr ev \<Longrightarrow> case ev of QEToken t \<Rightarrow> True | QENode n d \<Rightarrow> True | _ \<Rightarrow> False" for t ev
    by (cases t) (auto simp: py_bind_Inr_iff)
  have m: "py_map turn_event ts = Inr evs \<Longrightarrow> ev \<in> set evs \<Longrightarrow> \<exists>t. turn_event t = Inr ev" for ts evs ev
    by (induction ts arbitrary: evs) (auto simp: py_bind_Inr_iff)
  have w: "ev \<in> set (map projr (takeWhile (Not \<circ> isl) (map turn_event ts))) \<Longrightarrow> \<exists>t. turn_event t = Inr ev" for ts ev
    by (induction ts) (auto simp: isl_def split: if_splits)
  show ?thesis
  proof (cases "py_map turn_event turns")
    case (Inl e)
    have "\<forall>ev\<in>set (map projr (takeWhile (Not \<circ> isl) (map turn_event turns))). case ev of QEToken t \<Rightarrow> True | QENode n d \<Rightarrow> True | _ \<Rightarrow> False"
      using t w by blast
    then show ?thesis unfolding query_full_graph_stream_def stream_events_of list_all_iff by (simp only: Inl sum.case butlast_snoc simp_thms)
  next
    case (Inr evs)
    have "\<forall>ev\<in>set evs. case ev of QEToken t \<Rightarrow> True | QENode n d \<Rightarrow> True | _ \<Rightarrow> False"
      using t m [OF Inr] by blast
    then show ?thesis unfolding query_full_graph_stream_def stream_events_of list_all_iff by (simp only: Inr sum.case butlast_snoc simp_thms)
  qed
qed

subsection \<open>Witnesses\<close>

definition demo_query_env :: "redis set_db query_env" where
  "demo_query_env = \<lparr>qe_kv = demo_kv, qe_sets = assoc_sets, qe_encode = demo_encode, qe_cache_id = ''c1'',
     qe_sg = demo_sg demo_ast, qe_db = demo_db, qe_clock = (\<lambda>n. \<lparr>r_ms = int n, r_ts = []\<rparr>)\<rparr>"

definition on_database :: "string option \<Rightarrow> query_request" where
  "on_database url = \<lparr>qq_question = ''count users'', qq_rag_schema = True, qq_rag_domain = True, qq_use_cache = True,
     qq_database_url = url, qq_db_id = None\<rparr>"

definition shop_answer :: answer where
  "shop_answer = \<lparr>an_sql = ''SELECT 1'', an_exec = Some (ok_result [''name''] [[PStr ''Ada'']]), an_usage = zero_usage\<rparr>"

definition empty_db :: "redis set_db" where "empty_db = (redis_empty, [])"

definition request_log :: tracer where
  "request_log = tracer_init (Some ''r1'') []"

lemma empty_cache:
  "st_members assoc_sets CACHE_KEYS_SET empty_db = []"
  "cached_answer demo_query_env (on_database url) (Some empty_db) = (Inr None, Some empty_db)"
  by (simp_all add: assoc_sets_def members_of_def empty_db_def cached_answer_def on_database_def demo_query_env_def cache_get_llm_def)

lemma empty_storable: "storable demo_kv assoc_sets demo_encode ''count users'' ''c1'' empty_db"
  by (simp add: storable_def readable_entries_def live_entries_def empty_cache demo_encode_def)

lemma shop_answer_json: "json_value (PDict (exec_dict (sanitize_exec_result (ok_result [''name''] [[PStr ''Ada'']]))))"
  by (simp add: exec_dict_def sanitize_exec_result_def ok_result_def opt_item_def safe_value_def)

lemma clinic_executes:
  obtains r where "execute_sql (demo_sg demo_ast) demo_db ''SELECT 1'' DEFAULT_MAX_ROWS (Some ''sqlite:///clinic.db'') = Inr r"
    and "er_success r" and "0 < er_row_count r"
proof -
  have "py_ok (\<lambda>r. er_success r \<and> 0 < er_row_count r)
      (execute_sql (demo_sg demo_ast) demo_db ''SELECT 1'' DEFAULT_MAX_ROWS (Some ''sqlite:///clinic.db''))"
    by code_simp
  then show thesis using that by (auto simp: py_ok_iff)
qed

theorem cache_ignores_database_witness:
  "\<exists>tlog1 st1 resp tlog2 st2.
     answer_query ''/q'' ''mini'' demo_query_env (\<lambda>tr. Inr shop_answer) (on_database None) request_log (Some empty_db)
       = (Inr (fresh_response (on_database None) shop_answer), tlog1, st1)
     \<and> answer_query ''/q'' ''mini'' demo_query_env (\<lambda>tr. Inl (PyExc ''RuntimeError'' [])) (on_database (Some ''sqlite:///clinic.db'')) request_log
         (map_option (wait_with_sets redis_wait 60) st1) = (Inr resp, tlog2, st2) \<and> qr_sql resp = ''SELECT 1'' \<and> qr_cache_hit resp"
proof (rule clinic_executes)
  fix r assume r: "execute_sql (demo_sg demo_ast) demo_db ''SELECT 1'' DEFAULT_MAX_ROWS (Some ''sqlite:///clinic.db'') = Inr r"
    "er_success r" "0 < er_row_count r"
  show ?thesis
    using cache_ignores_database [of demo_query_env "wait_with_sets redis_wait" "on_database None" "Some empty_db" empty_db
        "on_database (Some ''sqlite:///clinic.db'')" "\<lambda>tr. Inr shop_answer" shop_answer "ok_result [''name''] [[PStr ''Ada'']]" 60 r
        "''/q''" "''mini''" request_log "''/q''" "''mini''" "\<lambda>tr. Inl (PyExc ''RuntimeError'' [])" request_log]
      set_redis.set_store_axioms empty_cache(2) empty_storable shop_answer_json r
    by (fastforce simp: demo_query_env_def on_database_def shop_answer_def ok_result_def CACHE_TTL_def)
qed

theorem cache_hit_is_executed_witness:
  "\<exists>resp tlog' st'. answer_query ''/q'' ''mini'' demo_query_env (\<lambda>tr. Inr shop_answer) (on_database (Some ''sqlite:///clinic.db'')) request_log
      demo_cached = (Inr resp, tlog', st') \<and> qr_cache_hit resp
     \<and> safe_sql (demo_sg demo_ast) (qr_sql resp) (executor_dialect (Some ''sqlite:///clinic.db''))"
proof (rule clinic_executes)
  fix r assume r: "execute_sql (demo_sg demo_ast) demo_db ''SELECT 1'' DEFAULT_MAX_ROWS (Some ''sqlite:///clinic.db'') = Inr r"
    "er_success r" "0 < er_row_count r"
  let ?req = "on_database (Some ''sqlite:///clinic.db'')"
  have w: "wait_with_sets redis_wait 0 = id" by (auto simp: wait_with_sets_def redis_wait_def)
  obtain cached st' where "cached_answer demo_query_env ?req demo_cached
      = (Inr (Some (cached, Some (exec_response_of (sanitize_exec_result r)))), st')"
    using cached_answer_found [of demo_query_env "wait_with_sets redis_wait" ?req "''c1''" empty_db "[]" 0 "''SELECT 1''" r]
      set_redis.set_store_axioms empty_storable r
    by (auto simp: demo_query_env_def on_database_def CACHE_TTL_def w option.map_id demo_cached_def empty_db_def)
  then obtain tlog' where a: "answer_query ''/q'' ''mini'' demo_query_env (\<lambda>tr. Inr shop_answer) ?req request_log demo_cached
      = (Inr (hit_response ?req cached (exec_response_of (sanitize_exec_result r))), tlog', st')"
    by (simp add: answer_query_def Let_def)
  moreover have "qr_cache_hit (hit_response ?req cached (exec_response_of (sanitize_exec_result r)))" by (simp add: hit_response_def)
  ultimately show ?thesis
    using cache_hit_is_executed [OF a] by (fastforce simp: demo_query_env_def on_database_def)
qed

end
