(* ===== verification/EvalTasks.thy ===== *)
theory EvalTasks
  imports Pipeline MiniPipeline Metrics RedisCache
begin

text \<open>
  \<open>evaluation/task_manager.py\<close>: an evaluation that runs in the background, with its progress in Redis.
  The order in which samples finish and the moments at which the thread finds the evaluation cancelled
  are parameters, so a statement about all of them covers every interleaving.
\<close>

subsection \<open>Progress\<close>

record config_entry =
  ce_name :: string
  ce_total :: int
  ce_completed :: int
  ce_passed :: int

record task_progress =
  tp_task_id :: string
  tp_status :: string
  tp_experiment :: string
  tp_configs :: "config_entry list"
  tp_current_config :: string
  tp_current_sample :: int
  tp_total_configs :: int
  tp_total_samples :: int
  tp_overall_completed :: int
  tp_overall_passed :: int
  tp_created_at :: string
  tp_started_at :: string
  tp_completed_at :: string
  tp_report_dir :: string
  tp_error :: string
  tp_database_url :: string

definition entry_dict :: "config_entry \<Rightarrow> pyv" where
  "entry_dict e = PDict [(''name'', PStr (ce_name e)), (''total'', PInt (ce_total e)),
     (''completed'', PInt (ce_completed e)), (''passed'', PInt (ce_passed e))]"

definition progress_to_dict :: "task_progress \<Rightarrow> pydict" where
  "progress_to_dict p =
     [(''task_id'', PStr (tp_task_id p)), (''status'', PStr (tp_status p)), (''experiment'', PStr (tp_experiment p)),
      (''configs'', PList (map entry_dict (tp_configs p))), (''current_config'', PStr (tp_current_config p)),
      (''current_sample'', PInt (tp_current_sample p)), (''total_configs'', PInt (tp_total_configs p)),
      (''total_samples'', PInt (tp_total_samples p)), (''overall_completed'', PInt (tp_overall_completed p)),
      (''overall_passed'', PInt (tp_overall_passed p)), (''created_at'', PStr (tp_created_at p)),
      (''started_at'', PStr (tp_started_at p)), (''completed_at'', PStr (tp_completed_at p)),
      (''report_dir'', PStr (tp_report_dir p)), (''error'', PStr (tp_error p)), (''database_url'', PStr (tp_database_url p))]"

text \<open>\<open>d.get(k, default)\<close>. Python would keep a value of another type; only \<open>_save_task\<close> writes here.\<close>

definition unexpected :: "pyv \<Rightarrow> 'a py" where
  "unexpected v = Inl (PyExc ''TypeError'' (''unexpected '' @ py_type_name v))"

definition get_str :: "pydict \<Rightarrow> string \<Rightarrow> string \<Rightarrow> string py" where
  "get_str d k dflt = (case d_get_or d k (PStr dflt) of PStr s \<Rightarrow> Inr s | v \<Rightarrow> unexpected v)"

definition get_int :: "pydict \<Rightarrow> string \<Rightarrow> int py" where
  "get_int d k = (case d_get_or d k (PInt 0) of PInt n \<Rightarrow> Inr n | v \<Rightarrow> unexpected v)"

definition entry_of :: "pyv \<Rightarrow> config_entry py" where
  "entry_of v =
     py_bind (as_dict v ''get'') (\<lambda>d.
     py_bind (get_str d ''name'' []) (\<lambda>name. py_bind (get_int d ''total'') (\<lambda>total_n.
     py_bind (get_int d ''completed'') (\<lambda>completed. py_bind (get_int d ''passed'') (\<lambda>passed.
       Inr \<lparr>ce_name = name, ce_total = total_n, ce_completed = completed, ce_passed = passed\<rparr>)))))"

definition progress_from_dict :: "pydict \<Rightarrow> task_progress py" where
  "progress_from_dict d =
     py_bind (get_str d ''task_id'' []) (\<lambda>task_id. py_bind (get_str d ''status'' ''pending'') (\<lambda>status.
     py_bind (get_str d ''experiment'' []) (\<lambda>experiment.
     py_bind (py_bind (py_iter (d_get_or d ''configs'' (PList []))) (py_map entry_of)) (\<lambda>configs.
     py_bind (get_str d ''current_config'' []) (\<lambda>current_config. py_bind (get_int d ''current_sample'') (\<lambda>current_sample.
     py_bind (get_int d ''total_configs'') (\<lambda>total_configs. py_bind (get_int d ''total_samples'') (\<lambda>total_samples.
     py_bind (get_int d ''overall_completed'') (\<lambda>overall_completed. py_bind (get_int d ''overall_passed'') (\<lambda>overall_passed.
     py_bind (get_str d ''created_at'' []) (\<lambda>created_at. py_bind (get_str d ''started_at'' []) (\<lambda>started_at.
     py_bind (get_str d ''completed_at'' []) (\<lambda>completed_at. py_bind (get_str d ''report_dir'' []) (\<lambda>report_dir.
     py_bind (get_str d ''error'' []) (\<lambda>err. py_bind (get_str d ''database_url'' []) (\<lambda>database_url.
       Inr \<lparr>tp_task_id = task_id, tp_status = status, tp_experiment = experiment, tp_configs = configs,
         tp_current_config = current_config, tp_current_sample = current_sample, tp_total_configs = total_configs,
         tp_total_samples = total_samples, tp_overall_completed = overall_completed, tp_overall_passed = overall_passed,
         tp_created_at = created_at, tp_started_at = started_at, tp_completed_at = completed_at,
         tp_report_dir = report_dir, tp_error = err, tp_database_url = database_url\<rparr>))))))))))))))))"

lemma progress_dict_roundtrip: "progress_from_dict (progress_to_dict p) = Inr p"
proof -
  have "entry_of (entry_dict e) = Inr e" for e
    by (simp add: entry_of_def entry_dict_def as_dict_def get_str_def get_int_def d_get_or_def)
  then have "py_map entry_of (map entry_dict es) = Inr es" for es by (induction es) simp_all
  then show ?thesis
    by (simp add: progress_from_dict_def progress_to_dict_def get_str_def get_int_def d_get_or_def)
qed

lemma progress_json: "json_value (PDict (progress_to_dict p))"
  by (simp add: progress_to_dict_def entry_dict_def list_all_iff)

subsection \<open>The stored tasks\<close>

definition TASKS_SET :: string where "TASKS_SET = ''eval:tasks''"
definition EVAL_TASK_TTL :: nat where "EVAL_TASK_TTL = 604800"

definition eval_key :: "string \<Rightarrow> string" where "eval_key tid = ''eval:task:'' @ tid"

lemma eval_key_simps [simp]: "eval_key a = eval_key b \<longleftrightarrow> a = b" "eval_key a \<noteq> TASKS_SET" "TASKS_SET \<noteq> eval_key a"
  by (simp_all add: eval_key_def TASKS_SET_def)

definition save_task :: "'r kv \<Rightarrow> 'r sets \<Rightarrow> task_progress \<Rightarrow> 'r option \<Rightarrow> 'r option" where
  "save_task K S p st =
     map_option (\<lambda>r. st_add S TASKS_SET (tp_task_id p)
       (kv_setex K (eval_key (tp_task_id p)) EVAL_TASK_TTL (json_dumps (PDict (progress_to_dict p))) r)) st"

definition load_task :: "'r kv \<Rightarrow> string \<Rightarrow> 'r option \<Rightarrow> task_progress option py" where
  "load_task K tid st =
     (case st of
        None \<Rightarrow> Inr None
      | Some r \<Rightarrow> (case kv_get K (eval_key tid) r of
          None \<Rightarrow> Inr None
        | Some raw \<Rightarrow> (case json_loads raw of
            Inl e \<Rightarrow> Inr None
          | Inr v \<Rightarrow> py_bind (as_dict v ''get'') (\<lambda>d. py_bind (progress_from_dict d) (\<lambda>p. Inr (Some p))))))"

text \<open>\<open>list_tasks\<close>: a task whose key is gone, or that is not JSON, is dropped from the set.\<close>

definition task_summary :: "pydict \<Rightarrow> pydict" where
  "task_summary d =
     map (\<lambda>k. (k, d_get_or d k PNone)) [''task_id'', ''status'', ''experiment'']
     @ map (\<lambda>k. (k, d_get_or d k (PInt 0))) [''overall_completed'', ''total_samples'', ''overall_passed'']
     @ map (\<lambda>k. (k, d_get_or d k PNone)) [''created_at'', ''completed_at'']"

fun collect_tasks :: "'r kv \<Rightarrow> 'r sets \<Rightarrow> string list \<Rightarrow> 'r \<Rightarrow> pydict list py \<times> 'r" where
  "collect_tasks K S [] r = (Inr [], r)"
| "collect_tasks K S (tid # ids) r =
     (case kv_get K (eval_key tid) r of
        None \<Rightarrow> collect_tasks K S ids (st_rem S TASKS_SET tid r)
      | Some raw \<Rightarrow> (case json_loads raw of
          Inl e \<Rightarrow> collect_tasks K S ids (st_rem S TASKS_SET tid r)
        | Inr v \<Rightarrow> (case as_dict v ''get'' of
            Inl e \<Rightarrow> (Inl e, r)
          | Inr d \<Rightarrow> (case collect_tasks K S ids r of (m, r') \<Rightarrow> (py_bind m (\<lambda>ts. Inr (task_summary d # ts)), r')))))"

text \<open>Sorted by the time of creation, the latest first; times that are not texts cannot be compared.\<close>

definition created_key :: "pydict \<Rightarrow> string" where
  "created_key t = (case d_get_or t ''created_at'' PNone of PStr s \<Rightarrow> s | _ \<Rightarrow> [])"

definition list_tasks :: "'r kv \<Rightarrow> 'r sets \<Rightarrow> 'r option \<Rightarrow> pydict list py \<times> 'r option" where
  "list_tasks K S st =
     (case st of
        None \<Rightarrow> (Inr [], None)
      | Some r \<Rightarrow> (case collect_tasks K S (st_members S TASKS_SET r) r of
          (Inl e, r') \<Rightarrow> (Inl e, Some r')
        | (Inr ts, r') \<Rightarrow>
            (if 2 \<le> length ts \<and> (\<exists>t\<in>set ts. d_get_or t ''created_at'' PNone = PNone)
             then Inl (PyExc ''TypeError'' ''not supported between instances'')
             else Inr (sort_desc created_key ts), Some r')))"

context set_store
begin

lemma load_saved: "load_task K tid (save_task K S p (Some r)) = (if tp_task_id p = tid then Inr (Some p) else load_task K tid (Some r))"
  using json_dumps_loads [OF progress_json [of p]]
  by (simp add: load_task_def save_task_def get_add get_setex EVAL_TASK_TTL_def as_dict_def progress_dict_roundtrip del: json_dumps.simps)

lemma load_saved_wait:
  "load_task K (tp_task_id p) (map_option (wait n) (save_task K S p (Some r))) = Inr (if n < EVAL_TASK_TTL then Some p else None)"
  using json_dumps_loads [OF progress_json [of p]]
  by (simp add: load_task_def save_task_def get_wait_add get_wait_setex EVAL_TASK_TTL_def as_dict_def progress_dict_roundtrip
      del: json_dumps.simps)

end

subsection \<open>One sample\<close>

record gold_case =
  gd_id :: string
  gd_question :: string
  gd_gold_sql :: string
  gd_difficulty :: string
  gd_type :: string

record eval_config =
  cg_name :: string
  cg_rag_schema :: bool
  cg_rag_domain :: bool
  cg_reviewer_on :: bool
  cg_use_full_graph :: bool
  cg_k :: nat
  cg_column_prune :: bool
  cg_fewshot :: bool

text \<open>What one sample runs on; the two clocks are that of the comparison and the total time.\<close>

record eval_env =
  ee_mini :: mini_env
  ee_nodes :: "nat \<Rightarrow> node_env"
  ee_sg :: sqlglot
  ee_db :: database
  ee_times :: "nat \<Rightarrow> rat"
  ee_timed_out :: bool
  ee_elapsed :: rat

record eval_output =
  eo_sql :: string
  eo_exec :: "exec_result option"
  eo_attempts :: nat
  eo_reviews :: nat
  eo_usage :: usage
  eo_chunks :: "chunk list"

definition eval_graph_state :: "gold_case \<Rightarrow> eval_config \<Rightarrow> string option \<Rightarrow> agent_state" where
  "eval_graph_state c cfg database_url = (init_state (gd_question c))
     \<lparr>s_rag_schema := Some (cg_rag_schema cfg), s_rag_domain := Some (cg_rag_domain cfg),
      s_rag_k := Some (int (cg_k cfg)), s_rag_column_prune := Some (cg_column_prune cfg),
      s_fewshot_enabled := Some (cg_fewshot cfg), s_database_url := database_url\<rparr>"

definition eval_full :: "eval_env \<Rightarrow> gold_case \<Rightarrow> eval_config \<Rightarrow> string option \<Rightarrow> eval_output py" where
  "eval_full E c cfg database_url =
     (let s0 = eval_graph_state c cfg database_url
      in case snd (graph_run next_full (\<lambda>i. run_node (ee_nodes E i)) (10 + 6 * rounds_left s0) 0 (At NRouter s0)) of
           Done s \<Rightarrow> Inr \<lparr>eo_sql = or_default [] (s_sql s), eo_exec = or_default None (s_exec_result s),
             eo_attempts = length (or_default [] (s_exec_attempts s)), eo_reviews = 0,
             eo_usage = or_default [] (s_token_usage s), eo_chunks = or_default [] (s_rag_chunks s)\<rparr>
         | Raised e \<Rightarrow> Inl e
         | At n s \<Rightarrow> Inl (PyExc ''GraphRecursionError'' []))"

definition eval_mini_request :: "gold_case \<Rightarrow> eval_config \<Rightarrow> string option \<Rightarrow> mini_request" where
  "eval_mini_request c cfg database_url = \<lparr>mr_question = gd_question c, mr_rag_schema = cg_rag_schema cfg,
     mr_rag_domain = cg_rag_domain cfg, mr_reviewer_on = cg_reviewer_on cfg, mr_k = cg_k cfg,
     mr_database_url = database_url, mr_db_id = None\<rparr>"

definition eval_mini :: "eval_env \<Rightarrow> gold_case \<Rightarrow> eval_config \<Rightarrow> string option \<Rightarrow> eval_output py" where
  "eval_mini E c cfg database_url =
     py_bind (mini_run (ee_mini E) (eval_mini_request c cfg database_url)) (\<lambda>out.
       let s = mo_state out
       in Inr \<lparr>eo_sql = ms_sql s, eo_exec = ms_exec s, eo_attempts = length (ms_attempts s),
            eo_reviews = length (ms_reviews s), eo_usage = ms_usage s, eo_chunks = ms_chunks s\<rparr>)"

definition sample_match :: "eval_env \<Rightarrow> gold_case \<Rightarrow> eval_output \<Rightarrow> string option \<Rightarrow> match_info py" where
  "sample_match E c out database_url =
     (let failed = (\<lambda>detail. no_match detail 0 0 0 0)
      in case eo_exec out of
           Some er \<Rightarrow>
             if eo_sql out = [] then Inr (failed ''SQL generation failed'')
             else if er_success er then
               exec_match (ee_sg E) (ee_db E) (ee_times E) (ee_timed_out E) None (gd_gold_sql c) (eo_sql out) database_url
             else py_bind (error_prefix er) (\<lambda>e. Inr (failed (''exec failed: '' @ e)))
         | None \<Rightarrow> Inr (failed (if eo_sql out = [] then ''SQL generation failed'' else ''no exec result'')))"

text \<open>\<open>round(x, 4)\<close> of a real number\<close>

definition round4 :: "real \<Rightarrow> real" where
  "round4 x = of_int (round (x * 10 ^ 4)) / 10 ^ 4"

record sample_result =
  sm_id :: string
  sm_question :: string
  sm_type :: string
  sm_difficulty :: string
  sm_ex :: bool
  sm_ves :: real
  sm_detail :: string
  sm_gen_sql :: string
  sm_gold_sql :: string
  sm_exec_attempts :: nat
  sm_review_rounds :: nat
  sm_time_s :: rat
  sm_usage :: usage
  sm_gold_ms :: rat
  sm_gen_ms :: rat
  sm_recall :: "rag_recall option"

definition run_one_sample :: "eval_env \<Rightarrow> gold_case \<Rightarrow> eval_config \<Rightarrow> string option \<Rightarrow> sample_result py" where
  "run_one_sample E c cfg database_url =
     py_bind (if cg_use_full_graph cfg then eval_full E c cfg database_url else eval_mini E c cfg database_url) (\<lambda>out.
     py_bind (sample_match E c out database_url) (\<lambda>mi.
     py_bind (compute_rag_recall (ee_sg E) (eo_chunks out) (gd_gold_sql c) ''sqlite'') (\<lambda>recall.
       Inr \<lparr>sm_id = gd_id c, sm_question = take 60 (gd_question c), sm_type = gd_type c, sm_difficulty = gd_difficulty c,
         sm_ex = mi_ex mi, sm_ves = round4 (ves_score (mi_ex mi) (of_rat (mi_gold_ms mi)) (of_rat (mi_gen_ms mi))),
         sm_detail = mi_detail mi, sm_gen_sql = take 200 (eo_sql out), sm_gold_sql = take 200 (gd_gold_sql c),
         sm_exec_attempts = eo_attempts out, sm_review_rounds = eo_reviews out, sm_time_s = round_dec 1 (ee_elapsed E),
         sm_usage = eo_usage out, sm_gold_ms = round_dec 2 (mi_gold_ms mi), sm_gen_ms = round_dec 2 (mi_gen_ms mi),
         sm_recall = recall\<rparr>)))"

subsection \<open>One configuration\<close>

record diff_stats =
  ds_passed :: nat
  ds_total :: nat
  ds_ves_sum :: real
  ds_tokens :: int
  ds_time :: rat

record tally =
  ta_results :: "sample_result list"
  ta_passed :: nat
  ta_completed :: nat
  ta_time :: rat
  ta_ves :: real
  ta_tokens :: usage
  ta_diff :: "(string \<times> diff_stats) list"

definition no_stats :: diff_stats where
  "no_stats = \<lparr>ds_passed = 0, ds_total = 0, ds_ves_sum = 0, ds_tokens = 0, ds_time = 0\<rparr>"

definition empty_tally :: tally where
  "empty_tally = \<lparr>ta_results = [], ta_passed = 0, ta_completed = 0, ta_time = 0, ta_ves = 0, ta_tokens = zero_usage, ta_diff = []\<rparr>"

definition stats_of :: "string \<Rightarrow> tally \<Rightarrow> diff_stats" where
  "stats_of d t = (case map_of (ta_diff t) d of None \<Rightarrow> no_stats | Some x \<Rightarrow> x)"

definition add_sample :: "gold_case \<Rightarrow> sample_result \<Rightarrow> tally \<Rightarrow> tally" where
  "add_sample c r t =
     (let d = gd_difficulty c; x = stats_of d t;
          x = x\<lparr>ds_passed := ds_passed x + (if sm_ex r then 1 else 0), ds_ves_sum := ds_ves_sum x + (if sm_ex r then sm_ves r else 0),
                ds_total := ds_total x + 1, ds_tokens := ds_tokens x + usage_get (sm_usage r) ''total'',
                ds_time := ds_time x + sm_time_s r\<rparr>
      in t\<lparr>ta_results := ta_results t @ [r], ta_passed := ta_passed t + (if sm_ex r then 1 else 0),
           ta_completed := ta_completed t + 1, ta_time := ta_time t + sm_time_s r, ta_ves := ta_ves t + sm_ves r,
           ta_tokens := add_usage (ta_tokens t) (sm_usage r), ta_diff := AList.update d x (ta_diff t)\<rparr>)"

definition progress_at :: "nat \<Rightarrow> string \<Rightarrow> nat \<Rightarrow> tally \<Rightarrow> task_progress \<Rightarrow> task_progress" where
  "progress_at cfg_idx cfg_name n_cases t sp = sp
     \<lparr>tp_current_config := cfg_name, tp_current_sample := int (ta_completed t),
      tp_overall_completed := int (cfg_idx * n_cases + ta_completed t),
      tp_overall_passed := sum_list (map ce_passed (take cfg_idx (tp_configs sp))) + int (ta_passed t),
      tp_configs := (if cfg_idx < length (tp_configs sp)
        then (tp_configs sp)[cfg_idx := (tp_configs sp ! cfg_idx)
            \<lparr>ce_completed := int (ta_completed t), ce_passed := int (ta_passed t)\<rparr>]
        else tp_configs sp)\<rparr>"

definition update_progress ::
  "'r kv \<Rightarrow> 'r sets \<Rightarrow> string \<Rightarrow> nat \<Rightarrow> string \<Rightarrow> nat \<Rightarrow> tally \<Rightarrow> 'r option \<Rightarrow> 'r option py" where
  "update_progress K S tid cfg_idx cfg_name n_cases t st =
     py_bind (load_task K tid st) (\<lambda>loaded. Inr (case loaded of
        None \<Rightarrow> st
      | Some sp \<Rightarrow> save_task K S (progress_at cfg_idx cfg_name n_cases t sp) st))"

text \<open>\<open>look n\<close> is what the \<open>n\<close>-th look at the cancel event sees. Samples are submitted until one look
  finds it set.\<close>

fun submitted :: "(nat \<Rightarrow> bool) \<Rightarrow> nat \<Rightarrow> 'c list \<Rightarrow> 'c list \<times> nat" where
  "submitted look n [] = ([], n)"
| "submitted look n (c # cs) =
     (if look n then ([], Suc n) else (case submitted look (Suc n) cs of (xs, m) \<Rightarrow> (c # xs, m)))"

datatype ('a, 'r) eval_outcome =
    Finished 'a nat "'r option"
  | Stopped "'r option"                    \<comment> \<open>cancelled\<close>
  | Crashed py_exc "'r option"

text \<open>The results, in the order in which the samples finish\<close>

fun collect_results ::
  "'r kv \<Rightarrow> 'r sets \<Rightarrow> (gold_case \<Rightarrow> sample_result py) \<Rightarrow> (nat \<Rightarrow> bool) \<Rightarrow> string \<Rightarrow> nat \<Rightarrow> string \<Rightarrow> nat
    \<Rightarrow> nat \<Rightarrow> gold_case list \<Rightarrow> tally \<Rightarrow> 'r option \<Rightarrow> (tally, 'r) eval_outcome" where
  "collect_results K S sample look tid cfg_idx cfg_name n_cases n [] t st = Finished t n st"
| "collect_results K S sample look tid cfg_idx cfg_name n_cases n (c # cs) t st =
     (if look n then Stopped st
      else (case sample c of
          Inl e \<Rightarrow> Crashed e st
        | Inr r \<Rightarrow>
            let t = add_sample c r t
            in (case update_progress K S tid cfg_idx cfg_name n_cases t st of
                  Inl e \<Rightarrow> Crashed e st
                | Inr st \<Rightarrow> collect_results K S sample look tid cfg_idx cfg_name n_cases (Suc n) cs t st)))"

record diff_summary =
  dy_total :: nat
  dy_passed :: nat
  dy_ex :: rat
  dy_avg_ves :: real
  dy_avg_tokens :: int
  dy_avg_time :: rat

record config_result =
  cr_config :: eval_config
  cr_case_results :: "sample_result list"
  cr_passed :: nat
  cr_total :: nat
  cr_ex_rate :: rat
  cr_avg_ves :: real
  cr_avg_time_s :: rat
  cr_total_tokens :: usage
  cr_avg_tokens :: int
  cr_diff_summary :: "(string \<times> diff_summary) list"

definition summarize_diff :: "tally \<Rightarrow> (string \<times> diff_summary) list" where
  "summarize_diff t =
     concat (map (\<lambda>d. let x = stats_of d t; n = of_nat (ds_total x) in
         if ds_total x = 0 then []
         else [(d, \<lparr>dy_total = ds_total x, dy_passed = ds_passed x, dy_ex = of_nat (ds_passed x) / n,
             dy_avg_ves = ds_ves_sum x / of_nat (ds_total x), dy_avg_tokens = round_half_even (of_int (ds_tokens x) / n),
             dy_avg_time = round_dec 1 (ds_time x / n)\<rparr>)])
       [''simple'', ''moderate'', ''challenging''])"

text \<open>Division by zero is zero here, as in the code, which asks for \<open>n_cases\<close> first.\<close>

definition config_summary :: "eval_config \<Rightarrow> nat \<Rightarrow> tally \<Rightarrow> config_result" where
  "config_summary cfg n_cases t =
     \<lparr>cr_config = cfg, cr_case_results = sort_key sm_id (ta_results t), cr_passed = ta_passed t, cr_total = n_cases,
      cr_ex_rate = of_nat (ta_passed t) / of_nat n_cases, cr_avg_ves = round4 (ta_ves t / of_nat n_cases),
      cr_avg_time_s = round_dec 1 (ta_time t / of_nat n_cases), cr_total_tokens = ta_tokens t,
      cr_avg_tokens = round_half_even (of_int (usage_get (ta_tokens t) ''total'') / of_nat n_cases),
      cr_diff_summary = summarize_diff t\<rparr>"

subsection \<open>The evaluation\<close>

text \<open>\<open>order i\<close> is the order in which the samples of configuration \<open>i\<close> finish.\<close>

fun run_configs ::
  "'r kv \<Rightarrow> 'r sets \<Rightarrow> (eval_config \<Rightarrow> gold_case \<Rightarrow> sample_result py) \<Rightarrow> (nat \<Rightarrow> gold_case list \<Rightarrow> gold_case list)
    \<Rightarrow> (nat \<Rightarrow> bool) \<Rightarrow> string \<Rightarrow> gold_case list \<Rightarrow> nat \<Rightarrow> nat \<Rightarrow> eval_config list \<Rightarrow> (string \<times> config_result) list \<Rightarrow> 'r option
    \<Rightarrow> ((string \<times> config_result) list, 'r) eval_outcome" where
  "run_configs K S sample order look tid cases cfg_idx n [] results st = Finished results n st"
| "run_configs K S sample order look tid cases cfg_idx n (cfg # cfgs) results st =
     (if look n then Stopped st
      else case submitted look (Suc n) cases of (xs, n1) \<Rightarrow>
        (case collect_results K S (sample cfg) look tid cfg_idx (cg_name cfg) (length cases) n1 (order cfg_idx xs) empty_tally st of
           Finished t n2 st \<Rightarrow> run_configs K S sample order look tid cases (Suc cfg_idx) n2 cfgs
             (AList.update (cg_name cfg) (config_summary cfg (length cases) t) results) st
         | Stopped st \<Rightarrow> Stopped st
         | Crashed e st \<Rightarrow> Crashed e st))"

text \<open>Loading a task, changing it and storing it again; an exception of the load is passed on.\<close>

definition change_task :: "'r kv \<Rightarrow> 'r sets \<Rightarrow> string \<Rightarrow> (task_progress \<Rightarrow> task_progress) \<Rightarrow> 'r option \<Rightarrow> 'r option py" where
  "change_task K S tid f st =
     py_bind (load_task K tid st) (\<lambda>loaded. Inr (case loaded of None \<Rightarrow> st | Some p \<Rightarrow> save_task K S (f p) st))"

definition finish_task :: "'r kv \<Rightarrow> 'r sets \<Rightarrow> string \<Rightarrow> string \<Rightarrow> string \<Rightarrow> 'r option \<Rightarrow> 'r option py" where
  "finish_task K S now tid status = change_task K S tid (\<lambda>p. p\<lparr>tp_status := status, tp_completed_at := now\<rparr>)"

definition completed_task :: "string \<Rightarrow> string \<Rightarrow> (string \<times> config_result) list \<Rightarrow> task_progress \<Rightarrow> task_progress" where
  "completed_task now report_path results p = p\<lparr>tp_status := ''completed'', tp_completed_at := now, tp_report_dir := report_path,
     tp_overall_passed := int (sum_list (map (cr_passed \<circ> snd) results))\<rparr>"

definition failed_task :: "string \<Rightarrow> task_progress \<Rightarrow> task_progress" where
  "failed_task tb p = p\<lparr>tp_status := ''failed'', tp_error := rev (take 500 (rev tb))\<rparr>"

text \<open>\<open>tb\<close> is the text of the traceback, \<open>now\<close> the readings of the clock at start and end. \<open>report\<close> is
  \<open>_write_report\<close>: the path of the file it has written for the results, or the exception it raised (an
  \<open>OSError\<close>, say). An exception of the handler itself ends the thread and changes nothing.\<close>

definition run_eval_thread ::
  "'r kv \<Rightarrow> 'r sets \<Rightarrow> (eval_config \<Rightarrow> gold_case \<Rightarrow> sample_result py) \<Rightarrow> (nat \<Rightarrow> gold_case list \<Rightarrow> gold_case list)
    \<Rightarrow> (nat \<Rightarrow> bool) \<Rightarrow> (nat \<Rightarrow> string) \<Rightarrow> string \<Rightarrow> ((string \<times> config_result) list \<Rightarrow> string py) \<Rightarrow> string \<Rightarrow> gold_case list py
    \<Rightarrow> eval_config list \<Rightarrow> 'r option \<Rightarrow> 'r option" where
  "run_eval_thread K S sample order look now tb report tid gold configs st =
     (let crash = (\<lambda>st. case change_task K S tid (failed_task tb) st of Inl e \<Rightarrow> st | Inr st \<Rightarrow> st);
          or_crash = (\<lambda>st m. case m of Inl e \<Rightarrow> crash st | Inr st \<Rightarrow> st)
      in case load_task K tid st of
           Inl e \<Rightarrow> crash st
         | Inr None \<Rightarrow> st
         | Inr (Some p) \<Rightarrow>
             let st = save_task K S (p\<lparr>tp_status := ''running'', tp_started_at := now 0\<rparr>) st
             in (case gold of
                   Inl e \<Rightarrow> crash st
                 | Inr cases \<Rightarrow> (case run_configs K S sample order look tid cases 0 0 configs [] st of
                     Stopped st \<Rightarrow> or_crash st (finish_task K S (now 1) tid ''cancelled'' st)
                   | Crashed e st \<Rightarrow> crash st
                   | Finished results n st \<Rightarrow>
                       (case report results of
                          Inl e \<Rightarrow> crash st
                        | Inr report_path \<Rightarrow> or_crash st (change_task K S tid (completed_task (now 1) report_path results) st)))))"

subsection \<open>Starting and cancelling\<close>

record 'r eval_world =
  ew_store :: "'r option"
  ew_active :: "(string \<times> bool) list"     \<comment> \<open>the cancel event of each active task\<close>

definition is_task_running :: "'r eval_world \<Rightarrow> bool" where
  "is_task_running w \<longleftrightarrow> (\<exists>(tid, evt)\<in>set (ew_active w). \<not> evt)"

definition cancel_task :: "string \<Rightarrow> 'r eval_world \<Rightarrow> bool \<times> 'r eval_world" where
  "cancel_task tid w =
     (case map_of (ew_active w) tid of
        None \<Rightarrow> (False, w)
      | Some evt \<Rightarrow> (True, w\<lparr>ew_active := AList.update tid True (ew_active w)\<rparr>))"

definition fresh_progress :: "string \<Rightarrow> string \<Rightarrow> nat \<Rightarrow> eval_config list \<Rightarrow> string \<Rightarrow> string \<Rightarrow> task_progress" where
  "fresh_progress task_id experiment n_cases configs created_at database_url =
     \<lparr>tp_task_id = task_id, tp_status = ''pending'', tp_experiment = experiment,
      tp_configs = map (\<lambda>cfg. \<lparr>ce_name = cg_name cfg, ce_total = int n_cases, ce_completed = 0, ce_passed = 0\<rparr>) configs,
      tp_current_config = [], tp_current_sample = 0, tp_total_configs = int (length configs),
      tp_total_samples = int (n_cases * length configs), tp_overall_completed = 0, tp_overall_passed = 0,
      tp_created_at = created_at, tp_started_at = [], tp_completed_at = [], tp_report_dir = [], tp_error = [],
      tp_database_url = database_url\<rparr>"

text \<open>The identifier of the task, and whether a thread has been started for it. \<open>url\<close> is
  \<open>database_url or Config.DATABASE_URL\<close>.\<close>

definition start_eval_task ::
  "'r kv \<Rightarrow> 'r sets \<Rightarrow> string \<Rightarrow> string \<Rightarrow> string \<Rightarrow> string py \<Rightarrow> eval_config list \<Rightarrow> string \<Rightarrow> 'r eval_world
    \<Rightarrow> (string \<times> bool \<times> 'r eval_world) py" where
  "start_eval_task K S new_id now url gold_text configs experiment w =
     (case find (\<lambda>(tid, evt). \<not> evt) (ew_active w) of
        Some (tid, evt) \<Rightarrow> Inr (tid, False, w)
      | None \<Rightarrow>
          py_bind (py_bind gold_text load_gold) (\<lambda>cases.
            let p = fresh_progress new_id experiment (length cases) configs now url
            in Inr (new_id, True, w\<lparr>ew_store := save_task K S p (ew_store w),
                 ew_active := AList.update new_id False (ew_active w)\<rparr>)))"

definition thread_ends :: "string \<Rightarrow> 'r eval_world \<Rightarrow> 'r eval_world" where
  "thread_ends tid w = w\<lparr>ew_active := AList.delete tid (ew_active w)\<rparr>"

text \<open>While no evaluation is cancelled at most one thread runs; a cancelled one no longer counts,
  although its thread goes on until it looks at the event.\<close>

lemma second_start_refused:
  assumes "is_task_running w"
  shows "\<exists>tid. start_eval_task K S new_id now url gold_text configs experiment w = Inr (tid, False, w)"
proof -
  obtain x where "find (\<lambda>(tid, evt). \<not> evt) (ew_active w) = Some x"
    using assms by (cases "find (\<lambda>(tid, evt). \<not> evt) (ew_active w)") (auto simp: is_task_running_def find_None_iff)
  then show ?thesis by (cases x) (simp add: start_eval_task_def)
qed

lemma start_after_cancel:
  assumes "ew_active w = [(tid, False)]" and "gold_text = Inr t" and "load_gold t = Inr cases" and "new_id \<noteq> tid"
  shows "\<exists>w'. start_eval_task K S new_id now url gold_text configs experiment (snd (cancel_task tid w)) = Inr (new_id, True, w')
    \<and> ew_active w' = [(tid, True), (new_id, False)]"
  using assms by (simp add: start_eval_task_def cancel_task_def Let_def)

subsection \<open>Progress of a run\<close>

definition passes :: "(gold_case \<Rightarrow> sample_result py) \<Rightarrow> gold_case \<Rightarrow> bool" where
  "passes sample c = py_ok sm_ex (sample c)"

lemma add_sample_counts [simp]:
  "ta_completed (add_sample c r t) = ta_completed t + 1"
  "ta_passed (add_sample c r t) = ta_passed t + (if sm_ex r then 1 else 0)"
  by (simp_all add: add_sample_def Let_def)

lemma progress_at_again [simp]: "progress_at i nm n t' (progress_at i nm n t p) = progress_at i nm n t' p"
  by (simp add: progress_at_def)

lemma progress_at_task_id [simp]: "tp_task_id (progress_at i nm n t p) = tp_task_id p"
  by (simp add: progress_at_def)

lemma submitted_all: "(\<And>n. \<not> look n) \<Longrightarrow> submitted look n cs = (cs, n + length cs)"
  by (induction cs arbitrary: n) simp_all

lemma submitted_cut: "submitted look n cs = (xs, m) \<Longrightarrow> xs = cs \<or> look (m - 1) \<and> n < m \<and> length xs < length cs"
proof (induction cs arbitrary: n xs m)
  case (Cons c cs)
  show ?case
  proof (cases "look n")
    case False
    then obtain ys where y: "submitted look (Suc n) cs = (ys, m)" "xs = c # ys" using Cons.prems by (auto split: prod.splits)
    then show ?thesis using Cons.IH [OF y(1)] by auto
  qed (use Cons.prems in auto)
qed simp

lemma submitted_subset: "submitted look n cs = (xs, m) \<Longrightarrow> set xs \<subseteq> set cs"
  by (induction cs arbitrary: n xs m) (fastforce split: if_splits prod.splits)+

lemma submitted_mono: "submitted look n cs = (xs, m) \<Longrightarrow> n \<le> m"
  by (induction cs arbitrary: n xs m) (fastforce split: if_splits prod.splits)+

text \<open>The stored progress of a task\<close>

definition stored :: "'r kv \<Rightarrow> string \<Rightarrow> task_progress \<Rightarrow> 'r option \<Rightarrow> bool" where
  "stored K tid p st \<longleftrightarrow> st \<noteq> None \<and> tp_task_id p = tid \<and> load_task K tid st = Inr (Some p)"

fun outcome_store :: "('a, 'r) eval_outcome \<Rightarrow> 'r option" where
  "outcome_store (Finished x n st) = st"
| "outcome_store (Stopped st) = st"
| "outcome_store (Crashed e st) = st"

text \<open>A tally after some of the samples of a configuration\<close>

definition partial_tally :: "tally \<Rightarrow> nat \<Rightarrow> tally \<Rightarrow> bool" where
  "partial_tally t k t' \<longleftrightarrow> ta_completed t \<le> ta_completed t' \<and> ta_completed t' \<le> ta_completed t + k
     \<and> ta_passed t' \<le> ta_passed t + (ta_completed t' - ta_completed t)"

lemma partial_tally_self [simp]: "partial_tally t k t"
  by (simp add: partial_tally_def)

lemma partial_tally_step: "partial_tally (add_sample c r t) k t' \<Longrightarrow> partial_tally t (Suc k) t'"
  by (auto simp: partial_tally_def split: if_splits)

context set_store
begin

lemma stored_save: "st \<noteq> None \<Longrightarrow> tp_task_id p = tid \<Longrightarrow> stored K tid p (save_task K S p st)"
  by (cases st) (auto simp: stored_def load_saved, simp_all add: save_task_def)

lemma stored_change: "stored K tid p st \<Longrightarrow> tp_task_id (f p) = tid \<Longrightarrow> \<exists>st'. change_task K S tid f st = Inr st' \<and> stored K tid (f p) st'"
  by (simp add: change_task_def stored_def [of _ _ _ st] stored_save)

lemma update_change: "update_progress K S tid i nm n t = change_task K S tid (progress_at i nm n t)"
  by (simp add: fun_eq_iff update_progress_def change_task_def)

lemma self_progress:
  "stored K tid p st \<Longrightarrow> p = p0 \<or> p = progress_at i nm nc t p0 \<Longrightarrow>
     \<exists>q. stored K tid q st \<and> (q = p0 \<or> (\<exists>t'. q = progress_at i nm nc t' p0 \<and> partial_tally t k t'))"
  by (intro exI [of _ p] conjI) (blast intro: partial_tally_self)+

lemma collect_spec:
  assumes "stored K tid p st" and "p = p0 \<or> p = progress_at i nm nc t p0" and "tp_task_id p0 = tid"
    and "collect_results K S sample look tid i nm nc n cs t st = out"
  shows "(\<exists>q. stored K tid q (outcome_store out) \<and> (q = p0 \<or> (\<exists>t'. q = progress_at i nm nc t' p0 \<and> partial_tally t (length cs) t')))
    \<and> (case out of
         Finished t' m st' \<Rightarrow> m = n + length cs \<and> (\<forall>c\<in>set cs. \<exists>r. sample c = Inr r) \<and> (\<forall>j<length cs. \<not> look (n + j))
           \<and> ta_completed t' = ta_completed t + length cs \<and> ta_passed t' = ta_passed t + length (filter (passes sample) cs)
           \<and> stored K tid (if cs = [] then p else progress_at i nm nc t' p0) st' \<and> (cs = [] \<longrightarrow> t' = t)
       | Stopped st' \<Rightarrow> (\<exists>m. look m)
       | Crashed e st' \<Rightarrow> (\<exists>c\<in>set cs. \<exists>e. sample c = Inl e))"
  using assms
proof (induction cs arbitrary: n t p st)
  case Nil
  then have out: "out = Finished t n st" by simp
  show ?case using Nil(1) self_progress [OF Nil(1,2), of 0] by (simp add: out)
next
  case (Cons c cs)
  show ?case
  proof (cases "look n")
    case True
    then show ?thesis using Cons.prems(4) self_progress [OF Cons.prems(1,2), of "length (c # cs)"] by auto
  next
    case nl: False
    show ?thesis
    proof (cases "sample c")
      case (Inl e)
      then show ?thesis using Cons.prems(4) nl self_progress [OF Cons.prems(1,2), of "length (c # cs)"] by auto
    next
      case (Inr r)
      let ?t = "add_sample c r t"
      have tid: "tp_task_id p = tid" using Cons.prems(1) by (simp add: stored_def)
      have pp: "progress_at i nm nc ?t p = progress_at i nm nc ?t p0" using Cons.prems(2) by auto
      then obtain st' where u: "update_progress K S tid i nm nc ?t st = Inr st'" "stored K tid (progress_at i nm nc ?t p0) st'"
        using stored_change [OF Cons.prems(1), of "progress_at i nm nc ?t"] tid Cons.prems(3) unfolding update_change by auto
      have o: "collect_results K S sample look tid i nm nc (Suc n) cs ?t st' = out"
        using Cons.prems(4) nl Inr u(1) by (simp add: Let_def)
      note ih = Cons.IH [OF u(2) disjI2 [OF refl] Cons.prems(3) o]
      show ?thesis
      proof
        from ih obtain q where "stored K tid q (outcome_store out)"
          "q = p0 \<or> (\<exists>t'. q = progress_at i nm nc t' p0 \<and> partial_tally ?t (length cs) t')" by blast
        then show "\<exists>q. stored K tid q (outcome_store out)
            \<and> (q = p0 \<or> (\<exists>t'. q = progress_at i nm nc t' p0 \<and> partial_tally t (length (c # cs)) t'))"
          using partial_tally_step by (metis length_Cons)
      next
        have look_all: "(\<forall>j<length (c # cs). \<not> look (n + j)) \<longleftrightarrow> \<not> look n \<and> (\<forall>j<length cs. \<not> look (Suc n + j))"
          by (auto simp: less_Suc_eq_0_disj)
        from ih show "case out of
             Finished t' m st' \<Rightarrow> m = n + length (c # cs) \<and> (\<forall>c\<in>set (c # cs). \<exists>r. sample c = Inr r) \<and> (\<forall>j<length (c # cs). \<not> look (n + j))
               \<and> ta_completed t' = ta_completed t + length (c # cs) \<and> ta_passed t' = ta_passed t + length (filter (passes sample) (c # cs))
               \<and> stored K tid (if c # cs = [] then p else progress_at i nm nc t' p0) st' \<and> (c # cs = [] \<longrightarrow> t' = t)
           | Stopped st' \<Rightarrow> (\<exists>m. look m)
           | Crashed e st' \<Rightarrow> (\<exists>c\<in>set (c # cs). \<exists>e. sample c = Inl e)"
          unfolding look_all using Inr nl by (cases out) (auto simp: passes_def py_ok_def split: if_splits)
      qed
    qed
  qed
qed

end

text \<open>Before configuration \<open>i\<close>: the entries \<open>es\<close> of the earlier ones are complete, the others \<open>fs\<close> untouched.\<close>

definition entry_done :: "nat \<Rightarrow> config_entry \<Rightarrow> bool" where
  "entry_done n e \<longleftrightarrow> ce_total e = int n \<and> ce_completed e = int n \<and> 0 \<le> ce_passed e \<and> ce_passed e \<le> int n"

definition entry_fresh :: "nat \<Rightarrow> config_entry \<Rightarrow> bool" where
  "entry_fresh n e \<longleftrightarrow> ce_total e = int n \<and> ce_completed e = 0 \<and> ce_passed e = 0"

definition ready :: "nat \<Rightarrow> config_entry list \<Rightarrow> config_entry list \<Rightarrow> task_progress \<Rightarrow> bool" where
  "ready n es fs p \<longleftrightarrow> tp_configs p = es @ fs \<and> list_all (entry_done n) es \<and> list_all (entry_fresh n) fs
     \<and> tp_overall_completed p = int (length es * n) \<and> tp_overall_passed p = sum_list (map ce_passed es)"

definition entry_ok :: "config_entry \<Rightarrow> bool" where
  "entry_ok e \<longleftrightarrow> 0 \<le> ce_passed e \<and> ce_passed e \<le> ce_completed e \<and> ce_completed e \<le> ce_total e"

definition consistent :: "task_progress \<Rightarrow> bool" where
  "consistent p \<longleftrightarrow> list_all entry_ok (tp_configs p)
     \<and> tp_overall_completed p = sum_list (map ce_completed (tp_configs p))
     \<and> tp_overall_passed p = sum_list (map ce_passed (tp_configs p))"

lemma sums_done: "list_all (entry_done n) es \<Longrightarrow> sum_list (map ce_completed es) = int (length es * n)"
  by (induction es) (auto simp: entry_done_def algebra_simps)

lemma sums_fresh: "list_all (entry_fresh n) fs \<Longrightarrow> sum_list (map ce_completed fs) = 0 \<and> sum_list (map ce_passed fs) = 0"
  by (induction fs) (auto simp: entry_fresh_def)

lemma done_ok: "list_all (entry_done n) es \<Longrightarrow> list_all entry_ok es"
  by (induction es) (auto simp: entry_done_def entry_ok_def)

lemma fresh_ok: "list_all (entry_fresh n) es \<Longrightarrow> list_all entry_ok es"
  by (induction es) (auto simp: entry_fresh_def entry_ok_def)

lemma ready_consistent: "ready n es fs p \<Longrightarrow> consistent p"
  using sums_done [of n es] sums_fresh [of n fs] done_ok fresh_ok by (auto simp: ready_def consistent_def)

lemma progress_configs:
  "tp_configs p = es @ f # fs \<Longrightarrow> tp_configs (progress_at (length es) nm n t p)
     = es @ f\<lparr>ce_completed := int (ta_completed t), ce_passed := int (ta_passed t)\<rparr> # fs"
  by (simp add: progress_at_def)

lemma progress_consistent:
  assumes "ready n es (f # fs) p" and "ta_passed t \<le> ta_completed t" and "ta_completed t \<le> n"
  shows "consistent (progress_at (length es) nm n t p)"
  using assms sums_done [of n es] sums_fresh [of n fs] done_ok [of n es] fresh_ok [of n fs]
  by (simp add: ready_def consistent_def progress_configs entry_fresh_def entry_ok_def) (simp add: progress_at_def)

lemma progress_ready:
  assumes "ready n es (f # fs) p" and "ta_passed t \<le> n" and "ta_completed t = n"
  shows "ready n (es @ [f\<lparr>ce_completed := int (ta_completed t), ce_passed := int (ta_passed t)\<rparr>]) fs (progress_at (length es) nm n t p)"
  using assms
  by (simp add: ready_def progress_configs entry_fresh_def entry_done_def) (simp add: progress_at_def algebra_simps)

text \<open>What a run never changes\<close>

definition same_task :: "task_progress \<Rightarrow> task_progress \<Rightarrow> bool" where
  "same_task p q \<longleftrightarrow> tp_task_id q = tp_task_id p \<and> map ce_name (tp_configs q) = map ce_name (tp_configs p)
     \<and> tp_total_samples q = tp_total_samples p \<and> tp_created_at q = tp_created_at p \<and> tp_started_at q = tp_started_at p
     \<and> tp_completed_at q = tp_completed_at p \<and> tp_status q = tp_status p"

lemma same_task_trans: "same_task p q \<Longrightarrow> same_task q q' \<Longrightarrow> same_task p q'"
  by (simp add: same_task_def)

lemma same_task_refl [simp]: "same_task p p"
  by (simp add: same_task_def)

lemma same_task_progress [simp]: "same_task p (progress_at i nm n t p)"
  by (auto simp: same_task_def progress_at_def list_eq_iff_nth_eq nth_list_update)

definition passed_sum :: "(string \<times> config_result) list \<Rightarrow> int" where
  "passed_sum results = int (sum_list (map (cr_passed \<circ> snd) results))"

lemma passed_sum_update: "nm \<notin> fst ` set results \<Longrightarrow> passed_sum (AList.update nm x results) = passed_sum results + int (cr_passed x)"
  by (induction results) (auto simp: passed_sum_def)

text \<open>What a run of the configurations \<open>cfgs\<close> ends with\<close>

definition run_result ::
  "'r kv \<Rightarrow> string \<Rightarrow> (eval_config \<Rightarrow> gold_case \<Rightarrow> sample_result py) \<Rightarrow> (nat \<Rightarrow> bool) \<Rightarrow> gold_case list \<Rightarrow> config_entry list
    \<Rightarrow> eval_config list \<Rightarrow> task_progress \<Rightarrow> ((string \<times> config_result) list, 'r) eval_outcome \<Rightarrow> bool" where
  "run_result K tid sample look cases es cfgs p out \<longleftrightarrow>
     (\<exists>q. stored K tid q (outcome_store out) \<and> consistent q \<and> same_task p q
      \<and> (case out of
           Finished results m st \<Rightarrow> passed_sum results = tp_overall_passed q
             \<and> ((\<forall>j. \<not> look j) \<longrightarrow> (\<forall>cfg\<in>set cfgs. \<forall>c\<in>set cases. \<exists>r. sample cfg c = Inr r)
                  \<and> list_all (entry_done (length cases)) (tp_configs q)
                  \<and> map ce_passed (tp_configs q) = map ce_passed es @ map (\<lambda>cfg. int (length (filter (passes (sample cfg)) cases))) cfgs)
         | Stopped st \<Rightarrow> (\<exists>j. look j)
         | Crashed e st \<Rightarrow> (\<exists>cfg\<in>set cfgs. \<exists>c\<in>set cases. \<exists>e. sample cfg c = Inl e)))"

lemma run_result_later:
  assumes "run_result K tid sample look cases (es @ [f]) cfgs q out" and "same_task p q"
    and "\<forall>c\<in>set cases. \<exists>r. sample cfg c = Inr r"
    and "ce_passed f = int (length (filter (passes (sample cfg)) cases))"
  shows "run_result K tid sample look cases es (cfg # cfgs) p out"
proof -
  from assms(1) obtain q' where q': "stored K tid q' (outcome_store out)" "consistent q'" "same_task q q'"
    "case out of
       Finished results m st \<Rightarrow> passed_sum results = tp_overall_passed q'
         \<and> ((\<forall>j. \<not> look j) \<longrightarrow> (\<forall>cfg\<in>set cfgs. \<forall>c\<in>set cases. \<exists>r. sample cfg c = Inr r)
              \<and> list_all (entry_done (length cases)) (tp_configs q')
              \<and> map ce_passed (tp_configs q') = map ce_passed (es @ [f]) @ map (\<lambda>cfg. int (length (filter (passes (sample cfg)) cases))) cfgs)
     | Stopped st \<Rightarrow> (\<exists>j. look j)
     | Crashed e st \<Rightarrow> (\<exists>cfg\<in>set cfgs. \<exists>c\<in>set cases. \<exists>e. sample cfg c = Inl e)"
    unfolding run_result_def by blast
  have "same_task p q'" using same_task_trans [OF assms(2) q'(3)] .
  then show ?thesis unfolding run_result_def
    using q' assms(3,4) by (intro exI [of _ q']) (cases out; simp)
qed

lemma run_result_stopped:
  "stored K tid q st \<Longrightarrow> consistent q \<Longrightarrow> same_task p q \<Longrightarrow> look j \<Longrightarrow> run_result K tid sample look cases es cfgs p (Stopped st)"
  unfolding run_result_def by (intro exI [of _ q]) auto

lemma run_result_late:
  "stored K tid q st \<Longrightarrow> consistent q \<Longrightarrow> same_task p q \<Longrightarrow> look j \<Longrightarrow> passed_sum results = tp_overall_passed q
    \<Longrightarrow> run_result K tid sample look cases es cfgs p (Finished results m st)"
  unfolding run_result_def by (intro exI [of _ q]) auto

lemma length_filter_perm: "mset xs = mset ys \<Longrightarrow> length (filter P xs) = length (filter P ys)"
  by (metis mset_filter size_mset)

context set_store
begin

lemma run_configs_spec:
  assumes "\<And>i xs. mset (order i xs) = mset xs" and "mono look"
    and "stored K tid p st" and "ready (length cases) es fs p" and "map ce_name fs = map cg_name cfgs"
    and "distinct (map cg_name cfgs)" and "fst ` set results \<inter> cg_name ` set cfgs = {}" and "passed_sum results = tp_overall_passed p"
    and "run_configs K S sample order look tid cases (length es) n cfgs results st = out"
  shows "run_result K tid sample look cases es cfgs p out"
  using assms(3-9)
proof (induction cfgs arbitrary: n es fs p st results)
  case Nil
  then have "fs = []" "out = Finished results n st" by simp_all
  then show ?case
    using Nil ready_consistent [of "length cases" es fs p] by (auto simp: run_result_def ready_def intro!: exI [of _ p])
next
  case (Cons cfg cfgs)
  let ?n = "length cases" and ?i = "length es"
  obtain f fs' where fs: "fs = f # fs'" "ce_name f = cg_name cfg" "map ce_name fs' = map cg_name cfgs"
    using Cons.prems(3) by (cases fs) auto
  have tid: "tp_task_id p = tid" using Cons.prems(1) by (simp add: stored_def)
  note cons = ready_consistent [OF Cons.prems(2)]
  show ?case
  proof (cases "look n")
    case True
    then have "out = Stopped st" using Cons.prems(7) by simp
    then show ?thesis using Cons.prems(1) cons True by (auto simp: run_result_def intro!: exI [of _ p])
  next
    case nl: False
    obtain xs n1 where xs: "submitted look (Suc n) cases = (xs, n1)" by fastforce
    obtain o1 where o1: "collect_results K S (sample cfg) look tid ?i (cg_name cfg) ?n n1 (order ?i xs) empty_tally st = o1" by blast
    have len: "length (order ?i xs) = length xs" "set (order ?i xs) = set xs" using assms(1) [of ?i xs] by (metis size_mset, metis set_mset_mset)
    have later: "look b" if "look a" "a \<le> b" for a b using monoD [OF assms(2) that(2)] that(1) by simp
    note spec = collect_spec [OF Cons.prems(1) disjI1 [OF refl] tid o1]
    obtain q where q: "stored K tid q (outcome_store o1)" "q = p \<or> (\<exists>t'. q = progress_at ?i (cg_name cfg) ?n t' p \<and> partial_tally empty_tally (length xs) t')"
      using spec len by auto
    have "length xs \<le> ?n" using submitted_cut [OF xs] by auto
    then have qc: "consistent q" "same_task p q"
      using q(2) cons progress_consistent [of ?n es f fs' p] Cons.prems(2) fs(1)
      by (auto simp: partial_tally_def empty_tally_def)
    show ?thesis
    proof (cases o1)
      case (Stopped st1)
      then have "out = Stopped st1" using Cons.prems(7) nl xs o1 by simp
      moreover obtain j where "look j" using spec Stopped by auto
      ultimately show ?thesis using q qc Stopped by (auto intro: run_result_stopped)
    next
      case (Crashed e st1)
      then have "out = Crashed e st1" using Cons.prems(7) nl xs o1 by simp
      moreover have "set xs \<subseteq> set cases" using submitted_subset [OF xs] .
      ultimately show ?thesis using q qc spec Crashed len unfolding run_result_def by (intro exI [of _ q]) auto
    next
      case (Finished t m st1)
      let ?res = "AList.update (cg_name cfg) (config_summary cfg ?n t) results"
      have run: "run_configs K S sample order look tid cases (Suc ?i) m cfgs ?res st1 = out"
        using Cons.prems(7) nl xs o1 Finished by simp
      have t: "m = n1 + length xs" "ta_completed t = length xs" "ta_passed t = length (filter (passes (sample cfg)) xs)"
        and samples: "\<forall>c\<in>set xs. \<exists>r. sample cfg c = Inr r" and looks: "\<forall>j<length xs. \<not> look (n1 + j)"
        and st1: "stored K tid (if xs = [] then p else progress_at ?i (cg_name cfg) ?n t p) st1"
        using spec Finished len length_filter_perm [OF assms(1) [of ?i xs]] by (auto simp: empty_tally_def)
      have res: "passed_sum ?res = tp_overall_passed p + int (ta_passed t)"
        using Cons.prems(5,6) by (subst passed_sum_update) (auto simp: config_summary_def)
      show ?thesis
      proof (cases "xs = cases")
        case True
        let ?f = "f\<lparr>ce_completed := int (ta_completed t), ce_passed := int (ta_passed t)\<rparr>"
        let ?q = "if cases = [] then p else progress_at ?i (cg_name cfg) ?n t p"
        have r: "ready ?n (es @ [?f]) fs' ?q"
        proof (cases "cases = []")
          case True
          then have "?f = f" using Cons.prems(2) fs(1) t \<open>xs = cases\<close> by (cases f) (simp add: ready_def entry_fresh_def)
          then show ?thesis using Cons.prems(2) fs(1) True by (simp add: ready_def entry_fresh_def entry_done_def)
        qed (use progress_ready [of ?n es f fs' p t "cg_name cfg"] Cons.prems(2) fs(1) t \<open>xs = cases\<close> in simp)
        then have sum: "passed_sum ?res = tp_overall_passed ?q"
          using res Cons.prems(2) by (simp add: ready_def)
        have "run_result K tid sample look cases (es @ [?f]) cfgs ?q out"
        proof (rule Cons.IH [OF _ r fs(3) _ _ sum])
          show "stored K tid ?q st1" using st1 True by simp
          show "distinct (map cg_name cfgs)" "fst ` set ?res \<inter> cg_name ` set cfgs = {}"
            using Cons.prems(4,5) by (auto simp: dom_update)
          show "run_configs K S sample order look tid cases (length (es @ [?f])) m cfgs ?res st1 = out" using run by simp
        qed
        then show ?thesis using samples t True by (rule_tac run_result_later [of _ _ _ _ _ _ ?f]) auto
      next
        case False
        then have cut: "look (n1 - 1)" using submitted_cut [OF xs] by blast
        then have lk: "look m" by (rule later) (simp add: t)
        have "xs = []"
        proof (rule ccontr)
          assume "xs \<noteq> []"
          then have "\<not> look (n1 + 0)" using looks by blast
          then show False using later [OF cut, of n1] by simp
        qed
        then have "stored K tid p st1" "passed_sum ?res = tp_overall_passed p" using st1 res t by simp_all
        then show ?thesis using run lk cons
          by (cases cfgs) (auto intro: run_result_stopped run_result_late)
      qed
    qed
  qed
qed

end

lemma fresh_ready: "ready (length cases) [] (tp_configs (fresh_progress tid ex (length cases) configs now url))
    (fresh_progress tid ex (length cases) configs now url)"
  by (simp add: ready_def fresh_progress_def entry_fresh_def list_all_iff)

text \<open>What the thread leaves in the store\<close>

definition eval_ends ::
  "(eval_config \<Rightarrow> gold_case \<Rightarrow> sample_result py) \<Rightarrow> ((string \<times> config_result) list \<Rightarrow> string py) \<Rightarrow> (nat \<Rightarrow> bool)
    \<Rightarrow> gold_case list \<Rightarrow> eval_config list \<Rightarrow> task_progress \<Rightarrow> bool" where
  "eval_ends sample report look cases configs q \<longleftrightarrow>
     tp_status q = ''cancelled'' \<and> (\<exists>j. look j)
   \<or> tp_status q = ''failed'' \<and> tp_completed_at q = [] \<and>
       ((\<exists>cfg\<in>set configs. \<exists>c\<in>set cases. \<exists>e. sample cfg c = Inl e) \<or> (\<exists>results e. report results = Inl e))
   \<or> tp_status q = ''completed'' \<and> ((\<forall>j. \<not> look j) \<longrightarrow>
       (\<forall>cfg\<in>set configs. \<forall>c\<in>set cases. \<exists>r. sample cfg c = Inr r)
       \<and> list_all (\<lambda>e. ce_completed e = ce_total e \<and> ce_total e = int (length cases)) (tp_configs q)
       \<and> map ce_passed (tp_configs q) = map (\<lambda>cfg. int (length (filter (passes (sample cfg)) cases))) configs)"

context set_store
begin

lemma thread_result:
  assumes "\<And>i xs. mset (order i xs) = mset xs" and "mono look"
    and "stored K tid (fresh_progress tid ex (length cases) configs created url) st" and "distinct (map cg_name configs)"
  shows "\<exists>q. stored K tid q (run_eval_thread K S sample order look now tb report tid (Inr cases) configs st)
    \<and> consistent q \<and> eval_ends sample report look cases configs q"
proof -
  let ?p = "fresh_progress tid ex (length cases) configs created url"
  let ?p1 = "?p\<lparr>tp_status := ''running'', tp_started_at := now 0\<rparr>"
  have p1: "stored K tid ?p1 (save_task K S ?p1 st)"
    using assms(3) by (intro stored_save) (simp_all add: stored_def fresh_progress_def)
  have "ready (length cases) [] (tp_configs ?p) ?p1" using fresh_ready [of cases tid ex configs created url] by (simp add: ready_def)
  moreover have "map ce_name (tp_configs ?p) = map cg_name configs" "passed_sum [] = tp_overall_passed ?p1"
    by (simp_all add: fresh_progress_def passed_sum_def)
  moreover obtain out where out: "run_configs K S sample order look tid cases (length ([] :: config_entry list)) 0 configs [] (save_task K S ?p1 st) = out"
    by blast
  ultimately have "run_result K tid sample look cases [] configs ?p1 out"
    using p1 by (intro run_configs_spec [OF assms(1,2)]) (use assms(4) in auto)
  then obtain q where q: "stored K tid q (outcome_store out)" "consistent q" "same_task ?p1 q"
    and o: "case out of
       Finished results m st \<Rightarrow> passed_sum results = tp_overall_passed q
         \<and> ((\<forall>j. \<not> look j) \<longrightarrow> (\<forall>cfg\<in>set configs. \<forall>c\<in>set cases. \<exists>r. sample cfg c = Inr r)
              \<and> list_all (entry_done (length cases)) (tp_configs q)
              \<and> map ce_passed (tp_configs q) = map (\<lambda>cfg. int (length (filter (passes (sample cfg)) cases))) configs)
     | Stopped st \<Rightarrow> (\<exists>j. look j)
     | Crashed e st \<Rightarrow> (\<exists>cfg\<in>set configs. \<exists>c\<in>set cases. \<exists>e. sample cfg c = Inl e)"
    unfolding run_result_def list.map append_Nil by blast
  have tid: "tp_task_id q = tid" and c0: "tp_completed_at q = []" using q(3) by (simp_all add: same_task_def fresh_progress_def)
  have thread: "run_eval_thread K S sample order look now tb report tid (Inr cases) configs st =
      (let crash = (\<lambda>st. case change_task K S tid (failed_task tb) st of Inl e \<Rightarrow> st | Inr st \<Rightarrow> st);
           or_crash = (\<lambda>st m. case m of Inl e \<Rightarrow> crash st | Inr st \<Rightarrow> st)
       in case out of
           Stopped st \<Rightarrow> or_crash st (finish_task K S (now 1) tid ''cancelled'' st)
         | Crashed e st \<Rightarrow> crash st
         | Finished results n st \<Rightarrow> (case report results of
               Inl e \<Rightarrow> crash st
             | Inr path \<Rightarrow> or_crash st (change_task K S tid (completed_task (now 1) path results) st)))"
    using assms(3) out by (simp add: run_eval_thread_def stored_def Let_def)
  have crash: "\<exists>st2. change_task K S tid (failed_task tb) st1 = Inr st2 \<and> stored K tid (failed_task tb q) st2 \<and> consistent (failed_task tb q)"
    if "stored K tid q st1" for st1
    using stored_change [of tid q st1 "failed_task tb"] that tid q(2) by (auto simp: failed_task_def consistent_def)
  show ?thesis
  proof (cases out)
    case (Finished results m st1)
    show ?thesis
    proof (cases "report results")
      case (Inl e)
      obtain st2 where "change_task K S tid (failed_task tb) st1 = Inr st2" "stored K tid (failed_task tb q) st2" "consistent (failed_task tb q)"
        using crash [of st1] q(1) Finished by auto
      moreover have "eval_ends sample report look cases configs (failed_task tb q)"
        using c0 Inl by (auto simp: eval_ends_def failed_task_def)
      ultimately show ?thesis unfolding thread using Finished Inl by (auto simp: Let_def)
    next
      case (Inr path)
      obtain st2 where "change_task K S tid (completed_task (now 1) path results) st1 = Inr st2"
          "stored K tid (completed_task (now 1) path results q) st2"
        using stored_change [of tid q st1 "completed_task (now 1) path results"] q(1) Finished tid by (auto simp: completed_task_def)
      moreover have "consistent (completed_task (now 1) path results q)" using q(2) o Finished
        by (simp add: consistent_def completed_task_def passed_sum_def)
      moreover have "eval_ends sample report look cases configs (completed_task (now 1) path results q)"
        using o Finished by (auto simp: eval_ends_def completed_task_def list_all_iff entry_done_def)
      ultimately show ?thesis unfolding thread using Finished Inr by (auto simp: Let_def)
    qed
  next
    case (Stopped st1)
    let ?q = "q\<lparr>tp_status := ''cancelled'', tp_completed_at := now 1\<rparr>"
    obtain st2 where "finish_task K S (now 1) tid ''cancelled'' st1 = Inr st2" "stored K tid ?q st2"
      using stored_change [of tid q st1 "\<lambda>p. p\<lparr>tp_status := ''cancelled'', tp_completed_at := now 1\<rparr>"] q(1) Stopped tid
      by (auto simp: finish_task_def)
    moreover have "consistent ?q" "eval_ends sample report look cases configs ?q"
      using q(2) o Stopped by (simp_all add: consistent_def eval_ends_def)
    ultimately show ?thesis unfolding thread using Stopped by (auto simp: Let_def)
  next
    case (Crashed e st1)
    obtain st2 where "change_task K S tid (failed_task tb) st1 = Inr st2" "stored K tid (failed_task tb q) st2" "consistent (failed_task tb q)"
      using crash [of st1] q(1) Crashed by auto
    moreover have "eval_ends sample report look cases configs (failed_task tb q)"
      using o Crashed c0 by (simp add: eval_ends_def failed_task_def)
    ultimately show ?thesis unfolding thread using Crashed by (auto simp: Let_def)
  qed
qed

end

subsection \<open>Properties\<close>

lemma start_stores:
  assumes "set_store K wait S" and "ew_store w \<noteq> None"
    and "start_eval_task K S tid created url gold_text configs ex w = Inr (tid, True, w')"
  shows "\<exists>t cases. gold_text = Inr t \<and> load_gold t = Inr cases
    \<and> stored K tid (fresh_progress tid ex (length cases) configs created url) (ew_store w')"
  using assms(2,3) set_store.stored_save [OF assms(1)]
  by (auto simp: start_eval_task_def py_bind_Inr_iff Let_def fresh_progress_def split: option.splits)

text \<open>C22: An evaluation of configurations with distinct names that has been started ends, whatever the order in
  which its samples finish and whenever it is cancelled, in a consistent state: in every entry passed \<open>\<le>\<close>
  completed \<open>\<le>\<close> total, and the overall counts are the sums of the entries. It is cancelled only if that was
  requested, failed (without a time of completion) only if a sample raised or the report could not be
  written, and otherwise completed; a completed run that nobody cancelled has counted every sample and
  exactly those that match. The connection to the store is one that holds throughout.\<close>

theorem eval_run_ends:
  assumes "set_store K wait S" and "ew_store w \<noteq> None"
    and "start_eval_task K S tid created url gold_text configs ex w = Inr (tid, True, w')"
    and "py_bind gold_text load_gold = Inr lines" and "length lines = length cases"
    and "\<And>i xs. mset (order i xs) = mset xs" and "mono look" and "distinct (map cg_name configs)"
  shows "\<exists>q. load_task K tid (run_eval_thread K S sample order look now tb report tid (Inr cases) configs (ew_store w')) = Inr (Some q)
    \<and> consistent q \<and> eval_ends sample report look cases configs q"
proof -
  have st: "stored K tid (fresh_progress tid ex (length cases) configs created url) (ew_store w')"
    using start_stores [OF assms(1-3)] assms(4,5) by auto
  show ?thesis
    using set_store.thread_result [where order = order and look = look, OF assms(1) assms(6,7) st assms(8), where sample = sample and now = now and tb = tb and report = report]
    unfolding stored_def by blast
qed

text \<open>The reviewer of the older pipeline raises as soon as there is a query to review.\<close>

lemma reviewed_sample_raises:
  assumes "\<not> cg_use_full_graph cfg" and "cg_reviewer_on cfg"
    and "mini_start (ee_mini E) (eval_mini_request c cfg url) = Inr (samples, s)" and "ms_sql s \<noteq> []"
  shows "run_one_sample E c cfg url = Inl (PyExc ''KeyError'' bad_field)"
  using assms review_loop_raises
  by (simp add: run_one_sample_def eval_mini_def mini_run_def eval_mini_request_def MAX_REVIEW_ROUNDS_def numeral_2_eq_2
      del: review_loop.simps(2))

text \<open>An evaluation of the older pipeline with its reviewer on fails as soon as the model writes a query for
  one of the samples: nobody has to cancel it, and no other sample can save it.\<close>

theorem reviewed_evaluation_fails:
  assumes "set_store K wait S" and "stored K tid (fresh_progress tid ex (length cases) configs t0 url) st"
    and "\<And>i xs. mset (order i xs) = mset xs" and "distinct (map cg_name configs)"
    and "cfg \<in> set configs" and "\<not> cg_use_full_graph cfg" and "cg_reviewer_on cfg" and "c \<in> set cases"
    and "mini_start (ee_mini (E cfg c)) (eval_mini_request c cfg gdb_url) = Inr (samples, s)" and "ms_sql s \<noteq> []"
  shows "\<exists>q. load_task K tid (run_eval_thread K S (\<lambda>cfg c. run_one_sample (E cfg c) c cfg gdb_url) order (\<lambda>n. False) now tb report tid
      (Inr cases) configs st) = Inr (Some q) \<and> tp_status q = ''failed'' \<and> tp_completed_at q = []"
proof -
  let ?sample = "\<lambda>cfg c. run_one_sample (E cfg c) c cfg gdb_url"
  have "?sample cfg c = Inl (PyExc ''KeyError'' bad_field)" by (rule reviewed_sample_raises) (use assms in auto)
  moreover obtain q where q: "stored K tid q (run_eval_thread K S ?sample order (\<lambda>n. False) now tb report tid (Inr cases) configs st)"
    "eval_ends ?sample report (\<lambda>n. False) cases configs q"
    using set_store.thread_result [where order = order and look = "\<lambda>n. False", OF assms(1) assms(3) monoI assms(2,4), where sample = ?sample and now = now and tb = tb and report = report]
    by auto
  ultimately have "tp_status q = ''failed'' \<and> tp_completed_at q = []"
    using assms(5,8) unfolding eval_ends_def by fastforce
  then show ?thesis using q(1) by (auto simp: stored_def)
qed

definition demo_case :: "string \<Rightarrow> gold_case" where
  "demo_case i = \<lparr>gd_id = i, gd_question = ''How many users are there?'', gd_gold_sql = ''SELECT 1'', gd_difficulty = ''simple'', gd_type = ''?''\<rparr>"

definition demo_config :: eval_config where
  "demo_config = \<lparr>cg_name = ''R0'', cg_rag_schema = False, cg_rag_domain = False, cg_reviewer_on = True, cg_use_full_graph = False,
     cg_k = 6, cg_column_prune = False, cg_fewshot = False\<rparr>"

definition demo_sample :: "eval_config \<Rightarrow> gold_case \<Rightarrow> sample_result py" where
  "demo_sample cfg c = Inr \<lparr>sm_id = gd_id c, sm_question = gd_question c, sm_type = gd_type c, sm_difficulty = gd_difficulty c,
     sm_ex = (gd_id c = ''e1''), sm_ves = 0, sm_detail = [], sm_gen_sql = [], sm_gold_sql = [], sm_exec_attempts = 1, sm_review_rounds = 0,
     sm_time_s = 1, sm_usage = zero_usage, sm_gold_ms = 1, sm_gen_ms = 1, sm_recall = None\<rparr>"

definition demo_eval_world :: "redis set_db eval_world" where
  "demo_eval_world = \<lparr>ew_store = Some (redis_empty, []), ew_active = []\<rparr>"

lemma demo_gold: "load_gold (''1'' @ nl @ ''2'') = Inr [PInt 1, PInt 2]"
  by code_simp

theorem eval_run_ends_witness:
  "\<exists>w' q. start_eval_task demo_kv assoc_sets ''t1'' ''now'' ''url'' (Inr (''1'' @ nl @ ''2'')) [demo_config] ''x'' demo_eval_world = Inr (''t1'', True, w')
    \<and> load_task demo_kv ''t1'' (run_eval_thread demo_kv assoc_sets demo_sample (\<lambda>i. rev) (\<lambda>n. False) (\<lambda>n. ''later'') [] (\<lambda>r. Inr ''r.md'') ''t1''
        (Inr [demo_case ''e1'', demo_case ''e2'']) [demo_config] (ew_store w')) = Inr (Some q)
    \<and> tp_status q = ''completed'' \<and> map ce_passed (tp_configs q) = [1] \<and> tp_overall_passed q = 1"
proof -
  obtain w' where w': "start_eval_task demo_kv assoc_sets ''t1'' ''now'' ''url'' (Inr (''1'' @ nl @ ''2'')) [demo_config] ''x'' demo_eval_world
      = Inr (''t1'', True, w')"
    by (simp add: start_eval_task_def demo_eval_world_def demo_gold [simplified] Let_def)
  have "ew_store demo_eval_world \<noteq> None" by (simp add: demo_eval_world_def)
  from eval_run_ends [OF set_redis.set_store_axioms this w', of "[PInt 1, PInt 2]" "[demo_case ''e1'', demo_case ''e2'']" "\<lambda>i. rev" "\<lambda>n. False"
      demo_sample "\<lambda>n. ''later''" "[]" "\<lambda>r. Inr ''r.md''"]
  obtain q where q: "load_task demo_kv ''t1'' (run_eval_thread demo_kv assoc_sets demo_sample (\<lambda>i. rev) (\<lambda>n. False) (\<lambda>n. ''later'') [] (\<lambda>r. Inr ''r.md'') ''t1''
        (Inr [demo_case ''e1'', demo_case ''e2'']) [demo_config] (ew_store w')) = Inr (Some q)" "consistent q"
      "eval_ends demo_sample (\<lambda>r. Inr ''r.md'') (\<lambda>n. False) [demo_case ''e1'', demo_case ''e2''] [demo_config] q"
    using demo_gold by auto
  have "passes (demo_sample cfg) (demo_case i) \<longleftrightarrow> i = ''e1''" for cfg i
    by (simp add: passes_def py_ok_def demo_sample_def demo_case_def)
  then have "tp_status q = ''completed''" "map ce_passed (tp_configs q) = [1]"
    using q(3) by (auto simp: eval_ends_def demo_sample_def)
  moreover have "tp_overall_passed q = sum_list (map ce_passed (tp_configs q))" using q(2) by (simp add: consistent_def)
  ultimately show ?thesis using w' q(1) by auto
qed

definition demo_eval_env :: eval_env where
  "demo_eval_env = \<lparr>ee_mini = demo_mini, ee_nodes = (\<lambda>i. plain_env demo_llm), ee_sg = demo_sg demo_ast, ee_db = demo_db, ee_times = of_nat,
     ee_timed_out = False, ee_elapsed = 1\<rparr>"

theorem reviewed_evaluation_fails_witness:
  "\<exists>q. load_task demo_kv ''t1'' (run_eval_thread demo_kv assoc_sets (\<lambda>cfg c. run_one_sample demo_eval_env c cfg None) (\<lambda>i xs. xs) (\<lambda>n. False)
      (\<lambda>n. ''later'') [] (\<lambda>r. Inr ''r.md'') ''t1'' (Inr [demo_case ''e1'']) [demo_config]
      (save_task demo_kv assoc_sets (fresh_progress ''t1'' ''x'' 1 [demo_config] ''now'' ''url'') (Some (redis_empty, [])))) = Inr (Some q)
    \<and> tp_status q = ''failed''"
proof -
  have st: "stored demo_kv ''t1'' (fresh_progress ''t1'' ''x'' (length [demo_case ''e1'']) [demo_config] ''now'' ''url'')
      (save_task demo_kv assoc_sets (fresh_progress ''t1'' ''x'' 1 [demo_config] ''now'' ''url'') (Some (redis_empty, [])))"
    using set_redis.stored_save [of "Some (redis_empty, [])" "fresh_progress ''t1'' ''x'' 1 [demo_config] ''now'' ''url''" "''t1''"]
    by (simp add: fresh_progress_def)
  have "eval_mini_request (demo_case ''e1'') demo_config None = mini_question True"
    by (simp add: eval_mini_request_def demo_case_def demo_config_def mini_question_def)
  then obtain s where s: "mini_start (ee_mini demo_eval_env) (eval_mini_request (demo_case ''e1'') demo_config None) = Inr ([], s)" "ms_sql s = ''SELECT 1''"
    using demo_mini_start [of True] by (auto simp: demo_eval_env_def)
  have c: "distinct (map cg_name [demo_config])" "\<not> cg_use_full_graph demo_config" "cg_reviewer_on demo_config"
    by (simp_all add: demo_config_def)
  show ?thesis
    using reviewed_evaluation_fails [where order = "\<lambda>i xs. xs" and E = "\<lambda>cfg c. demo_eval_env", OF set_redis.set_store_axioms st refl c(1) _ c(2,3) _ s(1), of "\<lambda>n. ''later''" "[]" "\<lambda>r. Inr ''r.md''"] s(2)
    by auto
qed

end
