(* ===== verification/Middleware.thy ===== *)
theory Middleware
  imports Trace
begin

text \<open>
  \<open>api/middleware.py\<close>: what happens around every request, the log of its beginning and end and the limit
  on the requests of one client. The counters of Redis are an interface of their own: a number under a
  key that can be given a time to live.
\<close>

subsection \<open>Counters with expiry\<close>

record 'r counters =
  ct_incr :: "string \<Rightarrow> 'r \<Rightarrow> nat \<times> 'r"
  ct_expire :: "string \<Rightarrow> nat \<Rightarrow> 'r \<Rightarrow> 'r"

text \<open>\<open>cval\<close> is the value of a counter, 0 if there is none; \<open>left\<close> is its remaining time to live.\<close>

locale counter_store =
  fixes C :: "'r counters" and wait :: "nat \<Rightarrow> 'r \<Rightarrow> 'r" and cval :: "string \<Rightarrow> 'r \<Rightarrow> nat" and left :: "string \<Rightarrow> 'r \<Rightarrow> nat option"
  assumes incr_result: "fst (ct_incr C k r) = cval k r + 1"
    and cval_incr: "cval k (snd (ct_incr C k' r)) = (if k = k' then cval k r + 1 else cval k r)"
    and left_incr: "left k (snd (ct_incr C k' r)) = left k r"
    and cval_expire: "0 < t \<Longrightarrow> 0 < cval k' r \<Longrightarrow> cval k (ct_expire C k' t r) = cval k r"
    and left_expire: "0 < t \<Longrightarrow> 0 < cval k' r \<Longrightarrow> left k (ct_expire C k' t r) = (if k = k' then Some t else left k r)"
    and cval_wait: "cval k (wait n r) = (case left k r of Some t \<Rightarrow> if n < t then cval k r else 0 | None \<Rightarrow> cval k r)"
    and left_wait: "left k (wait n r) = (case left k r of Some t \<Rightarrow> if n < t then Some (t - n) else None | None \<Rightarrow> None)"

text \<open>A clock and, for each key, a value and perhaps a deadline\<close>

type_synonym counter_db = "nat \<times> (string \<times> nat \<times> nat option) list"

definition db_value :: "string \<Rightarrow> counter_db \<Rightarrow> nat" where
  "db_value k r = (case map_of (snd r) k of
       None \<Rightarrow> 0 | Some (c, None) \<Rightarrow> c | Some (c, Some dl) \<Rightarrow> if fst r < dl then c else 0)"

definition db_left :: "string \<Rightarrow> counter_db \<Rightarrow> nat option" where
  "db_left k r = (case map_of (snd r) k of
       Some (c, Some dl) \<Rightarrow> if fst r < dl then Some (dl - fst r) else None | _ \<Rightarrow> None)"

definition db_counters :: "counter_db counters" where
  "db_counters = \<lparr>ct_incr = (\<lambda>k r. (db_value k r + 1,
       (fst r, AList.update k (db_value k r + 1, map_option (\<lambda>t. fst r + t) (db_left k r)) (snd r)))),
     ct_expire = (\<lambda>k t r. (fst r, AList.update k (db_value k r, Some (fst r + t)) (snd r)))\<rparr>"

definition db_wait :: "nat \<Rightarrow> counter_db \<Rightarrow> counter_db" where
  "db_wait n r = (fst r + n, snd r)"

interpretation counters: counter_store db_counters db_wait db_value db_left
  by unfold_locales
    (auto simp: db_counters_def db_wait_def db_value_def db_left_def update_conv' split: option.splits)

subsection \<open>The rate limit\<close>

definition RATE_LIMIT_WINDOW :: nat where "RATE_LIMIT_WINDOW = 60"
definition RATE_LIMIT_MAX :: nat where "RATE_LIMIT_MAX = 100"

definition rate_key :: "string \<Rightarrow> string" where "rate_key client_ip = ''rate_limit:'' @ client_ip"

text \<open>Whether the request of a client is passed on; without Redis every request is.\<close>

definition rate_limit :: "'r counters \<Rightarrow> string \<Rightarrow> 'r option \<Rightarrow> bool \<times> 'r option" where
  "rate_limit C client_ip st =
     (case st of
        None \<Rightarrow> (True, None)
      | Some r \<Rightarrow>
          let (current, r) = ct_incr C (rate_key client_ip) r;
              r = (if current = 1 then ct_expire C (rate_key client_ip) RATE_LIMIT_WINDOW r else r)
          in (current \<le> RATE_LIMIT_MAX, Some r))"

text \<open>A sequence of requests, each with the seconds since the one before it; the result tells which of
  them are passed on.\<close>

fun admit :: "'r counters \<Rightarrow> (nat \<Rightarrow> 'r \<Rightarrow> 'r) \<Rightarrow> (nat \<times> string) list \<Rightarrow> 'r \<Rightarrow> bool list \<times> 'r" where
  "admit C wait [] r = ([], r)"
| "admit C wait ((delay, ip) # reqs) r =
     (case rate_limit C ip (Some (wait delay r)) of
        (ok, Some r') \<Rightarrow> (case admit C wait reqs r' of (oks, r'') \<Rightarrow> (ok # oks, r''))
      | (ok, None) \<Rightarrow> ([], r))"

definition admitted :: "string \<Rightarrow> (nat \<times> string) list \<Rightarrow> bool list \<Rightarrow> nat" where
  "admitted ip reqs oks = length (filter (\<lambda>((delay, ip'), ok). ip' = ip \<and> ok) (zip reqs oks))"

definition duration :: "(nat \<times> string) list \<Rightarrow> nat" where
  "duration reqs = sum_list (map fst reqs)"

lemma duration_simps [simp]: "duration [] = 0" "duration ((d, ip) # reqs) = d + duration reqs"
  by (simp_all add: duration_def)

lemma admitted_simps [simp]:
  "admitted ip [] oks = 0" "admitted ip ((d, ip') # reqs) (ok # oks) = (if ip' = ip \<and> ok then 1 else 0) + admitted ip reqs oks"
  by (simp_all add: admitted_def)

context counter_store
begin

text \<open>A counter either is not there or has a time to live within the window.\<close>

definition sound :: "string \<Rightarrow> 'r \<Rightarrow> bool" where
  "sound ip r \<longleftrightarrow> (case left (rate_key ip) r of
       None \<Rightarrow> cval (rate_key ip) r = 0
     | Some t \<Rightarrow> 1 \<le> cval (rate_key ip) r \<and> 0 < t \<and> t \<le> RATE_LIMIT_WINDOW)"

definition one :: "string \<Rightarrow> 'r \<Rightarrow> 'r" where
  "one ip r = (let r' = snd (ct_incr C (rate_key ip) r) in if cval (rate_key ip) r = 0 then ct_expire C (rate_key ip) RATE_LIMIT_WINDOW r' else r')"

lemma rate_key_inj [simp]: "rate_key a = rate_key b \<longleftrightarrow> a = b"
  by (simp add: rate_key_def)

lemma rate_limit_one: "rate_limit C ip (Some r) = (cval (rate_key ip) r < RATE_LIMIT_MAX, Some (one ip r))"
  by (simp add: rate_limit_def one_def Let_def case_prod_unfold incr_result Suc_le_eq)

lemma one_value: "cval (rate_key ip) (one ip' r) = (if ip = ip' then cval (rate_key ip) r + 1 else cval (rate_key ip) r)"
  by (simp add: one_def Let_def cval_incr cval_expire RATE_LIMIT_WINDOW_def)

lemma one_left: "left (rate_key ip) (one ip' r) =
    (if ip = ip' \<and> cval (rate_key ip) r = 0 then Some RATE_LIMIT_WINDOW else left (rate_key ip) r)"
  by (auto simp: one_def Let_def cval_incr left_incr left_expire RATE_LIMIT_WINDOW_def)

lemma sound_wait: "sound ip r \<Longrightarrow> sound ip (wait n r)"
  by (auto simp: sound_def left_wait cval_wait split: option.splits)

lemma sound_one: "sound ip r \<Longrightarrow> sound ip (one ip' r)"
  by (auto simp: sound_def one_left one_value RATE_LIMIT_WINDOW_def split: option.splits)

lemma sound_admit: "sound ip r \<Longrightarrow> admit C wait reqs r = (oks, r') \<Longrightarrow> sound ip r' \<and> length oks = length reqs"
proof (induction reqs arbitrary: r oks)
  case (Cons q reqs)
  obtain d ip' where q: "q = (d, ip')" by (cases q)
  obtain oks1 where "admit C wait reqs (one ip' (wait d r)) = (oks1, r')" "length oks = Suc (length oks1)"
    using Cons.prems(2) by (auto simp: q rate_limit_one split: prod.splits)
  then show ?case using Cons.IH [OF sound_one [OF sound_wait [OF Cons.prems(1)]]] by simp
qed simp

text \<open>As long as the window lasts, the counter only grows.\<close>

lemma same_window:
  assumes "admit C wait reqs r = (oks, r')" and "sound ip r" and "left (rate_key ip) r = Some t" and "duration reqs < t"
  shows "admitted ip reqs oks \<le> RATE_LIMIT_MAX - cval (rate_key ip) r"
  using assms
proof (induction reqs arbitrary: r oks t)
  case (Cons q reqs)
  obtain d ip' where q: "q = (d, ip')" by (cases q)
  let ?r = "one ip' (wait d r)"
  obtain oks1 where o: "admit C wait reqs ?r = (oks1, r')" "oks = (cval (rate_key ip') (wait d r) < RATE_LIMIT_MAX) # oks1"
    using Cons.prems(1) by (auto simp: q rate_limit_one split: prod.splits)
  have d: "d < t" "duration reqs < t - d" using Cons.prems(4) by (auto simp: q)
  have v: "cval (rate_key ip) (wait d r) = cval (rate_key ip) r" "1 \<le> cval (rate_key ip) r"
    using Cons.prems(2,3) d by (auto simp: cval_wait sound_def)
  have "left (rate_key ip) ?r = Some (t - d)" using Cons.prems(3) d v by (simp add: one_left left_wait)
  from Cons.IH [OF o(1) sound_one [OF sound_wait [OF Cons.prems(2)]] this d(2)]
  show ?case using v by (auto simp: q o(2) one_value split: if_splits)
qed simp

text \<open>In less than a window at most one counter ends.\<close>

lemma two_windows:
  assumes "admit C wait reqs r = (oks, r')" and "sound ip r" and "duration reqs < RATE_LIMIT_WINDOW"
  shows "admitted ip reqs oks \<le> (if left (rate_key ip) r = None then 0 else RATE_LIMIT_MAX - cval (rate_key ip) r) + RATE_LIMIT_MAX"
  using assms
proof (induction reqs arbitrary: r oks)
  case (Cons q reqs)
  obtain d ip' where q: "q = (d, ip')" by (cases q)
  let ?w = "wait d r" and ?r = "one ip' (wait d r)"
  obtain oks1 where o: "admit C wait reqs ?r = (oks1, r')" "oks = (cval (rate_key ip') ?w < RATE_LIMIT_MAX) # oks1"
    using Cons.prems(1) by (auto simp: q rate_limit_one split: prod.splits)
  have d: "duration reqs < RATE_LIMIT_WINDOW" "d < RATE_LIMIT_WINDOW" using Cons.prems(3) by (auto simp: q)
  note s = sound_wait [OF Cons.prems(2), of d]
  note ih = Cons.IH [OF o(1) sound_one [OF s] d(1)]
  show ?case
  proof (cases "ip' = ip \<and> left (rate_key ip) ?w = None")
    case True
    then have z: "cval (rate_key ip) ?w = 0" using s by (simp add: sound_def)
    then have "left (rate_key ip) ?r = Some RATE_LIMIT_WINDOW" using True by (simp add: one_left)
    from same_window [OF o(1) sound_one [OF s] this d(1)] have "admitted ip reqs oks1 \<le> RATE_LIMIT_MAX - 1"
      using True z by (simp add: one_value)
    then show ?thesis using True z by (simp add: q o(2) RATE_LIMIT_MAX_def)
  next
    case False
    have "(if left (rate_key ip) ?w = None then 0 else RATE_LIMIT_MAX - cval (rate_key ip) ?w)
        \<le> (if left (rate_key ip) r = None then 0 else RATE_LIMIT_MAX - cval (rate_key ip) r)"
      by (auto simp: left_wait cval_wait split: option.splits)
    then show ?thesis using ih False s
      by (auto simp: q o(2) one_left one_value sound_def split: if_splits option.splits)
  qed
qed simp

end

lemma admit_append: "admit C wait (xs @ ys) r = (case admit C wait xs r of (o1, r1) \<Rightarrow> case admit C wait ys r1 of (o2, r2) \<Rightarrow> (o1 @ o2, r2))"
  by (induction xs arbitrary: r) (auto simp: rate_limit_def Let_def split: prod.splits)

lemma admitted_append: "length xs = length o1 \<Longrightarrow> admitted ip (xs @ ys) (o1 @ o2) = admitted ip xs o1 + admitted ip ys o2"
  by (simp add: admitted_def)

context counter_store
begin

text \<open>A burst of requests within a window\<close>

lemma burst:
  assumes "left (rate_key ip) r = Some t" and "0 < t" and "1 \<le> cval (rate_key ip) r" and "cval (rate_key ip) r + n \<le> RATE_LIMIT_MAX"
  shows "\<exists>r'. admit C wait (replicate n (0, ip)) r = (replicate n True, r') \<and> left (rate_key ip) r' = Some t
    \<and> cval (rate_key ip) r' = cval (rate_key ip) r + n"
  using assms
proof (induction n arbitrary: r)
  case (Suc n)
  let ?r = "one ip (wait 0 r)"
  have v: "cval (rate_key ip) ?r = cval (rate_key ip) r + 1" "left (rate_key ip) ?r = Some t"
    using Suc.prems by (simp_all add: one_value one_left cval_wait left_wait)
  obtain r' where "admit C wait (replicate n (0, ip)) ?r = (replicate n True, r')" "left (rate_key ip) r' = Some t"
      "cval (rate_key ip) r' = cval (rate_key ip) ?r + n"
    using Suc.IH [of ?r] Suc.prems v by auto
  then show ?case using Suc.prems v by (simp add: rate_limit_one cval_wait)
qed simp

lemma admitted_burst: "admitted ip (replicate n (d, ip)) (replicate n True) = n"
  by (induction n) simp_all

text \<open>A window that is full, and the next one\<close>

lemma two_bursts:
  assumes "left (rate_key ip) r = Some 1" and "cval (rate_key ip) r = 1"
  shows "\<exists>oks r'. admit C wait (replicate 99 (0, ip) @ (1, ip) # replicate 99 (0, ip)) r = (oks, r')
    \<and> admitted ip (replicate 99 (0, ip) @ (1, ip) # replicate 99 (0, ip)) oks = 199"
proof -
  obtain r1 where 1: "admit C wait (replicate 99 (0, ip)) r = (replicate 99 True, r1)" "left (rate_key ip) r1 = Some 1"
    using burst [of ip r 1 99] assms by (auto simp: RATE_LIMIT_MAX_def)
  let ?r2 = "one ip (wait 1 r1)"
  have "left (rate_key ip) ?r2 = Some RATE_LIMIT_WINDOW" "cval (rate_key ip) ?r2 = 1" "cval (rate_key ip) (wait 1 r1) = 0"
    using 1(2) by (simp_all add: one_left one_value left_wait cval_wait)
  note two = this
  obtain r3 where "admit C wait (replicate 99 (0, ip)) ?r2 = (replicate 99 True, r3)"
    using burst [OF two(1), of 99] two(2) by (auto simp: RATE_LIMIT_MAX_def RATE_LIMIT_WINDOW_def)
  then have "admit C wait ((1, ip) # replicate 99 (0, ip)) r1 = (True # replicate 99 True, r3)"
    using two(3) by (simp only: admit.simps rate_limit_one RATE_LIMIT_MAX_def) simp
  then have "admit C wait (replicate 99 (0, ip) @ (1, ip) # replicate 99 (0, ip)) r = (replicate 99 True @ True # replicate 99 True, r3)"
    unfolding admit_append 1(1) by (simp only: prod.case)
  moreover have l: "length (replicate 99 (0 :: nat, ip)) = length (replicate 99 True)" by simp
  have "admitted ip (replicate 99 (0, ip) @ (1, ip) # replicate 99 (0, ip)) (replicate 99 True @ True # replicate 99 True) = 199"
    unfolding admitted_append [OF l] admitted_simps admitted_burst by simp
  ultimately show ?thesis by blast
qed

end

text \<open>C29: After any history of requests, of any clients, at most 199 requests of one client are admitted in any
  stretch of less than 60 seconds. The bound is attained (see the witness, in one second): the limit of
  100 holds for windows that begin with the first request after a pause, not for a window that slides.\<close>

theorem rate_limit_in_a_minute:
  assumes "counter_store C wait cval left" and "\<And>k. cval k r0 = 0 \<and> left k r0 = None"
    and "admit C wait earlier r0 = (oks0, r)" and "admit C wait reqs r = (oks, r')" and "duration reqs < RATE_LIMIT_WINDOW"
  shows "admitted ip reqs oks \<le> 199"
proof -
  note sound_def = counter_store.sound_def [OF assms(1)]
  have "counter_store.sound cval left ip r0" using assms(2) by (simp add: sound_def)
  then have s: "counter_store.sound cval left ip r" using counter_store.sound_admit [OF assms(1) _ assms(3)] by blast
  have "(if left (rate_key ip) r = None then 0 else RATE_LIMIT_MAX - cval (rate_key ip) r) \<le> 99"
    using s by (auto simp: sound_def RATE_LIMIT_MAX_def split: option.splits)
  then show ?thesis using counter_store.two_windows [OF assms(1,4) s assms(5)] by (simp add: RATE_LIMIT_MAX_def)
qed

definition busy_second :: "(nat \<times> string) list" where
  "busy_second = replicate 99 (0, ''a'') @ (1, ''a'') # replicate 99 (0, ''a'')"

theorem rate_limit_in_a_minute_witness:
  "case admit db_counters db_wait [(0, ''a''), (59, ''b'')] (0, []) of (oks0, r) \<Rightarrow>
     case admit db_counters db_wait busy_second r of (oks, r') \<Rightarrow>
       duration busy_second = 1 \<and> admitted ''a'' busy_second oks = 199 \<and> admitted ''b'' busy_second oks \<le> 199"
proof -
  obtain r where a: "admit db_counters db_wait [(0, ''a''), (59, ''b'')] (0, []) = ([True, True], r)"
    and v: "db_left (rate_key ''a'') r = Some 1" "db_value (rate_key ''a'') r = 1"
  proof -
    have "fst (admit db_counters db_wait [(0, ''a''), (59, ''b'')] (0, [])) = [True, True]"
      "db_left (rate_key ''a'') (snd (admit db_counters db_wait [(0, ''a''), (59, ''b'')] (0, []))) = Some 1"
      "db_value (rate_key ''a'') (snd (admit db_counters db_wait [(0, ''a''), (59, ''b'')] (0, []))) = 1"
      by code_simp+
    then show thesis using that by (metis prod.collapse)
  qed
  obtain oks r' where b: "admit db_counters db_wait busy_second r = (oks, r')" "admitted ''a'' busy_second oks = 199"
    using counters.two_bursts [OF v] unfolding busy_second_def by blast
  have d: "duration busy_second = 1" by (simp add: duration_def busy_second_def sum_list_replicate)
  have "admitted ''b'' busy_second oks \<le> 199"
    by (rule rate_limit_in_a_minute [OF counters.counter_store_axioms _ a b(1)]) (simp_all add: d db_value_def db_left_def RATE_LIMIT_WINDOW_def)
  then show ?thesis using a b d by simp
qed

subsection \<open>The request log\<close>

text \<open>\<open>call_next\<close> gives the status and the time the handler takes, or raises; then nothing marks the end.\<close>

definition logged_request ::
  "(nat \<Rightarrow> reading) \<Rightarrow> string option \<Rightarrow> string \<Rightarrow> string \<Rightarrow> string \<Rightarrow> string option \<Rightarrow> int py \<Rightarrow> tracer \<times> (int \<times> (string \<times> string) list) py" where
  "logged_request t header fresh http_method path client call_next =
     (let tid = (case header of Some h \<Rightarrow> h | None \<Rightarrow> take 12 fresh);
          client_ip = (case client of Some ip \<Rightarrow> ip | None \<Rightarrow> []);
          tlog = api_request (t 0) ''begin'' http_method path 0 0 client_ip (tracer_init (Some tid) fresh)
      in case call_next of
           Inl e \<Rightarrow> (tlog, Inl e)
         | Inr status \<Rightarrow>
             let ms = of_int (r_ms (t 2) - r_ms (t 1))
             in (api_request (t 2) ''end'' http_method path status ms [] tlog,
                 Inr (status, [(''X-Trace-ID'', tid), (''X-Elapsed-Ms'', show_float (round_dec 1 ms))])))"

lemma failed_request_has_no_end:
  "\<exists>ev. events (fst (logged_request t header fresh m path client (Inl e))) = [ev] \<and> d_get ev ''event'' = Some (PStr ''api_request_begin'')"
  by (simp add: logged_request_def Let_def api_request_def tracer_init_def emit_def d_update_def d_set_def d_get_def)

end
