(* ===== verification/TypedTasks.thy ===== *)
theory TypedTasks
  imports TaskApi
begin

text \<open>
  The types of the fields of a task's state. \<open>TaskStatusResponse\<close> (\<open>api/models.py\<close>) declares them; the
  task store keeps plain dictionaries, which the API, the worker and the feedback rounds change. Shown
  here: every state any of them ever stores has the declared types, so the status endpoint and the
  event stream never fail on one.
\<close>

subsection \<open>Types\<close>

definition is_text :: "pyv \<Rightarrow> bool" where "is_text v \<longleftrightarrow> (case v of PStr s \<Rightarrow> True | _ \<Rightarrow> False)"
definition is_whole :: "pyv \<Rightarrow> bool" where "is_whole v \<longleftrightarrow> (case v of PInt n \<Rightarrow> True | _ \<Rightarrow> False)"
definition is_table :: "pyv \<Rightarrow> bool" where "is_table v \<longleftrightarrow> (case v of PDict d \<Rightarrow> True | _ \<Rightarrow> False)"

lemma is_simps [simp]:
  "is_text (PStr s)" "is_whole (PInt n)" "is_table (PDict d)" "\<not> is_text PNone" "\<not> is_table PNone"
  by (simp_all add: is_text_def is_whole_def is_table_def)

text \<open>The annotation of each field of the class; other keys of a state are ignored.\<close>

definition field_type :: "string \<Rightarrow> pyv \<Rightarrow> bool" where
  "field_type k v \<longleftrightarrow>
     (if k \<in> {''task_id'', ''status'', ''question'', ''db_id'', ''created_at'', ''updated_at''} then is_text v
      else if k \<in> {''progress'', ''retry_count''} then is_whole v
      else if k \<in> {''node'', ''sql'', ''error''} then v = PNone \<or> is_text v
      else if k = ''exec_result'' then v = PNone \<or> is_table v
      else if k \<in> {''token_usage'', ''node_timings''} then is_table v
      else True)"

definition typed_args :: "pydict \<Rightarrow> bool" where
  "typed_args d \<longleftrightarrow> list_all (\<lambda>(k, v). json_value v \<and> field_type k v) d"

definition typed_state :: "pydict \<Rightarrow> bool" where
  "typed_state d \<longleftrightarrow> distinct (map fst d) \<and> typed_args d \<and> d_get d ''task_id'' \<noteq> None \<and> d_get d ''status'' \<noteq> None"

text \<open>A task's key holds nothing or a typed state.\<close>

definition typed_task :: "'r kv \<Rightarrow> string \<Rightarrow> 'r option \<Rightarrow> bool" where
  "typed_task K tid st \<longleftrightarrow>
     (case st of None \<Rightarrow> True
      | Some r \<Rightarrow> (case kv_get K (task_key tid) r of None \<Rightarrow> True
          | Some raw \<Rightarrow> \<exists>d. typed_state d \<and> raw = json_dumps (PDict d)))"

definition typed_store :: "'r kv \<Rightarrow> 'r option \<Rightarrow> bool" where
  "typed_store K st \<longleftrightarrow> (\<forall>tid. plain_id tid \<longrightarrow> typed_task K tid st)"

lemma typed_args_simps [simp]:
  "typed_args []" "typed_args ((k, v) # d) \<longleftrightarrow> json_value v \<and> field_type k v \<and> typed_args d"
  "typed_args (d @ e) \<longleftrightarrow> typed_args d \<and> typed_args e"
  by (simp_all add: typed_args_def)

lemma typed_args_set: "typed_args d \<Longrightarrow> json_value v \<Longrightarrow> field_type k v \<Longrightarrow> typed_args (d_set k v d)"
  unfolding d_set_def by (induction d) auto

lemma typed_args_update: "typed_args d \<Longrightarrow> typed_args e \<Longrightarrow> typed_args (d_update d e)"
proof (induction e arbitrary: d)
  case (Cons x e)
  then show ?case by (cases x) (simp add: d_update_Cons typed_args_set)
qed (simp add: d_update_def)

lemma distinct_set: "distinct (map fst d) \<Longrightarrow> distinct (map fst (d_set k v d))"
  by (simp add: d_set_def distinct_update)

lemma distinct_updates: "distinct (map fst d) \<Longrightarrow> distinct (map fst (d_update d e))"
proof (induction e arbitrary: d)
  case (Cons x e)
  then show ?case by (cases x) (simp add: d_update_Cons distinct_set)
qed (simp add: d_update_def)

lemma d_get_update_mono: "d_get d k \<noteq> None \<Longrightarrow> d_get (d_update d e) k \<noteq> None"
proof (induction e arbitrary: d)
  case (Cons x e)
  then show ?case by (cases x) (simp add: d_update_Cons)
qed (simp add: d_update_def)

lemma typed_state_update:
  "typed_state d \<Longrightarrow> typed_args kw \<Longrightarrow> typed_state (d_set ''updated_at'' (PStr t) (d_update d kw))"
  using d_get_update_mono [of d "''task_id''" kw] d_get_update_mono [of d "''status''" kw]
  by (simp add: typed_state_def typed_args_set typed_args_update distinct_set distinct_updates field_type_def)

lemma typed_state_json: "typed_state d \<Longrightarrow> json_value (PDict d)"
  by (auto simp: typed_state_def typed_args_def list_all_iff)

lemma typed_get: "typed_args d \<Longrightarrow> json_value v \<Longrightarrow> field_type k v \<Longrightarrow> json_value (d_get_or d k v) \<and> field_type k (d_get_or d k v)"
  by (induction d) (auto simp: d_get_or_def split: if_splits)

lemma typed_task_well: "typed_task K tid st \<Longrightarrow> well_stored K tid st"
  using typed_state_json by (auto simp: typed_task_def well_stored_def simp del: json_value.simps json_dumps.simps split: option.splits)

lemma typed_task_get:
  assumes "typed_task K tid st"
  obtains "task_get K tid st = None" | d where "task_get K tid st = Some (PDict d)" and "typed_state d"
  using assms json_dumps_loads [OF typed_state_json]
  by (auto simp: typed_task_def task_get_def simp del: json_dumps.simps split: option.splits)

subsection \<open>The operations of the store\<close>

context kv_store
begin

lemma typed_set_state:
  assumes "typed_store K st" and "typed_state d"
  shows "typed_store K (set_state K tid d st)"
  using assms by (cases st) (auto simp: typed_store_def typed_task_def set_state_def get_setex simp del: json_dumps.simps)

lemma typed_other:
  assumes "typed_store K st"
  shows "typed_store K (snd (task_request_cancel K tid st))"
    and "typed_store K (task_clear_cancel K tid st)"
    and "typed_store K (task_heartbeat K t tid st)"
    and "typed_store K (task_publish_token K tid t st)"
    and "typed_store K (idempotent_set K k v 300 st)"
  using assms
  by (cases st; force simp: typed_store_def typed_task_def task_request_cancel_def task_clear_cancel_def task_heartbeat_def
      task_publish_token_def idempotent_set_def get_setex get_delete get_publish HEARTBEAT_TTL_S_def
      simp del: json_dumps.simps split: option.splits)+

lemma typed_wait: "typed_store K st \<Longrightarrow> typed_store K (map_option (wait n) st)"
proof -
  have "typed_task K tid (map_option (wait n) st)" if "typed_task K tid st" for tid
    using that get_wait [of "task_key tid" n "the st"]
    by (cases st) (auto simp: typed_task_def simp del: json_dumps.simps split: option.splits)
  then show "typed_store K st \<Longrightarrow> typed_store K (map_option (wait n) st)" by (simp add: typed_store_def)
qed

lemma typed_update:
  assumes "typed_store K st" and "plain_id tid" and "typed_args kw" and "task_update K now tid kw st = Inr (r, st')"
  shows "typed_store K st'"
proof -
  have "typed_task K tid st" using assms(1,2) by (simp add: typed_store_def)
  then show ?thesis
  proof (rule typed_task_get)
    fix d assume "task_get K tid st = Some (PDict d)" "typed_state d"
    then show ?thesis using assms(1,3,4) typed_set_state typed_state_update
      by (auto simp: task_update_def as_dict_def Let_def)
  qed (use assms in \<open>simp add: task_update_def\<close>)
qed

lemma typed_transition:
  assumes "typed_store K st" and "plain_id tid" and "typed_args extra"
    and "task_transition K now tid status extra st = Inr (r, st')"
  shows "typed_store K st'"
  using assms typed_update [OF assms(1,2), of "(''status'', PStr status) # extra"]
  by (auto simp: task_transition_def Let_def py_bind_Inr_iff field_type_def split: if_splits)

lemma typed_feedback_transition:
  assumes "typed_store K st" and "plain_id tid" and "feedback_transition K now tid st = Inr (r, st')"
  shows "typed_store K st'"
  using assms typed_update [OF assms(1,2), of "[(''status'', PStr ''RUNNING''), (''node'', PNone), (''progress'', PInt 0)]"]
  by (auto simp: feedback_transition_def py_bind_Inr_iff field_type_def split: if_splits option.splits)

lemma typed_scan:
  assumes "list_all (\<lambda>k. str_in '':heartbeat'' k \<or> str_in '':cancel'' k \<or> plain_id (drop 5 k)) keys"
  shows "typed_store K st \<Longrightarrow> scan_keys K clk now stale_s keys st = Inr (ids, st') \<Longrightarrow> typed_store K st'"
  using assms
proof (induction keys arbitrary: st ids)
  case (Cons k keys)
  obtain ids1 st1 ids2 where s: "scan_key K clk now stale_s k st = Inr (ids1, st1)"
    "scan_keys K clk now stale_s keys st1 = Inr (ids2, st')"
    using Cons.prems(2) by (auto simp: py_bind_Inr_iff)
  have "typed_args (lost why)" for why by (simp add: lost_def field_type_def)
  then have "typed_store K st1"
    using s(1) Cons.prems(1,3)
    by (auto simp: scan_key_def Let_def py_bind_Inr_iff split: if_splits option.splits
        dest!: typed_transition [OF Cons.prems(1), rotated 2])
  then show ?case using Cons.IH [OF _ s(2)] Cons.prems(3) by simp
qed simp

end

subsection \<open>The handlers of the worker\<close>

text \<open>What the nodes of a graph write, as far as a handler stores it. The result of the execution may
  hold decimals; \<open>sanitize\<close> makes JSON of it or raises.\<close>

definition node_field :: "string \<Rightarrow> pyv \<Rightarrow> bool" where
  "node_field k v \<longleftrightarrow>
     (if k \<in> {''sql'', ''chosen_sql''} then v = PNone \<or> is_text v
      else if k \<in> {''token_usage'', ''node_latency''} then is_table v \<and> json_value v
      else if k = ''exec_result'' then (case sanitize v of Inl e \<Rightarrow> True | Inr r \<Rightarrow> json_value r)
      else if k \<in> {''schema_text'', ''notes_text'', ''fewshot_text''} then json_value v
      else True)"

definition node_typed :: "pydict \<Rightarrow> bool" where
  "node_typed acc \<longleftrightarrow> list_all (\<lambda>(k, v). node_field k v) acc"

definition log_typed :: "graph_log \<Rightarrow> bool" where
  "log_typed g \<longleftrightarrow> list_all (\<lambda>step. node_typed (snd step)) (gl_steps g)"

lemma node_typed_simps [simp]:
  "node_typed []" "node_typed ((k, v) # d) \<longleftrightarrow> node_field k v \<and> node_typed d"
  "node_typed (d @ e) \<longleftrightarrow> node_typed d \<and> node_typed e"
  by (simp_all add: node_typed_def)

lemma node_typed_set: "node_typed d \<Longrightarrow> node_field k v \<Longrightarrow> node_typed (d_set k v d)"
  unfolding d_set_def by (induction d) auto

lemma node_typed_update: "node_typed d \<Longrightarrow> node_typed e \<Longrightarrow> node_typed (d_update d e)"
proof (induction e arbitrary: d)
  case (Cons x e)
  then show ?case by (cases x) (simp add: d_update_Cons node_typed_set)
qed (simp add: d_update_def)

lemma node_typed_get: "node_typed d \<Longrightarrow> node_field k v \<Longrightarrow> node_field k (d_get_or d k v)"
  by (induction d) (auto simp: d_get_or_def split: if_splits)

lemma text_json: "v = PNone \<or> is_text v \<Longrightarrow> json_value v"
  by (cases v) (simp_all add: is_text_def)

lemma node_sql:
  assumes "node_typed acc" and "v = PNone \<or> is_text v"
  shows "chosen_sql acc v = PNone \<or> is_text (chosen_sql acc v)"
  using node_typed_get [OF assms(1), of "''sql''" PNone] node_typed_get [OF assms(1), of "''chosen_sql''" v] assms(2)
  by (auto simp: chosen_sql_def py_or_val_def node_field_def)

lemma node_sql_json: "node_typed acc \<Longrightarrow> v = PNone \<or> is_text v \<Longrightarrow> json_value (chosen_sql acc v)"
  by (rule text_json [OF node_sql])

lemma node_tables:
  assumes "node_typed acc"
  shows "is_table (d_get_or acc ''token_usage'' (PDict [])) \<and> json_value (d_get_or acc ''token_usage'' (PDict []))"
    and "is_table (d_get_or acc ''node_latency'' (PDict [])) \<and> json_value (d_get_or acc ''node_latency'' (PDict []))"
  using node_typed_get [OF assms, of "''token_usage''" "PDict []"] node_typed_get [OF assms, of "''node_latency''" "PDict []"]
  by (simp_all add: node_field_def)

lemma typed_timings: "node_typed acc \<Longrightarrow> typed_args (timings acc)"
  using node_tables by (simp add: timings_def field_type_def)

lemma sanitize_shape: "sanitize v = Inr r \<Longrightarrow> r = PNone \<or> is_table r"
  by (auto simp: sanitize_def Let_def py_bind_Inr_iff split: pyv.splits if_splits)

lemma node_result:
  assumes "node_typed acc" and "sanitize (d_get_or acc ''exec_result'' PNone) = Inr r"
  shows "json_value r \<and> (r = PNone \<or> is_table r)"
  using node_typed_get [OF assms(1), of "''exec_result''" PNone] assms(2) sanitize_shape [OF assms(2)]
  by (simp add: node_field_def sanitize_def)

lemma py_iter_json: "json_value v \<Longrightarrow> py_iter v = Inr xs \<Longrightarrow> list_all json_value xs"
  by (cases v) (auto simp: list_all_iff)

lemma py_map_iter_json:
  "list_all json_value rows \<Longrightarrow> py_map py_iter rows = Inr cells \<Longrightarrow> list_all (list_all json_value) cells"
  by (induction rows arbitrary: cells) (auto simp: py_bind_Inr_iff dest: py_iter_json)

lemma safe_value_json: "json_value v \<Longrightarrow> json_value (safe_value v)"
  by (cases v) (simp_all add: safe_value_def)

lemma sanitize_json: "json_value v \<Longrightarrow> sanitize v = Inr r \<Longrightarrow> json_value r"
proof (cases v)
  case (PDict out)
  assume j: "json_value v" and s: "sanitize v = Inr r"
  have d: "json_value (d_get_or out ''data'' PNone)"
    using j PDict json_args_get [OF json_dict, of out PNone] by simp
  show "json_value r"
  proof (cases "truthy (d_get_or out ''data'' PNone)")
    case True
    then obtain rows cells where rc: "py_iter (d_get_or out ''data'' PNone) = Inr rows" "py_map py_iter rows = Inr cells"
      "r = PDict (d_set ''data'' (PList (map (\<lambda>row. PList (map safe_value row)) cells)) out)"
      using s PDict by (auto simp: sanitize_def Let_def py_bind_Inr_iff)
    have "list_all (list_all json_value) cells" by (rule py_map_iter_json [OF py_iter_json [OF d rc(1)] rc(2)])
    then have "json_value (PList (map (\<lambda>row. PList (map safe_value row)) cells))"
      using safe_value_json by (auto simp: list_all_iff)
    then show ?thesis using json_value_set j PDict rc(3) by blast
  qed (use j s PDict in \<open>auto simp: sanitize_def simp del: json_value.simps\<close>)
qed (auto simp: sanitize_def)

text \<open>A handler's result, and that its world is typed whether it raises or not\<close>

definition keeps :: "'r kv \<Rightarrow> 'r wres \<Rightarrow> bool" where
  "keeps K m \<longleftrightarrow> typed_store K (w_store (case m of Inl (e, w) \<Rightarrow> w | Inr w \<Rightarrow> w))"

lemma keeps_simps [simp]:
  "keeps K (Inl (e, w)) \<longleftrightarrow> typed_store K (w_store w)" "keeps K (Inr w) \<longleftrightarrow> typed_store K (w_store w)"
  by (simp_all add: keeps_def)

lemma keeps_then:
  "keeps K m \<Longrightarrow> (\<And>w. typed_store K (w_store w) \<Longrightarrow> keeps K (f w)) \<Longrightarrow> keeps K (w_then m f)"
  by (cases m) auto

lemma say_store [simp]: "w_store (say topic tid ev p w) = w_store w"
  by (simp add: say_def)

text \<open>The setting of a handler: a task's identifier, and other processes that keep the store typed\<close>

definition conf_typed :: "'r kv \<Rightarrow> 'r run_conf \<Rightarrow> bool" where
  "conf_typed K C \<longleftrightarrow> rc_kv C = K \<and> plain_id (rc_tid C) \<and>
     (\<forall>st. typed_store K st \<longrightarrow> typed_store K (rc_before C st) \<and> typed_store K (rc_mid C st)
        \<and> typed_store K (rc_after C st) \<and> (\<forall>i. typed_store K (rc_env C i st)))"

fun streamed_ok :: "'r kv \<Rightarrow> 'r streamed \<Rightarrow> bool" where
  "streamed_ok K (Streaming acc w) \<longleftrightarrow> node_typed acc \<and> typed_store K (w_store w)"
| "streamed_ok K (Cancelled w) \<longleftrightarrow> typed_store K (w_store w)"
| "streamed_ok K (Failed e w) \<longleftrightarrow> typed_store K (w_store w)"

fun waited_ok :: "'r kv \<Rightarrow> 'r waited \<Rightarrow> bool" where
  "waited_ok K (Returned b w) \<longleftrightarrow> typed_store K (w_store w)"
| "waited_ok K (Errored e w) \<longleftrightarrow> typed_store K (w_store w)"
| "waited_ok K (GaveUp acc w) \<longleftrightarrow> node_typed acc \<and> typed_store K (w_store w)"

context kv_store
begin

lemma keeps_update:
  assumes "conf_typed K C" and "typed_store K (w_store w)" and "typed_args kw"
  shows "keeps K (on_store (task_update (rc_kv C) (rc_now C) (rc_tid C) kw) w)"
  using assms typed_update [OF assms(2) _ assms(3), of "rc_tid C" "rc_now C"]
  by (auto simp: on_store_def conf_typed_def split: sum.split)

lemma keeps_transition:
  assumes "conf_typed K C" and "typed_store K (w_store w)" and "typed_args extra"
  shows "keeps K (transition C status extra w)"
  using assms typed_transition [OF assms(2) _ assms(3), of "rc_tid C" "rc_now C"]
  by (auto simp: transition_def on_store_def conf_typed_def split: sum.split)

lemma keeps_feedback:
  assumes "conf_typed K C" and "typed_store K (w_store w)"
  shows "keeps K (on_store (feedback_transition (rc_kv C) (rc_now C) (rc_tid C)) w)"
  using assms typed_feedback_transition [OF assms(2), of "rc_tid C" "rc_now C"]
  by (auto simp: on_store_def conf_typed_def split: sum.split)

lemma typed_clear:
  assumes "conf_typed K C" and "typed_store K (w_store w)"
  shows "typed_store K (w_store (clear_cancel C w))" and "typed_store K (w_store (start_heartbeat C w))"
  using assms typed_other by (auto simp: conf_typed_def clear_cancel_def start_heartbeat_def meddle_def)

lemma keeps_node_done:
  assumes "conf_typed K C" and "typed_store K (w_store w)" and "node_typed acc"
  shows "keeps K (node_done C step acc w)"
  using assms(2) node_tables [OF assms(3)] node_sql [OF assms(3), of PNone] node_sql_json [OF assms(3), of PNone]
  by (auto simp: node_done_def case_prod_unfold field_type_def split: sum.split intro!: keeps_update [OF assms(1)])

lemma keeps_cancel_run:
  assumes "conf_typed K C" and "typed_store K (w_store w)"
  shows "keeps K (cancel_run C w)"
  unfolding cancel_run_def transition_def [symmetric]
  by (rule keeps_then [OF keeps_transition [OF assms]])
    (use typed_clear(1) [OF assms(1)] in \<open>auto simp: clear_cancel_def\<close>)

lemma stream_typed:
  assumes C: "conf_typed K C"
  shows "typed_store K (w_store w) \<Longrightarrow> node_typed acc \<Longrightarrow> list_all (\<lambda>step. node_typed (snd step)) steps
    \<Longrightarrow> streamed_ok K (stream_steps C i steps acc w)"
proof (induction steps arbitrary: i acc w)
  case (Cons step steps)
  let ?w = "meddle (rc_env C i) w" and ?acc = "d_update acc (snd step)"
  have w: "typed_store K (w_store ?w)" using C Cons.prems(1) by (simp add: conf_typed_def meddle_def)
  have a: "node_typed ?acc" using Cons.prems(2,3) by (simp add: node_typed_update)
  show ?case
    using keeps_cancel_run [OF C w] keeps_node_done [OF C w a, of step] Cons.IH [OF _ a] Cons.prems(3)
    by (auto simp: Let_def split: sum.split)
qed simp

lemma keeps_finish:
  assumes C: "conf_typed K C" and w: "typed_store K (w_store w)" and a: "node_typed acc" and p: "json_value (PDict payload)"
  shows "keeps K (finish_run C payload el acc w)"
proof (cases "sanitize (d_get_or acc ''exec_result'' PNone)")
  case (Inr res)
  have s: "chosen_sql acc (PStr []) = PNone \<or> is_text (chosen_sql acc (PStr []))" "json_value (chosen_sql acc (PStr []))"
    using node_sql [OF a, of "PStr []"] node_sql_json [OF a, of "PStr []"] by simp_all
  have t: "json_value (d_get_or acc k (PStr []))" if "k \<in> {''schema_text'', ''notes_text'', ''fewshot_text''}" for k
    using node_typed_get [OF a, of k "PStr []"] that by (auto simp: node_field_def)
  have kw: "typed_args ([(''sql'', chosen_sql acc (PStr [])), (''exec_result'', res)] @ timings acc
      @ [(''_schema_text'', d_get_or acc ''schema_text'' (PStr [])), (''_notes_text'', d_get_or acc ''notes_text'' (PStr [])),
         (''_fewshot_text'', d_get_or acc ''fewshot_text'' (PStr [])), (''_original_payload'', PDict payload)])"
    using s t p node_result [OF a Inr] typed_timings [OF a] by (simp add: field_type_def del: json_value.simps(5))
  show ?thesis unfolding finish_run_def Let_def Inr sum.case
    by (rule keeps_then [OF keeps_update [OF C w kw]]) simp
qed (use w in \<open>simp add: finish_run_def Let_def\<close>)

lemma keeps_finish_feedback:
  assumes C: "conf_typed K C" and w: "typed_store K (w_store w)" and a: "node_typed acc" and p: "json_value (PDict payload)"
  shows "keeps K (finish_feedback C payload el acc w)"
proof (cases "py_bind (py_iter (d_get_or payload ''conversation_turns'' (PList []))) (\<lambda>turns.
              py_bind (sanitize (d_get_or acc ''exec_result'' PNone)) (\<lambda>res. Inr (turns, res)))")
  case (Inr tr)
  then obtain turns res where tr: "tr = (turns, res)" "py_iter (d_get_or payload ''conversation_turns'' (PList [])) = Inr turns"
    "sanitize (d_get_or acc ''exec_result'' PNone) = Inr res" by (auto simp: py_bind_Inr_iff)
  have j: "json_args payload" using p by (rule json_dict)
  have s: "chosen_sql acc (PStr []) = PNone \<or> is_text (chosen_sql acc (PStr []))" "json_value (chosen_sql acc (PStr []))"
    using node_sql [OF a, of "PStr []"] node_sql_json [OF a, of "PStr []"] by simp_all
  have l: "list_all json_value turns" by (rule py_iter_json [OF json_args_get [OF j] tr(2)]) simp
  let ?turns = "turns @ [PDict [(''turn'', PInt (int (length turns) + 1)),
      (''user_feedback'', d_get_or payload ''feedback'' (PStr [])), (''sql'', chosen_sql acc (PStr [])),
      (''exec_result'', res), (''timestamp'', PStr (rc_now C 1))]]"
  have kw: "typed_args ([(''sql'', chosen_sql acc (PStr [])), (''exec_result'', res)] @ timings acc
      @ [(''conversation_turns'', PList ?turns), (''user_feedback'', PStr [])])"
    using s l node_result [OF a tr(3)] typed_timings [OF a] json_args_get [OF j, of "PStr []" "''feedback''"]
    by (simp add: field_type_def)
  show ?thesis unfolding finish_feedback_def Let_def Inr tr(1) sum.case prod.case
    by (rule keeps_then [OF keeps_update [OF C w kw]]) simp
qed (use w in \<open>auto simp: finish_feedback_def Let_def\<close>)

lemma settle_timeout_typed:
  assumes "conf_typed K C" and "typed_store K (w_store w)"
  shows "keeps K (settle_timeout C n t w)"
  using keeps_transition [OF assms] typed_clear(1) [OF assms(1)]
  by (auto simp: settle_timeout_def field_type_def intro!: keeps_then)

lemma settle_error_typed:
  assumes "conf_typed K C" and "typed_store K (w_store w)"
  shows "keeps K (settle_error C g p n e w)"
proof -
  have "keeps K (on_store (task_update (rc_kv C) (rc_now C) (rc_tid C)
      [(''retry_count'', PInt (n + 1)), (''error'', PStr (error_text e))]) (say TOPIC_REQUEST (rc_id C) ''retry'' q w))" for q
    by (rule keeps_update [OF assms(1)]) (simp_all add: assms(2) field_type_def)
  then show ?thesis
    using keeps_transition [OF assms] typed_clear(1) [OF assms(1)]
    by (auto simp: settle_error_def Let_def field_type_def intro!: keeps_then)
qed

lemma keeps_retry: "keeps K m \<Longrightarrow> (\<And>e w. typed_store K (w_store w) \<Longrightarrow> keeps K (f e w)) \<Longrightarrow>
    keeps K (case m of Inr w \<Rightarrow> Inr w | Inl (e, w) \<Rightarrow> f e w)"
  by (cases m) auto

lemma success_typed:
  "conf_typed K C \<Longrightarrow> typed_store K (w_store w) \<Longrightarrow> keeps K (transition C ''SUCCESS'' [] (meddle (rc_after C) w))"
  by (rule keeps_transition) (simp_all add: conf_typed_def meddle_def)

lemma settle_typed:
  assumes C: "conf_typed K C" and w: "waited_ok K out"
  shows "keeps K (settle C g p n t out)"
  unfolding settle_def Let_def
  by (rule keeps_retry)
    (use w success_typed [OF C] settle_timeout_typed [OF C] settle_error_typed [OF C] in \<open>cases out; simp\<close>)+

lemma feedback_error_typed:
  assumes "conf_typed K C" and "typed_store K (w_store w)"
  shows "keeps K (feedback_error C turn e w)" and "keeps K (feedback_timeout C turn w)"
  using keeps_transition [OF assms]
  by (auto simp: feedback_error_def feedback_timeout_def field_type_def intro!: keeps_then)

lemma settle_feedback_typed:
  assumes C: "conf_typed K C" and w: "waited_ok K out"
  shows "keeps K (settle_feedback C turn out)"
  unfolding settle_feedback_def Let_def
  by (rule keeps_retry) (use w success_typed [OF C] feedback_error_typed [OF C] in \<open>cases out; simp\<close>)+

lemma end_stream_typed:
  assumes "\<And>acc w. node_typed acc \<Longrightarrow> typed_store K (w_store w) \<Longrightarrow> keeps K (finish acc w)" and "streamed_ok K r"
  shows "streamed_ok K (end_stream g finish r)"
  using assms(2)
proof (cases r)
  case (Streaming acc w)
  then have "keeps K (finish acc w)" using assms by simp
  then show ?thesis using assms(2) Streaming by (auto simp: end_stream_def split: option.split sum.split)
qed (simp_all add: end_stream_def)

lemma waited_for_typed: "streamed_ok K r \<Longrightarrow> waited_ok K (waited_for r)"
  by (cases r) simp_all

lemma wait_for_typed:
  assumes f: "\<And>acc w. node_typed acc \<Longrightarrow> typed_store K (w_store w) \<Longrightarrow> keeps K (finish acc w)"
    and C: "conf_typed K C" and g: "log_typed g" and w: "typed_store K (w_store w)"
    and i: "\<And>s. input = Inr s \<Longrightarrow> node_typed s"
  shows "waited_ok K (wait_for C g finish input w)"
proof (cases input)
  case (Inr s0)
  have s: "streamed_ok K (stream_steps C 0 (take n (gl_steps g)) s0 w)" for n
    using stream_typed [OF C w i [OF Inr]] g by (auto simp: log_typed_def list_all_iff dest: in_set_takeD)
  have e: "streamed_ok K (end_stream g finish (stream_steps C 0 (gl_steps g) s0 w))"
    using end_stream_typed [OF f s [of "length (gl_steps g)"]] by simp
  show ?thesis
  proof (cases "gl_deadline g")
    case (Some n)
    show ?thesis using s [of n] Some Inr
      by (cases "stream_steps C 0 (take n (gl_steps g)) s0 w") (simp_all add: wait_for_def)
  qed (use Inr waited_for_typed [OF e] in \<open>simp add: wait_for_def\<close>)
qed (use w in \<open>simp add: wait_for_def\<close>)

lemma abandoned_typed:
  assumes "\<And>acc w. node_typed acc \<Longrightarrow> typed_store K (w_store w) \<Longrightarrow> keeps K (finish acc w)"
    and "conf_typed K C" and "log_typed g" and "node_typed acc" and "typed_store K (w_store w)"
  shows "streamed_ok K (abandoned C g finish acc w)"
  using assms(2-)
  by (auto simp: abandoned_def log_typed_def list_all_iff split: option.split dest!: in_set_dropD
      intro!: end_stream_typed [OF assms(1)] stream_typed)

lemma graph_input_typed: "graph_input p = Inr s \<Longrightarrow> node_typed s"
  by (auto simp: graph_input_def py_bind_Inr_iff node_field_def)

lemma handle_task_typed:
  assumes C: "conf_typed K C" and g: "log_typed g" and w: "typed_store K (w_store w)" and p: "json_value raw"
  shows "keeps K (handle_task C g raw w)"
proof -
  let ?w = "meddle (rc_before C) w"
  have b: "typed_store K (w_store ?w)" and m: "typed_store K (w_store (meddle (rc_mid C) ?w))"
    using C w by (simp_all add: conf_typed_def meddle_def)
  have "keeps K (settle C g payload n t (wait_for C g (finish_run C payload el) (graph_input payload) w1))"
    if "json_value (PDict payload)" and "typed_store K (w_store w1)" for payload n t el w1
    by (rule settle_typed [OF C wait_for_typed [OF keeps_finish [OF C _ _ that(1)] C g that(2) graph_input_typed]])
  then have s: "keeps K (w_then (transition C ''RUNNING'' [(''retry_count'', PInt n)] (meddle (rc_mid C) ?w)) (\<lambda>w.
              let w = start_heartbeat C (say TOPIC_STATUS (rc_id C) ''running''
                    [(''retry_count'', PInt n), (''timeout_s'', PInt (int t))] w)
              in settle C g payload n t
                   (wait_for C g (finish_run C payload (gl_elapsed g)) (graph_input payload) w)))"
    if "raw = PDict payload" for payload n t
    using that p typed_clear(2) [OF C]
    by (auto simp: Let_def field_type_def intro!: keeps_then keeps_transition [OF C m])
  have c: "keeps K (transition C ''CANCELLED'' [] ?w)" by (rule keeps_transition [OF C b]) simp
  show ?thesis
    using s c b by (cases raw) (auto simp: handle_task_def Let_def as_dict_def py_bind_Inr_iff split: sum.split)
qed

end

text \<open>The message of a feedback round: the query it starts from is a text or missing.\<close>

definition round_typed :: "pydict \<Rightarrow> bool" where
  "round_typed p \<longleftrightarrow> json_value (PDict p) \<and> (d_get_or p ''sql'' PNone = PNone \<or> is_text (d_get_or p ''sql'' PNone))"

lemma round_field: "round_typed p \<Longrightarrow> v = PNone \<or> is_text v \<Longrightarrow> d_get_or p ''sql'' v = PNone \<or> is_text (d_get_or p ''sql'' v)"
  by (auto simp: round_typed_def d_get_or_get split: option.splits)

lemma feedback_input_typed:
  assumes p: "round_typed p" and d: "typed_args d"
  shows "node_typed (feedback_input p d)"
proof -
  have jp: "json_args p" using p by (simp add: round_typed_def json_dict del: json_value.simps(5))
  have jd: "json_args d" using d by (auto simp: typed_args_def json_args_def list_all_iff)
  have q: "d_get_or p ''sql'' (d_get_or d ''sql'' (PStr [])) = PNone \<or> is_text (d_get_or p ''sql'' (d_get_or d ''sql'' (PStr [])))"
    using round_field [OF p] typed_get [OF d, of "PStr []" "''sql''"] by (simp add: field_type_def)
  have e: "json_value (py_or_val (d_get_or p ''exec_result'' PNone) (d_get_or d ''exec_result'' PNone))"
    using json_args_get [OF jp] json_args_get [OF jd] by (simp add: py_or_val_def)
  have t: "json_value (d_get_or d k (PStr []))" for k by (rule json_args_get [OF jd]) simp
  show ?thesis
    using q sanitize_json [OF e] t by (auto simp: feedback_input_def Let_def node_field_def split: sum.split)
qed

lemma feedback_payload_typed:
  assumes "typed_state d" and "json_value turns"
  shows "round_typed (feedback_payload fb n turns d)"
proof -
  have a: "typed_args d" using assms(1) by (simp add: typed_state_def)
  then have j: "json_args d" by (auto simp: typed_args_def json_args_def list_all_iff)
  have "d_get_or d ''sql'' (PStr []) = PNone \<or> is_text (d_get_or d ''sql'' (PStr []))"
    using typed_get [OF a, of "PStr []" "''sql''"] by (simp add: field_type_def)
  then show ?thesis using assms(2) json_args_get [OF j] by (simp add: feedback_payload_def round_typed_def d_get_or_def)
qed

context kv_store
begin

lemma handle_feedback_typed:
  assumes C: "conf_typed K C" and g: "log_typed g" and w: "typed_store K (w_store w)"
    and p: "truthy raw \<Longrightarrow> \<exists>p. raw = PDict p \<and> round_typed p"
  shows "keeps K (handle_feedback C g raw w)"
proof -
  let ?w = "meddle (rc_before C) w"
  have b: "typed_store K (w_store ?w)" and m: "typed_store K (w_store (meddle (rc_mid C) ?w))"
    using C w by (simp_all add: conf_typed_def meddle_def)
  have st: "typed_args d" if "typed_store K (w_store v)" and "stored_task C v = Inr d" for v :: "'r world" and d
  proof -
    have "typed_task K (rc_tid C) (w_store v)" using that(1) C by (simp add: typed_store_def conf_typed_def)
    then show ?thesis
      using that(2) C by (elim typed_task_get) (auto simp: stored_task_def conf_typed_def as_dict_def typed_state_def split: if_splits)
  qed
  have in1: "node_typed s" if "round_typed q" and "typed_store K (w_store v)"
    and "py_bind (stored_task C v) (\<lambda>d. Inr (feedback_input q d)) = Inr s" for q v s
    using that st [OF that(2)] feedback_input_typed [OF that(1)] by (auto simp: py_bind_Inr_iff)
  have wt: "waited_ok K (wait_for C g (finish_feedback C q (gl_elapsed g))
      (py_bind (stored_task C v) (\<lambda>d. Inr (feedback_input q d))) v)"
    if "round_typed q" and "typed_store K (w_store v)" for q v
    using that(1) by (intro wait_for_typed [OF keeps_finish_feedback [OF C] C g that(2) in1 [OF that]])
      (auto simp: round_typed_def simp del: json_value.simps(5))
  obtain q where q: "py_or_val raw (PDict []) = PDict q" "round_typed q"
    using p by (cases "truthy raw") (auto simp: py_or_val_def round_typed_def d_get_or_def)
  have "keeps K (w_then (on_store (feedback_transition (rc_kv C) (rc_now C) (rc_tid C)) (meddle (rc_mid C) ?w)) (\<lambda>w.
                    let w = start_heartbeat C (say TOPIC_STATUS (rc_id C) ''running''
                          [(''source'', PStr ''feedback''), (''turn'', turn)] w)
                    in settle_feedback C turn
                         (wait_for C g (finish_feedback C q (gl_elapsed g))
                           (py_bind (stored_task C w) (\<lambda>task_state. Inr (feedback_input q task_state))) w)))" for turn
    using typed_clear(2) [OF C]
    by (auto simp: Let_def intro!: keeps_then [OF keeps_feedback [OF C m]] settle_feedback_typed [OF C] wt [OF q(2)])
  then show ?thesis using b q(1) by (auto simp: handle_feedback_def Let_def as_dict_def py_bind_Inr_iff split: sum.split)
qed

end

subsection \<open>All that happens to a task\<close>

text \<open>The moves of the service: requests of clients, both handlers of any worker (in whatever way the
  others interleave), what a worker still does after it gave up waiting, and time.\<close>

definition left_by :: "'r wres \<Rightarrow> 'r world" where
  "left_by m = (case m of Inl (e, w) \<Rightarrow> w | Inr w \<Rightarrow> w)"

fun streamed_world :: "'r streamed \<Rightarrow> 'r world" where
  "streamed_world (Streaming acc w) = w"
| "streamed_world (Cancelled w) = w"
| "streamed_world (Failed e w) = w"

inductive service :: "'r kv \<Rightarrow> (nat \<Rightarrow> 'r \<Rightarrow> 'r) \<Rightarrow> 'r world \<Rightarrow> 'r world \<Rightarrow> bool" for K wait where
  submit: "plain_id tid \<Longrightarrow> service K wait w (snd (task_submit K now sha256 tid req w))"
| feedback: "plain_id tid \<Longrightarrow> task_feedback K now tid text w = Inr (n, w') \<Longrightarrow> service K wait w w'"
| cancel: "task_cancel K tid (w_store w) = Inr (v, st') \<Longrightarrow> service K wait w (w\<lparr>w_store := st'\<rparr>)"
| scan: "list_all (\<lambda>k. str_in '':heartbeat'' k \<or> str_in '':cancel'' k \<or> plain_id (drop 5 k)) keys \<Longrightarrow>
    trigger_stale_scan K clk dt keys (w_store w) = Inr (d, st') \<Longrightarrow> service K wait w (w\<lparr>w_store := st'\<rparr>)"
| run: "conf_typed K C \<Longrightarrow> log_typed g \<Longrightarrow> json_value raw \<Longrightarrow> service K wait w (left_by (handle_task C g raw w))"
| round: "conf_typed K C \<Longrightarrow> log_typed g \<Longrightarrow> round_typed p \<Longrightarrow> service K wait w (left_by (handle_feedback C g (PDict p) w))"
| abandon: "conf_typed K C \<Longrightarrow> log_typed g \<Longrightarrow> node_typed acc \<Longrightarrow> json_value (PDict p) \<Longrightarrow>
    f \<in> {finish_run C p el, finish_feedback C p el} \<Longrightarrow> service K wait w (streamed_world (abandoned C g f acc w))"
| time: "service K wait w (meddle (map_option (wait n)) w)"

lemma fresh_state_typed: "typed_state (fresh_state now tid req)"
  by (simp add: fresh_state_def task_create_def Let_def typed_state_def field_type_def d_get_def)

context kv_store
begin

lemma submit_typed:
  assumes "typed_store K (w_store w)"
  shows "typed_store K (w_store (snd (task_submit K now sha256 tid req w)))"
proof (cases "existing_task K sha256 req (w_store w)")
  case None
  then show ?thesis
  proof (rule submit_new [where now = now and tid = tid])
    fix st
    assume s: "task_submit K now sha256 tid req w = (tid,
      say TOPIC_REQUEST (PStr tid) ''submitted'' (submit_payload req) (w\<lparr>w_store := set_state K tid (fresh_state now tid req) st\<rparr>))"
      and "st = (case idem_key sha256 req of None \<Rightarrow> w_store w | Some k \<Rightarrow> idempotent_set K k tid 300 (w_store w))"
    then have "typed_store K st" using assms typed_other(5) by (cases "idem_key sha256 req") auto
    then show ?thesis using typed_set_state [OF _ fresh_state_typed] s by simp
  qed
qed (use assms in \<open>simp add: task_submit_def\<close>)

lemma task_feedback_typed:
  assumes "typed_store K (w_store w)" and "plain_id tid" and "task_feedback K now tid text w = Inr (n, w')"
  shows "typed_store K (w_store w')"
  using assms(3) typed_feedback_transition [OF _ assms(2), of "w_store w" now] assms(1)
  by (auto simp: task_feedback_def Let_def api_bind_def api_of_def split: sum.splits if_splits)

lemma service_step_typed:
  assumes "service K wait w w'" and "typed_store K (w_store w)"
  shows "typed_store K (w_store w')"
  using assms
proof cases
  case (abandon C g acc p f el)
  have f: "keeps K (f a v)" if "node_typed a" "typed_store K (w_store v)" for a and v :: "'r world"
    using keeps_finish [OF abandon(2) that(2,1) abandon(5)] keeps_finish_feedback [OF abandon(2) that(2,1) abandon(5)]
      abandon(6) by blast
  have "streamed_ok K (abandoned C g f acc w)" by (rule abandoned_typed [OF f abandon(2-4) assms(2)])
  then show ?thesis using abandon(1) by (cases "abandoned C g f acc w") simp_all
next
  case (run C g raw)
  then show ?thesis using handle_task_typed [OF run(2,3) assms(2) run(4)] by (simp add: left_by_def keeps_def)
next
  case (round C g p)
  then show ?thesis using handle_feedback_typed [OF round(2,3) assms(2), of "PDict p"] by (simp add: left_by_def keeps_def)
next
  case (cancel tid v st')
  then show ?thesis using assms(2) typed_other(1) [OF assms(2)]
    by (auto simp: task_cancel_def api_bind_def api_of_def Let_def split: option.splits sum.splits if_splits)
next
  case (scan keys clk dt d st')
  then show ?thesis using assms(2) typed_scan [OF scan(2) assms(2)]
    by (auto simp: trigger_stale_scan_def scan_stale_tasks_def api_bind_def api_of_def split: sum.splits option.splits)
qed (use submit_typed task_feedback_typed typed_wait assms(2) in \<open>auto simp: meddle_def\<close>)

lemma service_typed:
  assumes "(service K wait)\<^sup>*\<^sup>* w w'" and "typed_store K (w_store w)"
  shows "typed_store K (w_store w')"
  using assms by (induction rule: rtranclp_induct) (auto intro: service_step_typed)

end

subsection \<open>What the endpoints make of it\<close>

lemma defaults_typed: "(k, v) \<in> set status_fields \<Longrightarrow> json_value v \<and> field_type k v"
proof -
  have "list_all (\<lambda>(k, v). json_value v \<and> field_type k v) status_fields"
    by (simp add: status_fields_def field_type_def)
  then show "(k, v) \<in> set status_fields \<Longrightarrow> json_value v \<and> field_type k v" by (auto simp: list_all_iff)
qed

lemma typed_response:
  assumes "typed_state d" and "d_get d ''task_id'' = Some a" and "d_get d ''status'' = Some b"
  shows "typed_args ([(''task_id'', a), (''status'', b)] @ map (\<lambda>(k, dflt). (k, d_get_or d k dflt)) status_fields)"
proof -
  have t: "typed_args d" using assms(1) by (simp add: typed_state_def)
  have g: "json_value (d_get_or d k v) \<and> field_type k (d_get_or d k v)" if "(k, v) \<in> set status_fields" for k v
    using typed_get [OF t defaults_typed [THEN conjunct1, OF that] defaults_typed [THEN conjunct2, OF that]] .
  have x: "json_value x \<and> field_type k x" if "d_get d k = Some x" for k x
    using t map_of_SomeD [OF that [unfolded d_get_def]] by (auto simp: typed_args_def list_all_iff)
  have "typed_args (map (\<lambda>(k, dflt). (k, d_get_or d k dflt)) fs)" if "set fs \<subseteq> set status_fields" for fs
    using that by (induction fs) (auto simp: g)
  then show ?thesis using x [OF assms(2)] x [OF assms(3)] by simp
qed

lemma typed_readable: "typed_state d \<Longrightarrow> readable (TPoll (Some (PDict d)))"
  using typed_get [of d PNone "''sql''"]
  by (cases "d_get_or d ''sql'' PNone") (auto simp: typed_state_def readable_def field_type_def is_text_def)

text \<open>C23: However clients, workers and feedback rounds interleave, and whatever raises or times out in
  between: the status endpoint answers 404 for a task or sends exactly the declared fields, each of its
  declared type, never an error of validation; and no poll of the event stream fails on the state of a
  task. The nodes of the graph are assumed to write texts, counts and tables where the handlers expect
  them, and the response class to accept what has the declared types.\<close>

theorem status_always_typed:
  assumes "kv_store K wait" and "typed_store K (w_store w)" and "(service K wait)\<^sup>*\<^sup>* w w'" and "plain_id tid"
    and "\<And>d. typed_args d \<Longrightarrow> validate d = Inr d"
  shows "(task_status validate K tid (w_store w') = Inl not_found \<or>
      (\<exists>d. task_status validate K tid (w_store w') = Inr d \<and> typed_args d
        \<and> map fst d = [''task_id'', ''status''] @ map fst status_fields))
    \<and> readable (TPoll (task_get K tid (w_store w')))"
proof -
  have "typed_task K tid (w_store w')"
    using kv_store.service_typed [OF assms(1,3,2)] assms(4) by (simp add: typed_store_def)
  then show ?thesis
  proof (rule typed_task_get)
    assume "task_get K tid (w_store w') = None"
    then show ?thesis by (simp add: task_status_def stored_state_def readable_def)
  next
    fix d assume d: "task_get K tid (w_store w') = Some (PDict d)" "typed_state d"
    then obtain a b where ab: "d_get d ''task_id'' = Some a" "d_get d ''status'' = Some b"
      by (auto simp: typed_state_def)
    let ?r = "[(''task_id'', a), (''status'', b)] @ map (\<lambda>(k, dflt). (k, d_get_or d k dflt)) status_fields"
    have "task_status validate K tid (w_store w') = Inr ?r"
      using d(1) ab assms(5) [OF typed_response [OF d(2) ab]]
      by (simp add: task_status_def stored_state_def as_dict_def py_item_def d_get_def)
    moreover have "map fst ?r = [''task_id'', ''status''] @ map fst status_fields" by auto
    ultimately show ?thesis using typed_response [OF d(2) ab] typed_readable [OF d(2)] d(1) by auto
  qed
qed

definition check_fields :: "pydict \<Rightarrow> pydict py" where
  "check_fields d = (if list_all (\<lambda>(k, v). field_type k v) d then Inr d else Inl (PyExc ''ValidationError'' []))"

theorem status_always_typed_witness:
  "\<exists>w' d. (service redis_kv redis_wait)\<^sup>*\<^sup>* \<lparr>w_store = Some redis_empty, w_broker = open_broker\<rparr> w'
    \<and> task_status check_fields redis_kv ''a1'' (w_store w') = Inr d \<and> typed_args d
    \<and> d_get_or d ''status'' PNone = PStr ''PENDING''"
proof -
  let ?w = "\<lparr>w_store = Some redis_empty, w_broker = open_broker\<rparr>"
  let ?w1 = "snd (task_submit redis_kv (\<lambda>i. ''t'') (\<lambda>s. s) ''a1'' demo_submit ?w)"
  let ?f = "fresh_state (\<lambda>i. ''t'') ''a1'' demo_submit"
  have t0: "typed_store redis_kv (w_store ?w)"
    by (simp add: typed_store_def typed_task_def redis_kv_def redis_get_def redis_empty_def)
  have s: "(service redis_kv redis_wait)\<^sup>*\<^sup>* ?w ?w1"
    by (rule r_into_rtranclp, rule service.submit) (simp add: plain_id_def)
  have v: "check_fields d = Inr d" if "typed_args d" for d
    using that by (auto simp: check_fields_def typed_args_def list_all_iff)
  have "existing_task redis_kv (\<lambda>s. s) demo_submit (w_store ?w) = None"
    by (simp add: existing_task_def idempotent_check_def redis_kv_def redis_get_def redis_empty_def split: option.split)
  then obtain r where w1: "w_store ?w1 = set_state redis_kv ''a1'' ?f (Some r)"
    by (rule submit_new [where now = "\<lambda>i. ''t''" and tid = "''a1''"]) (cases "idem_key (\<lambda>s. s) demo_submit"; simp add: idempotent_set_def)
  have g: "task_get redis_kv ''a1'' (w_store ?w1) = Some (PDict ?f)"
    using redis.get_set_state [OF fresh_state_good(1), of "''a1''" "''a1''" "\<lambda>i. ''t''" "''a1''" demo_submit r] w1 by simp
  then have "task_status check_fields redis_kv ''a1'' (w_store ?w1) \<noteq> Inl not_found"
    by (auto simp: task_status_def stored_state_def as_dict_def api_bind_def api_of_def not_found_def split: sum.split)
  then obtain d where d: "task_status check_fields redis_kv ''a1'' (w_store ?w1) = Inr d" "typed_args d"
    using status_always_typed [OF redis.kv_store_axioms t0 s _ v, of "''a1''"] by (auto simp: plain_id_def)
  have "d_get_or d ''status'' PNone = PStr ''PENDING''"
    using d(1) g fresh_state_good(2) [of "\<lambda>i. ''t''" "''a1''" demo_submit PNone]
    by (auto simp: task_status_def stored_state_def as_dict_def api_bind_def api_of_def py_item_def check_fields_def d_get_or_def d_get_def
        split: sum.splits option.splits if_splits)
  then show ?thesis using s d by blast
qed

end
