(* ===== verification/BirdSample.thy ===== *)
theory BirdSample
  imports EvalTasks Worker
begin

text \<open>
  \<open>evaluation/bird_loader.py\<close>, \<open>evaluation/precompute_gold.py\<close> and the first half of
  \<open>evaluation/run.py\<close>: the samples of the benchmark, the reference results computed in advance, and the
  evaluation of one sample with its round of evidence feedback. Files, clocks and the order of the graph
  library are parameters.
\<close>

subsection \<open>The data set\<close>

record bird_sample =
  bs_id :: string
  bs_question :: string
  bs_gold_sql :: string
  bs_db_id :: string
  bs_difficulty :: string
  bs_evidence :: string
  bs_path :: string

text \<open>\<open>os.path.join\<close>\<close>

definition path_join :: "string \<Rightarrow> string \<Rightarrow> string" where
  "path_join a b =
     (if prefix ''/'' b \<or> a = [] then b else if last a = CHR ''/'' then a @ b else a @ ''/'' @ b)"

text \<open>A field that must be a text; the annotations of the class say so.\<close>

definition text_item :: "pyv \<Rightarrow> string \<Rightarrow> string py" where
  "text_item item k = py_bind (py_item item k) (\<lambda>v. case v of PStr s \<Rightarrow> Inr s | _ \<Rightarrow> unexpected v)"

definition text_get :: "pyv \<Rightarrow> string \<Rightarrow> string \<Rightarrow> string py" where
  "text_get item k dflt = py_bind (py_get_or item k (PStr dflt)) (\<lambda>v. case v of PStr s \<Rightarrow> Inr s | _ \<Rightarrow> unexpected v)"

text \<open>\<open>there\<close> tells which paths exist, \<open>glob\<close> the SQLite files of a directory.\<close>

definition sample_path :: "(string \<Rightarrow> bool) \<Rightarrow> (string \<Rightarrow> string list) \<Rightarrow> string \<Rightarrow> string \<Rightarrow> string py" where
  "sample_path there glob db_dir db_id =
     (let db_path = path_join (path_join db_dir db_id) (db_id @ ''.sqlite'')
      in if there db_path then Inr db_path
         else (case glob (path_join db_dir db_id) of
             p # ps \<Rightarrow> Inr p
           | [] \<Rightarrow> Inl (PyExc ''FileNotFoundError''
               (''Database not found for db_id='' @ db_id @ '': expected '' @ db_path))))"

definition sample_of :: "(string \<Rightarrow> bool) \<Rightarrow> (string \<Rightarrow> string list) \<Rightarrow> string \<Rightarrow> pyv \<Rightarrow> bird_sample py" where
  "sample_of there glob db_dir item =
     py_bind (text_item item ''db_id'') (\<lambda>db_id.
     py_bind (sample_path there glob db_dir db_id) (\<lambda>db_path.
     py_bind (py_item item ''question_id'') (\<lambda>qid.
     py_bind (text_item item ''question'') (\<lambda>question.
     py_bind (text_item item ''SQL'') (\<lambda>gold_sql.
     py_bind (text_get item ''difficulty'' ''?'') (\<lambda>difficulty.
     py_bind (text_get item ''evidence'' []) (\<lambda>evidence.
       Inr \<lparr>bs_id = py_str qid, bs_question = question, bs_gold_sql = gold_sql, bs_db_id = db_id,
            bs_difficulty = difficulty, bs_evidence = evidence, bs_path = db_path\<rparr>)))))))"

text \<open>\<open>raw\<close> is the text of \<open>mini_dev_sqlite.json\<close>.\<close>

definition load_bird_dev :: "(string \<Rightarrow> bool) \<Rightarrow> (string \<Rightarrow> string list) \<Rightarrow> string \<Rightarrow> string \<Rightarrow> bird_sample list py" where
  "load_bird_dev there glob base raw =
     py_bind (json_loads raw) (\<lambda>v. py_bind (py_iter v) (py_map (sample_of there glob (path_join base ''dev_databases''))))"

definition bird_url :: "bird_sample \<Rightarrow> string" where
  "bird_url s = ''sqlite:///'' @ map (\<lambda>c. if c = CHR 0x5C then CHR ''/'' else c) (bs_path s)"

record bird_stats =
  bt_total :: nat
  bt_databases :: nat
  bt_db_ids :: "string list"
  bt_difficulty :: "(string \<times> nat) list"

definition bird_stats_of :: "bird_sample list \<Rightarrow> bird_stats" where
  "bird_stats_of samples =
     (let db_ids = remdups (map bs_db_id samples)
      in \<lparr>bt_total = length samples, bt_databases = length db_ids, bt_db_ids = sort db_ids,
          bt_difficulty = map (\<lambda>d. (d, length (filter (\<lambda>s. lower (bs_difficulty s) = d) samples)))
            [''simple'', ''moderate'', ''challenging'']\<rparr>)"

subsection \<open>Reference results computed in advance\<close>

text \<open>How the reference query of a sample went\<close>

datatype gold_status = GoldOk | GoldError | GoldTimeout

record gold_run =
  gr_status :: gold_status
  gr_norm :: "ncell list list option"
  gr_error :: string
  gr_ms :: rat
  gr_rows :: int

definition gold_failed :: "gold_status \<Rightarrow> string \<Rightarrow> rat \<Rightarrow> gold_run" where
  "gold_failed status err ms = \<lparr>gr_status = status, gr_norm = None, gr_error = err, gr_ms = ms, gr_rows = 0\<rparr>"

text \<open>The driver of the standard library, for texts the first one takes for parameters: rows or an exception\<close>

type_synonym raw_driver = "string \<Rightarrow> string \<Rightarrow> row list py"

definition gold_exec :: "sqlglot \<Rightarrow> database \<Rightarrow> raw_driver \<Rightarrow> (nat \<Rightarrow> rat) \<Rightarrow> bird_sample \<Rightarrow> gold_run py" where
  "gold_exec sg db raw t s =
     (let database_url = bird_url s
      in py_bind (execute_sql sg db (bs_gold_sql s) DEFAULT_MAX_ROWS (Some database_url)) (\<lambda>r.
         let gold_time = (t 1 - t 0) * 1000
         in if er_success r
            then Inr \<lparr>gr_status = GoldOk, gr_norm = Some (normalize_rows (or_default [] (er_data r))), gr_error = [],
                      gr_ms = gold_time, gr_rows = er_row_count r\<rparr>
            else (case er_error r of
                None \<Rightarrow> Inl (no_attribute PNone ''lower'')
              | Some err \<Rightarrow>
                  if str_in ''bind parameter'' (lower err)
                  then Inr (case raw (replace_all ''sqlite:///'' [] database_url) (bs_gold_sql s) of
                      Inr rows \<Rightarrow> \<lparr>gr_status = GoldOk, gr_norm = Some (normalize_rows rows), gr_error = [],
                        gr_ms = (t 3 - t 2) * 1000, gr_rows = int (length rows)\<rparr>
                    | Inl e2 \<Rightarrow> gold_failed GoldError
                        (take 200 (take 80 err @ ''; sqlite3 fallback: '' @ exc_msg e2)) gold_time)
                  else Inr (gold_failed GoldError (take 200 err) gold_time))))"

definition run_gold :: "sqlglot \<Rightarrow> database \<Rightarrow> raw_driver \<Rightarrow> (nat \<Rightarrow> rat) \<Rightarrow> bool \<Rightarrow> nat \<Rightarrow> bird_sample \<Rightarrow> gold_run py" where
  "run_gold sg db raw t timed_out timeout_s s =
     (if timed_out
      then Inr (gold_failed GoldTimeout (''gold SQL timeout ('' @ show_nat timeout_s @ ''s)'') (of_nat timeout_s * 1000))
      else gold_exec sg db raw t s)"

text \<open>What is kept of it; \<open>''?''\<close> is what \<open>exec_match\<close> shows when there is no text.\<close>

definition gold_entry :: "gold_run \<Rightarrow> gold_cache" where
  "gold_entry g =
     (case gr_status g of
        GoldOk \<Rightarrow> \<lparr>gc_norm = gr_norm g, gc_ms = gr_ms g, gc_rows = gr_rows g, gc_error = ''?''\<rparr>
      | _ \<Rightarrow> \<lparr>gc_norm = None, gc_ms = gr_ms g, gc_rows = 0, gc_error = take 80 (gr_error g)\<rparr>)"

text \<open>One database: only samples without an entry run, in the order in which they complete. An exception
  of a run ends the program.\<close>

fun precompute :: "(bird_sample \<Rightarrow> gold_run py) \<Rightarrow> bird_sample list \<Rightarrow> (string \<times> gold_cache) list \<Rightarrow> (string \<times> gold_cache) list py" where
  "precompute run [] cache = Inr cache"
| "precompute run (s # ss) cache =
     py_bind (run s) (\<lambda>g. precompute run ss (AList.update (bs_id s) (gold_entry g) cache))"

definition precompute_db ::
  "(bird_sample \<Rightarrow> gold_run py) \<Rightarrow> (bird_sample list \<Rightarrow> bird_sample list) \<Rightarrow> bird_sample list \<Rightarrow> (string \<times> gold_cache) list
    \<Rightarrow> (string \<times> gold_cache) list py" where
  "precompute_db run order db_samples cache =
     precompute run (order (filter (\<lambda>s. map_of cache (bs_id s) = None) db_samples)) cache"

subsection \<open>Configurations\<close>

text \<open>A dictionary whose keys may be missing\<close>

record bird_config =
  bc_name :: string
  bc_rag_schema :: "bool option"
  bc_rag_domain :: "bool option"
  bc_skip_schema :: "bool option"
  bc_sample_rows :: "bool option"
  bc_multi_candidate :: "bool option"
  bc_k :: "int option"
  bc_column_prune :: "bool option"
  bc_fewshot :: "bool option"
  bc_decomposer :: "bool option"
  bc_evidence_feedback :: "bool option"
  bc_knowledge :: "string option"

definition ablation_step :: "string \<Rightarrow> bool \<Rightarrow> bool \<Rightarrow> bool \<Rightarrow> bool option \<Rightarrow> bool \<Rightarrow> bool option \<Rightarrow> bird_config" where
  "ablation_step name decomposer rag multi prune fewshot feedback =
     \<lparr>bc_name = name, bc_rag_schema = Some rag, bc_rag_domain = Some rag, bc_skip_schema = None, bc_sample_rows = Some rag,
      bc_multi_candidate = Some multi, bc_k = None, bc_column_prune = prune, bc_fewshot = Some fewshot,
      bc_decomposer = Some decomposer, bc_evidence_feedback = feedback, bc_knowledge = None\<rparr>"

definition default_configs :: "bird_config list" where
  "default_configs =
     [ablation_step ''R0_Baseline'' False False False None False None,
      ablation_step ''R1_Decomposer'' True False False None False None,
      ablation_step ''R2_RAG'' True True False None False None,
      ablation_step ''R3_MultiCandidate'' True True True None False None,
      ablation_step ''R4_PruneFewshot'' True True True (Some True) True None,
      ablation_step ''R5_EvidenceFeedback'' True True True (Some True) True (Some True)]"

text \<open>\<open>_resolve_configs\<close>: a name or a short form of it; names that match nothing are skipped.\<close>

definition resolve_configs :: "bird_config list \<Rightarrow> string \<Rightarrow> bird_config list" where
  "resolve_configs all_configs names_str =
     concat (map (\<lambda>n. let name = strip n in
         case map_of (rev (map (\<lambda>c. (bc_name c, c)) all_configs)) name of
           Some c \<Rightarrow> [c]
         | None \<Rightarrow> take 1 (filter (\<lambda>c. prefix (name @ ''_'') (bc_name c) \<or> bc_name c = name) all_configs))
       (split '','' names_str))"

definition domain_override :: "bird_sample \<Rightarrow> string \<Rightarrow> string" where
  "domain_override s knowledge = (if knowledge = ''evidence'' then bs_evidence s else [])"

subsection \<open>One sample\<close>

text \<open>What an evaluation runs on: the nodes of both graphs at each step, parser and database, clock and
  timeout of each comparison, the readings of the clock in seconds, the fresh log, and the log at the
  moment of an exception of the graph.\<close>

record bird_env =
  be_graph :: "nat \<Rightarrow> node_env"
  be_feedback :: "nat \<Rightarrow> node_env"
  be_sg :: sqlglot
  be_db :: database
  be_times :: "nat \<Rightarrow> nat \<Rightarrow> rat"
  be_timed_out :: "nat \<Rightarrow> bool"
  be_clock :: "nat \<Rightarrow> rat"
  be_error_clock :: reading
  be_tlog :: tracer
  be_lost :: tracer

record bird_result =
  br_id :: string
  br_db_id :: string
  br_difficulty :: string
  br_knowledge :: string
  br_ex :: bool
  br_ves :: real
  br_detail :: string
  br_gen_sql :: string
  br_gold_sql :: string
  br_usage :: usage
  br_elapsed_s :: rat
  br_elapsed_graph_s :: rat
  br_elapsed_match_s :: rat
  br_last_node :: pyv
  br_node_timings :: "(string \<times> rat) list"
  br_trace_events :: "event list"
  br_router_score :: "int option"
  br_router_method :: "string option"
  br_router_complexity :: "string option"
  br_trace_id :: string
  br_guard_pass :: "bool option"
  br_guard_issue_count :: nat
  br_ast_pass :: "bool option"
  br_semantic_pass :: "bool option"
  br_semantic_feedback :: string
  br_sem_reject_count :: int
  br_retry_count :: int
  br_candidate_count :: nat
  br_decomposer_used :: bool
  br_sub_question_count :: nat
  br_recall :: "rag_recall option"
  br_feedback_ex :: "bool option"
  br_feedback_sql :: string
  br_feedback_fixed :: "bool option"          \<comment> \<open>a sample that crashed has no such key\<close>
  br_feedback_detail :: string

definition bird_start :: "bird_env \<Rightarrow> bird_sample \<Rightarrow> bird_config \<Rightarrow> string \<Rightarrow> agent_state" where
  "bird_start E s cfg knowledge =
     (let rag = (\<lambda>flag. if knowledge = ''none'' then False else or_default False flag)
      in (init_state (bs_question s))
        \<lparr>s_db_id := Some (bs_db_id s), s_rag_schema := Some (rag (bc_rag_schema cfg)), s_rag_domain := Some (rag (bc_rag_domain cfg)),
         s_skip_schema := Some (or_default False (bc_skip_schema cfg)), s_sample_rows := Some (or_default True (bc_sample_rows cfg)),
         s_rag_k := Some (or_default 8 (bc_k cfg)), s_rag_column_prune := Some (or_default False (bc_column_prune cfg)),
         s_fewshot_enabled := Some (or_default False (bc_fewshot cfg)), s_decomposer_enabled := Some (or_default False (bc_decomposer cfg)),
         s_database_url := Some (bird_url s), s_domain_override := Some (domain_override s knowledge),
         s_tlog := Some (be_tlog E)\<rparr>)"

text \<open>The fuel is that of \<open>pipeline_terminates\<close>.\<close>

definition invoke :: "(node \<Rightarrow> agent_state \<Rightarrow> target) \<Rightarrow> (nat \<Rightarrow> node_env) \<Rightarrow> node \<Rightarrow> agent_state \<Rightarrow> agent_state py" where
  "invoke nxt env n s0 =
     (case snd (graph_run nxt (\<lambda>i. run_node (env i)) (10 + 6 * rounds_left s0) 0 (At n s0)) of
        Done s \<Rightarrow> Inr s
      | conf.Raised e \<Rightarrow> Inl e
      | At m s \<Rightarrow> Inl (PyExc ''GraphRecursionError'' []))"

text \<open>The node of the latest event with one of the names\<close>

definition last_node :: "string list \<Rightarrow> event list \<Rightarrow> pyv" where
  "last_node names es =
     (case find (\<lambda>e. event_name e \<in> PStr ` set names) (rev es) of
        None \<Rightarrow> PStr ''?'' | Some e \<Rightarrow> d_get_or e ''node'' (PStr ''?''))"

definition unmatched :: "string \<Rightarrow> match_info" where
  "unmatched detail = no_match detail 0 0 0 0"

text \<open>The round of feedback with the hint of the data set; no node sets \<open>chosen_sql\<close>, so only \<open>sql\<close> counts. The name \<open>gold_entry\<close> is bound only where the first
  query was compared; otherwise its use raises, which the handler turns into a failed round.\<close>

definition unbound_gold :: py_exc where
  "unbound_gold = PyExc ''UnboundLocalError''
     (''cannot access local variable '' @ [CHR 0x27] @ ''gold_entry'' @ [CHR 0x27] @ '' where it is not associated with a value'')"

definition feedback_start :: "bird_sample \<Rightarrow> agent_state \<Rightarrow> tracer option \<Rightarrow> string \<Rightarrow> agent_state" where
  "feedback_start s state tlog gen_sql = (init_state (bs_question s))
     \<lparr>s_db_id := Some (bs_db_id s), s_database_url := Some (bird_url s), s_user_feedback := Some (strip (bs_evidence s)),
      s_schema_text := Some (or_default [] (s_schema_text state)), s_notes_text := Some (or_default [] (s_notes_text state)),
      s_fewshot_text := Some (or_default [] (s_fewshot_text state)), s_sql := Some gen_sql, s_last_sql := Some gen_sql,
      s_exec_result := Some (or_default None (s_exec_result state)), s_retry_count := Some 0, s_max_retries := Some 1,
      s_rag_schema := Some True, s_rag_domain := Some True, s_fewshot_enabled := Some True, s_tlog := tlog\<rparr>"

record feedback_out =
  fo_ex :: "bool option"
  fo_sql :: string
  fo_fixed :: bool
  fo_detail :: string

definition no_feedback :: feedback_out where
  "no_feedback = \<lparr>fo_ex = None, fo_sql = [], fo_fixed = False, fo_detail = []\<rparr>"

definition failed_round :: "string \<Rightarrow> py_exc \<Rightarrow> feedback_out" where
  "failed_round sql e = \<lparr>fo_ex = Some False, fo_sql = sql, fo_fixed = False, fo_detail = exc_type e @ '': '' @ take 150 (exc_msg e)\<rparr>"

definition evidence_round ::
  "bird_env \<Rightarrow> bird_sample \<Rightarrow> agent_state \<Rightarrow> tracer option \<Rightarrow> string \<Rightarrow> gold_cache option py \<Rightarrow> feedback_out" where
  "evidence_round E s state tlog gen_sql entry =
     (case invoke next_feedback (be_feedback E) NRefiner (feedback_start s state tlog gen_sql) of
        Inl e \<Rightarrow> failed_round [] e
      | Inr fb \<Rightarrow>
          (let fb_sql = or_default [] (s_sql fb)
           in if fb_sql = []
              then \<lparr>fo_ex = Some False, fo_sql = [], fo_fixed = False, fo_detail = ''Evidence feedback produced no SQL''\<rparr>
              else (case py_bind entry (\<lambda>g. exec_match (be_sg E) (be_db E) (be_times E 1) (be_timed_out E 1) g
                        (bs_gold_sql s) fb_sql (Some (bird_url s))) of
                  Inl e \<Rightarrow> failed_round fb_sql e
                | Inr mi \<Rightarrow> \<lparr>fo_ex = Some (mi_ex mi), fo_sql = fb_sql, fo_fixed = mi_ex mi, fo_detail = mi_detail mi\<rparr>)))"

text \<open>\<open>evaluate_bird_sample\<close>. An exception of the graph is caught and leaves the empty state; one of the
  comparison or of the recall is not.\<close>

definition evaluate_bird_sample ::
  "bird_env \<Rightarrow> bird_sample \<Rightarrow> bird_config \<Rightarrow> string \<Rightarrow> (string \<times> gold_cache) list \<Rightarrow> bird_result py" where
  "evaluate_bird_sample E s cfg knowledge cache =
     (let run = invoke next_full (be_graph E) NRouter (bird_start E s cfg knowledge);
          state = (case run of Inl e \<Rightarrow> init_state (bs_question s) | Inr st \<Rightarrow> st);
          gen_sql = or_default [] (s_sql state);
          entry = (if cache = [] then None else map_of cache (bs_id s));
          lost_node = last_node [''node_enter''] (events (be_lost E));
          tlog = (case run of
              Inl e \<Rightarrow> Some (node_error (be_error_clock E) (py_str lost_node) (exc_type e) (take 300 (exc_msg e)) (be_lost E))
            | Inr st \<Rightarrow> s_tlog st);
          trace_events = (case run of Inl e \<Rightarrow> [] | Inr st \<Rightarrow> (case tlog of None \<Rightarrow> [] | Some tr \<Rightarrow> events tr));
          graph_error = (case run of Inl e \<Rightarrow> exc_type e @ '': '' @ take 180 (exc_msg e) | Inr st \<Rightarrow> [])
      in py_bind (if gen_sql \<noteq> []
            then exec_match (be_sg E) (be_db E) (be_times E 0) (be_timed_out E 0) entry (bs_gold_sql s) gen_sql (Some (bird_url s))
            else Inr (unmatched (if graph_error \<noteq> [] then graph_error else ''SQL generation failed''))) (\<lambda>mi.
         let fo = (if or_default False (bc_evidence_feedback cfg) \<and> \<not> mi_ex mi \<and> strip (bs_evidence s) \<noteq> []
                   then evidence_round E s state tlog gen_sql (if gen_sql \<noteq> [] then Inr entry else Inl unbound_gold)
                   else no_feedback)
         in py_bind (compute_rag_recall (be_sg E) (or_default [] (s_rag_chunks state)) (bs_gold_sql s) ''sqlite'') (\<lambda>recall.
         Inr \<lparr>br_id = bs_id s, br_db_id = bs_db_id s, br_difficulty = bs_difficulty s, br_knowledge = knowledge,
           br_ex = mi_ex mi, br_ves = round4 (ves_score (mi_ex mi) (of_rat (mi_gold_ms mi)) (of_rat (mi_gen_ms mi))),
           br_detail = mi_detail mi, br_gen_sql = take 300 gen_sql, br_gold_sql = take 300 (bs_gold_sql s),
           br_usage = or_default [] (s_token_usage state),
           br_elapsed_s = round_dec 2 (be_clock E 2 - be_clock E 0), br_elapsed_graph_s = round_dec 3 (be_clock E 1 - be_clock E 0),
           br_elapsed_match_s = round_dec 4 (be_clock E 2 - be_clock E 1),
           br_last_node = (case run of Inl e \<Rightarrow> lost_node | Inr st \<Rightarrow> last_node [''node_exit'', ''node_enter''] trace_events),
           br_node_timings = (case run of Inl e \<Rightarrow> [] | Inr st \<Rightarrow> (case tlog of None \<Rightarrow> [] | Some tr \<Rightarrow> get_node_timings tr)),
           br_trace_events = trace_events,
           br_router_score = s_router_score state, br_router_method = s_router_method state,
           br_router_complexity = s_complexity state, br_trace_id = trace_id (be_tlog E),
           br_guard_pass = s_guard_pass state, br_guard_issue_count = length (or_default [] (s_guard_issues state)),
           br_ast_pass = s_ast_pass state, br_semantic_pass = s_semantic_pass state,
           br_semantic_feedback = take 200 (or_default [] (s_semantic_feedback state)),
           br_sem_reject_count = or_default 0 (s_sem_reject_count state), br_retry_count = or_default 0 (s_retry_count state),
           br_candidate_count = length (or_default [] (s_candidate_sqls state)),
           br_decomposer_used = (s_complexity state = Some ''complex'' \<and> or_default False (s_decomposer_enabled state)),
           br_sub_question_count = length (or_default [] (s_sub_questions state)),
           br_recall = recall, br_feedback_ex = fo_ex fo, br_feedback_sql = take 300 (fo_sql fo),
           br_feedback_fixed = Some (fo_fixed fo), br_feedback_detail = fo_detail fo\<rparr>)))"

text \<open>The result names its sample.\<close>

lemma evaluated_sample:
  assumes "evaluate_bird_sample E s cfg knowledge cache = Inr r"
  shows "br_id r = bs_id s" and "br_difficulty r = bs_difficulty s" and "br_db_id r = bs_db_id s"
  using assms by (auto simp: evaluate_bird_sample_def Let_def py_bind_Inr_iff)

lemma evidence_round_fixed:
  "fo_fixed (evidence_round E s state tlog gen_sql entry) \<longleftrightarrow> fo_ex (evidence_round E s state tlog gen_sql entry) = Some True"
  by (auto simp: evidence_round_def failed_round_def Let_def split: sum.split)

definition unbound_detail :: string where
  "unbound_detail = ''UnboundLocalError: '' @ exc_msg unbound_gold"

lemma evidence_round_unbound:
  "fo_sql (evidence_round E s state tlog gen_sql (Inl unbound_gold)) \<noteq> [] \<Longrightarrow>
    fo_detail (evidence_round E s state tlog gen_sql (Inl unbound_gold)) = unbound_detail"
  "fo_ex (evidence_round E s state tlog gen_sql (Inl unbound_gold)) \<noteq> Some True"
proof -
  have "exc_type unbound_gold @ '': '' @ take 150 (exc_msg unbound_gold) = unbound_detail"
    by (simp add: unbound_detail_def unbound_gold_def)
  then show "fo_sql (evidence_round E s state tlog gen_sql (Inl unbound_gold)) \<noteq> [] \<Longrightarrow>
      fo_detail (evidence_round E s state tlog gen_sql (Inl unbound_gold)) = unbound_detail"
    "fo_ex (evidence_round E s state tlog gen_sql (Inl unbound_gold)) \<noteq> Some True"
    by (auto simp: evidence_round_def failed_round_def Let_def split: sum.splits)
qed

text \<open>Evidence feedback: it is tried only for a sample that failed and has a hint, it counts as a fix exactly
  when the rows of its query are those of the reference, and it never fixes a sample whose first run
  produced no query: the query of the round is then found but its comparison raises, because the name
  \<open>gold_entry\<close> was never bound.\<close>

theorem evidence_feedback_needs_first_query:
  assumes "evaluate_bird_sample E s cfg knowledge cache = Inr r"
  shows "(br_feedback_ex r \<noteq> None \<longrightarrow> or_default False (bc_evidence_feedback cfg) \<and> \<not> br_ex r \<and> strip (bs_evidence s) \<noteq> [])
    \<and> (br_feedback_fixed r = Some True \<longleftrightarrow> br_feedback_ex r = Some True)
    \<and> (br_gen_sql r = [] \<longrightarrow> \<not> br_ex r \<and> br_feedback_fixed r = Some False
        \<and> (br_feedback_sql r \<noteq> [] \<longrightarrow> br_feedback_detail r = unbound_detail))"
  using assms
  by (auto simp: evaluate_bird_sample_def Let_def py_bind_Inr_iff no_feedback_def unmatched_def no_match_def
      evidence_round_fixed evidence_round_unbound split: if_splits)

text \<open>A sample without a database, so that the retrieval raises\<close>

definition hint_sample :: bird_sample where
  "hint_sample = \<lparr>bs_id = ''7'', bs_question = ''How many?'', bs_gold_sql = ''SELECT 1'', bs_db_id = [],
     bs_difficulty = ''simple'', bs_evidence = ''Count the rows.'', bs_path = ''/d/shop.sqlite''\<rparr>"

definition hint_config :: bird_config where
  "hint_config = ablation_step ''R5'' False True False None False (Some True)"

definition hint_env :: bird_env where
  "hint_env = \<lparr>be_graph = (\<lambda>i. plain_env silent_llm), be_feedback = (\<lambda>i. plain_env demo_llm), be_sg = demo_sg demo_ast,
     be_db = demo_db, be_times = (\<lambda>i n. 0), be_timed_out = (\<lambda>i. False), be_clock = of_nat, be_error_clock = tick 0,
     be_tlog = tracer_init None ''t1'', be_lost = tracer_init None ''t1''\<rparr>"

lemma hint_run: "invoke next_full (be_graph hint_env) NRouter (bird_start hint_env hint_sample hint_config ''rag'') = Inl no_db_id"
proof -
  let ?s = "bird_start hint_env hint_sample hint_config ''rag''"
  have f: "s_rag_schema ?s = Some True" "s_db_id ?s = Some []" "s_max_retries ?s = None" "s_retry_count ?s = None"
    by (simp_all add: bird_start_def hint_sample_def hint_config_def ablation_step_def init_state_def)
  obtain s1 where 1: "run_node (plain_env silent_llm) NRouter ?s = Inr s1" "s_rag_schema s1 = Some True" "s_db_id s1 = Some []"
    using f by (simp add: router_node_def Let_def case_prod_unfold set_latency_def)
  have 2: "\<exists>lg. run_node (plain_env silent_llm) NSchemaRetriever s1 = Inl (no_db_id, lg)"
    using 1 by (simp add: schema_retriever_node_def Let_def fetch_chunks_def)
  have fuel: "10 + 6 * rounds_left ?s = Suc (Suc 20)" using f by (simp add: rounds_left_def)
  have e: "be_graph hint_env = (\<lambda>i. plain_env silent_llm)" by (simp add: hint_env_def)
  have "snd (graph_run next_full (\<lambda>i. run_node (plain_env silent_llm)) (Suc (Suc 20)) 0 (At NRouter ?s)) = conf.Raised no_db_id"
    using 1(1) 2 by (auto simp only: graph_run.simps exec_node_def conf_of_def next_full.simps sum.case target.case Let_def
        prod.case snd_conv)
  then show ?thesis unfolding invoke_def fuel e by simp
qed

lemma evidence_round_tried: "\<exists>b. fo_ex (evidence_round E s state tlog gen_sql entry) = Some b"
  by (auto simp: evidence_round_def failed_round_def Let_def split: sum.split)

theorem evidence_feedback_needs_first_query_witness:
  "\<exists>r. evaluate_bird_sample hint_env hint_sample hint_config ''rag'' [] = Inr r \<and> br_gen_sql r = []
    \<and> br_feedback_ex r = Some False \<and> br_feedback_fixed r = Some False"
proof -
  let ?x = "evaluate_bird_sample hint_env hint_sample hint_config ''rag'' []"
  have hint: "strip (bs_evidence hint_sample) \<noteq> []" by code_simp
  have "py_ok (\<lambda>r. br_gen_sql r = [] \<and> br_feedback_ex r \<noteq> None) ?x"
    unfolding evaluate_bird_sample_def hint_run using hint
    by (simp add: Let_def init_state_def unmatched_def no_match_def compute_rag_recall_def py_ok_iff hint_config_def
        ablation_step_def evidence_round_tried)
  then obtain r where "?x = Inr r" "br_gen_sql r = []" "br_feedback_ex r \<noteq> None" by (auto simp: py_ok_iff)
  then show ?thesis using evidence_feedback_needs_first_query [of hint_env hint_sample hint_config "''rag''" "[]" r]
    by (cases "br_feedback_ex r") auto
qed

end
