(* ===== verification/BirdRun.thy ===== *)
theory BirdRun
  imports BirdSample
begin

text \<open>
  \<open>evaluation/run.py\<close>, \<open>run_bird_eval\<close>: the samples of one configuration on a pool of threads, with a time
  limit and two retries for each. What happens between two looks of the main thread is a parameter: which
  futures are done, and what the clock shows. \<open>work f s\<close> is what running the sample \<open>s\<close> as future number
  \<open>f\<close> gives.
\<close>

subsection \<open>Counting results\<close>

record route_trace =
  rt_id :: string
  rt_difficulty :: string
  rt_score_of :: int
  rt_method_of :: "string option"
  rt_complexity_of :: "string option"
  rt_passed :: bool

record timeout_event =
  te_id :: string
  te_db_id :: string
  te_difficulty :: string
  te_retry :: nat
  te_timeout_s :: nat
  te_action :: string

record bird_tally =
  bl_results :: "bird_result list"
  bl_passed :: nat
  bl_crashed :: nat
  bl_completed :: nat
  bl_time :: rat
  bl_ves :: real
  bl_tokens :: usage
  bl_diff :: "(string \<times> diff_stats) list"
  bl_routes :: "route_trace list"
  bl_recall_sum :: rat
  bl_recall_count :: nat
  bl_timeouts :: "timeout_event list"

definition bird_start_tally :: bird_tally where
  "bird_start_tally = \<lparr>bl_results = [], bl_passed = 0, bl_crashed = 0, bl_completed = 0, bl_time = 0, bl_ves = 0,
     bl_tokens = zero_usage, bl_diff = [], bl_routes = [], bl_recall_sum = 0, bl_recall_count = 0, bl_timeouts = []\<rparr>"

definition bird_diff :: "string \<Rightarrow> bird_tally \<Rightarrow> diff_stats" where
  "bird_diff d t = (case map_of (bl_diff t) d of None \<Rightarrow> no_stats | Some x \<Rightarrow> x)"

definition count_result :: "bird_result \<Rightarrow> bird_tally \<Rightarrow> bird_tally" where
  "count_result r t =
     (let d = br_difficulty r; x = bird_diff d t;
          x = x\<lparr>ds_passed := ds_passed x + (if br_ex r then 1 else 0), ds_ves_sum := ds_ves_sum x + (if br_ex r then br_ves r else 0),
                ds_total := ds_total x + 1, ds_tokens := ds_tokens x + usage_get (br_usage r) ''total'',
                ds_time := ds_time x + br_elapsed_s r\<rparr>
      in t\<lparr>bl_results := bl_results t @ [r], bl_passed := bl_passed t + (if br_ex r then 1 else 0),
           bl_completed := bl_completed t + 1, bl_time := bl_time t + br_elapsed_s r, bl_ves := bl_ves t + br_ves r,
           bl_tokens := add_usage (bl_tokens t) (br_usage r), bl_diff := AList.update d x (bl_diff t),
           bl_recall_sum := bl_recall_sum t + (case br_recall r of None \<Rightarrow> 0 | Some q \<Rightarrow> rr_recall q),
           bl_recall_count := bl_recall_count t + (if br_recall r = None then 0 else 1),
           bl_routes := bl_routes t @ (case br_router_score r of None \<Rightarrow> [] | Some n \<Rightarrow>
             [\<lparr>rt_id = br_id r, rt_difficulty = br_difficulty r, rt_score_of = n, rt_method_of = br_router_method r,
               rt_complexity_of = br_router_complexity r, rt_passed = br_ex r\<rparr>])\<rparr>)"

text \<open>The result of a sample that gave none\<close>

definition crash_result :: "bird_sample \<Rightarrow> string \<Rightarrow> string \<Rightarrow> bird_result" where
  "crash_result s knowledge detail =
     \<lparr>br_id = bs_id s, br_db_id = bs_db_id s, br_difficulty = bs_difficulty s, br_knowledge = knowledge, br_ex = False,
      br_ves = 0, br_detail = take 200 detail, br_gen_sql = [], br_gold_sql = take 300 (bs_gold_sql s), br_usage = [],
      br_elapsed_s = 0, br_elapsed_graph_s = 0, br_elapsed_match_s = 0, br_last_node = PStr ''?'', br_node_timings = [],
      br_trace_events = [], br_router_score = None, br_router_method = None, br_router_complexity = None, br_trace_id = [],
      br_guard_pass = None, br_guard_issue_count = 0, br_ast_pass = None, br_semantic_pass = None, br_semantic_feedback = [],
      br_sem_reject_count = 0, br_retry_count = 0, br_candidate_count = 0, br_decomposer_used = False,
      br_sub_question_count = 0, br_recall = None, br_feedback_ex = None, br_feedback_sql = [], br_feedback_fixed = None,
      br_feedback_detail = []\<rparr>"

text \<open>A sample given up after a time limit counts in its difficulty and nowhere else.\<close>

definition count_crash :: "bird_result \<Rightarrow> bird_tally \<Rightarrow> bird_tally" where
  "count_crash r t =
     (let d = br_difficulty r; x = bird_diff d t
      in t\<lparr>bl_results := bl_results t @ [r], bl_crashed := bl_crashed t + 1, bl_completed := bl_completed t + 1,
           bl_diff := AList.update d (x\<lparr>ds_total := ds_total x + 1\<rparr>) (bl_diff t)\<rparr>)"

subsection \<open>The pool\<close>

definition MAX_SAMPLE_RETRIES :: nat where "MAX_SAMPLE_RETRIES = 2"

definition hard_timeout :: "nat \<Rightarrow> nat" where
  "hard_timeout retries = [120, 300, 480] ! min retries 2"

text \<open>Waiting samples with their number of retries; running futures with sample, retries and the time of
  submission, in the order of submission.\<close>

record batch =
  bq_queue :: "(bird_sample \<times> nat) list"
  bq_pending :: "(nat \<times> bird_sample \<times> nat \<times> rat) list"
  bq_next :: nat
  bq_tally :: bird_tally

text \<open>What one look finds: the futures that are done, the time, and the readings of the clock at the
  submissions that follow.\<close>

record turn =
  tu_done :: "nat list"
  tu_now :: rat
  tu_submits :: "nat \<Rightarrow> rat"

definition submit_next :: "rat \<Rightarrow> batch \<Rightarrow> batch" where
  "submit_next t b =
     (case bq_queue b of
        [] \<Rightarrow> b
      | (s, n) # q \<Rightarrow> b\<lparr>bq_queue := q, bq_pending := bq_pending b @ [(bq_next b, s, n, t)], bq_next := bq_next b + 1\<rparr>)"

function refill :: "nat \<Rightarrow> (nat \<Rightarrow> rat) \<Rightarrow> nat \<Rightarrow> batch \<Rightarrow> batch" where
  "refill workers ts i b =
     (if length (bq_pending b) < workers \<and> bq_queue b \<noteq> [] then refill workers ts (Suc i) (submit_next (ts i) b) else b)"
  by pat_completeness auto

termination
  by (relation "measure (\<lambda>(workers, ts, i, b). length (bq_queue b))") (auto simp: submit_next_def split: list.split)

declare refill.simps [simp del]

text \<open>A sample that failed is retried at once, ahead of the others.\<close>

definition retry_sample :: "bird_sample \<Rightarrow> nat \<Rightarrow> batch \<Rightarrow> batch" where
  "retry_sample s n b = b\<lparr>bq_queue := (s, n + 1) # bq_queue b\<rparr>"

definition take_done :: "(nat \<Rightarrow> bird_sample \<Rightarrow> bird_result py) \<Rightarrow> string \<Rightarrow> nat \<Rightarrow> batch \<Rightarrow> batch" where
  "take_done work knowledge fut b =
     (case map_of (bq_pending b) fut of
        None \<Rightarrow> b
      | Some (s, n, _) \<Rightarrow>
          let b = b\<lparr>bq_pending := AList.delete fut (bq_pending b)\<rparr>
          in (case work fut s of
                Inr r \<Rightarrow> b\<lparr>bq_tally := count_result r (bq_tally b)\<rparr>
              | Inl e \<Rightarrow>
                  if n < MAX_SAMPLE_RETRIES then retry_sample s n b
                  else b\<lparr>bq_tally := count_result
                      (crash_result s knowledge (''Failed after '' @ show_nat (MAX_SAMPLE_RETRIES + 1) @ '' attempts: '' @ exc_msg e))
                      ((bq_tally b)\<lparr>bl_crashed := bl_crashed (bq_tally b) + 1\<rparr>)\<rparr>))"

definition timeout_of :: "bird_sample \<Rightarrow> nat \<Rightarrow> timeout_event" where
  "timeout_of s n = \<lparr>te_id = bs_id s, te_db_id = bs_db_id s, te_difficulty = bs_difficulty s, te_retry = n + 1,
     te_timeout_s = hard_timeout n, te_action = (if n < MAX_SAMPLE_RETRIES then ''retry'' else ''crash'')\<rparr>"

definition log_timeout :: "timeout_event \<Rightarrow> batch \<Rightarrow> batch" where
  "log_timeout e b = b\<lparr>bq_tally := (bq_tally b)\<lparr>bl_timeouts := bl_timeouts (bq_tally b) @ [e]\<rparr>\<rparr>"

definition take_expired :: "string \<Rightarrow> nat \<Rightarrow> batch \<Rightarrow> batch" where
  "take_expired knowledge fut b =
     (case map_of (bq_pending b) fut of
        None \<Rightarrow> b
      | Some (s, n, _) \<Rightarrow>
          let b = log_timeout (timeout_of s n) (b\<lparr>bq_pending := AList.delete fut (bq_pending b)\<rparr>)
          in if n < MAX_SAMPLE_RETRIES then retry_sample s n b
             else b\<lparr>bq_tally := count_crash
                 (crash_result s knowledge (''Hard timeout after '' @ show_nat (MAX_SAMPLE_RETRIES + 1) @ '' attempts'')) (bq_tally b)\<rparr>)"

definition expired :: "rat \<Rightarrow> batch \<Rightarrow> nat list" where
  "expired now b = map fst (filter (\<lambda>(f, s, n, t). of_nat (hard_timeout n) < now - t) (bq_pending b))"

text \<open>One turn of the loop\<close>

definition batch_turn ::
  "(nat \<Rightarrow> bird_sample \<Rightarrow> bird_result py) \<Rightarrow> string \<Rightarrow> nat \<Rightarrow> turn \<Rightarrow> batch \<Rightarrow> batch" where
  "batch_turn work knowledge workers tu b =
     refill workers (tu_submits tu) 0
       (fold (take_expired knowledge) (expired (tu_now tu) b) (fold (take_done work knowledge) (tu_done tu) b))"

definition batch_start :: "nat \<Rightarrow> (nat \<Rightarrow> rat) \<Rightarrow> bird_sample list \<Rightarrow> batch" where
  "batch_start workers ts samples =
     refill workers ts 0 \<lparr>bq_queue = map (\<lambda>s. (s, 0)) samples, bq_pending = [], bq_next = 0, bq_tally = bird_start_tally\<rparr>"

text \<open>The batch after \<open>n\<close> turns; it ends when nothing is pending.\<close>

fun batch_after ::
  "(nat \<Rightarrow> bird_sample \<Rightarrow> bird_result py) \<Rightarrow> string \<Rightarrow> nat \<Rightarrow> (nat \<Rightarrow> turn) \<Rightarrow> nat \<Rightarrow> batch \<Rightarrow> batch" where
  "batch_after work knowledge workers turns 0 b = b"
| "batch_after work knowledge workers turns (Suc n) b =
     (if bq_pending b = [] then b
      else batch_after work knowledge workers (\<lambda>i. turns (Suc i)) n (batch_turn work knowledge workers (turns 0) b))"

subsection \<open>What a batch keeps\<close>

text \<open>Work that names its sample in its result\<close>

definition names_sample :: "(nat \<Rightarrow> bird_sample \<Rightarrow> bird_result py) \<Rightarrow> bool" where
  "names_sample work \<longleftrightarrow> (\<forall>f s r. work f s = Inr r \<longrightarrow> br_id r = bs_id s \<and> br_difficulty r = bs_difficulty s)"

definition pending_samples :: "batch \<Rightarrow> (bird_sample \<times> nat) list" where
  "pending_samples b = map (\<lambda>(f, s, n, t). (s, n)) (bq_pending b)"

definition open_samples :: "batch \<Rightarrow> (bird_sample \<times> nat) multiset" where
  "open_samples b = mset (bq_queue b) + mset (pending_samples b)"

text \<open>The attempts the open samples still have, those that run not counted\<close>

definition attempts_left :: "batch \<Rightarrow> nat" where
  "attempts_left b = sum_list (map (\<lambda>(s, n). 3 - n) (bq_queue b)) + sum_list (map (\<lambda>(s, n). 2 - n) (pending_samples b))"

definition work_left :: "batch \<Rightarrow> nat" where
  "work_left b = sum_mset (image_mset (\<lambda>(s, n). 3 - n) (open_samples b))"

definition tally_ok :: "bird_tally \<Rightarrow> bool" where
  "tally_ok t \<longleftrightarrow> bl_completed t = length (bl_results t) \<and> bl_passed t = length (filter br_ex (bl_results t))
     \<and> bl_passed t + bl_crashed t \<le> bl_completed t"

definition batch_ok :: "bird_sample list \<Rightarrow> batch \<Rightarrow> bool" where
  "batch_ok samples b \<longleftrightarrow>
     image_mset (bs_id \<circ> fst) (open_samples b) + mset (map br_id (bl_results (bq_tally b))) = mset (map bs_id samples)
     \<and> (\<forall>(s, n) \<in># open_samples b. n \<le> 2) \<and> distinct (map fst (bq_pending b)) \<and> (\<forall>f \<in> fst ` set (bq_pending b). f < bq_next b)
     \<and> bq_next b + attempts_left b \<le> 3 * length samples \<and> tally_ok (bq_tally b)"

lemma filter_keys_id: "f \<notin> fst ` set ws \<Longrightarrow> filter (\<lambda>(k', v). f \<noteq> k') ws = ws"
  by (induction ws) auto

lemma delete_pending:
  assumes "map_of xs f = Some x" and "distinct (map fst xs)"
  obtains ys zs where "xs = ys @ (f, x) # zs" and "AList.delete f xs = ys @ zs"
proof -
  obtain ys zs where s: "xs = ys @ (f, x) # zs" using map_of_SomeD [OF assms(1)] by (auto simp: in_set_conv_decomp)
  then have "f \<notin> fst ` set ys" "f \<notin> fst ` set zs" using assms(2) by auto
  then have "AList.delete f xs = ys @ zs"
    unfolding s AList.delete_eq by (simp add: filter_keys_id)
  then show thesis using s that by blast
qed

text \<open>Taking a future out of the pool, for whatever reason\<close>

lemma taken_out:
  assumes "map_of (bq_pending b) f = Some (s, n, t)" and "distinct (map fst (bq_pending b))"
  defines "b1 \<equiv> b\<lparr>bq_pending := AList.delete f (bq_pending b)\<rparr>"
  shows "open_samples b = add_mset (s, n) (open_samples b1)" and "attempts_left b = (2 - n) + attempts_left b1"
    and "distinct (map fst (bq_pending b1))" and "fst ` set (bq_pending b1) \<subseteq> fst ` set (bq_pending b)"
proof -
  obtain ys zs where x: "bq_pending b = ys @ (f, s, n, t) # zs" "AList.delete f (bq_pending b) = ys @ zs"
    by (rule delete_pending [OF assms(1,2)])
  show "open_samples b = add_mset (s, n) (open_samples b1)" and "attempts_left b = (2 - n) + attempts_left b1"
    by (simp_all add: b1_def open_samples_def pending_samples_def attempts_left_def x(1) x(2) [unfolded x(1)])
  show "distinct (map fst (bq_pending b1))" and "fst ` set (bq_pending b1) \<subseteq> fst ` set (bq_pending b)"
    using assms(2) distinct_delete [of "bq_pending b" f] by (auto simp: b1_def AList.delete_eq)
qed

lemma tally_ok_count: "tally_ok t \<Longrightarrow> tally_ok (count_result r t)"
  by (auto simp: tally_ok_def count_result_def Let_def)

lemma tally_ok_crash: "tally_ok t \<Longrightarrow> \<not> br_ex r \<Longrightarrow> tally_ok (count_result r (t\<lparr>bl_crashed := Suc (bl_crashed t)\<rparr>))"
  "tally_ok t \<Longrightarrow> \<not> br_ex r \<Longrightarrow> tally_ok (count_crash r t)"
  by (auto simp: tally_ok_def count_result_def count_crash_def Let_def)

lemma counted_results [simp]:
  "bl_results (count_result r t) = bl_results t @ [r]" "bl_results (count_crash r t) = bl_results t @ [r]"
  by (simp_all add: count_result_def count_crash_def Let_def)

lemma crash_fields [simp]:
  "br_id (crash_result s k d) = bs_id s" "\<not> br_ex (crash_result s k d)" "br_difficulty (crash_result s k d) = bs_difficulty s"
  by (simp_all add: crash_result_def)

lemma retry_open [simp]:
  "open_samples (retry_sample s n b) = add_mset (s, n + 1) (open_samples b)"
  "bq_pending (retry_sample s n b) = bq_pending b" "bq_next (retry_sample s n b) = bq_next b"
  "bq_tally (retry_sample s n b) = bq_tally b" "attempts_left (retry_sample s n b) = (2 - n) + attempts_left b"
  by (simp_all add: retry_sample_def open_samples_def pending_samples_def attempts_left_def)

lemma tally_change [simp]:
  "open_samples (b\<lparr>bq_tally := t\<rparr>) = open_samples b" "attempts_left (b\<lparr>bq_tally := t\<rparr>) = attempts_left b"
  by (simp_all add: open_samples_def pending_samples_def attempts_left_def)

lemma logged_timeout [simp]:
  "open_samples (log_timeout e b) = open_samples b" "attempts_left (log_timeout e b) = attempts_left b"
  "bq_pending (log_timeout e b) = bq_pending b" "bq_next (log_timeout e b) = bq_next b"
  "bl_results (bq_tally (log_timeout e b)) = bl_results (bq_tally b)" "tally_ok (bq_tally (log_timeout e b)) = tally_ok (bq_tally b)"
  by (simp_all add: log_timeout_def tally_ok_def)

text \<open>A future that is taken out either leaves its sample to be tried again or leaves its result.\<close>

lemma batch_ok_out:
  assumes ok: "batch_ok samples b" and f: "map_of (bq_pending b) f = Some (s, n, t)"
    and pend: "bq_pending b' = AList.delete f (bq_pending b)" "bq_next b' = bq_next b" "tally_ok (bq_tally b')"
    and eff: "n < 2 \<and> open_samples b' = add_mset (s, n + 1) (open_samples (b\<lparr>bq_pending := AList.delete f (bq_pending b)\<rparr>))
        \<and> attempts_left b' = (2 - n) + attempts_left (b\<lparr>bq_pending := AList.delete f (bq_pending b)\<rparr>)
        \<and> bl_results (bq_tally b') = bl_results (bq_tally b)
      \<or> open_samples b' = open_samples (b\<lparr>bq_pending := AList.delete f (bq_pending b)\<rparr>)
        \<and> attempts_left b' = attempts_left (b\<lparr>bq_pending := AList.delete f (bq_pending b)\<rparr>)
        \<and> (\<exists>r. bl_results (bq_tally b') = bl_results (bq_tally b) @ [r] \<and> br_id r = bs_id s)"
  shows "batch_ok samples b' \<and> work_left b' < work_left b"
proof -
  let ?b = "b\<lparr>bq_pending := AList.delete f (bq_pending b)\<rparr>"
  have d: "distinct (map fst (bq_pending b))" using ok by (simp add: batch_ok_def)
  note o = taken_out [OF f d]
  have n: "n \<le> 2" using ok o(1) by (auto simp: batch_ok_def)
  have "3 - n = Suc (2 - n)" using n by simp
  moreover have "3 - (n + 1) < 3 - n" if "n < 2" using that by simp
  ultimately have w: "work_left b' < work_left b"
    using eff o(1) by (auto simp: work_left_def)
  have "g < bq_next b'" if "g \<in> fst ` set (bq_pending b')" for g
  proof -
    have "g \<in> fst ` set (bq_pending b)" using subsetD [OF o(4), of g] that pend(1) by simp
    then show ?thesis using ok pend(2) by (auto simp: batch_ok_def)
  qed
  moreover have "distinct (map fst (bq_pending b'))" using o(3) pend(1) by simp
  ultimately have p: "distinct (map fst (bq_pending b')) \<and> (\<forall>g \<in> fst ` set (bq_pending b'). g < bq_next b')"
    by blast
  show ?thesis using ok o(1,2) eff pend p w by (auto simp: batch_ok_def)
qed

lemma take_done_ok:
  assumes "names_sample work" and ok: "batch_ok samples b"
  shows "batch_ok samples (take_done work k f b)
    \<and> (if f \<in> fst ` set (bq_pending b) then work_left (take_done work k f b) < work_left b else take_done work k f b = b)"
proof (cases "map_of (bq_pending b) f")
  case None
  then have "f \<notin> fst ` set (bq_pending b)" by (simp add: map_of_eq_None_iff)
  then show ?thesis using ok by (simp add: take_done_def None)
next
  case (Some x)
  then obtain s n t where f: "map_of (bq_pending b) f = Some (s, n, t)" by (cases x) auto
  have t: "tally_ok (bq_tally b)" using ok by (simp add: batch_ok_def)
  have "f \<in> fst ` set (bq_pending b)" using map_of_SomeD [OF f] by force
  moreover have "batch_ok samples (take_done work k f b) \<and> work_left (take_done work k f b) < work_left b"
    by (rule batch_ok_out [OF ok f])
      (use t f assms(1) in \<open>auto simp: take_done_def Let_def MAX_SAMPLE_RETRIES_def names_sample_def tally_ok_count tally_ok_crash
          split: sum.split\<close>)
  ultimately show ?thesis by simp
qed

lemma take_expired_ok:
  assumes ok: "batch_ok samples b"
  shows "batch_ok samples (take_expired k f b)
    \<and> (if f \<in> fst ` set (bq_pending b) then work_left (take_expired k f b) < work_left b else take_expired k f b = b)"
proof (cases "map_of (bq_pending b) f")
  case None
  then have "f \<notin> fst ` set (bq_pending b)" by (simp add: map_of_eq_None_iff)
  then show ?thesis using ok by (simp add: take_expired_def None)
next
  case (Some x)
  then obtain s n t where f: "map_of (bq_pending b) f = Some (s, n, t)" by (cases x) auto
  have t: "tally_ok (bq_tally b)" using ok by (simp add: batch_ok_def)
  have "f \<in> fst ` set (bq_pending b)" using map_of_SomeD [OF f] by force
  moreover have "batch_ok samples (take_expired k f b) \<and> work_left (take_expired k f b) < work_left b"
    by (rule batch_ok_out [OF ok f])
      (use t f in \<open>auto simp: take_expired_def Let_def MAX_SAMPLE_RETRIES_def tally_ok_crash\<close>)
  ultimately show ?thesis by simp
qed

text \<open>Taking several out: the work left shrinks as soon as one of them is still pending.\<close>

lemma fold_out:
  assumes step: "\<And>f b. batch_ok samples b \<Longrightarrow> batch_ok samples (g f b)
      \<and> (if f \<in> fst ` set (bq_pending b) then work_left (g f b) < work_left b else g f b = b)"
  shows "batch_ok samples b \<Longrightarrow> batch_ok samples (fold g fs b) \<and>
    (fold g fs b = b \<and> set fs \<inter> fst ` set (bq_pending b) = {} \<or> work_left (fold g fs b) < work_left b)"
proof (induction fs arbitrary: b)
  case (Cons f fs)
  note s = step [OF Cons.prems, of f] and IH = Cons.IH [of "g f b"]
  show ?case
  proof (cases "f \<in> fst ` set (bq_pending b)")
    case True
    then have "batch_ok samples (g f b)" "work_left (g f b) < work_left b" using s by simp_all
    moreover from this(1) have "work_left (fold g fs (g f b)) \<le> work_left (g f b)" using IH by (metis order_refl less_imp_le)
    ultimately show ?thesis using IH by simp
  next
    case False
    then have "g f b = b" using s by simp
    then show ?thesis using Cons.IH [OF Cons.prems] False by simp
  qed
qed simp

lemma submit_next_keeps:
  assumes "batch_ok samples b"
  shows "batch_ok samples (submit_next t b)" and "open_samples (submit_next t b) = open_samples b"
    and "bq_tally (submit_next t b) = bq_tally b" and "set (bq_pending b) \<subseteq> set (bq_pending (submit_next t b))"
proof -
  show o: "open_samples (submit_next t b) = open_samples b"
    by (auto simp: submit_next_def open_samples_def pending_samples_def split: list.split)
  show t: "bq_tally (submit_next t b) = bq_tally b" and "set (bq_pending b) \<subseteq> set (bq_pending (submit_next t b))"
    by (auto simp: submit_next_def split: list.split)
  show "batch_ok samples (submit_next t b)"
  proof (cases "bq_queue b")
    case (Cons x q)
    obtain s n where x: "x = (s, n)" by (cases x)
    have "(s, n) \<in># open_samples b" by (simp add: open_samples_def Cons x)
    then have "n \<le> 2" using assms by (auto simp: batch_ok_def)
    then have "Suc (attempts_left (submit_next t b)) = attempts_left b"
      by (simp add: submit_next_def Cons x attempts_left_def pending_samples_def)
    moreover have "distinct (map fst (bq_pending (submit_next t b))) \<and> (\<forall>f \<in> fst ` set (bq_pending (submit_next t b)). f < Suc (bq_next b))"
      using assms by (auto simp: batch_ok_def submit_next_def Cons x less_Suc_eq)
    moreover have "bq_next (submit_next t b) = Suc (bq_next b)" by (simp add: submit_next_def Cons x)
    ultimately show ?thesis using assms unfolding batch_ok_def o t by simp
  qed (use assms in \<open>simp add: submit_next_def\<close>)
qed

lemma refill_keeps:
  "batch_ok samples b \<Longrightarrow> batch_ok samples (refill workers ts i b) \<and> open_samples (refill workers ts i b) = open_samples b
    \<and> bq_tally (refill workers ts i b) = bq_tally b \<and> set (bq_pending b) \<subseteq> set (bq_pending (refill workers ts i b))"
proof (induction workers ts i b rule: refill.induct)
  case (1 workers ts i b)
  then show ?case
    using submit_next_keeps [OF 1(2), of "ts i"] by (subst (1 2 3 4) refill.simps) auto
qed

lemma refill_tally: "bq_tally (refill workers ts i b) = bq_tally b"
  by (induction workers ts i b rule: refill.induct)
    (subst refill.simps, auto simp: submit_next_def split: list.split)

lemma refill_full: "0 < workers \<Longrightarrow> bq_pending (refill workers ts i b) = [] \<Longrightarrow> bq_queue (refill workers ts i b) = []"
proof (induction workers ts i b rule: refill.induct)
  case (1 workers ts i b)
  show ?case
  proof (cases "length (bq_pending b) < workers \<and> bq_queue b \<noteq> []")
    case True
    then show ?thesis using 1 by (simp add: refill.simps [of workers ts i b])
  next
    case False
    then show ?thesis using 1(2,3) by (auto simp: refill.simps [of workers ts i b])
  qed
qed

lemma turn_keeps:
  assumes "names_sample work" and "batch_ok samples b"
  shows "batch_ok samples (batch_turn work k workers tu b)"
    and "set (expired (tu_now tu) b) \<inter> fst ` set (bq_pending b) = {} \<and> set (bq_pending b) \<subseteq> set (bq_pending (batch_turn work k workers tu b))
        \<and> work_left (batch_turn work k workers tu b) = work_left b
      \<or> work_left (batch_turn work k workers tu b) < work_left b"
    and "0 < workers \<Longrightarrow> bq_pending (batch_turn work k workers tu b) = [] \<Longrightarrow> bq_queue (batch_turn work k workers tu b) = []"
proof -
  let ?d = "fold (take_done work k) (tu_done tu) b"
  let ?e = "fold (take_expired k) (expired (tu_now tu) b) ?d"
  have d: "batch_ok samples ?d" "?d = b \<or> work_left ?d < work_left b"
    using fold_out [of samples "take_done work k" b "tu_done tu"] take_done_ok [OF assms(1)] assms(2) by blast+
  have e: "batch_ok samples ?e" "?e = ?d \<and> set (expired (tu_now tu) b) \<inter> fst ` set (bq_pending ?d) = {} \<or> work_left ?e < work_left ?d"
    using fold_out [of samples "take_expired k" ?d "expired (tu_now tu) b"] take_expired_ok d(1) by blast+
  note r = refill_keeps [OF e(1), of workers "tu_submits tu" 0]
  show "batch_ok samples (batch_turn work k workers tu b)" using r by (simp add: batch_turn_def)
  have w: "work_left (batch_turn work k workers tu b) = work_left ?e" using r by (simp add: batch_turn_def work_left_def)
  show "set (expired (tu_now tu) b) \<inter> fst ` set (bq_pending b) = {} \<and> set (bq_pending b) \<subseteq> set (bq_pending (batch_turn work k workers tu b))
        \<and> work_left (batch_turn work k workers tu b) = work_left b
      \<or> work_left (batch_turn work k workers tu b) < work_left b"
  proof (cases "work_left ?e < work_left b")
    case False
    then have "?d = b" using d(2) e(2) by (metis order.strict_trans)
    then have "?e = b" "set (expired (tu_now tu) b) \<inter> fst ` set (bq_pending b) = {}" using e(2) False by simp_all
    then show ?thesis using r w unfolding batch_turn_def by simp
  qed (simp add: w)
  show "0 < workers \<Longrightarrow> bq_pending (batch_turn work k workers tu b) = [] \<Longrightarrow> bq_queue (batch_turn work k workers tu b) = []"
    using refill_full by (simp add: batch_turn_def)
qed

lemma after_keeps:
  assumes "names_sample work" and "0 < workers"
  shows "batch_ok samples b \<Longrightarrow> (bq_pending b = [] \<Longrightarrow> bq_queue b = []) \<Longrightarrow>
    batch_ok samples (batch_after work k workers turns n b)
    \<and> (bq_pending (batch_after work k workers turns n b) = [] \<longrightarrow> bq_queue (batch_after work k workers turns n b) = [])"
proof (induction n arbitrary: turns b)
  case (Suc n)
  show ?case
    using Suc.IH [OF turn_keeps(1) [OF assms(1) Suc.prems(1)], where turns = "\<lambda>i. turns (Suc i)"]
      turn_keeps(3) [OF assms(1) Suc.prems(1) assms(2)] Suc.prems by simp
qed simp

lemma after_add:
  "batch_after work k workers turns (m + n) b = batch_after work k workers (\<lambda>i. turns (m + i)) n (batch_after work k workers turns m b)"
proof (induction m arbitrary: turns b)
  case (Suc m)
  have "batch_after work k workers ts n b = b" if "bq_pending b = []" for ts using that by (cases n) simp_all
  then show ?case using Suc.IH [of "\<lambda>i. turns (Suc i)"] by auto
qed simp

text \<open>While nothing happens to it, a pending future stays; once its time is up something happens.\<close>

lemma pending_stays:
  assumes "names_sample work" and "0 < workers" and "x \<in> set (bq_pending b)"
    and "\<And>j. j \<le> n \<Longrightarrow> work_left (batch_after work k workers turns j b) = work_left b"
  shows "batch_ok samples b \<Longrightarrow> x \<in> set (bq_pending (batch_after work k workers turns n b))"
  using assms(3,4)
proof (induction n arbitrary: turns b)
  case (Suc n)
  let ?b = "batch_turn work k workers (turns 0) b"
  have ne: "bq_pending b \<noteq> []" using Suc.prems(2) by auto
  have w: "work_left ?b = work_left b" using Suc.prems(3) [of 1] ne by simp
  have "x \<in> set (bq_pending ?b)" using turn_keeps(2) [OF assms(1) Suc.prems(1), where workers = workers and k = k] w Suc.prems(2) by fastforce
  moreover have "work_left (batch_after work k workers (\<lambda>i. turns (Suc i)) j ?b) = work_left ?b" if "j \<le> n" for j
    using Suc.prems(3) [of "Suc j"] that w ne by simp
  ultimately show ?case using Suc.IH [OF turn_keeps(1) [OF assms(1) Suc.prems(1)]] ne by simp
qed simp

lemma batch_ends:
  assumes "names_sample work" and "0 < workers"
  shows "batch_ok samples b \<Longrightarrow> (\<forall>c. \<exists>m. \<forall>i\<ge>m. c < tu_now (turns i)) \<Longrightarrow>
    \<exists>n. bq_pending (batch_after work k workers turns n b) = []"
proof (induction "work_left b" arbitrary: turns b rule: less_induct)
  case less
  show ?case
  proof (cases "bq_pending b")
    case (Cons x xs)
    obtain f s n t where x: "x = (f, s, n, t)" by (cases x)
    obtain i where i: "of_nat (hard_timeout n) + t < tu_now (turns i)" using less.prems(2) by blast
    have "\<exists>j. j \<le> Suc i \<and> work_left (batch_after work k workers turns j b) < work_left b"
    proof (rule ccontr)
      assume "\<not> ?thesis"
      moreover have ge: "work_left (batch_after work k workers turns j b) \<le> work_left b" for j
      proof (induction j)
        case (Suc j)
        have "batch_ok samples (batch_after work k workers turns j b)"
          using less.prems(1) turn_keeps(1) [OF assms(1)] by (induction j arbitrary: turns b) auto
        then show ?case
          using Suc turn_keeps(2) [OF assms(1), of samples "batch_after work k workers turns j b" "turns j" k workers]
            after_add [of work k workers turns j 1 b] by (auto split: if_splits)
      qed simp
      ultimately have eq: "work_left (batch_after work k workers turns j b) = work_left b" if "j \<le> Suc i" for j
        using that by (meson le_antisym not_le)
      let ?b = "batch_after work k workers turns i b"
      have p: "x \<in> set (bq_pending ?b)"
        by (rule pending_stays [OF assms _ _ less.prems(1)]) (use eq Cons in auto)
      have ok: "batch_ok samples ?b"
        using less.prems(1) turn_keeps(1) [OF assms(1)] by (induction i arbitrary: turns b) auto
      have "f \<in> set (expired (tu_now (turns i)) ?b)" using p i unfolding x expired_def by force
      moreover have "f \<in> fst ` set (bq_pending ?b)" using p x by force
      ultimately have "work_left (batch_turn work k workers (turns i) ?b) < work_left ?b"
        using turn_keeps(2) [OF assms(1) ok, of "turns i" k workers] by blast
      moreover have "batch_after work k workers turns (Suc i) b = batch_turn work k workers (turns i) ?b"
        using after_add [of work k workers turns i 1 b] p by (auto split: if_splits)
      ultimately show False using eq [of i] eq [of "Suc i"] by simp
    qed
    then obtain j where j: "work_left (batch_after work k workers turns j b) < work_left b" by blast
    have ok: "batch_ok samples (batch_after work k workers turns j b)"
      using less.prems(1) turn_keeps(1) [OF assms(1)] by (induction j arbitrary: turns b) auto
    have "\<forall>c. \<exists>m. \<forall>i\<ge>m. c < tu_now (turns (j + i))" using less.prems(2) by (meson le_add2 le_trans)
    from less.hyps [OF j ok this] show ?thesis using after_add [of work k workers turns j _ b] by metis
  qed (auto intro: exI [of _ 0])
qed

lemma start_ok: "batch_ok samples (batch_start workers ts samples)"
proof -
  let ?b = "\<lparr>bq_queue = map (\<lambda>s. (s, 0)) samples, bq_pending = [], bq_next = 0, bq_tally = bird_start_tally\<rparr>"
  have "attempts_left ?b = 3 * length samples"
    by (simp add: attempts_left_def pending_samples_def comp_def sum_list_triv)
  then have "batch_ok samples ?b"
    by (auto simp: batch_ok_def open_samples_def pending_samples_def tally_ok_def bird_start_tally_def multiset.map_comp comp_def)
  then show ?thesis using refill_keeps unfolding batch_start_def by blast
qed

text \<open>What holds when the batch has ended\<close>

lemma batch_end:
  assumes "names_sample work" and "0 < workers" and "\<forall>c. \<exists>m. \<forall>i\<ge>m. c < tu_now (turns i)"
  obtains n where "bq_pending (batch_after work k workers turns n (batch_start workers ts samples)) = []"
    and "bq_queue (batch_after work k workers turns n (batch_start workers ts samples)) = []"
    and "batch_ok samples (batch_after work k workers turns n (batch_start workers ts samples))"
proof -
  obtain n where n: "bq_pending (batch_after work k workers turns n (batch_start workers ts samples)) = []"
    using batch_ends [OF assms(1,2) start_ok assms(3)] by blast
  have "bq_pending (batch_start workers ts samples) = [] \<Longrightarrow> bq_queue (batch_start workers ts samples) = []"
    using refill_full [OF assms(2)] by (simp add: batch_start_def)
  from after_keeps [OF assms(1,2) start_ok this] n that show thesis by blast
qed

lemma evaluation_names: "names_sample (\<lambda>f s. evaluate_bird_sample (E f) s cfg knowledge cache)"
  by (auto simp: names_sample_def dest: evaluated_sample)

lemma ended_results:
  assumes "batch_ok samples b" and "bq_pending b = []" and "bq_queue b = []"
  shows "mset (map br_id (bl_results (bq_tally b))) = mset (map bs_id samples)"
    and "bl_completed (bq_tally b) = length samples" and "bq_next b \<le> 3 * length samples"
proof -
  show m: "mset (map br_id (bl_results (bq_tally b))) = mset (map bs_id samples)"
    using assms by (simp add: batch_ok_def open_samples_def pending_samples_def)
  then show "bl_completed (bq_tally b) = length samples"
    using assms(1) mset_eq_length [OF m] by (simp add: batch_ok_def tally_ok_def)
  show "bq_next b \<le> 3 * length samples" using assms(1) by (simp add: batch_ok_def)
qed

subsection \<open>Threads that never come back\<close>

definition only_crashes :: "bird_tally \<Rightarrow> bool" where
  "only_crashes t \<longleftrightarrow> list_all (\<lambda>r. \<not> br_ex r) (bl_results t) \<and> bl_passed t = 0 \<and> bl_crashed t = bl_completed t"

lemma expired_only_crashes: "only_crashes (bq_tally b) \<Longrightarrow> only_crashes (bq_tally (fold (take_expired k) fs b))"
proof (induction fs arbitrary: b)
  case (Cons f fs)
  have "only_crashes (bq_tally (take_expired k f b))"
    using Cons.prems by (auto simp: take_expired_def Let_def retry_sample_def log_timeout_def only_crashes_def count_crash_def
        split: option.split)
  then show ?case using Cons.IH by simp
qed simp

lemma silent_batch:
  assumes "\<And>i. tu_done (turns i) = []"
  shows "batch_ok samples b \<Longrightarrow> names_sample work \<Longrightarrow> only_crashes (bq_tally b) \<Longrightarrow> only_crashes (bq_tally (batch_after work k workers turns n b))"
  using assms
proof (induction n arbitrary: turns b)
  case (Suc n)
  let ?e = "fold (take_expired k) (expired (tu_now (turns 0)) b) b"
  have "batch_ok samples ?e" using fold_out [where g = "take_expired k", OF _ Suc.prems(1)] take_expired_ok by blast
  then have "only_crashes (bq_tally (batch_turn work k workers (turns 0) b))"
    using refill_keeps [of samples ?e workers "tu_submits (turns 0)" 0] expired_only_crashes [OF Suc.prems(3)] Suc.prems(4)
    by (simp add: batch_turn_def)
  then show ?case
    using Suc.IH [of "batch_turn work k workers (turns 0) b" "\<lambda>i. turns (Suc i)"] turn_keeps(1) [OF Suc.prems(2,1)] Suc.prems
    by auto
qed simp

text \<open>Futures that hang keep their threads; a future can only be done if fewer than all threads are lost
  to futures submitted before it.\<close>

definition pool_rule :: "nat \<Rightarrow> (nat \<Rightarrow> bool) \<Rightarrow> (nat \<Rightarrow> turn) \<Rightarrow> bool" where
  "pool_rule workers hangs turns \<longleftrightarrow>
     (\<forall>i. \<forall>f \<in> set (tu_done (turns i)). \<not> hangs f \<and> card {g. g < f \<and> hangs g} < workers)"

lemma pool_lost:
  assumes "pool_rule workers hangs turns" and "\<And>f. f < workers \<Longrightarrow> hangs f"
  shows "tu_done (turns i) = []"
proof (rule ccontr)
  assume "tu_done (turns i) \<noteq> []"
  then obtain f where f: "f \<in> set (tu_done (turns i))" by (cases "tu_done (turns i)") auto
  then have "\<not> f < workers" and c: "card {g. g < f \<and> hangs g} < workers" using assms by (auto simp: pool_rule_def)
  then have "{..<workers} \<subseteq> {g. g < f \<and> hangs g}" using assms(2) by auto
  then have "card {..<workers} \<le> card {g. g < f \<and> hangs g}" by (rule card_mono [rotated]) simp
  then show False using c by simp
qed

subsection \<open>Properties\<close>

text \<open>C24: A batch always ends: whatever the samples do, crash, hang or take their time, and in whatever
  order their futures are done, as long as time goes on, after finitely many turns nothing is waiting or
  running. Then there is exactly one result for each sample, the number of passes is that of the results
  that match, and no sample has been tried more than three times (there were at most three submissions
  for each).\<close>

theorem batch_always_ends:
  assumes "0 < workers" and "\<forall>c. \<exists>m. \<forall>i\<ge>m. c < tu_now (turns i)"
  shows "\<exists>n. let b = batch_after (\<lambda>f s. evaluate_bird_sample (E f) s cfg knowledge cache) knowledge workers turns n
        (batch_start workers ts samples); t = bq_tally b
    in bq_pending b = [] \<and> bq_queue b = [] \<and> mset (map br_id (bl_results t)) = mset (map bs_id samples)
      \<and> bl_completed t = length samples \<and> bl_passed t = length (filter br_ex (bl_results t))
      \<and> bl_passed t + bl_crashed t \<le> length samples \<and> bq_next b \<le> 3 * length samples"
proof (rule batch_end [OF evaluation_names assms])
  fix n
  let ?b = "batch_after (\<lambda>f s. evaluate_bird_sample (E f) s cfg knowledge cache) knowledge workers turns n (batch_start workers ts samples)"
  assume b: "bq_pending ?b = []" "bq_queue ?b = []" "batch_ok samples ?b"
  have "tally_ok (bq_tally ?b)" using b(3) by (simp add: batch_ok_def)
  then show ?thesis using b ended_results [OF b(3,1,2)] by (intro exI [of _ n]) (simp add: Let_def tally_ok_def)
qed

definition idle_turns :: "nat \<Rightarrow> turn" where
  "idle_turns i = \<lparr>tu_done = [], tu_now = of_nat i, tu_submits = (\<lambda>k. of_nat i)\<rparr>"

lemma idle_time: "\<forall>c. \<exists>m. \<forall>i\<ge>m. c < tu_now (idle_turns i)"
proof
  fix c :: rat
  obtain m where m: "c < of_nat m" using reals_Archimedean2 by blast
  have "c < tu_now (idle_turns i)" if "m \<le> i" for i
    using m that by (simp add: idle_turns_def)
  then show "\<exists>m. \<forall>i\<ge>m. c < tu_now (idle_turns i)" by blast
qed

definition hint_batch :: "nat \<Rightarrow> nat \<Rightarrow> batch" where
  "hint_batch workers n = batch_after (\<lambda>f s. evaluate_bird_sample hint_env s hint_config ''rag'' []) ''rag'' workers idle_turns n
     (batch_start workers (\<lambda>i. 0) [hint_sample, hint_sample\<lparr>bs_id := ''8''\<rparr>])"

lemma hint_ids: "map bs_id [hint_sample, hint_sample\<lparr>bs_id := ''8''\<rparr>] = [''7'', ''8'']"
  by (simp add: hint_sample_def)

theorem batch_always_ends_witness:
  "\<exists>n. bq_pending (hint_batch 8 n) = [] \<and> mset (map br_id (bl_results (bq_tally (hint_batch 8 n)))) = mset [''7'', ''8'']"
proof -
  have w: "0 < (8::nat)" by simp
  show ?thesis
    using batch_always_ends [OF w idle_time, of "\<lambda>f. hint_env" hint_config "''rag''" "[]" "\<lambda>i. 0" "[hint_sample, hint_sample\<lparr>bs_id := ''8''\<rparr>]"]
    unfolding hint_batch_def [symmetric] Let_def hint_ids by blast
qed

text \<open>C30: The time limit does not free a thread: cancelling a running future has no effect. If the first
  samples, one for each thread, never return, then every sample of the configuration is given up as
  crashed, also those that never started, because their time runs from the submission to the pool.\<close>

theorem hung_samples_starve_the_rest:
  assumes "0 < workers" and "\<forall>c. \<exists>m. \<forall>i\<ge>m. c < tu_now (turns i)"
    and "pool_rule workers hangs turns" and "\<And>f. f < workers \<Longrightarrow> hangs f"
  shows "\<exists>n. let b = batch_after (\<lambda>f s. evaluate_bird_sample (E f) s cfg knowledge cache) knowledge workers turns n
        (batch_start workers ts samples); t = bq_tally b
    in bq_pending b = [] \<and> mset (map br_id (bl_results t)) = mset (map bs_id samples)
      \<and> bl_passed t = 0 \<and> bl_crashed t = length samples \<and> list_all (\<lambda>r. \<not> br_ex r) (bl_results t)"
proof (rule batch_end [OF evaluation_names assms(1,2)])
  fix n
  let ?b = "batch_after (\<lambda>f s. evaluate_bird_sample (E f) s cfg knowledge cache) knowledge workers turns n (batch_start workers ts samples)"
  assume b: "bq_pending ?b = []" "bq_queue ?b = []" "batch_ok samples ?b"
  have "only_crashes (bq_tally (batch_start workers ts samples))"
    by (simp add: batch_start_def refill_tally only_crashes_def bird_start_tally_def)
  then have "only_crashes (bq_tally ?b)"
    using pool_lost [OF assms(3,4)] by (intro silent_batch [OF _ start_ok evaluation_names])
  then show ?thesis using b ended_results [OF b(3,1,2)] by (intro exI [of _ n]) (simp add: Let_def only_crashes_def)
qed

theorem hung_samples_starve_the_rest_witness:
  "\<exists>n. bl_crashed (bq_tally (hint_batch 1 n)) = 2"
proof -
  have w: "0 < (1::nat)" by simp
  have p: "pool_rule 1 (\<lambda>f. f = 0) idle_turns" by (simp add: pool_rule_def idle_turns_def)
  have h: "\<And>f. f < (1::nat) \<Longrightarrow> f = 0" by simp
  have "length [hint_sample, hint_sample\<lparr>bs_id := ''8''\<rparr>] = 2" by simp
  then show ?thesis
    using hung_samples_starve_the_rest [OF w idle_time p h, of "\<lambda>f. hint_env" hint_config "''rag''" "[]" "\<lambda>i. 0"
      "[hint_sample, hint_sample\<lparr>bs_id := ''8''\<rparr>]"]
    unfolding hint_batch_def [symmetric] Let_def by metis
qed

end
