(* ===== verification/BirdReport.thy ===== *)
theory BirdReport
  imports BirdRun
begin

text \<open>
  \<open>evaluation/run.py\<close> and \<open>evaluation/reporter.py\<close>: what is made of the results of a configuration
  (rates, statistics of the modules, costs, rows of the report), the checkpoint a run leaves, and how an
  interrupted run is resumed. The texts of the report files are output only.
\<close>

subsection \<open>Statistics of the modules\<close>

definition rate :: "nat \<Rightarrow> nat \<Rightarrow> nat \<Rightarrow> rat" where
  "rate k a b = (if b = 0 then 0 else round_dec k (of_nat a / of_nat b))"

text \<open>How many results satisfy a condition\<close>

definition tally_of :: "(bird_result \<Rightarrow> bool) \<Rightarrow> bird_result list \<Rightarrow> nat" where
  "tally_of P rs = length (filter P rs)"

record check_stats =
  cs_checked :: nat
  cs_passed :: nat
  cs_rejected :: int
  cs_reject_rate :: rat
  cs_fn :: nat
  cs_fn_rate :: rat

definition check_stats_of :: "(bird_result \<Rightarrow> bool option) \<Rightarrow> bird_result list \<Rightarrow> check_stats" where
  "check_stats_of verdict rs =
     (let checked = filter (\<lambda>r. verdict r \<noteq> None) rs;
          passed = tally_of (\<lambda>r. verdict r = Some True) checked;
          fn = tally_of (\<lambda>r. verdict r = Some True \<and> \<not> br_ex r \<and> br_gen_sql r \<noteq> []) checked
      in \<lparr>cs_checked = length checked, cs_passed = passed, cs_rejected = int (length checked) - int passed,
          cs_reject_rate = rate 3 (length checked - passed) (length checked), cs_fn = fn, cs_fn_rate = rate 3 fn (length checked)\<rparr>)"

record pipeline_stats =
  ps_guard :: check_stats
  ps_sem :: check_stats
  ps_sem_fp :: nat
  ps_sem_escape :: nat
  ps_retried :: nat
  ps_retry_fixed :: nat
  ps_fix_rate :: rat
  ps_retry_pct :: rat
  ps_multi :: nat
  ps_avg_candidates :: rat
  ps_distribution :: "(string \<times> nat) list"
  ps_dec_used :: nat
  ps_dec_ex :: nat
  ps_dec_rate :: rat
  ps_avg_sub :: rat
  ps_node_avg :: "(string \<times> rat) list"

definition candidate_dist :: "bird_result list \<Rightarrow> (string \<times> nat) list" where
  "candidate_dist rs =
     map (\<lambda>k. (show_nat k, tally_of (\<lambda>r. 1 \<le> br_candidate_count r \<and> min (br_candidate_count r) 3 = k) rs)) [1, 2, 3]"

definition node_avg :: "bird_result list \<Rightarrow> (string \<times> rat) list" where
  "node_avg rs =
     (let all_times = concat (map br_node_timings rs);
          durations = (\<lambda>node. map snd (filter (\<lambda>(k, v). k = node) all_times))
      in map (\<lambda>node. (node, round_dec 2 (sum_list (durations node) / of_nat (length (durations node)))))
           (sort (remdups (map fst all_times))))"

text \<open>No statistics without results\<close>

definition compute_pipeline_stats :: "bird_result list \<Rightarrow> pipeline_stats option" where
  "compute_pipeline_stats rs =
     (if rs = [] then None
      else let n = length rs;
          retried = tally_of (\<lambda>r. 0 < br_retry_count r) rs;
          fixed = tally_of (\<lambda>r. 0 < br_retry_count r \<and> br_ex r) rs;
          used = tally_of br_decomposer_used rs;
          dec_ex = tally_of (\<lambda>r. br_decomposer_used r \<and> br_ex r) rs
      in Some \<lparr>ps_guard = check_stats_of br_guard_pass rs, ps_sem = check_stats_of br_semantic_pass rs,
          ps_sem_fp = tally_of (\<lambda>r. br_semantic_pass r = Some False \<and> br_ex r) rs,
          ps_sem_escape = tally_of (\<lambda>r. br_semantic_pass r \<noteq> None \<and> 2 \<le> br_sem_reject_count r) rs,
          ps_retried = retried, ps_retry_fixed = fixed, ps_fix_rate = rate 3 fixed retried, ps_retry_pct = rate 3 retried n,
          ps_multi = tally_of (\<lambda>r. 0 < br_candidate_count r) rs,
          ps_avg_candidates = round_dec 2 (of_nat (sum_list (map br_candidate_count rs)) / of_nat n),
          ps_distribution = candidate_dist rs,
          ps_dec_used = used, ps_dec_ex = dec_ex, ps_dec_rate = rate 3 dec_ex used,
          ps_avg_sub = round_dec 1 (of_nat (sum_list (map br_sub_question_count rs)) / of_nat n),
          ps_node_avg = node_avg rs\<rparr>)"

subsection \<open>The report of a configuration\<close>

record config_report =
  xr_config :: "bird_config option"
  xr_knowledge :: string
  xr_cases :: "bird_result list"
  xr_timeouts :: "timeout_event list"
  xr_passed :: nat
  xr_crashed :: nat
  xr_total :: nat
  xr_ex_rate :: rat
  xr_avg_ves :: real
  xr_avg_time_s :: rat
  xr_total_tokens :: usage
  xr_avg_tokens :: int
  xr_tokens_per_s :: rat
  xr_diff :: "(string \<times> diff_summary) list"
  xr_routes :: "route_trace list"
  xr_stats :: "pipeline_stats option"
  xr_avg_recall :: "rat option"
  xr_recall_samples :: nat
  xr_fb_attempted :: nat
  xr_fb_fixed :: nat
  xr_fb_fix_rate :: rat
  xr_fb_pre_ex :: rat
  xr_fb_post_ex :: rat

definition bird_diff_summary :: "bird_tally \<Rightarrow> (string \<times> diff_summary) list" where
  "bird_diff_summary t =
     concat (map (\<lambda>d. let x = bird_diff d t; n = of_nat (ds_total x) in
         if ds_total x = 0 then []
         else [(d, \<lparr>dy_total = ds_total x, dy_passed = ds_passed x, dy_ex = round_dec 4 (of_nat (ds_passed x) / n),
             dy_avg_ves = round4 (ds_ves_sum x / of_nat (ds_total x)), dy_avg_tokens = round_half_even (of_int (ds_tokens x) / n),
             dy_avg_time = round_dec 2 (ds_time x / n)\<rparr>)])
       [''simple'', ''moderate'', ''challenging''])"

definition no_division :: py_exc where
  "no_division = PyExc ''ZeroDivisionError'' ''division by zero''"

text \<open>The line printed for a configuration divides by the number of samples, so none at all is an error.\<close>

definition finish_config :: "bird_config \<Rightarrow> string \<Rightarrow> nat \<Rightarrow> bird_tally \<Rightarrow> config_report py" where
  "finish_config cfg knowledge n t =
     (if n = 0 then Inl no_division
      else let cases = sort_key br_id (bl_results t);
          avg_tok = round_half_even (of_int (usage_get (bl_tokens t) ''total'') / of_nat n);
          attempted = tally_of (\<lambda>r. br_feedback_ex r \<noteq> None) cases;
          fixed = tally_of (\<lambda>r. br_feedback_fixed r = Some True) cases
      in Inr \<lparr>xr_config = Some cfg, xr_knowledge = knowledge, xr_cases = cases, xr_timeouts = bl_timeouts t,
          xr_passed = bl_passed t, xr_crashed = bl_crashed t, xr_total = n, xr_ex_rate = rate 4 (bl_passed t) n,
          xr_avg_ves = round4 (bl_ves t / of_nat n), xr_avg_time_s = round_dec 2 (bl_time t / of_nat n),
          xr_total_tokens = bl_tokens t, xr_avg_tokens = avg_tok,
          xr_tokens_per_s = (if 0 < bl_time t then round_dec 1 (of_int avg_tok / (bl_time t / of_nat n)) else 0),
          xr_diff = bird_diff_summary t, xr_routes = bl_routes t, xr_stats = compute_pipeline_stats cases,
          xr_avg_recall = (if bl_recall_count t = 0 then None
            else Some (round_dec 4 (bl_recall_sum t / of_nat (bl_recall_count t)))),
          xr_recall_samples = bl_recall_count t, xr_fb_attempted = attempted, xr_fb_fixed = fixed,
          xr_fb_fix_rate = rate 4 fixed attempted, xr_fb_pre_ex = rate 4 (bl_passed t) n,
          xr_fb_post_ex = rate 4 (bl_passed t + fixed) n\<rparr>)"

subsection \<open>Checkpoints\<close>

record ckpt_entry =
  ck_ex_rate :: rat
  ck_avg_ves :: real
  ck_passed :: nat
  ck_total :: nat
  ck_crashed :: nat
  ck_avg_tokens :: int
  ck_avg_time_s :: rat
  ck_tokens_per_s :: rat
  ck_total_tokens :: usage
  ck_diff :: "(string \<times> diff_summary) list"
  ck_cases :: "bird_result list"
  ck_routes :: "route_trace list"

definition ckpt_of :: "config_report \<Rightarrow> ckpt_entry" where
  "ckpt_of x = \<lparr>ck_ex_rate = xr_ex_rate x, ck_avg_ves = xr_avg_ves x, ck_passed = xr_passed x, ck_total = xr_total x,
     ck_crashed = xr_crashed x, ck_avg_tokens = xr_avg_tokens x, ck_avg_time_s = xr_avg_time_s x,
     ck_tokens_per_s = xr_tokens_per_s x, ck_total_tokens = xr_total_tokens x, ck_diff = xr_diff x, ck_cases = xr_cases x,
     ck_routes = xr_routes x\<rparr>"

text \<open>A result read back from a checkpoint: the other keys are missing, so the reports see their defaults.\<close>

definition restored :: "ckpt_entry \<Rightarrow> config_report" where
  "restored c = \<lparr>xr_config = None, xr_knowledge = [], xr_cases = ck_cases c, xr_timeouts = [], xr_passed = ck_passed c,
     xr_crashed = ck_crashed c, xr_total = ck_total c, xr_ex_rate = ck_ex_rate c, xr_avg_ves = ck_avg_ves c,
     xr_avg_time_s = ck_avg_time_s c, xr_total_tokens = ck_total_tokens c, xr_avg_tokens = ck_avg_tokens c,
     xr_tokens_per_s = ck_tokens_per_s c, xr_diff = ck_diff c, xr_routes = ck_routes c, xr_stats = None, xr_avg_recall = None,
     xr_recall_samples = 0, xr_fb_attempted = 0, xr_fb_fixed = 0, xr_fb_fix_rate = 0, xr_fb_pre_ex = 0, xr_fb_post_ex = 0\<rparr>"

type_synonym ckpt = "(string \<times> ckpt_entry) list"

text \<open>\<open>_save_checkpoint\<close> writes the results it is given, and only those.\<close>

definition save_checkpoint :: "(string \<times> config_report) list \<Rightarrow> ckpt" where
  "save_checkpoint results = map (\<lambda>(name, x). (name, ckpt_of x)) results"

text \<open>The configurations one after the other: \<open>run c\<close> is the report of \<open>c\<close>, or the exception (also that of an
  interrupt) that ends everything. The result is with the file as it is then.\<close>

fun run_bird_configs ::
  "(bird_config \<Rightarrow> config_report py) \<Rightarrow> bird_config list \<Rightarrow> (string \<times> config_report) list \<Rightarrow> ckpt option
    \<Rightarrow> (string \<times> config_report) list py \<times> ckpt option" where
  "run_bird_configs run [] results file = (Inr results, file)"
| "run_bird_configs run (c # cs) results file =
     (case run c of
        Inl e \<Rightarrow> (Inl e, file)
      | Inr x \<Rightarrow>
          let results = AList.update (bc_name c) x results
          in run_bird_configs run cs results (Some (save_checkpoint results)))"

definition remaining_configs :: "bird_config list \<Rightarrow> ckpt option \<Rightarrow> bird_config list" where
  "remaining_configs all_configs file =
     filter (\<lambda>c. bc_name c \<notin> fst ` set (case file of None \<Rightarrow> [] | Some old \<Rightarrow> old)) all_configs"

definition merge_results :: "(string \<times> config_report) list \<Rightarrow> ckpt option \<Rightarrow> (string \<times> config_report) list" where
  "merge_results results file =
     (case file of None \<Rightarrow> results
      | Some old \<Rightarrow> fold (\<lambda>(k, v) acc. AList.update k (restored v) acc) old results)"

text \<open>\<open>--exp ablation\<close>, from the file an earlier run may have left\<close>

definition ablation ::
  "(bird_config \<Rightarrow> config_report py) \<Rightarrow> bird_config list \<Rightarrow> ckpt option \<Rightarrow> (string \<times> config_report) list py \<times> ckpt option" where
  "ablation run all_configs file =
     (case (remaining_configs all_configs file, file) of
        ([], Some old) \<Rightarrow> (Inr (map (\<lambda>(k, v). (k, restored v)) old), file)
      | (cs, _) \<Rightarrow> (case run_bird_configs run cs [] file of
          (Inl e, file') \<Rightarrow> (Inl e, file')
        | (Inr results, file') \<Rightarrow> (Inr (merge_results results file), file')))"

subsection \<open>Logs for the next run\<close>

record slow_entry =
  sl_id :: string
  sl_db_id :: string
  sl_difficulty :: string
  sl_elapsed_s :: rat
  sl_ex :: bool
  sl_ves :: real
  sl_detail :: string
  sl_gen_sql :: string
  sl_gold_sql :: string

definition slow_entries :: "bird_result list \<Rightarrow> slow_entry list" where
  "slow_entries rs =
     map (\<lambda>r. \<lparr>sl_id = br_id r, sl_db_id = br_db_id r, sl_difficulty = br_difficulty r, sl_elapsed_s = br_elapsed_s r,
         sl_ex = br_ex r, sl_ves = br_ves r, sl_detail = take 200 (br_detail r), sl_gen_sql = take 200 (br_gen_sql r),
         sl_gold_sql = take 200 (br_gold_sql r)\<rparr>)
       (take 10 (sort_desc br_elapsed_s rs))"

text \<open>The timeouts grouped by database, the databases with most of them first\<close>

definition timeout_summary :: "timeout_event list \<Rightarrow> (string \<times> timeout_event list) list" where
  "timeout_summary log_events =
     sort_desc (length \<circ> snd)
       (map (\<lambda>db. (db, filter (\<lambda>e. te_db_id e = db) log_events)) (rev (remdups (rev (map te_db_id log_events)))))"

definition timeout_dict :: "timeout_event \<Rightarrow> pyv" where
  "timeout_dict e = PDict [(''question_id'', PStr (te_id e)), (''db_id'', PStr (te_db_id e)), (''difficulty'', PStr (te_difficulty e)),
     (''retry'', PInt (int (te_retry e))), (''timeout_s'', PInt (int (te_timeout_s e))), (''action'', PStr (te_action e))]"

definition timeout_log :: "timeout_event list \<Rightarrow> pyv" where
  "timeout_log log_events = PDict [(''total_timeout_events'', PInt (int (length log_events))),
     (''by_db'', PDict (map (\<lambda>(db, es). (db, PDict [(''count'', PInt (int (length es))), (''samples'', PList (map timeout_dict es))]))
       (timeout_summary log_events)))]"

text \<open>\<open>_load_previous_timeout_ids\<close>: the identifiers of one file, up to the first value that does not have the
  expected shape.\<close>

definition event_ids :: "pyv \<Rightarrow> string list py" where
  "event_ids e = py_bind (py_get_or e ''question_id'' PNone) (\<lambda>qid. Inr (if truthy qid then [py_str qid] else []))"

fun ids_until_error :: "(pyv \<Rightarrow> string list \<times> bool) \<Rightarrow> pyv list \<Rightarrow> string list \<times> bool" where
  "ids_until_error f [] = ([], True)"
| "ids_until_error f (v # vs) =
     (case f v of
        (ids, False) \<Rightarrow> (ids, False)
      | (ids, True) \<Rightarrow> (case ids_until_error f vs of (ids', ok) \<Rightarrow> (ids @ ids', ok)))"

definition samples_ids :: "pyv \<Rightarrow> string list \<times> bool" where
  "samples_ids info =
     (case py_bind (py_get_or info ''samples'' (PList [])) py_iter of
        Inl e \<Rightarrow> ([], False)
      | Inr evs \<Rightarrow> ids_until_error (\<lambda>e. case event_ids e of Inl x \<Rightarrow> ([], False) | Inr ids \<Rightarrow> (ids, True)) evs)"

definition file_ids :: "string \<Rightarrow> string list" where
  "file_ids text =
     (case py_bind (json_loads text) (\<lambda>data. py_bind (py_get_or data ''by_db'' (PDict [])) (\<lambda>v. as_dict v ''values'')) of
        Inl e \<Rightarrow> []
      | Inr by_db \<Rightarrow> fst (ids_until_error samples_ids (map snd by_db)))"

text \<open>\<open>files\<close>: the names and texts in the directory of the reports\<close>

definition previous_timeout_ids :: "(string \<times> string) list \<Rightarrow> string set" where
  "previous_timeout_ids files =
     set (concat (map (\<lambda>(name, text). if prefix ''timeout_events_'' name \<and> suffix ''.json'' name then file_ids text else []) files))"

text \<open>Samples that timed out before run first, then by difficulty; another difficulty is a KeyError.\<close>

definition difficulty_rank :: "string \<Rightarrow> nat py" where
  "difficulty_rank d =
     (if d = ''simple'' then Inr 0 else if d = ''moderate'' then Inr 1 else if d = ''challenging'' then Inr 2
      else Inl (PyExc ''KeyError'' ([CHR 0x27] @ d @ [CHR 0x27])))"

definition prioritized :: "string set \<Rightarrow> bird_sample list \<Rightarrow> bird_sample list py" where
  "prioritized ids samples =
     py_bind (py_map (\<lambda>s. py_bind (difficulty_rank (bs_difficulty s)) (\<lambda>k.
        Inr ((if bs_id s \<in> ids then 0 else 1, k), s))) samples) (\<lambda>keyed.
       Inr (map snd (sort_key (\<lambda>((a, k), s). 3 * a + k) keyed)))"

subsection \<open>Costs\<close>

record cost_estimate =
  co_samples :: nat
  co_configs :: nat
  co_calls :: nat
  co_tokens :: int
  co_prompt :: int
  co_completion :: int
  co_input_usd :: rat
  co_output_usd :: rat
  co_total_usd :: rat
  co_full_samples :: nat
  co_full_calls :: nat
  co_full_tokens :: int
  co_full_best :: rat
  co_full_retries :: rat
  co_avg_tokens :: int

definition PRICE_INPUT :: rat where "PRICE_INPUT = 28 / 100"
definition PRICE_OUTPUT :: rat where "PRICE_OUTPUT = 110 / 100"

definition stop_iteration :: py_exc where "stop_iteration = PyExc ''StopIteration'' []"

definition tokens_of_run :: "(string \<times> config_report) list \<Rightarrow> string \<Rightarrow> int" where
  "tokens_of_run results k = sum_list (map (\<lambda>(name, x). usage_get (xr_total_tokens x) k) results)"

definition estimate_cost :: "(string \<times> config_report) list \<Rightarrow> nat \<Rightarrow> cost_estimate py" where
  "estimate_cost results total_samples =
     (let tokens = tokens_of_run results;
          input_cost = of_int (tokens ''prompt'') / 1000000 * PRICE_INPUT;
          output_cost = of_int (tokens ''completion'') / 1000000 * PRICE_OUTPUT;
          total_cost = input_cost + output_cost; total_all = tokens ''total''
      in case results of
           [] \<Rightarrow> Inl stop_iteration
         | (name, x) # more_results \<Rightarrow>
             let samples_run = xr_total x; configs_run = length results; calls_run = samples_run * configs_run;
                 avg = (if calls_run = 0 then 0 else of_int total_all / of_nat calls_run);
                 full_calls = total_samples * configs_run; full_tokens = avg * of_nat full_calls;
                 full_cost = (if total_all = 0 then 0 else full_tokens / of_int total_all * total_cost)
             in Inr \<lparr>co_samples = samples_run, co_configs = configs_run, co_calls = calls_run, co_tokens = total_all,
                  co_prompt = tokens ''prompt'', co_completion = tokens ''completion'', co_input_usd = round_dec 4 input_cost,
                  co_output_usd = round_dec 4 output_cost, co_total_usd = round_dec 4 total_cost, co_full_samples = total_samples,
                  co_full_calls = full_calls, co_full_tokens = round_half_even full_tokens, co_full_best = round_dec 2 full_cost,
                  co_full_retries = round_dec 2 (full_cost * (5 / 2)), co_avg_tokens = round_half_even avg\<rparr>)"

subsection \<open>Rows and summaries of the report\<close>

definition opt_bool :: "bool option \<Rightarrow> pyv" where
  "opt_bool v = (case v of None \<Rightarrow> PNone | Some b \<Rightarrow> PBool b)"

text \<open>\<open>_flatten_case\<close>: the columns of the table and their values; the score is a real number here and stands
  apart.\<close>

definition csv_columns :: "string list" where
  "csv_columns = [''question_id'', ''db_id'', ''difficulty'', ''knowledge_source'', ''ex'', ''ves'', ''detail'', ''gen_sql'', ''gold_sql'',
     ''prompt_tokens'', ''completion_tokens'', ''total_tokens'', ''elapsed_s'', ''elapsed_graph_s'', ''elapsed_execmatch_s'',
     ''guard_pass'', ''guard_issue_count'', ''ast_pass'', ''semantic_pass'', ''sem_reject_count'', ''retry_count'', ''candidate_count'',
     ''decomposer_used'', ''sub_question_count'', ''rag_recall'', ''feedback_ex'', ''feedback_fixed'', ''feedback_sql'', ''trace_id'',
     ''last_graph_node'']"

definition flatten_case :: "bird_result \<Rightarrow> (string \<times> pyv) list \<times> real" where
  "flatten_case r =
     ([(''question_id'', PStr (br_id r)), (''db_id'', PStr (br_db_id r)), (''difficulty'', PStr (br_difficulty r)),
       (''knowledge_source'', PStr (br_knowledge r)), (''ex'', PBool (br_ex r)), (''ves'', PNone), (''detail'', PStr (take 200 (br_detail r))),
       (''gen_sql'', PStr (br_gen_sql r)), (''gold_sql'', PStr (br_gold_sql r)), (''prompt_tokens'', PInt (usage_get (br_usage r) ''prompt'')),
       (''completion_tokens'', PInt (usage_get (br_usage r) ''completion'')), (''total_tokens'', PInt (usage_get (br_usage r) ''total'')),
       (''elapsed_s'', PFloat (br_elapsed_s r)), (''elapsed_graph_s'', PFloat (br_elapsed_graph_s r)),
       (''elapsed_execmatch_s'', PFloat (br_elapsed_match_s r)), (''guard_pass'', opt_bool (br_guard_pass r)),
       (''guard_issue_count'', PInt (int (br_guard_issue_count r))), (''ast_pass'', opt_bool (br_ast_pass r)),
       (''semantic_pass'', opt_bool (br_semantic_pass r)), (''sem_reject_count'', PInt (br_sem_reject_count r)),
       (''retry_count'', PInt (br_retry_count r)), (''candidate_count'', PInt (int (br_candidate_count r))),
       (''decomposer_used'', PBool (br_decomposer_used r)), (''sub_question_count'', PInt (int (br_sub_question_count r))),
       (''rag_recall'', case br_recall r of None \<Rightarrow> PNone | Some q \<Rightarrow> PFloat (rr_recall q)),
       (''feedback_ex'', opt_bool (br_feedback_ex r)), (''feedback_fixed'', opt_bool (br_feedback_fixed r)),
       (''feedback_sql'', PStr (br_feedback_sql r)), (''trace_id'', PStr (br_trace_id r)), (''last_graph_node'', br_last_node r)],
      br_ves r)"

definition csv_rows :: "(string \<times> config_report) list \<Rightarrow> ((string \<times> pyv) list \<times> real) list" where
  "csv_rows results = concat (map (\<lambda>(name, x). map flatten_case (xr_cases x)) results)"

record router_dist =
  rd_simple :: nat
  rd_complex :: nat
  rd_total :: nat
  rd_simple_ex :: rat
  rd_complex_ex :: rat

definition router_distribution :: "route_trace list \<Rightarrow> router_dist option" where
  "router_distribution traces =
     (if traces = [] then None
      else let n = (\<lambda>c. length (filter (\<lambda>t. rt_complexity_of t = Some c) traces));
          p = (\<lambda>c. length (filter (\<lambda>t. rt_complexity_of t = Some c \<and> rt_passed t) traces))
      in Some \<lparr>rd_simple = n ''simple'', rd_complex = n ''complex'', rd_total = length traces,
          rd_simple_ex = rate 4 (p ''simple'') (n ''simple''), rd_complex_ex = rate 4 (p ''complex'') (n ''complex'')\<rparr>)"

text \<open>The summary of all configurations: the number of samples is that of the first one.\<close>

record config_line =
  cl_name :: string
  cl_entry :: ckpt_entry
  cl_router :: "router_dist option"
  cl_stats :: "pipeline_stats option"
  cl_recall :: "rat option"
  cl_recall_samples :: nat

definition summary_lines :: "(string \<times> config_report) list \<Rightarrow> nat \<times> config_line list" where
  "summary_lines results =
     (case results of [] \<Rightarrow> 0 | (name, x) # xs \<Rightarrow> xr_total x,
      map (\<lambda>(name, x). \<lparr>cl_name = name, cl_entry = ckpt_of x, cl_router = router_distribution (xr_routes x), cl_stats = xr_stats x,
          cl_recall = xr_avg_recall x, cl_recall_samples = xr_recall_samples x\<rparr>) results)"

subsection \<open>What holds of every result\<close>

lemma results_turn:
  assumes "\<And>f s r. work f s = Inr r \<Longrightarrow> P r" and "\<And>s k d. P (crash_result s k d)"
  shows "list_all P (bl_results (bq_tally b)) \<Longrightarrow> list_all P (bl_results (bq_tally (batch_turn work k workers tu b)))"
proof -
  have d: "list_all P (bl_results (bq_tally (take_done work k f c)))" if "list_all P (bl_results (bq_tally c))" for f c
    using that assms by (auto simp: take_done_def Let_def retry_sample_def split: option.split sum.split)
  have e: "list_all P (bl_results (bq_tally (take_expired k f c)))" if "list_all P (bl_results (bq_tally c))" for f c
    using that assms(2) by (auto simp: take_expired_def Let_def retry_sample_def log_timeout_def split: option.split)
  have fd: "list_all P (bl_results (bq_tally (fold (take_done work k) fs c)))" if "list_all P (bl_results (bq_tally c))" for fs c
    using that by (induction fs arbitrary: c) (auto intro: d)
  have fe: "list_all P (bl_results (bq_tally (fold (take_expired k) fs c)))" if "list_all P (bl_results (bq_tally c))" for fs c
    using that by (induction fs arbitrary: c) (auto intro: e)
  show "list_all P (bl_results (bq_tally b)) \<Longrightarrow> list_all P (bl_results (bq_tally (batch_turn work k workers tu b)))"
    by (simp add: batch_turn_def refill_tally fd fe)
qed

lemma results_after:
  assumes "\<And>f s r. work f s = Inr r \<Longrightarrow> P r" and "\<And>s k d. P (crash_result s k d)"
  shows "list_all P (bl_results (bq_tally b)) \<Longrightarrow> list_all P (bl_results (bq_tally (batch_after work k workers turns n b)))"
proof (induction n arbitrary: turns b)
  case (Suc n)
  then show ?case using Suc.IH [OF results_turn [of work P, OF assms Suc.prems]] by simp
qed simp

text \<open>A feedback round counts only for a sample that failed.\<close>

definition feedback_sound :: "bird_result \<Rightarrow> bool" where
  "feedback_sound r \<longleftrightarrow> (br_feedback_fixed r = Some True \<longrightarrow> \<not> br_ex r \<and> br_feedback_ex r \<noteq> None)"

lemma evaluated_sound: "evaluate_bird_sample E s cfg knowledge cache = Inr r \<Longrightarrow> feedback_sound r"
  by (auto simp: evaluate_bird_sample_def Let_def py_bind_Inr_iff no_feedback_def feedback_sound_def evidence_round_fixed
      split: if_splits)

lemma crash_sound: "feedback_sound (crash_result s k d)"
  by (simp add: feedback_sound_def crash_result_def)

subsection \<open>Bounds\<close>

lemma tally_of_mono: "(\<And>r. r \<in> set rs \<Longrightarrow> P r \<Longrightarrow> Q r) \<Longrightarrow> tally_of P rs \<le> tally_of Q rs"
  unfolding tally_of_def by (induction rs) auto

lemma tally_of_disjoint: "(\<And>r. r \<in> set rs \<Longrightarrow> P r \<Longrightarrow> \<not> Q r) \<Longrightarrow> tally_of P rs + tally_of Q rs \<le> length rs"
  unfolding tally_of_def by (induction rs) auto

lemma tally_of_sort: "tally_of P (sort_key f rs) = tally_of P rs"
  unfolding tally_of_def by (metis mset_filter mset_sort size_mset)

lemma rate_bounds: "a \<le> b \<Longrightarrow> 0 \<le> rate k a b \<and> rate k a b \<le> 1"
proof -
  assume "a \<le> b"
  then have "(of_nat a :: rat) / of_nat b \<le> 1" by (simp add: divide_le_eq)
  then show ?thesis
    using round_dec_mono [of 0 "of_nat a / of_nat b" k] round_dec_mono [of "of_nat a / of_nat b" 1 k] by (simp add: rate_def)
qed

lemma rate_mono: "a \<le> b \<Longrightarrow> rate k a n \<le> rate k b n"
  by (simp add: rate_def round_dec_mono divide_right_mono)

definition check_sound :: "check_stats \<Rightarrow> bool" where
  "check_sound c \<longleftrightarrow> int (cs_passed c) + cs_rejected c = int (cs_checked c) \<and> 0 \<le> cs_rejected c \<and> cs_fn c \<le> cs_passed c
     \<and> 0 \<le> cs_reject_rate c \<and> cs_reject_rate c \<le> 1 \<and> 0 \<le> cs_fn_rate c \<and> cs_fn_rate c \<le> 1"

lemma check_stats_sound: "check_sound (check_stats_of verdict rs)"
proof -
  let ?c = "filter (\<lambda>r. verdict r \<noteq> None) rs"
  have "tally_of (\<lambda>r. verdict r = Some True \<and> \<not> br_ex r \<and> br_gen_sql r \<noteq> []) ?c \<le> tally_of (\<lambda>r. verdict r = Some True) ?c"
    by (rule tally_of_mono) simp
  moreover have "tally_of (\<lambda>r. verdict r = Some True) ?c \<le> length ?c" unfolding tally_of_def by (rule length_filter_le)
  ultimately show ?thesis
    using rate_bounds [of "length ?c - tally_of (\<lambda>r. verdict r = Some True) ?c" "length ?c" 3]
      rate_bounds [of "tally_of (\<lambda>r. verdict r = Some True \<and> \<not> br_ex r \<and> br_gen_sql r \<noteq> []) ?c" "length ?c" 3]
    by (simp add: check_stats_of_def Let_def check_sound_def)
qed

lemma candidate_dist_sum: "sum_list (map snd (candidate_dist rs)) = tally_of (\<lambda>r. 0 < br_candidate_count r) rs"
  unfolding candidate_dist_def tally_of_def
  by (induction rs) (auto simp: min_def)

definition stats_sound :: "bird_result list \<Rightarrow> pipeline_stats \<Rightarrow> bool" where
  "stats_sound rs p \<longleftrightarrow> check_sound (ps_guard p) \<and> check_sound (ps_sem p) \<and> int (ps_sem_fp p) \<le> cs_rejected (ps_sem p)
     \<and> ps_retry_fixed p \<le> ps_retried p \<and> ps_retried p \<le> length rs \<and> ps_dec_ex p \<le> ps_dec_used p
     \<and> sum_list (map snd (ps_distribution p)) = ps_multi p
     \<and> list_all (\<lambda>q. 0 \<le> q \<and> q \<le> 1) [ps_fix_rate p, ps_retry_pct p, ps_dec_rate p]"

lemma pipeline_stats_sound: "compute_pipeline_stats rs = Some p \<Longrightarrow> stats_sound rs p"
proof -
  assume p: "compute_pipeline_stats rs = Some p"
  let ?c = "filter (\<lambda>r. br_semantic_pass r \<noteq> None) rs"
  have "tally_of (\<lambda>r. br_semantic_pass r = Some True) ?c + tally_of (\<lambda>r. br_semantic_pass r = Some False \<and> br_ex r) ?c \<le> length ?c"
    by (rule tally_of_disjoint) simp
  moreover have "tally_of (\<lambda>r. br_semantic_pass r = Some False \<and> br_ex r) ?c = tally_of (\<lambda>r. br_semantic_pass r = Some False \<and> br_ex r) rs"
    unfolding tally_of_def by (induction rs) auto
  ultimately have fp: "int (ps_sem_fp p) \<le> cs_rejected (ps_sem p)"
    using p by (auto simp: compute_pipeline_stats_def Let_def check_stats_of_def split: if_splits)
  have m: "tally_of (\<lambda>r. 0 < br_retry_count r \<and> br_ex r) rs \<le> tally_of (\<lambda>r. 0 < br_retry_count r) rs"
    "tally_of (\<lambda>r. br_decomposer_used r \<and> br_ex r) rs \<le> tally_of br_decomposer_used rs"
    "tally_of (\<lambda>r. 0 < br_retry_count r) rs \<le> length rs"
    by (rule tally_of_mono, simp, rule tally_of_mono, simp) (simp add: tally_of_def)
  show ?thesis
    using p fp m check_stats_sound rate_bounds [OF m(1), of 3] rate_bounds [OF m(2), of 3] rate_bounds [OF m(3), of 3] candidate_dist_sum
    by (auto simp: compute_pipeline_stats_def Let_def stats_sound_def split: if_splits)
qed

subsection \<open>Checkpoints of an interrupted run\<close>

lemma run_bird_good:
  "list_all (\<lambda>c. py_ok (\<lambda>x. True) (run c)) cs \<Longrightarrow>
    \<exists>results. run_bird_configs run (cs @ ds) acc f0
        = run_bird_configs run ds results (if cs = [] then f0 else Some (save_checkpoint results))
      \<and> fst ` set results = fst ` set acc \<union> bc_name ` set cs"
proof (induction cs arbitrary: acc f0)
  case (Cons c cs)
  then obtain x where x: "run c = Inr x" by (auto simp: py_ok_iff)
  let ?acc = "AList.update (bc_name c) x acc"
  have "list_all (\<lambda>c. py_ok (\<lambda>x. True) (run c)) cs" using Cons.prems by simp
  from Cons.IH [OF this, of ?acc "Some (save_checkpoint ?acc)"] obtain results where
    i: "run_bird_configs run (cs @ ds) ?acc (Some (save_checkpoint ?acc))
      = run_bird_configs run ds results (if cs = [] then Some (save_checkpoint ?acc) else Some (save_checkpoint results))"
    and r: "fst ` set results = fst ` set ?acc \<union> bc_name ` set cs" by blast
  show ?case
  proof (cases "cs = []")
    case True
    then show ?thesis using x by (intro exI [of _ ?acc]) (simp add: Let_def dom_update)
  next
    case False
    then show ?thesis using x i by (intro exI [of _ results]) (simp add: Let_def r dom_update)
  qed
qed auto

lemma ablation_resumes:
  "remaining_configs all_configs file \<noteq> [] \<Longrightarrow> ablation run all_configs file =
    (case run_bird_configs run (remaining_configs all_configs file) [] file of
       (Inl e, file') \<Rightarrow> (Inl e, file') | (Inr results, file') \<Rightarrow> (Inr (merge_results results file), file'))"
  by (auto simp: ablation_def split: list.split)

lemma saved_names: "fst ` set (save_checkpoint results) = fst ` set results"
  by (force simp: save_checkpoint_def)

lemma merged_names: "fst ` set (merge_results results (Some old)) = fst ` set results \<union> fst ` set old"
proof -
  have "fst ` set (fold (\<lambda>(k, v) acc. AList.update k (restored v) acc) old acc) = fst ` set acc \<union> fst ` set old" for acc
    by (induction old arbitrary: acc) (simp_all add: dom_update case_prod_unfold)
  then show ?thesis by (simp add: merge_results_def)
qed

subsection \<open>Properties\<close>

text \<open>C32: The rates of a finished configuration are consistent: of \<open>n\<close> samples, passes and repairs by feedback
  concern different ones, so their sum is at most \<open>n\<close>; all rates lie between 0 and 1 and the one after feedback is not
  below the one before; in the statistics passes and rejections of a check add up to the checks, the false
  negatives are among the passes, the false positives of the semantic check among its rejections, and the
  candidates' distribution adds up to the samples that had candidates.\<close>

theorem report_rates_bounded:
  assumes "0 < workers"
    and "b = batch_after (\<lambda>f s. evaluate_bird_sample (E f) s cfg knowledge cache) knowledge workers turns n (batch_start workers ts samples)"
    and "bq_pending b = []" and "finish_config cfg knowledge (length samples) (bq_tally b) = Inr x"
  shows "xr_passed x + xr_fb_fixed x \<le> xr_total x \<and> xr_fb_fixed x \<le> xr_fb_attempted x
    \<and> list_all (\<lambda>q. 0 \<le> q \<and> q \<le> 1) [xr_ex_rate x, xr_fb_fix_rate x, xr_fb_pre_ex x, xr_fb_post_ex x]
    \<and> xr_fb_pre_ex x \<le> xr_fb_post_ex x
    \<and> (case xr_stats x of None \<Rightarrow> False | Some p \<Rightarrow> stats_sound (xr_cases x) p)"
proof -
  let ?rs = "bl_results (bq_tally b)"
  let ?fixed = "tally_of (\<lambda>r. br_feedback_fixed r = Some True)"
  have q0: "bq_pending (batch_start workers ts samples) = [] \<Longrightarrow> bq_queue (batch_start workers ts samples) = []"
    using refill_full [OF assms(1)] by (simp add: batch_start_def)
  have ok: "batch_ok samples b" "bq_queue b = []"
    using after_keeps [OF evaluation_names assms(1) start_ok q0] assms(2,3) by blast+
  have n: "length ?rs = length samples" "bl_passed (bq_tally b) = tally_of br_ex ?rs"
    using ended_results(2) [OF ok(1) assms(3) ok(2)] ok(1) by (simp_all add: batch_ok_def tally_ok_def tally_of_def)
  have "list_all feedback_sound (bl_results (bq_tally (batch_start workers ts samples)))"
    by (simp add: batch_start_def refill_tally bird_start_tally_def)
  then have s: "list_all feedback_sound ?rs"
    unfolding assms(2) by (rule results_after [where P = feedback_sound, rotated 2]) (rule evaluated_sound crash_sound, assumption?)+
  have d: "tally_of br_ex ?rs + ?fixed ?rs \<le> length ?rs"
    by (rule tally_of_disjoint) (use s in \<open>auto simp: list_all_iff feedback_sound_def\<close>)
  have a: "?fixed ?rs \<le> tally_of (\<lambda>r. br_feedback_ex r \<noteq> None) ?rs"
    by (rule tally_of_mono) (use s in \<open>auto simp: list_all_iff feedback_sound_def\<close>)
  have ne: "samples \<noteq> []" using assms(4) by (auto simp: finish_config_def)
  then have "sort_key br_id ?rs \<noteq> []" using n(1) by (metis length_0_conv length_sort)
  then obtain p where "compute_pipeline_stats (sort_key br_id ?rs) = Some p" by (simp add: compute_pipeline_stats_def Let_def)
  then show ?thesis
    using assms(4) ne n d a pipeline_stats_sound rate_bounds [of "tally_of br_ex ?rs" "length samples" 4]
      rate_bounds [OF a, of 4] rate_bounds [OF d [unfolded n(1)], of 4] rate_mono [of "tally_of br_ex ?rs" "tally_of br_ex ?rs + ?fixed ?rs" 4 "length samples"]
    by (auto simp: finish_config_def Let_def tally_of_sort)
qed

text \<open>C31: Resuming. A run that starts from a checkpoint and is not interrupted again ends with a result for
  every configuration. One that is interrupted again after finishing some configurations leaves a
  checkpoint with those only: the results the first run had saved are gone from the file, and the next run
  starts these configurations from scratch.\<close>

theorem checkpoint_forgets:
  assumes "remaining_configs all_configs (Some old) = xs @ y # ys" and "xs \<noteq> []"
    and "list_all (\<lambda>c. py_ok (\<lambda>x. True) (run c)) xs" and "run y = Inl e"
  shows "\<exists>file. ablation run all_configs (Some old) = (Inl e, Some file) \<and> fst ` set file = bc_name ` set xs
    \<and> (\<forall>c. c \<in> set all_configs \<and> bc_name c \<in> fst ` set old \<longrightarrow> c \<in> set (remaining_configs all_configs (Some file)))"
proof -
  obtain results where r: "run_bird_configs run (xs @ y # ys) [] (Some old)
      = run_bird_configs run (y # ys) results (Some (save_checkpoint results))"
    and names: "fst ` set results = bc_name ` set xs"
    using run_bird_good [OF assms(3), of "y # ys" "[]" "Some old"] assms(2) by auto
  have "bc_name ` set xs \<inter> fst ` set old = {}"
  proof -
    have "set xs \<subseteq> set (remaining_configs all_configs (Some old))" using assms(1) by auto
    then show ?thesis by (auto simp: remaining_configs_def)
  qed
  then have "\<forall>c. c \<in> set all_configs \<and> bc_name c \<in> fst ` set old
      \<longrightarrow> c \<in> set (remaining_configs all_configs (Some (save_checkpoint results)))"
    using names saved_names [of results] by (auto simp: remaining_configs_def)
  moreover have "ablation run all_configs (Some old) = (Inl e, Some (save_checkpoint results))"
    using r assms(1,4) by (simp add: ablation_resumes)
  ultimately show ?thesis using names saved_names [of results] by auto
qed

text \<open>The uninterrupted case\<close>

lemma resume_completes:
  assumes "list_all (\<lambda>c. py_ok (\<lambda>x. True) (run c)) all_configs" and "remaining_configs all_configs (Some old) \<noteq> []"
  shows "\<exists>results file. ablation run all_configs (Some old) = (Inr results, file)
    \<and> fst ` set results = bc_name ` set all_configs \<union> fst ` set old"
proof -
  let ?cs = "remaining_configs all_configs (Some old)"
  have "list_all (\<lambda>c. py_ok (\<lambda>x. True) (run c)) ?cs" using assms(1) by (auto simp: list_all_iff remaining_configs_def)
  from run_bird_good [OF this, of "[]" "[]" "Some old"] obtain results where
    "run_bird_configs run ?cs [] (Some old) = (Inr results, if ?cs = [] then Some old else Some (save_checkpoint results))"
    "fst ` set results = bc_name ` set ?cs" by auto
  moreover have "bc_name ` set ?cs \<union> fst ` set old = bc_name ` set all_configs \<union> fst ` set old"
    by (auto simp: remaining_configs_def)
  ultimately show ?thesis using assms(2) merged_names [of results old]
    by (auto simp: ablation_resumes)
qed

text \<open>The predicted costs of a run with the samples already evaluated are those it had.\<close>

lemma cost_of_same_run:
  assumes "estimate_cost results (xr_total (snd (hd results))) = Inr c" and "0 < xr_total (snd (hd results))"
  shows "co_full_calls c = co_calls c" and "co_full_tokens c = co_tokens c"
proof -
  obtain name x xs where r: "results = (name, x) # xs"
    using assms(1) by (cases results) (auto simp: estimate_cost_def Let_def)
  let ?k = "xr_total x * length results"
  have k: "0 < ?k" using assms(2) r by simp
  have "co_full_calls c = ?k \<and> co_calls c = ?k \<and> co_tokens c = tokens_of_run results ''total''
      \<and> co_full_tokens c = round_half_even (of_int (tokens_of_run results ''total'') / of_nat ?k * of_nat ?k)"
    using assms(1) k unfolding r
    by (auto simp: estimate_cost_def Let_def simp del: list.size of_nat_mult times_divide_eq_left)
  then show "co_full_calls c = co_calls c" and "co_full_tokens c = co_tokens c" using k by simp_all
qed

lemma cost_needs_results: "estimate_cost results n = Inl e \<longleftrightarrow> results = [] \<and> e = stop_iteration"
  by (auto simp: estimate_cost_def Let_def split: list.split prod.split)

text \<open>Witnesses: a batch of two samples that crash, and three configurations of which the first is in the
  checkpoint and the third is interrupted.\<close>

theorem report_rates_bounded_witness:
  "\<exists>n x. bq_pending (hint_batch 8 n) = [] \<and> finish_config hint_config ''rag'' 2 (bq_tally (hint_batch 8 n)) = Inr x
    \<and> xr_passed x + xr_fb_fixed x \<le> 2"
proof -
  have w: "0 < (8::nat)" by simp
  let ?ss = "[hint_sample, hint_sample\<lparr>bs_id := ''8''\<rparr>]"
  have "names_sample (\<lambda>f s. evaluate_bird_sample hint_env s hint_config ''rag'' [])"
    using evaluation_names [of "\<lambda>f. hint_env"] by simp
  from batch_ends [OF this w start_ok idle_time] obtain n where n: "bq_pending (hint_batch 8 n) = []"
    unfolding hint_batch_def by blast
  obtain x where x: "finish_config hint_config ''rag'' (length ?ss) (bq_tally (hint_batch 8 n)) = Inr x" "xr_total x = 2"
    by (auto simp: finish_config_def Let_def)
  have "xr_passed x + xr_fb_fixed x \<le> 2" using report_rates_bounded [OF w hint_batch_def n x(1)] x(2) by simp
  moreover have "finish_config hint_config ''rag'' 2 (bq_tally (hint_batch 8 n)) = Inr x" using x(1) by (simp add: numeral_2_eq_2)
  ultimately show ?thesis using n by blast
qed

definition blank_entry :: ckpt_entry where
  "blank_entry = \<lparr>ck_ex_rate = 0, ck_avg_ves = 0, ck_passed = 0, ck_total = 1, ck_crashed = 0, ck_avg_tokens = 0, ck_avg_time_s = 0,
     ck_tokens_per_s = 0, ck_total_tokens = zero_usage, ck_diff = [], ck_cases = [], ck_routes = []\<rparr>"

definition demo_runs :: "bird_config \<Rightarrow> config_report py" where
  "demo_runs c = (if bc_name c = ''R2_RAG'' then Inl (PyExc ''KeyboardInterrupt'' []) else Inr (restored blank_entry))"

definition three_configs :: "bird_config list" where
  "three_configs = take 3 default_configs"

theorem checkpoint_forgets_witness:
  "\<exists>file. snd (ablation demo_runs three_configs (Some [(''R0_Baseline'', blank_entry)])) = Some file
    \<and> fst ` set file = {''R1_Decomposer''}"
proof -
  have "three_configs = [ablation_step ''R0_Baseline'' False False False None False None,
      ablation_step ''R1_Decomposer'' True False False None False None, ablation_step ''R2_RAG'' True True False None False None]"
    by (simp add: three_configs_def default_configs_def)
  moreover have "bc_name (ablation_step n d r m p f e) = n" for n d r m p f e by (simp add: ablation_step_def)
  ultimately obtain a b c where abc: "three_configs = [a, b, c]" "bc_name a = ''R0_Baseline''" "bc_name b = ''R1_Decomposer''" "bc_name c = ''R2_RAG''"
    by blast
  have r: "remaining_configs three_configs (Some [(''R0_Baseline'', blank_entry)]) = [b] @ c # []"
    by (simp add: remaining_configs_def abc)
  have ok: "list_all (\<lambda>c. py_ok (\<lambda>x. True) (demo_runs c)) [b]" "demo_runs c = Inl (PyExc ''KeyboardInterrupt'' [])"
    by (simp_all add: demo_runs_def abc py_ok_def)
  have "[b] \<noteq> []" by simp
  from checkpoint_forgets [OF r this ok] obtain ckp where
    "ablation demo_runs three_configs (Some [(''R0_Baseline'', blank_entry)]) = (Inl (PyExc ''KeyboardInterrupt'' []), Some ckp)"
    "fst ` set ckp = bc_name ` set [b]" by blast
  then show ?thesis using abc(3) by simp
qed

end
