(* ===== verification/StreamClient.thy ===== *)
theory StreamClient
  imports TypedTasks QueryApi
begin

text \<open>
  The clients of the event streams: \<open>call_api_stream\<close> of \<open>ui/query.py\<close>, and \<open>_call_api_async\<close> and
  \<open>_call_feedback_async\<close> of \<open>ui/app.py\<close>. They read the stream of a response line by line and return what
  the page shows. What they write to the page while they wait is output only; that joining the names of
  the nodes for it can raise is kept. The connection is a parameter: it fails at once, or it delivers
  lines and then ends or breaks. How the server library turns events into lines is a parameter too, with
  the format of server-sent events as its law.
\<close>

subsection \<open>Events on the wire\<close>

text \<open>The client takes the separators of Unicode (NEL, LS, PS; here as UTF-8) for ends of lines, too.\<close>

definition line_separators :: "string list" where
  "line_separators = [[CHR 0xC2, CHR 0x85], [CHR 0xE2, CHR 0x80, CHR 0xA8], [CHR 0xE2, CHR 0x80, CHR 0xA9]]"

definition one_line :: "string \<Rightarrow> bool" where
  "one_line s \<longleftrightarrow> list_all (\<lambda>c. 32 \<le> ord_of c) s \<and> list_all (\<lambda>b. \<not> str_in b s) line_separators"

text \<open>Lines that carry a sequence of events: a line with the name, one with the data, an empty one.
  Between events there may be comments, which keep the connection alive.\<close>

inductive delivered :: "(string \<times> string) list \<Rightarrow> string list \<Rightarrow> bool" where
  nothing: "delivered [] []"
| blank: "delivered evs ls \<Longrightarrow> delivered evs ([] # ls)"
| comment: "delivered evs ls \<Longrightarrow> delivered evs ((CHR '':'' # c) # ls)"
| event: "delivered evs ls \<Longrightarrow> delivered ((e, d) # evs) ((''event: '' @ e) # (''data: '' @ d) # [] # ls)"

locale sse_channel =
  fixes encode :: "(string \<times> string) list \<Rightarrow> string list"
  assumes in_order: "list_all (\<lambda>(e, d). one_line e \<and> one_line d) evs \<Longrightarrow> delivered evs (encode evs)"

definition plain_sse :: "(string \<times> string) list \<Rightarrow> string list" where
  "plain_sse evs = concat (map (\<lambda>(e, d). [''event: '' @ e, ''data: '' @ d, [], '': ping'', []]) evs)"

interpretation plain_channel: sse_channel plain_sse
proof
  fix evs :: "(string \<times> string) list"
  show "delivered evs (plain_sse evs)"
  proof (induction evs)
    case Nil
    show ?case by (simp add: plain_sse_def delivered.nothing)
  next
    case (Cons ev evs)
    obtain e d where ev: "ev = (e, d)" by (cases ev)
    have "delivered evs ((CHR '':'' # '' ping'') # [] # plain_sse evs)"
      by (intro delivered.comment delivered.blank Cons)
    then show ?case using delivered.event [of evs _ e d] by (simp add: plain_sse_def ev)
  qed
qed

subsection \<open>The loop over the lines\<close>

text \<open>\<open>cur\<close> is \<open>current_event\<close>. A handler returns the new state of the page, or the result. The data of an
  event that is not JSON is skipped, and the event stays the current one.\<close>

fun read_lines ::
  "(string \<Rightarrow> pyv \<Rightarrow> 's \<Rightarrow> ('s + pydict) py) \<Rightarrow> string option \<Rightarrow> 's \<Rightarrow> string list \<Rightarrow> ('s + pydict) py" where
  "read_lines handle cur s [] = Inr (Inl s)"
| "read_lines handle cur s (line # ls) =
     (if prefix ''event:'' line then read_lines handle (Some (strip (drop 6 line))) s ls
      else if prefix ''data:'' line \<and> cur \<noteq> None \<and> cur \<noteq> Some [] then
        (case json_loads (strip (drop 5 line)) of
           Inl e \<Rightarrow> if exc_type e = ''JSONDecodeError'' then read_lines handle cur s ls else Inl e
         | Inr data \<Rightarrow> (case handle (the cur) data s of
             Inl e \<Rightarrow> Inl e
           | Inr (Inr result) \<Rightarrow> Inr (Inr result)
           | Inr (Inl s) \<Rightarrow> read_lines handle None s ls))
      else read_lines handle cur s ls)"

text \<open>A response: the lines that arrive, and the exception that ends them early, if any\<close>

type_synonym response = "(string list \<times> py_exc option) py"

definition stream_error :: "py_exc \<Rightarrow> string" where
  "stream_error e = ''Stream error: '' @ exc_msg e"

definition no_completion :: string where
  "no_completion = ''stream ended without completion''"

definition read_response ::
  "(string \<Rightarrow> pyv \<Rightarrow> 's \<Rightarrow> ('s + pydict) py) \<Rightarrow> 's \<Rightarrow> (py_exc \<Rightarrow> pydict) \<Rightarrow> ('s \<Rightarrow> pydict) \<Rightarrow> response \<Rightarrow> pydict" where
  "read_response handle s failed ended resp =
     (case resp of
        Inl e \<Rightarrow> failed e
      | Inr (ls, broken) \<Rightarrow> (case read_lines handle None s ls of
          Inl e \<Rightarrow> failed e
        | Inr (Inr result) \<Rightarrow> result
        | Inr (Inl s) \<Rightarrow> (case broken of None \<Rightarrow> ended s | Some e \<Rightarrow> failed e)))"

text \<open>The texts \<open>sep.join(xs)\<close> joins, and \<open>s += v\<close>, for values that need not be strings\<close>

fun all_texts :: "nat \<Rightarrow> pyv list \<Rightarrow> string list py" where
  "all_texts i [] = Inr []"
| "all_texts i (v # vs) =
     (case v of
        PStr s \<Rightarrow> py_bind (all_texts (Suc i) vs) (\<lambda>ss. Inr (s # ss))
      | _ \<Rightarrow> Inl (PyExc ''TypeError'' (''sequence item '' @ show_nat i @ '': expected str instance, '' @ py_type_name v @ '' found'')))"

definition add_text :: "string \<Rightarrow> pyv \<Rightarrow> string py" where
  "add_text s v = (case v of PStr t \<Rightarrow> Inr (s @ t)
     | _ \<Rightarrow> Inl (PyExc ''TypeError'' (''can only concatenate str (not '' @ [CHR 0x22] @ py_type_name v @ [CHR 0x22] @ '') to str'')))"

text \<open>The line of node names on the page\<close>

definition caption :: "pyv list \<Rightarrow> 'a \<Rightarrow> 'a py" where
  "caption nodes x = py_bind (all_texts 0 nodes) (\<lambda>t. Inr x)"

definition generating :: pyv where "generating = PStr ''generating...''"

subsection \<open>The query page\<close>

text \<open>What a request on the page sends; an empty setting of the model counts as none.\<close>

record ui_settings =
  us_multi_candidate :: bool
  us_rag_k :: int
  us_column_prune :: bool
  us_fk_expand :: bool
  us_fewshot :: bool
  us_model :: string
  us_api_key :: string
  us_base_url :: string

definition or_none :: "string \<Rightarrow> pyv" where
  "or_none s = (if s = [] then PNone else PStr s)"

definition llm_payload :: "ui_settings \<Rightarrow> pydict" where
  "llm_payload u = [(''model'', or_none (us_model u)), (''api_key'', or_none (us_api_key u)), (''base_url'', or_none (us_base_url u))]"

definition pipeline_payload :: "ui_settings \<Rightarrow> string \<Rightarrow> string \<Rightarrow> string \<Rightarrow> pydict" where
  "pipeline_payload u question db_id database_url =
     [(''question'', PStr question), (''db_id'', PStr db_id), (''database_url'', PStr database_url),
      (''rag_schema'', PBool True), (''rag_domain'', PBool True), (''multi_candidate'', PBool (us_multi_candidate u)),
      (''rag_k'', PInt (us_rag_k u)), (''rag_column_prune'', PBool (us_column_prune u)), (''rag_hybrid'', PBool True),
      (''rag_fk_expand'', PBool (us_fk_expand u)), (''fewshot_enabled'', PBool (us_fewshot u))]"

definition stream_payload :: "ui_settings \<Rightarrow> string \<Rightarrow> string \<Rightarrow> string \<Rightarrow> pydict" where
  "stream_payload u question db_id database_url =
     pipeline_payload u question db_id database_url @ [(''use_cache'', PBool False), (''llm'', PDict (llm_payload u))]"

definition error_result :: "pyv \<Rightarrow> pydict" where
  "error_result msg =
     [(''sql'', PStr []), (''exec_result'', PDict [(''success'', PBool False), (''error'', msg)]),
      (''token_usage'', PDict []), (''elapsed_ms'', PInt 0), (''rag_chunks'', PList []),
      (''node_timings'', PDict []), (''raw_response'', PStr [])]"

record query_page =
  qp_nodes :: "pyv list"
  qp_preview :: pyv
  qp_tokens :: string

definition page_answer :: "pydict \<Rightarrow> pydict" where
  "page_answer d =
     [(''sql'', d_get_or d ''sql'' (PStr [])), (''exec_result'', d_get_or d ''exec_result'' PNone),
      (''token_usage'', d_get_or d ''token_usage'' (PDict [])), (''elapsed_ms'', PInt 0), (''rag_chunks'', PList []),
      (''node_timings'', d_get_or d ''node_timings'' (PDict [])), (''raw_response'', PStr [])]"

definition page_event :: "string \<Rightarrow> pyv \<Rightarrow> query_page \<Rightarrow> (query_page + pydict) py" where
  "page_event ev data s =
     (if ev = ''token'' then
        py_bind (as_dict data ''get'') (\<lambda>d.
        py_bind (add_text (qp_tokens s) (d_get_or d ''text'' (PStr []))) (\<lambda>t.
          caption (qp_nodes s @ [generating]) (Inl (s\<lparr>qp_tokens := t\<rparr>))))
      else if ev = ''node_complete'' then
        py_bind (as_dict data ''get'') (\<lambda>d.
          let node = d_get_or d ''node'' (PStr ''?''); summary = d_get_or d ''summary'' (PDict [])
          in if node = PStr ''_post_refiner'' then Inr (Inl s)
             else
               let s = s\<lparr>qp_nodes := qp_nodes s @ [node]\<rparr>
               in py_bind (caption (qp_nodes s) ()) (\<lambda>_.
                    if node = PStr ''generator'' then
                      py_bind (as_dict summary ''get'') (\<lambda>m.
                        Inr (Inl (s\<lparr>qp_preview := d_get_or m ''sql_preview'' (PStr []), qp_tokens := []\<rparr>)))
                    else if node \<in> {PStr ''guard'', PStr ''voter'', PStr ''semantic_check''} then
                      py_bind (as_dict summary ''get'') (\<lambda>m. Inr (Inl s))
                    else Inr (Inl s)))
      else if ev = ''complete'' then py_bind (as_dict data ''get'') (\<lambda>d. Inr (Inr (page_answer d)))
      else if ev = ''error'' then
        py_bind (as_dict data ''get'') (\<lambda>d. Inr (Inr (error_result (d_get_or d ''error'' (PStr ''stream error'')))))
      else Inr (Inl s))"

definition call_api_stream :: "response \<Rightarrow> pydict" where
  "call_api_stream resp =
     read_response page_event \<lparr>qp_nodes = [], qp_preview = PStr [], qp_tokens = []\<rparr>
       (\<lambda>e. error_result (PStr (stream_error e))) (\<lambda>s. error_result (PStr no_completion)) resp"

subsection \<open>The task page\<close>

definition failed_result :: "pyv \<Rightarrow> pyv \<Rightarrow> string \<Rightarrow> pydict" where
  "failed_result sql msg raw =
     [(''sql'', sql), (''exec_result'', PDict [(''success'', PBool False), (''error'', msg)]),
      (''token_usage'', PDict []), (''elapsed_ms'', PInt 0), (''rag_chunks'', PList []),
      (''node_timings'', PDict []), (''raw_response'', PStr raw)]"

text \<open>\<open>pg_seen\<close> is the set \<open>seen_nodes\<close>; a name that is not a string does not get past the caption.\<close>

record task_page =
  pg_nodes :: "pyv list"
  pg_seen :: "pyv list"
  pg_preview :: pyv
  pg_tokens :: string

definition hashed :: "pyv \<Rightarrow> pyv py" where
  "hashed v = (case v of
       PList xs \<Rightarrow> Inl (PyExc ''TypeError'' (''unhashable type: '' @ [CHR 0x27] @ ''list'' @ [CHR 0x27]))
     | PDict d \<Rightarrow> Inl (PyExc ''TypeError'' (''unhashable type: '' @ [CHR 0x27] @ ''dict'' @ [CHR 0x27]))
     | _ \<Rightarrow> Inr v)"

definition see_node :: "pyv \<Rightarrow> task_page \<Rightarrow> (bool \<times> task_page) py" where
  "see_node node s =
     py_bind (hashed node) (\<lambda>node.
       if node \<in> set (pg_seen s) then Inr (False, s)
       else Inr (True, s\<lparr>pg_seen := node # pg_seen s, pg_nodes := pg_nodes s @ [node]\<rparr>))"

definition task_answer :: "pyv \<Rightarrow> pydict \<Rightarrow> pydict" where
  "task_answer tid d =
     [(''task_id'', tid), (''sql'', d_get_or d ''sql'' (PStr [])), (''exec_result'', d_get_or d ''exec_result'' PNone),
      (''token_usage'', d_get_or d ''token_usage'' (PDict [])), (''elapsed_ms'', d_get_or d ''elapsed_ms'' (PInt 0)),
      (''rag_chunks'', d_get_or d ''rag_chunks'' (PList [])), (''node_timings'', d_get_or d ''node_timings'' (PDict [])),
      (''raw_response'', d_get_or d ''raw_response'' (PStr [])), (''voter_candidates'', d_get_or d ''voter_candidates'' (PList []))]"

definition task_event :: "pyv \<Rightarrow> string \<Rightarrow> pyv \<Rightarrow> task_page \<Rightarrow> (task_page + pydict) py" where
  "task_event tid ev data s =
     (if ev = ''token'' then
        py_bind (as_dict data ''get'') (\<lambda>d.
        py_bind (add_text (pg_tokens s) (d_get_or d ''text'' (PStr []))) (\<lambda>t.
          caption (pg_nodes s @ [generating]) (Inl (s\<lparr>pg_tokens := t\<rparr>))))
      else if ev = ''node_done'' then
        py_bind (as_dict data ''get'') (\<lambda>d.
        py_bind (see_node (d_get_or d ''node'' (PStr ''?'')) s) (\<lambda>(new, s).
          if new then caption (pg_nodes s) (Inl s) else Inr (Inl s)))
      else if ev = ''status'' then
        py_bind (as_dict data ''get'') (\<lambda>d.
          let s = s\<lparr>pg_preview := py_or_val (d_get_or d ''sql_preview'' (PStr [])) (pg_preview s)\<rparr>;
              node = d_get_or d ''node'' (PStr [])
          in if truthy node then py_bind (see_node node s) (\<lambda>(new, s). Inr (Inl s)) else Inr (Inl s))
      else if ev = ''complete'' then py_bind (as_dict data ''get'') (\<lambda>d. Inr (Inr (task_answer tid d)))
      else if ev \<in> {''error'', ''timeout''} then
        py_bind (as_dict data ''get'') (\<lambda>d.
          Inr (Inr ((''task_id'', tid) # failed_result (pg_preview s) (d_get_or d ''error'' (PStr ''task failed'')) [])))
      else Inr (Inl s))"

text \<open>The answer to the submission is its status and its body; \<open>stream\<close> is the response for a task.\<close>

definition call_api_async :: "(nat \<times> pyv py) py \<Rightarrow> (pyv \<Rightarrow> response) \<Rightarrow> pydict" where
  "call_api_async submitted stream =
     (let refused = (\<lambda>e. failed_result (PStr []) (PStr (''Task submission error: '' @ exc_msg e)) (exc_msg e))
      in case submitted of
           Inl e \<Rightarrow> refused e
         | Inr (status_code, body) \<Rightarrow>
             if status_code \<noteq> 202
             then failed_result (PStr []) (PStr (''Task submission failed ('' @ show_nat status_code @ '')'')) []
             else (case py_bind body (\<lambda>b. py_item b ''task_id'') of
                 Inl e \<Rightarrow> refused e
               | Inr tid \<Rightarrow>
                   read_response (task_event tid) \<lparr>pg_nodes = [], pg_seen = [], pg_preview = PStr [], pg_tokens = []\<rparr>
                     (\<lambda>e. failed_result (PStr []) (PStr (stream_error e)) (exc_msg e))
                     (\<lambda>s. failed_result (pg_preview s) (PStr no_completion) []) (stream tid)))"

subsection \<open>Feedback on the page\<close>

definition failed_correction :: "pyv \<Rightarrow> string \<Rightarrow> pyv \<Rightarrow> pydict" where
  "failed_correction tid sql msg =
     [(''task_id'', tid), (''sql'', PStr sql), (''exec_result'', PDict [(''success'', PBool False), (''error'', msg)]),
      (''token_usage'', PDict []), (''node_timings'', PDict [])]"

definition round_answer :: "pyv \<Rightarrow> pydict \<Rightarrow> pydict" where
  "round_answer tid d =
     [(''task_id'', tid), (''sql'', d_get_or d ''sql'' (PStr [])), (''exec_result'', d_get_or d ''exec_result'' PNone),
      (''token_usage'', d_get_or d ''token_usage'' (PDict [])), (''node_timings'', d_get_or d ''node_timings'' (PDict [])),
      (''raw_response'', PStr []), (''turn'', d_get_or d ''turn'' (PInt 1))]"

record round_page =
  rp_nodes :: "pyv list"
  rp_tokens :: string

definition round_event :: "pyv \<Rightarrow> string \<Rightarrow> pyv \<Rightarrow> round_page \<Rightarrow> (round_page + pydict) py" where
  "round_event tid ev data s =
     (if ev = ''token'' then
        py_bind (as_dict data ''get'') (\<lambda>d.
        py_bind (add_text (rp_tokens s) (d_get_or d ''text'' (PStr []))) (\<lambda>t.
          caption (rp_nodes s @ [generating]) (Inl (s\<lparr>rp_tokens := t\<rparr>))))
      else if ev = ''node_done'' then
        py_bind (as_dict data ''get'') (\<lambda>d.
          let node = d_get_or d ''node'' (PStr ''?'')
          in Inr (Inl (if node \<in> set (rp_nodes s) then s else s\<lparr>rp_nodes := rp_nodes s @ [node]\<rparr>)))
      else if ev = ''complete'' then py_bind (as_dict data ''get'') (\<lambda>d. Inr (Inr (round_answer tid d)))
      else if ev \<in> {''error'', ''timeout''} then
        py_bind (as_dict data ''get'') (\<lambda>d.
          Inr (Inr (failed_correction tid (rp_tokens s) (d_get_or d ''error'' (PStr ''correction failed'')))))
      else Inr (Inl s))"

definition call_feedback_async :: "pyv \<Rightarrow> nat py \<Rightarrow> response \<Rightarrow> pydict" where
  "call_feedback_async tid submitted resp =
     (case submitted of
        Inl e \<Rightarrow> failed_correction tid [] (PStr (''Feedback error: '' @ exc_msg e))
      | Inr status_code \<Rightarrow>
          if status_code \<noteq> 202
          then failed_correction tid [] (PStr (''Feedback submission failed ('' @ show_nat status_code @ '')''))
          else read_response (round_event tid) \<lparr>rp_nodes = [PStr ''refiner''], rp_tokens = []\<rparr>
            (\<lambda>e. failed_correction tid [] (PStr (stream_error e)))
            (\<lambda>s. failed_correction tid (rp_tokens s) (PStr no_completion)) resp)"

subsection \<open>Text that survives the wire\<close>

text \<open>What a value becomes when it is encoded with \<open>default=str\<close> and decoded\<close>

fun plain_json :: "pyv \<Rightarrow> pyv" where
  "plain_json (PDec q s) = PStr s"
| "plain_json (POther s) = PStr s"
| "plain_json (PList xs) = PList (map plain_json xs)"
| "plain_json (PDict d) = PDict (map (\<lambda>(k, v). (k, plain_json v)) d)"
| "plain_json v = v"

definition received_dict :: "pydict \<Rightarrow> pydict" where
  "received_dict d = map (\<lambda>(k, v). (k, plain_json v)) d"

lemma dumps_plain_json: "json_dumps (plain_json v) = json_dumps v"
proof (induction v)
  case (PList xs)
  then have "map (json_dumps \<circ> plain_json) xs = map json_dumps xs" by simp
  then show ?case by (simp only: plain_json.simps json_dumps.simps map_map)
next
  case (PDict d)
  then have "map ((\<lambda>(k, v). json_str k @ '': '' @ json_dumps v) \<circ> (\<lambda>(k, v). (k, plain_json v))) d
      = map (\<lambda>(k, v). json_str k @ '': '' @ json_dumps v) d"
    by (fastforce simp: snds.simps)
  then show ?case by (simp only: plain_json.simps json_dumps.simps map_map)
qed simp_all

lemma loads_dumps_plain: "json_value (plain_json v) \<Longrightarrow> json_loads (json_dumps v) = Inr (plain_json v)"
  using json_dumps_loads [of "plain_json v"] by (simp only: dumps_plain_json)

lemma plain_json_id: "json_value v \<Longrightarrow> plain_json v = v"
proof (induction v)
  case (PList xs)
  then show ?case by (simp add: list_all_iff map_idI)
next
  case (PDict d)
  have "(case p of (k, v) \<Rightarrow> (k, plain_json v)) = p" if "p \<in> set d" for p
    using PDict that by (cases p) (force simp: list_all_iff snds.simps)
  then show ?case by (simp add: map_idI)
qed simp_all

lemma received_dict_id: "json_value (PDict d) \<Longrightarrow> received_dict d = d"
  using plain_json_id [of "PDict d"] by (simp add: received_dict_def)

lemma d_get_or_received: "d_get_or (received_dict d) k (plain_json v) = plain_json (d_get_or d k v)"
  by (induction d) (auto simp: received_dict_def d_get_or_def)

text \<open>Encoded text has no control characters.\<close>

definition visible :: "string \<Rightarrow> bool" where
  "visible s \<longleftrightarrow> list_all (\<lambda>c. 32 \<le> ord_of c) s"

lemma visible_simps [simp]:
  "visible []" "visible (c # s) \<longleftrightarrow> 32 \<le> ord_of c \<and> visible s" "visible (s @ t) \<longleftrightarrow> visible s \<and> visible t"
  by (simp_all add: visible_def)

lemma visible_join: "visible sep \<Longrightarrow> list_all visible xs \<Longrightarrow> visible (join sep xs)"
  by (induction sep xs rule: join.induct) simp_all

lemma visible_digits: "list_all is_digit_char s \<Longrightarrow> visible s"
  by (induction s) (auto simp: is_digit_char_def)

lemma visible_if: "visible (if b then s else t) \<longleftrightarrow> (if b then visible s else visible t)"
  by simp

lemma visible_hex: "n < 16 \<Longrightarrow> 32 \<le> ord_of (hex_digit n)"
  by (simp add: hex_digit_def)

lemma visible_json_esc: "visible (json_esc c)"
proof -
  have e: "visible [backslash, quote_char]" "visible [backslash, backslash]" "visible [backslash, CHR ''n'']"
    "visible [backslash, CHR ''r'']" "visible [backslash, CHR ''t'']" "visible [backslash, CHR ''b'']"
    "visible [backslash, CHR ''f'']"
    by (simp_all add: backslash_def quote_char_def ord_of_def)
  have u: "visible [backslash, CHR ''u'', CHR ''0'', CHR ''0'', hex_digit (ord_of c div 16), hex_digit (ord_of c mod 16)]" if "ord_of c < 32"
  proof -
    have "ord_of c div 16 < 16" "ord_of c mod 16 < 16" using that by auto
    then show ?thesis by (simp only: visible_simps visible_hex) (simp add: backslash_def ord_of_def)
  qed
  have "visible [c]" if "\<not> ord_of c < 32" using that by simp
  with u show ?thesis unfolding json_esc_def visible_if by (simp only: e simp_thms if_cancel if_bool_eq_conj) blast
qed

lemma visible_json_str: "visible (json_str s)"
proof -
  have "visible (concat (map json_esc s))" by (induction s) (simp_all add: visible_json_esc)
  then show ?thesis by (simp add: json_str_def quote_char_def ord_of_def)
qed

lemma visible_show_int: "visible (show_int i)"
  by (simp add: show_int_def visible_digits [OF show_nat_digits] ord_of_def)

lemma visible_show_float: "visible (show_float q)"
proof -
  have "visible (frac_digits 17 (\<bar>q\<bar> - of_int \<lfloor>\<bar>q\<bar>\<rfloor>))"
    by (intro visible_digits frac_digits_text; linarith)
  then show ?thesis by (simp add: show_float_def Let_def visible_show_int ord_of_def)
qed

lemma visible_json_dumps: "visible (json_dumps v)"
proof (induction v)
  case (PList xs)
  then have "visible (join '', '' (map json_dumps xs))"
    by (intro visible_join) (simp_all add: list_all_iff ord_of_def)
  then show ?case by (simp add: ord_of_def)
next
  case (PDict d)
  then have "visible (json_str (fst p) @ '': '' @ json_dumps (snd p))" if "p \<in> set d" for p
    using that by (cases p) (force simp: visible_json_str ord_of_def snds.simps)
  then have "visible (join '', '' (map (\<lambda>(k, v). json_str k @ '': '' @ json_dumps v) d))"
    by (intro visible_join) (auto simp: list_all_iff ord_of_def)
  then show ?case by (simp add: ord_of_def)
qed (simp_all add: visible_json_str visible_show_int visible_show_float ord_of_def)

lemma strip_outer: "t \<noteq> [] \<Longrightarrow> \<not> is_space_char (hd t) \<Longrightarrow> \<not> is_space_char (last t) \<Longrightarrow> strip t = t"
  by (cases t) (simp_all add: strip_def strip_by_def lstrip_by_def rstrip_by_id)

lemma strip_front: "is_space_char c \<Longrightarrow> strip (c # s) = strip s"
  by (simp add: strip_def strip_by_def lstrip_by_def)

lemma strip_dict: "strip (CHR 0x20 # json_dumps (PDict d)) = json_dumps (PDict d)"
proof -
  have "is_space_char (CHR 0x20)" by (simp add: is_space_char_def ord_of_def)
  moreover have "strip (json_dumps (PDict d)) = json_dumps (PDict d)"
    by (rule strip_outer) (simp_all add: is_space_char_def ord_of_def)
  ultimately show ?thesis by (simp only: strip_front)
qed

subsection \<open>From the events of the server to the page\<close>

definition event_names :: "string list" where
  "event_names = [''token'', ''node_complete'', ''node_done'', ''status'', ''complete'', ''error'', ''timeout'']"

definition on_wire :: "(string \<times> pydict) list \<Rightarrow> (string \<times> string) list" where
  "on_wire evs = map (\<lambda>(e, d). (e, json_dumps (PDict d))) evs"

definition received :: "(string \<times> pydict) list \<Rightarrow> (string \<times> pydict) list" where
  "received evs = map (\<lambda>(e, d). (e, received_dict d)) evs"

text \<open>Data that can be decoded again and has none of the separators of Unicode in its text\<close>

definition unbroken :: "pydict \<Rightarrow> bool" where
  "unbroken d \<longleftrightarrow> list_all (\<lambda>b. \<not> str_in b (json_dumps (PDict d))) line_separators"

definition sendable :: "(string \<times> pydict) list \<Rightarrow> bool" where
  "sendable evs \<longleftrightarrow>
     list_all (\<lambda>(e, d). e \<in> set event_names \<and> json_value (PDict (received_dict d)) \<and> unbroken d) evs"

fun run_events ::
  "(string \<Rightarrow> pyv \<Rightarrow> 's \<Rightarrow> ('s + pydict) py) \<Rightarrow> 's \<Rightarrow> (string \<times> pydict) list \<Rightarrow> ('s + pydict) py" where
  "run_events handle s [] = Inr (Inl s)"
| "run_events handle s ((e, d) # evs) =
     (case handle e (PDict d) s of
        Inl x \<Rightarrow> Inl x
      | Inr (Inr result) \<Rightarrow> Inr (Inr result)
      | Inr (Inl s) \<Rightarrow> run_events handle s evs)"

lemma event_name_facts:
  "e \<in> set event_names \<Longrightarrow> one_line e \<and> strip (CHR 0x20 # e) = e \<and> e \<noteq> []"
proof -
  have "list_all (\<lambda>e. one_line e \<and> strip (CHR 0x20 # e) = e \<and> e \<noteq> []) event_names" by code_simp
  then show "e \<in> set event_names \<Longrightarrow> one_line e \<and> strip (CHR 0x20 # e) = e \<and> e \<noteq> []" by (auto simp: list_all_iff)
qed

lemma one_line_dumps: "unbroken d \<Longrightarrow> one_line (json_dumps (PDict d))"
  using visible_json_dumps [of "PDict d"] by (simp add: unbroken_def one_line_def visible_def del: json_dumps.simps)

lemma wire_one_line: "sendable evs \<Longrightarrow> list_all (\<lambda>(e, d). one_line e \<and> one_line d) (on_wire evs)"
proof (induction evs)
  case (Cons p evs)
  then show ?case using event_name_facts one_line_dumps
    by (cases p) (simp add: sendable_def on_wire_def del: json_dumps.simps json_value.simps)
qed (simp add: on_wire_def)

lemma loads_wire:
  assumes "json_value (PDict (received_dict d))"
  shows "json_loads (strip (drop 5 (''data: '' @ json_dumps (PDict d)))) = Inr (PDict (received_dict d))"
proof -
  have "drop 5 (''data: '' @ json_dumps (PDict d)) = CHR 0x20 # json_dumps (PDict d)"
    by (simp del: json_dumps.simps)
  moreover have "plain_json (PDict d) = PDict (received_dict d)" by (simp add: received_dict_def)
  ultimately show ?thesis using loads_dumps_plain [of "PDict d"] assms by (simp only: strip_dict)
qed

lemma read_delivered:
  assumes "delivered wire ls" and "wire = on_wire evs" and "sendable evs"
  shows "read_lines handle None s ls = run_events handle s (received evs)"
  using assms
proof (induction arbitrary: evs s rule: delivered.induct)
  case nothing
  then show ?case by (simp add: on_wire_def received_def)
next
  case (event wire ls e d)
  obtain p evs' where evs: "evs = (e, p) # evs'" and d: "d = json_dumps (PDict p)" and w: "wire = on_wire evs'"
    using event.prems(1) by (cases evs) (auto simp: on_wire_def)
  have s': "sendable evs'" and e: "one_line e \<and> strip (CHR 0x20 # e) = e \<and> e \<noteq> []"
    and l: "json_loads (strip (drop 5 (''data: '' @ d))) = Inr (PDict (received_dict p))"
    using event.prems(2) event_name_facts [of e] loads_wire [of p] by (simp_all add: sendable_def evs d del: json_dumps.simps)
  have name: "strip (drop 6 (''event: '' @ e)) = e" using e by simp
  have "read_lines handle None s ((''event: '' @ e) # (''data: '' @ d) # [] # ls)
      = (case handle e (PDict (received_dict p)) s of Inl x \<Rightarrow> Inl x | Inr (Inr result) \<Rightarrow> Inr (Inr result)
         | Inr (Inl s) \<Rightarrow> read_lines handle None s ls)"
    using e l name by (simp del: drop_append drop_Cons_numeral split: sum.split)
  also have "\<dots> = run_events handle s (received evs)"
    using event.IH [OF w s'] by (simp add: evs received_def split: sum.split)
  finally show ?case .
qed simp_all

context sse_channel
begin

lemma client_reads:
  "sendable evs \<Longrightarrow> read_lines handle None s (encode (on_wire evs)) = run_events handle s (received evs)"
  by (rule read_delivered [OF in_order [OF wire_one_line] refl])

end

subsection \<open>What the query page shows\<close>

text \<open>The events of the query stream as they are sent; a generator that raises breaks the connection.\<close>

definition query_sse :: "query_event \<Rightarrow> (string \<times> pydict) list" where
  "query_sse ev = (case ev of
       QEToken t \<Rightarrow> [(''token'', [(''text'', PStr t)])]
     | QENode node summary \<Rightarrow> [(''node_complete'', [(''node'', PStr node), (''summary'', PDict summary)])]
     | QEComplete d \<Rightarrow> [(''complete'', d)]
     | QEError msg \<Rightarrow> [(''error'', [(''error'', PStr msg)])]
     | QERaised e \<Rightarrow> [])"

definition query_response_of ::
  "((string \<times> string) list \<Rightarrow> string list) \<Rightarrow> py_exc \<Rightarrow> query_event list \<Rightarrow> response" where
  "query_response_of encode broken evs =
     Inr (encode (on_wire (concat (map query_sse evs))),
       if list_ex (\<lambda>ev. case ev of QERaised e \<Rightarrow> True | _ \<Rightarrow> False) evs then Some broken else None)"

lemma received_append [simp]: "received (xs @ ys) = received xs @ received ys" "received [] = []"
  by (simp_all add: received_def)

lemma run_events_append:
  "run_events handle s (xs @ ys) =
     (case run_events handle s xs of Inr (Inl s') \<Rightarrow> run_events handle s' ys | m \<Rightarrow> m)"
  by (induction handle s xs rule: run_events.induct) (auto split: sum.split)

definition text_nodes :: "pyv list \<Rightarrow> bool" where
  "text_nodes ns \<longleftrightarrow> list_all is_text ns"

lemma all_texts_ok: "text_nodes ns \<Longrightarrow> \<exists>ss. all_texts i ns = Inr ss"
proof (induction ns arbitrary: i)
  case (Cons n ns)
  obtain ss where "all_texts (Suc i) ns = Inr ss" using Cons by (auto simp: text_nodes_def)
  then show ?case using Cons.prems by (auto simp: text_nodes_def is_text_def split: pyv.splits)
qed simp

lemma caption_ok: "text_nodes ns \<Longrightarrow> caption ns x = Inr x"
  using all_texts_ok [of ns 0] by (auto simp: caption_def)

lemma text_nodes_simps [simp]: "text_nodes []" "text_nodes (ns @ [n]) \<longleftrightarrow> text_nodes ns \<and> is_text n" "is_text generating"
  by (auto simp: text_nodes_def generating_def)

lemma page_progress:
  assumes "text_nodes (qp_nodes s)" and "turn_event t = Inr ev"
  shows "\<exists>s'. run_events page_event s (received (query_sse ev)) = Inr (Inl s') \<and> text_nodes (qp_nodes s')"
  using assms
  by (cases t) (auto simp: py_bind_Inr_iff query_sse_def received_def received_dict_def page_event_def as_dict_def
      add_text_def d_get_or_def caption_ok Let_def)

lemma page_progresses:
  assumes "py_map turn_event turns = Inr evs" and "text_nodes (qp_nodes s)"
  shows "\<exists>s'. run_events page_event s (received (concat (map query_sse evs))) = Inr (Inl s') \<and> text_nodes (qp_nodes s')"
  using assms
proof (induction turns arbitrary: evs s)
  case (Cons t ts)
  obtain ev es where e: "evs = ev # es" "turn_event t = Inr ev" "py_map turn_event ts = Inr es"
    using Cons.prems(1) by (auto simp: py_bind_Inr_iff)
  obtain s1 where s1: "run_events page_event s (received (query_sse ev)) = Inr (Inl s1)" "text_nodes (qp_nodes s1)"
    using page_progress [OF Cons.prems(2) e(2)] by blast
  show ?case using Cons.IH [OF e(3) s1(2)] s1(1) by (simp add: e(1) run_events_append)
qed simp

text \<open>The part of the turns before one that cannot be summarised\<close>

lemma summarised_part:
  "\<exists>ts. py_map turn_event ts = Inr (map projr (takeWhile (Not \<circ> isl) (map turn_event turns)))"
proof -
  have "py_map turn_event (takeWhile (\<lambda>t. \<not> isl (turn_event t)) turns) = Inr (map projr (takeWhile (Not \<circ> isl) (map turn_event turns)))"
  proof (induction turns)
    case (Cons t ts)
    then show ?case by (cases "turn_event t") simp_all
  qed simp
  then show ?thesis by blast
qed

definition query_page_start :: query_page where
  "query_page_start = \<lparr>qp_nodes = [], qp_preview = PStr [], qp_tokens = []\<rparr>"

lemma sendable_append [simp]: "sendable (xs @ ys) \<longleftrightarrow> sendable xs \<and> sendable ys"
  by (simp add: sendable_def)

lemma turns_not_raised: "py_map turn_event turns = Inr evs \<Longrightarrow> \<not> list_ex (\<lambda>ev. case ev of QERaised e \<Rightarrow> True | _ \<Rightarrow> False) evs"
proof (induction turns arbitrary: evs)
  case (Cons t ts)
  then show ?case by (cases t) (auto simp: py_bind_Inr_iff)
qed simp

lemma client_of_stream:
  assumes "sse_channel encode" and "sendable (concat (map query_sse (evs @ [final])))" and "py_map turn_event turns = Inr evs"
  shows "call_api_stream (query_response_of encode broken (evs @ [final])) =
    (case final of QEComplete d \<Rightarrow> page_answer (received_dict d) | QEError msg \<Rightarrow> error_result (PStr msg)
     | QERaised e \<Rightarrow> error_result (PStr (stream_error broken)) | _ \<Rightarrow> error_result (PStr no_completion))"
proof -
  have t: "text_nodes (qp_nodes query_page_start)" by (simp add: query_page_start_def)
  obtain s where s: "run_events page_event query_page_start (received (concat (map query_sse evs))) = Inr (Inl s)"
    "text_nodes (qp_nodes s)"
    using page_progresses [OF assms(3) t] by blast
  have "read_lines page_event None query_page_start (encode (on_wire (concat (map query_sse (evs @ [final])))))
      = run_events page_event s (received (query_sse final))"
    using sse_channel.client_reads [OF assms(1,2), of page_event query_page_start] s(1)
    by (simp add: run_events_append)
  then show ?thesis
    using turns_not_raised [OF assms(3)] s(2)
    by (cases final) (simp_all add: call_api_stream_def read_response_def query_response_of_def query_page_start_def
        query_sse_def received_def received_dict_def page_event_def as_dict_def add_text_def d_get_or_def caption_ok Let_def)
qed

text \<open>C36: What the query page shows for a question is what the run of the graph ended with: the query, the
  sanitized result, the tokens and the times of the final state, or the error the graph raised. This
  holds for any number of tokens, nodes and comments in between, as long as no text in an event has one
  of the line separators of Unicode. A node whose update cannot be summarised cuts the stream, and the
  page shows an error.\<close>

theorem page_shows_answer:
  assumes "sse_channel encode"
    and "sendable (concat (map query_sse (query_full_graph_stream tm req turns err)))"
  shows "call_api_stream (query_response_of encode broken (query_full_graph_stream tm req turns err)) =
    (case (py_map turn_event turns, err) of
       (Inr evs, None) \<Rightarrow> (case query_complete tm (after_turns (stream_input req) turns) of
           QEComplete d \<Rightarrow> page_answer (received_dict d)
         | _ \<Rightarrow> error_result (PStr (stream_error broken)))
     | (Inr evs, Some e) \<Rightarrow> error_result (PStr (exc_msg e))
     | (Inl e, _) \<Rightarrow> error_result (PStr (stream_error broken)))"
proof (cases "py_map turn_event turns")
  case (Inl e)
  let ?evs = "map projr (takeWhile (Not \<circ> isl) (map turn_event turns))"
  have q: "query_full_graph_stream tm req turns err = ?evs @ [QERaised e]"
    unfolding query_full_graph_stream_def stream_events_of by (simp add: Inl)
  obtain ts where "py_map turn_event ts = Inr ?evs" using summarised_part [of turns] by blast
  from client_of_stream [OF assms(1) _ this, of "QERaised e"] show ?thesis
    using assms(2) unfolding q by (simp add: Inl)
next
  case (Inr evs)
  let ?final = "case err of None \<Rightarrow> query_complete tm (after_turns (stream_input req) turns) | Some e \<Rightarrow> QEError (exc_msg e)"
  have q: "query_full_graph_stream tm req turns err = evs @ [?final]"
    unfolding query_full_graph_stream_def stream_events_of by (simp add: Inr)
  have c: "(\<exists>d. query_complete tm f = QEComplete d) \<or> (\<exists>x. query_complete tm f = QERaised x)" for f
    by (simp add: query_complete_def Let_def split: sum.split)
  show ?thesis
    using client_of_stream [OF assms(1) assms(2) [unfolded q] Inr] c [of "after_turns (stream_input req) turns"] unfolding q
    by (cases err) (auto simp: Inr)
qed

subsection \<open>What the task page shows\<close>

definition task_sse :: "stream_event \<Rightarrow> (string \<times> pydict) list" where
  "task_sse ev = (case ev of
       EToken t \<Rightarrow> [(''token'', [(''text'', PStr t)])]
     | EStatus d \<Rightarrow> [(''status'', d)]
     | ENode node \<Rightarrow> [(''node_done'', [(''node'', node)])]
     | EComplete d \<Rightarrow> [(''complete'', d)]
     | EError msg \<Rightarrow> [(''error'', [(''error'', PStr msg)])]
     | ETimeout \<Rightarrow> [(''timeout'', [(''error'', PStr ''Stream timeout (5 min)'')])]
     | ERaised e \<Rightarrow> [])"

definition task_response_of ::
  "((string \<times> string) list \<Rightarrow> string list) \<Rightarrow> py_exc \<Rightarrow> stream_event list \<Rightarrow> response" where
  "task_response_of encode broken evs =
     Inr (encode (on_wire (concat (map task_sse evs))),
       if list_ex (\<lambda>ev. case ev of ERaised e \<Rightarrow> True | _ \<Rightarrow> False) evs then Some broken else None)"

text \<open>Events made of typed states\<close>

definition sound_event :: "stream_event \<Rightarrow> bool" where
  "sound_event ev = (case ev of
       EStatus d \<Rightarrow> json_value (PDict d) \<and> (let n = d_get_or d ''node'' (PStr []) in n = PNone \<or> is_text n)
     | ENode n \<Rightarrow> json_value n \<and> is_text n
     | EComplete d \<Rightarrow> json_value (PDict d)
     | ERaised e \<Rightarrow> False
     | _ \<Rightarrow> True)"

definition typed_turn :: "stream_turn \<Rightarrow> bool" where
  "typed_turn t = (case t of TPoll (Some v) \<Rightarrow> (case v of PDict d \<Rightarrow> typed_state d | _ \<Rightarrow> False) | _ \<Rightarrow> True)"

lemma typed_field:
  "typed_state d \<Longrightarrow> json_value v \<Longrightarrow> field_type k v \<Longrightarrow> json_value (d_get_or d k v) \<and> field_type k (d_get_or d k v)"
  by (rule typed_get) (simp_all add: typed_state_def)

lemma typed_events:
  assumes "typed_state d"
  shows "\<exists>e. status_event d = Inr e \<and> sound_event (EStatus e)" and "sound_event (EComplete (complete_event d))"
    and "truthy (d_get_or d ''node'' (PStr [])) \<Longrightarrow> sound_event (ENode (d_get_or d ''node'' (PStr [])))"
proof -
  note f = typed_field [OF assms]
  have n: "json_value (d_get_or d ''node'' (PStr [])) \<and> (d_get_or d ''node'' (PStr []) = PNone \<or> is_text (d_get_or d ''node'' (PStr [])))"
    using f [of "PStr []" "''node''"] by (simp add: field_type_def)
  then show "truthy (d_get_or d ''node'' (PStr [])) \<Longrightarrow> sound_event (ENode (d_get_or d ''node'' (PStr [])))"
    by (auto simp: sound_event_def)
  have "json_value (d_get_or d ''status'' (PStr ''?''))" "json_value (d_get_or d ''progress'' (PInt 0))"
    "json_value (d_get_or d ''error'' PNone)" "json_value (d_get_or d ''sql'' (PStr []))" "json_value (d_get_or d ''exec_result'' PNone)"
    "json_value (d_get_or d ''token_usage'' (PDict []))" "json_value (d_get_or d ''node_timings'' (PDict []))"
    using f [of "PStr ''?''" "''status''"] f [of "PInt 0" "''progress''"] f [of PNone "''error''"] f [of "PStr []" "''sql''"]
      f [of PNone "''exec_result''"] f [of "PDict []" "''token_usage''"] f [of "PDict []" "''node_timings''"]
    by (simp_all add: field_type_def)
  moreover have "d_get_or d ''sql'' PNone = PNone \<or> is_text (d_get_or d ''sql'' PNone)"
    using f [of PNone "''sql''"] by (simp add: field_type_def)
  then have "\<exists>p. py_prefix (py_or_val (d_get_or d ''sql'' PNone) (PStr [])) 200 = Inr (PStr p)"
    by (auto simp: py_or_val_def py_prefix_def is_text_def split: pyv.splits)
  ultimately show "\<exists>e. status_event d = Inr e \<and> sound_event (EStatus e)" and "sound_event (EComplete (complete_event d))"
    using n by (auto simp: status_event_def complete_event_def sound_event_def d_get_or_def [of "_ # _"])
qed

lemma stream_sound: "list_all typed_turn ts \<Longrightarrow> list_all sound_event (stream_events ts u n)"
proof (induction ts u n rule: stream_events.induct)
  case (4 v ts u n)
  obtain d where d: "v = PDict d" "typed_state d" using 4(2) by (cases v) (auto simp: typed_turn_def)
  obtain e where e: "status_event d = Inr e" "sound_event (EStatus e)" using typed_events(1) [OF d(2)] by blast
  obtain evs u' n' where p: "poll_events d u n = Inr (evs, u', n', \<not> terminal d)" "list_all sound_event evs"
  proof (rule that)
    let ?node = "d_get_or d ''node'' (PStr [])"
    let ?new = "truthy ?node \<and> ?node \<noteq> n"
    let ?evs = "(if d_get_or d ''updated_at'' (PStr []) \<noteq> u then [EStatus e] else []) @ (if ?new then [ENode ?node] else [])
        @ (if terminal d then [EComplete (complete_event d)] else [])"
    show "poll_events d u n = Inr (?evs, d_get_or d ''updated_at'' (PStr []), if ?new then ?node else n, \<not> terminal d)"
      by (simp add: poll_events_def Let_def e)
    show "list_all sound_event ?evs" using e typed_events(2,3) [OF d(2)] by simp
  qed
  show ?case
  proof (cases "terminal d")
    case True
    then show ?thesis using p by (simp add: d as_dict_def)
  next
    case False
    have "list_all sound_event (stream_events ts u' n')"
      by (rule 4(1) [of "(evs, u', n', \<not> terminal d)"]) (use 4(2) p False in \<open>simp_all add: d as_dict_def\<close>)
    then show ?thesis using p False by (simp add: d as_dict_def)
  qed
qed (simp_all add: sound_event_def typed_turn_def)

text \<open>Every event before the last keeps the page going; nothing makes the client raise.\<close>

lemma see_node_ok: "is_text v \<Longrightarrow> text_nodes (pg_nodes s) \<Longrightarrow> \<exists>new s'. see_node v s = Inr (new, s') \<and> text_nodes (pg_nodes s')"
  by (cases v) (auto simp: see_node_def hashed_def is_text_def)

lemma task_progress:
  assumes "sound_event ev" and "\<not> closing ev" and "text_nodes (pg_nodes s)"
  shows "\<exists>s'. run_events (task_event tid) s (received (task_sse ev)) = Inr (Inl s') \<and> text_nodes (pg_nodes s')"
proof (cases ev)
  case (EToken t)
  then show ?thesis using assms(3)
    by (auto simp: task_sse_def received_def received_dict_def task_event_def as_dict_def add_text_def d_get_or_def caption_ok)
next
  case (EStatus d)
  let ?n = "d_get_or d ''node'' (PStr [])"
  let ?s = "s\<lparr>pg_preview := py_or_val (d_get_or d ''sql_preview'' (PStr [])) (pg_preview s)\<rparr>"
  have r: "received_dict d = d" using assms(1) EStatus received_dict_id by (simp add: sound_event_def)
  show ?thesis
  proof (cases "truthy ?n")
    case True
    then have "is_text ?n" using assms(1) EStatus by (auto simp: sound_event_def Let_def)
    then obtain new s' where "see_node ?n ?s = Inr (new, s')" "text_nodes (pg_nodes s')"
      using see_node_ok [of ?n ?s] assms(3) by auto
    then show ?thesis using True EStatus by (simp add: task_sse_def received_def r task_event_def as_dict_def Let_def)
  next
    case False
    then show ?thesis using EStatus assms(3) by (simp add: task_sse_def received_def r task_event_def as_dict_def Let_def)
  qed
next
  case (ENode n)
  then have n: "is_text n" "plain_json n = n" using assms(1) plain_json_id by (simp_all add: sound_event_def)
  then obtain new s' where "see_node n s = Inr (new, s')" "text_nodes (pg_nodes s')" using see_node_ok assms(3) by blast
  then show ?thesis using n ENode
    by (cases new) (simp_all add: task_sse_def received_def received_dict_def task_event_def as_dict_def d_get_or_def caption_ok)
qed (use assms(1,2) in \<open>simp_all add: sound_event_def\<close>)

lemma task_progresses:
  "list_all sound_event evs \<Longrightarrow> list_all (\<lambda>e. \<not> closing e) evs \<Longrightarrow> text_nodes (pg_nodes s) \<Longrightarrow>
    \<exists>s'. run_events (task_event tid) s (received (concat (map task_sse evs))) = Inr (Inl s') \<and> text_nodes (pg_nodes s')"
proof (induction evs arbitrary: s)
  case (Cons ev evs)
  obtain s1 where s1: "run_events (task_event tid) s (received (task_sse ev)) = Inr (Inl s1)" "text_nodes (pg_nodes s1)"
    using task_progress [of ev s tid] Cons.prems by auto
  show ?case using Cons.IH [OF _ _ s1(2)] Cons.prems s1(1) by (simp add: run_events_append)
qed simp

definition task_page_start :: task_page where
  "task_page_start = \<lparr>pg_nodes = [], pg_seen = [], pg_preview = PStr [], pg_tokens = []\<rparr>"

text \<open>The polls of the loop read the store at some moments of the life of the service.\<close>

definition polls_of ::
  "'r kv \<Rightarrow> (nat \<Rightarrow> 'r \<Rightarrow> 'r) \<Rightarrow> string \<Rightarrow> 'r world \<Rightarrow> stream_turn list \<Rightarrow> bool" where
  "polls_of K wait tid w ts \<longleftrightarrow> list_all (\<lambda>t. case t of TToken s \<Rightarrow> True
     | TPoll v \<Rightarrow> (\<exists>w'. (service K wait)\<^sup>*\<^sup>* w w' \<and> v = task_get K tid (w_store w'))) ts"

lemma polls_typed:
  assumes "kv_store K wait" and "typed_store K (w_store w)" and "plain_id tid" and "polls_of K wait tid w ts"
  shows "list_all typed_turn ts"
proof -
  have "typed_turn t" if "t \<in> set ts" for t
  proof (cases t)
    case (TPoll v)
    have "case t of TToken s \<Rightarrow> True | TPoll v \<Rightarrow> (\<exists>w'. (service K wait)\<^sup>*\<^sup>* w w' \<and> v = task_get K tid (w_store w'))"
      using assms(4) \<open>t \<in> set ts\<close> unfolding polls_of_def list_all_iff by (rule bspec)
    then obtain w' where w': "(service K wait)\<^sup>*\<^sup>* w w'" "v = task_get K tid (w_store w')"
      using TPoll by auto
    have "typed_task K tid (w_store w')"
      using kv_store.service_typed [OF assms(1) w'(1) assms(2)] assms(3) by (simp add: typed_store_def)
    then show ?thesis using w'(2) TPoll by (auto elim!: typed_task_get simp: typed_turn_def)
  qed (simp add: typed_turn_def)
  then show ?thesis by (simp add: list_all_iff)
qed

lemma typed_turn_readable: "typed_turn t \<Longrightarrow> readable t"
proof -
  assume "typed_turn t"
  then have "(\<exists>s. t = TToken s) \<or> t = TPoll None \<or> (\<exists>d. t = TPoll (Some (PDict d)) \<and> typed_state d)"
    by (auto simp: typed_turn_def split: stream_turn.splits option.splits pyv.splits)
  moreover have "readable (TToken s)" "readable (TPoll None)" for s by (simp_all add: readable_def)
  ultimately show "readable t" using typed_readable by blast
qed

lemma client_of_task:
  assumes "sse_channel encode" and "list_all typed_turn ts"
    and "sendable (concat (map task_sse (task_stream ts)))"
  shows "\<exists>sql. read_response (task_event tid) task_page_start failed ended (task_response_of encode broken (task_stream ts)) =
    (case final_event ts of EComplete d \<Rightarrow> task_answer tid d
     | EError msg \<Rightarrow> (''task_id'', tid) # failed_result sql (PStr msg) []
     | _ \<Rightarrow> (''task_id'', tid) # failed_result sql (PStr ''Stream timeout (5 min)'') [])"
proof -
  have "list_all readable ts" using assms(2) typed_turn_readable by (auto simp: list_all_iff)
  then obtain body where body: "task_stream ts = body @ [final_event ts]" "list_all (\<lambda>e. \<not> closing e) body"
    using stream_shape [of ts "PStr []" "PStr []"] by (auto simp: task_stream_def)
  have sound: "list_all sound_event (body @ [final_event ts])"
    using stream_sound [OF assms(2), of "PStr []" "PStr []"] body(1) by (simp add: task_stream_def)
  have "text_nodes (pg_nodes task_page_start)" by (simp add: task_page_start_def)
  then obtain s where s: "run_events (task_event tid) task_page_start (received (concat (map task_sse body))) = Inr (Inl s)"
    using task_progresses [of body task_page_start tid] sound body(2) by auto
  have r: "read_lines (task_event tid) None task_page_start (encode (on_wire (concat (map task_sse (task_stream ts)))))
      = run_events (task_event tid) s (received (task_sse (final_event ts)))"
    using sse_channel.client_reads [OF assms(1,3), of "task_event tid" task_page_start] s
    by (simp add: body(1) run_events_append)
  have "final_event ts \<in> {ETimeout, EError ''Task not found''} \<or> (\<exists>d. final_event ts = EComplete d)"
    by (auto simp: final_event_def split: option.splits stream_turn.splits pyv.splits)
  then show ?thesis using r sound
    by (auto simp: read_response_def task_response_of_def task_sse_def received_def received_dict_def task_event_def
        as_dict_def d_get_or_def sound_event_def received_dict_id [unfolded received_dict_def])
qed

text \<open>C37: The task page: however clients, workers and feedback rounds interleave while the stream polls the
  state, its client never fails. It returns the query, the result, the tokens and the times of the first
  finished state that was read, whether the task succeeded, failed, timed out or was cancelled; or it returns a
  failure that says that the task is not found or that five minutes are over. The message with which a task
  failed is not part of what it returns (\<open>task_answer\<close> has no field for it): of a failed task the page gets the
  fields that happen to be stored, usually empty ones.\<close>

theorem task_page_shows_task:
  assumes "kv_store K wait" and "typed_store K (w_store w)" and "plain_id tid" and "sse_channel encode"
    and "polls_of K wait tid w ts" and "sendable (concat (map task_sse (task_stream ts)))"
  shows "\<exists>sql. call_api_async (Inr (202, Inr (PDict [(''task_id'', PStr tid)])))
      (\<lambda>id. task_response_of encode broken (task_stream ts)) =
    (case final_event ts of EComplete d \<Rightarrow> task_answer (PStr tid) d
     | EError msg \<Rightarrow> (''task_id'', PStr tid) # failed_result sql (PStr msg) []
     | _ \<Rightarrow> (''task_id'', PStr tid) # failed_result sql (PStr ''Stream timeout (5 min)'') [])"
  using client_of_task [OF assms(4) polls_typed [OF assms(1,2,3,5)] assms(6)]
  by (simp add: call_api_async_def py_item_def d_get_def task_page_start_def)

subsection \<open>Witnesses\<close>

definition page_request :: full_query where
  "page_request = \<lparr>qq_question = ''count users'', qq_rag_schema = True, qq_rag_domain = True, qq_use_cache = False,
     qq_database_url = Some ''sqlite:///shop.db'', qq_db_id = Some ''shop'', qq_multi_candidate = True, qq_rag_k = 8,
     qq_column_prune = False, qq_hybrid = True, qq_fk_expand = True, qq_fewshot = True\<rparr>"

definition page_turns :: "graph_turn list" where
  "page_turns = [GToken ''SELECT'', GToken '' day'', GStep ''generator'' [(''sql'', PStr ''SELECT day'')],
     GStep ''voter'' [(''exec_result'', PDict [(''success'', PBool True), (''row_count'', PInt 1),
       (''data'', PList [PList [POther ''2024-05-01'']])])]]"

lemma page_turns_sendable: "sendable (concat (map query_sse (query_full_graph_stream [] page_request page_turns None)))"
  by code_simp

theorem page_shows_answer_witness:
  "d_get (call_api_stream (query_response_of plain_sse (PyExc ''RemoteProtocolError'' [])
      (query_full_graph_stream [] page_request page_turns None))) ''exec_result''
    = Some (PDict [(''success'', PBool True), (''row_count'', PInt 1), (''data'', PList [PList [PStr ''2024-05-01'']])])"
proof -
  have "(case (py_map turn_event page_turns, None :: py_exc option) of
       (Inr evs, None) \<Rightarrow> (case query_complete [] (after_turns (stream_input page_request) page_turns) of
           QEComplete d \<Rightarrow> page_answer (received_dict d)
         | _ \<Rightarrow> error_result (PStr (stream_error (PyExc ''RemoteProtocolError'' []))))
     | (Inr evs, Some e) \<Rightarrow> error_result (PStr (exc_msg e))
     | (Inl e, _) \<Rightarrow> error_result (PStr (stream_error (PyExc ''RemoteProtocolError'' []))))
    = page_answer [(''sql'', PStr ''SELECT day''), (''exec_result'', PDict [(''success'', PBool True), (''row_count'', PInt 1),
        (''data'', PList [PList [PStr ''2024-05-01'']])]), (''token_usage'', PDict []), (''node_timings'', PDict [])]"
    by code_simp
  then show ?thesis
    using page_shows_answer [OF plain_channel.sse_channel_axioms page_turns_sendable, of "PyExc ''RemoteProtocolError'' []"]
    by (simp add: page_answer_def d_get_def d_get_or_def)
qed

definition finished_task :: pydict where
  "finished_task = [(''task_id'', PStr ''a1''), (''status'', PStr ''SUCCESS''), (''node'', PStr ''voter''),
     (''sql'', PStr ''SELECT 1''), (''exec_result'', PDict [(''success'', PBool True)]), (''updated_at'', PStr ''t'')]"

theorem task_page_shows_task_witness:
  "d_get (call_api_async (Inr (202, Inr (PDict [(''task_id'', PStr ''a1'')])))
      (\<lambda>id. task_response_of plain_sse (PyExc ''RemoteProtocolError'' [])
        (task_stream [TToken ''SELECT 1'', TPoll (Some (PDict finished_task))]))) ''sql'' = Some (PStr ''SELECT 1'')"
proof -
  let ?ts = "[TToken ''SELECT 1'', TPoll (Some (PDict finished_task))]"
  let ?w = "\<lparr>w_store = set_state redis_kv ''a1'' finished_task (Some redis_empty), w_broker = open_broker\<rparr>"
  have t: "typed_state finished_task" by (simp add: typed_state_def finished_task_def field_type_def d_get_def)
  have "typed_store redis_kv (Some redis_empty)"
    by (simp add: typed_store_def typed_task_def redis_kv_def redis_get_def redis_empty_def)
  then have w: "typed_store redis_kv (w_store ?w)" using redis.typed_set_state [OF _ t] by simp
  have "task_get redis_kv ''a1'' (w_store ?w) = Some (PDict finished_task)"
    using redis.get_set_state [OF typed_state_json [OF t], of "''a1''" "''a1''" redis_empty] by simp
  then have p: "polls_of redis_kv redis_wait ''a1'' ?w ?ts" by (auto simp: polls_of_def intro!: exI [of _ ?w])
  have s: "sendable (concat (map task_sse (task_stream ?ts)))" by code_simp
  have f: "final_event ?ts = EComplete (complete_event finished_task)" by code_simp
  have "plain_id ''a1''" by (simp add: plain_id_def)
  from task_page_shows_task [OF redis.kv_store_axioms w this plain_channel.sse_channel_axioms p s, of "PyExc ''RemoteProtocolError'' []"]
  have a: "call_api_async (Inr (202, Inr (PDict [(''task_id'', PStr ''a1'')])))
      (\<lambda>id. task_response_of plain_sse (PyExc ''RemoteProtocolError'' []) (task_stream ?ts))
    = task_answer (PStr ''a1'') (complete_event finished_task)"
    unfolding f stream_event.case by simp
  show ?thesis unfolding a by (simp add: task_answer_def complete_event_def finished_task_def d_get_def d_get_or_def)
qed

end
