(* ===== verification/Sessions.thy ===== *)
theory Sessions
  imports StreamClient Services
begin

text \<open>
  The state of a user's session (\<open>ui/app.py\<close>): the history of answers, the conversation with its turns of
  feedback, and the settings. The operations are what a run of the page's script does to
  \<open>st.session_state\<close> for one action of the user. The answers come from the clients of \<open>StreamClient\<close>.
\<close>

subsection \<open>Results kept in the history\<close>

definition chunk_snapshot :: "pyv \<Rightarrow> pyv py" where
  "chunk_snapshot c =
     py_bind (as_dict c ''get'') (\<lambda>d.
     py_bind (as_dict (d_get_or d ''metadata'' (PDict [])) ''get'') (\<lambda>meta.
     py_bind (py_prefix (py_or_val (d_get_or d ''content'' (PStr [])) (PStr [])) 200) (\<lambda>preview.
       Inr (PDict [(''source'', d_get_or d ''source'' (PStr (py_str (d_get_or d ''id'' (PStr ''?''))))),
         (''chunk_type'', d_get_or meta ''chunk_type'' (PStr ''?'')), (''preview'', preview)]))))"

definition snapshot_result :: "pydict \<Rightarrow> pydict py" where
  "snapshot_result result =
     py_bind (py_iter (d_get_or result ''rag_chunks'' (PList []))) (\<lambda>chunks.
     py_bind (py_map chunk_snapshot chunks) (\<lambda>rag.
     py_bind (if truthy (d_get_or result ''sql'' PNone) then Inr (PStr [])
              else py_prefix (py_or_val (d_get_or result ''raw_response'' PNone) (PStr [])) 500) (\<lambda>raw.
       Inr [(''sql'', d_get_or result ''sql'' (PStr [])), (''exec_result'', d_get_or result ''exec_result'' PNone),
         (''token_usage'', d_get_or result ''token_usage'' (PDict [])), (''rag_chunks'', PList rag),
         (''node_timings'', d_get_or result ''node_timings'' (PDict [])), (''raw_response'', raw)])))"

text \<open>\<open>exec_result and exec_result.get("success")\<close>, as a truth value\<close>

definition succeeded :: "pyv \<Rightarrow> bool py" where
  "succeeded er =
     (if truthy er then py_bind (as_dict er ''get'') (\<lambda>d. Inr (truthy (d_get_or d ''success'' PNone))) else Inr False)"

subsection \<open>State\<close>

record history_entry =
  he_idx :: nat
  he_question :: string
  he_sql :: pyv
  he_result :: pydict
  he_time :: string
  he_status :: string
  he_db_name :: "string option"
  he_db_id :: string

text \<open>\<open>cv_task_id\<close> is \<open>PNone\<close> until a task was submitted.\<close>

record conversation =
  cv_question :: string
  cv_db_id :: string
  cv_database_url :: string
  cv_task_id :: pyv
  cv_turns :: "pydict list"
  cv_needs_init :: bool

record session =
  se_history :: "history_entry list"
  se_selected_idx :: "nat option"
  se_next_idx :: nat
  se_conversation :: "conversation option"
  se_db_name :: "string option"
  se_pending :: "string option"

definition new_session :: session where
  "new_session = \<lparr>se_history = [], se_selected_idx = None, se_next_idx = 0, se_conversation = None,
     se_db_name = None, se_pending = None\<rparr>"

text \<open>A database of the registry, as far as the page uses it\<close>

record page_db =
  pd_db_id :: string
  pd_display_name :: string
  pd_database_url :: string
  pd_online :: bool

subsection \<open>Turns\<close>

definition turn_entry :: "nat \<Rightarrow> pyv \<Rightarrow> pydict \<Rightarrow> pydict" where
  "turn_entry n feedback result =
     [(''turn'', PInt (int n)), (''user_feedback'', feedback), (''sql'', d_get_or result ''sql'' (PStr [])),
      (''exec_result'', d_get_or result ''exec_result'' PNone), (''token_usage'', d_get_or result ''token_usage'' (PDict [])),
      (''node_timings'', d_get_or result ''node_timings'' (PDict [])), (''elapsed_ms'', d_get_or result ''elapsed_ms'' (PInt 0)),
      (''rag_chunks'', d_get_or result ''rag_chunks'' (PList [])), (''raw_response'', d_get_or result ''raw_response'' (PStr [])),
      (''voter_candidates'', d_get_or result ''voter_candidates'' (PList []))]"

text \<open>The entry takes the next index before the snapshot is made; if that raises, the index is lost and
  the run of the script ends with the exception.\<close>

definition save_history ::
  "string \<Rightarrow> string \<Rightarrow> string \<Rightarrow> pydict \<Rightarrow> session \<Rightarrow> session \<times> py_exc option" where
  "save_history time question db_id result s =
     (case succeeded (d_get_or result ''exec_result'' PNone) of
        Inl e \<Rightarrow> (s, Some e)
      | Inr ok \<Rightarrow>
          let idx = se_next_idx s; s = s\<lparr>se_next_idx := idx + 1\<rparr>
          in (case snapshot_result result of
                Inl e \<Rightarrow> (s, Some e)
              | Inr snap \<Rightarrow> (s\<lparr>se_history := se_history s @ [\<lparr>he_idx = idx, he_question = question,
                  he_sql = d_get_or result ''sql'' (PStr []), he_result = snap, he_time = time,
                  he_status = (if ok then ''ok'' else ''fail''), he_db_name = se_db_name s, he_db_id = db_id\<rparr>]\<rparr>, None)))"

text \<open>The first answer of a conversation; \<open>call\<close> is the client.\<close>

definition start_conversation ::
  "string \<Rightarrow> (conversation \<Rightarrow> pydict) \<Rightarrow> conversation \<Rightarrow> session \<Rightarrow> session \<times> py_exc option" where
  "start_conversation time call conv s =
     (let result = call conv;
          conv = conv\<lparr>cv_needs_init := False, cv_task_id := d_get_or result ''task_id'' PNone,
            cv_turns := cv_turns conv @ [turn_entry 0 PNone result]\<rparr>
      in save_history time (cv_question conv) (cv_db_id conv) result (s\<lparr>se_conversation := Some conv\<rparr>))"

definition process_feedback ::
  "string \<Rightarrow> (pyv \<Rightarrow> string \<Rightarrow> pydict) \<Rightarrow> string \<Rightarrow> conversation \<Rightarrow> page_db \<Rightarrow> session \<Rightarrow> session \<times> py_exc option" where
  "process_feedback time call feedback conv db s =
     (let result = call (cv_task_id conv) feedback;
          conv = conv\<lparr>cv_turns := cv_turns conv @ [turn_entry (length (cv_turns conv) + 1) (PStr feedback) result]\<rparr>
      in save_history time (''[Correction] '' @ cv_question conv) (pd_db_id db) result (s\<lparr>se_conversation := Some conv\<rparr>))"

text \<open>The text of the input box is feedback when the last turn was a success.\<close>

definition in_feedback_mode :: "conversation option \<Rightarrow> bool py" where
  "in_feedback_mode conv =
     (case conv of
        None \<Rightarrow> Inr False
      | Some c \<Rightarrow> if cv_turns c = [] then Inr False
                  else succeeded (d_get_or (last (cv_turns c)) ''exec_result'' PNone))"

definition ask :: "string \<Rightarrow> page_db \<Rightarrow> session \<Rightarrow> session" where
  "ask question db s = s\<lparr>se_selected_idx := None, se_conversation := Some
     \<lparr>cv_question = question, cv_db_id = pd_db_id db, cv_database_url = pd_database_url db,
      cv_task_id = PNone, cv_turns = [], cv_needs_init = True\<rparr>\<rparr>"

text \<open>A question that was picked from the samples comes before what is typed, and is never feedback.\<close>

definition handle_input ::
  "string \<Rightarrow> (pyv \<Rightarrow> string \<Rightarrow> pydict) \<Rightarrow> string option \<Rightarrow> page_db \<Rightarrow> session \<Rightarrow> session \<times> py_exc option" where
  "handle_input time call typed db s =
     (case in_feedback_mode (se_conversation s) of
        Inl e \<Rightarrow> (s, Some e)
      | Inr feedback_mode \<Rightarrow>
          let (question, from_sample, s) = (case se_pending s of
                Some q \<Rightarrow> if q \<noteq> [] then (Some q, True, s\<lparr>se_pending := None\<rparr>) else (typed, False, s)
              | None \<Rightarrow> (typed, False, s))
          in case question of
               None \<Rightarrow> (s, None)
             | Some q \<Rightarrow>
                 if q = [] then (s, None)
                 else (case (feedback_mode \<and> \<not> from_sample, se_conversation s) of
                     (True, Some conv) \<Rightarrow> process_feedback time call q conv db s
                   | _ \<Rightarrow> (ask q db s, None)))"

text \<open>A run of the script: a conversation that waits for its first answer, then the input.\<close>

definition render_query ::
  "string \<Rightarrow> (conversation \<Rightarrow> pydict) \<Rightarrow> (pyv \<Rightarrow> string \<Rightarrow> pydict) \<Rightarrow> string option \<Rightarrow> page_db \<Rightarrow> session
    \<Rightarrow> session \<times> py_exc option" where
  "render_query time call_task call_feedback typed db s =
     (case se_conversation s of
        Some conv \<Rightarrow> if cv_needs_init conv then start_conversation time call_task (conv\<lparr>cv_needs_init := False\<rparr>)
              (s\<lparr>se_conversation := Some (conv\<lparr>cv_needs_init := False\<rparr>)\<rparr>)
            else handle_input time call_feedback typed db s
      | None \<Rightarrow> handle_input time call_feedback typed db s)"

subsection \<open>The sidebar\<close>

definition new_chat :: "session \<Rightarrow> session" where
  "new_chat s = s\<lparr>se_conversation := None, se_selected_idx := None\<rparr>"

definition clear_history :: "session \<Rightarrow> session" where
  "clear_history s = s\<lparr>se_history := [], se_selected_idx := None, se_next_idx := 0\<rparr>"

definition select_entry :: "nat \<Rightarrow> session \<Rightarrow> session" where
  "select_entry i s = s\<lparr>se_selected_idx := Some i\<rparr>"

definition delete_entry :: "nat \<Rightarrow> session \<Rightarrow> session" where
  "delete_entry i s = s\<lparr>se_history := filter (\<lambda>h. he_idx h \<noteq> i) (se_history s),
     se_selected_idx := (if se_selected_idx s = Some i then None else se_selected_idx s)\<rparr>"

definition back_to_latest :: "session \<Rightarrow> session" where
  "back_to_latest s = s\<lparr>se_selected_idx := None\<rparr>"

definition pick_sample :: "string \<Rightarrow> session \<Rightarrow> session" where
  "pick_sample q s = s\<lparr>se_pending := Some q\<rparr>"

text \<open>The entry that is shown above the conversation\<close>

definition shown_entry :: "session \<Rightarrow> history_entry option" where
  "shown_entry s = (case se_selected_idx s of None \<Rightarrow> None | Some i \<Rightarrow> find (\<lambda>h. he_idx h = i) (se_history s))"

text \<open>\<open>get_current_db\<close>: of two databases with the same name the later one counts, at the place of the first.\<close>

definition get_current_db :: "page_db list \<Rightarrow> session \<Rightarrow> (page_db \<times> session) py" where
  "get_current_db dbs s =
     (let options = fold (\<lambda>d acc. AList.update (pd_display_name d) d acc) dbs []
      in case (case se_db_name s of None \<Rightarrow> None | Some name \<Rightarrow> if name = [] then None else map_of options name) of
           Some db \<Rightarrow> Inr (db, s)
         | None \<Rightarrow> (case options of
               [] \<Rightarrow> Inl (PyExc ''IndexError'' ''list index out of range'')
             | (name, db) # rest \<Rightarrow> Inr (db, s\<lparr>se_db_name := Some name\<rparr>)))"

text \<open>The choice of a database in the sidebar; \<open>chosen\<close> is the label the user picked, if any.\<close>

definition db_label :: "page_db \<Rightarrow> string" where
  "db_label d = pd_display_name d @ (if pd_online d then [] else '' (offline)'')"

definition sidebar_database :: "page_db list \<Rightarrow> string option \<Rightarrow> session \<Rightarrow> (page_db \<times> session) py" where
  "sidebar_database dbs chosen s =
     (let options = fold (\<lambda>d acc. AList.update (db_label d) d acc) dbs []
      in case options of
           [] \<Rightarrow> Inl (if se_db_name s = None then PyExc ''IndexError'' ''list index out of range'' else PyExc ''KeyError'' ''None'')
         | (label, first_db) # rest \<Rightarrow>
             let name = (case se_db_name s of None \<Rightarrow> pd_display_name first_db | Some n \<Rightarrow> n);
                 default_db = (case find (\<lambda>(l, d). pd_display_name d = name) options of Some (l, d) \<Rightarrow> d | None \<Rightarrow> first_db)
             in case (case chosen of None \<Rightarrow> Some default_db | Some l \<Rightarrow> map_of options l) of
                  None \<Rightarrow> Inl (PyExc ''KeyError'' (the chosen))
                | Some db \<Rightarrow> Inr (db, s\<lparr>se_db_name := Some (pd_display_name db)\<rparr>))"

lemma fold_update_distinct:
  "distinct (map key ds) \<Longrightarrow> set (map key ds) \<inter> fst ` set acc = {} \<Longrightarrow>
     fold (\<lambda>d acc. AList.update (key d) d acc) ds acc = acc @ map (\<lambda>d. (key d, d)) ds"
proof (induction ds arbitrary: acc)
  case (Cons d ds)
  have "AList.update (key d) d acc = acc @ [(key d, d)]" if "key d \<notin> fst ` set acc" for acc :: "(_ \<times> _) list"
    using that by (induction acc) auto
  then show ?case using Cons by simp
qed simp

text \<open>With names that differ, the page asks the database the sidebar shows.\<close>

lemma sidebar_and_page_agree:
  assumes "sidebar_database dbs chosen s = Inr (db, s')" and "distinct (map pd_display_name dbs)" and "distinct (map db_label dbs)"
    and "[] \<notin> pd_display_name ` set dbs"
  shows "get_current_db dbs s' = Inr (db, s')"
proof -
  have o: "fold (\<lambda>d acc. AList.update (db_label d) d acc) dbs [] = map (\<lambda>d. (db_label d, d)) dbs"
    "fold (\<lambda>d acc. AList.update (pd_display_name d) d acc) dbs [] = map (\<lambda>d. (pd_display_name d, d)) dbs"
    using fold_update_distinct [OF assms(3), of "[]"] fold_update_distinct [OF assms(2), of "[]"] by simp_all
  have "db \<in> set dbs \<and> se_db_name s' = Some (pd_display_name db)"
    using assms(1) unfolding sidebar_database_def o Let_def
    by (cases dbs) (auto split: option.splits if_splits simp: find_Some_iff set_conv_nth [of "_ # _"] dest!: map_of_SomeD)
  moreover have "map_of (map (\<lambda>d. (pd_display_name d, d)) dbs) (pd_display_name db) = Some db" if "db \<in> set dbs"
    using assms(2) that by (intro map_of_is_SomeI) (auto simp: comp_def)
  ultimately show ?thesis using assms(4) unfolding get_current_db_def o Let_def by (auto simp: image_iff)
qed

definition difficulty_place :: "pyv \<Rightarrow> nat" where
  "difficulty_place v = (if v = PStr ''simple'' then 0 else if v = PStr ''moderate'' then 1
     else if v = PStr ''challenging'' then 2 else 9)"

definition sample_questions :: "pyv list \<Rightarrow> string \<Rightarrow> nat \<Rightarrow> pyv list py" where
  "sample_questions items db_id n =
     py_bind (py_map (\<lambda>it. py_bind (py_item it ''db_id'') (\<lambda>d. Inr (it, d))) items) (\<lambda>tagged.
     py_bind (py_map (\<lambda>it. py_bind (as_dict it ''get'') (\<lambda>d. Inr (difficulty_place (d_get_or d ''difficulty'' PNone), it)))
         (map fst (filter (\<lambda>(it, d). d = PStr db_id) tagged))) (\<lambda>ranked.
       py_map (\<lambda>(r, it). py_item it ''question'') (take n (sort_key fst ranked))))"

subsection \<open>All that can happen to a session\<close>

text \<open>The API names a submitted task by a string.\<close>

definition names_task :: "(nat \<times> pyv py) py \<Rightarrow> bool" where
  "names_task m = (case m of Inr (code, Inr body) \<Rightarrow> (case py_item body ''task_id'' of Inr t \<Rightarrow> is_text t | Inl e \<Rightarrow> True) | _ \<Rightarrow> True)"

inductive ui_step :: "session \<Rightarrow> session \<Rightarrow> bool" where
  script: "(\<And>c. names_task (sub c)) \<Longrightarrow>
    ui_step s (fst (render_query time (\<lambda>c. call_api_async (sub c) stream) (\<lambda>tid fb. call_feedback_async tid (posted fb) (resp fb)) typed db s))"
| chat: "ui_step s (new_chat s)"
| clear: "ui_step s (clear_history s)"
| select: "i \<in> he_idx ` set (se_history s) \<Longrightarrow> ui_step s (select_entry i s)"
| delete: "ui_step s (delete_entry i s)"
| latest: "ui_step s (back_to_latest s)"
| sample: "ui_step s (pick_sample q s)"
| database: "get_current_db dbs s = Inr (db, s') \<Longrightarrow> ui_step s s'"
| sidebar: "sidebar_database dbs chosen s = Inr (db, s') \<Longrightarrow> ui_step s s'"

definition good_turn :: "conversation \<Rightarrow> pydict \<Rightarrow> bool" where
  "good_turn c t \<longleftrightarrow> (succeeded (d_get_or t ''exec_result'' PNone) = Inr True \<longrightarrow> is_text (cv_task_id c))"

definition conversation_ok :: "conversation \<Rightarrow> bool" where
  "conversation_ok c \<longleftrightarrow> list_all (good_turn c) (cv_turns c) \<and> (cv_needs_init c \<longrightarrow> cv_turns c = [])
     \<and> map (\<lambda>t. d_get_or t ''turn'' PNone) (cv_turns c)
         = map (\<lambda>i. PInt (if i = 0 then 0 else int i + 1)) [0..<length (cv_turns c)]"

definition session_ok :: "session \<Rightarrow> bool" where
  "session_ok s \<longleftrightarrow> distinct (map he_idx (se_history s)) \<and> list_all (\<lambda>h. he_idx h < se_next_idx s) (se_history s)
     \<and> (\<forall>i. se_selected_idx s = Some i \<longrightarrow> i \<in> he_idx ` set (se_history s))
     \<and> (\<forall>c. se_conversation s = Some c \<longrightarrow> conversation_ok c)"

text \<open>A client returns what a handler returned or what its caller says of a failure.\<close>

lemma read_lines_result:
  "read_lines handle cur s ls = Inr (Inr r) \<Longrightarrow> (\<And>e d s r. handle e d s = Inr (Inr r) \<Longrightarrow> P r) \<Longrightarrow> P r"
  by (induction handle cur s ls rule: read_lines.induct) (auto split: if_splits sum.splits)

lemma read_response_result:
  assumes "\<And>e d s r. handle e d s = Inr (Inr r) \<Longrightarrow> P r" and "\<And>e. P (failed e)" and "\<And>s. P (ended s)"
  shows "P (read_response handle s0 failed ended resp)"
  using assms(2,3) read_lines_result [where P = P, OF _ assms(1)]
  by (auto simp: read_response_def split: sum.split prod.split option.split)

definition task_known :: "pydict \<Rightarrow> bool" where
  "task_known r \<longleftrightarrow> (succeeded (d_get_or r ''exec_result'' PNone) = Inr True \<longrightarrow> is_text (d_get_or r ''task_id'' PNone))"

lemma get_or_simps:
  "d_get_or [] k v = v" "d_get_or ((k', w) # d) k v = (if k' = k then w else d_get_or d k v)"
  by (simp_all add: d_get_or_def)

lemma not_succeeded: "succeeded (PDict [(''success'', PBool False), (''error'', msg)]) = Inr False"
  by (simp add: succeeded_def as_dict_def get_or_simps)

lemma failures_known [simp]:
  "task_known (failed_result sql msg raw)" "task_known ((''task_id'', tid) # failed_result sql msg raw)"
  "task_known (failed_correction tid q msg)"
  by (simp_all add: task_known_def failed_result_def failed_correction_def get_or_simps not_succeeded)

text \<open>Whatever a handler returns satisfies \<open>Q\<close>; structural rules for the handlers\<close>

definition returns_only :: "(pydict \<Rightarrow> bool) \<Rightarrow> ('s + pydict) py \<Rightarrow> bool" where
  "returns_only Q m \<longleftrightarrow> (case m of Inr (Inr r) \<Rightarrow> Q r | _ \<Rightarrow> True)"

lemma returns_only_intros:
  "returns_only Q (Inr (Inl s))" "Q r \<Longrightarrow> returns_only Q (Inr (Inr r))" "returns_only Q (Inl e)"
  "returns_only Q m1 \<Longrightarrow> returns_only Q m2 \<Longrightarrow> returns_only Q (if b then m1 else m2)"
  "(\<And>x. returns_only Q (f x)) \<Longrightarrow> returns_only Q (py_bind m f)"
  "returns_only Q (caption ns (Inl s))"
proof -
  show "(\<And>x. returns_only Q (f x)) \<Longrightarrow> returns_only Q (py_bind m f)" by (cases m) (simp_all add: returns_only_def)
  show "returns_only Q (caption ns (Inl s))" by (auto simp: returns_only_def caption_def py_bind_def split: sum.split)
qed (simp_all add: returns_only_def)

lemma returns_only_read:
  assumes "\<And>e d s. returns_only Q (handle e d s)" and "\<And>e. Q (failed e)" and "\<And>s. Q (ended s)"
  shows "Q (read_response handle s0 failed ended resp)"
proof (rule read_response_result [where P = Q, OF _ assms(2,3)])
  fix e d s r assume "handle e d s = Inr (Inr r)"
  then show "Q r" using assms(1) [of e d s] by (simp add: returns_only_def)
qed

lemma task_answer_known: "is_text tid \<Longrightarrow> task_known (task_answer tid d)"
  by (simp add: task_known_def task_answer_def get_or_simps)

lemma task_event_known: "is_text tid \<Longrightarrow> returns_only task_known (task_event tid ev data s)"
  unfolding task_event_def Let_def case_prod_unfold by (intro returns_only_intros task_answer_known failures_known)

lemma call_api_async_known:
  assumes "names_task sub"
  shows "task_known (call_api_async sub stream)"
proof -
  have "is_text tid \<Longrightarrow> task_known (read_response (task_event tid) s0
      (\<lambda>e. failed_result (PStr []) (PStr (stream_error e)) (exc_msg e)) (\<lambda>s. failed_result (pg_preview s) (PStr no_completion) []) resp)"
    for tid s0 resp
    by (rule returns_only_read) (auto intro: task_event_known)
  then show ?thesis using assms
    by (auto simp: call_api_async_def names_task_def Let_def py_bind_def split: sum.splits prod.splits)
qed

lemma succeeded_turn: "succeeded (d_get_or (turn_entry n fb r) ''exec_result'' PNone) = succeeded (d_get_or r ''exec_result'' PNone)"
  "d_get_or (turn_entry n fb r) ''turn'' PNone = PInt (int n)"
  by (simp_all add: turn_entry_def get_or_simps)

lemma save_history_ok:
  assumes "session_ok s"
  shows "session_ok (fst (save_history time question db_id r s))"
proof -
  have "distinct (map he_idx (se_history s))" "list_all (\<lambda>h. he_idx h < se_next_idx s) (se_history s)"
    using assms by (simp_all add: session_ok_def)
  then show ?thesis using assms
    by (auto simp: save_history_def session_ok_def Let_def list_all_iff split: sum.split option.splits)
qed

lemma start_conversation_ok:
  assumes "session_ok s" and "names_task (sub conv)" and "cv_turns conv = []"
  shows "session_ok (fst (start_conversation time (\<lambda>c. call_api_async (sub c) stream) conv s))"
proof -
  let ?r = "call_api_async (sub conv) stream"
  have "task_known ?r" by (rule call_api_async_known [OF assms(2)])
  then have "conversation_ok (conv\<lparr>cv_needs_init := False, cv_task_id := d_get_or ?r ''task_id'' PNone,
      cv_turns := [turn_entry 0 PNone ?r]\<rparr>)"
    by (simp add: conversation_ok_def good_turn_def succeeded_turn task_known_def)
  then have "session_ok (s\<lparr>se_conversation := Some (conv\<lparr>cv_needs_init := False, cv_task_id := d_get_or ?r ''task_id'' PNone,
      cv_turns := [turn_entry 0 PNone ?r]\<rparr>)\<rparr>)"
    using assms(1) by (simp add: session_ok_def)
  then show ?thesis using assms(3) by (simp add: start_conversation_def Let_def save_history_ok)
qed

lemma process_feedback_ok:
  assumes "session_ok s" and "conversation_ok c" and "cv_turns c \<noteq> []" and "is_text (cv_task_id c)"
  shows "session_ok (fst (process_feedback time call fb c db (s\<lparr>se_pending := p\<rparr>)))"
proof -
  let ?r = "call (cv_task_id c) fb"
  have "conversation_ok (c\<lparr>cv_turns := cv_turns c @ [turn_entry (length (cv_turns c) + 1) (PStr fb) ?r]\<rparr>)"
    using assms(2-4) by (auto simp: conversation_ok_def good_turn_def succeeded_turn list_all_iff)
  then have "session_ok (s\<lparr>se_pending := p, se_conversation := Some (c\<lparr>cv_turns := cv_turns c
      @ [turn_entry (length (cv_turns c) + 1) (PStr fb) ?r]\<rparr>)\<rparr>)"
    using assms(1) by (simp add: session_ok_def)
  then show ?thesis by (simp add: process_feedback_def Let_def save_history_ok)
qed

text \<open>Feedback mode implies that the task is known.\<close>

lemma feedback_mode_known:
  assumes "conversation_ok c" and "in_feedback_mode (Some c) = Inr True"
  shows "is_text (cv_task_id c) \<and> cv_turns c \<noteq> []"
proof -
  have t: "cv_turns c \<noteq> []" using assms(2) by (auto simp: in_feedback_mode_def)
  then have "good_turn c (last (cv_turns c))" using assms(1) by (simp add: conversation_ok_def list_all_iff)
  then show ?thesis using assms(2) t by (simp add: in_feedback_mode_def good_turn_def)
qed

lemma ask_ok: "session_ok s \<Longrightarrow> session_ok (ask q db (s\<lparr>se_pending := p\<rparr>))"
  by (simp add: session_ok_def ask_def conversation_ok_def)

lemma pending_ok: "session_ok (s\<lparr>se_pending := p\<rparr>) \<longleftrightarrow> session_ok s"
  by (simp add: session_ok_def)

lemma handle_input_ok:
  assumes "session_ok s"
  shows "session_ok (fst (handle_input time call typed db s))"
proof (cases "in_feedback_mode (se_conversation s)")
  case (Inl e)
  then show ?thesis using assms by (simp add: handle_input_def)
next
  case (Inr fb)
  obtain q from_sample p where q: "(case se_pending s of
        Some q \<Rightarrow> if q \<noteq> [] then (Some q, True, s\<lparr>se_pending := None\<rparr>) else (typed, False, s)
      | None \<Rightarrow> (typed, False, s)) = (q, from_sample, s\<lparr>se_pending := p\<rparr>)"
  proof (cases "se_pending s = None \<or> se_pending s = Some []")
    case True
    then show thesis using that [of typed False "se_pending s"] by auto
  next
    case False
    then show thesis using that [of "se_pending s" True None] by auto
  qed
  show ?thesis
  proof (cases "\<exists>c x. fb \<and> \<not> from_sample \<and> se_conversation s = Some c \<and> q = Some x \<and> x \<noteq> []")
    case True
    then obtain c x where c: "fb" "\<not> from_sample" "se_conversation s = Some c" "q = Some x" "x \<noteq> []" by blast
    have ok: "conversation_ok c" using assms c(3) by (simp add: session_ok_def)
    have "session_ok (fst (process_feedback time call x c db (s\<lparr>se_pending := p\<rparr>)))"
      using process_feedback_ok [OF assms ok] feedback_mode_known [OF ok] Inr c(1,3) by simp
    then show ?thesis using Inr q c by (simp add: handle_input_def)
  next
    case False
    have "fst (handle_input time call typed db s) \<in> {s\<lparr>se_pending := p\<rparr>} \<union> range (\<lambda>x. ask x db (s\<lparr>se_pending := p\<rparr>))"
      unfolding handle_input_def Inr sum.case q Let_def prod.case using False
      by (cases q; cases fb; cases from_sample; cases "se_conversation s") simp_all
    then show ?thesis using assms ask_ok [OF assms] pending_ok by auto
  qed
qed

lemma ui_step_ok:
  assumes "ui_step s s'" and "session_ok s"
  shows "session_ok s'"
  using assms(1)
proof cases
  case (script sub time stream posted resp typed db)
  show ?thesis
  proof (cases "\<exists>c. se_conversation s = Some c \<and> cv_needs_init c")
    case True
    then obtain c where c: "se_conversation s = Some c" "cv_needs_init c" by blast
    have ok: "conversation_ok c" using assms(2) c(1) by (simp add: session_ok_def)
    then have t: "cv_turns c = []" using c(2) by (simp add: conversation_ok_def)
    then have "session_ok (s\<lparr>se_conversation := Some (c\<lparr>cv_needs_init := False\<rparr>)\<rparr>)"
      using assms(2) by (simp add: session_ok_def conversation_ok_def)
    then show ?thesis using start_conversation_ok [of _ sub] script c t by (simp add: render_query_def)
  next
    case False
    then show ?thesis using handle_input_ok [OF assms(2)] script(1)
      by (auto simp: render_query_def split: option.splits)
  qed
next
  case (delete i)
  then show ?thesis using assms(2)
    by (auto simp: session_ok_def delete_entry_def list_all_iff distinct_map inj_on_def image_iff split: option.splits)
next
  case (database dbs db)
  then show ?thesis using assms(2)
    by (auto simp: get_current_db_def session_ok_def Let_def split: option.splits list.splits if_splits)
next
  case (sidebar dbs chosen db)
  then have "\<exists>n. s' = s\<lparr>se_db_name := n\<rparr>"
    unfolding sidebar_database_def Let_def by (cases "fold (\<lambda>d acc. AList.update (db_label d) d acc) dbs []") (auto split: option.splits prod.splits)
  then show ?thesis using assms(2) by (auto simp: session_ok_def)
qed (use assms(2) in \<open>simp_all add: session_ok_def new_chat_def clear_history_def select_entry_def back_to_latest_def pick_sample_def
  split: option.splits\<close>)

lemma ui_steps_ok: "ui_step\<^sup>*\<^sup>* s s' \<Longrightarrow> session_ok s \<Longrightarrow> session_ok s'"
  by (induction rule: rtranclp_induct) (auto intro: ui_step_ok)

lemma find_index: "distinct (map f xs) \<Longrightarrow> x \<in> set xs \<Longrightarrow> find (\<lambda>y. f y = f x) xs = Some x"
  by (induction xs) (auto simp: image_iff)

text \<open>C38: Whatever a user does, in whatever order, and whatever the API answers: the entries of the history
  have different indices, the entry that is browsed exists, the turns of the conversation are numbered
  0, 2, 3, and so on, and the input is sent as feedback only when the task it is about is known.\<close>

theorem session_sound:
  assumes "ui_step\<^sup>*\<^sup>* new_session s"
  shows "distinct (map he_idx (se_history s)) \<and> list_all (\<lambda>h. he_idx h < se_next_idx s) (se_history s)
    \<and> (shown_entry s = None \<longleftrightarrow> se_selected_idx s = None)
    \<and> (case se_conversation s of None \<Rightarrow> True | Some c \<Rightarrow>
        (in_feedback_mode (Some c) = Inr True \<longrightarrow> is_text (cv_task_id c))
        \<and> map (\<lambda>t. d_get_or t ''turn'' PNone) (cv_turns c)
            = map (\<lambda>i. PInt (if i = 0 then 0 else int i + 1)) [0..<length (cv_turns c)])"
proof -
  have ok: "session_ok s" by (rule ui_steps_ok [OF assms]) (simp add: session_ok_def new_session_def)
  have "shown_entry s \<noteq> None" if i: "se_selected_idx s = Some i" for i
  proof -
    obtain h where h: "h \<in> set (se_history s)" "he_idx h = i" using ok i by (auto simp: session_ok_def)
    have "distinct (map he_idx (se_history s))" using ok by (simp add: session_ok_def)
    from find_index [OF this h(1)] show ?thesis using h(2) i by (simp add: shown_entry_def)
  qed
  then have "shown_entry s = None \<longleftrightarrow> se_selected_idx s = None"
    by (cases "se_selected_idx s") (auto simp: shown_entry_def)
  moreover have "(in_feedback_mode (Some c) = Inr True \<longrightarrow> is_text (cv_task_id c))
      \<and> map (\<lambda>t. d_get_or t ''turn'' PNone) (cv_turns c)
          = map (\<lambda>i. PInt (if i = 0 then 0 else int i + 1)) [0..<length (cv_turns c)]" if "se_conversation s = Some c" for c
  proof -
    have "conversation_ok c" using ok that by (simp add: session_ok_def)
    then show ?thesis using feedback_mode_known unfolding conversation_ok_def by blast
  qed
  ultimately show ?thesis using ok by (simp add: session_ok_def split: option.split)
qed

text \<open>A correction is filed under the database that is selected when it is sent, also when the question was
  asked on another one.\<close>

lemma correction_filed_under_selected:
  assumes "process_feedback time call feedback conv db s = (s', None)"
  shows "he_db_id (last (se_history s')) = pd_db_id db"
  using assms by (auto simp: process_feedback_def save_history_def Let_def split: sum.splits)

definition shop_db :: page_db where
  "shop_db = \<lparr>pd_db_id = ''shop'', pd_display_name = ''Shop'', pd_database_url = ''sqlite:///shop.db'', pd_online = True\<rparr>"

definition shop_submit :: "(nat \<times> pyv py) py" where
  "shop_submit = Inr (202, Inr (PDict [(''task_id'', PStr ''a1'')]))"

definition shop_stream :: "pyv \<Rightarrow> response" where
  "shop_stream = (\<lambda>id. task_response_of plain_sse (PyExc ''RemoteProtocolError'' []) (task_stream [TPoll (Some (PDict finished_task))]))"

lemma shop_call: "call_api_async shop_submit shop_stream = task_answer (PStr ''a1'') (complete_event finished_task)"
proof -
  have t: "list_all typed_turn [TPoll (Some (PDict finished_task))]"
    by (simp add: typed_turn_def typed_state_def finished_task_def field_type_def d_get_def)
  have s: "sendable (concat (map task_sse (task_stream [TPoll (Some (PDict finished_task))])))" by code_simp
  have f: "final_event [TPoll (Some (PDict finished_task))] = EComplete (complete_event finished_task)" by code_simp
  show ?thesis using client_of_task [OF plain_channel.sse_channel_axioms t s] unfolding f stream_event.case
    by (simp add: shop_submit_def shop_stream_def call_api_async_def py_item_def d_get_def task_page_start_def)
qed

definition asked :: session where
  "asked = fst (render_query ''t'' (\<lambda>c. call_api_async shop_submit shop_stream) (\<lambda>tid fb. call_feedback_async tid (Inr 500) (Inr ([], None)))
     (Some ''how many users'') shop_db new_session)"

definition answered :: session where
  "answered = fst (render_query ''t'' (\<lambda>c. call_api_async shop_submit shop_stream) (\<lambda>tid fb. call_feedback_async tid (Inr 500) (Inr ([], None)))
     None shop_db asked)"

theorem session_sound_witness:
  "(case se_conversation answered of None \<Rightarrow> False
    | Some c \<Rightarrow> in_feedback_mode (Some c) = Inr True \<and> is_text (cv_task_id c)) \<and> se_next_idx answered = 1"
proof -
  have n: "names_task shop_submit" by (simp add: names_task_def shop_submit_def py_item_def d_get_def)
  note step = ui_step.script [where sub = "\<lambda>c. shop_submit" and stream = shop_stream and posted = "\<lambda>fb. Inr 500"
      and resp = "\<lambda>fb. Inr ([], None)" and time = "''t''" and db = shop_db, OF n]
  have "ui_step new_session asked" "ui_step asked answered"
    using step [of new_session "Some ''how many users''"] step [of asked None] by (simp_all only: asked_def answered_def)
  then have r: "ui_step\<^sup>*\<^sup>* new_session answered" by (meson converse_rtranclp_into_rtranclp r_into_rtranclp)
  have a: "asked = ask ''how many users'' shop_db new_session"
    by (simp add: asked_def render_query_def handle_input_def in_feedback_mode_def new_session_def)
  have "\<exists>c. se_conversation answered = Some c \<and> in_feedback_mode (Some c) = Inr True \<and> se_next_idx answered = 1"
    by (simp add: answered_def a render_query_def ask_def start_conversation_def shop_call save_history_def
        in_feedback_mode_def turn_entry_def task_answer_def complete_event_def finished_task_def get_or_simps succeeded_def as_dict_def
        snapshot_result_def new_session_def)
  then show ?thesis using session_sound [OF r] by auto
qed

end
