(* ===== verification/PageViews.thy ===== *)
theory PageViews
  imports Sessions "HOL-Library.Multiset"
begin

text \<open>
  The other pages of \<open>ui/app.py\<close>: the settings with their presets of chat models (the same code is in
  \<open>ui/settings.py\<close>, the presets in \<open>storage/config.py\<close>), the chart of node times, and the exports of the
  history and of a conversation. The widgets themselves are input and output: what a user chose or typed
  is an argument.
\<close>

subsection \<open>Presets of chat models\<close>

record preset =
  pr_name :: string
  pr_model :: string
  pr_base_url :: string
  pr_key_field :: string

definition LLM_PRESETS :: "preset list" where
  "LLM_PRESETS = map (\<lambda>(n, m, b, k). \<lparr>pr_name = n, pr_model = m, pr_base_url = b, pr_key_field = k\<rparr>)
     [(''DeepSeek V4 Pro'', ''deepseek-v4-pro'', ''https://api.deepseek.com/v1'', ''deepseek''),
      (''DeepSeek Chat'', ''deepseek-chat'', ''https://api.deepseek.com/v1'', ''deepseek''),
      (''DeepSeek Reasoner'', ''deepseek-reasoner'', ''https://api.deepseek.com/v1'', ''deepseek''),
      (''OpenAI GPT-4o'', ''gpt-4o'', ''https://api.openai.com/v1'', ''openai''),
      (''OpenAI GPT-4o-mini'', ''gpt-4o-mini'', ''https://api.openai.com/v1'', ''openai''),
      (''Claude Opus 4.7'', ''claude-opus-4-7'', ''https://api.anthropic.com/v1'', ''anthropic''),
      (''Claude Sonnet 4.6'', ''claude-sonnet-4-6'', ''https://api.anthropic.com/v1'', ''anthropic''),
      (''Custom'', [], [], [])]"

text \<open>\<open>load_llm_keys\<close>: the text of the file, or none\<close>

definition load_llm_keys :: "string option \<Rightarrow> pyv py" where
  "load_llm_keys content =
     (case content of
        None \<Rightarrow> Inr (PDict [])
      | Some text \<Rightarrow> (case json_loads text of
          Inl e \<Rightarrow> if exc_type e = ''JSONDecodeError'' then Inr (PDict []) else Inl e
        | Inr keys \<Rightarrow> Inr keys))"

text \<open>The preset that fits the current model and address, else the last one\<close>

fun default_index :: "preset list \<Rightarrow> nat \<Rightarrow> nat \<Rightarrow> ui_settings \<Rightarrow> nat" where
  "default_index [] i dflt u = dflt"
| "default_index (p # ps) i dflt u =
     (if pr_name p \<noteq> ''Custom'' \<and> pr_model p = us_model u \<and> pr_base_url p = us_base_url u then i
      else default_index ps (Suc i) dflt u)"

definition current_index :: "ui_settings \<Rightarrow> nat" where
  "current_index u = default_index LLM_PRESETS 0 (length LLM_PRESETS - 1) u"

text \<open>The user has \<open>chosen\<close> a preset by its name; \<open>last_preset\<close> is the state \<open>llm_preset\<close>. The keys are texts.\<close>

definition fill_preset :: "string option \<Rightarrow> preset \<Rightarrow> ui_settings \<Rightarrow> ui_settings py" where
  "fill_preset key_file preset u =
     (let u = u\<lparr>us_model := pr_model preset, us_base_url := pr_base_url preset\<rparr>
      in if pr_key_field preset = [] then Inr u
         else
           py_bind (load_llm_keys key_file) (\<lambda>keys.
           py_bind (as_dict keys ''get'') (\<lambda>keys.
             Inr (case d_get_or keys (pr_key_field preset) (PStr []) of
                 PStr k \<Rightarrow> if k = [] then u else u\<lparr>us_api_key := k\<rparr>
               | _ \<Rightarrow> u))))"

definition switch_preset ::
  "string option \<Rightarrow> string \<Rightarrow> string option \<times> ui_settings \<Rightarrow> (string option \<times> ui_settings) py" where
  "switch_preset key_file chosen st =
     (let (last_preset, u) = st;
          default_idx = current_index u;
          last_preset = (case last_preset of None \<Rightarrow> pr_name (LLM_PRESETS ! default_idx) | Some n \<Rightarrow> n)
      in if chosen = last_preset then Inr (Some last_preset, u)
         else if chosen = ''Custom'' then Inr (Some chosen, u)
         else py_bind (fill_preset key_file (LLM_PRESETS ! default_idx) u) (\<lambda>u. Inr (Some chosen, u)))"

text \<open>What is typed into the fields counts, whatever the preset filled in.\<close>

definition typed_model :: "string \<Rightarrow> string \<Rightarrow> string \<Rightarrow> ui_settings \<Rightarrow> ui_settings" where
  "typed_model model base_url api_key u = u\<lparr>us_model := model, us_base_url := base_url, us_api_key := api_key\<rparr>"

lemma default_index_spec:
  "default_index ps i dflt u = dflt \<or>
     (\<exists>j<length ps. default_index ps i dflt u = i + j \<and> pr_model (ps ! j) = us_model u \<and> pr_base_url (ps ! j) = us_base_url u)"
proof (induction ps arbitrary: i)
  case (Cons p ps)
  show ?case
  proof (cases "pr_name p \<noteq> ''Custom'' \<and> pr_model p = us_model u \<and> pr_base_url p = us_base_url u")
    case True
    then show ?thesis by (intro disjI2 exI [of _ 0]) simp
  next
    case False
    then show ?thesis using Cons [of "Suc i"] by (auto intro: exI [of _ "Suc j" for j])
  qed
qed simp

lemma current_preset:
  "let p = LLM_PRESETS ! current_index u
   in (pr_model p = us_model u \<and> pr_base_url p = us_base_url u) \<or> (pr_model p = [] \<and> pr_base_url p = [])"
proof -
  have "pr_model (LLM_PRESETS ! (length LLM_PRESETS - 1)) = [] \<and> pr_base_url (LLM_PRESETS ! (length LLM_PRESETS - 1)) = []"
    by (simp add: LLM_PRESETS_def)
  then show ?thesis using default_index_spec [of LLM_PRESETS 0 "length LLM_PRESETS - 1" u]
    by (auto simp: current_index_def Let_def)
qed

text \<open>Choosing another provider never fills in its model and address: the fields keep the current ones, or
  are emptied when the current ones are of no preset. So a user who leaves the page with a provider
  chosen still asks the old model, or none.\<close>

lemma fill_preset_values:
  "fill_preset key_file p u = Inr u' \<Longrightarrow> us_model u' = pr_model p \<and> us_base_url u' = pr_base_url p"
proof -
  let ?u = "u\<lparr>us_model := pr_model p, us_base_url := pr_base_url p\<rparr>"
  have v: "us_model (case v of PStr k \<Rightarrow> if k = [] then ?u else ?u\<lparr>us_api_key := k\<rparr> | _ \<Rightarrow> ?u) = pr_model p
      \<and> us_base_url (case v of PStr k \<Rightarrow> if k = [] then ?u else ?u\<lparr>us_api_key := k\<rparr> | _ \<Rightarrow> ?u) = pr_base_url p" for v
    by (cases v) simp_all
  assume "fill_preset key_file p u = Inr u'"
  then show ?thesis using v unfolding fill_preset_def Let_def by (cases "pr_key_field p = []") (auto simp: py_bind_Inr_iff)
qed

lemma preset_never_applied:
  assumes "switch_preset key_file chosen (last_preset, u) = Inr (last_preset', u')"
  shows "(us_model u' = us_model u \<and> us_base_url u' = us_base_url u) \<or> (us_model u' = [] \<and> us_base_url u' = [])"
proof (cases "us_model u' = us_model u \<and> us_base_url u' = us_base_url u")
  case False
  then have "fill_preset key_file (LLM_PRESETS ! current_index u) u = Inr u'"
    using assms unfolding switch_preset_def Let_def by (simp add: py_bind_Inr_iff split: if_split_asm)
  then show ?thesis using fill_preset_values current_preset [of u] by (metis (no_types))
qed simp

subsection \<open>The chart of node times\<close>

definition node_order :: "string list" where
  "node_order = [''router'', ''schema_retriever'', ''decomposer'', ''fewshot_selector'', ''generator'', ''guard'',
     ''voter'', ''semantic_check'', ''executor'', ''refiner'']"

definition sorted_nodes :: "(string \<times> rat) list \<Rightarrow> (string \<times> rat) list" where
  "sorted_nodes tms =
     map (\<lambda>n. (n, case map_of tms n of Some d \<Rightarrow> d | None \<Rightarrow> 0)) (filter (\<lambda>n. n \<in> fst ` set tms) node_order)
     @ filter (\<lambda>(n, d). n \<notin> set node_order) tms"

record bar =
  br_label :: string
  br_value :: rat
  br_base :: rat
  br_share :: rat
  br_cumulative :: rat

definition bar_color :: "string \<Rightarrow> string" where
  "bar_color n = (case map_of [(''generator'', ''#FF9800''), (''voter'', ''#4CAF50''), (''refiner'', ''#E91E63''),
     (''router'', ''#607D8B'')] n of Some c \<Rightarrow> c | None \<Rightarrow> ''#2196F3'')"

text \<open>No chart for no nodes; all times zero is a division by zero.\<close>

definition waterfall :: "(string \<times> rat) list \<Rightarrow> bar list py" where
  "waterfall tms =
     (let nodes = sorted_nodes tms; values = map snd nodes; total_time = sum_list values
      in if nodes = [] then Inr []
         else if total_time = 0 then Inl (PyExc ''ZeroDivisionError'' ''float division by zero'')
         else Inr (map (\<lambda>i. \<lparr>br_label = fst (nodes ! i), br_value = values ! i, br_base = sum_list (take i values),
             br_share = values ! i / total_time * 100, br_cumulative = sum_list (take (i + 1) values)\<rparr>) [0..<length nodes]))"

lemma sum_list_nth: "sum_list (map (\<lambda>i. f (xs ! i)) [0..<length xs]) = (\<Sum>x\<leftarrow>xs. f x :: rat)"
proof -
  have "map (\<lambda>i. f (xs ! i)) [0..<length xs] = map f xs" by (rule nth_equalityI) simp_all
  then show ?thesis by simp
qed

lemma sum_list_scaled: "(\<Sum>x\<leftarrow>xs. x / c * 100) = sum_list xs / c * (100 :: rat)"
  by (induction xs) (simp_all add: add_divide_distrib distrib_right)

text \<open>Each node has one bar with its time; a bar starts where the one before ends, and the shares make up
  all of the time.\<close>

lemma sorted_nodes_mset:
  assumes "distinct (map fst tms)"
  shows "mset (sorted_nodes tms) = mset tms"
proof -
  have o: "distinct node_order" by (simp add: node_order_def)
  let ?a = "map (\<lambda>n. (n, case map_of tms n of Some d \<Rightarrow> d | None \<Rightarrow> 0)) (filter (\<lambda>n. n \<in> fst ` set tms) node_order)"
  have d: "distinct tms" using assms by (simp add: distinct_map)
  have v: "(n, case map_of tms n of Some d \<Rightarrow> d | None \<Rightarrow> 0) \<in> set tms" if "n \<in> fst ` set tms" for n
    using that map_of_SomeD [of tms n] by (cases "map_of tms n") (auto simp: map_of_eq_None_iff)
  have "set ?a = set (filter (\<lambda>(n, d). n \<in> set node_order) tms)"
    using v assms by (force simp: map_of_is_SomeI)
  moreover have "distinct ?a" using o by (simp add: distinct_map inj_on_def)
  ultimately have "mset ?a = mset (filter (\<lambda>(n, d). n \<in> set node_order) tms)"
    using set_eq_iff_mset_eq_distinct [of ?a "filter (\<lambda>(n, d). n \<in> set node_order) tms"] d by (simp only: distinct_filter)
  moreover have "mset (filter (\<lambda>(n, d). n \<in> set node_order) tms) + mset (filter (\<lambda>(n, d). n \<notin> set node_order) tms) = mset tms"
    using multiset_partition [of "mset tms" "\<lambda>(n, d). n \<in> set node_order"]
    by (simp add: case_prod_unfold)
  ultimately show ?thesis by (simp add: sorted_nodes_def)
qed

lemma waterfall_bars:
  assumes "waterfall tms = Inr bars" and "distinct (map fst tms)"
  shows "mset (map (\<lambda>b. (br_label b, br_value b)) bars) = mset tms"
    and "list_all (\<lambda>b. br_cumulative b = br_base b + br_value b) bars"
    and "Suc i < length bars \<Longrightarrow> br_base (bars ! Suc i) = br_cumulative (bars ! i)"
    and "bars \<noteq> [] \<Longrightarrow> sum_list (map br_share bars) = 100"
proof -
  let ?n = "sorted_nodes tms"
  let ?v = "map snd ?n"
  have b: "bars = map (\<lambda>i. \<lparr>br_label = fst (?n ! i), br_value = ?v ! i, br_base = sum_list (take i ?v),
      br_share = ?v ! i / sum_list ?v * 100, br_cumulative = sum_list (take (i + 1) ?v)\<rparr>) [0..<length ?n]"
    using assms(1) by (auto simp: waterfall_def Let_def split: if_splits)
  have "map (\<lambda>b. (br_label b, br_value b)) bars = ?n"
    unfolding b by (rule nth_equalityI) simp_all
  then show "mset (map (\<lambda>b. (br_label b, br_value b)) bars) = mset tms"
    using sorted_nodes_mset [OF assms(2)] by simp
  show "list_all (\<lambda>b. br_cumulative b = br_base b + br_value b) bars"
    unfolding b by (simp add: list_all_iff take_Suc_conv_app_nth)
  show "Suc i < length bars \<Longrightarrow> br_base (bars ! Suc i) = br_cumulative (bars ! i)"
    unfolding b by simp
  show "sum_list (map br_share bars) = 100" if "bars \<noteq> []"
  proof -
    have "map br_share bars = map (\<lambda>i. ?v ! i / sum_list ?v * 100) [0..<length ?v]" unfolding b by (rule nth_equalityI) simp_all
    then have "sum_list (map br_share bars) = sum_list ?v / sum_list ?v * 100"
      using sum_list_nth [of "\<lambda>x. x / sum_list ?v * 100" ?v] sum_list_scaled [of "sum_list ?v" ?v] by simp
    moreover have "sum_list ?v \<noteq> 0" using assms(1) that b by (auto simp: waterfall_def Let_def split: if_splits)
    ultimately show ?thesis by simp
  qed
qed

subsection \<open>Exports\<close>

text \<open>The entries of \<open>_export_history_json\<close>; the indentation of the text is not modelled.\<close>

definition history_items :: "history_entry list \<Rightarrow> pydict list" where
  "history_items hs = map (\<lambda>h.
     [(''idx'', PInt (int (he_idx h))), (''time'', PStr (he_time h)),
      (''db_name'', case he_db_name h of None \<Rightarrow> PNone | Some n \<Rightarrow> PStr n), (''db_id'', PStr (he_db_id h)),
      (''question'', PStr (he_question h)), (''sql'', he_sql h), (''status'', PStr (he_status h)),
      (''result'', PDict (he_result h))]) hs"

definition turn_md :: "nat \<Rightarrow> pydict \<Rightarrow> pyv list py" where
  "turn_md i turn =
     (let fb = py_or_val (d_get_or turn ''user_feedback'' PNone) (PStr ''(initial query)'');
          sql = d_get_or turn ''sql'' (PStr []);
          exec_result = py_or_val (d_get_or turn ''exec_result'' PNone) (PDict []);
          start = [PStr (''## Turn '' @ show_nat i), PStr (''**Feedback:** '' @ py_str fb)]
            @ (if truthy sql then [PStr [], PStr ''```sql'', sql, PStr ''```''] else [])
      in py_bind (as_dict exec_result ''get'') (\<lambda>er.
         py_bind (if truthy (d_get_or er ''success'' PNone) then
             py_bind (py_iter (d_get_or er ''columns'' (PList []))) (\<lambda>cols.
               Inr [PStr (''**Result:** '' @ py_str (d_get_or er ''row_count'' (PInt 0)) @ '' rows''),
                    PStr (''Columns: '' @ join '', '' (map py_str cols))])
           else Inr [PStr (''**Error:** '' @ py_str (d_get_or er ''error'' (PStr ''N/A'')))]) (\<lambda>outcome.
           Inr (start @ outcome @ [PStr []]))))"

fun turns_lines :: "nat \<Rightarrow> pydict list \<Rightarrow> pyv list py" where
  "turns_lines i [] = Inr []"
| "turns_lines i (t # ts) =
     py_bind (turn_md i t) (\<lambda>ls. py_bind (turns_lines (Suc i) ts) (\<lambda>rest. Inr (ls @ rest)))"

definition export_conversation_md :: "conversation \<Rightarrow> string py" where
  "export_conversation_md conv =
     py_bind (turns_lines 1 (cv_turns conv)) (\<lambda>turns.
     py_bind (all_texts 0 ([PStr ''# NL2SQL Conversation'', PStr [], PStr (''**Question:** '' @ cv_question conv),
         PStr (''**Database:** '' @ cv_db_id conv), PStr (''**Turns:** '' @ show_nat (length (cv_turns conv))), PStr []] @ turns))
       (\<lambda>ls. Inr (join [CHR 0x0A] ls)))"

text \<open>A conversation whose answers are texts and tables can always be exported, also when its turns failed.\<close>

definition exportable :: "pydict \<Rightarrow> bool" where
  "exportable t \<longleftrightarrow> (let sql = d_get_or t ''sql'' (PStr []); er = d_get_or t ''exec_result'' PNone
     in is_text sql \<and> (er = PNone \<or> is_table er \<and> (case er of PDict d \<Rightarrow>
          (case d_get_or d ''columns'' (PList []) of PList cs \<Rightarrow> True | _ \<Rightarrow> False) | _ \<Rightarrow> False)))"

lemma turn_md_ok: "exportable t \<Longrightarrow> \<exists>ls. turn_md i t = Inr ls \<and> text_nodes ls"
  by (cases "d_get_or t ''exec_result'' PNone")
    (auto simp: exportable_def turn_md_def Let_def py_or_val_def as_dict_def text_nodes_def is_table_def d_get_or_def [of "[]"]
      split: pyv.splits)

lemma turns_lines_ok: "list_all exportable ts \<Longrightarrow> \<exists>ls. turns_lines i ts = Inr ls \<and> text_nodes ls"
proof (induction ts arbitrary: i)
  case (Cons t ts)
  obtain a b where "turn_md i t = Inr a" "text_nodes a" "turns_lines (Suc i) ts = Inr b" "text_nodes b"
    using turn_md_ok [of t i] Cons.IH [of "Suc i"] Cons.prems by auto
  then show ?case by (simp add: text_nodes_def)
qed simp

lemma export_total: "list_all exportable (cv_turns c) \<Longrightarrow> \<exists>text. export_conversation_md c = Inr text"
proof -
  assume "list_all exportable (cv_turns c)"
  then obtain ls where ls: "turns_lines 1 (cv_turns c) = Inr ls" "text_nodes ls" using turns_lines_ok by blast
  let ?all = "[PStr ''# NL2SQL Conversation'', PStr [], PStr (''**Question:** '' @ cv_question c),
         PStr (''**Database:** '' @ cv_db_id c), PStr (''**Turns:** '' @ show_nat (length (cv_turns c))), PStr []] @ ls"
  have "text_nodes ?all" using ls(2) by (simp add: text_nodes_def)
  from all_texts_ok [OF this, of 0] obtain ss where "all_texts 0 ?all = Inr ss" by blast
  then show ?thesis unfolding export_conversation_md_def ls(1) by (simp only: py_bind_simps) simp
qed

end
