(* ===== verification/OtelBridge.thy ===== *)
theory OtelBridge
  imports Worker Trace
begin

text \<open>
  \<open>observability/otel_bridge.py\<close>: the export of the events of a \<open>TraceLogger\<close> as spans. A span of the
  outside library is the record of the calls the bridge makes on it: its parent, its attributes, its
  status and how often it was ended. The set-up of the provider is the state of the module.
\<close>

subsection \<open>The provider\<close>

record provider =
  pv_service :: string
  pv_otlp_endpoint :: "string option"

text \<open>Only the first call has an effect. \<open>otlp_available\<close>: the exporter could be imported.\<close>

definition init_provider :: "bool \<Rightarrow> string \<Rightarrow> string \<Rightarrow> provider option \<Rightarrow> provider" where
  "init_provider otlp_available service_name otlp_endpoint st =
     (case st of
        Some p \<Rightarrow> p
      | None \<Rightarrow> \<lparr>pv_service = service_name,
          pv_otlp_endpoint = (if otlp_endpoint \<noteq> [] \<and> otlp_available then Some otlp_endpoint else None)\<rparr>)"

subsection \<open>Spans\<close>

datatype status_code = OK string | ERROR string

record span =
  sp_name :: string
  sp_parent :: "nat option"
  sp_attrs :: pydict
  sp_status :: "status_code option"
  sp_ends :: nat

text \<open>\<open>ob_open\<close> is \<open>open_spans\<close> without the times, which nobody reads; \<open>ob_nodes\<close> is \<open>node_spans\<close>.\<close>

record bridge =
  ob_spans :: "span list"
  ob_open :: "(string \<times> nat) list"
  ob_nodes :: "(string \<times> nat) list"
  ob_summaries :: "pydict list"

definition start_span :: "string \<Rightarrow> nat option \<Rightarrow> pydict \<Rightarrow> bridge \<Rightarrow> nat \<times> bridge" where
  "start_span name parent attrs b =
     (length (ob_spans b), b\<lparr>ob_spans := ob_spans b
        @ [\<lparr>sp_name = name, sp_parent = parent, sp_attrs = attrs, sp_status = None, sp_ends = 0\<rparr>]\<rparr>)"

definition end_span :: "pydict \<Rightarrow> status_code \<Rightarrow> nat \<Rightarrow> bridge \<Rightarrow> bridge" where
  "end_span attrs status i b =
     (let sp = ob_spans b ! i
      in b\<lparr>ob_spans := (ob_spans b)[i := sp\<lparr>sp_attrs := d_update (sp_attrs sp) attrs, sp_status := Some status,
            sp_ends := sp_ends sp + 1\<rparr>]\<rparr>)"

definition summary :: "string \<Rightarrow> pyv \<Rightarrow> pyv \<Rightarrow> pydict" where
  "summary name dur status = [(''name'', PStr name), (''duration_s'', dur), (''status'', status)]"

text \<open>The logger names nodes by strings; any other value is read as its text.\<close>

definition node_of :: "string \<Rightarrow> event \<Rightarrow> string" where
  "node_of dflt ev = py_str (d_get_or ev ''node'' (PStr dflt))"

definition optional_attr :: "string \<Rightarrow> string \<Rightarrow> event \<Rightarrow> pydict" where
  "optional_attr k attr ev = (if truthy (d_get_or ev k PNone) then [(attr, d_get_or ev k PNone)] else [])"

definition on_enter :: "event \<Rightarrow> bridge \<Rightarrow> bridge" where
  "on_enter ev b =
     (let node = node_of ''?'' ev;
          (i, b) = start_span node None ((''trace_id'', d_get_or ev ''trace_id'' (PStr []))
            # optional_attr ''model'' ''llm.model'' ev @ optional_attr ''prompt_version'' ''prompt.version'' ev) b
      in b\<lparr>ob_open := AList.update node i (ob_open b), ob_nodes := AList.update node i (ob_nodes b)\<rparr>)"

definition exit_status :: "event \<Rightarrow> status_code" where
  "exit_status ev =
     (let status = d_get_or ev ''status'' (PStr ''success'')
      in if status = PStr ''error'' then ERROR (take 200 (py_str (d_get_or ev ''error'' (PStr []))))
         else if status = PStr ''skipped'' then OK ''skipped'' else OK [])"

definition on_exit :: "event \<Rightarrow> bridge \<Rightarrow> bridge py" where
  "on_exit ev b =
     (let node = node_of ''?'' ev
      in case map_of (ob_open b) node of
           None \<Rightarrow> Inr b
         | Some i \<Rightarrow>
             py_bind (as_dict (py_or_val (d_get_or ev ''meta'' (PDict [])) (PDict [])) ''items'') (\<lambda>meta.
               let attrs = (''duration_s'', d_get_or ev ''duration_s'' (PInt 0))
                     # map (\<lambda>(k, v). (''meta.'' @ k, PStr (take 200 (py_str v)))) meta;
                   b = end_span attrs (exit_status ev) i (b\<lparr>ob_open := AList.delete node (ob_open b)\<rparr>)
               in Inr (b\<lparr>ob_summaries := ob_summaries b @ [summary node (d_get_or ev ''duration_s'' (PInt 0))
                    (d_get_or ev ''status'' (PStr ''success''))]\<rparr>)))"

definition on_llm_call :: "event \<Rightarrow> bridge \<Rightarrow> bridge" where
  "on_llm_call ev b =
     (let parent_node = node_of ''llm'' ev;
          attr = (\<lambda>k. (''llm.'' @ k, d_get_or ev k (PInt 0)));
          (i, b) = start_span ''llm_call'' (map_of (ob_nodes b) parent_node)
            ([(''llm.model'', d_get_or ev ''model'' (PStr []))]
             @ map attr [''prompt_tokens'', ''completion_tokens'', ''total_tokens'', ''duration_s'']
             @ (if parent_node = [] then [] else [(''parent.node'', PStr parent_node)])) b;
          b = end_span [] (OK []) i b
      in b\<lparr>ob_summaries := ob_summaries b @ [summary (''llm_call['' @ parent_node @ '']'')
           (d_get_or ev ''duration_s'' (PInt 0)) (PStr ''success'')]\<rparr>)"

definition on_sql_exec :: "event \<Rightarrow> bridge \<Rightarrow> bridge" where
  "on_sql_exec ev b =
     (let parent = (case map_of (ob_nodes b) ''executor'' of Some i \<Rightarrow> Some i | None \<Rightarrow> map_of (ob_nodes b) ''voter'');
          err = d_get_or ev ''error'' PNone;
          (i, b) = start_span ''sql_exec'' parent
            ([(''sql.success'', d_get_or ev ''success'' (PBool False)), (''sql.row_count'', d_get_or ev ''row_count'' (PInt 0)),
              (''sql.duration_s'', d_get_or ev ''duration_s'' (PInt 0))]
             @ (if truthy err then [(''sql.error'', PStr (take 200 (py_str err)))] else [])) b
      in end_span [] (if truthy err then ERROR (take 200 (py_str err)) else OK []) i b)"

definition on_event :: "event \<Rightarrow> bridge \<Rightarrow> bridge py" where
  "on_event ev b =
     (let kind = d_get_or ev ''event'' (PStr [])
      in if kind = PStr ''node_enter'' then Inr (on_enter ev b)
         else if kind = PStr ''node_exit'' then on_exit ev b
         else if kind = PStr ''llm_call'' then Inr (on_llm_call ev b)
         else if kind = PStr ''sql_exec'' then Inr (on_sql_exec ev b)
         else Inr b)"

fun on_events :: "event list \<Rightarrow> bridge \<Rightarrow> bridge py" where
  "on_events [] b = Inr b"
| "on_events (ev # evs) b = py_bind (on_event ev b) (on_events evs)"

text \<open>Spans that are still open at the end\<close>

definition close_open :: "string \<times> nat \<Rightarrow> bridge \<Rightarrow> bridge" where
  "close_open p b =
     (let b = end_span [] (ERROR ''node_exit missing'') (snd p) b
      in b\<lparr>ob_summaries := ob_summaries b @ [summary (fst p) (PInt 0) (PStr ''incomplete'')]\<rparr>)"

definition bridge_start :: bridge where
  "bridge_start = \<lparr>ob_spans = [], ob_open = [], ob_nodes = [], ob_summaries = []\<rparr>"

definition export_bridge :: "event list \<Rightarrow> bridge py" where
  "export_bridge evs = py_bind (on_events evs bridge_start) (\<lambda>b. Inr (fold close_open (ob_open b) b))"

text \<open>The summaries, and the provider they were sent to\<close>

definition export_trace ::
  "bool \<Rightarrow> string \<Rightarrow> string \<Rightarrow> tracer \<Rightarrow> provider option \<Rightarrow> pydict list py \<times> provider option" where
  "export_trace otlp_available service_name otlp_endpoint tlog st =
     (if events tlog = [] then (Inr [], st)
      else (py_bind (export_bridge (events tlog)) (\<lambda>b. Inr (ob_summaries b)),
            Some (init_provider otlp_available service_name otlp_endpoint st)))"

subsection \<open>Every span ends once\<close>

definition ends :: "bridge \<Rightarrow> nat \<Rightarrow> nat" where
  "ends b i = sp_ends (ob_spans b ! i)"

definition bridge_ok :: "bridge \<Rightarrow> bool" where
  "bridge_ok b \<longleftrightarrow> distinct (map fst (ob_open b)) \<and> distinct (map snd (ob_open b))
     \<and> (\<forall>i\<in>snd ` set (ob_open b). i < length (ob_spans b) \<and> ends b i = 0)
     \<and> (\<forall>i<length (ob_spans b). ends b i \<le> 1)
     \<and> (\<forall>i\<in>snd ` set (ob_nodes b). i < length (ob_spans b))
     \<and> (\<forall>i<length (ob_spans b). \<forall>j. sp_parent (ob_spans b ! i) = Some j \<longrightarrow> j < i)"

text \<open>No span was lost: what is not ended is still in \<open>open_spans\<close>.\<close>

definition none_lost :: "bridge \<Rightarrow> bool" where
  "none_lost b \<longleftrightarrow> (\<forall>i<length (ob_spans b). ends b i = 0 \<longrightarrow> i \<in> snd ` set (ob_open b))"

lemma bridge_ok_open: "bridge_ok b \<Longrightarrow> j \<in> snd ` set (ob_open b) \<Longrightarrow> j < length (ob_spans b) \<and> ends b j = 0"
  unfolding bridge_ok_def by (elim conjE) (rule bspec)

lemma start_span_facts:
  "start_span n p a b = (i, b') \<Longrightarrow> i = length (ob_spans b) \<and> ob_open b' = ob_open b \<and> ob_nodes b' = ob_nodes b
    \<and> ob_summaries b' = ob_summaries b \<and> length (ob_spans b') = Suc i \<and> ends b' i = 0 \<and> sp_parent (ob_spans b' ! i) = p
    \<and> (\<forall>j<i. ob_spans b' ! j = ob_spans b ! j)"
  by (auto simp: start_span_def ends_def nth_append)

lemma end_span_facts:
  "i < length (ob_spans b) \<Longrightarrow> ob_open (end_span a st i b) = ob_open b \<and> ob_nodes (end_span a st i b) = ob_nodes b
    \<and> ob_summaries (end_span a st i b) = ob_summaries b \<and> length (ob_spans (end_span a st i b)) = length (ob_spans b)
    \<and> (\<forall>j. ends (end_span a st i b) j = (if j = i then ends b i + 1 else ends b j))
    \<and> (\<forall>j. sp_parent (ob_spans (end_span a st i b) ! j) = sp_parent (ob_spans b ! j))"
  by (auto simp: end_span_def ends_def nth_list_update Let_def)

lemma update_snd:
  "snd ` set (AList.update k v al) \<subseteq> insert v (snd ` set al)"
  "k \<notin> fst ` set al \<Longrightarrow> snd ` set (AList.update k v al) = insert v (snd ` set al)"
  "distinct (map snd al) \<Longrightarrow> v \<notin> snd ` set al \<Longrightarrow> distinct (map snd (AList.update k v al))"
proof -
  show sub: "snd ` set (AList.update k v al) \<subseteq> insert v (snd ` set al)" for al by (induction al) auto
  show "k \<notin> fst ` set al \<Longrightarrow> snd ` set (AList.update k v al) = insert v (snd ` set al)" by (induction al) auto
  show "distinct (map snd al) \<Longrightarrow> v \<notin> snd ` set al \<Longrightarrow> distinct (map snd (AList.update k v al))"
  proof (induction al)
    case (Cons p al)
    then show ?case using sub [of al] by auto
  qed simp
qed

lemma delete_entry_facts:
  assumes "distinct (map fst al)" and "distinct (map snd al)" and "map_of al k = Some v"
  shows "distinct (map fst (AList.delete k al))" and "distinct (map snd (AList.delete k al))"
    and "insert v (snd ` set (AList.delete k al)) = snd ` set al" and "v \<notin> snd ` set (AList.delete k al)"
    and "length al = Suc (length (AList.delete k al))"
proof -
  obtain xs ys where al: "al = xs @ (k, v) # ys" using split_list [OF map_of_SomeD [OF assms(3)]] by blast
  have k: "k \<notin> fst ` set xs" "k \<notin> fst ` set ys" using assms(1) by (auto simp: al)
  have "filter (\<lambda>(k', v). k \<noteq> k') zs = zs" if "k \<notin> fst ` set zs" for zs :: "('a \<times> 'b) list"
    using that by (induction zs) auto
  then have d: "AList.delete k al = xs @ ys" using k by (simp add: AList.delete_eq al)
  show "distinct (map fst (AList.delete k al))" "distinct (map snd (AList.delete k al))"
    "insert v (snd ` set (AList.delete k al)) = snd ` set al" "v \<notin> snd ` set (AList.delete k al)"
    "length al = Suc (length (AList.delete k al))"
    using assms(1,2) unfolding d by (auto simp: al)
qed

lemma delete_keys_set: "fst ` set (AList.delete k al) = fst ` set al - {k}"
  by (auto simp: AList.delete_eq)

text \<open>Starting and ending at once, as for the calls of the model and of the database\<close>

lemma bridge_ok_leaf:
  assumes "bridge_ok b" and "start_span n p a b = (i, b1)" and "\<And>j. p = Some j \<Longrightarrow> j \<in> snd ` set (ob_nodes b)"
  shows "bridge_ok (end_span a' st i b1)" and "none_lost b \<Longrightarrow> none_lost (end_span a' st i b1)"
    and "ob_open (end_span a' st i b1) = ob_open b" and "ob_summaries (end_span a' st i b1) = ob_summaries b"
proof -
  note s = start_span_facts [OF assms(2)]
  have i: "i < length (ob_spans b1)" using s by simp
  note e = end_span_facts [OF i, of a' st]
  have old: "j < i \<Longrightarrow> ends b1 j = ends b j \<and> sp_parent (ob_spans b1 ! j) = sp_parent (ob_spans b ! j)" for j
    using s by (simp add: ends_def)
  have op: "j \<in> snd ` set (ob_open b) \<Longrightarrow> j < i \<and> ends b j = 0" for j using assms(1) s unfolding bridge_ok_def by auto
  show "ob_open (end_span a' st i b1) = ob_open b" "ob_summaries (end_span a' st i b1) = ob_summaries b" using e s by simp_all
  show "bridge_ok (end_span a' st i b1)"
    unfolding bridge_ok_def
  proof (intro conjI ballI allI impI)
    show "distinct (map fst (ob_open (end_span a' st i b1)))" "distinct (map snd (ob_open (end_span a' st i b1)))"
      using assms(1) e s by (simp_all add: bridge_ok_def)
    fix j
    show "j < length (ob_spans (end_span a' st i b1))" "ends (end_span a' st i b1) j = 0"
      if "j \<in> snd ` set (ob_open (end_span a' st i b1))"
      using op [of j] that e s old [of j] by auto
    show "ends (end_span a' st i b1) j \<le> 1" if "j < length (ob_spans (end_span a' st i b1))"
      using that e s old [of j] assms(1) by (auto simp: bridge_ok_def less_Suc_eq)
    show "j < length (ob_spans (end_span a' st i b1))" if "j \<in> snd ` set (ob_nodes (end_span a' st i b1))"
      using that e s assms(1) by (auto simp: bridge_ok_def intro: less_SucI)
    show "k < j" if "j < length (ob_spans (end_span a' st i b1))" "sp_parent (ob_spans (end_span a' st i b1) ! j) = Some k" for k
    proof (cases "j = i")
      case True
      then have "p = Some k" using that(2) e s by metis
      then show ?thesis using assms(1,3) s True by (auto simp: bridge_ok_def)
    next
      case False
      then show ?thesis using that e s old [of j] assms(1) by (simp add: bridge_ok_def less_Suc_eq)
    qed
  qed
  show "none_lost (end_span a' st i b1)" if "none_lost b"
    using that e s old by (auto simp: none_lost_def less_Suc_eq)
qed

lemma on_enter_ok:
  assumes "bridge_ok b"
  shows "bridge_ok (on_enter ev b)"
    and "none_lost b \<Longrightarrow> node_of ''?'' ev \<notin> fst ` set (ob_open b) \<Longrightarrow> none_lost (on_enter ev b)"
    and "fst ` set (ob_open (on_enter ev b)) = insert (node_of ''?'' ev) (fst ` set (ob_open b))"
    and "ob_summaries (on_enter ev b) = ob_summaries b"
    and "node_of ''?'' ev \<notin> fst ` set (ob_open b) \<Longrightarrow> length (ob_open (on_enter ev b)) = Suc (length (ob_open b))"
proof -
  let ?n = "node_of ''?'' ev"
  obtain i b1 where s: "start_span ?n None ((''trace_id'', d_get_or ev ''trace_id'' (PStr []))
      # optional_attr ''model'' ''llm.model'' ev @ optional_attr ''prompt_version'' ''prompt.version'' ev) b = (i, b1)"
    by fastforce
  have b': "on_enter ev b = b1\<lparr>ob_open := AList.update ?n i (ob_open b1), ob_nodes := AList.update ?n i (ob_nodes b1)\<rparr>"
    by (simp add: on_enter_def Let_def s)
  note f = start_span_facts [OF s]
  have old: "j < i \<Longrightarrow> ends b1 j = ends b j \<and> sp_parent (ob_spans b1 ! j) = sp_parent (ob_spans b ! j)" for j
    using f by (simp add: ends_def)
  have e: "ends (on_enter ev b) = ends b1" "ob_spans (on_enter ev b) = ob_spans b1" by (simp_all add: b' ends_def fun_eq_iff)
  have op: "j \<in> snd ` set (ob_open b) \<Longrightarrow> j < i \<and> ends b j = 0" for j using assms f unfolding bridge_ok_def by auto
  then have new: "i \<notin> snd ` set (ob_open b)" by blast
  have nodes: "j \<in> snd ` set (ob_nodes b) \<Longrightarrow> j < i" for j using assms f unfolding bridge_ok_def by auto
  have o: "ob_open (on_enter ev b) = AList.update ?n i (ob_open b)" "ob_nodes (on_enter ev b) = AList.update ?n i (ob_nodes b)"
    using f by (simp_all add: b')
  show "bridge_ok (on_enter ev b)"
    unfolding bridge_ok_def e
  proof (intro conjI ballI allI impI)
    show "distinct (map fst (ob_open (on_enter ev b)))" using assms by (simp add: o distinct_update bridge_ok_def)
    show "distinct (map snd (ob_open (on_enter ev b)))" using assms new by (simp add: o update_snd(3) bridge_ok_def)
    fix j
    show "j < length (ob_spans b1)" "ends b1 j = 0" if "j \<in> snd ` set (ob_open (on_enter ev b))"
    proof -
      have "j = i \<or> j \<in> snd ` set (ob_open b)" using that update_snd(1) [of ?n i "ob_open b"] unfolding o by blast
      then have "j < length (ob_spans b1) \<and> ends b1 j = 0"
      proof
        assume "j \<in> snd ` set (ob_open b)"
        from op [OF this] show ?thesis using old [of j] f by simp
      qed (use f in auto)
      then show "j < length (ob_spans b1)" "ends b1 j = 0" by simp_all
    qed
    show "ends b1 j \<le> 1" if "j < length (ob_spans b1)"
      using that f old [of j] assms by (auto simp: bridge_ok_def less_Suc_eq)
    show "j < length (ob_spans b1)" if "j \<in> snd ` set (ob_nodes (on_enter ev b))"
    proof -
      have "j = i \<or> j \<in> snd ` set (ob_nodes b)" using that update_snd(1) [of ?n i "ob_nodes b"] unfolding o by blast
      then show ?thesis
      proof
        assume "j \<in> snd ` set (ob_nodes b)"
        from nodes [OF this] show ?thesis using f by simp
      qed (use f in simp)
    qed
    show "k < j" if "j < length (ob_spans b1)" "sp_parent (ob_spans b1 ! j) = Some k" for k
      using that f old [of j] assms by (cases "j = i") (auto simp: bridge_ok_def less_Suc_eq)
  qed
  show "fst ` set (ob_open (on_enter ev b)) = insert ?n (fst ` set (ob_open b))" by (simp add: o dom_update)
  show "ob_summaries (on_enter ev b) = ob_summaries b" using f by (simp add: b')
  show "length (ob_open (on_enter ev b)) = Suc (length (ob_open b))" if "?n \<notin> fst ` set (ob_open b)"
    using that arg_cong [OF update_keys [of ?n i "ob_open b"], of length] by (simp add: o)
  show "none_lost (on_enter ev b)" if "none_lost b" "?n \<notin> fst ` set (ob_open b)"
    using that f old unfolding none_lost_def e o update_snd(2) [OF that(2)] by (auto simp: less_Suc_eq)
qed

text \<open>Ending an open span, at the exit of its node or at the end of the export\<close>

lemma bridge_ok_close:
  assumes "bridge_ok b" and "map_of (ob_open b) n = Some i"
  shows "bridge_ok (end_span a st i (b\<lparr>ob_open := AList.delete n (ob_open b)\<rparr>))"
    and "none_lost b \<Longrightarrow> none_lost (end_span a st i (b\<lparr>ob_open := AList.delete n (ob_open b)\<rparr>))"
    and "ob_open (end_span a st i (b\<lparr>ob_open := AList.delete n (ob_open b)\<rparr>)) = AList.delete n (ob_open b)"
    and "ob_summaries (end_span a st i (b\<lparr>ob_open := AList.delete n (ob_open b)\<rparr>)) = ob_summaries b"
proof -
  have d: "distinct (map fst (ob_open b))" "distinct (map snd (ob_open b))" using assms(1) by (simp_all add: bridge_ok_def)
  note df = delete_entry_facts [OF d assms(2)]
  let ?b = "b\<lparr>ob_open := AList.delete n (ob_open b)\<rparr>"
  have "i \<in> snd ` set (ob_open b)" using df(3) by blast
  then have i: "i < length (ob_spans b)" "ends b i = 0" using bridge_ok_open [OF assms(1)] by simp_all
  then have "i < length (ob_spans ?b)" by simp
  note e = end_span_facts [OF this, of a st]
  have b0: "ends ?b = ends b" by (simp add: ends_def fun_eq_iff)
  show "ob_open (end_span a st i ?b) = AList.delete n (ob_open b)" "ob_summaries (end_span a st i ?b) = ob_summaries b"
    using e by simp_all
  have rest: "j \<in> snd ` set (ob_open b) \<and> j \<noteq> i" if "j \<in> snd ` set (AList.delete n (ob_open b))" for j
    using that df(3,4) by blast
  have "\<forall>j\<in>snd ` set (AList.delete n (ob_open b)). j < length (ob_spans b) \<and> ends b j = 0 \<and> j \<noteq> i"
  proof
    fix j assume "j \<in> snd ` set (AList.delete n (ob_open b))"
    from rest [OF this] show "j < length (ob_spans b) \<and> ends b j = 0 \<and> j \<noteq> i"
      using bridge_ok_open [OF assms(1), of j] by simp
  qed
  moreover have len: "length (ob_spans (end_span a st i ?b)) = length (ob_spans b)"
    and nodes: "ob_nodes (end_span a st i ?b) = ob_nodes b" and op: "ob_open (end_span a st i ?b) = AList.delete n (ob_open b)"
    and ends: "\<And>j. ends (end_span a st i ?b) j = (if j = i then 1 else ends b j)"
    and par: "\<And>j. sp_parent (ob_spans (end_span a st i ?b) ! j) = sp_parent (ob_spans b ! j)"
    using i by (simp_all add: end_span_def ends_def nth_list_update Let_def)
  moreover have "\<forall>j<length (ob_spans b). (if j = i then 1 else ends b j) \<le> 1"
    "\<forall>j\<in>snd ` set (ob_nodes b). j < length (ob_spans b)"
    "\<forall>j<length (ob_spans b). \<forall>k. sp_parent (ob_spans b ! j) = Some k \<longrightarrow> k < j"
    using assms(1) unfolding bridge_ok_def by simp_all
  ultimately show "bridge_ok (end_span a st i ?b)"
    using df(1,2) unfolding bridge_ok_def len nodes op ends par by simp
  show "none_lost (end_span a st i ?b)" if "none_lost b"
    using that unfolding none_lost_def len op ends df(3) [symmetric] by auto
qed

text \<open>Which nodes are entered again before they were left\<close>

fun no_reentry :: "string list \<Rightarrow> event list \<Rightarrow> bool" where
  "no_reentry inside [] = True"
| "no_reentry inside (ev # evs) =
     (let kind = d_get_or ev ''event'' (PStr []); node = node_of ''?'' ev
      in if kind = PStr ''node_enter'' then node \<notin> set inside \<and> no_reentry (node # inside) evs
         else if kind = PStr ''node_exit'' then no_reentry (removeAll node inside) evs
         else no_reentry inside evs)"

text \<open>Spans a summary is written for\<close>

definition reported :: "event \<Rightarrow> bool" where
  "reported ev \<longleftrightarrow> d_get_or ev ''event'' (PStr []) \<in> {PStr ''node_enter'', PStr ''llm_call''}"

definition counted :: "event list \<Rightarrow> bridge \<Rightarrow> nat" where
  "counted evs b = length (ob_summaries b) + length (ob_open b) + length (filter reported evs)"

lemma on_exit_ok:
  assumes "bridge_ok b" and "on_exit ev b = Inr b'"
  shows "bridge_ok b'" and "none_lost b \<Longrightarrow> none_lost b'"
    and "fst ` set (ob_open b') = fst ` set (ob_open b) - {node_of ''?'' ev}"
    and "length (ob_summaries b') + length (ob_open b') = length (ob_summaries b) + length (ob_open b)"
proof -
  have "bridge_ok b' \<and> (none_lost b \<longrightarrow> none_lost b') \<and> fst ` set (ob_open b') = fst ` set (ob_open b) - {node_of ''?'' ev}
    \<and> length (ob_summaries b') + length (ob_open b') = length (ob_summaries b) + length (ob_open b)"
  proof (cases "map_of (ob_open b) (node_of ''?'' ev)")
    case None
    then have "b' = b" using assms(2) by (simp add: on_exit_def Let_def)
    moreover have "node_of ''?'' ev \<notin> fst ` set (ob_open b)" using None by (simp add: map_of_eq_None_iff)
    ultimately show ?thesis using assms(1) by simp
  next
    case (Some i)
    obtain a x where b': "b' = (end_span a (exit_status ev) i (b\<lparr>ob_open := AList.delete (node_of ''?'' ev) (ob_open b)\<rparr>))
        \<lparr>ob_summaries := ob_summaries b @ [x]\<rparr>"
      using assms(2) bridge_ok_close(4) [OF assms(1) Some] by (auto simp: on_exit_def Let_def Some py_bind_Inr_iff)
    note c = bridge_ok_close [OF assms(1) Some, of a "exit_status ev"]
    have d: "distinct (map fst (ob_open b))" "distinct (map snd (ob_open b))" using assms(1) by (simp_all add: bridge_ok_def)
    have "bridge_ok (r\<lparr>ob_summaries := y\<rparr>) = bridge_ok r" "none_lost (r\<lparr>ob_summaries := y\<rparr>) = none_lost r" for r y
      by (simp_all add: bridge_ok_def none_lost_def ends_def)
    then show ?thesis using c delete_entry_facts(5) [OF d Some] by (simp add: b' delete_keys_set)
  qed
  then show "bridge_ok b'" and "none_lost b \<Longrightarrow> none_lost b'"
    and "fst ` set (ob_open b') = fst ` set (ob_open b) - {node_of ''?'' ev}"
    and "length (ob_summaries b') + length (ob_open b') = length (ob_summaries b) + length (ob_open b)"
    by simp_all
qed

lemma with_summaries: "bridge_ok (r\<lparr>ob_summaries := y\<rparr>) = bridge_ok r" "none_lost (r\<lparr>ob_summaries := y\<rparr>) = none_lost r"
  by (simp_all add: bridge_ok_def none_lost_def ends_def)

lemma map_of_in_snd: "map_of xs k = Some j \<Longrightarrow> j \<in> snd ` set xs"
  by (metis image_eqI map_of_SomeD snd_conv)

lemma on_llm_call_ok:
  assumes "bridge_ok b"
  shows "bridge_ok (on_llm_call ev b)" and "none_lost b \<Longrightarrow> none_lost (on_llm_call ev b)"
    and "ob_open (on_llm_call ev b) = ob_open b" and "length (ob_summaries (on_llm_call ev b)) = Suc (length (ob_summaries b))"
proof -
  obtain a i b1 x where s: "start_span ''llm_call'' (map_of (ob_nodes b) (node_of ''llm'' ev)) a b = (i, b1)"
    and c: "on_llm_call ev b = (end_span [] (OK []) i b1)\<lparr>ob_summaries := ob_summaries (end_span [] (OK []) i b1) @ [x]\<rparr>"
    by (auto simp: on_llm_call_def Let_def start_span_def)
  note l = bridge_ok_leaf [OF assms s map_of_in_snd, where a' = "[]" and st = "OK []"]
  show "bridge_ok (on_llm_call ev b)" and "none_lost b \<Longrightarrow> none_lost (on_llm_call ev b)"
    and "ob_open (on_llm_call ev b) = ob_open b" and "length (ob_summaries (on_llm_call ev b)) = Suc (length (ob_summaries b))"
    using l unfolding c with_summaries by simp_all
qed

lemma on_sql_exec_ok:
  assumes "bridge_ok b"
  shows "bridge_ok (on_sql_exec ev b)" and "none_lost b \<Longrightarrow> none_lost (on_sql_exec ev b)"
    and "ob_open (on_sql_exec ev b) = ob_open b" and "ob_summaries (on_sql_exec ev b) = ob_summaries b"
proof -
  let ?p = "case map_of (ob_nodes b) ''executor'' of Some i \<Rightarrow> Some i | None \<Rightarrow> map_of (ob_nodes b) ''voter''"
  obtain a i b1 st where s: "start_span ''sql_exec'' ?p a b = (i, b1)" and c: "on_sql_exec ev b = end_span [] st i b1"
    by (auto simp: on_sql_exec_def Let_def start_span_def)
  have p: "?p = Some j \<Longrightarrow> j \<in> snd ` set (ob_nodes b)" for j
    using map_of_in_snd [of "ob_nodes b"] by (auto split: option.splits)
  note l = bridge_ok_leaf [OF assms s p, where a' = "[]" and st = st]
  show "bridge_ok (on_sql_exec ev b)" and "none_lost b \<Longrightarrow> none_lost (on_sql_exec ev b)"
    and "ob_open (on_sql_exec ev b) = ob_open b" and "ob_summaries (on_sql_exec ev b) = ob_summaries b"
    using l unfolding c by simp_all
qed

lemma on_event_cases:
  assumes "on_event ev b = Inr b'"
  obtains "d_get_or ev ''event'' (PStr []) = PStr ''node_enter''" "b' = on_enter ev b"
    | "d_get_or ev ''event'' (PStr []) = PStr ''node_exit''" "on_exit ev b = Inr b'"
    | "d_get_or ev ''event'' (PStr []) = PStr ''llm_call''" "b' = on_llm_call ev b"
    | "d_get_or ev ''event'' (PStr []) = PStr ''sql_exec''" "b' = on_sql_exec ev b"
    | "d_get_or ev ''event'' (PStr []) \<notin> {PStr ''node_enter'', PStr ''node_exit'', PStr ''llm_call'', PStr ''sql_exec''}" "b' = b"
  using assms by (auto simp: on_event_def Let_def split: if_splits)

lemma on_event_ok:
  assumes "on_event ev b = Inr b1" and "bridge_ok b"
  shows "bridge_ok b1"
  using assms(1)
  by (elim on_event_cases) (use assms(2) on_enter_ok(1) on_exit_ok(1) on_llm_call_ok(1) on_sql_exec_ok(1) in auto)

lemma on_event_none_lost:
  assumes "on_event ev b = Inr b1" and ok: "bridge_ok b" and l: "none_lost b" and i: "set inside = fst ` set (ob_open b)"
    and r: "no_reentry inside (ev # evs)"
  shows "\<exists>inside'. none_lost b1 \<and> set inside' = fst ` set (ob_open b1) \<and> no_reentry inside' evs
    \<and> counted evs b1 = counted (ev # evs) b"
  using assms(1)
proof (cases rule: on_event_cases)
  case 1
  have n: "node_of ''?'' ev \<notin> fst ` set (ob_open b)" and r': "no_reentry (node_of ''?'' ev # inside) evs"
    using i r 1(1) by (auto simp: Let_def)
  have "set (node_of ''?'' ev # inside) = fst ` set (ob_open b1)" using on_enter_ok(3) [OF ok, of ev] i 1(2) by simp
  moreover have "none_lost b1" using on_enter_ok(2) [OF ok l n] 1(2) by simp
  moreover have "counted evs b1 = counted (ev # evs) b"
    using on_enter_ok(4,5) [OF ok, of ev] n 1 by (simp add: counted_def reported_def)
  ultimately show ?thesis using r' by blast
next
  case 2
  have r': "no_reentry (removeAll (node_of ''?'' ev) inside) evs" using r 2(1) by (simp add: Let_def)
  have "set (removeAll (node_of ''?'' ev) inside) = fst ` set (ob_open b1)" using on_exit_ok(3) [OF ok 2(2)] i by simp
  moreover have "none_lost b1" by (rule on_exit_ok(2) [OF ok 2(2) l])
  moreover have "counted evs b1 = counted (ev # evs) b"
    using on_exit_ok(4) [OF ok 2(2)] 2(1) by (simp add: counted_def reported_def)
  ultimately show ?thesis using r' by blast
next
  case 3
  have r': "no_reentry inside evs" using r 3(1) by (simp add: Let_def)
  have "counted evs b1 = counted (ev # evs) b"
    using on_llm_call_ok(3,4) [OF ok, of ev] 3 by (simp add: counted_def reported_def)
  then show ?thesis using on_llm_call_ok(2,3) [OF ok, of ev] 3 r' l i by auto
next
  case 4
  have r': "no_reentry inside evs" using r 4(1) by (simp add: Let_def)
  have "counted evs b1 = counted (ev # evs) b"
    using on_sql_exec_ok(3,4) [OF ok, of ev] 4 by (simp add: counted_def reported_def)
  then show ?thesis using on_sql_exec_ok(2,3) [OF ok, of ev] 4 r' l i by auto
next
  case 5
  have r': "no_reentry inside evs" using r 5(1) by (simp add: Let_def)
  have "counted evs b1 = counted (ev # evs) b" using 5 by (simp add: counted_def reported_def)
  then show ?thesis using 5(2) r' l i by auto
qed

lemma on_events_ok: "on_events evs b = Inr b' \<Longrightarrow> bridge_ok b \<Longrightarrow> bridge_ok b'"
  by (induction evs arbitrary: b) (auto simp: py_bind_Inr_iff dest: on_event_ok)

lemma on_events_none_lost:
  "on_events evs b = Inr b' \<Longrightarrow> bridge_ok b \<Longrightarrow> none_lost b \<Longrightarrow> set inside = fst ` set (ob_open b) \<Longrightarrow> no_reentry inside evs \<Longrightarrow>
    none_lost b' \<and> length (ob_summaries b') + length (ob_open b') = counted evs b"
proof (induction evs arbitrary: b inside)
  case (Cons ev evs)
  obtain b1 where b1: "on_event ev b = Inr b1" "on_events evs b1 = Inr b'" using Cons.prems(1) by (auto simp: py_bind_Inr_iff)
  obtain inside' where i: "none_lost b1" "set inside' = fst ` set (ob_open b1)" "no_reentry inside' evs"
    "counted evs b1 = counted (ev # evs) b"
    using on_event_none_lost [OF b1(1) Cons.prems(2-5)] by blast
  show ?case using Cons.IH [OF b1(2) on_event_ok [OF b1(1) Cons.prems(2)] i(1-3)] i(4) by simp
qed (simp add: counted_def)

lemma close_all:
  assumes "distinct (map snd xs)" and "\<forall>i\<in>snd ` set xs. i < length (ob_spans b)"
  shows "length (ob_spans (fold close_open xs b)) = length (ob_spans b)
    \<and> (\<forall>j. ends (fold close_open xs b) j = (if j \<in> snd ` set xs then ends b j + 1 else ends b j))
    \<and> (\<forall>j. sp_parent (ob_spans (fold close_open xs b) ! j) = sp_parent (ob_spans b ! j))
    \<and> length (ob_summaries (fold close_open xs b)) = length (ob_summaries b) + length xs"
  using assms
proof (induction xs arbitrary: b)
  case (Cons p xs)
  let ?b = "close_open p b"
  have i: "snd p < length (ob_spans b)" using Cons.prems(2) by simp
  note e = end_span_facts [OF i, of "[]" "ERROR ''node_exit missing''"]
  have c: "length (ob_spans ?b) = length (ob_spans b)" "ends ?b j = (if j = snd p then ends b j + 1 else ends b j)"
    "sp_parent (ob_spans ?b ! j) = sp_parent (ob_spans b ! j)" "length (ob_summaries ?b) = Suc (length (ob_summaries b))" for j
    using e by (auto simp: close_open_def Let_def ends_def)
  have p: "snd p \<notin> snd ` set xs" using Cons.prems(1) by simp
  have d: "distinct (map snd xs)" "\<forall>i\<in>snd ` set xs. i < length (ob_spans ?b)" using Cons.prems by (simp_all add: c(1))
  from Cons.IH [OF d] show ?case using p by (simp add: c)
qed simp

text \<open>C39: Every exported span is ended at most once, and its parent, if any, was started before it. If no node
  is entered again before it is left, then every span is ended exactly once, and the summaries are one
  for each entered node and each call of the model. A node entered twice loses its first span.\<close>

theorem export_spans_end:
  assumes "export_bridge evs = Inr b"
  shows "list_all (\<lambda>sp. sp_ends sp \<le> 1) (ob_spans b)
    \<and> list_all (\<lambda>i. case sp_parent (ob_spans b ! i) of None \<Rightarrow> True | Some j \<Rightarrow> j < i) [0..<length (ob_spans b)]
    \<and> (no_reentry [] evs \<longrightarrow> list_all (\<lambda>sp. sp_ends sp = 1) (ob_spans b)
        \<and> length (ob_summaries b) = length (filter reported evs))"
proof -
  obtain b1 where b1: "on_events evs bridge_start = Inr b1" and b: "b = fold close_open (ob_open b1) b1"
    using assms by (auto simp: export_bridge_def py_bind_Inr_iff)
  have s: "bridge_ok bridge_start" "none_lost bridge_start" by (simp_all add: bridge_start_def bridge_ok_def none_lost_def)
  have ok: "bridge_ok b1" by (rule on_events_ok [OF b1 s(1)])
  have o: "j \<in> snd ` set (ob_open b1) \<Longrightarrow> j < length (ob_spans b1) \<and> ends b1 j = 0" for j by (rule bridge_ok_open [OF ok])
  have d: "distinct (map snd (ob_open b1))" using ok by (simp add: bridge_ok_def)
  have l: "\<forall>i\<in>snd ` set (ob_open b1). i < length (ob_spans b1)" using o by auto
  note c = close_all [OF d l, folded b]
  have e1: "ends b j \<le> 1" if "j < length (ob_spans b)" for j
    using c o [of j] ok that by (cases "j \<in> snd ` set (ob_open b1)") (simp_all add: bridge_ok_def)
  have p: "case sp_parent (ob_spans b ! i) of None \<Rightarrow> True | Some j \<Rightarrow> j < i" if "i < length (ob_spans b)" for i
    using c ok that by (simp add: bridge_ok_def split: option.split)
  have t: "list_all (\<lambda>sp. sp_ends sp = 1) (ob_spans b) \<and> length (ob_summaries b) = length (filter reported evs)" if r: "no_reentry [] evs"
  proof -
    have n: "none_lost b1 \<and> length (ob_summaries b1) + length (ob_open b1) = counted evs bridge_start"
      by (rule on_events_none_lost [OF b1 s _ r]) (simp add: bridge_start_def)
    have "ends b j = 1" if j: "j < length (ob_spans b)" for j
    proof (cases "j \<in> snd ` set (ob_open b1)")
      case True
      then show ?thesis using c o by simp
    next
      case False
      then have "ends b1 j \<noteq> 0" using n c j by (auto simp: none_lost_def)
      moreover have "ends b1 j \<le> 1" using ok c j by (simp add: bridge_ok_def)
      ultimately show ?thesis using c False by simp
    qed
    then show ?thesis using c n by (auto simp: list_all_length ends_def counted_def bridge_start_def)
  qed
  have "list_all (\<lambda>i. case sp_parent (ob_spans b ! i) of None \<Rightarrow> True | Some j \<Rightarrow> j < i) [0..<length (ob_spans b)]"
    using p by (simp add: list_all_iff)
  moreover have "list_all (\<lambda>sp. sp_ends sp \<le> 1) (ob_spans b)" using e1 by (simp add: list_all_length ends_def)
  ultimately show ?thesis using t by blast
qed

text \<open>The trace of a node that fails: the logger writes \<open>node_error\<close>, which the bridge does not know, so the
  span is reported as incomplete, without the duration and the error of the event.\<close>

definition failing_trace :: tracer where
  "failing_trace = node_error \<lparr>r_ms = 70, r_ts = ''t2''\<rparr> ''generator'' ''TimeoutError'' ''model did not answer''
     (llm_call \<lparr>r_ms = 60, r_ts = ''t1''\<rparr> ''deepseek-chat'' [] 40 ''generator''
       (node_enter \<lparr>r_ms = 10, r_ts = ''t0''\<rparr> ''generator'' [] (tracer_init (Some ''r1'') [])))"

lemma failing_trace_events:
  "events failing_trace =
     [[(''ts'', PStr ''t0''), (''trace_id'', PStr ''r1''), (''event'', PStr ''node_enter''), (''node'', PStr ''generator'')],
      [(''ts'', PStr ''t1''), (''trace_id'', PStr ''r1''), (''event'', PStr ''llm_call''), (''model'', PStr ''deepseek-chat''),
       (''prompt_tokens'', PInt 0), (''completion_tokens'', PInt 0), (''total_tokens'', PInt 0), (''duration_s'', secs 40),
       (''node'', PStr ''generator'')],
      [(''ts'', PStr ''t2''), (''trace_id'', PStr ''r1''), (''event'', PStr ''node_error''), (''node'', PStr ''generator''),
       (''duration_s'', secs 60), (''error_type'', PStr ''TimeoutError''), (''error'', PStr ''model did not answer'')]]"
  by (simp add: failing_trace_def node_error_def node_enter_def node_enter_v_def llm_call_def tracer_init_def pop_start_def
      with_node_def emit_def add_versions_def Let_def d_update_def d_set_def d_get_or_def)

lemma failed_node_incomplete:
  "fst (export_trace True ''nl2sql-agent'' [] failing_trace None) =
     Inr [summary ''llm_call[generator]'' (secs 40) (PStr ''success''), summary ''generator'' (PInt 0) (PStr ''incomplete'')]"
  by (simp add: export_trace_def failing_trace_events export_bridge_def on_event_def on_enter_def on_llm_call_def close_open_def
      start_span_def end_span_def node_of_def bridge_start_def optional_attr_def Let_def d_get_or_def)

theorem export_spans_end_witness:
  "\<exists>b. export_bridge (events failing_trace) = Inr b \<and> list_all (\<lambda>sp. sp_ends sp = 1) (ob_spans b) \<and> length (ob_summaries b) = 2"
proof -
  obtain b where b: "export_bridge (events failing_trace) = Inr b"
    using failed_node_incomplete by (auto simp: export_trace_def failing_trace_events py_bind_Inr_iff)
  have "no_reentry [] (events failing_trace)" "length (filter reported (events failing_trace)) = 2"
    by (simp_all add: failing_trace_events node_of_def reported_def Let_def d_get_or_def)
  then show ?thesis using export_spans_end [OF b] b by auto
qed

end
