(* ===== verification/Ingest.thy ===== *)
theory Ingest
  imports Fewshot
begin

text \<open>
  Filling of the vector store: \<open>ingest_chunks\<close> (\<open>retrieval/rag_retrieve.py\<close>), the writing side of
  \<open>retrieval/fewshot_retrieve.py\<close>, and the scripts \<open>ingest_bird.py\<close> and \<open>ingest_bird_fewshot.py\<close>. The store is
  a parameter: collections of documents with identifiers. Its documented behaviour is the locale
  \<open>vector_store\<close>: \<open>add\<close> refuses identifiers that occur twice in a call, and ignores those that are
  already there. What Chroma also refuses, calls above its maximum batch size and metadata that are empty or
  nested, is left out of the law, so the properties hold for calls within these limits. Directories and files are arguments: their names and what reading them gives.
\<close>

subsection \<open>Collections\<close>

type_synonym doc = "string \<times> string \<times> pydict"        \<comment> \<open>identifier, document, metadata\<close>

record 'c vectors =
  vs_new :: 'c
  vs_add :: "doc list \<Rightarrow> 'c \<Rightarrow> 'c py"
  vs_delete :: "string list \<Rightarrow> 'c \<Rightarrow> 'c py"
  vs_items :: "'c \<Rightarrow> doc list"

locale vector_store =
  fixes V :: "'c vectors"
  assumes items_new: "vs_items V (vs_new V) = []"
    and add_new: "xs \<noteq> [] \<Longrightarrow> distinct (map fst xs) \<Longrightarrow>
      \<exists>c'. vs_add V xs c = Inr c' \<and> vs_items V c' = vs_items V c @ filter (\<lambda>x. fst x \<notin> fst ` set (vs_items V c)) xs"
    and add_duplicate: "\<not> distinct (map fst xs) \<Longrightarrow> isl (vs_add V xs c)"
    and delete_ids: "ids \<noteq> [] \<Longrightarrow>
      \<exists>c'. vs_delete V ids c = Inr c' \<and> vs_items V c' = filter (\<lambda>x. fst x \<notin> set ids) (vs_items V c)"

text \<open>A collection as the list of its documents\<close>

definition list_vectors :: "doc list vectors" where
  "list_vectors = \<lparr>vs_new = [],
     vs_add = (\<lambda>xs c. if xs = [] then Inl (PyExc ''ValueError'' ''Expected IDs to be a non-empty list'')
       else if \<not> distinct (map fst xs) then Inl (PyExc ''DuplicateIDError'' ''Expected IDs to be unique'')
       else Inr (c @ filter (\<lambda>x. fst x \<notin> fst ` set c) xs)),
     vs_delete = (\<lambda>ids c. if ids = [] then Inl (PyExc ''ValueError'' ''Expected IDs to be a non-empty list'')
       else Inr (filter (\<lambda>x. fst x \<notin> set ids) c)),
     vs_items = (\<lambda>c. c)\<rparr>"

interpretation chroma: vector_store list_vectors
  by unfold_locales (auto simp: list_vectors_def)

text \<open>The collections of a store by their names\<close>

type_synonym 'c client = "string \<Rightarrow> 'c option"

definition get_or_create :: "'c vectors \<Rightarrow> string \<Rightarrow> 'c client \<Rightarrow> 'c \<times> 'c client" where
  "get_or_create V name cl = (case cl name of Some c \<Rightarrow> (c, cl) | None \<Rightarrow> (vs_new V, cl(name \<mapsto> vs_new V)))"

record doc_chunk =
  dc_id :: string
  dc_content :: string
  dc_meta :: pydict

definition doc_of :: "doc_chunk \<Rightarrow> doc" where
  "doc_of c = (dc_id c, dc_content c, dc_meta c)"

text \<open>\<open>ingest_chunks\<close> and \<open>ingest_fewshot_chunks\<close>: the same steps on two collections\<close>

definition ingest_into :: "'c vectors \<Rightarrow> string \<Rightarrow> doc_chunk list \<Rightarrow> bool \<Rightarrow> 'c client \<Rightarrow> unit py \<times> 'c client" where
  "ingest_into V name chunks reset cl =
     (let (col, cl) = get_or_create V name cl;
          (col, cl) = (if reset then get_or_create V name (cl(name := None)) else (col, cl))
      in if chunks = [] then (Inr (), cl)
         else (case vs_add V (map doc_of chunks) col of
             Inl e \<Rightarrow> (Inl e, cl)
           | Inr col \<Rightarrow> (Inr (), cl(name \<mapsto> col))))"

definition ingest_chunks :: "'c vectors \<Rightarrow> doc_chunk list \<Rightarrow> bool \<Rightarrow> 'c client \<Rightarrow> unit py \<times> 'c client" where
  "ingest_chunks V = ingest_into V ''nl2sql_corpus''"

definition ingest_fewshot_chunks :: "'c vectors \<Rightarrow> doc_chunk list \<Rightarrow> bool \<Rightarrow> 'c client \<Rightarrow> unit py \<times> 'c client" where
  "ingest_fewshot_chunks V = ingest_into V ''nl2sql_fewshot''"

definition delete_fewshot_ids :: "'c vectors \<Rightarrow> string list \<Rightarrow> 'c client \<Rightarrow> unit py \<times> 'c client" where
  "delete_fewshot_ids V ids cl =
     (let (col, cl) = get_or_create V ''nl2sql_fewshot'' cl
      in case vs_delete V ids col of
           Inl e \<Rightarrow> (Inl e, cl)
         | Inr col \<Rightarrow> (Inr (), cl(''nl2sql_fewshot'' \<mapsto> col)))"

definition get_fewshot_count :: "'c vectors \<Rightarrow> 'c client \<Rightarrow> nat" where
  "get_fewshot_count V cl = length (vs_items V (fst (get_or_create V ''nl2sql_fewshot'' cl)))"

text \<open>An example with its embedding, if the store has one\<close>

definition get_all_fewshot :: "'c vectors \<Rightarrow> (string \<Rightarrow> rat list option) \<Rightarrow> 'c client \<Rightarrow> (string \<times> fs_item \<times> rat list option) list" where
  "get_all_fewshot V embedding cl =
     (let items = vs_items V (fst (get_or_create V ''nl2sql_fewshot'' cl))
      in if items = [] then [] else map (\<lambda>(i, document, meta). (i, fs_item_of meta, embedding i)) items)"

text \<open>What is in a collection, and the chunks of the corpus of examples\<close>

definition contents :: "'c vectors \<Rightarrow> string \<Rightarrow> 'c client \<Rightarrow> doc list" where
  "contents V name cl = vs_items V (fst (get_or_create V name cl))"

definition corpus_doc :: "corpus_chunk \<Rightarrow> doc_chunk" where
  "corpus_doc c = \<lparr>dc_id = cc_id c, dc_content = cc_question c,
     dc_meta = [(''source_path'', PStr (cc_path c)), (''question'', PStr (cc_question c)), (''sql'', PStr (cc_sql c))]\<rparr>"

context vector_store
begin

lemma ingest_reset:
  assumes "distinct (map dc_id chunks)"
  shows "contents V name (snd (ingest_into V name chunks True cl)) = map doc_of chunks"
    and "fst (ingest_into V name chunks True cl) = Inr ()"
proof -
  have d: "distinct (map fst (map doc_of chunks))" using assms by (simp add: doc_of_def comp_def)
  show "contents V name (snd (ingest_into V name chunks True cl)) = map doc_of chunks"
    and "fst (ingest_into V name chunks True cl) = Inr ()"
    using add_new [OF _ d, of "vs_new V"]
    by (cases "chunks = []"; cases "cl name"; force simp: ingest_into_def get_or_create_def contents_def items_new Let_def)+
qed

text \<open>Without a reset, what is there stays as it is, also when the file behind it has changed.\<close>

lemma ingest_again:
  assumes "distinct (map dc_id chunks)" and "cl name = Some c" and "chunks \<noteq> []"
  shows "contents V name (snd (ingest_into V name chunks False cl))
    = vs_items V c @ filter (\<lambda>x. fst x \<notin> fst ` set (vs_items V c)) (map doc_of chunks)"
proof -
  have d: "distinct (map fst (map doc_of chunks))" using assms by (simp add: doc_of_def comp_def)
  obtain c' where "vs_add V (map doc_of chunks) c = Inr c'"
    "vs_items V c' = vs_items V c @ filter (\<lambda>x. fst x \<notin> fst ` set (vs_items V c)) (map doc_of chunks)"
    using add_new [OF _ d, of c] assms(3) by auto
  then show ?thesis using assms(2,3) by (simp add: ingest_into_def get_or_create_def contents_def Let_def)
qed

lemma ingest_twice:
  assumes "distinct (map dc_id chunks)" and "distinct (map dc_id new)" and "map dc_id new = map dc_id chunks"
  shows "contents V name (snd (ingest_into V name new False (snd (ingest_into V name chunks True cl)))) = map doc_of chunks"
proof (cases "chunks = []")
  case True
  then show ?thesis using assms(3) ingest_reset(1) [OF assms(1), of name cl]
    by (cases "snd (ingest_into V name chunks True cl) name") (simp_all add: ingest_into_def get_or_create_def contents_def Let_def items_new)
next
  case False
  let ?cl = "snd (ingest_into V name chunks True cl)"
  have i: "contents V name ?cl = map doc_of chunks" by (rule ingest_reset(1) [OF assms(1)])
  have "contents V name ?cl \<noteq> []" using i False by simp
  then obtain c where c: "?cl name = Some c" "vs_items V c = map doc_of chunks"
    using i by (cases "?cl name") (auto simp: contents_def get_or_create_def items_new)
  have n: "new \<noteq> []" using assms(3) False by auto
  have i: "fst ` set (map doc_of new) = fst ` set (map doc_of chunks)"
    using arg_cong [OF assms(3), of set] by (simp add: image_image doc_of_def)
  have "\<not> fst x \<notin> fst ` set (map doc_of chunks)" if "x \<in> set (map doc_of new)" for x
    using imageI [OF that, of fst] i by simp
  then have "filter (\<lambda>x. fst x \<notin> fst ` set (map doc_of chunks)) (map doc_of new) = []"
    unfolding filter_empty_conv by blast
  then show ?thesis using ingest_again [where cl = ?cl and name = name, OF assms(2) c(1) n] c(2) by simp
qed

lemma deleted_gone:
  assumes "ids \<noteq> []"
  shows "contents V ''nl2sql_fewshot'' (snd (delete_fewshot_ids V ids cl))
    = filter (\<lambda>x. fst x \<notin> set ids) (contents V ''nl2sql_fewshot'' cl)"
  using delete_ids [OF assms, of "fst (get_or_create V ''nl2sql_fewshot'' cl)"]
  by (auto simp: delete_fewshot_ids_def contents_def get_or_create_def Let_def split: option.splits)

end

subsection \<open>build_bird_index\<close>

text \<open>The stem of a file name, \<open>os.path.splitext(fname)[0]\<close>: leading dots belong to it.\<close>

definition splitext_stem :: "string \<Rightarrow> string" where
  "splitext_stem fname =
     (case rfind_sub ''.'' fname of
        None \<Rightarrow> fname
      | Some i \<Rightarrow> if list_ex (\<lambda>c. c \<noteq> CHR ''.'') (take i fname) then take i fname else fname)"

text \<open>A row of a description file. A short row leaves its last columns at \<open>None\<close>.\<close>

type_synonym csv_row = "(string \<times> string option) list"

definition cell :: "csv_row \<Rightarrow> string \<Rightarrow> string" where      \<comment> \<open>\<open>row.get(name) or ""\<close>\<close>
  "cell row name = (case map_of row name of Some (Some v) \<Rightarrow> v | _ \<Rightarrow> [])"

definition column_name :: "csv_row \<Rightarrow> string py" where
  "column_name row =
     (if cell row ''column_name'' \<noteq> [] then Inr (strip (cell row ''column_name''))
      else (case map_of row ''original_column_name'' of
              None \<Rightarrow> Inr []
            | Some None \<Rightarrow> Inl (PyExc ''AttributeError'' ''NoneType object has no attribute strip'')
            | Some (Some v) \<Rightarrow> Inr (strip v)))"

definition value_text :: "string \<Rightarrow> string" where
  "value_text val_desc =
     (let v = strip (replace_all [CHR 0x0D] '' '' (replace_all nl '' '' val_desc))
      in if length v > 200 then take 200 v @ ''...'' else v)"

definition desc_parts :: "string \<Rightarrow> csv_row \<Rightarrow> string list" where
  "desc_parts col_name row =
     (let col_desc = strip (cell row ''column_description''); val_desc = strip (cell row ''value_description'')
      in (if col_desc \<noteq> [] \<and> lower col_desc \<noteq> lower col_name then [take 150 col_desc] else []) @
         (if val_desc \<noteq> [] \<and> val_desc \<noteq> col_desc then [value_text val_desc] else []))"

text \<open>The line of a column; none for a row without a name\<close>

definition column_line :: "csv_row \<Rightarrow> string option py" where
  "column_line row = py_bind (column_name row) (\<lambda>col_name.
     Inr (if col_name = [] then None
          else if desc_parts col_name row = [] then Some (''  - '' @ col_name)
          else Some (''  - '' @ col_name @ '': '' @ join ''; '' (desc_parts col_name row))))"

text \<open>
  A directory of the benchmark: its name, the files of its \<open>database_description\<close> (if there is one)
  with the rows read from each, and the tables of its SQLite file (if there is one). A file that cannot be
  decoded or read, and a database that cannot be queried, is an exception, reported and left out.
\<close>

record bird_dir =
  bd_id :: string
  bd_files :: "(string \<times> csv_row list py) list option"
  bd_ddl :: "(string \<times> string) list py option"

definition domain_chunk :: "string \<Rightarrow> string \<Rightarrow> string list \<Rightarrow> doc_chunk" where
  "domain_chunk db_id table_name lines =
     \<lparr>dc_id = ''bird:'' @ db_id @ '':'' @ table_name,
      dc_content = join nl ((''## '' @ table_name @ '' (database: '' @ db_id @ '')'') # lines),
      dc_meta = [(''db_id'', PStr db_id), (''table_name'', PStr table_name), (''chunk_type'', PStr ''domain''),
        (''source_path'', PStr (''bird://'' @ db_id @ ''/'' @ table_name))]\<rparr>"

definition schema_chunk :: "string \<Rightarrow> string \<times> string \<Rightarrow> doc_chunk" where
  "schema_chunk db_id t =
     (let (table_name, ddl) = t
      in \<lparr>dc_id = ''bird:schema:'' @ db_id @ '':'' @ table_name, dc_content = ddl,
          dc_meta = [(''db_id'', PStr db_id), (''table_name'', PStr table_name), (''chunk_type'', PStr ''schema''),
            (''source_path'', PStr (''bird://'' @ db_id @ ''/'' @ table_name @ ''?type=schema''))]\<rparr>)"

definition file_chunk :: "string \<Rightarrow> string \<times> csv_row list py \<Rightarrow> doc_chunk option" where
  "file_chunk db_id f =
     (let (fname, content) = f
      in if \<not> suffix ''.csv'' fname then None
         else (case py_bind content (py_map column_line) of
             Inl e \<Rightarrow> None
           | Inr ls \<Rightarrow>
               let lines = List.map_filter id ls
               in if lines = [] then None else Some (domain_chunk db_id (splitext_stem fname) lines)))"

definition dir_chunks :: "bird_dir \<Rightarrow> doc_chunk list" where
  "dir_chunks d =
     (case bd_files d of
        None \<Rightarrow> []
      | Some fs \<Rightarrow>
          List.map_filter (file_chunk (bd_id d)) (sort_key fst fs) @
          (case bd_ddl d of Some (Inr ts) \<Rightarrow> map (schema_chunk (bd_id d)) ts | _ \<Rightarrow> []))"

definition bird_chunks :: "bird_dir list \<Rightarrow> doc_chunk list" where
  "bird_chunks dirs = concat (map dir_chunks (sort_key bd_id dirs))"

definition build_bird_index :: "'c vectors \<Rightarrow> bird_dir list \<Rightarrow> 'c client \<Rightarrow> nat py \<times> 'c client" where
  "build_bird_index V dirs cl =
     (let (col, cl) = get_or_create V ''bird_minidev'' (cl(''bird_minidev'' := None));
          chunks = bird_chunks dirs
      in if chunks = [] then (Inr 0, cl)
         else (case vs_add V (map doc_of chunks) col of
             Inl e \<Rightarrow> (Inl e, cl)
           | Inr col \<Rightarrow> (Inr (length chunks), cl(''bird_minidev'' \<mapsto> col))))"

subsection \<open>The index is complete\<close>

definition orderly :: "bird_dir \<Rightarrow> bool" where
  "orderly d \<longleftrightarrow> CHR '':'' \<notin> set (bd_id d) \<and> bd_id d \<noteq> ''schema'' \<and>
     (\<forall>fs. bd_files d = Some fs \<longrightarrow> distinct (map fst fs) \<and> (\<forall>f \<in> set fs. fst f \<noteq> [] \<and> hd (fst f) \<noteq> CHR ''.'')) \<and>
     (\<forall>ts. bd_ddl d = Some (Inr ts) \<longrightarrow> distinct (map fst ts))"

lemma rfind_dot:
  assumes "CHR ''.'' \<notin> set ext"
  shows "rfind_sub ''.'' (s @ CHR ''.'' # ext) = Some (length s)"
proof (induction s)
  case Nil
  have "rfind_sub ''.'' ext = None" using assms by (induction ext) auto
  then show ?case by simp
qed simp

lemma stem_csv:
  assumes "s \<noteq> []" and "hd s \<noteq> CHR ''.''"
  shows "splitext_stem (s @ ''.csv'') = s"
  using rfind_dot [of "''csv''" s] assms by (cases s) (simp_all add: splitext_stem_def)

lemma map_filter_distinct:
  assumes "distinct xs" and "\<And>x y a b. x \<in> set xs \<Longrightarrow> y \<in> set xs \<Longrightarrow> f x = Some a \<Longrightarrow> f y = Some b \<Longrightarrow> g a = g b \<Longrightarrow> x = y"
  shows "distinct (map g (List.map_filter f xs))"
  using assms
proof (induction xs)
  case Nil
  then show ?case by (simp add: List.map_filter_def)
next
  case (Cons x xs)
  have "distinct (map g (List.map_filter f xs))" by (rule Cons.IH) (use Cons.prems in \<open>auto\<close>)
  moreover have "g a \<noteq> g b" if "f x = Some a" "y \<in> set xs" "f y = Some b" for a b y
    using Cons.prems(2) [of x y a b] Cons.prems(1) that by auto
  ultimately show ?case by (auto simp: List.map_filter_def)
qed

lemma in_map_filter: "y \<in> set (List.map_filter f xs) \<longleftrightarrow> (\<exists>x \<in> set xs. f x = Some y)"
  by (induction xs) (auto simp: List.map_filter_simps split: option.splits)

lemma colon_parts: "CHR '':'' \<notin> set a \<Longrightarrow> CHR '':'' \<notin> set c \<Longrightarrow> a @ CHR '':'' # b = c @ CHR '':'' # d \<Longrightarrow> a = c \<and> b = d"
  by (induction a arbitrary: c) (case_tac c; auto)+

lemma file_chunk_Some:
  assumes "file_chunk db f = Some c"
  obtains s where "fst f = s @ ''.csv''" and "dc_id c = ''bird:'' @ db @ '':'' @ splitext_stem (fst f)"
  using assms
  by (cases f) (auto simp: file_chunk_def Let_def domain_chunk_def suffix_def split: if_splits sum.splits)

lemma file_ids:
  assumes "distinct (map fst fs)" and "\<forall>f \<in> set fs. fst f \<noteq> [] \<and> hd (fst f) \<noteq> CHR ''.''"
  shows "distinct (map dc_id (List.map_filter (file_chunk db) (sort_key fst fs)))"
proof (rule map_filter_distinct)
  have "distinct fs" using assms(1) by (simp add: distinct_map)
  then show "distinct (sort_key fst fs)" by simp
next
  fix x y a b
  assume x: "x \<in> set (sort_key fst fs)" and y: "y \<in> set (sort_key fst fs)"
    and a: "file_chunk db x = Some a" and b: "file_chunk db y = Some b" and e: "dc_id a = dc_id b"
  obtain s where s: "fst x = s @ ''.csv''" "dc_id a = ''bird:'' @ db @ '':'' @ splitext_stem (fst x)" by (rule file_chunk_Some [OF a])
  obtain t where t: "fst y = t @ ''.csv''" "dc_id b = ''bird:'' @ db @ '':'' @ splitext_stem (fst y)" by (rule file_chunk_Some [OF b])
  have "s \<noteq> [] \<and> hd s \<noteq> CHR ''.''" using bspec [OF assms(2), of x] x s(1) by (cases s) auto
  moreover have "t \<noteq> [] \<and> hd t \<noteq> CHR ''.''" using bspec [OF assms(2), of y] y t(1) by (cases t) auto
  ultimately have "s = t" using e s t by (simp add: stem_csv)
  then show "x = y" using assms(1) x y s(1) t(1) by (auto simp: distinct_map inj_on_def)
qed

lemma schema_id: "dc_id (schema_chunk db t) = ''bird:'' @ ''schema'' @ '':'' @ db @ '':'' @ fst t"
  by (cases t) (simp add: schema_chunk_def)

lemma schema_ids:
  assumes "distinct (map fst ts)"
  shows "distinct (map dc_id (map (schema_chunk db) ts))"
proof -
  have "map dc_id (map (schema_chunk db) ts) = map (\<lambda>n. ''bird:'' @ ''schema'' @ '':'' @ db @ '':'' @ n) (map fst ts)"
    by (simp add: schema_id del: append_Cons)
  then show ?thesis using assms by (simp add: distinct_map inj_on_def del: map_map)
qed

text \<open>The two shapes of an identifier\<close>

lemma in_dir:
  assumes "c \<in> set (dir_chunks d)"
  shows "(\<exists>fs f. bd_files d = Some fs \<and> f \<in> set fs \<and> file_chunk (bd_id d) f = Some c)
    \<or> (\<exists>ts t. bd_ddl d = Some (Inr ts) \<and> t \<in> set ts \<and> c = schema_chunk (bd_id d) t)"
proof (cases "bd_files d")
  case None
  then show ?thesis using assms by (simp add: dir_chunks_def)
next
  case (Some fs)
  then have "c \<in> set (List.map_filter (file_chunk (bd_id d)) (sort_key fst fs))
    \<or> c \<in> set (case bd_ddl d of Some (Inr ts) \<Rightarrow> map (schema_chunk (bd_id d)) ts | _ \<Rightarrow> [])"
    using assms by (simp add: dir_chunks_def)
  then consider "c \<in> set (List.map_filter (file_chunk (bd_id d)) (sort_key fst fs))"
    | ts where "bd_ddl d = Some (Inr ts)" "c \<in> set (map (schema_chunk (bd_id d)) ts)"
    by (cases "bd_ddl d") (auto split: sum.splits)
  then show ?thesis
  proof cases
    case 1
    then obtain f where "f \<in> set fs" "file_chunk (bd_id d) f = Some c" by (auto simp: List.map_filter_def)
    then show ?thesis using Some by blast
  next
    case 2
    then show ?thesis by auto
  qed
qed

lemma dir_ids:
  assumes "c \<in> set (dir_chunks d)"
  shows "(\<exists>t. dc_id c = ''bird:'' @ bd_id d @ '':'' @ t) \<or> (\<exists>t. dc_id c = ''bird:'' @ ''schema'' @ '':'' @ bd_id d @ '':'' @ t)"
  using in_dir [OF assms]
proof (elim disjE exE conjE)
  fix fs f
  assume "file_chunk (bd_id d) f = Some c"
  then show ?thesis by (rule file_chunk_Some) blast
next
  fix ts t
  assume "c = schema_chunk (bd_id d) t"
  then show ?thesis using schema_id [of "bd_id d" t] by blast
qed

lemma dir_ids_distinct:
  assumes "orderly d"
  shows "distinct (map dc_id (dir_chunks d))"
proof (cases "bd_files d")
  case None
  then show ?thesis by (simp add: dir_chunks_def)
next
  case (Some fs)
  let ?A = "List.map_filter (file_chunk (bd_id d)) (sort_key fst fs)"
  have A: "distinct (map dc_id ?A)" by (rule file_ids) (use assms Some in \<open>auto simp: orderly_def\<close>)
  show ?thesis
  proof (cases "\<exists>ts. bd_ddl d = Some (Inr ts)")
    case False
    then have "dir_chunks d = ?A" using Some by (auto simp: dir_chunks_def split: option.splits sum.splits)
    then show ?thesis using A by simp
  next
    case True
    then obtain ts where t: "bd_ddl d = Some (Inr ts)" by blast
    have "distinct (map fst ts)" using assms t by (simp add: orderly_def)
    then have B: "distinct (map dc_id (map (schema_chunk (bd_id d)) ts))" by (rule schema_ids)
    have "dc_id a \<noteq> dc_id b" if a: "a \<in> set ?A" and b: "b \<in> set (map (schema_chunk (bd_id d)) ts)" for a b
    proof -
      have "\<exists>f. file_chunk (bd_id d) f = Some a" using a unfolding in_map_filter by blast
      then obtain f where "file_chunk (bd_id d) f = Some a" ..
      then obtain u where u: "dc_id a = ''bird:'' @ bd_id d @ '':'' @ u" by (rule file_chunk_Some) blast
      have "\<exists>v. dc_id b = ''bird:'' @ ''schema'' @ '':'' @ v" using b by (auto simp: schema_id)
      then obtain v where v: "dc_id b = ''bird:'' @ ''schema'' @ '':'' @ v" ..
      show ?thesis using colon_parts [of "bd_id d" "''schema''" u v] assms u v by (auto simp: orderly_def)
    qed
    then have "set (map dc_id ?A) \<inter> set (map dc_id (map (schema_chunk (bd_id d)) ts)) = {}" by (auto simp: image_iff)
    moreover have "dir_chunks d = ?A @ map (schema_chunk (bd_id d)) ts" using Some t by (simp add: dir_chunks_def)
    ultimately show ?thesis using A B by (simp del: set_map map_map)
  qed
qed

lemma ids_apart:
  assumes "orderly d" and "orderly e" and "bd_id d \<noteq> bd_id e" and "a \<in> set (dir_chunks d)" and "b \<in> set (dir_chunks e)"
  shows "dc_id a \<noteq> dc_id b"
proof -
  have n: "CHR '':'' \<notin> set (bd_id d)" "CHR '':'' \<notin> set (bd_id e)" "bd_id d \<noteq> ''schema''" "bd_id e \<noteq> ''schema''"
    using assms(1,2) by (simp_all add: orderly_def)
  note p = colon_parts [of "bd_id d" "bd_id e"] colon_parts [of "bd_id d" "''schema''"] colon_parts [of "''schema''" "bd_id e"]
  show ?thesis using dir_ids [OF assms(4)] dir_ids [OF assms(5)]
  proof (elim disjE exE)
    fix t u assume "dc_id a = ''bird:'' @ bd_id d @ '':'' @ t" "dc_id b = ''bird:'' @ bd_id e @ '':'' @ u"
    then show ?thesis using p(1) [of t u] n assms(3) by auto
  next
    fix t u assume "dc_id a = ''bird:'' @ bd_id d @ '':'' @ t" "dc_id b = ''bird:'' @ ''schema'' @ '':'' @ bd_id e @ '':'' @ u"
    then show ?thesis using p(2) [of t "bd_id e @ '':'' @ u"] n by auto
  next
    fix t u assume "dc_id a = ''bird:'' @ ''schema'' @ '':'' @ bd_id d @ '':'' @ t" "dc_id b = ''bird:'' @ bd_id e @ '':'' @ u"
    then show ?thesis using p(3) [of "bd_id d @ '':'' @ t" u] n by auto
  next
    fix t u assume "dc_id a = ''bird:'' @ ''schema'' @ '':'' @ bd_id d @ '':'' @ t" "dc_id b = ''bird:'' @ ''schema'' @ '':'' @ bd_id e @ '':'' @ u"
    then show ?thesis using p(1) [of t u] n assms(3) by auto
  qed
qed

lemma bird_ids_distinct:
  assumes "\<forall>d \<in> set dirs. orderly d" and "distinct (map bd_id dirs)"
  shows "distinct (map dc_id (concat (map dir_chunks dirs)))"
  using assms
proof (induction dirs)
  case (Cons d dirs)
  have "dc_id a \<noteq> dc_id b" if "a \<in> set (dir_chunks d)" "e \<in> set dirs" "b \<in> set (dir_chunks e)" for a b e
    by (rule ids_apart [of d e]) (use Cons.prems that in auto)
  then have "set (map dc_id (dir_chunks d)) \<inter> set (map dc_id (concat (map dir_chunks dirs))) = {}"
    by (auto simp: image_iff)
  moreover have "distinct (map dc_id (dir_chunks d))" "distinct (map dc_id (concat (map dir_chunks dirs)))"
    using Cons dir_ids_distinct by auto
  ultimately show ?case by (simp del: set_map)
qed simp

context vector_store
begin

lemma index_stored:
  assumes "distinct (map dc_id (bird_chunks dirs))"
  shows "fst (build_bird_index V dirs cl) = Inr (length (bird_chunks dirs))"
    and "contents V ''bird_minidev'' (snd (build_bird_index V dirs cl)) = map doc_of (bird_chunks dirs)"
proof -
  have d: "distinct (map fst (map doc_of (bird_chunks dirs)))" using assms by (simp add: doc_of_def comp_def)
  show "fst (build_bird_index V dirs cl) = Inr (length (bird_chunks dirs))"
    and "contents V ''bird_minidev'' (snd (build_bird_index V dirs cl)) = map doc_of (bird_chunks dirs)"
    using add_new [OF _ d, of "vs_new V"]
    by (cases "bird_chunks dirs = []"; force simp: build_bird_index_def get_or_create_def contents_def items_new Let_def)+
qed

end

lemma index_elsewhere:
  "name \<noteq> ''bird_minidev'' \<Longrightarrow> snd (build_bird_index V dirs cl) name = cl name"
  by (auto simp: build_bird_index_def get_or_create_def Let_def split: sum.splits)

definition zoo :: bird_dir where
  "zoo = \<lparr>bd_id = ''zoo'',
     bd_files = Some [(''animals.csv'', Inr
       [[(''original_column_name'', Some ''nm''), (''column_name'', Some []), (''column_description'', Some ''the name''), (''value_description'', None)]]),
       (''readme.txt'', Inr [])],
     bd_ddl = Some (Inr [(''animals'', ''CREATE TABLE animals(nm)'')])\<rparr>"

lemma zoo_orderly: "orderly zoo"
  by (simp add: orderly_def zoo_def)

text \<open>C40: for directories with the usual names, \<open>build_bird_index\<close> returns the number of chunks it made and leaves
  the collection with exactly these chunks, each under its own identifier, whatever the collection held before;
  the other collections stay as they are. The keyword index, which the script rebuilds afterwards from the
  collection, is not part of the model.\<close>

theorem bird_index_complete:
  assumes "vector_store V" and "\<forall>d \<in> set dirs. orderly d" and "distinct (map bd_id dirs)"
  shows "fst (build_bird_index V dirs cl) = Inr (length (bird_chunks dirs))
    \<and> contents V ''bird_minidev'' (snd (build_bird_index V dirs cl)) = map doc_of (bird_chunks dirs)
    \<and> distinct (map dc_id (bird_chunks dirs))
    \<and> (\<forall>name. name \<noteq> ''bird_minidev'' \<longrightarrow> snd (build_bird_index V dirs cl) name = cl name)"
proof -
  have "\<forall>d \<in> set (sort_key bd_id dirs). orderly d" "distinct (map bd_id (sort_key bd_id dirs))"
    using assms(2,3) by (simp_all add: distinct_map)
  then have d: "distinct (map dc_id (bird_chunks dirs))"
    unfolding bird_chunks_def by (rule bird_ids_distinct)
  then show ?thesis using vector_store.index_stored [OF assms(1) d] index_elsewhere by blast
qed

theorem bird_index_complete_witness:
  "fst (build_bird_index list_vectors [zoo] (\<lambda>_. None)) = Inr (length (bird_chunks [zoo]))"
  using bird_index_complete [where V = list_vectors and dirs = "[zoo]" and cl = "\<lambda>_. None", OF chroma.vector_store_axioms]
    zoo_orderly by simp

lemma zoo_index: "map doc_of (bird_chunks [zoo]) =
  [(''bird:zoo:animals'', ''## animals (database: zoo)'' @ nl @ ''  - nm: the name'',
     [(''db_id'', PStr ''zoo''), (''table_name'', PStr ''animals''), (''chunk_type'', PStr ''domain''), (''source_path'', PStr ''bird://zoo/animals'')]),
   (''bird:schema:zoo:animals'', ''CREATE TABLE animals(nm)'',
     [(''db_id'', PStr ''zoo''), (''table_name'', PStr ''animals''), (''chunk_type'', PStr ''schema''), (''source_path'', PStr ''bird://zoo/animals?type=schema'')])]"
  by code_simp

subsection \<open>ingest_bird_fewshot.py\<close>

text \<open>\<open>###\s*Q\s*\n(.*?)\n###\s*SQL\s*\n(.*?)(?=\n###\s*Q|\Z)\<close>, dot matching everything\<close>

definition rx_bird_pair :: rx where
  "rx_bird_pair = rseq [rlit ''###'', rstar rws, rlit ''Q'', rstar rws, rlit nl, RGrp 1 (rlazy rany),
     rlit (nl @ ''###''), rstar rws, rlit ''SQL'', rstar rws, rlit nl, RGrp 2 (rlazy rany),
     rlook (ralt [rseq [rlit (nl @ ''###''), rstar rws, rlit ''Q''], reot])]"

definition pair_chunk :: "string \<Rightarrow> string \<Rightarrow> nat \<times> re_match \<Rightarrow> doc_chunk" where
  "pair_chunk fname db_id im =
     (let (i, m) = im; q = strip (m_group 1 m); sql = strip (m_group 2 m)
      in \<lparr>dc_id = ''bird_fs:'' @ db_id @ '':'' @ show_nat i, dc_content = q,
          dc_meta = [(''db_id'', PStr db_id), (''question'', PStr q), (''sql'', PStr sql), (''source_path'', PStr fname)]\<rparr>)"

definition pair_chunks :: "string \<times> string \<Rightarrow> doc_chunk list" where
  "pair_chunks f =
     (let (fname, text) = f
      in if \<not> suffix ''.md'' fname then []
         else map (pair_chunk fname (replace_all ''.md'' [] fname)) (enumerate 0 (re_finditer rx_bird_pair text)))"

definition load_bird_fewshot :: "(string \<times> string) list option \<Rightarrow> doc_chunk list" where
  "load_bird_fewshot files = (case files of None \<Rightarrow> [] | Some fs \<Rightarrow> concat (map pair_chunks (sort_key fst fs)))"

text \<open>The script: the number of examples the collection has at the end, if there were any to store\<close>

definition ingest_bird_fewshot :: "'c vectors \<Rightarrow> (string \<times> string) list option \<Rightarrow> bool \<Rightarrow> 'c client \<Rightarrow> nat option py \<times> 'c client" where
  "ingest_bird_fewshot V files reset cl =
     (let chunks = load_bird_fewshot files
      in if chunks = [] then (Inr None, cl)
         else (case ingest_fewshot_chunks V chunks reset cl of
             (Inl e, cl) \<Rightarrow> (Inl e, cl)
           | (Inr _, cl) \<Rightarrow> (Inr (Some (get_fewshot_count V cl)), cl)))"

context vector_store
begin

lemma fewshot_reset:
  assumes "distinct (map dc_id (load_bird_fewshot files))" and "load_bird_fewshot files \<noteq> []"
  shows "fst (ingest_bird_fewshot V files True cl) = Inr (Some (length (load_bird_fewshot files)))"
    and "contents V ''nl2sql_fewshot'' (snd (ingest_bird_fewshot V files True cl)) = map doc_of (load_bird_fewshot files)"
  using ingest_reset [OF assms(1), of "''nl2sql_fewshot''" cl] assms(2)
  by (cases "ingest_into V ''nl2sql_fewshot'' (load_bird_fewshot files) True cl";
      simp add: ingest_bird_fewshot_def ingest_fewshot_chunks_def Let_def get_fewshot_count_def contents_def)+

end

lemma pairs_of_a_file:
  "map (\<lambda>c. (dc_id c, dc_content c, d_get (dc_meta c) ''sql''))
     (pair_chunks (''zoo.md'', ''### Q'' @ nl @ ''How many?'' @ nl @ nl @ ''### SQL'' @ nl @ ''SELECT 1'' @ nl @ nl @ ''### Q'' @ nl @ ''Who?'' @ nl @ ''### SQL'' @ nl @ ''SELECT 2'' @ nl))
   = [(''bird_fs:zoo:0'', ''How many?'', Some (PStr ''SELECT 1'')), (''bird_fs:zoo:1'', ''Who?'', Some (PStr ''SELECT 2''))]"
  by code_simp

end
