(* ===== verification/Deployment.thy ===== *)
theory Deployment
  imports StreamClient Services
begin

text \<open>
  What surrounds the service: the configuration read from the environment (\<open>storage/config.py\<close>), the
  containers of the two demo databases (\<open>deployment/docker_utils.py\<close>) and the endpoints for schema and
  databases (\<open>api/routes/health.py\<close>). The environment, the exit code and the output of \<open>docker compose\<close>,
  the clock and the inspector of a database are parameters.
\<close>

subsection \<open>Config\<close>

record app_config =
  LLM_BASE_URL :: string
  LLM_API_KEY :: string
  LLM_CHAT_MODEL :: string
  SQL_DIALECT :: string
  DATABASE_URL :: string
  CHROMA_PERSIST_DIR :: string
  CORPUS_DIR :: string
  EMBED_MODEL_NAME :: string
  REDIS_URL :: string
  API_HOST :: string
  API_PORT :: int

type_synonym environ = "string \<Rightarrow> string option"

definition getenv :: "environ \<Rightarrow> string \<Rightarrow> string \<Rightarrow> string" where
  "getenv env name dflt = (case env name of Some v \<Rightarrow> v | None \<Rightarrow> dflt)"

text \<open>\<open>int(text)\<close>: blanks around, a sign, decimal digits with single underscores between them\<close>

definition int_digits :: "string \<Rightarrow> int option" where
  "int_digits s =
     (let parts = split ''_'' s
      in if list_all isdigit parts then Some (int (parse_nat (concat parts))) else None)"

definition int_of_text :: "string \<Rightarrow> int py" where
  "int_of_text s =
     (let value = (case strip s of
          [] \<Rightarrow> None
        | c # ds \<Rightarrow> if c = CHR ''-'' then map_option uminus (int_digits ds)
            else if c = CHR ''+'' then int_digits ds else int_digits (c # ds))
      in case value of Some n \<Rightarrow> Inr n
       | None \<Rightarrow> Inl (PyExc ''ValueError'' (''invalid literal for int() with base 10: '' @ py_repr (PStr s))))"

definition config_of :: "environ \<Rightarrow> app_config py" where
  "config_of env =
     py_bind (int_of_text (getenv env ''API_PORT'' ''8000'')) (\<lambda>port. Inr
       \<lparr>LLM_BASE_URL = getenv env ''LLM_BASE_URL'' ''https://api.deepseek.com/v1'',
        LLM_API_KEY = getenv env ''LLM_API_KEY'' [],
        LLM_CHAT_MODEL = getenv env ''LLM_CHAT_MODEL'' ''deepseek-v4-pro'',
        SQL_DIALECT = getenv env ''SQL_DIALECT'' ''sqlite'',
        DATABASE_URL = getenv env ''DATABASE_URL'' ''sqlite:///./data/demo.db'',
        CHROMA_PERSIST_DIR = getenv env ''CHROMA_PERSIST_DIR'' ''./.chroma'',
        CORPUS_DIR = getenv env ''CORPUS_DIR'' ''./corpus'',
        EMBED_MODEL_NAME = getenv env ''EMBED_MODEL_NAME'' ''BAAI/bge-small-zh-v1.5'',
        REDIS_URL = getenv env ''REDIS_URL'' ''redis://localhost:6379/0'',
        API_HOST = getenv env ''API_HOST'' ''0.0.0.0'',
        API_PORT = port\<rparr>)"

text \<open>The page starts with these settings; what the session already has stays (\<open>ui/settings.py\<close>).\<close>

definition settings_defaults :: "app_config \<Rightarrow> pydict" where
  "settings_defaults cfg =
     [(''selected_db_name'', PNone), (''multi_candidate'', PBool True), (''rag_k'', PInt 8),
      (''rag_column_prune'', PBool False), (''fewshot_enabled'', PBool True), (''rag_fk_expand'', PBool True),
      (''llm_model'', PStr (LLM_CHAT_MODEL cfg)), (''llm_base_url'', PStr (LLM_BASE_URL cfg)),
      (''llm_api_key'', PStr (LLM_API_KEY cfg))]"

definition init_settings :: "app_config \<Rightarrow> pydict \<Rightarrow> pydict" where
  "init_settings cfg st = fold (\<lambda>(k, v) st. if d_get st k = None then d_set k v st else st) (settings_defaults cfg) st"

lemma config_default_port: "env ''API_PORT'' = None \<Longrightarrow> \<exists>cfg. config_of env = Inr cfg \<and> API_PORT cfg = 8000"
proof -
  assume "env ''API_PORT'' = None"
  moreover have "int_of_text ''8000'' = Inr 8000" by code_simp
  ultimately show ?thesis by (simp add: config_of_def getenv_def)
qed

subsection \<open>Containers\<close>

definition get_project_root :: "(string \<Rightarrow> bool) \<Rightarrow> string \<Rightarrow> string \<Rightarrow> string option \<Rightarrow> string \<times> string option" where
  "get_project_root exists base_dir cwd memo =
     (case non_empty memo of
        Some r \<Rightarrow> (r, memo)
      | None \<Rightarrow> (case find (\<lambda>c. exists (c @ ''/deployment/docker-compose.yml'')) [base_dir, cwd] of
          Some c \<Rightarrow> (c, Some c)
        | None \<Rightarrow> (base_dir, memo)))"

definition compose_file :: "string \<Rightarrow> string" where
  "compose_file project = project @ ''/deployment/docker-compose.yml''"

text \<open>\<open>run\<close> is \<open>subprocess.run\<close>: the exit code and the output of a command.\<close>

type_synonym shell = "string list \<Rightarrow> int \<times> string"

definition start_dbs :: "shell \<Rightarrow> string \<Rightarrow> bool" where
  "start_dbs run f = (fst (run [''docker'', ''compose'', ''-f'', f, ''up'', ''-d'', ''postgres'', ''mysql'']) = 0)"

definition stop_dbs :: "shell \<Rightarrow> string \<Rightarrow> bool" where
  "stop_dbs run f = (fst (run [''docker'', ''compose'', ''-f'', f, ''stop'', ''postgres'', ''mysql'']) = 0)"

text \<open>The flag and the handlers that run when the process ends\<close>

definition register_cleanup :: "bool \<times> string list \<Rightarrow> bool \<times> string list" where
  "register_cleanup st = (if fst st then st else (True, ''stop_dbs'' # snd st))"

lemma cleanup_once: "register_cleanup (register_cleanup st) = register_cleanup st"
  by (simp add: register_cleanup_def)

type_synonym db_health = "(string \<times> bool) list"

definition db_unknown :: db_health where
  "db_unknown = [(''postgres'', False), (''mysql'', False)]"

definition set_health :: "pydict \<Rightarrow> pyv \<Rightarrow> db_health \<Rightarrow> db_health" where
  "set_health svc name status =
     (case name of
        PStr n \<Rightarrow> if n \<in> fst ` set status
          then AList.update n (d_get svc ''Health'' = Some (PStr ''healthy'')) status else status
      | _ \<Rightarrow> status)"

definition service_line :: "string \<Rightarrow> db_health \<Rightarrow> db_health py" where
  "service_line line status =
     (if strip line = [] then Inr status
      else (case json_loads line of
          Inl e \<Rightarrow> if exc_type e = ''JSONDecodeError'' then Inr status else Inl e
        | Inr v \<Rightarrow>
            py_bind (as_dict v ''get'') (\<lambda>svc.
            py_bind (hashed (d_get_or svc ''Service'' (PStr []))) (\<lambda>name.
              Inr (set_health svc name status)))))"

fun service_lines :: "string list \<Rightarrow> db_health \<Rightarrow> db_health py" where
  "service_lines [] status = Inr status"
| "service_lines (l # ls) status = py_bind (service_line l status) (service_lines ls)"

definition look_at :: "string \<Rightarrow> db_health \<Rightarrow> db_health py" where
  "look_at out status = service_lines (split nl (strip out)) status"

text \<open>
  The loop: \<open>now i\<close> is the time of its i-th test and \<open>ps i\<close> the output of its i-th command; \<open>None\<close> would be
  a loop that does not end.
\<close>

partial_function (option) wait_dbs ::
  "(nat \<Rightarrow> rat) \<Rightarrow> (nat \<Rightarrow> string) \<Rightarrow> rat \<Rightarrow> nat \<Rightarrow> db_health \<Rightarrow> (nat \<times> db_health py) option" where
  "wait_dbs now ps deadline i status =
     (if \<not> now i < deadline then Some (i, Inr status)
      else if ps i = [] then wait_dbs now ps deadline (Suc i) status
      else (case look_at (ps i) status of
          Inl e \<Rightarrow> Some (Suc i, Inl e)
        | Inr status \<Rightarrow> if list_all snd status then Some (Suc i, Inr status)
            else wait_dbs now ps deadline (Suc i) status))"

text \<open>The result of \<open>start_dbs\<close> is not used. The first component counts the commands of the loop.\<close>

definition ensure_dbs ::
  "shell \<Rightarrow> string \<Rightarrow> rat \<Rightarrow> (nat \<Rightarrow> rat) \<Rightarrow> (nat \<Rightarrow> string) \<Rightarrow> bool \<Rightarrow> nat \<Rightarrow> bool \<times> string list
    \<Rightarrow> (nat \<times> db_health py) option \<times> bool \<times> string list" where
  "ensure_dbs run f start now ps wait_healthy timeout handlers =
     (let _ = start_dbs run f; handlers = register_cleanup handlers
      in (if \<not> wait_healthy then Some (0, Inr [(''postgres'', True), (''mysql'', True)])
          else wait_dbs now ps (start + of_nat timeout) 0 db_unknown, handlers))"

lemma set_health_keys: "map fst (set_health svc name status) = map fst status"
  by (cases name) (auto simp: set_health_def AList.update_keys)

lemma service_line_keys: "service_line l s = Inr s' \<Longrightarrow> map fst s' = map fst s"
  by (auto simp: service_line_def py_bind_Inr_iff set_health_keys split: if_splits sum.splits)

lemma service_lines_keys: "service_lines ls s = Inr s' \<Longrightarrow> map fst s' = map fst s"
  by (induction ls arbitrary: s) (auto simp: py_bind_Inr_iff dest!: service_line_keys)

lemma wait_dbs_ends:
  assumes "\<And>j. now j + 2 \<le> now (Suc j)" and "deadline - now i \<le> 2 * of_nat n"
  shows "\<exists>k r. wait_dbs now ps deadline i status = Some (k, r) \<and> i \<le> k \<and> k \<le> i + n
    \<and> (\<forall>s. r = Inr s \<longrightarrow> map fst s = map fst status \<and> (list_all snd s \<or> deadline \<le> now k))"
  using assms(2)
proof (induction n arbitrary: i status)
  case 0
  then have "\<not> now i < deadline" by simp
  then show ?case by (subst wait_dbs.simps) auto
next
  case (Suc n)
  have n: "deadline - now (Suc i) \<le> 2 * of_nat n" using Suc.prems assms(1) [of i] by (simp add: algebra_simps)
  show ?case
  proof (cases "now i < deadline")
    case False
    then show ?thesis by (subst wait_dbs.simps) auto
  next
    case going: True
    show ?thesis
    proof (cases "ps i = []")
      case True
      obtain k r where "wait_dbs now ps deadline (Suc i) status = Some (k, r)" "Suc i \<le> k" "k \<le> Suc i + n"
        "\<forall>s. r = Inr s \<longrightarrow> map fst s = map fst status \<and> (list_all snd s \<or> deadline \<le> now k)" using Suc.IH [OF n, of status] by blast
      then show ?thesis using True going by (subst wait_dbs.simps) simp
    next
      case False
      show ?thesis
      proof (cases "look_at (ps i) status")
        case (Inl e)
        then show ?thesis using False going by (subst wait_dbs.simps) simp
      next
        case (Inr s)
        have keys: "map fst s = map fst status" using Inr by (auto simp: look_at_def dest: service_lines_keys)
        obtain k r where w: "wait_dbs now ps deadline (Suc i) s = Some (k, r)" "Suc i \<le> k" "k \<le> Suc i + n"
          "\<forall>s'. r = Inr s' \<longrightarrow> map fst s' = map fst s \<and> (list_all snd s' \<or> deadline \<le> now k)" using Suc.IH [OF n, of s] by blast
        then show ?thesis using False going Inr keys by (subst wait_dbs.simps) (cases "list_all snd s"; simp)
      qed
    qed
  qed
qed

text \<open>Waiting for the containers ends: with two seconds between its tests it runs at most half as many commands
  as the timeout has seconds, rounded up. It raises, or answers for both services, all healthy or after the
  deadline.\<close>

lemma ensure_dbs_ends:
  assumes "\<And>j. now j + 2 \<le> now (Suc j)" and "start \<le> now 0"
  shows "\<exists>k r. fst (ensure_dbs run f start now ps True timeout handlers) = Some (k, r) \<and> k \<le> (timeout + 1) div 2
    \<and> (\<forall>s. r = Inr s \<longrightarrow> map fst s = [''postgres'', ''mysql''] \<and> (list_all snd s \<or> start + of_nat timeout \<le> now k))"
proof -
  have "timeout \<le> 2 * ((timeout + 1) div 2)" by simp
  then have "(of_nat timeout :: rat) \<le> 2 * of_nat ((timeout + 1) div 2)" by (metis of_nat_le_iff of_nat_mult of_nat_numeral)
  then have "start + of_nat timeout - now 0 \<le> 2 * of_nat ((timeout + 1) div 2)" using assms(2) by linarith
  from wait_dbs_ends [OF assms(1) this, of ps db_unknown] show ?thesis
    by (auto simp: ensure_dbs_def db_unknown_def Let_def)
qed

text \<open>Older versions of \<open>docker compose\<close> print one list instead of a line for each service: this raises.\<close>

lemma list_output_raises:
  "isl (look_at (''[{'' @ [CHR 0x22] @ ''Service'' @ [CHR 0x22] @ '':'' @ [CHR 0x22] @ ''mysql'' @ [CHR 0x22] @ ''}]'') db_unknown)"
  by code_simp

subsection \<open>Schema and databases\<close>

record schema_response =
  sr_ddl :: string
  sr_tables :: "(string \<times> string list) list"

text \<open>\<open>unreachable url\<close> is what reflecting a database that does not answer raises.\<close>

definition get_schema ::
  "(string \<Rightarrow> inspector) \<Rightarrow> (string \<Rightarrow> py_exc option) \<Rightarrow> app_config \<Rightarrow> schema_cache \<Rightarrow> schema_response api \<times> schema_cache" where
  "get_schema dbs unreachable cfg cache =
     (let (ddl, cache) = get_schema_summary dbs None cache
      in case (if map_of cache (DATABASE_URL cfg) = None then unreachable (DATABASE_URL cfg) else None) of
           Some e \<Rightarrow> (Inl (Http 500 (exc_msg e)), cache)
         | None \<Rightarrow>
             let (info, cache) = get_cached_schema_info dbs (DATABASE_URL cfg) cache
             in (Inr \<lparr>sr_ddl = ddl,
                  sr_tables = map (\<lambda>(t_lower, t_info). (actual_name t_info, map c_name (columns t_info))) info\<rparr>, cache))"

record db_info_response =
  dr_db_id :: string
  dr_display_name :: string
  dr_database_url :: string
  dr_domain :: string
  dr_table_count :: int

definition list_databases_endpoint :: "(string \<Rightarrow> string) \<Rightarrow> probe \<Rightarrow> string option \<Rightarrow> db_info_response list api" where
  "list_databases_endpoint abspath P content =
     api_bind (api_of (list_databases abspath P content)) (\<lambda>infos.
       Inr (map (\<lambda>d. \<lparr>dr_db_id = di_db_id d, dr_display_name = di_display_name d, dr_database_url = di_database_url d,
         dr_domain = di_domain d, dr_table_count = di_table_count d\<rparr>) infos))"

text \<open>The endpoint asks for the DDL of no database, so its text is always empty.\<close>

lemma schema_endpoint_has_no_ddl: "fst (get_schema dbs unreachable cfg cache) = Inr r \<Longrightarrow> sr_ddl r = []"
  by (auto simp: get_schema_def get_schema_summary_def Let_def split: option.splits prod.splits)

text \<open>A second request gives the same tables, also when the database has changed or is gone.\<close>

lemma schema_endpoint_cached:
  assumes "get_schema dbs unreachable cfg cache = (Inr r, cache')"
  shows "get_schema dbs' unreachable' cfg cache' = (Inr r, cache')"
proof -
  obtain info c where c: "get_cached_schema_info dbs (DATABASE_URL cfg) cache = (info, c)" by fastforce
  then have m: "map_of c (DATABASE_URL cfg) = Some info" by (rule cached_after)
  have "c = cache' \<and> r = \<lparr>sr_ddl = [], sr_tables = map (\<lambda>(t_lower, t_info). (actual_name t_info, map c_name (columns t_info))) info\<rparr>"
    using assms c by (auto simp: get_schema_def get_schema_summary_def Let_def split: option.splits if_splits)
  then show ?thesis using m cache_hit [OF m, of dbs'] by (simp add: get_schema_def get_schema_summary_def)
qed

end
