(* ===== verification/MarkdownReport.thy ===== *)
theory MarkdownReport
  imports BirdReport
begin

text \<open>
  The text of the benchmark report (\<open>write_summary_md\<close> and its parts in \<open>evaluation/reporter.py\<close>) and
  \<open>write_report\<close>, which writes the four files. The time stamps are arguments. Characters outside ASCII
  are their UTF-8 bytes.
\<close>

subsection \<open>Numbers in a format\<close>

definition fixed_digits :: "nat \<Rightarrow> nat \<Rightarrow> string" where
  "fixed_digits n m =
     (let d = show_nat m; ds = replicate (Suc n - length d) CHR ''0'' @ d; k = length ds - n
      in take k ds @ (if n = 0 then [] else ''.'' @ drop k ds))"

definition fixed :: "nat \<Rightarrow> rat \<Rightarrow> string" where            \<comment> \<open>\<open>f"{q:.nf}"\<close>\<close>
  "fixed n q = (if q < 0 then ''-'' else []) @ fixed_digits n (nat (round_half_even (\<bar>q\<bar> * 10 ^ n)))"

text \<open>The efficiency scores are rounded already, so four digits show them exactly.\<close>

definition fixed4 :: "real \<Rightarrow> string" where
  "fixed4 x = (if x < 0 then ''-'' else []) @ fixed_digits 4 (nat (round (\<bar>x\<bar> * 10 ^ 4)))"

definition percent :: "rat \<Rightarrow> string" where                \<comment> \<open>\<open>f"{q:.1%}"\<close>\<close>
  "percent q = fixed 1 (q * 100) @ ''%''"

fun group3 :: "string \<Rightarrow> string" where
  "group3 (a # b # c # d # ds) = a # b # c # CHR '','' # group3 (d # ds)"
| "group3 ds = ds"

definition thousands :: "int \<Rightarrow> string" where                \<comment> \<open>\<open>f"{i:,}"\<close>\<close>
  "thousands i = (if i < 0 then ''-'' else []) @ rev (group3 (rev (show_nat (nat \<bar>i\<bar>))))"

lemma fixed_example: "fixed 1 (5 / 2) = ''2.5''"
proof -
  have "fixed 1 (5 / 2) = fixed_digits 1 25" by (simp add: fixed_def round_half_even_def)
  moreover have "fixed_digits 1 25 = ''2.5''" by code_simp
  ultimately show ?thesis by simp
qed

lemma thousands_example: "rev (group3 (rev ''1234567'')) = ''1,234,567''"
  by simp

subsection \<open>Tables\<close>

record md_table =
  mt_title :: string
  mt_names :: "string list"
  mt_rule :: "nat list"
  mt_rows :: "string list list"

definition table_row :: "string list \<Rightarrow> string" where
  "table_row cells = ''| '' @ join '' | '' cells @ '' |''"

definition table_rule :: "nat list \<Rightarrow> string" where
  "table_rule ns = ''|'' @ join ''|'' (map (\<lambda>n. replicate n CHR ''-'') ns) @ ''|''"

definition table_lines :: "md_table \<Rightarrow> string list" where
  "table_lines t = table_row (mt_names t) # table_rule (mt_rule t) # map table_row (mt_rows t)"

definition table_text :: "md_table \<Rightarrow> string" where
  "table_text t = ''## '' @ mt_title t @ nl @ nl @ concat (map (\<lambda>l. l @ nl) (table_lines t))"

type_synonym runs = "(string \<times> config_report) list"

definition arrow :: string where "arrow = [CHR 0xE2, CHR 0x86, CHR 0x92]"
definition em_dash :: string where "em_dash = [CHR 0xE2, CHR 0x80, CHR 0x94]"
definition warning_sign :: string where "warning_sign = [CHR 0xE2, CHR 0x9A, CHR 0xA0]"

definition overall_row :: "string \<times> config_report \<Rightarrow> string list" where
  "overall_row nr =
     (let (name, r) = nr
      in [name, percent (xr_ex_rate r), fixed4 (xr_avg_ves r), show_nat (xr_passed r) @ ''/'' @ show_nat (xr_total r),
          if xr_crashed r = 0 then ''0'' else warning_sign @ show_nat (xr_crashed r),
          show_float (xr_avg_time_s r) @ ''s'', show_int (xr_avg_tokens r), fixed 0 (xr_tokens_per_s r),
          case xr_avg_recall r of None \<Rightarrow> ''-'' | Some q \<Rightarrow> percent q @ '' ('' @ show_nat (xr_recall_samples r) @ '')''])"

definition overall_table :: "runs \<Rightarrow> md_table" where
  "overall_table results = \<lparr>mt_title = ''Overall'',
     mt_names = [''Config'', ''EX'', ''VES'', ''Passed'', ''Crashed'', ''Avg Time'', ''Avg Tokens'', ''Tok/s'', ''RAG Recall''],
     mt_rule = [8, 5, 5, 8, 9, 10, 12, 7, 12], mt_rows = map overall_row results\<rparr>"

definition difficulty_cell :: "config_report \<Rightarrow> string \<Rightarrow> string" where
  "difficulty_cell r d =
     (case map_of (xr_diff r) d of
        None \<Rightarrow> ''-''
      | Some x \<Rightarrow> percent (dy_ex x) @ '' ('' @ show_nat (dy_passed x) @ ''/'' @ show_nat (dy_total x) @ '')'')"

definition difficulty_table :: "runs \<Rightarrow> md_table" where
  "difficulty_table results = \<lparr>mt_title = ''EX by Difficulty'',
     mt_names = [''Config'', ''Simple'', ''Moderate'', ''Challenging''], mt_rule = [8, 8, 10, 13],
     mt_rows = map (\<lambda>(name, r). name # map (difficulty_cell r) [''simple'', ''moderate'', ''challenging'']) results\<rparr>"

definition router_row :: "string \<times> config_report \<Rightarrow> string list" where
  "router_row nr =
     (let (name, r) = nr;
          n = (\<lambda>c. length (filter (\<lambda>t. rt_complexity_of t = Some c) (xr_routes r)));
          p = (\<lambda>c. length (filter (\<lambda>t. rt_complexity_of t = Some c \<and> rt_passed t) (xr_routes r)));
          ex = (\<lambda>c. if n c = 0 then ''-'' else percent (of_nat (p c) / of_nat (n c)))
      in [name, show_nat (n ''simple''), show_nat (n ''complex''), ex ''simple'', ex ''complex''])"

definition router_table :: "runs \<Rightarrow> md_table" where
  "router_table results = \<lparr>mt_title = ''Router Distribution'',
     mt_names = [''Config'', ''Router Simple'', ''Router Complex'', ''Simple EX'', ''Complex EX''], mt_rule = [8, 15, 16, 11, 12],
     mt_rows = map router_row (filter (\<lambda>(name, r). xr_routes r \<noteq> []) results)\<rparr>"

subsection \<open>Tables of the modules\<close>

definition with_stats :: "runs \<Rightarrow> (string \<times> pipeline_stats) list" where
  "with_stats results = List.map_filter (\<lambda>(name, r). map_option (Pair name) (xr_stats r)) results"

definition check_cells :: "check_stats \<Rightarrow> string list" where
  "check_cells c = [show_nat (cs_checked c), show_nat (cs_passed c), show_int (cs_rejected c), percent (cs_reject_rate c),
     show_nat (cs_fn c), percent (cs_fn_rate c)]"

definition guard_table :: "runs \<Rightarrow> md_table" where
  "guard_table results = \<lparr>mt_title = ''Guard (Hard SQL Validation)'',
     mt_names = [''Config'', ''Checked'', ''Passed'', ''Rejected'', ''Reject Rate'', ''FN (Pass'' @ arrow @ ''EX=0)'', ''FN Rate''],
     mt_rule = [8, 9, 8, 10, 13, 17, 9],
     mt_rows = map (\<lambda>(name, p). name # check_cells (ps_guard p)) (with_stats results)\<rparr>"

definition sem_table :: "runs \<Rightarrow> md_table" where
  "sem_table results = \<lparr>mt_title = ''Semantic Check (LLM Binary YES/NO)'',
     mt_names = [''Config'', ''Checked'', ''Passed'', ''Rejected'', ''Reject Rate'', ''FN (YES'' @ arrow @ ''EX=0)'', ''FN Rate'',
       ''FP (NO'' @ arrow @ ''EX=1)'', ''Escape Hatch''],
     mt_rule = [8, 9, 8, 10, 13, 16, 9, 14, 15],
     mt_rows = map (\<lambda>(name, p). name # check_cells (ps_sem p) @ [show_nat (ps_sem_fp p), show_nat (ps_sem_escape p)]) (with_stats results)\<rparr>"

definition correction_table :: "runs \<Rightarrow> md_table" where
  "correction_table results = \<lparr>mt_title = ''Self-Correction (Refiner'' @ arrow @ ''Generator Loop)'',
     mt_names = [''Config'', ''Retried'', ''Retry %'', ''Fixed'', ''Fix Rate''], mt_rule = [8, 9, 9, 7, 10],
     mt_rows = map (\<lambda>(name, p). [name, show_nat (ps_retried p), percent (ps_retry_pct p), show_nat (ps_retry_fixed p),
       percent (ps_fix_rate p)]) (with_stats results)\<rparr>"

definition voter_table :: "runs \<Rightarrow> md_table" where
  "voter_table results = \<lparr>mt_title = ''Voter (Multi-Candidate Execution Voting)'',
     mt_names = [''Config'', ''Multi Samples'', ''Avg Candidates'', ''Dist 1'', ''Dist 2'', ''Dist 3''], mt_rule = [8, 15, 16, 8, 8, 8],
     mt_rows = map (\<lambda>(name, p). [name, show_nat (ps_multi p), show_float (ps_avg_candidates p)]
         @ map (\<lambda>k. case map_of (ps_distribution p) k of Some n \<Rightarrow> show_nat n | None \<Rightarrow> ''0'') [''1'', ''2'', ''3''])
       (filter (\<lambda>(name, p). 0 < ps_multi p) (with_stats results))\<rparr>"

definition decomposer_table :: "runs \<Rightarrow> md_table" where
  "decomposer_table results = \<lparr>mt_title = ''Decomposer (Complex Question Decomposition)'',
     mt_names = [''Config'', ''Samples'', ''EX'', ''EX Rate'', ''Avg Sub-Questions''], mt_rule = [8, 9, 5, 9, 19],
     mt_rows = map (\<lambda>(name, p). [name, show_nat (ps_dec_used p), show_nat (ps_dec_ex p), percent (ps_dec_rate p), show_float (ps_avg_sub p)])
       (filter (\<lambda>(name, p). 0 < ps_dec_used p) (with_stats results))\<rparr>"

text \<open>The columns of the node times are the nodes of all configurations.\<close>

definition timed_nodes :: "runs \<Rightarrow> string list" where
  "timed_nodes results = sort (remdups (concat (map (\<lambda>(name, p). map fst (ps_node_avg p)) (with_stats results))))"

definition node_times :: "config_report \<Rightarrow> (string \<times> rat) list" where
  "node_times r = (case xr_stats r of None \<Rightarrow> [] | Some p \<Rightarrow> ps_node_avg p)"

definition timing_table :: "runs \<Rightarrow> md_table" where
  "timing_table results =
     (let nodes = timed_nodes results
      in \<lparr>mt_title = ''Node Timing (Avg per Sample)'', mt_names = ''Config'' # nodes, mt_rule = 8 # map (\<lambda>n. 8) nodes,
          mt_rows = map (\<lambda>(name, r). name # map (\<lambda>n. fixed 1 (case map_of (node_times r) n of Some t \<Rightarrow> t | None \<Rightarrow> 0) @ ''s'') nodes) results\<rparr>)"

definition feedback_table :: "runs \<Rightarrow> md_table" where
  "feedback_table results = \<lparr>mt_title = ''Evidence Feedback (EX=0 '' @ arrow @ '' BIRD Evidence as User Feedback)'',
     mt_names = [''Config'', ''Attempted'', ''Fixed'', ''Fix Rate'', ''EX Before'', ''EX After''], mt_rule = [8, 11, 7, 10, 11, 10],
     mt_rows = map (\<lambda>(name, r). [name, show_nat (xr_fb_attempted r), show_nat (xr_fb_fixed r), percent (xr_fb_fix_rate r),
       percent (xr_fb_pre_ex r), percent (xr_fb_post_ex r)]) (filter (\<lambda>(name, r). 0 < xr_fb_attempted r) results)\<rparr>"

definition recall_table :: "runs \<Rightarrow> md_table" where
  "recall_table results = \<lparr>mt_title = ''RAG Table Recall'', mt_names = [''Config'', ''Samples'', ''Avg Recall''], mt_rule = [8, 9, 12],
     mt_rows = concat (map (\<lambda>(name, r). case xr_avg_recall r of None \<Rightarrow> [] | Some q \<Rightarrow> [[name, show_nat (xr_recall_samples r), percent q]]) results)\<rparr>"

text \<open>Which tables there are; the one of the node times is a bare heading when there are no nodes.\<close>

definition some_rows :: "md_table \<Rightarrow> md_table list" where
  "some_rows t = (if mt_rows t = [] then [] else [t])"

definition pipeline_tables :: "runs \<Rightarrow> md_table list" where
  "pipeline_tables results =
     [guard_table results, sem_table results, correction_table results] @ some_rows (voter_table results)
     @ some_rows (decomposer_table results) @ [timing_table results] @ some_rows (feedback_table results) @ some_rows (recall_table results)"

definition report_tables :: "runs \<Rightarrow> md_table list" where
  "report_tables results =
     [overall_table results, difficulty_table results] @ some_rows (router_table results)
     @ (if with_stats results = [] then [] else pipeline_tables results)"

definition block_text :: "runs \<Rightarrow> md_table \<Rightarrow> string" where
  "block_text results t =
     (if t = timing_table results \<and> timed_nodes results = [] then ''## '' @ mt_title t @ nl @ nl else table_text t)"

definition cost_text :: "cost_estimate \<Rightarrow> string" where
  "cost_text c =
     nl @ ''## Token Cost'' @ nl @ nl @
     ''**Test run**: '' @ show_nat (co_calls c) @ '' calls, '' @ thousands (co_tokens c) @ '' tokens, $'' @ fixed 4 (co_total_usd c) @ nl @ nl @
     ''**Full run prediction** ('' @ show_nat (co_full_calls c) @ '' calls): ~'' @ thousands (co_full_tokens c) @ '' tokens, best $''
     @ fixed 2 (co_full_best c) @ '', with retries $'' @ fixed 2 (co_full_retries c) @ nl"

definition summary_md :: "string \<Rightarrow> string \<Rightarrow> runs \<Rightarrow> cost_estimate \<Rightarrow> string" where
  "summary_md date experiment results cost =
     ''# BIRD Mini-Dev Evaluation '' @ em_dash @ '' '' @ experiment @ nl @ nl @
     ''**Date**: '' @ date @ nl @
     ''**Samples**: '' @ show_nat (case results of [] \<Rightarrow> 0 | (name, r) # rs \<Rightarrow> xr_total r) @ nl @ nl @
     join nl (map (block_text results) (report_tables results)) @ cost_text cost"

subsection \<open>write_report\<close>

record report_files =
  rf_json :: "nat \<times> config_line list"
  rf_cost :: cost_estimate
  rf_csv :: "((string \<times> pyv) list \<times> real) list"
  rf_md :: string

definition report_path :: "string \<Rightarrow> string \<Rightarrow> string \<Rightarrow> string \<Rightarrow> string" where
  "report_path output_dir experiment ts name =
     output_dir @ ''/bird_'' @ (if experiment = [] then [] else experiment @ ''_'') @ ts @ ''_'' @ name"

text \<open>Each file has the time stamp of its own writing, \<open>ts i\<close>.\<close>

definition write_report ::
  "(nat \<Rightarrow> string) \<Rightarrow> string \<Rightarrow> string \<Rightarrow> string \<Rightarrow> runs \<Rightarrow> cost_estimate \<Rightarrow> (string \<times> string) list \<times> report_files" where
  "write_report ts date output_dir experiment results cost =
     (let path = report_path output_dir experiment
      in ([(''json'', path (ts 0) ''summary.json''), (''cost'', path (ts 1) ''cost.json''),
           (''csv'', path (ts 2) ''cases.csv''), (''md'', path (ts 3) ''summary.md'')],
          \<lparr>rf_json = summary_lines results, rf_cost = cost, rf_csv = csv_rows results,
           rf_md = summary_md date experiment results cost\<rparr>))"

subsection \<open>The tables are tables\<close>

text \<open>A line of a table has its cells between bars; a bar inside a cell would shift the columns.\<close>

definition barless :: "string \<Rightarrow> bool" where
  "barless s \<longleftrightarrow> CHR ''|'' \<notin> set s \<and> CHR 0x0A \<notin> set s"

definition bars :: "string \<Rightarrow> nat" where
  "bars s = count_list s CHR ''|''"

lemma bars_append [simp]: "bars (s @ t) = bars s + bars t"
  by (simp add: bars_def)

lemma barless_append [simp]: "barless (s @ t) \<longleftrightarrow> barless s \<and> barless t"
  by (auto simp: barless_def)

lemma barless_Nil [simp]: "barless []"
  by (simp add: barless_def)

lemma barless_Cons: "barless (c # s) \<longleftrightarrow> c \<noteq> CHR ''|'' \<and> c \<noteq> CHR 0x0A \<and> barless s"
  by (auto simp: barless_def)

lemma bars_barless: "barless s \<Longrightarrow> bars s = 0"
  by (simp add: bars_def barless_def count_list_0_iff)

lemma bars_join: "list_all barless xs \<Longrightarrow> bars (join '' | '' xs) = length xs - 1"
proof (induction xs)
  case (Cons x xs)
  then show ?case by (cases "xs = []") (simp_all add: join_Cons bars_barless, simp add: bars_def)
qed (simp add: bars_def)

lemma bars_rule: "bars (join ''|'' (map (\<lambda>n. replicate n CHR ''-'') ns)) = length ns - 1"
proof (induction ns)
  case (Cons n ns)
  have "bars (replicate n CHR ''-'') = 0" by (simp add: bars_def count_list_0_iff)
  then show ?case using Cons by (cases "ns = []") (simp_all add: join_Cons, simp add: bars_def)
qed (simp add: bars_def)

definition rectangular :: "md_table \<Rightarrow> bool" where
  "rectangular t \<longleftrightarrow> mt_names t \<noteq> [] \<and> length (mt_rule t) = length (mt_names t)
     \<and> list_all barless (mt_names t)
     \<and> list_all (\<lambda>r. length r = length (mt_names t) \<and> list_all barless r) (mt_rows t)"

lemma bars_ends: "bars ''| '' = 1" "bars '' |'' = 1" "bars ''|'' = 1"
  by (simp_all add: bars_def)

lemma bars_row: "list_all barless cells \<Longrightarrow> cells \<noteq> [] \<Longrightarrow> bars (table_row cells) = Suc (length cells)"
  unfolding table_row_def bars_append bars_ends by (cases cells) (simp_all only: bars_join, simp)

lemma bars_table_rule: "ns \<noteq> [] \<Longrightarrow> bars (table_rule ns) = Suc (length ns)"
  unfolding table_rule_def bars_append bars_ends bars_rule by (cases ns) simp_all

lemma rectangular_bars:
  assumes "rectangular t" and "l \<in> set (table_lines t)"
  shows "bars l = Suc (length (mt_names t))"
proof -
  consider "l = table_row (mt_names t)" | "l = table_rule (mt_rule t)" | r where "r \<in> set (mt_rows t)" "l = table_row r"
    using assms(2) by (auto simp: table_lines_def)
  then show ?thesis
  proof cases
    case 1
    then show ?thesis using assms(1) by (simp add: rectangular_def bars_row)
  next
    case 2
    have "mt_rule t \<noteq> []" using assms(1) by (auto simp: rectangular_def)
    then show ?thesis using assms(1) 2 by (simp add: rectangular_def bars_table_rule)
  next
    case 3
    have "length r = length (mt_names t) \<and> list_all barless r" using assms(1) 3(1) by (auto simp: rectangular_def list_all_iff)
    moreover from this have "r \<noteq> []" using assms(1) by (auto simp: rectangular_def)
    ultimately show ?thesis using 3(2) bars_row [of r] by simp
  qed
qed

subsection \<open>Numbers have no bars\<close>

lemma digit_barless: "is_digit_char c \<Longrightarrow> c \<noteq> CHR ''|'' \<and> c \<noteq> CHR 0x0A"
  by (auto simp: is_digit_char_def ord_of_def)

lemma digits_barless: "list_all is_digit_char s \<Longrightarrow> barless s"
  using digit_barless by (auto simp: barless_def list_all_iff)

lemma show_nat_barless [simp]: "barless (show_nat n)"
  by (intro digits_barless show_nat_digits)

lemma show_int_barless [simp]: "barless (show_int i)"
  by (simp add: show_int_def barless_Cons)

lemma barless_take: "barless s \<Longrightarrow> barless (take n s)" and barless_drop: "barless s \<Longrightarrow> barless (drop n s)"
  using set_take_subset [of n s] set_drop_subset [of n s] by (auto simp: barless_def)

lemma fixed_digits_barless [simp]: "barless (fixed_digits n m)"
proof -
  let ?ds = "replicate (Suc n - length (show_nat m)) CHR ''0'' @ show_nat m"
  have d: "barless ?ds" by (simp add: barless_def [of "replicate _ _"])
  have "barless (take k ?ds @ (if n = 0 then [] else ''.'' @ drop k ?ds))" for k
    using barless_take [OF d, of k] barless_drop [OF d, of k] by (simp only: barless_append barless_Cons split: if_split) simp
  then show ?thesis unfolding fixed_digits_def Let_def .
qed

lemma fixed_barless [simp]: "barless (fixed n q)" "barless (fixed4 x)"
  by (simp_all add: fixed_def fixed4_def barless_Cons)

lemma percent_barless [simp]: "barless (percent q)"
  by (simp add: percent_def barless_Cons)

lemma frac_digits_barless: "0 \<le> q \<Longrightarrow> q < 1 \<Longrightarrow> barless (frac_digits n q)"
proof (induction n arbitrary: q)
  case (Suc n)
  let ?d = "nat \<lfloor>10 * q\<rfloor>"
  have d: "?d < 10" using Suc.prems by (simp add: floor_less_iff nat_less_iff)
  have "is_digit_char (chr_of (48 + ?d))"
  proof -
    have "\<forall>k < 10. is_digit_char (chr_of (48 + k))" by code_simp
    then show ?thesis using d by blast
  qed
  moreover have "barless (frac_digits n (10 * q - of_int \<lfloor>10 * q\<rfloor>))"
    by (rule Suc.IH) linarith+
  ultimately show ?case using digit_barless by (simp add: barless_Cons)
qed simp

lemma show_float_barless [simp]: "barless (show_float q)"
proof -
  have "barless (frac_digits 17 (\<bar>q\<bar> - of_int \<lfloor>\<bar>q\<bar>\<rfloor>))" by (rule frac_digits_barless) linarith+
  then show ?thesis by (simp add: show_float_def Let_def barless_Cons)
qed

lemma signs_barless [simp]: "barless arrow" "barless em_dash" "barless warning_sign"
  by (simp_all add: arrow_def em_dash_def warning_sign_def barless_Cons)

subsection \<open>Every table of the report is rectangular\<close>

definition plain_names :: "runs \<Rightarrow> bool" where
  "plain_names results \<longleftrightarrow> list_all (\<lambda>(name, r). barless name \<and> list_all barless (map fst (node_times r))) results"

lemma plain_stats: "plain_names results \<Longrightarrow> list_all (\<lambda>(name, p). barless name \<and> list_all barless (map fst (ps_node_avg p))) (with_stats results)"
  by (induction results) (auto simp: plain_names_def with_stats_def node_times_def List.map_filter_simps split: option.splits)

lemma plain_nodes: "plain_names results \<Longrightarrow> list_all barless (timed_nodes results)"
  using plain_stats [of results] by (fastforce simp: timed_nodes_def list_all_iff)

lemma check_cells_barless: "length (check_cells c) = 6" "list_all barless (check_cells c)"
  by (simp_all add: check_cells_def)

lemma difficulty_cell_barless: "barless (difficulty_cell r d)"
  by (cases "map_of (xr_diff r) d") (simp_all add: difficulty_cell_def barless_Cons)

lemma tables_rectangular:
  assumes "plain_names results" and "t \<in> set (report_tables results)"
  shows "rectangular t"
proof -
  have n: "\<And>name r. (name, r) \<in> set results \<Longrightarrow> barless name"
    using assms(1) by (auto simp: plain_names_def list_all_iff)
  have s: "\<And>name p. (name, p) \<in> set (with_stats results) \<Longrightarrow> barless name"
    using plain_stats [OF assms(1)] by (auto simp: list_all_iff)
  have "rectangular (overall_table results)"
    using n by (auto simp: rectangular_def overall_table_def overall_row_def list_all_iff barless_Cons split: option.split)
  moreover have "rectangular (difficulty_table results)"
    using n by (auto simp: rectangular_def difficulty_table_def list_all_iff barless_Cons difficulty_cell_barless)
  moreover have "rectangular (router_table results)"
    using n by (auto simp: rectangular_def router_table_def router_row_def list_all_iff barless_Cons Let_def)
  moreover have "rectangular (guard_table results)"
    using s check_cells_barless by (auto simp: rectangular_def guard_table_def list_all_iff barless_Cons)
  moreover have "rectangular (sem_table results)"
    using s check_cells_barless by (auto simp: rectangular_def sem_table_def list_all_iff barless_Cons)
  moreover have "rectangular (correction_table results)"
    using s by (auto simp: rectangular_def correction_table_def list_all_iff barless_Cons)
  moreover have "rectangular (voter_table results)"
    using s by (auto simp: rectangular_def voter_table_def list_all_iff barless_Cons split: option.split)
  moreover have "rectangular (decomposer_table results)"
    using s by (auto simp: rectangular_def decomposer_table_def list_all_iff barless_Cons)
  moreover have "rectangular (timing_table results)"
    using n plain_nodes [OF assms(1)] by (auto simp: rectangular_def timing_table_def list_all_iff barless_Cons Let_def)
  moreover have "rectangular (feedback_table results)"
    using n by (auto simp: rectangular_def feedback_table_def list_all_iff barless_Cons)
  moreover have "rectangular (recall_table results)"
    using n by (auto simp: rectangular_def recall_table_def list_all_iff barless_Cons split: option.splits)
  ultimately show ?thesis using assms(2)
    by (auto simp: report_tables_def pipeline_tables_def some_rows_def split: if_splits)
qed

text \<open>Every line of a table of the report has one bar more than the table has columns, as long as the names of
  configurations and nodes have none.\<close>

theorem report_lines_aligned:
  assumes "plain_names results" and "t \<in> set (report_tables results)" and "l \<in> set (table_lines t)"
  shows "bars l = Suc (length (mt_names t))"
  by (rule rectangular_bars [OF tables_rectangular [OF assms(1,2)] assms(3)])

text \<open>The four files of a report never have the same path.\<close>

lemma path_ending: "6 \<le> length name \<Longrightarrow> take 6 (rev (report_path out experiment ts name)) = take 6 (rev name)"
  by (simp add: report_path_def)

lemma report_paths_distinct: "distinct (map snd (fst (write_report ts date out experiment results cost)))"
proof -
  have "map (\<lambda>p. take 6 (rev p)) (map snd (fst (write_report ts date out experiment results cost)))
      = [''nosj.y'', ''nosj.t'', ''vsc.se'', ''dm.yra'']"
    by (simp add: write_report_def Let_def path_ending)
  then have "distinct (map (\<lambda>p. take 6 (rev p)) (map snd (fst (write_report ts date out experiment results cost))))" by simp
  then show ?thesis by (metis distinct_map)
qed

end
