(* ===== verification/Spec2Isabelle.thy ===== *)
theory Spec2Isabelle
  imports Executor Prompts Guard Generator Voter SemanticCheck Retrieval ColumnPrune Refiner Json
    Pipeline TaskApi Metrics MiniPipeline QueryApi EvalTasks Middleware Services TypedTasks BirdReport
    StreamClient Sessions PageViews OtelBridge Ingest Deployment MarkdownReport
begin

text \<open>
  A model of the NL2SQL agent: a question in natural language is turned into a read-only SQL query by
  a graph of nodes around a chat model, and a worker runs that graph for tasks that arrive over a
  message broker.

  \<^bold>\<open>The program and the theories.\<close>

  \<^item> Foundations. \<open>Prelude\<close>: Python strings, lists and dictionaries. \<open>PyRegex\<close>: a matcher for the
    regular expressions the code uses. \<open>Values\<close>: Python values (\<open>pyv\<close>), exceptions and results
    (\<open>'a py\<close>, \<open>Inl\<close> is a raised exception), the text of a value. \<open>Trace\<close>: \<open>observability/logger.py\<close>.
    \<open>Json\<close>: \<open>json.dumps\<close> and \<open>json.loads\<close>. \<open>IsoTime\<close>: the time stamps of \<open>datetime\<close>. \<open>Difflib\<close>: the
    closest matches of \<open>difflib\<close>.
  \<^item> Checks of SQL. \<open>Safety\<close>: \<open>guard/safety_rules.py\<close>, \<open>guard/error_types.py\<close> and
    \<open>guard/ast_validator.py\<close>. \<open>Classifier\<close>: the classification of database errors in
    \<open>guard/error_classifier.py\<close>. \<open>Schema\<close>: \<open>retrieval/schema.py\<close>. \<open>Executor\<close>: \<open>tools/sql_executor.py\<close>
    and \<open>agent/nodes/executor.py\<close>.
  \<^item> Retrieval. \<open>Retrieval\<close>: hybrid search, prompt context and foreign keys (\<open>retrieval/hybrid_search.py\<close>,
    \<open>rag_retrieve.py\<close>, \<open>fk_expand.py\<close>). \<open>ColumnPrune\<close>: \<open>retrieval/column_prune.py\<close>. \<open>Fewshot\<close>:
    \<open>retrieval/fewshot_retrieve.py\<close> and its node.
  \<^item> The nodes of the graph, each a function from \<open>agent_state\<close> (\<open>agent/state.py\<close>, theory \<open>AgentState\<close>)
    to \<open>node_out\<close>: an exception with the log written so far, or the new state. \<open>Router\<close>,
    \<open>SchemaRetriever\<close>, \<open>Decomposer\<close>, \<open>Generator\<close> (with \<open>agent/generator_llm.py\<close>), \<open>Guard\<close>, \<open>Voter\<close>,
    \<open>SemanticCheck\<close> and \<open>Refiner\<close> model the files of the same names under \<open>agent/nodes\<close>. \<open>Prompts\<close>
    holds the texts of \<open>agent/prompts.py\<close>.
  \<^item> The graphs. \<open>Pipeline\<close>: \<open>agent/graphs/full_graph.py\<close> and \<open>feedback_graph.py\<close> as next-node functions
    \<open>next_full\<close> and \<open>next_feedback\<close>, a step relation \<open>reach\<close> and a runner \<open>graph_run\<close> with fuel.
  \<^item> The task service. \<open>TaskStore\<close>: \<open>infrastructure/task_store.py\<close> over a key-value store with expiry.
    \<open>Broker\<close>: \<open>infrastructure/broker.py\<close>. \<open>Worker\<close>: \<open>worker/main.py\<close>, its state the pair of store and
    broker (\<open>world\<close>). \<open>TaskApi\<close>: the endpoints of \<open>api/routes/task.py\<close>. \<open>TypedTasks\<close>: the moves of API and
    workers as one relation (\<open>service\<close>) and the types of the stored task states.
  \<^item> The query service. \<open>Review\<close> and \<open>MiniPipeline\<close>: the older pipeline of \<open>guard/review.py\<close> and \<open>run\<close> in
    \<open>guard/error_classifier.py\<close>. \<open>RedisCache\<close>: \<open>storage/redis_cache.py\<close> over sets of keys. \<open>QueryApi\<close>:
    \<open>api/routes/query.py\<close>. \<open>Middleware\<close>: \<open>api/middleware.py\<close> over counters. \<open>Services\<close>: the choice of the chat
    model (\<open>agent/llm_factory.py\<close>), the health and evaluation endpoints, \<open>storage/db_registry.py\<close>.
  \<^item> Evaluation. \<open>Metrics\<close>: \<open>evaluation/metrics.py\<close>. \<open>EvalTasks\<close>: \<open>evaluation/task_manager.py\<close>. \<open>BirdSample\<close>,
    \<open>BirdRun\<close> and \<open>BirdReport\<close>: loading and evaluation of one benchmark sample, the pool that runs a
    configuration, and statistics, checkpoints and reports (\<open>evaluation/run.py\<close>, \<open>bird_loader.py\<close>,
    \<open>precompute_gold.py\<close>, \<open>reporter.py\<close>). \<open>MarkdownReport\<close>: the text of the Markdown report.
  \<^item> The pages and what surrounds the service. \<open>StreamClient\<close>: the clients of the event streams in
    \<open>ui/query.py\<close> and \<open>ui/app.py\<close>, a loop over the lines of a response (\<open>read_lines\<close>) with one handler for each
    page. \<open>Sessions\<close>: the state of a user's session in \<open>ui/app.py\<close> and all that can happen to it (\<open>ui_step\<close>).
    \<open>PageViews\<close>: presets of models, chart and exports. \<open>OtelBridge\<close>: \<open>observability/otel_bridge.py\<close>.
    \<open>Ingest\<close>: filling of the vector store (\<open>retrieval/rag_retrieve.py\<close>, \<open>fewshot_retrieve.py\<close>,
    \<open>scripts/ingest_bird.py\<close>, \<open>ingest_bird_fewshot.py\<close>). \<open>Deployment\<close>: \<open>storage/config.py\<close>,
    \<open>deployment/docker_utils.py\<close> and the endpoints for schema and databases.

  \<^bold>\<open>How state and operations correspond.\<close> A node reads keys of a dictionary with defaults and returns an
  update; here the state is a record with one optional field per key, \<open>or_default d f\<close> is
  \<open>state.get(k, d)\<close>, and the returned record is the merged state. The log and the clock are explicit: the
  \<open>tlog\<close> field holds the events, \<open>t n\<close> is the n-th reading of the clock in a node. Exceptions are values,
  so that every \<open>raise\<close>, \<open>try\<close> and early return is a branch. The store is threaded through; \<open>None\<close> is the
  store that could not be reached when the process asked for it first.

  \<^bold>\<open>Parameters.\<close> Code outside the repository is an argument: the parser \<open>sqlglot\<close>, the chat model \<open>llm\<close>,
  the database \<open>database\<close>, the inspector of schemas, the collections of the vector store, the tokenizer,
  the key-value store \<open>kv\<close>, the embedder, the broker's answers and the moves of other processes. The laws
  the code relies on are named: \<open>kv_store\<close> (reading what was written until it expires), \<open>honours_limit\<close> (what a
  wrapped query with LIMIT returns, for texts that passed the check). The operations of \<open>kv_store\<close> are those of a
  connection that holds; what is left of an operation of \<open>TaskStore\<close> under which the connection breaks is \<open>run_linked\<close>,
  and no other theory lets the connection break. The interfaces are locales: \<open>pipeline_nodes\<close>, what the graph needs of its nodes,
  interpreted as \<open>pipe\<close> on the modelled nodes; \<open>kv_store\<close>, interpreted as \<open>redis\<close> on an executable store with a
  clock; \<open>set_store\<close>, its extension by sets (\<open>set_redis\<close>); \<open>counter_store\<close>, counters that expire (\<open>counters\<close>); \<open>sse_channel\<close>, lines that carry
  events in their order (\<open>plain_channel\<close>); \<open>vector_store\<close>, collections of documents (\<open>chroma\<close>).

  \<^bold>\<open>What is shown.\<close> Each theory states which text and parse the checks accept, what the nodes write on every
  branch and when they raise. Across components: unsafe text never reaches the database
  (\<open>execution_gate\<close>); every run of the graph follows an abstract machine of at most \<open>rounds_left\<close> + 1
  generations (\<open>pipeline_refines_rounds\<close>, \<open>pipeline_terminates\<close>); what a finished run holds
  (\<open>pipeline_result_safe\<close>); the schema check accepts what schema and query declare
  (\<open>check_hallucinations_correct\<close>); a query is rejected by the semantic check at most twice in a row
  (\<open>semantic_check_bounded\<close>); the feedback graph is the full graph entered at the refiner; the status of a
  task moves along the table of transitions under every sequence of operations
  (\<open>task_status_machine\<close>), also when the connection breaks under some of them; states and messages survive
  serialisation; a task that always fails is tried four times and becomes one dead letter, or ends TIMEOUT at
  once if its exception is a \<open>TimeoutError\<close> (\<open>failing_task_dead_letter\<close>); what races, timeouts and shutdown do to a task; every state any
  process stores for a task has the declared types (\<open>status_always_typed\<close>); an answer from the cache has
  just been executed (\<open>cache_hit_is_executed\<close>) but may come from another database; the rate limit of any
  minute; an evaluation run ends with consistent progress over every order of its samples and every
  cancellation (\<open>eval_run_ends\<close>); a benchmark batch ends whatever its samples do (\<open>batch_always_ends\<close>),
  with rates between 0 and 1. Both pages show the answer the server computed, over every channel that
  carries the events in order (\<open>page_shows_answer\<close>, \<open>task_page_shows_task\<close>); a session stays consistent under
  every sequence of actions (\<open>session_sound\<close>); the index of the benchmark holds exactly its chunks
  (\<open>bird_index_complete\<close>); the exported spans end once (\<open>export_spans_end\<close>).

  \<^bold>\<open>Bounds and fuel.\<close> \<open>graph_run\<close> takes 10 + 6 * rounds steps, where rounds is how often the refiner may
  still go back: four nodes before the first generation and six in each round, and with the default of
  two retries 22 nodes, below the limit of 25 of the graph library; the query endpoint and the
  evaluations run it with this fuel. A sample of a benchmark is tried three times, for 120, 300 and 480
  seconds; the pool is a function of the turns of its loop, and some number of turns ends the batch. The
  wait for the containers (\<open>wait_dbs\<close>) may not end for a clock that stands still; with two seconds between its
  tests it does (\<open>ensure_dbs_ends\<close>). \<open>json_loads\<close> uses twice the length of the
  text plus one; \<open>js_fuel\<close> proves that this always ends in a value or a decoding error. The regular
  expression matcher bounds a star by the length of the rest of the text; \<open>rx_ms_iff\<close> shows that it finds
  exactly the matches of the relation \<open>rmatch\<close>.

  \<^bold>\<open>Not modelled.\<close> The drawing of the pages, whose clicks and texts are arguments; printed lines
  (output only); the Java gateway (another language); construction of the application and of the
  embedder (calls of a framework); inside the vector store, the tracing library, the chat
  model and the database (parameters).
  Floats are rationals, so rounding of the representation is not visible, except similarities and
  efficiency scores, which are real numbers; characters are those of the type \<open>char\<close>, the non-ASCII texts
  are written as their UTF-8 bytes. \<open>TaskStore\<close> and \<open>Worker\<close> leave aside the log messages of \<open>logging\<close>.
\<close>

end
